(* ===== verification/Prelude.thy ===== *)
theory Prelude
  imports Complex_Main "HOL-Library.Sublist" "HOL-Library.Char_ord" "HOL-Library.List_Lexorder"
begin

text \<open>
  Shared vocabulary of the development: Python text, JSON values and their truth value, points
  in time, exceptions, and the state-and-exception programs in which the handlers of the hub are
  written. A program that raises keeps the state it had reached, as a Python function that raises
  keeps the rows it has already saved.
\<close>

named_theorems prog_simps \<open>unfolding of the program combinators\<close>
named_theorems str_simps \<open>facts about the Python string functions\<close>


section \<open>Time\<close>

text \<open>
  A datetime is a number of microseconds (the resolution of Python's datetime); a timedelta is a
  difference of two such numbers.
\<close>

type_synonym time = int

definition seconds :: "int \<Rightarrow> int" where
  "seconds n = n * 1000000"

definition minutes :: "int \<Rightarrow> int" where
  "minutes n = seconds (60 * n)"

definition hours :: "int \<Rightarrow> int" where
  "hours n = minutes (60 * n)"

lemmas time_defs = seconds_def minutes_def hours_def


section \<open>Python text\<close>

text \<open>
  A \<open>str\<close> is a list of characters; a character is a code point below 256. The functions below
  are the methods of \<open>str\<close> that the sources use.
\<close>

definition is_space :: "char \<Rightarrow> bool" where
  "is_space c = (let n = of_char c :: nat in
     (9 \<le> n \<and> n \<le> 13) \<or> (28 \<le> n \<and> n \<le> 32) \<or> n = 133 \<or> n = 160)"

definition lower_char :: "char \<Rightarrow> char" where
  "lower_char c = (let n = of_char c :: nat in
     if (65 \<le> n \<and> n \<le> 90) \<or> (192 \<le> n \<and> n \<le> 222 \<and> n \<noteq> 215) then char_of (n + 32) else c)"

definition is_digit :: "char \<Rightarrow> bool" where
  "is_digit c = (let n = of_char c :: nat in 48 \<le> n \<and> n \<le> 57)"

definition lstrip :: "string \<Rightarrow> string" where
  "lstrip s = dropWhile is_space s"

definition strip :: "string \<Rightarrow> string" where
  "strip s = rev (dropWhile is_space (rev (dropWhile is_space s)))"

definition lower :: "string \<Rightarrow> string" where
  "lower s = map lower_char s"

definition replace_char :: "char \<Rightarrow> char \<Rightarrow> string \<Rightarrow> string" where
  "replace_char a b s = map (\<lambda>c. if c = a then b else c) s"

text \<open>\<open>s.partition(c)\<close>: the text before the first \<open>c\<close> and the text after it.\<close>

definition partition_char :: "char \<Rightarrow> string \<Rightarrow> string \<times> string" where
  "partition_char c s = (takeWhile (\<lambda>x. x \<noteq> c) s, tl (dropWhile (\<lambda>x. x \<noteq> c) s))"

text \<open>\<open>s.split(c)\<close>: always at least one part.\<close>

fun split_char :: "char \<Rightarrow> string \<Rightarrow> string list" where
  "split_char c [] = [[]]"
| "split_char c (x # xs) =
     (if x = c then [] # split_char c xs
      else case split_char c xs of [] \<Rightarrow> [[x]] | p # ps \<Rightarrow> (x # p) # ps)"

fun join :: "string \<Rightarrow> string list \<Rightarrow> string" where
  "join sep [] = []"
| "join sep [x] = x"
| "join sep (x # y # ys) = x @ sep @ join sep (y # ys)"

text \<open>Decimal text of a number: \<open>str(n)\<close>.\<close>

definition digit :: "nat \<Rightarrow> char" where
  "digit n = char_of (48 + n)"

fun str_nat :: "nat \<Rightarrow> string" where
  "str_nat n = (if n < 10 then [digit n] else str_nat (n div 10) @ [digit (n mod 10)])"

declare str_nat.simps [simp del]

definition str_int :: "int \<Rightarrow> string" where
  "str_int i = (if i < 0 then CHR ''-'' # str_nat (nat (- i)) else str_nat (nat i))"

text \<open>The number a decimal text denotes; the inverse of \<open>str_nat\<close> on its range.\<close>

definition nat_of_digits :: "string \<Rightarrow> nat" where
  "nat_of_digits s = foldl (\<lambda>n c. 10 * n + (of_char c - 48)) 0 s"

lemma of_char_digit [simp]: "n < 10 \<Longrightarrow> of_char (digit n) = 48 + n"
  by (simp add: digit_def)

lemma nat_of_digits_snoc:
  "nat_of_digits (s @ [c]) = 10 * nat_of_digits s + (of_char c - 48)"
  by (simp add: nat_of_digits_def)

lemma nat_of_str_nat [simp]: "nat_of_digits (str_nat n) = n"
proof (induction n rule: str_nat.induct)
  case (1 n)
  show ?case
  proof (cases "n < 10")
    case True
    then show ?thesis by (simp add: str_nat.simps [of n] nat_of_digits_def)
  next
    case False
    with "1.IH" show ?thesis by (simp add: str_nat.simps [of n] nat_of_digits_snoc)
  qed
qed

lemma str_nat_eq_iff [simp]: "str_nat m = str_nat n \<longleftrightarrow> m = n"
  by (metis nat_of_str_nat)

lemma str_nat_nonempty [simp]: "str_nat n \<noteq> []"
  by (simp add: str_nat.simps [of n])

lemma digits_str_nat: "c \<in> set (str_nat n) \<Longrightarrow> is_digit c"
proof (induction n rule: str_nat.induct)
  case (1 n)
  show ?case
  proof (cases "n < 10")
    case True
    with "1.prems" show ?thesis by (simp add: str_nat.simps [of n] is_digit_def)
  next
    case False
    with "1.prems" have "c \<in> set (str_nat (n div 10)) \<or> c = digit (n mod 10)"
      by (auto simp: str_nat.simps [of n])
    with "1.IH" [OF False] show ?thesis by (auto simp: is_digit_def)
  qed
qed

lemma strip_Nil [simp]: "strip [] = []"
  by (simp add: strip_def)

lemma strip_eq_Nil_iff: "strip s = [] \<longleftrightarrow> (\<forall>c \<in> set s. is_space c)"
proof -
  have "strip s = [] \<longleftrightarrow> (\<forall>c \<in> set (dropWhile is_space s). is_space c)"
    by (simp add: strip_def)
  also have "\<dots> \<longleftrightarrow> dropWhile is_space s = []"
    by (metis hd_dropWhile hd_in_set empty_iff list.set(1))
  finally show ?thesis by simp
qed


lemma strip_idem: "strip (strip x) = strip x"
proof -
  let ?y = "dropWhile is_space x"
  have "dropWhile is_space (strip x) = strip x"
  proof (cases "strip x")
    case (Cons c cs)
    then have "?y \<noteq> []" by (metis dropWhile.simps(1) list.distinct(1) rev.simps(1) strip_def)
    then have "\<not> is_space (hd ?y)" by (rule hd_dropWhile)
    moreover have "prefix (strip x) ?y"
      by (metis prefixI rev_rev_ident rev_append strip_def takeWhile_dropWhile_id)
    ultimately have "\<not> is_space c" using Cons by (cases ?y) auto
    with Cons show ?thesis by simp
  qed simp
  moreover have "dropWhile is_space (rev (strip x)) = rev (strip x)" by (simp add: strip_def)
  ultimately show ?thesis by (simp add: strip_def [of "strip x"])
qed

lemma strip_strip_nonempty: "strip s \<noteq> [] \<Longrightarrow> strip (strip s) \<noteq> []"
proof -
  let ?d = "dropWhile is_space (rev (dropWhile is_space s))"
  assume "strip s \<noteq> []"
  then have "?d \<noteq> []" by (simp add: strip_def)
  then have "\<not> is_space (hd ?d)" "hd ?d \<in> set (strip s)"
    by (simp_all add: hd_dropWhile strip_def)
  then show ?thesis by (auto simp: strip_eq_Nil_iff)
qed


section \<open>JSON values\<close>

text \<open>
  The values \<open>json.loads\<close> returns and JSON columns hold. Numbers are integers: no document the
  modelled code reads has a field for which it expects a fraction. An object keeps its keys in
  insertion order, as a Python dict does.
\<close>

datatype json = JNull | JBool bool | JInt int | JStr string | JArr "json list"
  | JObj "(string \<times> json) list"

text \<open>Python's truth value of such an object.\<close>

fun truthy :: "json \<Rightarrow> bool" where
  "truthy JNull = False"
| "truthy (JBool b) = b"
| "truthy (JInt i) = (i \<noteq> 0)"
| "truthy (JStr s) = (s \<noteq> [])"
| "truthy (JArr xs) = (xs \<noteq> [])"
| "truthy (JObj kvs) = (kvs \<noteq> [])"

text \<open>\<open>d.get(k)\<close> on the fields of a dict; a missing key gives \<open>None\<close>.\<close>

definition jget :: "(string \<times> json) list \<Rightarrow> string \<Rightarrow> json" where
  "jget d k = (case map_of d k of None \<Rightarrow> JNull | Some v \<Rightarrow> v)"

definition has_key :: "(string \<times> json) list \<Rightarrow> string \<Rightarrow> bool" where
  "has_key d k = (k \<in> fst ` set d)"

text \<open>\<open>d[k] = v\<close>: in place when the key exists, at the end otherwise.\<close>

fun jset :: "(string \<times> json) list \<Rightarrow> string \<Rightarrow> json \<Rightarrow> (string \<times> json) list" where
  "jset [] k v = [(k, v)]"
| "jset ((k', v') # d) k v = (if k' = k then (k, v) # d else (k', v') # jset d k v)"

definition jdel :: "(string \<times> json) list \<Rightarrow> string \<Rightarrow> (string \<times> json) list" where
  "jdel d k = filter (\<lambda>(k', v). k' \<noteq> k) d"

fun is_obj :: "json \<Rightarrow> bool" where
  "is_obj (JObj _) = True"
| "is_obj _ = False"

fun is_arr :: "json \<Rightarrow> bool" where
  "is_arr (JArr _) = True"
| "is_arr _ = False"

text \<open>The fields of \<open>x or {}\<close> for a value that is a dict or falsy.\<close>

fun obj_fields :: "json \<Rightarrow> (string \<times> json) list" where
  "obj_fields (JObj d) = d"
| "obj_fields _ = []"

fun arr_items :: "json \<Rightarrow> json list" where
  "arr_items (JArr xs) = xs"
| "arr_items _ = []"

lemma map_of_jset [simp]: "map_of (jset d k v) = (map_of d)(k \<mapsto> v)"
  by (induction d) auto

lemma jget_jset [simp]: "jget (jset d k v) k' = (if k' = k then v else jget d k')"
  by (simp add: jget_def)

lemma map_of_jdel [simp]: "map_of (jdel d k) = (map_of d)(k := None)"
  unfolding jdel_def by (induction d) auto

lemma jget_jdel [simp]: "jget (jdel d k) k' = (if k' = k then JNull else jget d k')"
  by (simp add: jget_def)

lemma keys_jset: "fst ` set (jset d k v) = insert k (fst ` set d)"
  by (metis dom_map_of_conv_image_fst map_of_jset dom_fun_upd option.distinct(1))

lemma has_key_jset [simp]: "has_key (jset d k v) k' \<longleftrightarrow> k' = k \<or> has_key d k'"
  by (simp add: has_key_def keys_jset)

lemma has_key_jdel [simp]: "has_key (jdel d k) k' \<longleftrightarrow> k' \<noteq> k \<and> has_key d k'"
  by (force simp: has_key_def jdel_def)


section \<open>Programs: state and exceptions\<close>

datatype exn = RuntimeError string | ValueError string | TypeError string | KeyError string
  | LookupError string | IntegrityError | DoesNotExist | DeploySeamRefused string
  | SsmError string | EnvelopeError string | SignatureRejected string | ReplayRejected string
  | PartnerRefuse string | PartnerNotFound | OverflowDeployError string | TerminateError string
  | IntakeClientError string | KEKError string | VaultDecryptError string | WebhookDeliveryError string
  | EnrollError string | Dns01Error string | CertKeyMismatch string | OtherError string

type_synonym ('s, 'a) prog = "'s \<Rightarrow> (exn + 'a) \<times> 's"

definition ret :: "'a \<Rightarrow> ('s, 'a) prog" where
  "ret x = (\<lambda>s. (Inr x, s))"

definition throw :: "exn \<Rightarrow> ('s, 'a) prog" where
  "throw e = (\<lambda>s. (Inl e, s))"

definition bnd :: "('s, 'a) prog \<Rightarrow> ('a \<Rightarrow> ('s, 'b) prog) \<Rightarrow> ('s, 'b) prog" where
  "bnd m k = (\<lambda>s. case m s of (Inl e, t) \<Rightarrow> (Inl e, t) | (Inr x, t) \<Rightarrow> k x t)"

definition andThen :: "('s, 'a) prog \<Rightarrow> ('s, 'b) prog \<Rightarrow> ('s, 'b) prog" where
  "andThen m n = bnd m (\<lambda>_. n)"

definition gets :: "('s \<Rightarrow> 'a) \<Rightarrow> ('s, 'a) prog" where
  "gets f = (\<lambda>s. (Inr (f s), s))"

definition modify :: "('s \<Rightarrow> 's) \<Rightarrow> ('s, unit) prog" where
  "modify f = (\<lambda>s. (Inr (), f s))"

definition when_do :: "bool \<Rightarrow> ('s, unit) prog \<Rightarrow> ('s, unit) prog" where
  "when_do b m = (if b then m else ret ())"

text \<open>\<open>try: m / except: h\<close>, \<open>try: m / finally: f\<close>, and \<open>with transaction.atomic(): m\<close>.\<close>

definition try_except :: "('s, 'a) prog \<Rightarrow> (exn \<Rightarrow> ('s, 'a) prog) \<Rightarrow> ('s, 'a) prog" where
  "try_except m h = (\<lambda>s. case m s of (Inl e, t) \<Rightarrow> h e t | (Inr x, t) \<Rightarrow> (Inr x, t))"

definition try_finally :: "('s, 'a) prog \<Rightarrow> ('s, unit) prog \<Rightarrow> ('s, 'a) prog" where
  "try_finally m f = (\<lambda>s. case m s of (r, t) \<Rightarrow>
     (case f t of (Inl e, u) \<Rightarrow> (Inl e, u) | (Inr _, u) \<Rightarrow> (r, u)))"

definition atomically :: "('s, 'a) prog \<Rightarrow> ('s, 'a) prog" where
  "atomically m = (\<lambda>s. case m s of (Inl e, _) \<Rightarrow> (Inl e, s) | (Inr x, t) \<Rightarrow> (Inr x, t))"

primrec for_each :: "'a list \<Rightarrow> ('a \<Rightarrow> ('s, unit) prog) \<Rightarrow> ('s, unit) prog" where
  "for_each [] f = ret ()"
| "for_each (x # xs) f = andThen (f x) (for_each xs f)"

lemmas prog_defs = ret_def throw_def bnd_def andThen_def gets_def modify_def when_do_def
  try_except_def try_finally_def atomically_def

declare prog_defs [prog_simps]

lemma fst_bnd_Inr:
  "bnd m k s = (Inr y, u) \<longleftrightarrow> (\<exists>x t. m s = (Inr x, t) \<and> k x t = (Inr y, u))"
  by (auto simp: bnd_def split: prod.splits sum.splits)

lemma bnd_ret [simp]: "bnd (ret x) k = k x"
  by (simp add: bnd_def ret_def)

lemma bnd_gets: "bnd (gets f) k s = k (f s) s"
  by (simp add: bnd_def gets_def)

lemma bnd_assoc: "bnd (bnd m k) l = bnd m (\<lambda>x. bnd (k x) l)"
  by (rule ext) (simp add: bnd_def split: prod.splits sum.splits)


subsection \<open>What a program may do to the state\<close>

text \<open>
  \<open>evolves R m\<close>: whatever \<open>m\<close> does, returning or raising, it takes the state along \<open>R\<close>. The rules
  for the combinators hold for every reflexive and transitive \<open>R\<close>; a component states what its
  operations leave alone as such a relation.
\<close>

definition evolves :: "('s \<Rightarrow> 's \<Rightarrow> bool) \<Rightarrow> ('s, 'a) prog \<Rightarrow> bool" where
  "evolves R m = (\<forall>s. R s (snd (m s)))"

locale evolution =
  fixes R :: "'s \<Rightarrow> 's \<Rightarrow> bool"
  assumes R_refl: "R s s"
    and R_trans: "R s t \<Longrightarrow> R t u \<Longrightarrow> R s u"
begin

lemma ev_ret: "evolves R (ret x)"
  by (simp add: evolves_def ret_def R_refl)

lemma ev_throw: "evolves R (throw e)"
  by (simp add: evolves_def throw_def R_refl)

lemma ev_gets: "evolves R (gets f)"
  by (simp add: evolves_def gets_def R_refl)

lemma ev_modify: "(\<And>s. R s (f s)) \<Longrightarrow> evolves R (modify f)"
  by (simp add: evolves_def modify_def)

lemma ev_bnd: "evolves R m \<Longrightarrow> (\<And>x. evolves R (k x)) \<Longrightarrow> evolves R (bnd m k)"
  unfolding evolves_def bnd_def
  by (auto split: prod.splits sum.splits) (metis R_trans snd_conv)+

lemma ev_andThen: "evolves R m \<Longrightarrow> evolves R n \<Longrightarrow> evolves R (andThen m n)"
  unfolding andThen_def by (rule ev_bnd)

lemma ev_when: "evolves R m \<Longrightarrow> evolves R (when_do b m)"
  by (simp add: when_do_def ev_ret)

lemma ev_try_except:
  "evolves R m \<Longrightarrow> (\<And>e. evolves R (h e)) \<Longrightarrow> evolves R (try_except m h)"
  unfolding evolves_def try_except_def
  by (auto split: prod.splits sum.splits) (metis R_trans snd_conv)+

lemma ev_try_finally: "evolves R m \<Longrightarrow> evolves R f \<Longrightarrow> evolves R (try_finally m f)"
  unfolding evolves_def try_finally_def
  by (auto split: prod.splits sum.splits) (metis R_trans snd_conv)+

lemma ev_atomically: "evolves R m \<Longrightarrow> evolves R (atomically m)"
  unfolding evolves_def atomically_def
  by (auto split: prod.splits sum.splits intro: R_refl) (metis snd_conv)+

lemma ev_for_each: "(\<And>x. x \<in> set xs \<Longrightarrow> evolves R (f x)) \<Longrightarrow> evolves R (for_each xs f)"
  by (induction xs) (auto intro: ev_ret ev_andThen)

lemma ev_if: "(b \<Longrightarrow> evolves R m) \<Longrightarrow> (\<not> b \<Longrightarrow> evolves R n) \<Longrightarrow> evolves R (if b then m else n)"
  by simp

lemma ev_option:
  "(x = None \<Longrightarrow> evolves R m) \<Longrightarrow> (\<And>y. x = Some y \<Longrightarrow> evolves R (f y)) \<Longrightarrow>
   evolves R (case x of None \<Rightarrow> m | Some y \<Rightarrow> f y)"
  by (cases x) auto

lemma ev_sum:
  "(\<And>y. x = Inl y \<Longrightarrow> evolves R (f y)) \<Longrightarrow> (\<And>y. x = Inr y \<Longrightarrow> evolves R (g y)) \<Longrightarrow>
   evolves R (case x of Inl y \<Rightarrow> f y | Inr y \<Rightarrow> g y)"
  by (cases x) auto

lemma ev_prod: "(\<And>y z. x = (y, z) \<Longrightarrow> evolves R (f y z)) \<Longrightarrow> evolves R (case x of (y, z) \<Rightarrow> f y z)"
  by (cases x) auto

lemma ev_list:
  "(x = [] \<Longrightarrow> evolves R m) \<Longrightarrow> (\<And>y ys. x = y # ys \<Longrightarrow> evolves R (f y ys)) \<Longrightarrow>
   evolves R (case x of [] \<Rightarrow> m | y # ys \<Rightarrow> f y ys)"
  by (cases x) auto

lemma ev_let: "(\<And>y. y = x \<Longrightarrow> evolves R (f y)) \<Longrightarrow> evolves R (let y = x in f y)"
  by simp

lemmas ev_rules = ev_ret ev_throw ev_gets ev_bnd ev_andThen ev_when ev_try_except ev_try_finally
  ev_atomically ev_for_each ev_if ev_option ev_sum ev_prod ev_list ev_let

lemma evolvesD: "evolves R m \<Longrightarrow> m s = (r, t) \<Longrightarrow> R s t"
  unfolding evolves_def by (metis snd_conv)

end

text \<open>Leaving a component of the state alone is such a relation.\<close>

definition same :: "('s \<Rightarrow> 'b) \<Rightarrow> 's \<Rightarrow> 's \<Rightarrow> bool" where
  "same f s t = (f t = f s)"

interpretation frame: evolution "same f" for f :: "'s \<Rightarrow> 'b"
  by unfold_locales (simp_all add: same_def)

lemma frameD: "evolves (same f) m \<Longrightarrow> m s = (r, t) \<Longrightarrow> f t = f s"
  using frame.evolvesD by (fastforce simp: same_def)

lemma modify_frame: "(\<And>s. f (g s) = f s) \<Longrightarrow> evolves (same f) (modify g)"
  by (simp add: evolves_def same_def modify_def)

lemma frame_snd: "evolves (same f) m \<Longrightarrow> f (snd (m s)) = f s"
  by (simp add: evolves_def same_def)


subsection \<open>Rows of a table\<close>

text \<open>\<open>objects.filter(p).update(f)\<close> and the row \<open>objects.filter(p).first()\<close>.\<close>

definition upd_rows :: "('r \<Rightarrow> bool) \<Rightarrow> ('r \<Rightarrow> 'r) \<Rightarrow> 'r list \<Rightarrow> 'r list" where
  "upd_rows p f rows = map (\<lambda>r. if p r then f r else r) rows"

lemma length_upd_rows [simp]: "length (upd_rows p f rows) = length rows"
  by (simp add: upd_rows_def)

lemma set_upd_rows: "set (upd_rows p f rows) = (\<lambda>r. if p r then f r else r) ` set rows"
  by (simp add: upd_rows_def)

lemma map_upd_rows_same:
  "(\<And>r. r \<in> set rows \<Longrightarrow> p r \<Longrightarrow> g (f r) = g r) \<Longrightarrow> map g (upd_rows p f rows) = map g rows"
  by (simp add: upd_rows_def)

lemma find_append: "find p (xs @ ys) = (case find p xs of None \<Rightarrow> find p ys | Some x \<Rightarrow> Some x)"
  by (induction xs) auto

lemma find_upd_rows_key:
  "(\<And>r. g (f r) = g r) \<Longrightarrow>
   find (\<lambda>r. g r = k) (upd_rows (\<lambda>r. g r = k') f rows) =
     map_option (\<lambda>r. if k = k' then f r else r) (find (\<lambda>r. g r = k) rows)"
  unfolding upd_rows_def by (induction rows) auto

lemma find_upd_rows:
  "(\<And>r. P (f r) = P r) \<Longrightarrow>
   find P (upd_rows p f rows) = map_option (\<lambda>r. if p r then f r else r) (find P rows)"
  unfolding upd_rows_def by (induction rows) auto

lemma find_filter: "find p xs = (case filter p xs of [] \<Rightarrow> None | x # _ \<Rightarrow> Some x)"
  by (induction xs) auto

lemma find_Some_mem: "find p xs = Some x \<Longrightarrow> x \<in> set xs \<and> p x"
  by (metis find_Some_iff nth_mem)

end
