(* ===== verification/Models.thy ===== *)
theory Models
  imports Prelude
begin

text \<open>
  The schema: one record per Django model that the modelled code reads or writes, one datatype per
  \<open>TextChoices\<close>, and the record \<open>hub\<close> of all tables. A row carries its primary key; a foreign key is
  the key of the row it points to (\<open>None\<close> where the column is null). The world outside the hub is the
  record \<open>world\<close>: the remote shell, the clock, the digest function and the JSON reader.
\<close>


section \<open>Operation locks\<close>

datatype lock_scope = ScopeSite | ScopeTarget
datatype lock_kind = KindDeploy | KindProvision | KindReconcile | KindCollect

record operation_lock =
  l_workspace :: nat
  l_scope :: lock_scope
  l_object_id :: string
  l_kind :: lock_kind
  l_holder :: string
  l_acquired_at :: time
  l_heartbeat_at :: time


section \<open>Fleet: zones, targets, sites, instances\<close>

datatype zone_purpose = PurposeProd | PurposeTest

record network_zone =
  z_pk :: nat
  z_workspace :: nat
  z_name :: string
  z_slug :: string
  z_purpose :: zone_purpose

datatype dns_provider = Cloudflare | Route53

record dns_account =
  a_pk :: nat
  a_workspace :: nat
  a_provider :: dns_provider
  a_label :: string
  a_dns_token_ref :: string
  a_edge_token_ref :: string
  a_origin_ca_key_ref :: string

record dns_zone =
  dz_pk :: nat
  dz_account :: dns_account
  dz_provider :: string
  dz_name :: string
  dz_provider_zone_id :: string
  dz_purpose :: zone_purpose
  dz_proxied_default :: bool

datatype target_kind = Ssh | AwsEc2
datatype target_lifecycle = Permanent | Ephemeral
datatype target_status = TgPending | TgReady | TgError | TgDecommissioned

record target =
  t_pk :: nat
  t_zone :: network_zone
  t_kind :: target_kind
  t_host :: string
  t_provider_ref :: "string option"
  t_ssh_user :: string
  t_ssh_key_ref :: string
  t_host_key_fingerprint :: string
  t_lifecycle :: target_lifecycle
  t_status :: target_status
  t_collect_payload :: json
  t_collect_at :: "time option"
  t_collect_log_inode :: "int option"
  t_collect_log_offset :: int

datatype project_source = FromGit | FromLocalPath

record project =
  pj_pk :: nat
  pj_workspace :: nat
  pj_name :: string
  pj_slug :: string
  pj_source_kind :: project_source
  pj_git_url :: string
  pj_git_ref :: string
  pj_local_path :: string

datatype exposure = Public | MeshOnly
datatype deploy_strategy = BlueGreen | Recreate
datatype deploy_policy = PolicyAuto | PolicyConfirm | PolicyWindowed
datatype edge_owner = HostCaddy | SiteCaddy
datatype environment = Production | Staging | Development | Preview

record site =
  s_pk :: nat
  s_workspace :: nat
  s_project :: nat
  s_name :: string
  s_domain :: string
  s_exposure :: exposure
  s_environment :: environment
  s_deploy_strategy :: deploy_strategy
  s_deploy_policy :: deploy_policy
  s_deploy_window_cron :: string
  s_maintenance_until :: "time option"
  s_reconcile_enabled :: bool
  s_liveness_path :: string
  s_readiness_path :: string
  s_warmup_timeout_s :: nat
  s_config_stale :: bool
  s_scale_ready :: bool
  s_primary_target :: "nat option"
  s_dns_zone :: "dns_zone option"
  s_proxied :: bool
  s_edge_owner :: edge_owner
  s_preview_of :: "nat option"
  s_preview_ref :: string

datatype desired_state = WantRunning | WantStopped | WantAbsent
datatype observed_state = ObsRunning | ObsStopped | ObsAbsent | ObsUnhealthy | ObsWarming

record site_instance =
  i_pk :: nat
  i_site :: nat
  i_target :: nat
  i_desired_image_tag :: string
  i_desired_state :: desired_state
  i_observed_state :: observed_state
  i_observed_at :: "time option"
  i_last_reconciled_at :: "time option"
  i_consecutive_failures :: nat
  i_internal_port :: nat

record dns_record =
  r_site :: nat
  r_zone :: "nat option"
  r_name :: string
  r_rtype :: string
  r_value :: string
  r_observed_value :: string
  r_last_verified :: "time option"

record site_volume =
  v_site :: nat
  v_name :: string
  v_container_path :: string
  v_backup_policy :: string

record host_metric =
  m_target :: nat
  m_ts :: time
  m_cpu :: "rat option"
  m_ram :: "rat option"
  m_disk :: "rat option"
  m_load :: "rat option"
  m_cores :: "nat option"

record partner =
  p_pk :: nat
  p_workspace :: nat
  p_slug :: string
  p_name :: string
  p_pubkey_current :: string
  p_pubkey_previous :: string
  p_max_sites :: nat
  p_deploys_per_day :: nat
  p_domains :: nat
  p_destination_order :: json
  p_suspended :: bool
  p_webhook_url :: string

record partner_site =
  ps_partner :: nat
  ps_site :: nat
  ps_tenant_ref :: string

text \<open>The nonces and the idempotency keys the hub has accepted from a partner.\<close>

record replay_nonce =
  rn_partner :: nat
  rn_nonce :: string
  rn_seen_at :: time

record idempotency_key =
  ik_partner :: nat
  ik_key :: string
  ik_params_hash :: string
  ik_status_code :: nat
  ik_response :: json
  ik_created_at :: time

datatype granularity = ByMinute | ByHour | ByDay

record traffic_stat =
  tr_site :: nat
  tr_bucket_start :: time
  tr_granularity :: granularity
  tr_requests :: int
  tr_bytes :: int
  tr_status_counts :: "(string \<times> int) list"
  tr_sampled :: bool

text \<open>
  A row of \<open>CheckRun\<close> of the kind \<open>intake_poll\<close>. Its results hold the instants as \<open>isoformat\<close> texts, which
  \<open>fromisoformat\<close> reads back, so the instants are kept.
\<close>

datatype check_status = ChkScheduled | ChkRunning | ChkSucceeded | ChkFailed | ChkSkipped

record poll_run =
  pr_pk :: nat
  pr_status :: check_status
  pr_started :: time
  pr_finished :: time
  pr_consecutive_failures :: nat
  pr_last_success_at :: "time option"
  pr_first_failure_at :: "time option"
  pr_n :: "nat option"


text \<open>
  A row of \<open>CheckRun\<close> of another kind, with its results as they are stored.
\<close>

record check_run =
  cr_pk :: nat
  cr_kind :: string
  cr_status :: check_status
  cr_started :: "time option"
  cr_finished :: "time option"
  cr_results :: json

datatype tls_mode = OriginCert | Uploaded | AutoCert | HubDns01

record tls_certificate =
  tc_pk :: nat
  tc_site :: nat
  tc_mode :: tls_mode
  tc_not_after :: "time option"
  tc_fingerprint :: string
  tc_key_ref :: string
  tc_pushed_at :: "time option"

text \<open>A row of the vault: the ciphertext, the wrapped data key and what identifies the owner.\<close>

datatype secret_kind = EnvBundle | SshPrivateKey | TlsPrivateKey | CloudCredential | ApiToken | DatabaseUrl | BackupKey
  | WebhookSecret

record secret =
  se_pk :: nat
  se_kind :: secret_kind
  se_owner_type :: string
  se_owner_id :: string
  se_ciphertext :: string
  se_wrapped_dek :: string
  se_nonce :: string
  se_kek_id :: string
  se_fingerprint :: string
  se_created_at :: time
  se_created_by :: "nat option"
  se_last_used_at :: "time option"


section \<open>Deployments\<close>

record manifest =
  mf_pk :: nat
  mf_site :: nat
  mf_version :: nat
  mf_schema_version :: nat
  mf_body :: json
  mf_scan_report_hash :: string
  mf_scanned_at :: "time option"
  mf_created_at :: time

datatype deployment_status = Queued | Running | Succeeded | Failed | RolledBack | Cancelled
  | Superseded

record deployment =
  d_pk :: nat
  d_manifest :: nat
  d_status :: deployment_status
  d_last_heartbeat :: "time option"
  d_rollback_of :: "nat option"

datatype step_name = Build | Ship | Migrate | StartGreen | HealthCheck | Dns | RouteTls
  | SmokeTest | Cutover

datatype step_status = StPending | StRunning | StSucceeded | StFailed | StSkipped

record deployment_step =
  st_deployment :: nat
  st_seq :: nat
  st_name :: step_name
  st_status :: step_status
  st_started :: "time option"
  st_finished :: "time option"
  st_log_text :: string
  st_artifacts :: "(string \<times> json) list"

record deployment_artifact =
  da_deployment :: nat
  da_kind :: string
  da_content :: string


section \<open>Audit trail, findings, alerts\<close>

datatype audit_source = SrcUi | SrcApi | SrcCelery | SrcReconciler | SrcSystem | SrcWs
datatype audit_severity = SevInfo | SevWarning | SevSecurity
datatype audit_scope = ScopeWorkspace | ScopeSystem

record audit_event =
  ae_pk :: nat
  ae_ts :: time
  ae_actor :: "nat option"
  ae_source :: audit_source
  ae_action :: string
  ae_object_type :: string
  ae_object_id :: string
  ae_detail :: "(string \<times> json) list"
  ae_source_ip :: "string option"
  ae_severity :: audit_severity
  ae_prev_hash :: string
  ae_partner :: "nat option"
  ae_workspace :: "nat option"
  ae_scope :: audit_scope
  ae_chain_version :: nat

record audit_chain_head =
  ch_workspace :: "nat option"
  ch_scope :: audit_scope
  ch_last_hash :: string
  ch_last_event :: "nat option"
  ch_version :: nat

datatype severity = P1 | P2 | P3
datatype finding_state = Open | Acked | Resolved | Accepted

record finding_row =
  f_pk :: nat
  f_workspace :: nat
  f_source_engine :: string
  f_severity :: severity
  f_entity :: string
  f_title :: string
  f_body :: string
  f_fix_action :: string
  f_state :: finding_state
  f_first_seen :: time
  f_last_seen :: time
  f_fingerprint :: string
  f_accepted_reason :: string

text \<open>
  An entry of \<open>AlertState.transitions\<close>: the open/close marks of an alert, and on the row of the push
  log the recorded pushes. \<open>isoformat\<close> and \<open>fromisoformat\<close> are inverse, so the instant is kept.
\<close>

datatype alert_mark = Opened time | ClosedAt time
  | Pushed time string nat severity bool string bool
    \<comment> \<open>at, fingerprint, workspace id, severity, delivered, title, counts for the storm rate\<close>

record alert_state =
  as_workspace :: nat
  as_fingerprint :: string
  as_consecutive_fail :: nat
  as_consecutive_ok :: nat
  as_opened_at :: "time option"
  as_closed_at :: "time option"
  as_last_push_at :: "time option"
  as_acked_at :: "time option"
  as_transitions :: "alert_mark list"

datatype channel = Ntfy | Email

record alert_delivery =
  dl_finding :: nat
  dl_channel :: channel
  dl_severity :: severity
  dl_backend :: string
  dl_sent_at :: time
  dl_ok :: bool
  dl_detail :: string

text \<open>A state change an uptime probe saw.\<close>

record uptime_event =
  ue_pk :: nat
  ue_entity :: string
  ue_kind :: string
  ue_state :: string
  ue_at :: time

text \<open>A page handed to the push backend, and an alert mail.\<close>

record page =
  pg_severity :: severity
  pg_title :: string
  pg_body :: string
  pg_tags :: "string list"
  pg_click :: string

record mail =
  ml_subject :: string
  ml_body :: string

text \<open>What \<open>core.events.publish\<close> puts on the stream.\<close>

record stream_event =
  ev_topic :: string
  ev_payload :: json


section \<open>The remote shell\<close>

text \<open>
  A transport runs an argument list on a target, probes read-only, and delivers file content. The
  history of calls is part of the state; the answer to a call is any function of that history.
\<close>

datatype call = Run "string list" | Probe "string list" | Put string string nat | Get string

record cmd_result =
  exit_code :: int
  stdout :: string
  stderr :: string

definition result_ok :: "cmd_result \<Rightarrow> bool" where
  "result_ok r = (exit_code r = 0)"

text \<open>The DNS provider of a site: listing a zone and upserting one record set in it.\<close>

datatype zone_ref = ZoneRow dns_zone | ZoneName string

record dns_entry =
  de_name :: string
  de_rtype :: string
  de_values :: "string list"
  de_proxied :: "bool option"

datatype dns_call = DnsList zone_ref | DnsUpsert zone_ref string string "string list" bool

text \<open>The calls of the intake client, of the edge protection of a zone and of the cloud provider.\<close>

datatype intake_call = IntakeFetch | IntakeAck json
datatype edge_call = SetSecurityLevel nat string | BanIp nat string
datatype cloud_call = TerminateInstance "string option" | CreateInstance "(string \<times> json) list"

text \<open>A POST of the hub: to a partner's webhook, or to the receiver of the dead-man ping.\<close>

record http_post =
  hp_url :: string
  hp_headers :: "(string \<times> string) list"
  hp_body :: string

text \<open>
  \<open>w_pulses\<close> is the number of thirty-second pulses of the heartbeat thread that elapse while a call
  runs; \<open>w_context\<close> reads a source directory into the build archive; \<open>w_ws_probe\<close> is the text of the
  websocket probe script; \<open>w_poll_fuel\<close> bounds the polls of one health check; \<open>w_repo_root\<close> is the directory
  of the hub's own checkout; \<open>w_test_mode\<close> and \<open>w_test_slugs\<close> are the settings HUB_TEST_MODE and
  HUB_TEST_ZONE_SLUGS. The push backend and the mail server answer a page or mail with an exception or not
  (\<open>w_page\<close>, \<open>w_mail\<close>); so do the intake process, the edge protection and the cloud provider. \<open>w_hmac key message\<close> is
  the hexadecimal HMAC-SHA-256 and \<open>w_ed25519 key signature message\<close> the signature check of the cryptography
  package; \<open>w_token_hex\<close> is the source of random nonces.
  \<open>w_ls_remote url ref\<close> is the head that \<open>git ls-remote\<close> reports (empty if it cannot), \<open>w_git_url_refused url resolve\<close> the
  code with which the validator of git URLs refuses one. \<open>w_scrub\<close> is the redaction of \<open>monitor/scrub.py\<close>; \<open>w_public_url\<close>, \<open>w_pager_backend\<close> and
  \<open>w_hub_hostname\<close> are settings.
\<close>

record world =
  w_shell :: "call list \<Rightarrow> exn + cmd_result"
  w_pulses :: "call list \<Rightarrow> nat"
  w_dns :: "dns_call list \<Rightarrow> exn + dns_entry list"
  w_clock :: "nat \<Rightarrow> time"
  w_monotonic :: "nat \<Rightarrow> time"
  w_context :: "string \<Rightarrow> string \<Rightarrow> exn + string"
  w_ws_probe :: string
  w_poll_fuel :: nat
  w_sha256 :: "string \<Rightarrow> string"
  w_loads :: "string \<Rightarrow> json option"
  w_repo_root :: string
  w_test_mode :: bool
  w_test_slugs :: "string list"
  w_page :: "page list \<Rightarrow> exn option"
  w_mail :: "mail list \<Rightarrow> exn option"
  w_scrub :: "string \<Rightarrow> string"
  w_public_url :: string
  w_pager_backend :: string
  w_hub_hostname :: string
  w_hmac :: "string \<Rightarrow> string \<Rightarrow> string"
  w_ed25519 :: "string \<Rightarrow> string \<Rightarrow> string \<Rightarrow> bool"
  w_token_hex :: "nat \<Rightarrow> string"
  w_task_secret :: string
  w_partner_api :: bool
  w_fleet_max_sites :: nat
  w_template_digest :: string
  w_template_archive :: string
  w_template_dir :: string
  w_intake :: "intake_call list \<Rightarrow> exn + json list"
  w_intake_url :: string
  w_intake_token :: string
  w_debug :: bool
  w_edge :: "edge_call list \<Rightarrow> exn option"
  w_cloud :: "cloud_call list \<Rightarrow> exn option"
  w_ls_remote :: "string \<Rightarrow> string \<Rightarrow> string"
  w_git_url_refused :: "string \<Rightarrow> bool \<Rightarrow> string option"


section \<open>All tables\<close>

record hub =
  locks :: "operation_lock list"
  targets :: "target list"
  sites :: "site list"
  instances :: "site_instance list"
  dns_records :: "dns_record list"
  site_volumes :: "site_volume list"
  host_metrics :: "host_metric list"
  partners :: "partner list"
  partner_sites :: "partner_site list"
  manifests :: "manifest list"
  deployments :: "deployment list"
  dsteps :: "deployment_step list"
  artifacts :: "deployment_artifact list"
  audits :: "audit_event list"
  chain_heads :: "audit_chain_head list"
  findings :: "finding_row list"
  alert_states :: "alert_state list"
  stream_wired :: bool
  stream :: "stream_event list"
  calls :: "call list"
  dns_calls :: "dns_call list"
  tls_app_cache :: "json option"
  ticks :: nat
  deliveries :: "alert_delivery list"
  pages :: "page list"
  mails :: "mail list"
  uptime_events :: "uptime_event list"
  projects :: "project list"
  replay_nonces :: "replay_nonce list"
  idempotency_keys :: "idempotency_key list"
  api_flag :: "bool option"
  traffic_stats :: "traffic_stat list"
  poll_runs :: "poll_run list"
  cache_entries :: "(string \<times> time) list"
  intake_calls :: "intake_call list"
  edge_calls :: "edge_call list"
  cloud_calls :: "cloud_call list"
  task_queue :: "(nat \<times> (string \<times> json) list) list"
  check_runs :: "check_run list"
  tls_certificates :: "tls_certificate list"
  secrets :: "secret list"
  dek_cache :: "((nat \<times> string \<times> string) \<times> string) list"
  http_posts :: "http_post list"
  webhooks_delivered :: "(nat \<times> string) list"
  webhook_failures :: "nat \<Rightarrow> time list"
  log_archive :: "(string \<times> string) list"

definition empty_hub :: hub where
  "empty_hub = \<lparr>locks = [], targets = [], sites = [], instances = [], dns_records = [],
     site_volumes = [], host_metrics = [], partners = [], partner_sites = [], manifests = [],
     deployments = [], dsteps = [], artifacts = [], audits = [], chain_heads = [], findings = [],
     alert_states = [], stream_wired = True, stream = [], calls = [], dns_calls = [], tls_app_cache = None, ticks = 0,
     deliveries = [], pages = [], mails = [], uptime_events = [], projects = [],
     replay_nonces = [], idempotency_keys = [], api_flag = None, traffic_stats = [], poll_runs = [], cache_entries = [],
     intake_calls = [], edge_calls = [], cloud_calls = [], task_queue = [], check_runs = [], tls_certificates = [],
     secrets = [], dek_cache = [], http_posts = [], webhooks_delivered = [], webhook_failures = (\<lambda>_. []), log_archive = []\<rparr>"

lemma empty_hub_simps [simp]:
  "locks empty_hub = []" "targets empty_hub = []" "sites empty_hub = []" "instances empty_hub = []"
  "dns_records empty_hub = []" "site_volumes empty_hub = []" "host_metrics empty_hub = []"
  "partners empty_hub = []" "partner_sites empty_hub = []" "manifests empty_hub = []"
  "deployments empty_hub = []" "dsteps empty_hub = []" "artifacts empty_hub = []"
  "audits empty_hub = []" "chain_heads empty_hub = []" "findings empty_hub = []"
  "alert_states empty_hub = []" "stream_wired empty_hub" "stream empty_hub = []" "calls empty_hub = []"
  "dns_calls empty_hub = []" "tls_app_cache empty_hub = None" "ticks empty_hub = 0"
  "deliveries empty_hub = []" "pages empty_hub = []" "mails empty_hub = []" "uptime_events empty_hub = []"
  "projects empty_hub = []" "replay_nonces empty_hub = []" "idempotency_keys empty_hub = []" "api_flag empty_hub = None"
  "traffic_stats empty_hub = []" "poll_runs empty_hub = []" "cache_entries empty_hub = []" "intake_calls empty_hub = []"
  "edge_calls empty_hub = []" "cloud_calls empty_hub = []" "task_queue empty_hub = []"
  "check_runs empty_hub = []" "tls_certificates empty_hub = []" "secrets empty_hub = []" "dek_cache empty_hub = []"
  "http_posts empty_hub = []" "webhooks_delivered empty_hub = []" "webhook_failures empty_hub = (\<lambda>_. [])" "log_archive empty_hub = []"
  by (simp_all add: empty_hub_def)

type_synonym 'a act = "(hub, 'a) prog"

text \<open>\<open>timezone.now()\<close>: successive readings of the clock.\<close>

definition timezone_now :: "world \<Rightarrow> time act" where
  "timezone_now w = (\<lambda>s. (Inr (w_clock w (ticks s)), s\<lparr>ticks := Suc (ticks s)\<rparr>))"

text \<open>\<open>time.monotonic()\<close>.\<close>

definition monotonic_now :: "world \<Rightarrow> time act" where
  "monotonic_now w = (\<lambda>s. (Inr (w_monotonic w (ticks s)), s\<lparr>ticks := Suc (ticks s)\<rparr>))"

text \<open>The calls of a transport, recorded in order.\<close>

definition shell_call :: "world \<Rightarrow> call \<Rightarrow> cmd_result act" where
  "shell_call w c = (\<lambda>s. let cs = calls s @ [c] in (w_shell w cs, s\<lparr>calls := cs\<rparr>))"

definition transport_run :: "world \<Rightarrow> string list \<Rightarrow> cmd_result act" where
  "transport_run w argv = shell_call w (Run argv)"

definition transport_probe :: "world \<Rightarrow> string list \<Rightarrow> cmd_result act" where
  "transport_probe w argv = shell_call w (Probe argv)"

definition transport_put :: "world \<Rightarrow> string \<Rightarrow> string \<Rightarrow> nat \<Rightarrow> unit act" where
  "transport_put w content remote mode = bnd (shell_call w (Put content remote mode)) (\<lambda>_. ret ())"

text \<open>\<open>transport.get\<close>: the content of the file, as the output of the call.\<close>

definition transport_get :: "world \<Rightarrow> string \<Rightarrow> string act" where
  "transport_get w remote = bnd (shell_call w (Get remote)) (\<lambda>r. ret (stdout r))"

definition dns_list_records :: "world \<Rightarrow> zone_ref \<Rightarrow> dns_entry list act" where
  "dns_list_records w z = (\<lambda>s. let cs = dns_calls s @ [DnsList z] in
     (w_dns w cs, s\<lparr>dns_calls := cs\<rparr>))"

definition dns_upsert_record :: "world \<Rightarrow> zone_ref \<Rightarrow> string \<Rightarrow> string \<Rightarrow> string list \<Rightarrow> bool \<Rightarrow>
    unit act" where
  "dns_upsert_record w z name rtype vals proxied = (\<lambda>s.
     let cs = dns_calls s @ [DnsUpsert z name rtype vals proxied] in
     (case w_dns w cs of Inl e \<Rightarrow> Inl e | Inr _ \<Rightarrow> Inr (), s\<lparr>dns_calls := cs\<rparr>))"

fun mutating :: "call \<Rightarrow> bool" where
  "mutating (Run _) = True"
| "mutating (Probe _) = False"
| "mutating (Put _ _ _) = True"
| "mutating (Get _) = False"

definition mutating_calls :: "hub \<Rightarrow> call list" where
  "mutating_calls s = filter mutating (calls s)"


subsection \<open>Lookups\<close>

definition site_by_pk :: "hub \<Rightarrow> nat \<Rightarrow> site option" where
  "site_by_pk s pk = find (\<lambda>r. s_pk r = pk) (sites s)"

definition target_by_pk :: "hub \<Rightarrow> nat \<Rightarrow> target option" where
  "target_by_pk s pk = find (\<lambda>r. t_pk r = pk) (targets s)"

definition deployment_by_pk :: "hub \<Rightarrow> nat \<Rightarrow> deployment option" where
  "deployment_by_pk s pk = find (\<lambda>r. d_pk r = pk) (deployments s)"

definition manifest_by_pk :: "hub \<Rightarrow> nat \<Rightarrow> manifest option" where
  "manifest_by_pk s pk = find (\<lambda>r. mf_pk r = pk) (manifests s)"

text \<open>The site a deployment is for: \<open>deployment.manifest.site\<close>.\<close>

definition manifest_site :: "hub \<Rightarrow> nat \<Rightarrow> nat option" where
  "manifest_site s m = map_option mf_site (manifest_by_pk s m)"

definition deployment_site :: "hub \<Rightarrow> deployment \<Rightarrow> nat option" where
  "deployment_site s d = manifest_site s (d_manifest d)"


subsection \<open>A concrete world\<close>

text \<open>
  A world in which every command succeeds silently, the clock advances by one second per reading
  and the digest is a checksum written with 64 hexadecimal digits. It instantiates the parameters
  of the model where a theorem is applied to concrete rows.
\<close>

definition hex_char :: "int \<Rightarrow> char" where
  "hex_char n = ''0123456789abcdef'' ! nat (n mod 16)"

definition checksum :: "string \<Rightarrow> int" where
  "checksum x = foldl (\<lambda>n c. (31 * n + of_char c) mod 65536) 7 x"

definition checksum_digest :: "string \<Rightarrow> string" where
  "checksum_digest x = (let n = checksum x in replicate 60 (CHR ''0'') @
     [hex_char (n div 4096), hex_char (n div 256), hex_char (n div 16), hex_char n])"

definition quiet_result :: cmd_result where
  "quiet_result = \<lparr>exit_code = 0, stdout = [], stderr = []\<rparr>"

definition calm_world :: world where
  "calm_world = \<lparr>w_shell = (\<lambda>_. Inr quiet_result), w_pulses = (\<lambda>_. 0), w_dns = (\<lambda>_. Inr []),
     w_clock = (\<lambda>n. seconds (int n)), w_monotonic = (\<lambda>n. seconds (int n)),
     w_context = (\<lambda>_ _. Inr []), w_ws_probe = [], w_poll_fuel = 100,
     w_sha256 = checksum_digest, w_loads = (\<lambda>_. None), w_repo_root = ''/hub'',
     w_test_mode = False, w_test_slugs = [''hub-test''], w_page = (\<lambda>_. None), w_mail = (\<lambda>_. None),
     w_scrub = (\<lambda>x. x), w_public_url = ''https://hub.local'', w_pager_backend = ''fake'', w_hub_hostname = [],
     w_hmac = (\<lambda>key m. checksum_digest (key @ m)), w_ed25519 = (\<lambda>_ _ _. True), w_token_hex = str_nat,
     w_task_secret = ''secret'', w_partner_api = True, w_fleet_max_sites = 0, w_template_digest = ''sha256:pin'',
     w_template_archive = [], w_template_dir = ''/hub/images/partner-t1-static'', w_intake = (\<lambda>_. Inr []),
     w_intake_url = [], w_intake_token = [], w_debug = False, w_edge = (\<lambda>_. None), w_cloud = (\<lambda>_. None),
     w_ls_remote = (\<lambda>_ _. ''c0ffee''), w_git_url_refused = (\<lambda>_ _. None)\<rparr>"


subsection \<open>What the basic calls leave alone\<close>

lemma timezone_now_frame:
  "(\<And>s n. f (s\<lparr>ticks := n\<rparr>) = f s) \<Longrightarrow> evolves (same f) (timezone_now w)"
  by (simp add: evolves_def same_def timezone_now_def)

lemma monotonic_now_frame:
  "(\<And>s n. f (s\<lparr>ticks := n\<rparr>) = f s) \<Longrightarrow> evolves (same f) (monotonic_now w)"
  by (simp add: evolves_def same_def monotonic_now_def)

lemma shell_call_frame:
  "(\<And>s cs. f (s\<lparr>calls := cs\<rparr>) = f s) \<Longrightarrow> evolves (same f) (shell_call w c)"
  by (simp add: evolves_def same_def shell_call_def Let_def)

lemma mutating_calls_probe:
  "mutating_calls (snd (transport_probe w argv s)) = mutating_calls s"
  by (simp add: transport_probe_def shell_call_def mutating_calls_def Let_def)

end
