(* ===== verification/Locks.thy ===== *)
theory Locks
  imports Models
begin

text \<open>
  \<open>core/locks.py\<close>: operation locks are rows of one table with a uniqueness constraint on (scope,
  object id, kind). \<open>acquire\<close> is an INSERT that a conflict refuses, \<open>release\<close> a DELETE that may be
  restricted to one holder, \<open>heartbeat\<close> an UPDATE of the time stamp. The locale \<open>lock_service\<close> is
  what the pipeline, the reconciler and the evaluator rely on.
\<close>


section \<open>The operations\<close>

type_synonym lock_id = "lock_scope \<times> string \<times> lock_kind"

definition lock_key :: "operation_lock \<Rightarrow> lock_id" where
  "lock_key l = (l_scope l, l_object_id l, l_kind l)"

definition default_workspace_id :: nat where
  "default_workspace_id = 1"

text \<open>\<open>OperationLock.objects.create\<close>: the constraint refuses a second row for a key.\<close>

definition create_lock :: "operation_lock \<Rightarrow> operation_lock act" where
  "create_lock row = (\<lambda>s.
     if lock_key row \<in> lock_key ` set (locks s) then (Inl IntegrityError, s)
     else (Inr row, s\<lparr>locks := locks s @ [row]\<rparr>))"

definition acquire :: "world \<Rightarrow> lock_scope \<Rightarrow> string \<Rightarrow> lock_kind \<Rightarrow> string \<Rightarrow>
    operation_lock option act" where
  "acquire w scope object_id kind holder =
     bnd (timezone_now w) (\<lambda>heartbeat_at.
     bnd (timezone_now w) (\<lambda>acquired_at.
     try_except
       (atomically (bnd (create_lock \<lparr>l_workspace = default_workspace_id, l_scope = scope,
           l_object_id = object_id, l_kind = kind, l_holder = holder,
           l_acquired_at = acquired_at, l_heartbeat_at = heartbeat_at\<rparr>) (\<lambda>row. ret (Some row))))
       (\<lambda>e. if e = IntegrityError then ret None else throw e)))"

text \<open>The queryset of \<open>release\<close> and \<open>heartbeat\<close>: the key, and the holder when one is given.\<close>

definition lock_match :: "lock_id \<Rightarrow> string option \<Rightarrow> operation_lock \<Rightarrow> bool" where
  "lock_match k holder l = (lock_key l = k \<and> (case holder of None \<Rightarrow> True | Some h \<Rightarrow> l_holder l = h))"

definition release :: "lock_scope \<Rightarrow> string \<Rightarrow> lock_kind \<Rightarrow> string option \<Rightarrow> bool act" where
  "release scope object_id kind holder = (\<lambda>s.
     let hit = lock_match (scope, object_id, kind) holder;
         deleted = length (filter hit (locks s))
     in (Inr (deleted > 0), s\<lparr>locks := filter (\<lambda>l. \<not> hit l) (locks s)\<rparr>))"

definition heartbeat :: "world \<Rightarrow> lock_scope \<Rightarrow> string \<Rightarrow> lock_kind \<Rightarrow> string option \<Rightarrow> bool act" where
  "heartbeat w scope object_id kind holder =
     bnd (timezone_now w) (\<lambda>now. (\<lambda>s.
     let hit = lock_match (scope, object_id, kind) holder
     in (Inr (length (filter hit (locks s)) > 0),
         s\<lparr>locks := upd_rows hit (\<lambda>l. l\<lparr>l_heartbeat_at := now\<rparr>) (locks s)\<rparr>)))"


section \<open>The table invariant and who holds a lock\<close>

definition lock_wf :: "hub \<Rightarrow> bool" where
  "lock_wf s = distinct (map lock_key (locks s))"

definition held :: "hub \<Rightarrow> lock_id \<Rightarrow> string option" where
  "held s k = map_option l_holder (find (\<lambda>l. lock_key l = k) (locks s))"

lemma find_None_image: "find (\<lambda>l. g l = k) xs = None \<longleftrightarrow> k \<notin> g ` set xs"
  by (auto simp: find_None_iff image_iff)

lemma held_None_iff: "held s k = None \<longleftrightarrow> k \<notin> lock_key ` set (locks s)"
  by (simp add: held_def find_None_image)

lemma held_SomeD:
  "held s k = Some h \<Longrightarrow> \<exists>l \<in> set (locks s). lock_key l = k \<and> l_holder l = h"
  unfolding held_def using find_Some_mem by fastforce

lemma held_unique:
  "lock_wf s \<Longrightarrow> l \<in> set (locks s) \<Longrightarrow> held s (lock_key l) = Some (l_holder l)"
proof -
  assume wf: "lock_wf s" and l: "l \<in> set (locks s)"
  then obtain l' where l': "find (\<lambda>x. lock_key x = lock_key l) (locks s) = Some l'"
    by (metis find_None_image image_eqI option.exhaust)
  then have "l' \<in> set (locks s)" "lock_key l' = lock_key l"
    using find_Some_mem by fastforce+
  with wf l have "l' = l"
    by (auto simp: lock_wf_def distinct_map inj_on_def)
  with l' show ?thesis by (simp add: held_def)
qed


subsection \<open>The effect of each operation\<close>

lemma acquire_free:
  "held s (scope, oid, kind) = None \<Longrightarrow>
   acquire w scope oid kind h s =
     (let row = \<lparr>l_workspace = default_workspace_id, l_scope = scope, l_object_id = oid,
        l_kind = kind, l_holder = h, l_acquired_at = w_clock w (Suc (ticks s)),
        l_heartbeat_at = w_clock w (ticks s)\<rparr>
      in (Inr (Some row), s\<lparr>locks := locks s @ [row], ticks := ticks s + 2\<rparr>))"
  unfolding held_None_iff
  by (simp add: acquire_def prog_simps timezone_now_def create_lock_def lock_key_def Let_def)

lemma acquire_held:
  "held s (scope, oid, kind) = Some h' \<Longrightarrow>
   acquire w scope oid kind h s = (Inr None, s\<lparr>ticks := ticks s + 2\<rparr>)"
proof -
  assume "held s (scope, oid, kind) = Some h'"
  then have "(scope, oid, kind) \<in> lock_key ` set (locks s)"
    using held_None_iff [of s "(scope, oid, kind)"] by simp
  then show ?thesis
    by (simp add: acquire_def prog_simps timezone_now_def create_lock_def lock_key_def Let_def)
qed

lemma acquire_never_raises: "\<exists>r t. acquire w scope oid kind h s = (Inr r, t)"
  by (cases "held s (scope, oid, kind)") (simp_all add: acquire_free acquire_held Let_def)

lemma acquire_wf: "lock_wf s \<Longrightarrow> lock_wf (snd (acquire w scope oid kind h s))"
proof (cases "held s (scope, oid, kind)")
  case None
  then have "(scope, oid, kind) \<notin> lock_key ` set (locks s)" by (simp add: held_None_iff)
  moreover assume "lock_wf s"
  ultimately show ?thesis using None
    by (simp add: acquire_free lock_wf_def Let_def) (simp add: lock_key_def)
next
  case (Some a)
  assume "lock_wf s"
  with Some show ?thesis by (simp add: acquire_held lock_wf_def)
qed

lemma held_acquire:
  "held (snd (acquire w scope oid kind h s)) k =
     (if k = (scope, oid, kind) \<and> held s k = None then Some h else held s k)"
proof (cases "held s (scope, oid, kind)")
  case None
  then show ?thesis
    by (auto simp: acquire_free Let_def held_def find_append lock_key_def split: option.splits)
next
  case (Some a)
  then show ?thesis by (auto simp: acquire_held held_def)
qed

lemma distinct_map_filter_keys: "distinct (map g xs) \<Longrightarrow> distinct (map g (filter p xs))"
  by (induction xs) auto

lemma release_wf: "lock_wf s \<Longrightarrow> lock_wf (snd (release scope oid kind h s))"
  by (simp add: release_def lock_wf_def Let_def distinct_map_filter_keys)

lemma find_filter_keep:
  "(\<And>x. x \<in> set xs \<Longrightarrow> p x \<Longrightarrow> q x) \<Longrightarrow> find p (filter q xs) = find p xs"
  by (induction xs) auto

lemma held_release:
  assumes "lock_wf s"
  shows "held (snd (release scope oid kind h s)) k =
     (if k = (scope, oid, kind) \<and> (h = None \<or> held s k = h) then None else held s k)"
proof (cases "k = (scope, oid, kind) \<and> (h = None \<or> held s k = h)")
  case True
  then have "find (\<lambda>l. lock_key l = k) (filter (\<lambda>l. \<not> lock_match k h l) (locks s)) = None"
    using held_unique [OF assms]
    by (fastforce simp: find_None_iff lock_match_def split: option.splits)
  with True show ?thesis by (auto simp: release_def held_def Let_def)
next
  case False
  have "find (\<lambda>l. lock_key l = k)
          (filter (\<lambda>l. \<not> lock_match (scope, oid, kind) h l) (locks s)) =
        find (\<lambda>l. lock_key l = k) (locks s)"
    using False held_unique [OF assms]
    by (intro find_filter_keep) (fastforce simp: lock_match_def split: option.splits)
  then have "held (snd (release scope oid kind h s)) k = held s k"
    by (simp add: release_def held_def Let_def)
  with False show ?thesis by auto
qed

lemma release_result:
  assumes "lock_wf s"
  shows "fst (release scope oid kind h s) =
    Inr (held s (scope, oid, kind) \<noteq> None \<and> (h = None \<or> held s (scope, oid, kind) = h))"
proof -
  have "(\<exists>l \<in> set (locks s). lock_match (scope, oid, kind) h l) \<longleftrightarrow>
      held s (scope, oid, kind) \<noteq> None \<and> (h = None \<or> held s (scope, oid, kind) = h)"
  proof
    assume "\<exists>l \<in> set (locks s). lock_match (scope, oid, kind) h l"
    then show "held s (scope, oid, kind) \<noteq> None \<and> (h = None \<or> held s (scope, oid, kind) = h)"
      using held_unique [OF assms] by (fastforce simp: lock_match_def split: option.splits)
  next
    assume "held s (scope, oid, kind) \<noteq> None \<and> (h = None \<or> held s (scope, oid, kind) = h)"
    then show "\<exists>l \<in> set (locks s). lock_match (scope, oid, kind) h l"
      using held_SomeD by (fastforce simp: lock_match_def split: option.splits)
  qed
  then show ?thesis by (auto simp: release_def Let_def filter_empty_conv)
qed

lemma keys_upd_rows_heartbeat:
  "map lock_key (upd_rows p (\<lambda>l. l\<lparr>l_heartbeat_at := n\<rparr>) ls) = map lock_key ls"
  by (rule map_upd_rows_same) (simp add: lock_key_def)

lemma heartbeat_wf: "lock_wf s \<Longrightarrow> lock_wf (snd (heartbeat w scope oid kind h s))"
  by (simp add: heartbeat_def prog_simps timezone_now_def Let_def lock_wf_def
      keys_upd_rows_heartbeat)

lemma held_heartbeat: "held (snd (heartbeat w scope oid kind h s)) k = held s k"
  by (simp add: heartbeat_def prog_simps timezone_now_def Let_def held_def find_upd_rows
      lock_key_def option.map_comp comp_def if_distrib [of l_holder]
      cong: if_cong)


section \<open>The interface: exclusive locks\<close>

datatype ('k, 'h) lock_op = Acq 'k 'h | Rel 'k "'h option"

text \<open>A run of acquisitions and releases, with the answer each of them got.\<close>

fun lock_run :: "('k \<Rightarrow> 'h \<Rightarrow> 's \<Rightarrow> bool \<times> 's) \<Rightarrow> ('k \<Rightarrow> 'h option \<Rightarrow> 's \<Rightarrow> bool \<times> 's) \<Rightarrow>
    ('k, 'h) lock_op list \<Rightarrow> 's \<Rightarrow> (('k, 'h) lock_op \<times> bool) list \<times> 's" where
  "lock_run acq rel [] s = ([], s)"
| "lock_run acq rel (op # ops) s =
     (let (b, t) = (case op of Acq k h \<Rightarrow> acq k h s | Rel k h \<Rightarrow> rel k h s);
          (bs, u) = lock_run acq rel ops t
      in ((op, b) # bs, u))"

locale lock_service =
  fixes inv :: "'s \<Rightarrow> bool"
    and holds :: "'s \<Rightarrow> 'k \<Rightarrow> 'h option"
    and acq :: "'k \<Rightarrow> 'h \<Rightarrow> 's \<Rightarrow> bool \<times> 's"
    and rel :: "'k \<Rightarrow> 'h option \<Rightarrow> 's \<Rightarrow> bool \<times> 's"
  assumes acq_inv: "inv s \<Longrightarrow> inv (snd (acq k h s))"
    and rel_inv: "inv s \<Longrightarrow> inv (snd (rel k ho s))"
    and acq_result: "inv s \<Longrightarrow> fst (acq k h s) = (holds s k = None)"
    and acq_holds: "inv s \<Longrightarrow> holds (snd (acq k h s)) k' =
      (if k' = k \<and> holds s k = None then Some h else holds s k')"
    and rel_holds: "inv s \<Longrightarrow> holds (snd (rel k ho s)) k' =
      (if k' = k \<and> (ho = None \<or> holds s k = ho) then None else holds s k')"
begin

lemma run_Cons:
  "lock_run acq rel (op # ops) s =
     (let r = (case op of Acq k h \<Rightarrow> acq k h s | Rel k h \<Rightarrow> rel k h s);
          rest = lock_run acq rel ops (snd r)
      in ((op, fst r) # fst rest, snd rest))"
  by (simp add: Let_def split: prod.splits)

lemma op_inv: "inv s \<Longrightarrow> inv (snd (case op of Acq k h \<Rightarrow> acq k h s | Rel k h \<Rightarrow> rel k h s))"
  by (cases op) (simp_all add: acq_inv rel_inv)

lemma run_inv: "inv s \<Longrightarrow> inv (snd (lock_run acq rel ops s))"
  by (induction ops arbitrary: s) (simp_all add: run_Cons Let_def op_inv del: lock_run.simps(2))

text \<open>
  Exclusion: while its holder does not release it (and nobody releases it without naming a
  holder), a lock stays with its holder and every attempt to take it is refused.
\<close>

lemma run_exclusive:
  assumes "inv s" "holds s k = Some h" "Rel k (Some h) \<notin> set ops" "Rel k None \<notin> set ops"
  shows "holds (snd (lock_run acq rel ops s)) k = Some h \<and>
    (\<forall>h'. (Acq k h', True) \<notin> set (fst (lock_run acq rel ops s)))"
  using assms
proof (induction ops arbitrary: s)
  case (Cons op ops)
  let ?r = "case op of Acq k h \<Rightarrow> acq k h s | Rel k h \<Rightarrow> rel k h s"
  have "inv (snd ?r)" using Cons.prems(1) by (rule op_inv)
  moreover have "holds (snd ?r) k = Some h"
    using Cons.prems by (auto simp: acq_holds rel_holds split: lock_op.splits)
  moreover have "\<forall>h'. (op, fst ?r) \<noteq> (Acq k h', True)"
    using Cons.prems by (auto simp: acq_result)
  ultimately show ?case
    using Cons.IH [of "snd ?r"] Cons.prems
    by (auto simp: run_Cons Let_def simp del: lock_run.simps(2))
qed simp

end

text \<open>The boolean views of the two operations on one hub.\<close>

definition try_acquire :: "world \<Rightarrow> lock_id \<Rightarrow> string \<Rightarrow> hub \<Rightarrow> bool \<times> hub" where
  "try_acquire w k h s =
     (case acquire w (fst k) (fst (snd k)) (snd (snd k)) h s of
        (Inr (Some _), t) \<Rightarrow> (True, t) | (_, t) \<Rightarrow> (False, t))"

definition try_release :: "lock_id \<Rightarrow> string option \<Rightarrow> hub \<Rightarrow> bool \<times> hub" where
  "try_release k h s =
     (case release (fst k) (fst (snd k)) (snd (snd k)) h s of
        (Inr b, t) \<Rightarrow> (b, t) | (_, t) \<Rightarrow> (False, t))"

lemma try_acquire_snd:
  "snd (try_acquire w k h s) = snd (acquire w (fst k) (fst (snd k)) (snd (snd k)) h s)"
  by (auto simp: try_acquire_def split: prod.splits sum.splits option.splits)

lemma try_release_snd:
  "snd (try_release k h s) = snd (release (fst k) (fst (snd k)) (snd (snd k)) h s)"
  by (auto simp: try_release_def split: prod.splits sum.splits)

interpretation hub_locks: lock_service lock_wf held "try_acquire w" try_release for w
proof unfold_locales
  fix s k h
  show "lock_wf s \<Longrightarrow> fst (try_acquire w k h s) = (held s k = None)"
    by (cases "held s k") (simp_all add: try_acquire_def acquire_free acquire_held Let_def)
qed (auto simp: try_acquire_snd try_release_snd acquire_wf release_wf held_acquire held_release)

lemma lock_frame_calls: "evolves (same calls) (acquire w sc oid kd h)"
  unfolding evolves_def same_def
  by (auto simp: acquire_def prog_simps timezone_now_def create_lock_def Let_def)


section \<open>Properties\<close>

definition one_lock :: hub where
  "one_lock = empty_hub\<lparr>locks := [\<lparr>l_workspace = 1, l_scope = ScopeSite, l_object_id = ''7'',
     l_kind = KindDeploy, l_holder = ''11'', l_acquired_at = 0, l_heartbeat_at = 0\<rparr>]\<rparr>"

text \<open>
  C5: Mutual exclusion of operation locks. Whatever sequence of acquire and release calls other
  holders make, a lock stays with its holder until that holder releases it (or somebody releases it
  without naming a holder), and no other acquire on the same scope, object and kind succeeds.
\<close>

theorem lock_stays_with_holder:
  assumes "lock_wf s" "held s k = Some h" "Rel k (Some h) \<notin> set ops" "Rel k None \<notin> set ops"
  shows "held (snd (lock_run (try_acquire w) try_release ops s)) k = Some h \<and>
    (\<forall>h'. (Acq k h', True) \<notin> set (fst (lock_run (try_acquire w) try_release ops s)))"
  using assms by (rule hub_locks.run_exclusive)

theorem lock_stays_with_holder_witness:
  "held (snd (lock_run (try_acquire calm_world) try_release
      [Acq (ScopeSite, ''7'', KindDeploy) ''12'', Rel (ScopeSite, ''7'', KindDeploy) (Some ''12'')]
      one_lock)) (ScopeSite, ''7'', KindDeploy) = Some ''11''"
proof -
  have "lock_wf one_lock" "held one_lock (ScopeSite, ''7'', KindDeploy) = Some ''11''"
    by (simp_all add: one_lock_def lock_wf_def held_def lock_key_def)
  from lock_stays_with_holder [OF this, of
      "[Acq (ScopeSite, ''7'', KindDeploy) ''12'', Rel (ScopeSite, ''7'', KindDeploy) (Some ''12'')]" calm_world]
  show ?thesis by simp
qed

text \<open>
  \<open>acquire\<close> never raises: it answers with a row exactly when the key is free and with \<open>None\<close> when
  it is taken; afterwards the caller holds the key if it was free, every other key is held as
  before, and the uniqueness of keys is kept.
\<close>

theorem acquire_outcome:
  assumes "lock_wf s"
  shows "\<exists>r t. acquire w scope oid kind h s = (Inr r, t) \<and>
    (r = None) = (held s (scope, oid, kind) \<noteq> None) \<and> lock_wf t \<and>
    (\<forall>k. held t k = (if k = (scope, oid, kind) \<and> held s k = None then Some h else held s k))"
proof -
  obtain r t where rt: "acquire w scope oid kind h s = (Inr r, t)"
    using acquire_never_raises by blast
  have "(r = None) = (held s (scope, oid, kind) \<noteq> None)"
    using rt by (cases "held s (scope, oid, kind)") (auto simp: acquire_free acquire_held Let_def)
  with rt acquire_wf [OF assms, of w scope oid kind h] held_acquire [of w scope oid kind h s]
  show ?thesis by simp
qed

theorem acquire_outcome_witness:
  "\<exists>r t. acquire calm_world ScopeTarget ''3'' KindReconcile ''loop'' one_lock = (Inr (Some r), t) \<and>
    held t (ScopeSite, ''7'', KindDeploy) = Some ''11'' \<and>
    held t (ScopeTarget, ''3'', KindReconcile) = Some ''loop''"
proof -
  have "lock_wf one_lock" "held one_lock (ScopeTarget, ''3'', KindReconcile) = None"
    "held one_lock (ScopeSite, ''7'', KindDeploy) = Some ''11''"
    by (simp_all add: one_lock_def lock_wf_def held_def lock_key_def)
  with acquire_outcome [of one_lock calm_world ScopeTarget "''3''" KindReconcile "''loop''"]
  show ?thesis by force
qed

text \<open>
  A release that names a holder frees the lock only for that holder: it reports whether that
  holder had it, frees exactly that key, and a release by anybody else changes nothing.
\<close>

theorem release_by_holder_only:
  assumes "lock_wf s"
  shows "fst (release scope oid kind (Some h) s) = Inr (held s (scope, oid, kind) = Some h) \<and>
    held (snd (release scope oid kind (Some h) s)) k =
      (if k = (scope, oid, kind) \<and> held s k = Some h then None else held s k) \<and>
    lock_wf (snd (release scope oid kind (Some h) s))"
  using assms by (auto simp: release_result held_release release_wf)

theorem release_by_holder_only_witness:
  "held (snd (release ScopeSite ''7'' KindDeploy (Some ''12'') one_lock)) (ScopeSite, ''7'', KindDeploy) = Some ''11''"
proof -
  have "lock_wf one_lock" "held one_lock (ScopeSite, ''7'', KindDeploy) = Some ''11''"
    by (simp_all add: one_lock_def lock_wf_def held_def lock_key_def)
  with release_by_holder_only [of one_lock ScopeSite "''7''" KindDeploy "''12''" "(ScopeSite, ''7'', KindDeploy)"]
  show ?thesis by simp
qed

end
