(* ===== verification/Json.thy ===== *)
theory Json
  imports Prelude
begin

text \<open>
  The text forms the hub stores and hashes: \<open>json.dumps\<close> (key order, separators, ASCII escapes) and
  \<open>datetime.isoformat\<close> for instants in UTC.
\<close>


section \<open>json.dumps\<close>

definition hex_digit :: "nat \<Rightarrow> char" where
  "hex_digit n = (if n < 10 then char_of (48 + n) else char_of (87 + n))"

definition escape_char :: "char \<Rightarrow> string" where
  "escape_char c = (let n = of_char c :: nat in
     if n = 34 then [char_of (92::nat), c]
     else if n = 92 then [c, c]
     else if n = 10 then [char_of (92::nat), CHR ''n'']
     else if n = 13 then [char_of (92::nat), CHR ''r'']
     else if n = 9 then [char_of (92::nat), CHR ''t'']
     else if n = 12 then [char_of (92::nat), CHR ''f'']
     else if n = 8 then [char_of (92::nat), CHR ''b'']
     else if n < 32 \<or> 126 < n
     then char_of (92::nat) # ''u00'' @ [hex_digit (n div 16), hex_digit (n mod 16)]
     else [c])"

definition quote :: "string \<Rightarrow> string" where
  "quote s = CHR 0x22 # concat (map escape_char s) @ [CHR 0x22]"

text \<open>\<open>dumps isep ksep v\<close> prints with the given separators, keys in stored order.\<close>

fun dumps :: "string \<Rightarrow> string \<Rightarrow> json \<Rightarrow> string" where
  "dumps isep ksep JNull = ''null''"
| "dumps isep ksep (JBool b) = (if b then ''true'' else ''false'')"
| "dumps isep ksep (JInt i) = str_int i"
| "dumps isep ksep (JStr s) = quote s"
| "dumps isep ksep (JArr xs) = ''['' @ join isep (map (dumps isep ksep) xs) @ '']''"
| "dumps isep ksep (JObj d) =
     ''{'' @ join isep (map (\<lambda>(k, v). quote k @ ksep @ dumps isep ksep v) d) @ ''}''"

text \<open>\<open>sort_keys=True\<close>: the keys of every object in code-point order.\<close>

fun sort_keys :: "json \<Rightarrow> json" where
  "sort_keys (JArr xs) = JArr (map sort_keys xs)"
| "sort_keys (JObj d) = JObj (sort_key fst (map (\<lambda>(k, v). (k, sort_keys v)) d))"
| "sort_keys JNull = JNull"
| "sort_keys (JBool b) = JBool b"
| "sort_keys (JInt i) = JInt i"
| "sort_keys (JStr s) = JStr s"

text \<open>\<open>json.dumps(v, sort_keys=True, separators=(",", ":"))\<close> and the default \<open>json.dumps(v)\<close>.\<close>

definition dumps_canonical :: "json \<Rightarrow> string" where
  "dumps_canonical v = dumps '','' '':'' (sort_keys v)"

definition dumps_default :: "json \<Rightarrow> string" where
  "dumps_default v = dumps '', '' '': '' v"

text \<open>\<open>repr(v)\<close>, which is also \<open>str(v)\<close> of a list or dict.\<close>

definition repr_char :: "char \<Rightarrow> char \<Rightarrow> string" where
  "repr_char q c = (let n = of_char c :: nat; bs = char_of (92::nat) in
     if c = q \<or> n = 92 then [bs, c]
     else if n = 10 then [bs, CHR ''n'']
     else if n = 13 then [bs, CHR ''r'']
     else if n = 9 then [bs, CHR ''t'']
     else if n < 32 \<or> (127 \<le> n \<and> n \<le> 160) \<or> n = 173
     then bs # ''x'' @ [hex_digit (n div 16), hex_digit (n mod 16)]
     else [c])"

definition repr_str :: "string \<Rightarrow> string" where
  "repr_str x = (let q = (if CHR 0x27 \<in> set x \<and> CHR 0x22 \<notin> set x then CHR 0x22 else CHR 0x27)
     in q # concat (map (repr_char q) x) @ [q])"

fun py_repr :: "json \<Rightarrow> string" where
  "py_repr JNull = ''None''"
| "py_repr (JBool b) = (if b then ''True'' else ''False'')"
| "py_repr (JInt i) = str_int i"
| "py_repr (JStr x) = repr_str x"
| "py_repr (JArr xs) = ''['' @ join '', '' (map py_repr xs) @ '']''"
| "py_repr (JObj d) = ''{'' @ join '', '' (map (\<lambda>(k, v). repr_str k @ '': '' @ py_repr v) d) @ ''}''"

lemma dumps_JObj_hd: "dumps isep ksep (JObj d) = CHR ''{'' # tl (dumps isep ksep (JObj d))"
  by simp

lemma dumps_canonical_JObj_hd: "\<exists>rest. dumps_canonical (JObj d) = CHR ''{'' # rest"
  by (simp add: dumps_canonical_def)


section \<open>isoformat\<close>

definition pad :: "nat \<Rightarrow> int \<Rightarrow> string" where
  "pad k n = (let d = str_int n in replicate (k - length d) (CHR ''0'') @ d)"

text \<open>Year, month and day of a day number counted from 1970-01-01 (proleptic Gregorian).\<close>

definition civil :: "int \<Rightarrow> int \<times> int \<times> int" where
  "civil days = (let z = days + 719468; era = z div 146097; doe = z mod 146097;
      yoe = (doe - doe div 1460 + doe div 36524 - doe div 146096) div 365;
      doy = doe - (365 * yoe + yoe div 4 - yoe div 100);
      mp = (5 * doy + 2) div 153;
      d = doy - (153 * mp + 2) div 5 + 1;
      m = (if mp < 10 then mp + 3 else mp - 9);
      y = yoe + era * 400 + (if m \<le> 2 then 1 else 0)
    in (y, m, d))"

definition isoformat :: "time \<Rightarrow> string" where
  "isoformat t = (let (y, m, d) = civil (t div 86400000000);
      us = t mod 86400000000; sec = us div 1000000
    in pad 4 y @ ''-'' @ pad 2 m @ ''-'' @ pad 2 d @ ''T'' @ pad 2 (sec div 3600) @ '':'' @
       pad 2 (sec div 60 mod 60) @ '':'' @ pad 2 (sec mod 60) @ ''.'' @
       pad 6 (us mod 1000000) @ ''+00:00'')"

end
