(* ===== verification/Audit_Log.thy ===== *)
theory Audit_Log
  imports Models Json
begin

text \<open>
  \<open>core/audit.py\<close> and \<open>workspace_of\<close> of \<open>core/models/workspace.py\<close>: the append-only audit trail with
  one hash chain per workspace and one for the system scope. A head row per chain carries the hash of
  the last event; the head is read under \<open>select_for_update\<close>, so appends to a chain are serial and the
  retry loop of the source (taken on database errors only) is not part of the model.
\<close>


section \<open>Objects an event is about\<close>

datatype audit_obj = OSite site | OInstance site_instance | OFinding finding_row | OTarget target
  | OPartner partner | ODeployment deployment
  | OOwned string nat "nat option" \<comment> \<open>a row with an \<open>owner_type\<close>: class name, key, owner's workspace\<close>

fun obj_type :: "audit_obj \<Rightarrow> string" where
  "obj_type (OSite _) = ''Site''"
| "obj_type (OInstance _) = ''SiteInstance''"
| "obj_type (OFinding _) = ''Finding''"
| "obj_type (OTarget _) = ''Target''"
| "obj_type (OPartner _) = ''Partner''"
| "obj_type (ODeployment _) = ''Deployment''"
| "obj_type (OOwned n _ _) = n"

fun obj_pk :: "audit_obj \<Rightarrow> nat" where
  "obj_pk (OSite x) = s_pk x"
| "obj_pk (OInstance x) = i_pk x"
| "obj_pk (OFinding x) = f_pk x"
| "obj_pk (OTarget x) = t_pk x"
| "obj_pk (OPartner x) = p_pk x"
| "obj_pk (ODeployment x) = d_pk x"
| "obj_pk (OOwned _ k _) = k"

text \<open>The owner workspace reached through project, site, zone or manifest.\<close>

fun workspace_of :: "hub \<Rightarrow> audit_obj \<Rightarrow> nat option" where
  "workspace_of s (OSite x) = Some (s_workspace x)"
| "workspace_of s (OInstance x) = map_option s_workspace (site_by_pk s (i_site x))"
| "workspace_of s (OFinding x) = Some (f_workspace x)"
| "workspace_of s (OTarget x) = Some (z_workspace (t_zone x))"
| "workspace_of s (OPartner x) = Some (p_workspace x)"
| "workspace_of s (ODeployment x) =
     Option.bind (deployment_site s x) (\<lambda>k. map_option s_workspace (site_by_pk s k))"
| "workspace_of s (OOwned _ _ ws) = ws"

fun has_owner_type :: "audit_obj \<Rightarrow> bool" where
  "has_owner_type (OOwned _ _ _) = True"
| "has_owner_type _ = False"


section \<open>The row hash\<close>

definition CHAIN_VERSION :: nat where
  "CHAIN_VERSION = 2"

fun source_text :: "audit_source \<Rightarrow> string" where
  "source_text SrcUi = ''ui''"
| "source_text SrcApi = ''api''"
| "source_text SrcCelery = ''celery''"
| "source_text SrcReconciler = ''reconciler''"
| "source_text SrcSystem = ''system''"
| "source_text SrcWs = ''ws''"

fun severity_text :: "audit_severity \<Rightarrow> string" where
  "severity_text SevInfo = ''info''"
| "severity_text SevWarning = ''warning''"
| "severity_text SevSecurity = ''security''"

fun scope_text :: "audit_scope \<Rightarrow> string" where
  "scope_text ScopeWorkspace = ''workspace''"
| "scope_text ScopeSystem = ''system''"

definition opt_int :: "nat option \<Rightarrow> json" where
  "opt_int x = (case x of None \<Rightarrow> JNull | Some n \<Rightarrow> JInt (int n))"

definition opt_str :: "string option \<Rightarrow> json" where
  "opt_str x = (case x of None \<Rightarrow> JNull | Some v \<Rightarrow> JStr v)"

definition canonical_row :: "audit_event \<Rightarrow> string" where
  "canonical_row e = dumps_canonical (JObj [
     (''action'', JStr (ae_action e)),
     (''actor_id'', opt_int (ae_actor e)),
     (''chain_version'', JInt (int (if ae_chain_version e = 0 then CHAIN_VERSION
                                   else ae_chain_version e))),
     (''detail'', JObj (ae_detail e)),
     (''object_id'', JStr (ae_object_id e)),
     (''object_type'', JStr (ae_object_type e)),
     (''partner_id'', opt_int (ae_partner e)),
     (''scope'', JStr (scope_text (ae_scope e))),
     (''severity'', JStr (severity_text (ae_severity e))),
     (''source'', JStr (source_text (ae_source e))),
     (''source_ip'', opt_str (ae_source_ip e)),
     (''ts'', JStr (isoformat (ae_ts e))),
     (''workspace_id'', opt_int (ae_workspace e))])"

definition row_hash :: "world \<Rightarrow> audit_event \<Rightarrow> string" where
  "row_hash w e = w_sha256 w (ae_prev_hash e @ canonical_row e)"

text \<open>\<open>verify_chain\<close>: the loop with the previous row as its state.\<close>

fun verify_from :: "world \<Rightarrow> audit_event option \<Rightarrow> audit_event list \<Rightarrow> bool" where
  "verify_from w prev [] = True"
| "verify_from w prev (e # es) =
     (case prev of
        None \<Rightarrow> if ae_prev_hash e \<noteq> [] then False else verify_from w (Some e) es
      | Some p \<Rightarrow> if ae_prev_hash e \<noteq> row_hash w p then False else verify_from w (Some e) es)"

definition verify_chain :: "world \<Rightarrow> audit_event list \<Rightarrow> bool" where
  "verify_chain w rows = verify_from w None rows"

text \<open>\<open>verify_chain()\<close> without rows reads the whole table in key order.\<close>

definition verify_chain_all :: "world \<Rightarrow> hub \<Rightarrow> bool" where
  "verify_chain_all w s = verify_chain w (sort_key ae_pk (audits s))"


section \<open>Writing an event\<close>

record audit_call =
  ac_action :: string
  ac_obj :: "audit_obj option"
  ac_actor :: "nat option"
  ac_source :: audit_source
  ac_severity :: audit_severity
  ac_source_ip :: "string option"
  ac_workspace :: "nat option"
  ac_scope :: "audit_scope option"
  ac_partner :: "nat option"
  ac_detail :: "(string \<times> json) list"

text \<open>The keyword defaults of \<open>audit()\<close>.\<close>

definition audit_args :: "string \<Rightarrow> audit_obj option \<Rightarrow> audit_call" where
  "audit_args action obj = \<lparr>ac_action = action, ac_obj = obj, ac_actor = None,
     ac_source = SrcSystem, ac_severity = SevInfo, ac_source_ip = None, ac_workspace = None,
     ac_scope = None, ac_partner = None, ac_detail = []\<rparr>"

definition owned :: "audit_obj option \<Rightarrow> bool" where
  "owned obj = (case obj of None \<Rightarrow> False | Some ob \<Rightarrow> has_owner_type ob)"

definition resolve_workspace :: "hub \<Rightarrow> audit_obj option \<Rightarrow> nat option \<Rightarrow> audit_scope \<Rightarrow>
    exn + nat option" where
  "resolve_workspace s obj workspace scope =
     (if scope = ScopeSystem then Inr None
      else case workspace of Some ws \<Rightarrow> Inr (Some ws) | None \<Rightarrow>
        (case Option.bind obj (workspace_of s) of Some ws \<Rightarrow> Inr (Some ws) | None \<Rightarrow>
           if owned obj then Inr None
           else Inl (TypeError ''audit() requires workspace or an object that owns one'')))"

definition partner_of :: "audit_obj option \<Rightarrow> nat option" where
  "partner_of obj = (case obj of Some (OPartner p) \<Rightarrow> Some (p_pk p) | _ \<Rightarrow> None)"

type_synonym chain_key = "audit_scope \<times> nat option"

definition head_key :: "audit_chain_head \<Rightarrow> chain_key" where
  "head_key h = (ch_scope h, ch_workspace h)"

definition event_key :: "audit_event \<Rightarrow> chain_key" where
  "event_key e = (ae_scope e, ae_workspace e)"

text \<open>The key the next row of a table gets.\<close>

definition next_pk :: "nat list \<Rightarrow> nat" where
  "next_pk pks = Suc (foldr max pks 0)"

text \<open>The head row of a chain, created on first use with an empty hash.\<close>

definition chain_head :: "chain_key \<Rightarrow> audit_chain_head act" where
  "chain_head k = (\<lambda>s. case find (\<lambda>h. head_key h = k) (chain_heads s) of
     Some h \<Rightarrow> (Inr h, s)
   | None \<Rightarrow> (let h = \<lparr>ch_workspace = snd k, ch_scope = fst k, ch_last_hash = [],
                   ch_last_event = None, ch_version = CHAIN_VERSION\<rparr>
              in (Inr h, s\<lparr>chain_heads := chain_heads s @ [h]\<rparr>)))"

definition initial_scope :: "audit_call \<Rightarrow> audit_scope" where
  "initial_scope c = (case ac_scope c of Some x \<Rightarrow> x | None \<Rightarrow>
     if ac_workspace c = None \<and> ac_obj c = None then ScopeSystem else ScopeWorkspace)"

definition final_scope :: "audit_call \<Rightarrow> nat option \<Rightarrow> audit_scope" where
  "final_scope c workspace =
     (if initial_scope c = ScopeWorkspace \<and> workspace = None \<and> owned (ac_obj c)
      then ScopeSystem else initial_scope c)"

text \<open>The body of the transaction: read the head, save the event, move the head.\<close>

definition write_event :: "world \<Rightarrow> audit_call \<Rightarrow> chain_key \<Rightarrow> audit_event act" where
  "write_event w c key =
     bnd (chain_head key) (\<lambda>head.
     bnd (timezone_now w) (\<lambda>now.
     bnd (gets (\<lambda>s. next_pk (map ae_pk (audits s)))) (\<lambda>pk.
     let event = \<lparr>ae_pk = pk, ae_ts = now, ae_actor = ac_actor c, ae_source = ac_source c,
           ae_action = ac_action c,
           ae_object_type = (case ac_obj c of None \<Rightarrow> [] | Some ob \<Rightarrow> obj_type ob),
           ae_object_id = (case ac_obj c of None \<Rightarrow> [] | Some ob \<Rightarrow> str_nat (obj_pk ob)),
           ae_detail = ac_detail c, ae_source_ip = ac_source_ip c,
           ae_severity = ac_severity c, ae_prev_hash = ch_last_hash head,
           ae_partner = (case ac_partner c of Some p \<Rightarrow> Some p | None \<Rightarrow> partner_of (ac_obj c)),
           ae_workspace = snd key, ae_scope = fst key, ae_chain_version = CHAIN_VERSION\<rparr>
     in andThen (modify (\<lambda>s. s\<lparr>audits := audits s @ [event]\<rparr>))
        (andThen (modify (\<lambda>s. s\<lparr>chain_heads := upd_rows (\<lambda>h. head_key h = key)
            (\<lambda>h. h\<lparr>ch_last_hash := row_hash w event, ch_last_event := Some pk\<rparr>)
            (chain_heads s)\<rparr>))
        (ret event)))))"

definition audit :: "world \<Rightarrow> audit_call \<Rightarrow> audit_event act" where
  "audit w c =
     bnd (gets (\<lambda>s. resolve_workspace s (ac_obj c) (ac_workspace c) (initial_scope c))) (\<lambda>rw.
     case rw of
       Inl e \<Rightarrow> throw e
     | Inr workspace \<Rightarrow> write_event w c (final_scope c workspace, workspace))"


section \<open>Every chain verifies\<close>

definition chain_rows :: "hub \<Rightarrow> chain_key \<Rightarrow> audit_event list" where
  "chain_rows s k = filter (\<lambda>e. event_key e = k) (audits s)"

definition last_hash :: "hub \<Rightarrow> chain_key \<Rightarrow> string" where
  "last_hash s k = (case find (\<lambda>h. head_key h = k) (chain_heads s) of
     None \<Rightarrow> [] | Some h \<Rightarrow> ch_last_hash h)"

definition tip_hash :: "world \<Rightarrow> audit_event list \<Rightarrow> string" where
  "tip_hash w rows = (if rows = [] then [] else row_hash w (last rows))"

text \<open>The invariant: the stored head of each chain is the hash of its last row, and it verifies.\<close>

definition audit_inv :: "world \<Rightarrow> hub \<Rightarrow> bool" where
  "audit_inv w s = (\<forall>k. verify_chain w (chain_rows s k) \<and> last_hash s k = tip_hash w (chain_rows s k))"

lemma verify_from_snoc:
  "verify_from w p (xs @ [e]) \<longleftrightarrow>
     verify_from w p xs \<and>
     ae_prev_hash e = (if xs = [] then (case p of None \<Rightarrow> [] | Some q \<Rightarrow> row_hash w q)
                       else row_hash w (last xs))"
  by (induction xs arbitrary: p) (auto split: option.splits)

lemma verify_chain_Nil [simp]: "verify_chain w []"
  by (simp add: verify_chain_def)

lemma verify_chain_snoc:
  "verify_chain w (xs @ [e]) \<longleftrightarrow> verify_chain w xs \<and> ae_prev_hash e = tip_hash w xs"
  by (simp add: verify_chain_def verify_from_snoc tip_hash_def)

lemma last_hash_new_head:
  "find (\<lambda>h. head_key h = k) (chain_heads s) = None \<Longrightarrow> head_key h = k \<Longrightarrow> ch_last_hash h = [] \<Longrightarrow>
   last_hash (s\<lparr>chain_heads := chain_heads s @ [h]\<rparr>) = last_hash s"
  by (rule ext) (auto simp: last_hash_def find_append split: option.splits)

lemma chain_head_eff:
  "\<exists>h t. chain_head k s = (Inr h, t) \<and> ch_last_hash h = last_hash s k \<and>
     audits t = audits s \<and> last_hash t = last_hash s \<and>
     find (\<lambda>h. head_key h = k) (chain_heads t) \<noteq> None"
proof (cases "find (\<lambda>h. head_key h = k) (chain_heads s)")
  case (Some h)
  then show ?thesis by (simp add: chain_head_def last_hash_def)
next
  case None
  let ?h = "\<lparr>ch_workspace = snd k, ch_scope = fst k, ch_last_hash = [], ch_last_event = None,
    ch_version = CHAIN_VERSION\<rparr>"
  have "last_hash (s\<lparr>chain_heads := chain_heads s @ [?h]\<rparr>) = last_hash s"
    using None by (intro last_hash_new_head) (simp_all add: head_key_def)
  with None show ?thesis
    by (simp add: chain_head_def Let_def last_hash_def [of s k] find_append)
      (simp add: head_key_def)
qed

text \<open>An event that is written extends its chain by itself and moves only its own head.\<close>

lemma write_event_effect:
  "\<exists>e t. write_event w c key s = (Inr e, t) \<and> event_key e = key \<and> audits t = audits s @ [e] \<and>
     ae_prev_hash e = last_hash s key \<and> last_hash t = (last_hash s)(key := row_hash w e)"
proof -
  from chain_head_eff [of key s] obtain h u where
    h: "chain_head key s = (Inr h, u)" "ch_last_hash h = last_hash s key"
      "audits u = audits s" "last_hash u = last_hash s"
      "find (\<lambda>h. head_key h = key) (chain_heads u) \<noteq> None" by blast
  obtain e t where we: "write_event w c key s = (Inr e, t)" "event_key e = key"
    "ae_prev_hash e = last_hash s key" "audits t = audits s @ [e]"
    "chain_heads t = upd_rows (\<lambda>h. head_key h = key)
       (\<lambda>h. h\<lparr>ch_last_hash := row_hash w e, ch_last_event := Some (ae_pk e)\<rparr>) (chain_heads u)"
    using h(1-3) by (simp add: write_event_def bnd_def gets_def timezone_now_def andThen_def
        modify_def ret_def event_key_def Let_def)
  have "last_hash t = (last_hash u)(key := row_hash w e)"
    using h(5) by (intro ext) (auto simp: last_hash_def we(5) find_upd_rows_key head_key_def
      split: option.splits)
  with we h(4) show ?thesis by auto
qed

lemma audit_cases:
  "(\<exists>x. audit w c s = (Inl x, s)) \<or>
   (\<exists>e t. audit w c s = (Inr e, t) \<and> audits t = audits s @ [e] \<and>
      ae_prev_hash e = last_hash s (event_key e) \<and>
      last_hash t = (last_hash s)(event_key e := row_hash w e))"
proof (cases "resolve_workspace s (ac_obj c) (ac_workspace c) (initial_scope c)")
  case (Inl x)
  then show ?thesis by (simp add: audit_def bnd_def gets_def throw_def)
next
  case (Inr ws)
  with write_event_effect [of w c "(final_scope c ws, ws)" s] show ?thesis
    by (auto simp: audit_def bnd_def gets_def)
qed

lemma chain_rows_snoc:
  "audits t = audits s @ [e] \<Longrightarrow>
   chain_rows t k = (if event_key e = k then chain_rows s k @ [e] else chain_rows s k)"
  by (simp add: chain_rows_def)

lemma audit_inv_snoc:
  assumes "audit_inv w s" "audits t = audits s @ [e]"
    "ae_prev_hash e = last_hash s (event_key e)"
    "last_hash t = (last_hash s)(event_key e := row_hash w e)"
  shows "audit_inv w t"
  unfolding audit_inv_def
proof
  fix k
  from assms(1) have k: "verify_chain w (chain_rows s k)" "last_hash s k = tip_hash w (chain_rows s k)"
    unfolding audit_inv_def by blast+
  show "verify_chain w (chain_rows t k) \<and> last_hash t k = tip_hash w (chain_rows t k)"
  proof (cases "event_key e = k")
    case True
    with k assms show ?thesis by (simp add: chain_rows_snoc verify_chain_snoc tip_hash_def)
  next
    case False
    with k assms show ?thesis by (simp add: chain_rows_snoc)
  qed
qed

lemma audit_keeps_inv: "audit_inv w s \<Longrightarrow> audit_inv w (snd (audit w c s))"
  using audit_cases [of w c s] by (auto intro: audit_inv_snoc)

lemma audit_inv_empty: "audits s = [] \<Longrightarrow> chain_heads s = [] \<Longrightarrow> audit_inv w s"
  by (simp add: audit_inv_def chain_rows_def last_hash_def tip_hash_def)

text \<open>A run of audit calls; a call that raises is skipped by its caller's handler.\<close>

fun audit_run :: "world \<Rightarrow> audit_call list \<Rightarrow> hub \<Rightarrow> hub" where
  "audit_run w [] s = s"
| "audit_run w (c # cs) s = audit_run w cs (snd (audit w c s))"

lemma audit_run_inv: "audit_inv w s \<Longrightarrow> audit_inv w (audit_run w cs s)"
  by (induction cs arbitrary: s) (simp_all add: audit_keeps_inv)


lemma audit_run_empty: "audit_inv w (audit_run w cs empty_hub)"
  by (rule audit_run_inv, rule audit_inv_empty) simp_all


section \<open>Tamper evidence\<close>

text \<open>What the digest function promises about the shape of its output: 64 hexadecimal digits.\<close>

definition hex_digest :: "world \<Rightarrow> bool" where
  "hex_digest w = (\<forall>x. length (w_sha256 w x) = 64 \<and> CHR ''{'' \<notin> set (w_sha256 w x))"

lemma canonical_row_hd: "\<exists>rest. canonical_row e = CHR ''{'' # rest"
  by (simp add: canonical_row_def dumps_canonical_JObj_hd)

lemma brace_split:
  "a @ CHR ''{'' # x = b @ CHR ''{'' # y \<Longrightarrow> CHR ''{'' \<notin> set a \<Longrightarrow> CHR ''{'' \<notin> set b \<Longrightarrow>
   a = b \<and> x = y"
proof (induction a arbitrary: b)
  case Nil
  then show ?case by (cases b) auto
next
  case (Cons c a)
  then show ?case by (cases b) auto
qed

lemma verify_prev_hash:
  "verify_chain w (xs @ [e]) \<Longrightarrow> hex_digest w \<Longrightarrow> CHR ''{'' \<notin> set (ae_prev_hash e)"
  by (auto simp: verify_chain_snoc tip_hash_def row_hash_def hex_digest_def split: if_splits)

lemma tip_hash_Nil_iff: "hex_digest w \<Longrightarrow> tip_hash w xs = [] \<longleftrightarrow> xs = []"
  by (auto simp: tip_hash_def row_hash_def hex_digest_def)
    (metis list.size(3) zero_neq_numeral)

text \<open>The text a row's hash is taken of.\<close>

definition hash_input :: "audit_event \<Rightarrow> string" where
  "hash_input e = ae_prev_hash e @ canonical_row e"

lemma row_hash_input: "row_hash w e = w_sha256 w (hash_input e)"
  by (simp add: row_hash_def hash_input_def)

lemma hash_input_eqD:
  assumes "hash_input x = hash_input y" "CHR ''{'' \<notin> set (ae_prev_hash x)" "CHR ''{'' \<notin> set (ae_prev_hash y)"
  shows "ae_prev_hash x = ae_prev_hash y \<and> canonical_row x = canonical_row y"
proof -
  obtain r q where "canonical_row x = CHR ''{'' # r" "canonical_row y = CHR ''{'' # q"
    using canonical_row_hd by blast
  with assms brace_split [of "ae_prev_hash x" r "ae_prev_hash y" q] show ?thesis
    by (simp add: hash_input_def)
qed

text \<open>
  Two chains that verify and end in the same hash have the same rows, unless the digest collides on
  texts the chains themselves contain.
\<close>

lemma tip_determines_rows:
  assumes hex: "hex_digest w"
  shows "inj_on (w_sha256 w) (hash_input ` (set xs \<union> set ys)) \<Longrightarrow>
    verify_chain w xs \<Longrightarrow> verify_chain w ys \<Longrightarrow> tip_hash w xs = tip_hash w ys \<Longrightarrow>
    map canonical_row xs = map canonical_row ys"
proof (induction xs arbitrary: ys rule: rev_induct)
  case Nil
  with hex show ?case using tip_hash_Nil_iff by (metis list.simps(8))
next
  case (snoc x xs)
  from snoc.prems hex have "ys \<noteq> []"
    by (metis tip_hash_Nil_iff append_is_Nil_conv list.distinct(1))
  then obtain ys' y where ys: "ys = ys' @ [y]" by (metis rev_exhaust)
  have "w_sha256 w (hash_input x) = w_sha256 w (hash_input y)"
    using snoc.prems(4) by (simp add: ys tip_hash_def row_hash_input)
  then have "hash_input x = hash_input y"
    by (rule inj_onD [OF snoc.prems(1)]) (simp_all add: ys)
  from hash_input_eqD [OF this verify_prev_hash [OF snoc.prems(2) hex]
      verify_prev_hash [OF snoc.prems(3) [unfolded ys] hex]]
  have "ae_prev_hash x = ae_prev_hash y" "canonical_row x = canonical_row y" by simp_all
  moreover have "inj_on (w_sha256 w) (hash_input ` (set xs \<union> set ys'))"
    using snoc.prems(1) by (rule inj_on_subset) (auto simp: ys)
  moreover have "verify_chain w xs" "verify_chain w ys'"
    "ae_prev_hash x = tip_hash w xs" "ae_prev_hash y = tip_hash w ys'"
    using snoc.prems(2,3) by (simp_all only: ys verify_chain_snoc)
  ultimately have "map canonical_row xs = map canonical_row ys'"
    by (intro snoc.IH) simp_all
  with \<open>canonical_row x = canonical_row y\<close> ys show ?case by simp
qed


section \<open>Properties\<close>

text \<open>
  C6: Every audit chain verifies. After any sequence of \<open>audit\<close> calls (those that raise included) on a
  hub with an empty trail, \<open>verify_chain\<close> accepts the rows of every workspace chain and of the system
  chain, and the stored head of each chain is the hash of its last row.
\<close>

theorem audit_chains_verify:
  "verify_chain w (chain_rows (audit_run w cs empty_hub) k) \<and>
   last_hash (audit_run w cs empty_hub) k = tip_hash w (chain_rows (audit_run w cs empty_hub) k)"
  using audit_run_empty [of w cs] unfolding audit_inv_def by blast

text \<open>
  C7: Tamper evidence. Two row sequences that \<open>verify_chain\<close> accepts and that end in the same row hash
  agree in the canonical text of every row (time, actor, action, object, detail, scope), provided the
  digest has no collision among the texts these rows hash: nobody can change, drop, insert or reorder
  rows of a chain and keep its head hash.
\<close>

theorem audit_tamper_evident:
  assumes "hex_digest w" "inj_on (w_sha256 w) (hash_input ` (set xs \<union> set ys))"
    "verify_chain w xs" "verify_chain w ys" "tip_hash w xs = tip_hash w ys"
  shows "map canonical_row xs = map canonical_row ys"
  using assms by (rule tip_determines_rows)

lemma hex_char_not_brace: "hex_char n \<noteq> CHR ''{''"
proof -
  have "hex_char n \<in> set ''0123456789abcdef''"
    unfolding hex_char_def by (rule nth_mem) (simp add: nat_less_iff)
  then show ?thesis by auto
qed

lemma calm_hex_digest: "hex_digest calm_world"
  by (simp add: hex_digest_def calm_world_def checksum_digest_def Let_def
      hex_char_not_brace hex_char_not_brace [symmetric])

definition two_calls :: "audit_call list" where
  "two_calls = [(audit_args ''site_created'' None)\<lparr>ac_workspace := Some 1\<rparr>,
     (audit_args ''site_created'' None)\<lparr>ac_workspace := Some 2\<rparr>]"

definition sample_event :: audit_event where
  "sample_event = \<lparr>ae_pk = 1, ae_ts = 0, ae_actor = None, ae_source = SrcSystem,
     ae_action = ''site_created'', ae_object_type = [], ae_object_id = [], ae_detail = [],
     ae_source_ip = None, ae_severity = SevInfo, ae_prev_hash = [], ae_partner = None,
     ae_workspace = Some 1, ae_scope = ScopeWorkspace, ae_chain_version = 2\<rparr>"

theorem audit_tamper_evident_witness:
  "map canonical_row [sample_event] = map canonical_row [sample_event\<lparr>ae_pk := 9\<rparr>]"
proof -
  have "canonical_row (sample_event\<lparr>ae_pk := 9\<rparr>) = canonical_row sample_event"
    by (simp add: canonical_row_def)
  then have "hash_input (sample_event\<lparr>ae_pk := 9\<rparr>) = hash_input sample_event"
    by (simp add: hash_input_def)
  then show ?thesis
    by (intro audit_tamper_evident [OF calm_hex_digest])
      (simp_all add: verify_chain_def tip_hash_def row_hash_input, simp_all add: sample_event_def)
qed

text \<open>
  The chain check without arguments reads the whole table as one chain, while \<open>audit\<close> keeps one
  chain per workspace. As soon as two workspaces have an event each, it reports tampering on a trail
  nobody touched, although each of the chains verifies.
\<close>

theorem verify_chain_all_false_alarm:
  assumes "hex_digest w"
  shows "\<not> verify_chain_all w (audit_run w two_calls empty_hub) \<and>
    (\<forall>k. verify_chain w (chain_rows (audit_run w two_calls empty_hub) k))"
proof -
  have "length (w_sha256 w x) = 64" for x using assms by (simp add: hex_digest_def)
  then have "[] \<noteq> w_sha256 w x" for x by (metis list.size(3) zero_neq_numeral)
  then have "\<not> verify_chain_all w (audit_run w two_calls empty_hub)"
    by (simp add: verify_chain_all_def verify_chain_def two_calls_def audit_def audit_args_def
        prog_simps initial_scope_def resolve_workspace_def write_event_def chain_head_def
        final_scope_def timezone_now_def Let_def next_pk_def head_key_def
        upd_rows_def owned_def row_hash_def)
  then show ?thesis using audit_run_empty [of w two_calls] unfolding audit_inv_def by blast
qed

theorem verify_chain_all_false_alarm_witness:
  "\<not> verify_chain_all calm_world (audit_run calm_world two_calls empty_hub)"
  using verify_chain_all_false_alarm [OF calm_hex_digest] by blast

end
