(* ===== verification/Findings.thy ===== *)
theory Findings
  imports Audit_Log
begin

text \<open>
  \<open>core/findings.py\<close> with the stream port of \<open>core/events.py\<close>: the attention queue. A finding is
  identified by (workspace, fingerprint); filing creates the row, refreshes it or reopens it, and the
  operator moves it through acknowledge, resolve and accept-risk. Operations on a row take the object
  the caller holds in memory and save all its fields, as \<open>row.save()\<close> does.
\<close>


section \<open>Publishing\<close>

definition publish :: "string \<Rightarrow> json \<Rightarrow> unit act" where
  "publish topic event = (\<lambda>s.
     if stream_wired s then (Inr (), s\<lparr>stream := stream s @ [\<lparr>ev_topic = topic, ev_payload = event\<rparr>]\<rparr>)
     else (Inl (RuntimeError ''event stream not wired''), s))"

definition FINDINGS_TOPIC :: string where
  "FINDINGS_TOPIC = ''findings''"

fun finding_severity_text :: "severity \<Rightarrow> string" where
  "finding_severity_text P1 = ''p1''"
| "finding_severity_text P2 = ''p2''"
| "finding_severity_text P3 = ''p3''"

fun state_text :: "finding_state \<Rightarrow> string" where
  "state_text Open = ''open''"
| "state_text Acked = ''acked''"
| "state_text Resolved = ''resolved''"
| "state_text Accepted = ''accepted''"

definition finding_event :: "finding_row \<Rightarrow> string \<Rightarrow> json" where
  "finding_event row action = JObj [
     (''kind'', JStr ''finding''),
     (''action'', JStr action),
     (''id'', JInt (int (f_pk row))),
     (''source_engine'', JStr (f_source_engine row)),
     (''severity'', JStr (finding_severity_text (f_severity row))),
     (''entity'', JStr (f_entity row)),
     (''title'', JStr (f_title row)),
     (''body'', JStr (f_body row)),
     (''fix_action'', JStr (f_fix_action row)),
     (''state'', JStr (state_text (f_state row))),
     (''fingerprint'', JStr (f_fingerprint row)),
     (''first_seen'', JStr (isoformat (f_first_seen row))),
     (''last_seen'', JStr (isoformat (f_last_seen row))),
     (''workspace_id'', JInt (int (f_workspace row)))]"

definition publish_finding :: "finding_row \<Rightarrow> string \<Rightarrow> unit act" where
  "publish_finding row action = publish FINDINGS_TOPIC (finding_event row action)"


section \<open>Filing\<close>

record finding_fields =
  ff_severity :: severity
  ff_entity :: string
  ff_title :: string
  ff_body :: string
  ff_fix_action :: string

definition blank :: "string \<Rightarrow> bool" where
  "blank v = (strip v = [])"

definition copy_error :: "string \<Rightarrow> exn" where
  "copy_error name = ValueError (''a Finding must carry a non-blank '' @ name)"

text \<open>\<open>_require_copy_values\<close>: title, body and fix action, in that order, must not be blank.\<close>

definition require_copy_values :: "string \<Rightarrow> string \<Rightarrow> string \<Rightarrow> unit act" where
  "require_copy_values title body fix_action =
     (if blank title then throw (copy_error ''title'')
      else if blank body then throw (copy_error ''body'')
      else if blank fix_action then throw (copy_error ''fix_action'')
      else ret ())"

definition finding_key :: "finding_row \<Rightarrow> nat \<times> string" where
  "finding_key r = (f_workspace r, f_fingerprint r)"

definition finding_at :: "hub \<Rightarrow> nat \<Rightarrow> string \<Rightarrow> finding_row option" where
  "finding_at s ws fp = find (\<lambda>r. finding_key r = (ws, fp)) (findings s)"

text \<open>\<open>Finding.objects.create\<close>, refused by the constraint on (workspace, fingerprint).\<close>

definition create_finding :: "string \<Rightarrow> nat \<Rightarrow> string \<Rightarrow> finding_fields \<Rightarrow> time \<Rightarrow> finding_row act" where
  "create_finding source_engine ws fp flds now = (\<lambda>s.
     if (ws, fp) \<in> finding_key ` set (findings s) then (Inl IntegrityError, s)
     else let row = \<lparr>f_pk = next_pk (map f_pk (findings s)), f_workspace = ws,
            f_source_engine = source_engine, f_severity = ff_severity flds,
            f_entity = ff_entity flds, f_title = ff_title flds, f_body = ff_body flds,
            f_fix_action = ff_fix_action flds, f_state = Open, f_first_seen = now,
            f_last_seen = now, f_fingerprint = fp, f_accepted_reason = []\<rparr>
          in (Inr row, s\<lparr>findings := findings s @ [row]\<rparr>))"

definition save_finding :: "finding_row \<Rightarrow> unit act" where
  "save_finding row = modify (\<lambda>s. s\<lparr>findings := upd_rows (\<lambda>r. f_pk r = f_pk row) (\<lambda>_. row) (findings s)\<rparr>)"

text \<open>The branch for a fingerprint that has a row: refresh it, and reopen it when resolved.\<close>

definition refire :: "world \<Rightarrow> finding_row \<Rightarrow> string \<Rightarrow> finding_fields \<Rightarrow> time \<Rightarrow> finding_row act" where
  "refire w existing source_engine flds now =
     (let reopened = (f_state existing = Resolved);
          row = existing\<lparr>f_source_engine := source_engine, f_last_seen := now,
            f_severity := ff_severity flds, f_entity := ff_entity flds,
            f_title := ff_title flds, f_body := ff_body flds,
            f_fix_action := ff_fix_action flds,
            f_state := (if reopened then Open else f_state existing)\<rparr>
      in andThen (require_copy_values (f_title row) (f_body row) (f_fix_action row))
         (andThen (save_finding row)
         (andThen (when_do reopened
            (andThen (bnd (audit w ((audit_args ''finding_reopened'' (Some (OFinding row)))
                 \<lparr>ac_workspace := Some (f_workspace row),
                  ac_detail := [(''fingerprint'', JStr (f_fingerprint row))]\<rparr>)) (\<lambda>_. ret ()))
              (publish_finding row ''reopened'')))
         (ret row))))"

definition finding :: "world \<Rightarrow> string \<Rightarrow> string \<Rightarrow> nat option \<Rightarrow> finding_fields \<Rightarrow> finding_row act" where
  "finding w source_engine fp workspace flds =
     (case workspace of
        None \<Rightarrow> throw (TypeError ''finding() requires workspace'')
      | Some ws \<Rightarrow>
        bnd (timezone_now w) (\<lambda>now.
        bnd (gets (\<lambda>s. finding_at s ws fp)) (\<lambda>existing.
        case existing of
          Some row \<Rightarrow> refire w row source_engine flds now
        | None \<Rightarrow>
          andThen (require_copy_values (ff_title flds) (ff_body flds) (ff_fix_action flds))
          (bnd (try_except
              (bnd (atomically (create_finding source_engine ws fp flds now)) (\<lambda>r. ret (Some r)))
              (\<lambda>e. if e = IntegrityError then ret None else throw e)) (\<lambda>created.
           case created of
             Some row \<Rightarrow>
               bnd (audit w ((audit_args ''finding_filed'' (Some (OFinding row)))
                   \<lparr>ac_workspace := Some ws,
                    ac_detail := [(''fingerprint'', JStr fp),
                      (''finding_severity'', JStr (finding_severity_text (f_severity row)))]\<rparr>))
                 (\<lambda>_. andThen (publish_finding row ''filed'') (ret row))
           | None \<Rightarrow>
               bnd (timezone_now w) (\<lambda>now'.
               bnd (gets (\<lambda>s. finding_at s ws fp)) (\<lambda>again.
               case again of Some row \<Rightarrow> refire w row source_engine flds now'
               | None \<Rightarrow> throw IntegrityError)))))))"


section \<open>Operator transitions\<close>

fun allowed :: "finding_state \<Rightarrow> finding_state list" where
  "allowed Open = [Acked, Resolved, Accepted]"
| "allowed Acked = [Resolved, Accepted]"
| "allowed Accepted = [Resolved]"
| "allowed Resolved = []"

definition transition :: "world \<Rightarrow> finding_row \<Rightarrow> finding_state \<Rightarrow> string \<Rightarrow> string \<Rightarrow> nat option \<Rightarrow>
    audit_source \<Rightarrow> (string \<times> json) list \<Rightarrow> finding_row act" where
  "transition w row to_state action event_action actor source detail =
     (if to_state \<notin> set (allowed (f_state row))
      then throw (ValueError (''cannot move a '' @ state_text (f_state row) @ '' finding to ''
        @ state_text to_state))
      else let row' = row\<lparr>f_state := to_state\<rparr> in
        andThen (save_finding row')
        (bnd (audit w ((audit_args action (Some (OFinding row')))
            \<lparr>ac_actor := actor, ac_source := source, ac_workspace := Some (f_workspace row),
             ac_detail := [(''from_state'', JStr (state_text (f_state row))),
               (''to_state'', JStr (state_text to_state)),
               (''fingerprint'', JStr (f_fingerprint row))] @ detail\<rparr>))
          (\<lambda>_. andThen (publish_finding row' event_action) (ret row'))))"

definition ack :: "world \<Rightarrow> finding_row \<Rightarrow> nat option \<Rightarrow> audit_source \<Rightarrow> finding_row act" where
  "ack w row actor source = transition w row Acked ''finding_acked'' ''acked'' actor source []"

definition resolve :: "world \<Rightarrow> finding_row \<Rightarrow> nat option \<Rightarrow> audit_source \<Rightarrow> finding_row act" where
  "resolve w row actor source =
     transition w row Resolved ''finding_resolved'' ''resolved'' actor source []"

definition accept_risk :: "world \<Rightarrow> finding_row \<Rightarrow> string \<Rightarrow> nat option \<Rightarrow> audit_source \<Rightarrow>
    finding_row act" where
  "accept_risk w row reason actor source =
     (let reason' = strip reason in
      if reason' = [] then throw (ValueError ''accept-risk requires a one-line reason'')
      else transition w (row\<lparr>f_accepted_reason := reason'\<rparr>) Accepted ''finding_risk_accepted''
        ''accepted'' actor source [(''reason'', JStr reason')])"


section \<open>What the operations write\<close>

text \<open>
  The state without the journals: equality of \<open>beside_journal\<close> says that nothing but the audit trail,
  the stream and the clock changed.
\<close>

definition beside_journal :: "hub \<Rightarrow> hub" where
  "beside_journal s = s\<lparr>audits := [], chain_heads := [], ticks := 0, stream := []\<rparr>"

lemma beside_journal_fields:
  assumes "beside_journal t = beside_journal s"
  shows "findings t = findings s" "stream_wired t = stream_wired s" "locks t = locks s"
    "sites t = sites s" "targets t = targets s" "instances t = instances s" "calls t = calls s"
    "deployments t = deployments s" "dsteps t = dsteps s" "alert_states t = alert_states s"
    "host_metrics t = host_metrics s" "partners t = partners s" "partner_sites t = partner_sites s"
    "manifests t = manifests s" "artifacts t = artifacts s"
proof -
  note cong = arg_cong [OF assms]
  show "findings t = findings s" using cong [of findings] by (simp add: beside_journal_def)
  show "stream_wired t = stream_wired s" using cong [of stream_wired] by (simp add: beside_journal_def)
  show "locks t = locks s" using cong [of locks] by (simp add: beside_journal_def)
  show "sites t = sites s" using cong [of sites] by (simp add: beside_journal_def)
  show "targets t = targets s" using cong [of targets] by (simp add: beside_journal_def)
  show "instances t = instances s" using cong [of instances] by (simp add: beside_journal_def)
  show "calls t = calls s" using cong [of calls] by (simp add: beside_journal_def)
  show "deployments t = deployments s" using cong [of deployments] by (simp add: beside_journal_def)
  show "dsteps t = dsteps s" using cong [of dsteps] by (simp add: beside_journal_def)
  show "alert_states t = alert_states s" using cong [of alert_states] by (simp add: beside_journal_def)
  show "host_metrics t = host_metrics s" using cong [of host_metrics] by (simp add: beside_journal_def)
  show "partners t = partners s" using cong [of partners] by (simp add: beside_journal_def)
  show "partner_sites t = partner_sites s" using cong [of partner_sites] by (simp add: beside_journal_def)
  show "manifests t = manifests s" using cong [of manifests] by (simp add: beside_journal_def)
  show "artifacts t = artifacts s" using cong [of artifacts] by (simp add: beside_journal_def)
qed

lemma timezone_now_journal: "evolves (same beside_journal) (timezone_now w)"
  by (rule timezone_now_frame) (simp add: beside_journal_def)

lemma chain_head_journal: "evolves (same beside_journal) (chain_head k)"
  by (auto simp: evolves_def same_def chain_head_def Let_def beside_journal_def split: option.splits)

lemma write_event_journal: "evolves (same beside_journal) (write_event w c k)"
  unfolding write_event_def Let_def
  by (intro frame.ev_rules chain_head_journal timezone_now_journal modify_frame)
    (simp_all add: beside_journal_def)

lemma audit_journal: "evolves (same beside_journal) (audit w c)"
  unfolding audit_def by (intro frame.ev_rules write_event_journal)

lemma audit_stream: "evolves (same stream) (audit w c)"
  unfolding audit_def write_event_def Let_def
  by (intro frame.ev_rules timezone_now_frame modify_frame)
    (auto simp: evolves_def same_def chain_head_def Let_def split: option.splits)

text \<open>An audit call with a workspace always succeeds.\<close>

lemma audit_ok:
  assumes "ac_workspace c = Some ws" "ac_scope c = None"
  obtains e t where "audit w c s = (Inr e, t)" "audits t = audits s @ [e]" "stream t = stream s"
    "beside_journal t = beside_journal s"
proof -
  from assms have "resolve_workspace s (ac_obj c) (ac_workspace c) (initial_scope c) = Inr (Some ws)"
    by (simp add: resolve_workspace_def initial_scope_def)
  with write_event_effect [of w c "(final_scope c (Some ws), Some ws)" s]
  obtain e t where "audit w c s = (Inr e, t)" "audits t = audits s @ [e]"
    by (auto simp: audit_def bnd_def gets_def)
  with frameD [OF audit_stream this(1)] frameD [OF audit_journal this(1)] that show thesis by simp
qed

text \<open>A change that is announced \<open>k\<close> times: once in the trail and once on the stream each time.\<close>

definition announced :: "nat \<Rightarrow> hub \<Rightarrow> hub \<Rightarrow> bool" where
  "announced k s t = (beside_journal t = beside_journal s \<and>
     (\<exists>as. audits t = audits s @ as \<and> length as = k) \<and>
     (\<exists>evs. stream t = stream s @ evs \<and> length evs = k))"

lemma announced_0: "announced 0 s s"
  by (simp add: announced_def)

lemma announced_fields:
  "announced k s t \<Longrightarrow> stream_wired t = stream_wired s \<and> findings t = findings s"
  by (auto simp: announced_def dest: beside_journal_fields)

lemma publish_wired:
  "stream_wired s \<Longrightarrow>
   publish topic ev s = (Inr (), s\<lparr>stream := stream s @ [\<lparr>ev_topic = topic, ev_payload = ev\<rparr>]\<rparr>)"
  by (simp add: publish_def)

lemma announce_ok:
  assumes "stream_wired s" "ac_workspace c = Some ws" "ac_scope c = None"
  shows "\<exists>t. announced 1 s t \<and>
    bnd (audit w c) (\<lambda>_. andThen (publish_finding row action) (ret y)) s = (Inr y, t)"
proof -
  obtain e t where t: "audit w c s = (Inr e, t)" "audits t = audits s @ [e]" "stream t = stream s"
    "beside_journal t = beside_journal s"
    using audit_ok [OF assms(2,3)] .
  let ?u = "t\<lparr>stream := stream t @ [\<lparr>ev_topic = FINDINGS_TOPIC, ev_payload = finding_event row action\<rparr>]\<rparr>"
  have "stream_wired t" using assms(1) beside_journal_fields(2) [OF t(4)] by simp
  then have "bnd (audit w c) (\<lambda>_. andThen (publish_finding row action) (ret y)) s = (Inr y, ?u)"
    by (simp add: bnd_def t(1) andThen_def publish_finding_def publish_wired ret_def)
  moreover have "announced 1 s ?u"
    using t by (simp add: announced_def) (simp add: beside_journal_def)
  ultimately show ?thesis by blast
qed

lemma require_copy_ok:
  "\<not> blank a \<Longrightarrow> \<not> blank b \<Longrightarrow> \<not> blank c \<Longrightarrow> require_copy_values a b c = ret ()"
  by (simp add: require_copy_values_def)

lemma require_copy_cases:
  "(\<exists>e. require_copy_values a b c = throw e) \<or> (\<not> blank a \<and> \<not> blank b \<and> \<not> blank c)"
  by (auto simp: require_copy_values_def)

lemma transition_ok:
  assumes "stream_wired s" "to_state \<in> set (allowed (f_state row))"
  shows "\<exists>t. transition w row to_state action ev actor src detail s = (Inr (row\<lparr>f_state := to_state\<rparr>), t) \<and>
    announced 1 (s\<lparr>findings := upd_rows (\<lambda>r. f_pk r = f_pk row) (\<lambda>_. row\<lparr>f_state := to_state\<rparr>)
      (findings s)\<rparr>) t"
proof -
  let ?row = "row\<lparr>f_state := to_state\<rparr>"
  let ?s = "s\<lparr>findings := upd_rows (\<lambda>r. f_pk r = f_pk row) (\<lambda>_. ?row) (findings s)\<rparr>"
  let ?c = "(audit_args action (Some (OFinding ?row)))
            \<lparr>ac_actor := actor, ac_source := src, ac_workspace := Some (f_workspace row),
             ac_detail := [(''from_state'', JStr (state_text (f_state row))),
               (''to_state'', JStr (state_text to_state)),
               (''fingerprint'', JStr (f_fingerprint row))] @ detail\<rparr>"
  have "stream_wired ?s" using assms(1) by simp
  from announce_ok [OF this, of ?c "f_workspace row" w ?row ev ?row]
  obtain t where "announced 1 ?s t"
    "bnd (audit w ?c) (\<lambda>_. andThen (publish_finding ?row ev) (ret ?row)) ?s = (Inr ?row, t)"
    by (auto simp: audit_args_def)
  moreover have "transition w row to_state action ev actor src detail s =
      bnd (audit w ?c) (\<lambda>_. andThen (publish_finding ?row ev) (ret ?row)) ?s"
    using assms(2) by (simp add: transition_def Let_def andThen_def bnd_def save_finding_def modify_def)
  ultimately show ?thesis by auto
qed

lemma transition_refused:
  "to_state \<notin> set (allowed (f_state row)) \<Longrightarrow>
   \<exists>m. transition w row to_state action ev actor src detail s = (Inl (ValueError m), s)"
  by (simp add: transition_def throw_def)

text \<open>The row a filing leaves behind, by what was there before.\<close>

definition refreshed :: "finding_row \<Rightarrow> string \<Rightarrow> finding_fields \<Rightarrow> time \<Rightarrow> finding_row" where
  "refreshed row engine flds now = row\<lparr>f_source_engine := engine, f_last_seen := now,
     f_severity := ff_severity flds, f_entity := ff_entity flds, f_title := ff_title flds,
     f_body := ff_body flds, f_fix_action := ff_fix_action flds,
     f_state := (if f_state row = Resolved then Open else f_state row)\<rparr>"

definition copy_given :: "finding_fields \<Rightarrow> bool" where
  "copy_given flds = (\<not> blank (ff_title flds) \<and> \<not> blank (ff_body flds) \<and> \<not> blank (ff_fix_action flds))"

lemma refire_ok:
  assumes "stream_wired s" "copy_given flds"
  shows "\<exists>t. refire w row engine flds now s = (Inr (refreshed row engine flds now), t) \<and>
    announced (if f_state row = Resolved then 1 else 0)
      (s\<lparr>findings := upd_rows (\<lambda>r. f_pk r = f_pk row) (\<lambda>_. refreshed row engine flds now)
        (findings s)\<rparr>) t"
proof -
  let ?row = "refreshed row engine flds now"
  let ?s = "s\<lparr>findings := upd_rows (\<lambda>r. f_pk r = f_pk row) (\<lambda>_. ?row) (findings s)\<rparr>"
  let ?c = "(audit_args ''finding_reopened'' (Some (OFinding ?row)))
     \<lparr>ac_workspace := Some (f_workspace ?row),
      ac_detail := [(''fingerprint'', JStr (f_fingerprint ?row))]\<rparr>"
  have copy: "require_copy_values (ff_title flds) (ff_body flds) (ff_fix_action flds) = ret ()"
    using assms(2) by (simp add: copy_given_def require_copy_ok)
  have pk: "f_pk ?row = f_pk row" by (simp add: refreshed_def)
  have eq: "refire w row engine flds now s =
      andThen (when_do (f_state row = Resolved)
         (andThen (bnd (audit w ?c) (\<lambda>_. ret ())) (publish_finding ?row ''reopened''))) (ret ?row) ?s"
    by (simp add: refire_def Let_def refreshed_def copy andThen_def bnd_def save_finding_def
        modify_def ret_def)
  show ?thesis
  proof (cases "f_state row = Resolved")
    case True
    have "stream_wired ?s" using assms(1) by simp
    from announce_ok [OF this, of ?c "f_workspace ?row" w ?row "''reopened''" ?row]
    obtain t where "announced 1 ?s t"
      "bnd (audit w ?c) (\<lambda>_. andThen (publish_finding ?row ''reopened'') (ret ?row)) ?s = (Inr ?row, t)"
      by (auto simp: audit_args_def)
    with True eq show ?thesis
      by (auto simp: when_do_def andThen_def bnd_assoc)
  next
    case False
    with eq show ?thesis
      by (auto simp: when_do_def andThen_def bnd_def ret_def announced_0)
  qed
qed


section \<open>Filing as a whole\<close>

definition fresh_row :: "hub \<Rightarrow> string \<Rightarrow> nat \<Rightarrow> string \<Rightarrow> finding_fields \<Rightarrow> time \<Rightarrow> finding_row" where
  "fresh_row s engine ws fp flds now = \<lparr>f_pk = next_pk (map f_pk (findings s)), f_workspace = ws,
     f_source_engine = engine, f_severity = ff_severity flds, f_entity = ff_entity flds,
     f_title = ff_title flds, f_body = ff_body flds, f_fix_action = ff_fix_action flds,
     f_state = Open, f_first_seen = now, f_last_seen = now, f_fingerprint = fp,
     f_accepted_reason = []\<rparr>"

text \<open>The table after a filing whose copy is complete.\<close>

definition filed :: "hub \<Rightarrow> string \<Rightarrow> nat \<Rightarrow> string \<Rightarrow> finding_fields \<Rightarrow> time \<Rightarrow> finding_row list" where
  "filed s engine ws fp flds now = (case finding_at s ws fp of
     None \<Rightarrow> findings s @ [fresh_row s engine ws fp flds now]
   | Some row \<Rightarrow> upd_rows (\<lambda>r. f_pk r = f_pk row) (\<lambda>_. refreshed row engine flds now) (findings s))"

definition filed_row :: "hub \<Rightarrow> string \<Rightarrow> nat \<Rightarrow> string \<Rightarrow> finding_fields \<Rightarrow> time \<Rightarrow> finding_row" where
  "filed_row s engine ws fp flds now = (case finding_at s ws fp of
     None \<Rightarrow> fresh_row s engine ws fp flds now | Some row \<Rightarrow> refreshed row engine flds now)"

text \<open>How often a filing is announced: on creation and on reopening.\<close>

definition announcements :: "hub \<Rightarrow> nat \<Rightarrow> string \<Rightarrow> nat" where
  "announcements s ws fp = (case finding_at s ws fp of
     None \<Rightarrow> 1 | Some row \<Rightarrow> if f_state row = Resolved then 1 else 0)"

lemma finding_at_key: "finding_at s ws fp = Some r \<Longrightarrow> r \<in> set (findings s) \<and> f_workspace r = ws \<and> f_fingerprint r = fp"
  unfolding finding_at_def using find_Some_mem by (fastforce simp: finding_key_def)

lemma finding_at_None: "finding_at s ws fp = None \<longleftrightarrow> (ws, fp) \<notin> finding_key ` set (findings s)"
  by (force simp: finding_at_def find_None_iff)

lemma announced_from_tick:
  "announced k (s\<lparr>ticks := n, findings := fs\<rparr>) t \<Longrightarrow> announced k (s\<lparr>findings := fs\<rparr>) t"
  by (simp add: announced_def beside_journal_def)

lemma finding_ok:
  assumes "stream_wired s" "copy_given flds"
  shows "\<exists>t. finding w engine fp (Some ws) flds s =
      (Inr (filed_row s engine ws fp flds (w_clock w (ticks s))), t) \<and>
    announced (announcements s ws fp)
      (s\<lparr>findings := filed s engine ws fp flds (w_clock w (ticks s))\<rparr>) t"
proof (cases "finding_at s ws fp")
  case (Some row)
  let ?s = "s\<lparr>ticks := Suc (ticks s)\<rparr>"
  have "finding_at ?s ws fp = Some row" using Some by (simp add: finding_at_def)
  then have "finding w engine fp (Some ws) flds s = refire w row engine flds (w_clock w (ticks s)) ?s"
    by (simp add: finding_def bnd_def timezone_now_def gets_def)
  with refire_ok [of ?s flds w row engine "w_clock w (ticks s)"] assms Some show ?thesis
    by (auto simp: filed_def filed_row_def announcements_def intro: announced_from_tick)
next
  case None
  let ?now = "w_clock w (ticks s)"
  let ?row = "fresh_row s engine ws fp flds ?now"
  let ?s = "s\<lparr>ticks := Suc (ticks s), findings := findings s @ [?row]\<rparr>"
  let ?c = "(audit_args ''finding_filed'' (Some (OFinding ?row)))
     \<lparr>ac_workspace := Some ws, ac_detail := [(''fingerprint'', JStr fp),
        (''finding_severity'', JStr (finding_severity_text (f_severity ?row)))]\<rparr>"
  have copy: "require_copy_values (ff_title flds) (ff_body flds) (ff_fix_action flds) = ret ()"
    using assms(2) by (simp add: copy_given_def require_copy_ok)
  have none: "finding_at (s\<lparr>ticks := Suc (ticks s)\<rparr>) ws fp = None"
    using None by (simp add: finding_at_def)
  have new: "(ws, fp) \<notin> finding_key ` set (findings s)" using None by (simp add: finding_at_None)
  have "finding w engine fp (Some ws) flds s =
      bnd (audit w ?c) (\<lambda>_. andThen (publish_finding ?row ''filed'') (ret ?row)) ?s"
    using new none
    by (simp add: finding_def copy bnd_def timezone_now_def gets_def andThen_def ret_def
        try_except_def atomically_def create_finding_def Let_def fresh_row_def)
  moreover have "stream_wired ?s" using assms(1) by simp
  note announce_ok [OF this, of ?c ws w ?row "''filed''" ?row]
  ultimately show ?thesis using None
    by (auto simp: audit_args_def filed_def filed_row_def announcements_def intro: announced_from_tick)
qed

lemma finding_refused:
  assumes "\<not> copy_given flds"
  shows "\<exists>m. finding w engine fp (Some ws) flds s = (Inl (ValueError m), s\<lparr>ticks := Suc (ticks s)\<rparr>)"
proof -
  obtain m where "require_copy_values (ff_title flds) (ff_body flds) (ff_fix_action flds) =
      throw (ValueError m)"
    using assms unfolding copy_given_def require_copy_values_def copy_error_def by metis
  then show ?thesis
    by (cases "finding_at s ws fp")
      (auto simp: finding_def refire_def Let_def bnd_def timezone_now_def gets_def andThen_def
        throw_def finding_at_def)
qed


section \<open>Invariants of the queue\<close>

definition findings_wf :: "hub \<Rightarrow> bool" where
  "findings_wf s = (distinct (map finding_key (findings s)) \<and> distinct (map f_pk (findings s)))"

text \<open>The accept-risk rule: an accepted finding says why.\<close>

definition accepted_explained :: "hub \<Rightarrow> bool" where
  "accepted_explained s = (\<forall>r \<in> set (findings s). f_state r = Accepted \<longrightarrow> \<not> blank (f_accepted_reason r))"

lemma foldr_max_ge: "x \<in> set xs \<Longrightarrow> x \<le> foldr max xs (0 :: nat)"
  by (induction xs) auto

lemma next_pk_fresh: "next_pk xs \<notin> set xs"
  using foldr_max_ge by (fastforce simp: next_pk_def)

lemma upd_rows_pk_wf:
  assumes "distinct (map f_pk fs)" "distinct (map finding_key fs)" "row \<in> set fs"
    "f_pk row' = f_pk row" "finding_key row' = finding_key row"
  shows "map f_pk (upd_rows (\<lambda>r. f_pk r = f_pk row) (\<lambda>_. row') fs) = map f_pk fs"
    and "map finding_key (upd_rows (\<lambda>r. f_pk r = f_pk row) (\<lambda>_. row') fs) = map finding_key fs"
proof -
  have "r = row" if "r \<in> set fs" "f_pk r = f_pk row" for r
    using assms(1,3) that by (auto simp: distinct_map inj_on_def)
  with assms(4,5) show "map f_pk (upd_rows (\<lambda>r. f_pk r = f_pk row) (\<lambda>_. row') fs) = map f_pk fs"
    and "map finding_key (upd_rows (\<lambda>r. f_pk r = f_pk row) (\<lambda>_. row') fs) = map finding_key fs"
    by (auto intro!: map_upd_rows_same)
qed

lemma refreshed_key [simp]:
  "finding_key (refreshed row e flds n) = finding_key row" "f_pk (refreshed row e flds n) = f_pk row"
  by (simp_all add: refreshed_def finding_key_def)

lemma filed_wf:
  assumes "findings_wf s"
  shows "findings_wf (s\<lparr>findings := filed s engine ws fp flds now\<rparr>)"
proof (cases "finding_at s ws fp")
  case None
  then have "(ws, fp) \<notin> finding_key ` set (findings s)" by (simp add: finding_at_None)
  moreover have "finding_key (fresh_row s engine ws fp flds now) = (ws, fp)"
    "f_pk (fresh_row s engine ws fp flds now) \<notin> f_pk ` set (findings s)"
    using next_pk_fresh [of "map f_pk (findings s)"] by (simp_all add: fresh_row_def finding_key_def)
  ultimately show ?thesis using assms None by (simp add: findings_wf_def filed_def)
next
  case (Some row)
  with finding_at_key have "row \<in> set (findings s)" by blast
  with assms Some upd_rows_pk_wf [of "findings s" row "refreshed row engine flds now"] show ?thesis
    by (simp add: findings_wf_def filed_def)
qed

lemma filed_explained:
  assumes "accepted_explained s"
  shows "accepted_explained (s\<lparr>findings := filed s engine ws fp flds now\<rparr>)"
proof (cases "finding_at s ws fp")
  case None
  with assms show ?thesis by (auto simp: accepted_explained_def filed_def fresh_row_def)
next
  case (Some row)
  with finding_at_key have "row \<in> set (findings s)" by blast
  with assms Some show ?thesis
    by (auto simp: accepted_explained_def filed_def set_upd_rows refreshed_def)
qed

text \<open>The row under any key after a filing.\<close>

lemma finding_at_filed:
  assumes "findings_wf s"
  shows "finding_at (s\<lparr>findings := filed s engine ws fp flds now\<rparr>) ws' fp' =
    (if (ws', fp') = (ws, fp) then Some (filed_row s engine ws fp flds now) else finding_at s ws' fp')"
proof (cases "finding_at s ws fp")
  case None
  then show ?thesis
    by (auto simp: finding_at_def filed_def filed_row_def find_append fresh_row_def finding_key_def
        split: option.splits)
next
  case (Some row)
  note row = finding_at_key [OF Some]
  have pk: "(f_pk r = f_pk row) = (finding_key r = (ws, fp))" if "r \<in> set (findings s)" for r
    using assms row that by (auto simp: findings_wf_def distinct_map inj_on_def finding_key_def)
  have "upd_rows (\<lambda>r. f_pk r = f_pk row) (\<lambda>_. refreshed row engine flds now) (findings s) =
      upd_rows (\<lambda>r. finding_key r = (ws, fp))
        (\<lambda>r. if finding_key r = (ws, fp) then refreshed row engine flds now else r) (findings s)"
    using pk by (auto simp: upd_rows_def)
  moreover have "finding_key row = (ws, fp)" using row by (simp add: finding_key_def)
  ultimately show ?thesis using Some
    by (auto simp: finding_at_def filed_def filed_row_def find_upd_rows_key option.map_ident
        split: option.splits)
qed

text \<open>A held row: the object in memory names a row of the table, possibly with stale columns.\<close>

definition known_row :: "hub \<Rightarrow> finding_row \<Rightarrow> bool" where
  "known_row s row = (\<exists>r \<in> set (findings s). f_pk r = f_pk row \<and> finding_key r = finding_key row)"

lemma saved_wf:
  assumes "findings_wf s" "known_row s row" "f_pk row' = f_pk row" "finding_key row' = finding_key row"
  shows "findings_wf (s\<lparr>findings := upd_rows (\<lambda>r. f_pk r = f_pk row) (\<lambda>_. row') (findings s)\<rparr>)"
proof -
  obtain r where "r \<in> set (findings s)" "f_pk r = f_pk row" "finding_key r = finding_key row"
    using assms(2) by (auto simp: known_row_def)
  with assms upd_rows_pk_wf [of "findings s" r row'] show ?thesis
    by (simp add: findings_wf_def)
qed

lemma saved_explained:
  assumes "accepted_explained s" "f_state row' = Accepted \<Longrightarrow> \<not> blank (f_accepted_reason row')"
  shows "accepted_explained (s\<lparr>findings := upd_rows p (\<lambda>_. row') (findings s)\<rparr>)"
  using assms by (auto simp: accepted_explained_def set_upd_rows)

lemma announced_keeps:
  assumes "announced k (s\<lparr>findings := fs\<rparr>) t" "findings_wf (s\<lparr>findings := fs\<rparr>)"
    "accepted_explained (s\<lparr>findings := fs\<rparr>)"
  shows "findings_wf t \<and> accepted_explained t"
  using assms announced_fields [OF assms(1)] by (simp add: findings_wf_def accepted_explained_def)


subsection \<open>The life of the queue as a step relation\<close>

inductive queue_step :: "world \<Rightarrow> hub \<Rightarrow> hub \<Rightarrow> bool" for w where
  filing: "queue_step w s (snd (finding w engine fp ws flds s))"
| acknowledge: "known_row s row \<Longrightarrow> queue_step w s (snd (ack w row actor src s))"
| settle: "known_row s row \<Longrightarrow> queue_step w s (snd (resolve w row actor src s))"
| accept: "known_row s row \<Longrightarrow> queue_step w s (snd (accept_risk w row reason actor src s))"

definition queue_inv :: "hub \<Rightarrow> bool" where
  "queue_inv s = (stream_wired s \<and> findings_wf s \<and> accepted_explained s \<and>
     length (audits s) = length (stream s))"

lemma queue_inv_announced:
  assumes "announced k (s\<lparr>findings := fs\<rparr>) t" "findings_wf (s\<lparr>findings := fs\<rparr>)"
    "accepted_explained (s\<lparr>findings := fs\<rparr>)" "queue_inv s"
  shows "queue_inv t"
  using announced_keeps [OF assms(1-3)] announced_fields [OF assms(1)] assms(1,4)
  by (auto simp: queue_inv_def announced_def)

lemma transition_inv:
  assumes "queue_inv s" "known_row s row"
    "to_state = Accepted \<Longrightarrow> \<not> blank (f_accepted_reason row)"
  shows "queue_inv (snd (transition w row to_state action ev actor src detail s))"
proof (cases "to_state \<in> set (allowed (f_state row))")
  case True
  let ?row = "row\<lparr>f_state := to_state\<rparr>"
  let ?fs = "upd_rows (\<lambda>r. f_pk r = f_pk row) (\<lambda>_. ?row) (findings s)"
  obtain t where t: "transition w row to_state action ev actor src detail s = (Inr ?row, t)"
    "announced 1 (s\<lparr>findings := ?fs\<rparr>) t"
    using transition_ok [of s to_state row w action ev actor src detail] True assms(1)
    unfolding queue_inv_def by blast
  moreover have "findings_wf (s\<lparr>findings := ?fs\<rparr>)"
    using assms(1,2) by (intro saved_wf) (auto simp: queue_inv_def finding_key_def)
  moreover have "accepted_explained (s\<lparr>findings := ?fs\<rparr>)"
    using assms(1,3) by (intro saved_explained) (auto simp: queue_inv_def)
  ultimately show ?thesis using queue_inv_announced assms(1) by fastforce
next
  case False
  with transition_refused [OF this, of w action ev actor src detail s] assms(1) show ?thesis by auto
qed

lemma finding_inv: "queue_inv s \<Longrightarrow> queue_inv (snd (finding w engine fp ws flds s))"
proof (cases ws)
  case None
  assume "queue_inv s"
  with None show ?thesis by (simp add: finding_def throw_def)
next
  case (Some k)
  assume inv: "queue_inv s"
  show ?thesis
  proof (cases "copy_given flds")
    case True
    from inv have "stream_wired s" by (simp add: queue_inv_def)
    from finding_ok [OF this True, of w engine fp k] obtain t where
      "finding w engine fp (Some k) flds s = (Inr (filed_row s engine k fp flds (w_clock w (ticks s))), t)"
      "announced (announcements s k fp)
        (s\<lparr>findings := filed s engine k fp flds (w_clock w (ticks s))\<rparr>) t" by blast
    moreover have "findings_wf (s\<lparr>findings := filed s engine k fp flds (w_clock w (ticks s))\<rparr>)"
      using inv by (simp add: queue_inv_def filed_wf)
    moreover have "accepted_explained (s\<lparr>findings := filed s engine k fp flds (w_clock w (ticks s))\<rparr>)"
      using inv by (simp add: queue_inv_def filed_explained)
    ultimately show ?thesis using Some inv queue_inv_announced by fastforce
  next
    case False
    with finding_refused [OF False, of w engine fp k s] Some inv show ?thesis
      by (auto simp: queue_inv_def findings_wf_def accepted_explained_def)
  qed
qed

lemma accept_risk_inv:
  assumes "queue_inv s" "known_row s row"
  shows "queue_inv (snd (accept_risk w row reason actor src s))"
proof -
  have "strip (strip reason) \<noteq> []" if "strip reason \<noteq> []"
    using that by (rule strip_strip_nonempty)
  moreover have "known_row s (row\<lparr>f_accepted_reason := x\<rparr>)" for x
    using assms(2) by (auto simp: known_row_def finding_key_def)
  ultimately show ?thesis using assms(1)
    by (auto simp: accept_risk_def Let_def throw_def blank_def intro!: transition_inv)
qed

lemma queue_step_inv: "queue_step w s t \<Longrightarrow> queue_inv s \<Longrightarrow> queue_inv t"
  by (induction rule: queue_step.induct)
    (auto intro: finding_inv accept_risk_inv simp: ack_def resolve_def intro!: transition_inv)

lemma queue_reach_inv: "(queue_step w)\<^sup>*\<^sup>* s t \<Longrightarrow> queue_inv s \<Longrightarrow> queue_inv t"
  by (induction rule: rtranclp_induct) (auto intro: queue_step_inv)


section \<open>Properties\<close>

definition sample_fields :: finding_fields where
  "sample_fields = \<lparr>ff_severity = P2, ff_entity = ''site:shop'', ff_title = ''Disk fills up'',
     ff_body = ''82 percent used'', ff_fix_action = ''Grow the volume''\<rparr>"


lemma sample_copy: "copy_given sample_fields"
  by (simp add: copy_given_def sample_fields_def blank_def strip_eq_Nil_iff is_space_def)


text \<open>
  What a filing does. With non-blank copy it always returns a row, which is then the row of that
  workspace and fingerprint: new findings are open, a resolved one is reopened, an acknowledged or
  accepted one keeps its state and its first-seen time; every other finding is untouched; and exactly
  a creation or a reopening adds one trail entry and one stream event.
\<close>

theorem filing_outcome:
  assumes "findings_wf s" "stream_wired s" "copy_given flds"
  shows "\<exists>row t. finding w engine fp (Some ws) flds s = (Inr row, t) \<and>
    finding_at t ws fp = Some row \<and>
    (case finding_at s ws fp of
       None \<Rightarrow> f_state row = Open \<and> f_first_seen row = f_last_seen row
     | Some old \<Rightarrow> f_pk row = f_pk old \<and> f_first_seen row = f_first_seen old \<and>
         f_state row = (if f_state old = Resolved then Open else f_state old)) \<and>
    f_severity row = ff_severity flds \<and> f_title row = ff_title flds \<and>
    (\<forall>ws' fp'. (ws', fp') \<noteq> (ws, fp) \<longrightarrow> finding_at t ws' fp' = finding_at s ws' fp') \<and>
    length (audits t) = length (audits s) + announcements s ws fp \<and>
    length (stream t) = length (stream s) + announcements s ws fp"
proof -
  let ?now = "w_clock w (ticks s)"
  let ?row = "filed_row s engine ws fp flds ?now"
  obtain t where t: "finding w engine fp (Some ws) flds s = (Inr ?row, t)"
    "announced (announcements s ws fp) (s\<lparr>findings := filed s engine ws fp flds ?now\<rparr>) t"
    using finding_ok [OF assms(2,3)] by blast
  have "findings t = filed s engine ws fp flds ?now" using announced_fields [OF t(2)] by simp
  then have "finding_at t ws' fp' = (if (ws', fp') = (ws, fp) then Some ?row else finding_at s ws' fp')" for ws' fp'
    using finding_at_filed [OF assms(1), of engine ws fp flds ?now ws' fp'] by (simp add: finding_at_def)
  moreover have "case finding_at s ws fp of
       None \<Rightarrow> f_state ?row = Open \<and> f_first_seen ?row = f_last_seen ?row
     | Some old \<Rightarrow> f_pk ?row = f_pk old \<and> f_first_seen ?row = f_first_seen old \<and>
         f_state ?row = (if f_state old = Resolved then Open else f_state old)"
    "f_severity ?row = ff_severity flds \<and> f_title ?row = ff_title flds"
    by (auto simp: filed_row_def fresh_row_def refreshed_def split: option.splits)
  moreover have "length (audits t) = length (audits s) + announcements s ws fp"
    "length (stream t) = length (stream s) + announcements s ws fp"
    using t(2) by (auto simp: announced_def)
  ultimately show ?thesis using t(1) by auto
qed

theorem filing_outcome_witness:
  "\<exists>row t. finding calm_world ''scaling'' ''disk:1'' (Some 1) sample_fields empty_hub = (Inr row, t) \<and>
     f_state row = Open \<and> length (audits t) = 1"
  using filing_outcome [of empty_hub sample_fields calm_world "''scaling''" "''disk:1''" 1]
  by (auto simp: findings_wf_def sample_copy finding_at_def announcements_def)

text \<open>
  A filing with a blank title, body or fix action is refused with a \<open>ValueError\<close> and leaves every
  table, the trail and the stream as they were.
\<close>

theorem blank_filing_refused:
  assumes "blank (ff_title flds) \<or> blank (ff_body flds) \<or> blank (ff_fix_action flds)"
  shows "\<exists>m. finding w engine fp (Some ws) flds s = (Inl (ValueError m), s\<lparr>ticks := Suc (ticks s)\<rparr>)"
  using assms by (intro finding_refused) (auto simp: copy_given_def)

theorem blank_filing_refused_witness:
  "\<exists>m. finding calm_world ''scaling'' ''disk:1'' (Some 1) (sample_fields\<lparr>ff_body := ''  ''\<rparr>) empty_hub =
     (Inl (ValueError m), empty_hub\<lparr>ticks := 1\<rparr>)"
  using blank_filing_refused [of "sample_fields\<lparr>ff_body := ''  ''\<rparr>" calm_world "''scaling''" "''disk:1''" 1 empty_hub]
  by (simp add: blank_def strip_eq_Nil_iff is_space_def)

end
