(* ===== verification/Deploy_Base.thy ===== *)
theory Deploy_Base
  imports Locks Findings
begin

text \<open>
  The bookkeeping the pipeline (\<open>deploys/pipeline.py\<close>) and the liveness sweep share: the persisted
  steps of a deployment and the resume point, the deploy locks a deployment holds, and its heartbeat.
\<close>


section \<open>Steps of a deployment\<close>

text \<open>\<open>DeploymentStep.Name.values\<close>, in declaration order.\<close>

definition step_names :: "step_name list" where
  "step_names = [Build, Ship, Migrate, StartGreen, HealthCheck, Dns, RouteTls, SmokeTest, Cutover]"

definition steps_of :: "hub \<Rightarrow> nat \<Rightarrow> deployment_step list" where
  "steps_of s d = sort_key st_seq (filter (\<lambda>r. st_deployment r = d) (dsteps s))"

definition step_done :: "deployment_step \<Rightarrow> bool" where
  "step_done r = (st_status r = StSucceeded \<or> st_status r = StSkipped)"

text \<open>First step whose status is not succeeded or skipped.\<close>

definition resume_step :: "hub \<Rightarrow> nat \<Rightarrow> deployment_step option" where
  "resume_step s d = find (\<lambda>r. \<not> step_done r) (steps_of s d)"

definition new_step :: "nat \<Rightarrow> nat \<Rightarrow> step_name \<Rightarrow> deployment_step" where
  "new_step d seq name = \<lparr>st_deployment = d, st_seq = seq, st_name = name, st_status = StPending,
     st_started = None, st_finished = None, st_log_text = [], st_artifacts = []\<rparr>"

text \<open>Create all nine named steps in sequence order as pending, once.\<close>

definition persist_steps :: "nat \<Rightarrow> unit act" where
  "persist_steps d = bnd (gets (\<lambda>s. \<exists>r \<in> set (dsteps s). st_deployment r = d)) (\<lambda>ex.
     if ex then ret ()
     else for_each (enumerate 1 step_names) (\<lambda>(seq, name).
       modify (\<lambda>s. s\<lparr>dsteps := dsteps s @ [new_step d seq name]\<rparr>)))"

text \<open>Saving columns of one step row (\<open>step.save(update_fields=...)\<close>).\<close>

definition save_step :: "nat \<Rightarrow> nat \<Rightarrow> (deployment_step \<Rightarrow> deployment_step) \<Rightarrow> unit act" where
  "save_step d seq f = modify (\<lambda>s.
     s\<lparr>dsteps := upd_rows (\<lambda>r. st_deployment r = d \<and> st_seq r = seq) f (dsteps s)\<rparr>)"

text \<open>Saving columns of one deployment row.\<close>

definition save_deployment :: "nat \<Rightarrow> (deployment \<Rightarrow> deployment) \<Rightarrow> unit act" where
  "save_deployment d f = modify (\<lambda>s.
     s\<lparr>deployments := upd_rows (\<lambda>r. d_pk r = d) f (deployments s)\<rparr>)"


section \<open>Deploy locks and the heartbeat\<close>

definition deploy_lock_of :: "nat \<Rightarrow> operation_lock \<Rightarrow> bool" where
  "deploy_lock_of d l = (l_kind l = KindDeploy \<and> l_holder l = str_nat d)"

text \<open>Drop every deploy lock held by this deployment id.\<close>

definition release_deploy_locks :: "nat \<Rightarrow> unit act" where
  "release_deploy_locks d =
     bnd (gets (\<lambda>s. filter (deploy_lock_of d) (locks s))) (\<lambda>rows.
     for_each rows (\<lambda>row.
       bnd (release (l_scope row) (l_object_id row) (l_kind row) (Some (str_nat d))) (\<lambda>_. ret ())))"

definition write_heartbeat :: "world \<Rightarrow> nat \<Rightarrow> time \<Rightarrow> unit act" where
  "write_heartbeat w d now =
     andThen (save_deployment d (\<lambda>r. r\<lparr>d_last_heartbeat := Some now\<rparr>))
     (bnd (gets (\<lambda>s. filter (deploy_lock_of d) (locks s))) (\<lambda>rows.
      for_each rows (\<lambda>row.
        bnd (heartbeat w (l_scope row) (l_object_id row) (l_kind row) (Some (str_nat d)))
          (\<lambda>_. ret ()))))"

text \<open>Stamp the deployment and the locks it holds.\<close>

definition touch_heartbeat :: "world \<Rightarrow> nat \<Rightarrow> unit act" where
  "touch_heartbeat w d = bnd (timezone_now w) (write_heartbeat w d)"


section \<open>Effects\<close>

lemma release_deploy_rows:
  assumes "\<And>r. r \<in> set rows \<Longrightarrow> deploy_lock_of d r"
  shows "for_each rows (\<lambda>row. bnd (release (l_scope row) (l_object_id row) (l_kind row)
       (Some (str_nat d))) (\<lambda>_. ret ())) s =
    (Inr (), s\<lparr>locks := filter (\<lambda>l. \<not> (l_holder l = str_nat d \<and> lock_key l \<in> lock_key ` set rows)) (locks s)\<rparr>)"
  using assms
proof (induction rows arbitrary: s)
  case Nil
  show ?case by (simp add: ret_def)
next
  case (Cons a rows)
  let ?t = "s\<lparr>locks := filter (\<lambda>l. \<not> lock_match (lock_key a) (Some (str_nat d)) l) (locks s)\<rparr>"
  have "for_each (a # rows) (\<lambda>row. bnd (release (l_scope row) (l_object_id row) (l_kind row)
       (Some (str_nat d))) (\<lambda>_. ret ())) s = for_each rows (\<lambda>row. bnd (release (l_scope row)
       (l_object_id row) (l_kind row) (Some (str_nat d))) (\<lambda>_. ret ())) ?t"
    by (simp add: andThen_def bnd_def release_def Let_def ret_def lock_key_def)
  also have "\<dots> = (Inr (), ?t\<lparr>locks := filter (\<lambda>l. \<not> (l_holder l = str_nat d \<and>
      lock_key l \<in> lock_key ` set rows)) (locks ?t)\<rparr>)"
    using Cons by simp
  finally show ?case
    by (simp add: lock_match_def conj_commute) (auto intro!: arg_cong2 [where f = "\<lambda>l s. s\<lparr>locks := l\<rparr>"]
      filter_cong)
qed

text \<open>Releasing removes exactly the deploy locks of this deployment.\<close>

lemma release_deploy_locks_eff:
  "release_deploy_locks d s = (Inr (), s\<lparr>locks := filter (\<lambda>l. \<not> deploy_lock_of d l) (locks s)\<rparr>)"
proof -
  let ?rows = "filter (deploy_lock_of d) (locks s)"
  have "release_deploy_locks d s = for_each ?rows (\<lambda>row. bnd (release (l_scope row)
      (l_object_id row) (l_kind row) (Some (str_nat d))) (\<lambda>_. ret ())) s"
    by (simp add: release_deploy_locks_def bnd_def gets_def)
  also have "\<dots> = (Inr (), s\<lparr>locks := filter (\<lambda>l. \<not> (l_holder l = str_nat d \<and>
      lock_key l \<in> lock_key ` set ?rows)) (locks s)\<rparr>)"
    by (rule release_deploy_rows) simp
  also have "filter (\<lambda>l. \<not> (l_holder l = str_nat d \<and> lock_key l \<in> lock_key ` set ?rows)) (locks s) =
      filter (\<lambda>l. \<not> deploy_lock_of d l) (locks s)"
    by (rule filter_cong) (auto simp: deploy_lock_of_def lock_key_def image_iff)
  finally show ?thesis .
qed

lemma lock_wf_filter: "lock_wf s \<Longrightarrow> lock_wf (s\<lparr>locks := filter p (locks s)\<rparr>)"
  by (simp add: lock_wf_def distinct_map_filter_keys)

lemma persist_steps_eff:
  "persist_steps d s =
     (Inr (), if \<exists>r \<in> set (dsteps s). st_deployment r = d then s
              else s\<lparr>dsteps := dsteps s @ map (\<lambda>(seq, name). new_step d seq name) (enumerate 1 step_names)\<rparr>)"
proof -
  have "for_each xs (\<lambda>(seq, name). modify (\<lambda>s. s\<lparr>dsteps := dsteps s @ [new_step d seq name]\<rparr>)) s =
      (Inr (), s\<lparr>dsteps := dsteps s @ map (\<lambda>(seq, name). new_step d seq name) xs\<rparr>)" for xs and s :: hub
    by (induction xs arbitrary: s) (auto simp: ret_def andThen_def bnd_def modify_def)
  then show ?thesis
    by (simp add: persist_steps_def bnd_def gets_def ret_def)
qed

text \<open>
  A heartbeat changes time stamps only. \<open>unstamped\<close> is the state with the stamps it may write wiped
  out.
\<close>

definition unstamped :: "hub \<Rightarrow> hub" where
  "unstamped s = s\<lparr>locks := map (\<lambda>l. l\<lparr>l_heartbeat_at := 0\<rparr>) (locks s),
     deployments := map (\<lambda>r. r\<lparr>d_last_heartbeat := None\<rparr>) (deployments s), ticks := 0\<rparr>"

lemma unstamped_timezone_now: "evolves (same unstamped) (timezone_now w)"
  by (rule timezone_now_frame) (simp add: unstamped_def)

lemma unstamped_lock_heartbeat: "evolves (same unstamped) (heartbeat w sc oid kd h)"
  by (auto simp: evolves_def same_def heartbeat_def prog_simps timezone_now_def Let_def
      unstamped_def upd_rows_def)

lemma unstamped_save_heartbeat:
  "evolves (same unstamped) (save_deployment d (\<lambda>r. r\<lparr>d_last_heartbeat := x\<rparr>))"
  by (auto simp: evolves_def same_def save_deployment_def modify_def unstamped_def upd_rows_def)

lemma touch_heartbeat_unstamped: "evolves (same unstamped) (touch_heartbeat w d)"
  unfolding touch_heartbeat_def write_heartbeat_def
  by (intro frame.ev_rules unstamped_timezone_now unstamped_lock_heartbeat unstamped_save_heartbeat)

lemma unstamped_eqD:
  assumes "unstamped t = unstamped s"
  shows "map lock_key (locks t) = map lock_key (locks s)"
    "map l_holder (locks t) = map l_holder (locks s)"
    "map d_pk (deployments t) = map d_pk (deployments s)"
    "map d_status (deployments t) = map d_status (deployments s)"
    "map d_manifest (deployments t) = map d_manifest (deployments s)"
    "dsteps t = dsteps s" "calls t = calls s" "dns_calls t = dns_calls s"
    "sites t = sites s" "manifests t = manifests s" "targets t = targets s"
    "audits t = audits s" "findings t = findings s"
proof -
  have l: "map (\<lambda>l. l\<lparr>l_heartbeat_at := 0\<rparr>) (locks t) = map (\<lambda>l. l\<lparr>l_heartbeat_at := 0\<rparr>) (locks s)"
    using arg_cong [OF assms, of locks] by (simp add: unstamped_def)
  have d: "map (\<lambda>r. r\<lparr>d_last_heartbeat := None\<rparr>) (deployments t) =
      map (\<lambda>r. r\<lparr>d_last_heartbeat := None\<rparr>) (deployments s)"
    using arg_cong [OF assms, of deployments] by (simp add: unstamped_def)
  show "map lock_key (locks t) = map lock_key (locks s)"
    using arg_cong [OF l, of "map lock_key"] by (simp add: lock_key_def [abs_def] comp_def)
  show "map l_holder (locks t) = map l_holder (locks s)"
    using arg_cong [OF l, of "map l_holder"] by (simp add: comp_def)
  show "map d_pk (deployments t) = map d_pk (deployments s)"
    using arg_cong [OF d, of "map d_pk"] by (simp add: comp_def)
  show "map d_status (deployments t) = map d_status (deployments s)"
    using arg_cong [OF d, of "map d_status"] by (simp add: comp_def)
  show "map d_manifest (deployments t) = map d_manifest (deployments s)"
    using arg_cong [OF d, of "map d_manifest"] by (simp add: comp_def)
  show "dsteps t = dsteps s" using arg_cong [OF assms, of dsteps] by (simp add: unstamped_def)
  show "calls t = calls s" using arg_cong [OF assms, of calls] by (simp add: unstamped_def)
  show "dns_calls t = dns_calls s" using arg_cong [OF assms, of dns_calls] by (simp add: unstamped_def)
  show "sites t = sites s" using arg_cong [OF assms, of sites] by (simp add: unstamped_def)
  show "manifests t = manifests s" using arg_cong [OF assms, of manifests] by (simp add: unstamped_def)
  show "targets t = targets s" using arg_cong [OF assms, of targets] by (simp add: unstamped_def)
  show "audits t = audits s" using arg_cong [OF assms, of audits] by (simp add: unstamped_def)
  show "findings t = findings s" using arg_cong [OF assms, of findings] by (simp add: unstamped_def)
qed

end
