(* ===== verification/Desired.thy ===== *)
theory Desired
  imports Deploy_Base "HOL-Library.Multiset"
begin

text \<open>
  The \<open>desired\<close> dictionary that \<open>deploys/pipeline.py\<close> and \<open>reconcile/loop.py\<close> hand to the steps, and the
  settings \<open>deploys/steps.py\<close> derives from it without touching the target: exposure, strategy, ports,
  volumes, Dockerfile, image tag, Caddy route and the merged TLS object. Keys that no product caller
  sets (\<open>registry\<close>, \<open>healthz_fetch\<close>, \<open>ready\<close>, \<open>ws_fetch\<close>, \<open>now\<close>, \<open>grace_s\<close>, \<open>backup_argv\<close>, \<open>migrate_argv\<close>,
  \<open>instance\<close>, \<open>caddy_listen\<close>, \<open>remote_context\<close>, \<open>image_archive\<close>, \<open>dns_rtype\<close>, \<open>secrets_mode\<close>) are absent,
  so \<open>desired.get\<close> on them is \<open>None\<close>.
\<close>

record desired =
  ds_site :: "site option"
  ds_target :: "target option"
  ds_site_slug :: string
  ds_deployment_id :: nat
  ds_body :: "(string \<times> json) list"
  ds_git_sha :: string
  ds_source_dir :: string
  ds_image_tag :: "string option"
  ds_heartbeat :: "nat option" \<comment> \<open>the deployment whose heartbeat the callback stamps\<close>
  ds_old_container :: "string option"
  ds_zone :: string
  ds_dns_zone :: "dns_zone option"
  ds_domain :: string
  ds_dns_values :: "string list"
  ds_dns_proxied :: bool
  ds_internal_port :: int
  ds_docker_run_extra :: json
  ds_env_names :: "json list"
  ds_firewall_argv :: "json list"
  ds_upstream :: json
  ds_dockerfile :: "string option"
  ds_caddy_route :: json
  ds_dns_set :: json
  ds_env_mapping :: "(string \<times> string) list"
  ds_env_file :: "string option"
  ds_tls_files :: "(string \<times> string) option" \<comment> \<open>certificate and key path\<close>
  ds_step :: "deployment_step option"


section \<open>Python conversions of JSON values\<close>

text \<open>
  \<open>str(v)\<close>: the text itself, the \<open>repr\<close> of any other value.
\<close>

fun py_str :: "json \<Rightarrow> string" where
  "py_str JNull = ''None''"
| "py_str (JBool b) = (if b then ''True'' else ''False'')"
| "py_str (JInt i) = str_int i"
| "py_str (JStr s) = s"
| "py_str (JArr xs) = py_repr (JArr xs)"
| "py_str (JObj d) = py_repr (JObj d)"

definition all_digits :: "string \<Rightarrow> bool" where
  "all_digits s = (s \<noteq> [] \<and> list_all is_digit s)"

text \<open>The digits of an \<open>int()\<close> literal may be grouped by single underscores.\<close>

definition int_literal :: "string \<Rightarrow> bool" where
  "int_literal s = list_all all_digits (split_char (CHR ''_'') s)"

definition literal_value :: "string \<Rightarrow> int" where
  "literal_value s = int (nat_of_digits (filter (\<lambda>c. c \<noteq> CHR ''_'') s))"

text \<open>\<open>int(v)\<close>.\<close>

fun py_int :: "json \<Rightarrow> exn + int" where
  "py_int JNull = Inl (TypeError ''int() argument'')"
| "py_int (JBool b) = Inr (if b then 1 else 0)"
| "py_int (JInt i) = Inr i"
| "py_int (JStr s) = (let t = strip s in
     if int_literal t then Inr (literal_value t)
     else case t of
       c # u \<Rightarrow> if c = CHR ''-'' \<and> int_literal u then Inr (- literal_value u)
                else if c = CHR ''+'' \<and> int_literal u then Inr (literal_value u)
                else Inl (ValueError ''invalid literal for int()'')
     | [] \<Rightarrow> Inl (ValueError ''invalid literal for int()''))"
| "py_int (JArr _) = Inl (TypeError ''int() argument'')"
| "py_int (JObj _) = Inl (TypeError ''int() argument'')"

text \<open>\<open>list(v)\<close>: the items of a list, the characters of a text, the keys of a dict.\<close>

fun py_list :: "json \<Rightarrow> exn + json list" where
  "py_list (JArr xs) = Inr xs"
| "py_list (JStr s) = Inr (map (\<lambda>c. JStr [c]) s)"
| "py_list (JObj d) = Inr (map (\<lambda>kv. JStr (fst kv)) d)"
| "py_list _ = Inl (TypeError ''object is not iterable'')"

text \<open>\<open>==\<close> on JSON values: key order does not matter, \<open>True == 1\<close>.\<close>

fun unbool :: "json \<Rightarrow> json" where
  "unbool (JBool b) = JInt (if b then 1 else 0)"
| "unbool (JArr xs) = JArr (map unbool xs)"
| "unbool (JObj d) = JObj (map (\<lambda>(k, v). (k, unbool v)) d)"
| "unbool v = v"

definition py_eq :: "json \<Rightarrow> json \<Rightarrow> bool" where
  "py_eq a b = (sort_keys (unbool a) = sort_keys (unbool b))"

text \<open>The first truthy value of \<open>a or b\<close>.\<close>

definition or_else :: "json \<Rightarrow> json \<Rightarrow> json" where
  "or_else a b = (if truthy a then a else b)"


section \<open>Paths of the hub on a target (core/hubfs.py)\<close>

definition DEFAULT_USER :: string where
  "DEFAULT_USER = ''deploy''"

definition hub_root :: "string \<Rightarrow> string" where
  "hub_root ssh_user = ''/home/'' @ (if ssh_user = [] then DEFAULT_USER else ssh_user) @ ''/.hub''"

definition lstrip_slash :: "string \<Rightarrow> string" where
  "lstrip_slash p = dropWhile (\<lambda>c. c = CHR ''/'') p"

definition hub_join :: "string list \<Rightarrow> string \<Rightarrow> string" where
  "hub_join parts ssh_user = (if parts = [] then hub_root ssh_user
     else hub_root ssh_user @ ''/'' @ join ''/'' (map lstrip_slash parts))"

definition ssh_user_from :: "hub \<Rightarrow> desired \<Rightarrow> string" where
  "ssh_user_from s d =
     (let tgt = (case ds_target d of Some t \<Rightarrow> Some t | None \<Rightarrow>
            (case ds_site d of None \<Rightarrow> None | Some site \<Rightarrow>
               Option.bind (s_primary_target site) (target_by_pk s)))
      in case tgt of None \<Rightarrow> DEFAULT_USER
         | Some t \<Rightarrow> if t_ssh_user t = [] then DEFAULT_USER else t_ssh_user t)"


section \<open>Image tag, container name, Dockerfile\<close>

text \<open>Git sha plus sixteen hex digits of the digest of the canonical manifest body.\<close>

definition image_tag :: "world \<Rightarrow> string \<Rightarrow> (string \<times> json) list \<Rightarrow> string" where
  "image_tag w git_sha body =
     git_sha @ ''-'' @ take 16 (w_sha256 w (dumps_canonical (JObj body)))"

definition desired_image_tag :: "world \<Rightarrow> desired \<Rightarrow> string" where
  "desired_image_tag w d = (case ds_image_tag d of
     Some tag \<Rightarrow> if tag \<noteq> [] then tag else image_tag w (ds_git_sha d) (ds_body d)
   | None \<Rightarrow> image_tag w (ds_git_sha d) (ds_body d))"

definition container_name :: "desired \<Rightarrow> string" where
  "container_name d = ''site-'' @ ds_site_slug d @ ''-'' @ str_nat (ds_deployment_id d)"

definition nl :: string where
  "nl = [char_of (10 :: nat)]"

definition python_dockerfile :: string where
  "python_dockerfile = ''FROM python:3.12-slim'' @ nl @ ''WORKDIR /app'' @ nl @
     ''COPY requirements.txt .'' @ nl @
     ''RUN pip install --require-hashes -r requirements.txt'' @ nl @ ''COPY . .'' @ nl @
     ''CMD ['' @ quote ''python'' @ '', '' @ quote ''-m'' @ '', '' @ quote ''app'' @ '']'' @ nl"

definition node_dockerfile :: string where
  "node_dockerfile = ''FROM node:22-alpine'' @ nl @ ''WORKDIR /app'' @ nl @
     ''COPY package.json package-lock.json* ./'' @ nl @ ''RUN npm ci'' @ nl @ ''COPY . .'' @ nl @
     ''CMD ['' @ quote ''node'' @ '', '' @ quote ''app.js'' @ '']'' @ nl"

definition dockerfile_from_body :: "(string \<times> json) list \<Rightarrow> string" where
  "dockerfile_from_body body =
     (let template = jget body ''dockerfile_template'';
          runtime0 = lower (py_str (or_else (jget body ''runtime'') (JStr [])));
          kind = jget (obj_fields (jget (obj_fields (jget body ''components'')) ''service'')) ''kind'';
          runtime = (if runtime0 = [] then lower (py_str (or_else kind (JStr []))) else runtime0)
      in if truthy template then py_str template
         else if runtime = ''python'' \<or> runtime = ''django'' then python_dockerfile
         else node_dockerfile)"

definition applied_dockerfile :: "desired \<Rightarrow> string" where
  "applied_dockerfile d = (case ds_dockerfile d of
     Some f \<Rightarrow> if f \<noteq> [] then f else dockerfile_from_body (ds_body d)
   | None \<Rightarrow> dockerfile_from_body (ds_body d))"


section \<open>Exposure, strategy, timeouts, ports\<close>

definition exposure_text :: "exposure \<Rightarrow> string" where
  "exposure_text e = (case e of Public \<Rightarrow> ''public'' | MeshOnly \<Rightarrow> ''mesh_only'')"

text \<open>The value of \<open>_exposure\<close>: either side may narrow a site to the mesh, neither may widen it.\<close>

definition exposure_of :: "desired \<Rightarrow> json" where
  "exposure_of d =
     (let body_exp = jget (ds_body d) ''exposure'' in
      case ds_site d of
        Some site \<Rightarrow> if s_exposure site = MeshOnly \<or> body_exp = JStr ''mesh_only'' then JStr ''mesh_only''
          else JStr (exposure_text (s_exposure site))
      | None \<Rightarrow> if body_exp = JStr ''mesh_only'' then JStr ''mesh_only''
          else or_else body_exp (JStr ''public''))"

definition mesh_only :: "desired \<Rightarrow> bool" where
  "mesh_only d = (exposure_of d = JStr ''mesh_only'')"

definition strategy_text :: "deploy_strategy \<Rightarrow> string" where
  "strategy_text x = (case x of BlueGreen \<Rightarrow> ''blue_green'' | Recreate \<Rightarrow> ''recreate'')"

definition deploy_strategy_of :: "desired \<Rightarrow> json" where
  "deploy_strategy_of d = (let body = ds_body d in
     if truthy (jget body ''local_state'') \<or> truthy (jget body ''exclusive_upstream'') then JStr ''recreate''
     else if truthy (jget body ''deploy_strategy'') then jget body ''deploy_strategy''
     else case ds_site d of Some site \<Rightarrow> JStr (strategy_text (s_deploy_strategy site))
       | None \<Rightarrow> JStr ''blue_green'')"

definition warmup_timeout_s :: "desired \<Rightarrow> exn + int" where
  "warmup_timeout_s d = (let body = ds_body d;
       nested = jget (obj_fields (jget body ''healthz'')) ''warmup_timeout_s'' in
     if jget body ''warmup_timeout_s'' \<noteq> JNull then py_int (jget body ''warmup_timeout_s'')
     else if nested \<noteq> JNull then py_int nested
     else case ds_site d of Some site \<Rightarrow> Inr (int (s_warmup_timeout_s site)) | None \<Rightarrow> Inr 60)"

definition readiness_path :: "desired \<Rightarrow> string" where
  "readiness_path d = (let body = ds_body d;
       nested = jget (obj_fields (jget body ''healthz'')) ''readiness_path'' in
     if truthy (jget body ''readiness_path'') then py_str (jget body ''readiness_path'')
     else if truthy nested then py_str nested
     else case ds_site d of
       Some site \<Rightarrow> if s_readiness_path site \<noteq> [] then s_readiness_path site else ''/healthz.ready''
     | None \<Rightarrow> ''/healthz.ready'')"

definition cutover_grace_s :: "desired \<Rightarrow> exn + int" where
  "cutover_grace_s d = (let v = jget (ds_body d) ''cutover_grace_s'' in
     if v \<noteq> JNull then py_int v else Inr 30)"

fun positive_port :: "json \<Rightarrow> int option" where
  "positive_port JNull = None"
| "positive_port (JBool _) = None"
| "positive_port (JInt i) = (if i > 0 then Some i else None)"
| "positive_port (JStr s) = (let t = strip s in
     if all_digits t \<and> nat_of_digits t > 0 then Some (int (nat_of_digits t)) else None)"
| "positive_port (JArr _) = None"
| "positive_port (JObj _) = None"

definition listen_port :: "desired \<Rightarrow> int" where
  "listen_port d = (case positive_port (JInt (ds_internal_port d)) of Some p \<Rightarrow> p | None \<Rightarrow>
     (case positive_port (jget (ds_body d) ''port'') of Some p \<Rightarrow> p | None \<Rightarrow>
     (case positive_port (jget (ds_body d) ''PORT'') of Some p \<Rightarrow> p | None \<Rightarrow> 8080)))"

definition secrets_mode :: "desired \<Rightarrow> exn + string" where
  "secrets_mode d =
     (let raw = strip (py_str (or_else (jget (ds_body d) ''secrets_mode'') (JStr ''push'')));
          mode = (if raw = [] then ''push'' else raw)
      in if mode = ''push'' \<or> mode = ''ssm_pull'' then Inr mode
         else Inl (ValueError (''unknown secrets_mode '' @ mode)))"

definition declares_ws :: "(string \<times> json) list \<Rightarrow> bool" where
  "declares_ws body = (if truthy (jget body ''ws'') \<or> truthy (jget body ''websocket'') then True
     else let nested = obj_fields (jget body ''healthz'') in
       truthy (jget nested ''ws'') \<or> truthy (jget nested ''websocket''))"

definition ws_path :: "(string \<times> json) list \<Rightarrow> string" where
  "ws_path body = (if truthy (jget body ''ws_path'') then py_str (jget body ''ws_path'')
     else py_str (or_else (jget (obj_fields (jget body ''healthz'')) ''ws_path'') (JStr ''/ws'')))"


section \<open>Volumes\<close>

record volume_spec =
  vs_name :: string
  vs_container_path :: string
  vs_backup_policy :: string

text \<open>\<open>add\<close> of \<open>_volume_specs\<close>: a name that is already listed is skipped.\<close>

definition add_volume :: "string \<Rightarrow> json \<Rightarrow> json \<Rightarrow> volume_spec list \<Rightarrow> volume_spec list" where
  "add_volume name path policy specs =
     (if name \<in> set (map vs_name specs) then specs
      else specs @ [\<lparr>vs_name = name, vs_container_path = py_str (or_else path (JStr ''/data'')),
        vs_backup_policy = py_str (or_else policy (JStr ''none''))\<rparr>])"

definition default_volume :: "string \<Rightarrow> string" where
  "default_volume slug = ''site-'' @ slug @ ''-data''"

text \<open>One entry of the manifest's \<open>volumes\<close> list: entries that are no dict or have no name are skipped.\<close>

definition add_listed_volume :: "json \<Rightarrow> volume_spec list \<Rightarrow> volume_spec list" where
  "add_listed_volume item specs = (let f = obj_fields item in
     if \<not> is_obj item \<or> \<not> truthy (jget f ''name'') then specs
     else add_volume (py_str (jget f ''name'')) (jget f ''container_path'')
       (jget f ''backup_policy'') specs)"

definition volume_specs :: "string \<Rightarrow> (string \<times> json) list \<Rightarrow> volume_spec list" where
  "volume_specs slug body =
     (let default_name = default_volume slug;
          listed = arr_items (jget body ''volumes'');
          hit = (case find (\<lambda>item. is_obj item \<and> jget (obj_fields item) ''name'' = JStr default_name) listed of
                   Some item \<Rightarrow> obj_fields item | None \<Rightarrow> []);
          start = add_volume default_name (jget hit ''container_path'') (jget hit ''backup_policy'') []
      in fold add_listed_volume listed start)"

definition docker_run_argv :: "desired \<Rightarrow> string \<Rightarrow> exn + string list" where
  "docker_run_argv d name =
     (let extra = (if ds_docker_run_extra d = JNull then jget (ds_body d) ''docker_run_extra''
                   else ds_docker_run_extra d)
      in case (if truthy extra then py_list extra else Inr []) of
           Inl e \<Rightarrow> Inl e
         | Inr extras \<Rightarrow>
             (case ds_image_tag d of None \<Rightarrow> Inl (KeyError ''image_tag'') | Some tag \<Rightarrow>
              Inr ([''docker'', ''run'', ''-d'', ''--name'', name] @
                (case ds_env_file d of
                   Some f \<Rightarrow> if f \<noteq> [] then [''--env-file'', f] else [] | None \<Rightarrow> []) @
                map py_str extras @
                concat (map (\<lambda>v. [''-v'', vs_name v @ '':'' @ vs_container_path v])
                  (volume_specs (ds_site_slug d) (ds_body d))) @
                [''-e'', ''PORT='' @ str_int (listen_port d)] @
                [''--restart'', ''unless-stopped''] @ [tag])))"


section \<open>DNS records and the Caddy route\<close>

definition overlay_json :: "world \<Rightarrow> json \<Rightarrow> json" where
  "overlay_json w raw = (case raw of
     JNull \<Rightarrow> JNull
   | JStr s \<Rightarrow> if s = [] then JNull else (case w_loads w s of Some v \<Rightarrow> v | None \<Rightarrow> JNull)
   | JArr xs \<Rightarrow> JArr xs
   | JObj d \<Rightarrow> JObj d
   | _ \<Rightarrow> JNull)"

definition desired_dns_records :: "world \<Rightarrow> desired \<Rightarrow> json list" where
  "desired_dns_records w d =
     (let overlay = overlay_json w (ds_dns_set d) in
      if is_arr overlay \<and> truthy overlay then arr_items overlay
      else let domain = (if ds_domain d = [] then
               (case ds_site d of Some site \<Rightarrow> s_domain site | None \<Rightarrow> []) else ds_domain d);
             vals = (if ds_dns_values d = [] then [''127.0.0.1''] else ds_dns_values d)
           in [JObj [(''name'', JStr domain), (''rtype'', JStr ''A''),
                 (''values'', JArr (map JStr vals)), (''proxied'', JBool (ds_dns_proxied d))]])"

definition tls_dir :: "string \<Rightarrow> string" where
  "tls_dir slug = ''/srv/sites/'' @ slug @ ''/tls''"

definition origin_tls_files :: "desired \<Rightarrow> (string \<times> string) option" where
  "origin_tls_files d = (case ds_tls_files d of Some f \<Rightarrow> Some f | None \<Rightarrow>
     if mesh_only d then None
     else if ds_site_slug d = [] then None
     else Some (tls_dir (ds_site_slug d) @ ''/cert.pem'', tls_dir (ds_site_slug d) @ ''/key.pem''))"

definition listen_is_https :: "json \<Rightarrow> bool" where
  "listen_is_https listen = suffix '':443'' (py_str listen)"

definition route_listen :: "(string \<times> json) list \<Rightarrow> json" where
  "route_listen route = (case jget route ''listen'' of JArr (x # _) \<Rightarrow> x | _ \<Rightarrow> JStr '':443'')"

definition site_tag :: "desired \<Rightarrow> string" where
  "site_tag d = ''site-'' @ ds_site_slug d"

definition attach_origin_tls :: "(string \<times> json) list \<Rightarrow> desired \<Rightarrow> (string \<times> json) list" where
  "attach_origin_tls route d =
     (if origin_tls_files d = None \<or> \<not> listen_is_https (route_listen route)
      then jdel route ''tls_connection_policies''
      else jset route ''tls_connection_policies''
        (JArr [JObj [(''certificate_selection'', JObj [(''any_tag'', JArr [JStr (site_tag d)])])]]))"

definition caddy_upstream :: "desired \<Rightarrow> json" where
  "caddy_upstream d = (if truthy (ds_upstream d) then ds_upstream d
     else JStr (''127.0.0.1:'' @ str_int (ds_internal_port d)))"

definition site_domain :: "desired \<Rightarrow> string" where
  "site_domain d = (if ds_domain d = [] then ds_site_slug d @ ''.local'' else ds_domain d)"

definition caddy_route :: "world \<Rightarrow> desired \<Rightarrow> string \<Rightarrow> (string \<times> json) list" where
  "caddy_route w d route_id =
     (let overlay = overlay_json w (ds_caddy_route d) in
      if is_obj overlay \<and> truthy overlay then attach_origin_tls (obj_fields overlay) d
      else let override = jget (ds_body d) ''caddy_listen'';
             listen = (if truthy override then override
               else if mesh_only d then
                 JStr (py_str (or_else (jget (ds_body d) ''mesh_bind'') (JStr ''127.0.0.1'')) @ '':443'')
               else JStr '':443'')
           in attach_origin_tls [
               (''@id'', JStr route_id),
               (''listen'', JArr [listen]),
               (''automatic_https'', JObj [(''disable'', JBool True)]),
               (''routes'', JArr [JObj [
                  (''match'', JArr [JObj [(''host'', JArr [JStr (site_domain d)])]]),
                  (''handle'', JArr [JObj [
                     (''handler'', JStr ''reverse_proxy''),
                     (''upstreams'', JArr [JObj [(''dial'', caddy_upstream d)]])]])]])] d)"


subsection \<open>The shared TLS object of the edge\<close>

definition as_tls_app :: "json \<Rightarrow> (string \<times> json) list" where
  "as_tls_app data = (case data of
     JObj d \<Rightarrow> if has_key d ''certificates'' \<or> has_key d ''automation'' then d
       else if d = [] then []
       else if (has_key d ''live'' \<or> has_key d ''ready'') \<and> \<not> has_key d ''certificates'' then []
       else d
   | _ \<Rightarrow> [])"

definition origin_tls_entry :: "string \<times> string \<Rightarrow> string \<Rightarrow> json" where
  "origin_tls_entry fs tag = JObj [(''certificate'', JStr (fst fs)), (''key'', JStr (snd fs)),
     (''tags'', JArr [JStr tag])]"

definition entry_has_tag :: "json \<Rightarrow> string \<Rightarrow> bool" where
  "entry_has_tag entry tag = (is_obj entry \<and>
     JStr tag \<in> set (arr_items (jget (obj_fields entry) ''tags'')))"

definition load_files :: "(string \<times> json) list \<Rightarrow> json list" where
  "load_files app = arr_items (jget (obj_fields (jget app ''certificates'')) ''load_files'')"

definition origin_tls_already_loaded :: "(string \<times> json) list \<Rightarrow> string \<times> string \<Rightarrow> string \<Rightarrow> bool" where
  "origin_tls_already_loaded live fs tag = list_ex (\<lambda>entry. entry_has_tag entry tag \<and>
     jget (obj_fields entry) ''certificate'' = JStr (fst fs) \<and>
     jget (obj_fields entry) ''key'' = JStr (snd fs)) (load_files live)"

text \<open>Upsert this site's tagged pair; keep every other entry and every other key.\<close>

definition merge_caddy_origin_tls :: "(string \<times> json) list \<Rightarrow> string \<times> string \<Rightarrow> string \<Rightarrow>
    (string \<times> json) list" where
  "merge_caddy_origin_tls live fs tag =
     (let certs = obj_fields (jget live ''certificates'');
          kept = filter (\<lambda>e. \<not> entry_has_tag e tag) (load_files live) @ [origin_tls_entry fs tag]
      in jset live ''certificates'' (JObj (jset certs ''load_files'' (JArr kept))))"


section \<open>Facts about the settings\<close>

lemma add_volume_names:
  "distinct (map vs_name specs) \<Longrightarrow> distinct (map vs_name (add_volume n p q specs))"
  by (auto simp: add_volume_def)

lemma add_volume_prefix: "prefix specs (add_volume n p q specs)"
  by (simp add: add_volume_def)

lemma add_listed_volume_names:
  "distinct (map vs_name specs) \<Longrightarrow> distinct (map vs_name (add_listed_volume item specs))"
  by (simp add: add_listed_volume_def Let_def add_volume_names)

lemma add_listed_volume_prefix: "prefix specs (add_listed_volume item specs)"
  by (simp add: add_listed_volume_def Let_def add_volume_prefix)

lemma volume_fold_names:
  "distinct (map vs_name start) \<Longrightarrow> distinct (map vs_name (fold add_listed_volume listed start))"
  by (induction listed arbitrary: start) (auto intro: add_listed_volume_names)

lemma volume_fold_prefix: "prefix start (fold add_listed_volume listed start)"
  by (induction listed arbitrary: start) (auto intro: prefix_order.trans add_listed_volume_prefix)

lemma volume_specs_distinct: "distinct (map vs_name (volume_specs slug body))"
  unfolding volume_specs_def Let_def
  by (rule volume_fold_names) (simp add: add_volume_def)

lemma volume_specs_default: "\<exists>v rest. volume_specs slug body = v # rest \<and> vs_name v = default_volume slug"
proof -
  obtain p q where "prefix (add_volume (default_volume slug) p q []) (volume_specs slug body)"
    unfolding volume_specs_def Let_def by (blast intro: volume_fold_prefix)
  then show ?thesis by (auto simp: add_volume_def prefix_def)
qed

lemma sort_keys_perm:
  assumes "mset d = mset d'" "distinct (map fst d)"
  shows "sort_keys (JObj d) = sort_keys (JObj d')"
proof -
  let ?g = "\<lambda>(k, v). (k, sort_keys v)"
  have m: "mset (map ?g d) = mset (map ?g d')" using assms(1) by (metis mset_map)
  have keys: "map fst (map ?g d) = map fst d" by (simp add: comp_def split_beta)
  then have "inj_on fst (set (map ?g d))" using assms(2) by (metis distinct_map)
  with m have "sort_key fst (map ?g d) = sort_key fst (map ?g d')"
    by (intro sort_key_inj_key_eq) (simp_all add: mset_sort)
  then show ?thesis by simp
qed

lemma load_files_merge:
  "load_files (merge_caddy_origin_tls live fs tag) =
     filter (\<lambda>e. \<not> entry_has_tag e tag) (load_files live) @ [origin_tls_entry fs tag]"
  by (simp add: merge_caddy_origin_tls_def load_files_def Let_def)

lemma origin_entry_tagged: "entry_has_tag (origin_tls_entry fs tag) tag' \<longleftrightarrow> tag' = tag"
  by (auto simp: entry_has_tag_def origin_tls_entry_def jget_def)

lemma merge_loads: "origin_tls_already_loaded (merge_caddy_origin_tls live fs tag) fs tag"
  by (simp add: origin_tls_already_loaded_def load_files_merge origin_entry_tagged)
    (simp add: origin_tls_entry_def jget_def)

lemma merge_other_keys:
  "k \<noteq> ''certificates'' \<Longrightarrow> jget (merge_caddy_origin_tls live fs tag) k = jget live k"
  by (simp add: merge_caddy_origin_tls_def Let_def)

lemma merge_other_certs_keys:
  "k \<noteq> ''load_files'' \<Longrightarrow>
   jget (obj_fields (jget (merge_caddy_origin_tls live fs tag) ''certificates'')) k =
   jget (obj_fields (jget live ''certificates'')) k"
  by (simp add: merge_caddy_origin_tls_def Let_def)

lemma jset_jset: "jset (jset d k v) k v' = jset d k v'"
  by (induction d) auto

lemma merge_idem:
  "merge_caddy_origin_tls (merge_caddy_origin_tls live fs tag) fs tag = merge_caddy_origin_tls live fs tag"
proof -
  have "filter (\<lambda>e. \<not> entry_has_tag e tag) (load_files (merge_caddy_origin_tls live fs tag)) =
      filter (\<lambda>e. \<not> entry_has_tag e tag) (load_files live)"
    by (simp add: load_files_merge origin_entry_tagged)
  then show ?thesis
    by (simp add: merge_caddy_origin_tls_def [of "merge_caddy_origin_tls live fs tag"] Let_def)
      (simp add: merge_caddy_origin_tls_def Let_def jset_jset)
qed

text \<open>The entries of another site keep their place and content.\<close>

lemma merge_sibling:
  assumes "tag' \<noteq> tag" "\<And>e. e \<in> set (load_files live) \<Longrightarrow> \<not> (entry_has_tag e tag \<and> entry_has_tag e tag')"
  shows "filter (\<lambda>e. entry_has_tag e tag') (load_files (merge_caddy_origin_tls live fs tag)) =
    filter (\<lambda>e. entry_has_tag e tag') (load_files live)"
  using assms by (auto simp: load_files_merge origin_entry_tagged intro!: filter_cong)


section \<open>Properties\<close>

text \<open>
  The image tag does not depend on the order in which the manifest body lists its keys: two bodies
  with the same entries get the same tag for the same commit.
\<close>

theorem image_tag_key_order:
  assumes "mset body = mset body'" "distinct (map fst body)"
  shows "image_tag w sha body = image_tag w sha body'"
  unfolding image_tag_def dumps_canonical_def using sort_keys_perm [OF assms] by simp

theorem image_tag_key_order_witness:
  "image_tag calm_world ''abc'' [(''port'', JInt 80), (''runtime'', JStr ''node'')] =
   image_tag calm_world ''abc'' [(''runtime'', JStr ''node''), (''port'', JInt 80)]"
  by (rule image_tag_key_order) simp_all

text \<open>
  A site's volumes have distinct names, and the first is always the default data volume of the
  site, whatever the manifest lists.
\<close>

theorem volumes_of_site:
  "distinct (map vs_name (volume_specs slug body)) \<and>
   vs_name (hd (volume_specs slug body)) = default_volume slug \<and> volume_specs slug body \<noteq> []"
  using volume_specs_distinct volume_specs_default by (metis list.sel(1) list.distinct(1))

text \<open>
  Merging a site's certificate into the shared TLS object of the edge loads it, is idempotent,
  keeps every other key of the object and of its certificates, and keeps every loaded pair of a
  sibling site in place and unchanged.
\<close>

theorem tls_merge_keeps_siblings:
  assumes "tag' \<noteq> tag"
    "\<And>e. e \<in> set (load_files live) \<Longrightarrow> \<not> (entry_has_tag e tag \<and> entry_has_tag e tag')"
    "k \<noteq> ''certificates''" "k' \<noteq> ''load_files''"
  shows "origin_tls_already_loaded (merge_caddy_origin_tls live fs tag) fs tag \<and>
    merge_caddy_origin_tls (merge_caddy_origin_tls live fs tag) fs tag = merge_caddy_origin_tls live fs tag \<and>
    filter (\<lambda>e. entry_has_tag e tag') (load_files (merge_caddy_origin_tls live fs tag)) =
      filter (\<lambda>e. entry_has_tag e tag') (load_files live) \<and>
    jget (merge_caddy_origin_tls live fs tag) k = jget live k \<and>
    jget (obj_fields (jget (merge_caddy_origin_tls live fs tag) ''certificates'')) k' =
      jget (obj_fields (jget live ''certificates'')) k'"
  using assms merge_loads merge_idem merge_sibling [OF assms(1,2)] merge_other_keys merge_other_certs_keys
  by blast

theorem tls_merge_keeps_siblings_witness:
  "filter (\<lambda>e. entry_has_tag e ''site-b'') (load_files (merge_caddy_origin_tls
     [(''certificates'', JObj [(''load_files'', JArr [origin_tls_entry (''c'', ''k'') ''site-b''])])]
     (''cert.pem'', ''key.pem'') ''site-a'')) = [origin_tls_entry (''c'', ''k'') ''site-b'']"
  using tls_merge_keeps_siblings [of "''site-b''" "''site-a''"
      "[(''certificates'', JObj [(''load_files'', JArr [origin_tls_entry (''c'', ''k'') ''site-b''])])]"
      "''apps''" "''tags''" "(''cert.pem'', ''key.pem'')"]
  by (simp add: load_files_def jget_def origin_entry_tagged)

end
