(* ===== verification/Steps.thy ===== *)
theory Steps
  imports Desired
begin

text \<open>
  \<open>deploys/steps.py\<close>: the idempotent steps of the pipeline. Each step probes the target first and runs
  mutating commands only on a difference. The transport is the shell of \<open>world\<close>; the DNS provider its
  \<open>w_dns\<close>. The certificate service (\<open>deploys/certs.py\<close>), the parameter store (\<open>providers/ssm.py\<close>), the
  runbook writer, the vault and the provider registry are collaborators: the fields of \<open>ports\<close>.
\<close>

record ports =
  pt_cert :: "desired \<Rightarrow> (string \<times> string) option act" \<comment> \<open>ensure_site_certificate: the \<open>tls_files\<close> it sets\<close>
  pt_ssm_for :: "target \<Rightarrow> unit act"
  pt_param_name :: "target \<Rightarrow> string \<Rightarrow> string"
  pt_ssm_get :: "string \<Rightarrow> string option act" \<comment> \<open>\<open>None\<close> for ParameterNotFound\<close>
  pt_ssm_put :: "string \<Rightarrow> string \<Rightarrow> nat \<Rightarrow> unit act"
  pt_ssm_fail :: "target \<Rightarrow> string list \<Rightarrow> string \<Rightarrow> unit act"
  pt_runbook :: "desired \<Rightarrow> unit act"
  pt_env_mapping :: "nat \<Rightarrow> (string \<times> string) list act"
  pt_dns_provider_for :: "dns_zone \<Rightarrow> unit act"
  pt_origin_cert_issuer_for :: "dns_zone \<Rightarrow> unit act"

definition of_sum :: "exn + 'a \<Rightarrow> 'a act" where
  "of_sum r = (case r of Inl e \<Rightarrow> throw e | Inr x \<Rightarrow> ret x)"

text \<open>\<open>if not result.ok: raise RuntimeError(...)\<close>\<close>

definition expect_ok :: "string \<Rightarrow> cmd_result \<Rightarrow> unit act" where
  "expect_ok what r = (if result_ok r then ret ()
     else throw (RuntimeError (what @ '' failed: '' @ stderr r)))"


section \<open>Running commands on the target\<close>

definition default_mode :: nat where
  "default_mode = 420" \<comment> \<open>0o644\<close>

definition beat :: "world \<Rightarrow> nat option \<Rightarrow> unit act" where
  "beat w hb = (case hb of None \<Rightarrow> ret () | Some d \<Rightarrow> touch_heartbeat w d)"

text \<open>\<open>_run\<close>: one heartbeat before the command and one per thirty seconds while it runs.\<close>

definition run_cmd :: "world \<Rightarrow> nat option \<Rightarrow> string list \<Rightarrow> cmd_result act" where
  "run_cmd w hb argv = (case hb of
     None \<Rightarrow> transport_run w argv
   | Some d \<Rightarrow> andThen (touch_heartbeat w d)
       (try_finally (transport_run w argv)
         (bnd (gets (\<lambda>s. w_pulses w (calls s))) (\<lambda>n.
          for_each (replicate n ()) (\<lambda>_. touch_heartbeat w d)))))"

definition ensure_hub_dir :: "world \<Rightarrow> string \<Rightarrow> nat option \<Rightarrow> unit act" where
  "ensure_hub_dir w user hb =
     andThen (beat w hb)
     (andThen (transport_run w [''mkdir'', ''-p'', hub_root user])
     (andThen (beat w hb)
     (bnd (transport_run w [''chmod'', ''700'', hub_root user]) (\<lambda>_. ret ()))))"

definition image_present :: "world \<Rightarrow> string \<Rightarrow> bool act" where
  "image_present w tag = bnd (transport_probe w [''docker'', ''image'', ''inspect'', tag]) (\<lambda>r. ret (result_ok r))"

definition volume_present :: "world \<Rightarrow> string \<Rightarrow> bool act" where
  "volume_present w name = bnd (transport_probe w [''docker'', ''volume'', ''inspect'', name]) (\<lambda>r. ret (result_ok r))"

definition container_running :: "world \<Rightarrow> string \<Rightarrow> bool option act" where
  "container_running w name =
     bnd (transport_probe w [''docker'', ''inspect'', ''--format'', ''{{.State.Running}}'', name]) (\<lambda>r.
     ret (if result_ok r then Some (lower (strip (stdout r)) \<in> {''true'', ''running'', ''1''}) else None))"


section \<open>Build and ship\<close>

definition remote_context :: "hub \<Rightarrow> desired \<Rightarrow> string \<Rightarrow> string" where
  "remote_context s d tag = hub_join [''build'', tag] (ssh_user_from s d)"

text \<open>\<open>_context_tar\<close>: the archive of the source directory and the Dockerfile.\<close>

definition ensure_build :: "world \<Rightarrow> desired \<Rightarrow> string act" where
  "ensure_build w d =
     (let tag = desired_image_tag w d in
      bnd (image_present w tag) (\<lambda>present.
      if present then ret ''skipped''
      else
        bnd (of_sum (w_context w (ds_source_dir d) (applied_dockerfile d))) (\<lambda>archive.
        bnd (gets (\<lambda>s. ssh_user_from s d)) (\<lambda>user.
        bnd (gets (\<lambda>s. remote_context s d tag)) (\<lambda>remote.
        andThen (ensure_hub_dir w user (ds_heartbeat d))
        (andThen (run_cmd w (ds_heartbeat d) [''mkdir'', ''-p'', remote])
        (andThen (transport_put w archive (remote @ ''.tar'') default_mode)
        (andThen (run_cmd w (ds_heartbeat d) [''tar'', ''-xf'', remote @ ''.tar'', ''-C'', remote])
        (bnd (run_cmd w (ds_heartbeat d) [''docker'', ''build'', ''-t'', tag, remote]) (\<lambda>r.
         andThen (expect_ok ''docker build'' r) (ret ''built'')))))))))))"

text \<open>\<open>str(Path(remote).parent)\<close> for an absolute path without a trailing slash.\<close>

definition parent_path :: "string \<Rightarrow> string" where
  "parent_path p = rev (tl (dropWhile (\<lambda>c. c \<noteq> CHR ''/'') (rev p)))"

definition docker_load_image :: "world \<Rightarrow> desired \<Rightarrow> string \<Rightarrow> string act" where
  "docker_load_image w d tag =
     bnd (gets (\<lambda>s. ssh_user_from s d)) (\<lambda>user.
     bnd (gets (\<lambda>s. remote_context s d tag)) (\<lambda>remote.
     andThen (ensure_hub_dir w user (ds_heartbeat d))
     (andThen (run_cmd w (ds_heartbeat d) [''mkdir'', ''-p'', parent_path remote])
     (andThen (transport_put w [] (remote @ ''.image.tar'') default_mode)
     (bnd (run_cmd w (ds_heartbeat d) [''docker'', ''load'', ''-i'', remote @ ''.image.tar'']) (\<lambda>r.
      andThen (expect_ok ''docker load'' r) (ret ''shipped'')))))))"

definition ensure_ship :: "world \<Rightarrow> desired \<Rightarrow> string act" where
  "ensure_ship w d = (let tag = desired_image_tag w d in
     bnd (image_present w tag) (\<lambda>present.
     if present then ret ''skipped'' else docker_load_image w d tag))"

section \<open>Volumes, migration, start\<close>

text \<open>\<open>SiteVolume.objects.update_or_create\<close> on (site, name).\<close>

definition upsert_site_volume :: "nat \<Rightarrow> volume_spec \<Rightarrow> unit act" where
  "upsert_site_volume site v = modify (\<lambda>s.
     if \<exists>r \<in> set (site_volumes s). v_site r = site \<and> v_name r = vs_name v
     then s\<lparr>site_volumes := upd_rows (\<lambda>r. v_site r = site \<and> v_name r = vs_name v)
        (\<lambda>r. r\<lparr>v_container_path := vs_container_path v, v_backup_policy := vs_backup_policy v\<rparr>) (site_volumes s)\<rparr>
     else s\<lparr>site_volumes := site_volumes s @ [\<lparr>v_site = site, v_name = vs_name v,
        v_container_path = vs_container_path v, v_backup_policy = vs_backup_policy v\<rparr>]\<rparr>)"

definition ensure_volume :: "world \<Rightarrow> desired \<Rightarrow> string list act" where
  "ensure_volume w d =
     (let specs = volume_specs (ds_site_slug d) (ds_body d) in
      andThen (for_each specs (\<lambda>v.
        bnd (volume_present w (vs_name v)) (\<lambda>present.
        if present then ret ()
        else bnd (run_cmd w (ds_heartbeat d) [''docker'', ''volume'', ''create'', vs_name v])
               (expect_ok ''docker volume create''))))
      (andThen (case ds_site d of None \<Rightarrow> ret ()
         | Some site \<Rightarrow> for_each specs (upsert_site_volume (s_pk site)))
      (ret (map vs_name specs))))"

text \<open>A rollback never removes a volume: the step only reports the refusal.\<close>

definition ensure_volume_rollback :: "desired \<Rightarrow> string act" where
  "ensure_volume_rollback d = ret ''refused''"

text \<open>\<open>list(argv)\<close> of a manifest value, as text arguments.\<close>

definition argv_of :: "json \<Rightarrow> string list act" where
  "argv_of v = bnd (of_sum (py_list v)) (\<lambda>xs. ret (map py_str xs))"

definition run_hook :: "world \<Rightarrow> desired \<Rightarrow> string \<Rightarrow> json \<Rightarrow> unit act" where
  "run_hook w d what hook = (if truthy hook
     then bnd (argv_of hook) (\<lambda>argv. bnd (run_cmd w (ds_heartbeat d) argv) (expect_ok what))
     else ret ())"

definition ensure_migrate :: "world \<Rightarrow> desired \<Rightarrow> string act" where
  "ensure_migrate w d =
     (if (case ds_step d of None \<Rightarrow> False | Some st \<Rightarrow> st_status st = StSucceeded) then ret ''skipped''
      else
        andThen (run_hook w d ''backup'' (jget (ds_body d) ''backup_argv''))
        (andThen (run_hook w d ''migrate''
           (or_else (jget (ds_body d) ''migrate_argv'') (jget (ds_body d) ''pre_cutover'')))
        (andThen (case ds_step d of None \<Rightarrow> ret ()
           | Some st \<Rightarrow> save_step (st_deployment st) (st_seq st) (\<lambda>r. r\<lparr>st_status := StSucceeded\<rparr>))
        (ret ''migrated''))))"

definition save_site :: "nat \<Rightarrow> (site \<Rightarrow> site) \<Rightarrow> unit act" where
  "save_site pk f = modify (\<lambda>s. s\<lparr>sites := upd_rows (\<lambda>r. s_pk r = pk) f (sites s)\<rparr>)"

definition set_maintenance_until :: "world \<Rightarrow> site \<Rightarrow> desired \<Rightarrow> unit act" where
  "set_maintenance_until w site d =
     bnd (timezone_now w) (\<lambda>now.
     bnd (of_sum (warmup_timeout_s d)) (\<lambda>timeout.
     save_site (s_pk site) (\<lambda>r. r\<lparr>s_maintenance_until := Some (now + seconds timeout)\<rparr>)))"

definition AWS_KEY_NAMES :: "string list" where
  "AWS_KEY_NAMES = [''AWS_ACCESS_KEY_ID'', ''AWS_SECRET_ACCESS_KEY'', ''AWS_SESSION_TOKEN'', ''AWS_SECURITY_TOKEN'']"

text \<open>The loop of \<open>_put_ssm_pull\<close>; the names handled so far are returned for the failure report.\<close>

fun sync_params :: "ports \<Rightarrow> target \<Rightarrow> string list \<Rightarrow> (string \<times> string) list \<Rightarrow> hub \<Rightarrow>
    ((exn \<times> string list) + unit) \<times> hub" where
  "sync_params P t names [] s = (Inr (), s)"
| "sync_params P t names ((key, v) # rest) s =
     (if key \<in> set AWS_KEY_NAMES then sync_params P t names rest s
      else let name = pt_param_name P t key; names' = names @ [name] in
        case pt_ssm_get P name s of
          (Inl e, s1) \<Rightarrow> (Inl (e, names'), s1)
        | (Inr current, s1) \<Rightarrow>
            if current = Some v then sync_params P t names' rest s1
            else (case pt_ssm_put P name v (t_pk t) s1 of
                (Inl e, s2) \<Rightarrow> (Inl (e, names'), s2)
              | (Inr _, s2) \<Rightarrow> sync_params P t names' rest s2))"

definition is_ssm_error :: "exn \<Rightarrow> bool" where
  "is_ssm_error e = (case e of SsmError _ \<Rightarrow> True | _ \<Rightarrow> False)"

fun exn_class :: "exn \<Rightarrow> string" where
  "exn_class (RuntimeError _) = ''RuntimeError''"
| "exn_class (ValueError _) = ''ValueError''"
| "exn_class (TypeError _) = ''TypeError''"
| "exn_class (KeyError _) = ''KeyError''"
| "exn_class (LookupError _) = ''LookupError''"
| "exn_class IntegrityError = ''IntegrityError''"
| "exn_class DoesNotExist = ''DoesNotExist''"
| "exn_class (DeploySeamRefused _) = ''DeploySeamRefused''"
| "exn_class (SsmError _) = ''SsmError''"
| "exn_class (OtherError n) = n"

definition put_ssm_pull :: "ports \<Rightarrow> desired \<Rightarrow> unit act" where
  "put_ssm_pull P d =
     bnd (gets (\<lambda>s. case ds_target d of Some t \<Rightarrow> Some t | None \<Rightarrow>
        Option.bind (ds_site d) (\<lambda>site. Option.bind (s_primary_target site) (target_by_pk s)))) (\<lambda>tgt.
     case tgt of None \<Rightarrow> throw (SsmError ''ssm_pull requires a Target'')
     | Some t \<Rightarrow>
        andThen (try_except (pt_ssm_for P t) (\<lambda>e.
            if is_ssm_error e then andThen (pt_ssm_fail P t (sort (map fst (ds_env_mapping d))) ''ssm_for refused'') (throw e)
            else throw e))
        (\<lambda>s. case sync_params P t [] (ds_env_mapping d) s of
            (Inr _, s1) \<Rightarrow> (Inr (), s1)
          | (Inl (e, names), s1) \<Rightarrow>
              andThen (pt_ssm_fail P t (if names = [] then sort (map fst (ds_env_mapping d)) else names) (exn_class e))
                (throw (if is_ssm_error e then e else SsmError ''SSM parameter sync failed'')) s1))"

text \<open>The file's content, one \<open>KEY=value\<close> line per entry, sorted by key.\<close>

definition env_file_body :: "(string \<times> string) list \<Rightarrow> string" where
  "env_file_body mapping = concat (map (\<lambda>(k, v). k @ ''='' @ v @ nl) (sort_key fst mapping))"

definition env_mode :: nat where
  "env_mode = 384" \<comment> \<open>0o600\<close>

text \<open>\<open>_put_env_file\<close>; the result is \<open>desired\<close> with \<open>env_file\<close> set when a file was written.\<close>

definition put_env_file :: "world \<Rightarrow> ports \<Rightarrow> desired \<Rightarrow> desired act" where
  "put_env_file w P d =
     (if ds_env_mapping d = [] then ret d
      else bnd (of_sum (secrets_mode d)) (\<lambda>mode.
        if mode = ''ssm_pull'' then andThen (put_ssm_pull P d) (ret d)
        else
          bnd (gets (\<lambda>s. ssh_user_from s d)) (\<lambda>user.
          let remote = hub_join [''site-'' @ ds_site_slug d @ ''-'' @ str_nat (ds_deployment_id d) @ ''.env''] user in
          andThen (ensure_hub_dir w user (ds_heartbeat d))
          (andThen (transport_put w (env_file_body (ds_env_mapping d)) remote env_mode)
          (ret (d\<lparr>ds_env_file := Some remote\<rparr>))))))"

text \<open>The recreate strategy: announce maintenance and stop the old writer before the new one starts.\<close>

definition stop_old_writer :: "world \<Rightarrow> desired \<Rightarrow> string \<Rightarrow> unit act" where
  "stop_old_writer w d name =
     andThen (case ds_site d of None \<Rightarrow> ret () | Some site \<Rightarrow> set_maintenance_until w site d)
     (case ds_old_container d of None \<Rightarrow> ret ()
      | Some old \<Rightarrow> if old = [] \<or> old = name then ret ()
          else bnd (container_running w old) (\<lambda>running.
            if running = Some True
            then bnd (run_cmd w (ds_heartbeat d) [''docker'', ''stop'', old]) (expect_ok ''docker stop'')
            else ret ()))"

text \<open>The three outcomes of the probe: running, stopped, absent.\<close>

definition start_from :: "world \<Rightarrow> ports \<Rightarrow> desired \<Rightarrow> string \<Rightarrow> bool option \<Rightarrow> string act" where
  "start_from w P d name running = (case running of
     Some up \<Rightarrow> if up then ret ''skipped''
       else bnd (run_cmd w (ds_heartbeat d) [''docker'', ''start'', name]) (\<lambda>r.
         andThen (expect_ok ''docker start'' r) (ret ''started''))
   | None \<Rightarrow>
       andThen (when_do (deploy_strategy_of d = JStr ''recreate'') (stop_old_writer w d name))
       (bnd (put_env_file w P d) (\<lambda>d'.
        bnd (of_sum (docker_run_argv d' name)) (\<lambda>argv.
        bnd (run_cmd w (ds_heartbeat d) argv) (\<lambda>r.
        andThen (expect_ok ''docker run'' r) (ret ''started''))))))"

definition ensure_start :: "world \<Rightarrow> ports \<Rightarrow> desired \<Rightarrow> string act" where
  "ensure_start w P d =
     bnd (container_running w (container_name d)) (start_from w P d (container_name d))"


section \<open>Health check\<close>

definition not_live :: json where
  "not_live = JObj [(''live'', JBool False), (''ready'', JBool False)]"

text \<open>The payload of a JSON reply to a probe: a failed, empty or unreadable reply is \<open>not_live\<close>.\<close>

definition reply_payload :: "world \<Rightarrow> cmd_result \<Rightarrow> json" where
  "reply_payload w r = (if \<not> result_ok r \<or> strip (stdout r) = [] then not_live
     else case w_loads w (stdout r) of Some v \<Rightarrow> v | None \<Rightarrow> not_live)"

definition first_token :: "string \<Rightarrow> string" where
  "first_token x = takeWhile (\<lambda>c. \<not> is_space c) (strip x)"

definition healthz_payload :: "world \<Rightarrow> desired \<Rightarrow> json act" where
  "healthz_payload w d =
     bnd (transport_probe w [''docker'', ''inspect'', ''--format'',
       ''{{range .NetworkSettings.Networks}}{{.IPAddress}}{{end}}'', container_name d]) (\<lambda>ip_r.
     let ip = first_token (stdout ip_r);
         host = (if ip = [] then ''127.0.0.1'' else ip);
         url = ''http://'' @ host @ '':'' @ str_int (listen_port d) @ readiness_path d
     in bnd (transport_probe w [''curl'', ''-sf'', url]) (\<lambda>r. ret (reply_payload w r)))"

text \<open>\<open>payload.get\<close>: a reply that is no JSON object has no such method.\<close>

definition payload_fields :: "json \<Rightarrow> (string \<times> json) list act" where
  "payload_fields p = (case p of JObj f \<Rightarrow> ret f | _ \<Rightarrow> throw (OtherError ''AttributeError''))"

definition checks_are_comparable :: "(string \<times> json) list \<Rightarrow> bool" where
  "checks_are_comparable p = (truthy (jget p ''live'') \<or> has_key p ''checks'')"

definition polls_exhausted :: exn where
  "polls_exhausted = OtherError ''polls exhausted''"

text \<open>The polling loop with a bound on the polls; \<open>prev\<close> is the last comparable set of checks.\<close>

fun poll_health :: "nat \<Rightarrow> world \<Rightarrow> desired \<Rightarrow> time \<Rightarrow> json option \<Rightarrow> json act" where
  "poll_health 0 w d deadline prev = throw polls_exhausted"
| "poll_health (Suc fuel) w d deadline prev =
     andThen (beat w (ds_heartbeat d))
     (bnd (healthz_payload w d) (\<lambda>payload.
      bnd (payload_fields payload) (\<lambda>p.
      if truthy (jget p ''ready'') then ret payload
      else if checks_are_comparable p \<and> (case prev of None \<Rightarrow> False | Some q \<Rightarrow> py_eq (jget p ''checks'') q)
      then throw (RuntimeError ''healthz checks frozen while not ready'')
      else bnd (monotonic_now w) (\<lambda>now.
        if now \<ge> deadline then throw (RuntimeError ''warmup timeout: never ready'')
        else poll_health fuel w d deadline
          (if checks_are_comparable p then Some (jget p ''checks'') else prev)))))"

definition ensure_health_check :: "world \<Rightarrow> desired \<Rightarrow> json act" where
  "ensure_health_check w d =
     bnd (of_sum (warmup_timeout_s d)) (\<lambda>timeout.
     bnd (monotonic_now w) (\<lambda>now.
     poll_health (w_poll_fuel w) w d (now + seconds timeout) None))"

section \<open>DNS\<close>

text \<open>The columns of one wanted record: \<open>rec["name"]\<close>, \<open>rec["rtype"]\<close>, \<open>rec["values"]\<close>, \<open>rec.get("proxied", True)\<close>.\<close>

definition dns_fields :: "json \<Rightarrow> (string \<times> string \<times> string list \<times> bool) act" where
  "dns_fields rec = (case rec of
     JObj f \<Rightarrow>
       if \<not> has_key f ''name'' then throw (KeyError ''name'')
       else if \<not> has_key f ''rtype'' then throw (KeyError ''rtype'')
       else if \<not> has_key f ''values'' then throw (KeyError ''values'')
       else bnd (argv_of (jget f ''values'')) (\<lambda>vals.
         ret (py_str (jget f ''name''), py_str (jget f ''rtype''), vals,
           if has_key f ''proxied'' then truthy (jget f ''proxied'') else True))
   | _ \<Rightarrow> throw (TypeError ''indices must be integers''))"

text \<open>The entry a later record of the listing overrides: the last one under the key.\<close>

definition dns_current :: "dns_entry list \<Rightarrow> string \<Rightarrow> string \<Rightarrow> dns_entry option" where
  "dns_current listed name rtype =
     find (\<lambda>e. de_name e = name \<and> de_rtype e = rtype) (rev listed)"

definition dns_same :: "dns_entry option \<Rightarrow> string list \<Rightarrow> bool \<Rightarrow> bool" where
  "dns_same current vals proxied = (case current of None \<Rightarrow> False
     | Some e \<Rightarrow> de_values e = vals \<and> (case de_proxied e of None \<Rightarrow> False | Some b \<Rightarrow> b) = proxied)"

text \<open>\<open>DnsRecord.objects.update_or_create\<close> on (site, name, rtype).\<close>

definition upsert_dns_row :: "nat \<Rightarrow> string \<Rightarrow> string \<Rightarrow> string \<Rightarrow> unit act" where
  "upsert_dns_row site name rtype v = modify (\<lambda>s.
     let hit = (\<lambda>r. r_site r = site \<and> r_name r = name \<and> r_rtype r = rtype) in
     if \<exists>r \<in> set (dns_records s). hit r
     then s\<lparr>dns_records := upd_rows hit (\<lambda>r. r\<lparr>r_value := v\<rparr>) (dns_records s)\<rparr>
     else s\<lparr>dns_records := dns_records s @ [\<lparr>r_site = site, r_zone = None, r_name = name,
       r_rtype = rtype, r_value = v, r_observed_value = [], r_last_verified = None\<rparr>]\<rparr>)"

definition persist_dns_rows :: "desired \<Rightarrow> json list \<Rightarrow> unit act" where
  "persist_dns_rows d records = (case ds_site d of
     None \<Rightarrow> ret ()
   | Some site \<Rightarrow> if s_pk site = 0 then ret ()
       else for_each records (\<lambda>rec. bnd (dns_fields rec) (\<lambda>(name, rtype, vals, _).
         upsert_dns_row (s_pk site) name rtype (join '','' vals))))"

definition zone_of :: "desired \<Rightarrow> zone_ref" where
  "zone_of d = (case ds_dns_zone d of Some z \<Rightarrow> ZoneRow z | None \<Rightarrow> ZoneName (ds_zone d))"

definition ensure_dns :: "world \<Rightarrow> desired \<Rightarrow> string act" where
  "ensure_dns w d =
     (if mesh_only d then ret ''skipped''
      else bnd (dns_list_records w (zone_of d)) (\<lambda>listed.
        let wanted = desired_dns_records w d in
        andThen (for_each wanted (\<lambda>rec. bnd (dns_fields rec) (\<lambda>(name, rtype, vals, proxied).
          if dns_same (dns_current listed name rtype) vals proxied then ret ()
          else dns_upsert_record w (zone_of d) name rtype vals proxied)))
        (andThen (persist_dns_rows d wanted) (ret ''ensured''))))"


section \<open>Route and TLS\<close>

definition caddy_tls_admin_url :: string where
  "caddy_tls_admin_url = ''http://127.0.0.1:2019/config/apps/tls''"

text \<open>The body and the status line of \<open>curl -w\<close>: split at the last line break when three digits end the text.\<close>

definition split_status :: "string \<Rightarrow> string \<times> string" where
  "split_status raw =
     (let tail = drop (length raw - 3) raw; line_break = hd nl in
      if raw \<noteq> [] \<and> all_digits tail \<and> line_break \<in> set raw
      then (rev (tl (dropWhile (\<lambda>c. c \<noteq> line_break) (rev raw))),
            rev (takeWhile (\<lambda>c. c \<noteq> line_break) (rev raw)))
      else (raw, []))"

text \<open>
  The live TLS object: empty when the app is missing, \<open>None\<close> when the reading failed, so that the
  caller refuses a PUT that would wipe sibling certificates. A non-empty reading is remembered.
\<close>

definition probe_caddy_tls :: "world \<Rightarrow> (string \<times> json) list option act" where
  "probe_caddy_tls w =
     bnd (transport_probe w [''curl'', ''-s'', ''-w'', nl @ ''%{http_code}'', caddy_tls_admin_url]) (\<lambda>r.
     let raw = strip (stdout r); (body, status) = split_status raw; err = strip (stderr r) in
     if status = ''404'' then ret (Some [])
     else if status \<noteq> [] \<and> status \<noteq> ''200'' then ret None
     else if \<not> result_ok r \<and> status = [] then
       ret (if suffix ''404'' err then Some [] else None)
     else if strip body = [] then ret (Some [])
     else case w_loads w body of
       None \<Rightarrow> ret None
     | Some data \<Rightarrow> let app = as_tls_app data in
         andThen (when_do (app \<noteq> []) (modify (\<lambda>s. s\<lparr>tls_app_cache := Some (JObj app)\<rparr>)))
         (ret (Some app)))"

definition last_known_tls_app :: "hub \<Rightarrow> (string \<times> json) list" where
  "last_known_tls_app s = (case tls_app_cache s of Some (JObj d) \<Rightarrow> d | _ \<Rightarrow> [])"

definition caddy_put :: "world \<Rightarrow> desired \<Rightarrow> string \<Rightarrow> string \<Rightarrow> string \<Rightarrow> (string \<times> json) list \<Rightarrow> unit act" where
  "caddy_put w d what url remote payload =
     andThen (transport_put w (dumps_canonical (JObj payload)) remote default_mode)
     (bnd (run_cmd w (ds_heartbeat d) [''curl'', ''-sf'', ''-X'', ''PUT'', url,
        ''-H'', ''Content-Type: application/json'', ''--data-binary'', ''@'' @ remote])
       (expect_ok what))"

definition wipe_refused :: exn where
  "wipe_refused = RuntimeError ''caddy tls probe failed; refusing PUT that would wipe sibling certs''"

definition put_caddy_origin_certs :: "world \<Rightarrow> desired \<Rightarrow> (string \<times> json) list \<Rightarrow> unit act" where
  "put_caddy_origin_certs w d route =
     (if \<not> has_key route ''tls_connection_policies'' then ret ()
      else case origin_tls_files d of None \<Rightarrow> ret ()
      | Some fs \<Rightarrow>
         bnd (probe_caddy_tls w) (\<lambda>probed.
         bnd (gets last_known_tls_app) (\<lambda>cached.
         if probed = None \<and> cached = [] then throw wipe_refused
         else let live = (case probed of Some app \<Rightarrow> app | None \<Rightarrow> cached) in
           if origin_tls_already_loaded live fs (site_tag d) then ret ()
           else let payload = merge_caddy_origin_tls live fs (site_tag d) in
             bnd (gets (\<lambda>s. ssh_user_from s d)) (\<lambda>user.
             andThen (ensure_hub_dir w user (ds_heartbeat d))
             (andThen (caddy_put w d ''caddy tls put'' caddy_tls_admin_url
                (hub_join [''caddy-tls-'' @ ds_site_slug d @ ''.json''] user) payload)
             (modify (\<lambda>s. s\<lparr>tls_app_cache := Some (JObj payload)\<rparr>)))))))"

definition server_url :: "string \<Rightarrow> string" where
  "server_url route_id = ''http://127.0.0.1:2019/config/apps/http/servers/'' @ route_id"

text \<open>The first readable answer of the two admin addresses.\<close>

fun probe_urls :: "world \<Rightarrow> string list \<Rightarrow> json option act" where
  "probe_urls w [] = ret None"
| "probe_urls w (url # urls) =
     bnd (transport_probe w [''curl'', ''-sf'', url]) (\<lambda>r.
     if \<not> result_ok r \<or> strip (stdout r) = [] then probe_urls w urls
     else case w_loads w (stdout r) of Some v \<Rightarrow> ret (Some v) | None \<Rightarrow> probe_urls w urls)"

definition probe_caddy_route :: "world \<Rightarrow> string \<Rightarrow> json option act" where
  "probe_caddy_route w route_id =
     probe_urls w [''http://127.0.0.1:2019/id/'' @ route_id, server_url route_id]"

definition ensure_route_tls :: "world \<Rightarrow> ports \<Rightarrow> desired \<Rightarrow> string act" where
  "ensure_route_tls w P d0 =
     (if (case ds_site d0 of Some site \<Rightarrow> s_edge_owner site = SiteCaddy | None \<Rightarrow> False) then ret ''skipped''
      else
        bnd (if ds_site d0 \<noteq> None \<and> \<not> mesh_only d0
             then bnd (pt_cert P d0) (\<lambda>fs. ret (case fs of None \<Rightarrow> d0 | Some f \<Rightarrow> d0\<lparr>ds_tls_files := Some f\<rparr>))
             else ret d0) (\<lambda>d.
        let route_id = site_tag d; route = caddy_route w d route_id in
        bnd (probe_caddy_route w route_id) (\<lambda>current.
        if (case current of None \<Rightarrow> False | Some c \<Rightarrow> py_eq c (JObj route))
        then andThen (put_caddy_origin_certs w d route) (ret ''skipped'')
        else
          bnd (gets (\<lambda>s. ssh_user_from s d)) (\<lambda>user.
          andThen (ensure_hub_dir w user (ds_heartbeat d))
          (andThen (put_caddy_origin_certs w d route)
          (andThen (caddy_put w d ''caddy put'' (server_url route_id)
             (hub_join [''caddy-'' @ route_id @ ''.json''] user) route)
          (ret ''applied''))))))) "


section \<open>Smoke test and cutover\<close>

definition caddy_listen_hostport :: "world \<Rightarrow> desired \<Rightarrow> exn + string" where
  "caddy_listen_hostport w d =
     (case route_listen (caddy_route w d (site_tag d)) of
        JStr l \<Rightarrow> Inr (case l of c # _ \<Rightarrow> if c = CHR '':'' then ''127.0.0.1'' @ l else l | [] \<Rightarrow> l)
      | _ \<Rightarrow> Inl (OtherError ''AttributeError''))"

definition smoke_uses_https :: "world \<Rightarrow> desired \<Rightarrow> bool" where
  "smoke_uses_https w d = (origin_tls_files d \<noteq> None \<and>
     listen_is_https (route_listen (caddy_route w d (site_tag d))))"

definition caddy_smoke_payload :: "world \<Rightarrow> desired \<Rightarrow> json act" where
  "caddy_smoke_payload w d =
     bnd (of_sum (caddy_listen_hostport w d)) (\<lambda>hostport.
     let rest = hostport @ readiness_path d; host = ''Host: '' @ site_domain d;
         argv = (if smoke_uses_https w d then [''curl'', ''-skf'', ''-H'', host, ''https://'' @ rest]
                 else [''curl'', ''-sf'', ''-H'', host, ''http://'' @ rest])
     in bnd (transport_probe w argv) (\<lambda>r. ret (reply_payload w r)))"

text \<open>\<open>s.rpartition(":")\<close>: the text before and after the last colon.\<close>

definition rpartition_colon :: "string \<Rightarrow> string \<times> string" where
  "rpartition_colon x = (if CHR '':'' \<in> set x
     then (rev (tl (dropWhile (\<lambda>c. c \<noteq> CHR '':'') (rev x))), rev (takeWhile (\<lambda>c. c \<noteq> CHR '':'') (rev x)))
     else ([], x))"

definition ws_frame :: "world \<Rightarrow> desired \<Rightarrow> string option act" where
  "ws_frame w d =
     bnd (of_sum (caddy_listen_hostport w d)) (\<lambda>hostport.
     bnd (gets (\<lambda>s. ssh_user_from s d)) (\<lambda>user.
     let (host, port) = rpartition_colon hostport; remote = hub_join [''ws-probe.py''] user in
     andThen (ensure_hub_dir w user (ds_heartbeat d))
     (andThen (transport_put w (w_ws_probe w) remote default_mode)
     (bnd (transport_probe w [''python3'', remote, host, port, ws_path (ds_body d), site_domain d,
         if smoke_uses_https w d then ''1'' else ''0'']) (\<lambda>r.
      ret (if result_ok r then Some (stdout r) else None))))))"

definition ensure_smoke :: "world \<Rightarrow> desired \<Rightarrow> json act" where
  "ensure_smoke w d =
     bnd (caddy_smoke_payload w d) (\<lambda>payload.
     bnd (payload_fields payload) (\<lambda>p.
     if \<not> truthy (jget p ''ready'') then throw (RuntimeError ''smoke failed: not ready'')
     else if declares_ws (ds_body d) then
       bnd (ws_frame w d) (\<lambda>frame.
       if frame = None \<or> frame = Some [] then throw (RuntimeError ''smoke failed: no ws frame'')
       else ret payload)
     else ret payload))"

definition cutover_ready :: "world \<Rightarrow> desired \<Rightarrow> bool act" where
  "cutover_ready w d = bnd (healthz_payload w d) (\<lambda>payload.
     bnd (payload_fields payload) (\<lambda>p. ret (truthy (jget p ''ready''))))"

definition stop_for_cutover :: "world \<Rightarrow> desired \<Rightarrow> unit act" where
  "stop_for_cutover w d = (case ds_old_container d of None \<Rightarrow> ret ()
     | Some old \<Rightarrow> if old = [] then ret ()
         else bnd (container_running w old) (\<lambda>running.
           if running = Some False then ret ()
           else bnd (run_cmd w (ds_heartbeat d) [''docker'', ''stop'', old]) (expect_ok ''docker stop'')))"

definition ensure_cutover :: "world \<Rightarrow> desired \<Rightarrow> string act" where
  "ensure_cutover w d =
     bnd (cutover_ready w d) (\<lambda>ready.
     if \<not> ready then throw (RuntimeError ''cutover refused: not ready'')
     else andThen (stop_for_cutover w d)
       (andThen (case ds_step d of None \<Rightarrow> ret ()
         | Some st \<Rightarrow>
            bnd (timezone_now w) (\<lambda>now.
            bnd (of_sum (cutover_grace_s d)) (\<lambda>grace.
            save_step (st_deployment st) (st_seq st) (\<lambda>r. r\<lparr>st_artifacts :=
              jset (st_artifacts st) ''grace_deadline'' (JStr (isoformat (now + seconds grace)))\<rparr>))))
       (ret ''cutover'')))"

end
