(* ===== verification/Step_Facts.thy ===== *)
theory Step_Facts
  imports Steps
begin

text \<open>
  What the steps of \<open>deploys/steps.py\<close> do and do not do: which commands they may send to the target,
  which rows they leave alone, that they change nothing when the target already matches, that the
  polling loop ends, and that a cutover needs a ready container.
\<close>


section \<open>Commands a program may issue\<close>

text \<open>Every call that \<open>t\<close> has recorded after \<open>s\<close> satisfies \<open>P\<close>; likewise for the DNS provider.\<close>

definition adds :: "(call \<Rightarrow> bool) \<Rightarrow> hub \<Rightarrow> hub \<Rightarrow> bool" where
  "adds P s t = (\<exists>cs. calls t = calls s @ cs \<and> list_all P cs)"

definition dns_adds :: "(dns_call \<Rightarrow> bool) \<Rightarrow> hub \<Rightarrow> hub \<Rightarrow> bool" where
  "dns_adds P s t = (\<exists>cs. dns_calls t = dns_calls s @ cs \<and> list_all P cs)"

interpretation issue: evolution "adds P" for P
  by unfold_locales (auto simp: adds_def)

interpretation ask: evolution "dns_adds P" for P
  by unfold_locales (auto simp: dns_adds_def)

declare bnd_gets [simp]

lemma bnd_Inr: "m s = (Inr x, u) \<Longrightarrow> bnd m k s = k x u"
  by (simp add: bnd_def)

lemma bnd_Inl: "m s = (Inl e, u) \<Longrightarrow> bnd m k s = (Inl e, u)"
  by (simp add: bnd_def)

lemma andThen_Inr: "m s = (Inr x, u) \<Longrightarrow> andThen m n s = n u"
  by (simp add: andThen_def bnd_def)

lemma andThen_Inl: "m s = (Inl e, u) \<Longrightarrow> andThen m n s = (Inl e, u)"
  by (simp add: andThen_def bnd_def)

lemma of_sum_simps [simp]: "of_sum (Inr x) = ret x" "of_sum (Inl e) = throw e"
  by (simp_all add: of_sum_def)

named_theorems issues \<open>which calls a program issues\<close>
named_theorems asks \<open>which DNS calls a program issues\<close>
named_theorems cores \<open>what a program leaves alone\<close>

lemma adds_mutating:
  "adds (\<lambda>c. \<not> mutating c) s t \<Longrightarrow> mutating_calls t = mutating_calls s"
  by (auto simp: adds_def mutating_calls_def list_all_iff)

lemma adds_same: "calls t = calls s \<Longrightarrow> adds P s t"
  by (simp add: adds_def)

lemma dns_adds_same: "dns_calls t = dns_calls s \<Longrightarrow> dns_adds P s t"
  by (simp add: dns_adds_def)

lemma frame_adds: "evolves (same calls) m \<Longrightarrow> evolves (adds P) m"
  by (auto simp: evolves_def same_def intro: adds_same)

lemma frame_dns_adds: "evolves (same dns_calls) m \<Longrightarrow> evolves (dns_adds P) m"
  by (auto simp: evolves_def same_def intro: dns_adds_same)

lemma shell_call_adds: "P c \<Longrightarrow> evolves (adds P) (shell_call w c)"
  by (auto simp: evolves_def shell_call_def Let_def adds_def)

lemma transport_run_adds [issues]: "P (Run argv) \<Longrightarrow> evolves (adds P) (transport_run w argv)"
  unfolding transport_run_def by (rule shell_call_adds)

lemma transport_probe_adds [issues]: "P (Probe argv) \<Longrightarrow> evolves (adds P) (transport_probe w argv)"
  unfolding transport_probe_def by (rule shell_call_adds)

lemma transport_put_adds [issues]: "P (Put c r m) \<Longrightarrow> evolves (adds P) (transport_put w c r m)"
  unfolding transport_put_def by (intro issue.ev_rules shell_call_adds)

lemma unstamped_weaken:
  assumes "evolves (same unstamped) m" "\<And>s. f (unstamped s) = f s"
  shows "evolves (same f) m"
  using assms unfolding evolves_def same_def by metis

lemma touch_heartbeat_adds [issues]: "evolves (adds P) (touch_heartbeat w d)"
  by (rule frame_adds, rule unstamped_weaken [OF touch_heartbeat_unstamped]) (simp add: unstamped_def)

lemma touch_heartbeat_asks [asks]: "evolves (dns_adds P) (touch_heartbeat w d)"
  by (rule frame_dns_adds, rule unstamped_weaken [OF touch_heartbeat_unstamped]) (simp add: unstamped_def)

lemma beat_adds [issues]: "evolves (adds P) (beat w hb)"
  unfolding beat_def by (intro issue.ev_rules issues)

lemma of_sum_adds [issues]: "evolves (adds P) (of_sum r)"
  unfolding of_sum_def by (intro issue.ev_rules)

lemma expect_ok_adds [issues]: "evolves (adds P) (expect_ok what r)"
  unfolding expect_ok_def by (intro issue.ev_rules)

lemma run_cmd_adds [issues]: "P (Run argv) \<Longrightarrow> evolves (adds P) (run_cmd w hb argv)"
  unfolding run_cmd_def by (intro issue.ev_rules issues)

lemma timezone_now_adds [issues]: "evolves (adds P) (timezone_now w)"
  by (rule frame_adds, rule timezone_now_frame) simp

lemma monotonic_now_adds [issues]: "evolves (adds P) (monotonic_now w)"
  by (rule frame_adds, rule monotonic_now_frame) simp

lemma modify_adds: "(\<And>s. calls (f s) = calls s) \<Longrightarrow> evolves (adds P) (modify f)"
  by (rule frame_adds, rule modify_frame)

lemma save_step_adds [issues]: "evolves (adds P) (save_step d q f)"
  unfolding save_step_def by (rule modify_adds) simp

lemma save_site_adds [issues]: "evolves (adds P) (save_site k f)"
  unfolding save_site_def by (rule modify_adds) simp

lemma probes_adds [issues]:
  "P (Probe [''docker'', ''image'', ''inspect'', tag]) \<Longrightarrow> evolves (adds P) (image_present w tag)"
  "P (Probe [''docker'', ''volume'', ''inspect'', n]) \<Longrightarrow> evolves (adds P) (volume_present w n)"
  "P (Probe [''docker'', ''inspect'', ''--format'', ''{{.State.Running}}'', c]) \<Longrightarrow>
     evolves (adds P) (container_running w c)"
  unfolding image_present_def volume_present_def container_running_def
  by (intro issue.ev_rules issues, assumption)+

lemma ensure_hub_dir_adds [issues]:
  "P (Run [''mkdir'', ''-p'', hub_root u]) \<Longrightarrow> P (Run [''chmod'', ''700'', hub_root u]) \<Longrightarrow>
   evolves (adds P) (ensure_hub_dir w u hb)"
  unfolding ensure_hub_dir_def by (intro issue.ev_rules issues)


section \<open>Results\<close>

text \<open>Whatever value \<open>m\<close> returns satisfies \<open>Q\<close>.\<close>

definition yields :: "'a act \<Rightarrow> ('a \<Rightarrow> bool) \<Rightarrow> bool" where
  "yields m Q = (\<forall>s y t. m s = (Inr y, t) \<longrightarrow> Q y)"

lemma yields_ret: "Q x \<Longrightarrow> yields (ret x) Q"
  by (simp add: yields_def ret_def)

lemma yields_throw: "yields (throw e) Q"
  by (simp add: yields_def throw_def)

lemma yields_bnd: "(\<And>x. yields (k x) Q) \<Longrightarrow> yields (bnd m k) Q"
  unfolding yields_def by (simp add: fst_bnd_Inr) blast

lemma yields_andThen: "yields n Q \<Longrightarrow> yields (andThen m n) Q"
  unfolding andThen_def by (rule yields_bnd)

lemma yieldsD: "yields m Q \<Longrightarrow> m s = (Inr y, t) \<Longrightarrow> Q y"
  unfolding yields_def by blast

lemmas yields_rules = yields_ret yields_throw yields_bnd yields_andThen

text \<open>A program that first decides and then either stops or acts.\<close>

lemma decide_skip:
  assumes "bnd m (\<lambda>b. if b then ret x else n) s = (Inr x, t)" "evolves R m" "yields n (\<lambda>y. y \<noteq> x)"
  shows "R s t"
proof -
  obtain b u where b: "m s = (Inr b, u)" "(if b then ret x else n) u = (Inr x, t)"
    using assms(1) by (auto simp: fst_bnd_Inr)
  then have "u = t" using yieldsD [OF assms(3)] by (cases b) (auto simp: ret_def)
  with b(1) assms(2) show ?thesis unfolding evolves_def by (metis snd_conv)
qed

section \<open>Steps that find their work done\<close>

lemma ensure_build_skip:
  assumes "ensure_build w d s = (Inr ''skipped'', t)"
  shows "adds (\<lambda>c. \<not> mutating c) s t"
  using assms unfolding ensure_build_def Let_def
  by (rule decide_skip) (intro issues yields_rules; simp)+

lemma ensure_ship_skip:
  assumes "ensure_ship w d s = (Inr ''skipped'', t)"
  shows "adds (\<lambda>c. \<not> mutating c) s t"
  using assms unfolding ensure_ship_def docker_load_image_def Let_def
  by (rule decide_skip) (intro issues yields_rules; simp)+

lemma start_from_other: "r \<noteq> Some True \<Longrightarrow> yields (start_from w P d name r) (\<lambda>y. y \<noteq> ''skipped'')"
  unfolding start_from_def by (auto split: option.split intro!: yields_rules)

lemma ensure_start_skip:
  assumes "ensure_start w P d s = (Inr ''skipped'', t)"
  shows "adds (\<lambda>c. \<not> mutating c) s t"
proof -
  obtain r u where r: "container_running w (container_name d) s = (Inr r, u)"
    "start_from w P d (container_name d) r u = (Inr ''skipped'', t)"
    using assms unfolding ensure_start_def fst_bnd_Inr by blast
  have "r = Some True"
    using yieldsD [OF start_from_other r(2)] by blast
  with r(2) have "u = t" by (simp add: start_from_def ret_def)
  moreover have "evolves (adds (\<lambda>c. \<not> mutating c)) (container_running w (container_name d))"
    by (intro issues) simp
  ultimately show ?thesis using r(1) issue.evolvesD by blast
qed


section \<open>Volumes\<close>

lemma upsert_site_volume_adds [issues]: "evolves (adds P) (upsert_site_volume k v)"
  unfolding upsert_site_volume_def by (rule modify_adds) simp

definition volume_create :: "volume_spec list \<Rightarrow> call \<Rightarrow> bool" where
  "volume_create specs c = (\<exists>v \<in> set specs. c = Run [''docker'', ''volume'', ''create'', vs_name v])"

lemma ensure_volume_adds:
  "evolves (adds (\<lambda>c. mutating c \<longrightarrow> volume_create (volume_specs (ds_site_slug d) (ds_body d)) c)) (ensure_volume w d)"
  unfolding ensure_volume_def Let_def
  by (intro issue.ev_rules issues) (auto simp: volume_create_def)


section \<open>Secrets\<close>

lemma docker_run_argv_env: "docker_run_argv (d\<lparr>ds_env_mapping := m\<rparr>) name = docker_run_argv d name"
  by (simp add: docker_run_argv_def listen_port_def Let_def split: sum.split option.split)

definition env_call :: "string \<Rightarrow> string \<Rightarrow> call \<Rightarrow> bool" where
  "env_call user body c = (c = Run [''mkdir'', ''-p'', hub_root user] \<or> c = Run [''chmod'', ''700'', hub_root user] \<or>
     (\<exists>remote. c = Put body remote env_mode))"

lemma put_env_file_issues:
  assumes "secrets_mode d = Inr ''push''"
  shows "adds (env_call (ssh_user_from s d) (env_file_body (ds_env_mapping d))) s (snd (put_env_file w P d s))"
proof (cases "ds_env_mapping d = []")
  case True
  then show ?thesis by (simp add: put_env_file_def ret_def adds_def)
next
  case False
  let ?u = "ssh_user_from s d"
  let ?m = "let remote = hub_join [''site-'' @ ds_site_slug d @ ''-'' @ str_nat (ds_deployment_id d) @ ''.env''] ?u in
          andThen (ensure_hub_dir w ?u (ds_heartbeat d))
          (andThen (transport_put w (env_file_body (ds_env_mapping d)) remote env_mode)
          (ret (d\<lparr>ds_env_file := Some remote\<rparr>)))"
  have "evolves (adds (env_call ?u (env_file_body (ds_env_mapping d)))) ?m"
    by (intro issue.ev_rules issues) (simp_all add: env_call_def)
  moreover have "put_env_file w P d s = ?m s"
    using False assms by (simp add: put_env_file_def Let_def)
  ultimately show ?thesis by (simp add: evolves_def)
qed


section \<open>DNS\<close>

lemma dns_list_asks [asks]: "Q (DnsList z) \<Longrightarrow> evolves (dns_adds Q) (dns_list_records w z)"
  by (auto simp: evolves_def dns_list_records_def Let_def dns_adds_def)

lemma dns_upsert_asks [asks]: "Q (DnsUpsert z n r v p) \<Longrightarrow> evolves (dns_adds Q) (dns_upsert_record w z n r v p)"
  by (auto simp: evolves_def dns_upsert_record_def Let_def dns_adds_def)

lemma of_sum_asks [asks]: "evolves (dns_adds Q) (of_sum r)"
  unfolding of_sum_def by (intro ask.ev_rules)

lemma argv_of_asks [asks]: "evolves (dns_adds Q) (argv_of v)"
  unfolding argv_of_def by (intro ask.ev_rules asks)

lemma dns_fields_asks [asks]: "evolves (dns_adds Q) (dns_fields rec)"
  unfolding dns_fields_def by (cases rec) (auto intro!: ask.ev_rules asks)

lemma upsert_dns_row_asks [asks]: "evolves (dns_adds Q) (upsert_dns_row k n r v)"
  unfolding upsert_dns_row_def by (rule frame_dns_adds, rule modify_frame) (simp add: Let_def)

lemma persist_dns_rows_asks [asks]: "evolves (dns_adds Q) (persist_dns_rows d recs)"
  unfolding persist_dns_rows_def by (intro ask.ev_rules asks)

text \<open>A provider call the step may make, given the listing it got: the listing or a real difference.\<close>

definition dns_difference :: "zone_ref \<Rightarrow> dns_entry list \<Rightarrow> dns_call \<Rightarrow> bool" where
  "dns_difference z listed c = (case c of DnsList _ \<Rightarrow> False
     | DnsUpsert z' name rtype vals proxied \<Rightarrow> z' = z \<and> \<not> dns_same (dns_current listed name rtype) vals proxied)"

lemma ensure_dns_differences:
  assumes "\<not> mesh_only d" "w_dns w (dns_calls s @ [DnsList (zone_of d)]) = Inr listed"
  shows "\<exists>cs. dns_calls (snd (ensure_dns w d s)) = dns_calls s @ DnsList (zone_of d) # cs \<and>
    list_all (dns_difference (zone_of d) listed) cs"
proof -
  let ?wanted = "desired_dns_records w d"
  let ?m = "andThen (for_each ?wanted (\<lambda>rec. bnd (dns_fields rec) (\<lambda>(name, rtype, vals, proxied).
          if dns_same (dns_current listed name rtype) vals proxied then ret ()
          else dns_upsert_record w (zone_of d) name rtype vals proxied)))
        (andThen (persist_dns_rows d ?wanted) (ret ''ensured''))"
  let ?s = "s\<lparr>dns_calls := dns_calls s @ [DnsList (zone_of d)]\<rparr>"
  have "evolves (dns_adds (dns_difference (zone_of d) listed)) ?m"
    by (intro ask.ev_rules asks) (simp_all add: dns_difference_def)
  moreover have "ensure_dns w d s = ?m ?s"
    using assms by (simp add: ensure_dns_def bnd_def dns_list_records_def Let_def)
  ultimately show ?thesis
    unfolding evolves_def dns_adds_def by (auto dest!: spec [where x = ?s])
qed

section \<open>Exceptions\<close>

text \<open>Whatever exception \<open>m\<close> raises satisfies \<open>Q\<close>.\<close>

definition raises :: "'a act \<Rightarrow> (exn \<Rightarrow> bool) \<Rightarrow> bool" where
  "raises m Q = (\<forall>s e t. m s = (Inl e, t) \<longrightarrow> Q e)"

lemma raises_ret: "raises (ret x) Q"
  by (simp add: raises_def ret_def)

lemma raises_throw: "Q e \<Longrightarrow> raises (throw e) Q"
  by (simp add: raises_def throw_def)

lemma raises_gets: "raises (gets f) Q"
  by (simp add: raises_def gets_def)

lemma raises_modify: "raises (modify f) Q"
  by (simp add: raises_def modify_def)

lemma raises_bnd: "raises m Q \<Longrightarrow> (\<And>x. raises (k x) Q) \<Longrightarrow> raises (bnd m k) Q"
  by (auto simp: raises_def bnd_def split: prod.splits sum.splits)

lemma raises_andThen: "raises m Q \<Longrightarrow> raises n Q \<Longrightarrow> raises (andThen m n) Q"
  unfolding andThen_def by (rule raises_bnd)

lemma raises_for_each: "(\<And>x. raises (f x) Q) \<Longrightarrow> raises (for_each xs f) Q"
  by (induction xs) (auto intro: raises_ret raises_andThen)

lemmas raises_rules = raises_ret raises_throw raises_gets raises_modify raises_bnd raises_andThen raises_for_each

lemma raisesD: "raises m Q \<Longrightarrow> m s = (Inl e, t) \<Longrightarrow> Q e"
  unfolding raises_def by blast

lemma timezone_now_raises: "raises (timezone_now w) Q"
  by (simp add: raises_def timezone_now_def)

lemma lock_heartbeat_raises: "raises (heartbeat w sc oid kd h) Q"
  unfolding heartbeat_def by (intro raises_rules timezone_now_raises) (simp add: raises_def Let_def)

lemma touch_heartbeat_raises: "raises (touch_heartbeat w d) Q"
  unfolding touch_heartbeat_def write_heartbeat_def save_deployment_def
  by (intro raises_rules timezone_now_raises lock_heartbeat_raises)

lemma beat_raises: "raises (beat w hb) Q"
  unfolding beat_def by (auto split: option.split intro: raises_ret touch_heartbeat_raises)

definition transport_exn :: "world \<Rightarrow> exn \<Rightarrow> bool" where
  "transport_exn w e = (\<exists>cs. w_shell w cs = Inl e)"

lemma probe_raises: "(\<And>e. transport_exn w e \<Longrightarrow> Q e) \<Longrightarrow> raises (transport_probe w argv) Q"
  by (auto simp: raises_def transport_probe_def shell_call_def transport_exn_def Let_def)

lemma healthz_payload_raises: "(\<And>e. transport_exn w e \<Longrightarrow> Q e) \<Longrightarrow> raises (healthz_payload w d) Q"
  unfolding healthz_payload_def Let_def by (intro raises_rules probe_raises)


section \<open>The polling loop ends\<close>

definition clock_on :: "hub \<Rightarrow> hub \<Rightarrow> bool" where
  "clock_on s t = (ticks s \<le> ticks t)"

interpretation clock: evolution clock_on
  by unfold_locales (auto simp: clock_on_def)

lemma timezone_now_clock: "evolves clock_on (timezone_now w)"
  by (simp add: evolves_def clock_on_def timezone_now_def)

lemma lock_heartbeat_clock: "evolves clock_on (heartbeat w sc oid kd h)"
  unfolding heartbeat_def by (intro clock.ev_rules timezone_now_clock) (simp add: evolves_def clock_on_def Let_def)

lemma touch_heartbeat_clock: "evolves clock_on (touch_heartbeat w d)"
  unfolding touch_heartbeat_def write_heartbeat_def save_deployment_def
  by (intro clock.ev_rules timezone_now_clock lock_heartbeat_clock clock.ev_modify) (simp add: clock_on_def)

lemma probe_clock: "evolves clock_on (transport_probe w argv)"
  by (simp add: evolves_def clock_on_def transport_probe_def shell_call_def Let_def)

lemma poll_prefix_clock: "evolves clock_on (andThen (beat w hb) (healthz_payload w d))"
  unfolding beat_def healthz_payload_def by (intro clock.ev_rules touch_heartbeat_clock probe_clock)

text \<open>One round of the loop, seen from outside.\<close>

lemma poll_health_round:
  "poll_health (Suc fuel) w d deadline prev =
     bnd (andThen (beat w (ds_heartbeat d)) (healthz_payload w d)) (\<lambda>payload.
      bnd (payload_fields payload) (\<lambda>p.
      if truthy (jget p ''ready'') then ret payload
      else if checks_are_comparable p \<and> (case prev of None \<Rightarrow> False | Some q \<Rightarrow> py_eq (jget p ''checks'') q)
      then throw (RuntimeError ''healthz checks frozen while not ready'')
      else bnd (monotonic_now w) (\<lambda>now.
        if now \<ge> deadline then throw (RuntimeError ''warmup timeout: never ready'')
        else poll_health fuel w d deadline
          (if checks_are_comparable p then Some (jget p ''checks'') else prev))))"
  by (simp add: andThen_def bnd_assoc)

lemma poll_health_ends:
  assumes "\<And>m. m \<ge> N \<Longrightarrow> deadline \<le> w_monotonic w m" "\<not> transport_exn w polls_exhausted"
  shows "N < fuel + ticks s \<Longrightarrow> 0 < fuel \<Longrightarrow> fst (poll_health fuel w d deadline prev s) \<noteq> Inl polls_exhausted"
proof (induction fuel arbitrary: s prev)
  case (Suc fuel)
  let ?first = "andThen (beat w (ds_heartbeat d)) (healthz_payload w d)"
  obtain r t where rt: "?first s = (r, t)" by fastforce
  have tick: "ticks s \<le> ticks t"
    using clock.evolvesD [OF poll_prefix_clock rt] by (simp add: clock_on_def)
  show ?case
  proof (cases r)
    case (Inl e)
    have "raises ?first (\<lambda>e. e \<noteq> polls_exhausted)"
      using assms(2) by (intro raises_rules beat_raises healthz_payload_raises) auto
    with rt Inl have "e \<noteq> polls_exhausted" by (auto dest: raisesD)
    with rt Inl show ?thesis by (simp add: poll_health_round bnd_def del: poll_health.simps)
  next
    case (Inr payload)
    show ?thesis
    proof (cases "w_monotonic w (ticks t) \<ge> deadline")
      case True
      with rt Inr show ?thesis
        by (simp add: poll_health_round bnd_def payload_fields_def monotonic_now_def ret_def throw_def
            polls_exhausted_def split: json.split del: poll_health.simps)
    next
      case False
      then have "ticks t < N" using assms(1) by (meson not_le)
      with tick Suc.prems have "0 < fuel" "N < fuel + Suc (ticks t)" by auto
      with Suc.IH have "fst (poll_health fuel w d deadline q (t\<lparr>ticks := Suc (ticks t)\<rparr>)) \<noteq> Inl polls_exhausted" for q
        by simp
      with False rt Inr show ?thesis
        by (simp add: poll_health_round bnd_def payload_fields_def monotonic_now_def ret_def throw_def
            polls_exhausted_def split: json.split del: poll_health.simps)
    qed
  qed
qed simp

lemma poll_health_ready: "yields (poll_health fuel w d deadline prev) (\<lambda>p. truthy (jget (obj_fields p) ''ready''))"
proof (induction fuel arbitrary: prev)
  case (Suc fuel)
  have "yields (bnd (payload_fields payload) (\<lambda>p. if truthy (jget p ''ready'') then ret payload else n p))
      (\<lambda>p. truthy (jget (obj_fields p) ''ready''))"
    if "\<And>p. yields (n p) (\<lambda>p. truthy (jget (obj_fields p) ''ready''))" for payload n
    using that by (cases payload) (auto simp: payload_fields_def yields_def bnd_def ret_def throw_def split: if_splits)
  then show ?case unfolding poll_health_round
    by (rule yields_bnd) (auto intro!: yields_rules Suc.IH)
qed (simp add: yields_throw)

section \<open>Cutover\<close>

lemma healthz_payload_adds: "(\<And>argv. P (Probe argv)) \<Longrightarrow> evolves (adds P) (healthz_payload w d)"
  unfolding healthz_payload_def by (intro issue.ev_rules issues)

lemma payload_fields_adds [issues]: "evolves (adds P) (payload_fields p)"
  unfolding payload_fields_def by (cases p) (auto intro: issue.ev_rules)

lemma cutover_ready_adds: "(\<And>argv. P (Probe argv)) \<Longrightarrow> evolves (adds P) (cutover_ready w d)"
  unfolding cutover_ready_def by (intro issue.ev_rules issues healthz_payload_adds)

definition stop_old :: "desired \<Rightarrow> call \<Rightarrow> bool" where
  "stop_old d c = (\<exists>old. ds_old_container d = Some old \<and> c = Run [''docker'', ''stop'', old])"

lemma stop_for_cutover_adds: "evolves (adds (\<lambda>c. mutating c \<longrightarrow> stop_old d c)) (stop_for_cutover w d)"
  unfolding stop_for_cutover_def by (intro issue.ev_rules issues) (auto simp: stop_old_def)

lemma ensure_cutover_adds: "evolves (adds (\<lambda>c. mutating c \<longrightarrow> stop_old d c)) (ensure_cutover w d)"
  unfolding ensure_cutover_def
  by (intro issue.ev_rules issues cutover_ready_adds stop_for_cutover_adds) simp

lemma ensure_cutover_not_ready:
  assumes "\<nexists>u. cutover_ready w d s = (Inr True, u)"
  shows "(\<exists>e. fst (ensure_cutover w d s) = Inl e) \<and> adds (\<lambda>c. \<not> mutating c) s (snd (ensure_cutover w d s))"
proof -
  obtain r u where u: "cutover_ready w d s = (r, u)" by fastforce
  with assms have "r \<noteq> Inr True" by auto
  then have "ensure_cutover w d s = (case r of Inl e \<Rightarrow> (Inl e, u) | Inr _ \<Rightarrow>
      (Inl (RuntimeError ''cutover refused: not ready''), u))"
    using u by (auto simp: ensure_cutover_def bnd_def throw_def split: sum.split)
  moreover have "adds (\<lambda>c. \<not> mutating c) s u"
    using u by (intro issue.evolvesD [OF cutover_ready_adds]) simp_all
  ultimately show ?thesis by (cases r) simp_all
qed


section \<open>The edge's TLS object\<close>

lemma caddy_put_adds [issues]:
  "P (Put (dumps_canonical (JObj payload)) remote default_mode) \<Longrightarrow>
   P (Run [''curl'', ''-sf'', ''-X'', ''PUT'', url, ''-H'', ''Content-Type: application/json'',
     ''--data-binary'', ''@'' @ remote]) \<Longrightarrow>
   evolves (adds P) (caddy_put w d what url remote payload)"
  unfolding caddy_put_def by (intro issue.ev_rules issues)

text \<open>A file the step uploads is the merge of this site's pair into the object \<open>live\<close>.\<close>

definition tls_upload :: "(string \<times> json) list \<Rightarrow> string \<times> string \<Rightarrow> string \<Rightarrow> call \<Rightarrow> bool" where
  "tls_upload live fs tag c = (case c of
     Put content _ _ \<Rightarrow> content = dumps_canonical (JObj (merge_caddy_origin_tls live fs tag)) | _ \<Rightarrow> True)"

text \<open>What the step does once it knows the object to merge into.\<close>

definition put_merged :: "world \<Rightarrow> desired \<Rightarrow> (string \<times> json) list \<Rightarrow> string \<times> string \<Rightarrow> unit act" where
  "put_merged w d live fs = (if origin_tls_already_loaded live fs (site_tag d) then ret ()
     else let payload = merge_caddy_origin_tls live fs (site_tag d) in
       bnd (gets (\<lambda>s. ssh_user_from s d)) (\<lambda>user.
       andThen (ensure_hub_dir w user (ds_heartbeat d))
       (andThen (caddy_put w d ''caddy tls put'' caddy_tls_admin_url
          (hub_join [''caddy-tls-'' @ ds_site_slug d @ ''.json''] user) payload)
       (modify (\<lambda>s. s\<lparr>tls_app_cache := Some (JObj payload)\<rparr>)))))"

lemma put_merged_adds: "evolves (adds (tls_upload live fs (site_tag d))) (put_merged w d live fs)"
  unfolding put_merged_def Let_def
  by (intro issue.ev_rules issues modify_adds) (simp_all add: tls_upload_def)

lemma put_caddy_origin_certs_step:
  assumes "has_key route ''tls_connection_policies''" "origin_tls_files d = Some fs"
    "probe_caddy_tls w s = (Inr probed, u)"
  shows "put_caddy_origin_certs w d route s =
    (case probed of Some app \<Rightarrow> put_merged w d app fs u
     | None \<Rightarrow> if last_known_tls_app u = [] then (Inl wipe_refused, u)
         else put_merged w d (last_known_tls_app u) fs u)"
  using assms
  by (cases probed) (simp_all add: put_caddy_origin_certs_def put_merged_def bnd_def [of "probe_caddy_tls w"] throw_def Let_def)

lemma probe_caddy_tls_adds: "(\<And>argv. P (Probe argv)) \<Longrightarrow> evolves (adds P) (probe_caddy_tls w)"
  unfolding probe_caddy_tls_def Let_def
  by (intro issue.ev_rules issues modify_adds) simp_all


section \<open>Recreate: the old writer stops first\<close>

definition appends :: "call \<Rightarrow> bool" where
  "appends c = True"

text \<open>The collaborators may send further commands; they cannot unsend any.\<close>

definition ports_append :: "ports \<Rightarrow> bool" where
  "ports_append P = ((\<forall>d. evolves (adds appends) (pt_cert P d)) \<and> (\<forall>t. evolves (adds appends) (pt_ssm_for P t)) \<and>
     (\<forall>n. evolves (adds appends) (pt_ssm_get P n)) \<and> (\<forall>n v k. evolves (adds appends) (pt_ssm_put P n v k)) \<and>
     (\<forall>t ns r. evolves (adds appends) (pt_ssm_fail P t ns r)) \<and> (\<forall>d. evolves (adds appends) (pt_runbook P d)) \<and>
     (\<forall>k. evolves (adds appends) (pt_env_mapping P k)) \<and>
     (\<forall>z. evolves (adds appends) (pt_dns_provider_for P z)) \<and>
     (\<forall>z. evolves (adds appends) (pt_origin_cert_issuer_for P z)))"

lemma sync_params_evolves:
  assumes "evolution R" and get: "\<And>n. evolves R (pt_ssm_get P n)" and put: "\<And>n v k. evolves R (pt_ssm_put P n v k)"
  shows "R s (snd (sync_params P t names kvs s))"
proof (induction kvs arbitrary: names s)
  case Nil
  show ?case by (simp add: evolution.R_refl [OF assms(1)])
next
  case (Cons kv kvs)
  obtain key v where kv: "kv = (key, v)" by fastforce
  let ?n = "pt_param_name P t key"
  obtain r1 s1 where g: "pt_ssm_get P ?n s = (r1, s1)" by fastforce
  obtain r2 s2 where p: "pt_ssm_put P ?n v (t_pk t) s1 = (r2, s2)" by fastforce
  have "R s s1" using get g unfolding evolves_def by (metis snd_conv)
  moreover have "R s s2" using put p evolution.R_trans [OF assms(1) \<open>R s s1\<close>] unfolding evolves_def by (metis snd_conv)
  ultimately have "R s (snd (sync_params P t (names @ [?n]) kvs s1))" "R s (snd (sync_params P t (names @ [?n]) kvs s2))"
    using Cons.IH evolution.R_trans [OF assms(1)] by blast+
  with \<open>R s s1\<close> \<open>R s s2\<close> Cons.IH show ?case
    by (auto simp: kv g p Let_def split: sum.split)
qed

lemma put_ssm_pull_evolves:
  assumes "evolution R" "\<And>t. evolves R (pt_ssm_for P t)" "\<And>n. evolves R (pt_ssm_get P n)"
    "\<And>n v k. evolves R (pt_ssm_put P n v k)" "\<And>t ns r. evolves R (pt_ssm_fail P t ns r)"
  shows "evolves R (put_ssm_pull P d)"
proof -
  note rules = evolution.ev_rules [OF assms(1)]
  have "evolves R (\<lambda>s. case sync_params P t [] (ds_env_mapping d) s of
            (Inr _, s1) \<Rightarrow> (Inr (), s1)
          | (Inl (e, names), s1) \<Rightarrow>
              andThen (pt_ssm_fail P t (if names = [] then sort (map fst (ds_env_mapping d)) else names) (exn_class e))
                (throw (if is_ssm_error e then e else SsmError ''SSM parameter sync failed'')) s1)" for t
    unfolding evolves_def
  proof
    fix s
    obtain r u where ru: "sync_params P t [] (ds_env_mapping d) s = (r, u)" by fastforce
    with sync_params_evolves [OF assms(1,3,4), of s t "[]" "ds_env_mapping d"] have "R s u" by simp
    moreover have "evolves R (andThen (pt_ssm_fail P t ns c) (throw e))" for ns c e
      by (intro rules assms(5))
    ultimately have "R s (snd (andThen (pt_ssm_fail P t ns c) (throw e) u))" for ns c e
      using evolution.R_trans [OF assms(1)] unfolding evolves_def by blast
    with \<open>R s u\<close> ru show "R s (snd (case sync_params P t [] (ds_env_mapping d) s of
            (Inr _, s1) \<Rightarrow> (Inr (), s1)
          | (Inl (e, names), s1) \<Rightarrow>
              andThen (pt_ssm_fail P t (if names = [] then sort (map fst (ds_env_mapping d)) else names) (exn_class e))
                (throw (if is_ssm_error e then e else SsmError ''SSM parameter sync failed'')) s1))"
      by (cases r) (auto simp: split_beta)
  qed
  then show ?thesis unfolding put_ssm_pull_def by (intro rules assms(2,5))
qed

lemma put_env_file_appends: "ports_append P \<Longrightarrow> evolves (adds appends) (put_env_file w P d)"
  unfolding put_env_file_def
  by (intro issue.ev_rules issues put_ssm_pull_evolves issue.evolution_axioms) (simp_all add: ports_append_def appends_def)

text \<open>The program from the moment the old writer has been stopped.\<close>

definition run_new :: "world \<Rightarrow> ports \<Rightarrow> desired \<Rightarrow> string \<Rightarrow> string act" where
  "run_new w P d name = bnd (put_env_file w P d) (\<lambda>d'.
     bnd (of_sum (docker_run_argv d' name)) (\<lambda>argv.
     bnd (run_cmd w (ds_heartbeat d) argv) (\<lambda>r.
     andThen (expect_ok ''docker run'' r) (ret ''started''))))"

lemma run_new_appends: "ports_append P \<Longrightarrow> evolves (adds appends) (run_new w P d name)"
  unfolding run_new_def
  by (intro issue.ev_rules issues put_env_file_appends) (simp_all add: appends_def)

lemma start_from_recreate:
  "deploy_strategy_of d = JStr ''recreate'' \<Longrightarrow>
   start_from w P d name None = andThen (stop_old_writer w d name) (run_new w P d name)"
  by (simp add: start_from_def run_new_def when_do_def)

lemma total_of_raises: "raises m (\<lambda>_. False) \<Longrightarrow> \<exists>x. m s = (Inr x, snd (m s))"
  unfolding raises_def by (metis prod.collapse sum.exhaust_sel sum.collapse(1) sum.collapse(2))

lemma touch_heartbeat_total: "touch_heartbeat w d s = (Inr (), snd (touch_heartbeat w d s))"
  using total_of_raises [OF touch_heartbeat_raises, of w d s] by simp

lemma touch_heartbeat_calls: "calls (snd (touch_heartbeat w d s)) = calls s"
  using touch_heartbeat_unstamped unfolding evolves_def same_def by (metis unstamped_eqD(7))

lemma andThen_touch: "andThen (touch_heartbeat w d) n s = n (snd (touch_heartbeat w d s))"
  using andThen_Inr [of "touch_heartbeat w d" s "()"] touch_heartbeat_total by blast

lemma pulses_total:
  "\<exists>t. for_each xs (\<lambda>_. touch_heartbeat w d) s = (Inr (), t) \<and> calls t = calls s"
proof (induction xs arbitrary: s)
  case Nil
  show ?case by (simp add: ret_def)
next
  case (Cons x xs)
  let ?u = "snd (touch_heartbeat w d s)"
  obtain t where "for_each xs (\<lambda>_. touch_heartbeat w d) ?u = (Inr (), t)" "calls t = calls ?u"
    using Cons.IH by blast
  then show ?case
    by (simp add: touch_heartbeat_calls andThen_touch)
qed

text \<open>A command is issued exactly once, and its result is the answer of the target.\<close>

lemma run_cmd_eff:
  "\<exists>t. run_cmd w hb argv s = (w_shell w (calls s @ [Run argv]), t) \<and> calls t = calls s @ [Run argv]"
proof (cases hb)
  case None
  then show ?thesis by (simp add: run_cmd_def transport_run_def shell_call_def Let_def)
next
  case (Some d)
  let ?u = "snd (touch_heartbeat w d s)"
  let ?v = "?u\<lparr>calls := calls ?u @ [Run argv]\<rparr>"
  obtain t where t: "for_each (replicate (w_pulses w (calls ?v)) ()) (\<lambda>_. touch_heartbeat w d) ?v = (Inr (), t)"
    "calls t = calls ?v" using pulses_total by blast
  have "run_cmd w hb argv s = try_finally (transport_run w argv)
      (bnd (gets (\<lambda>s. w_pulses w (calls s))) (\<lambda>n. for_each (replicate n ()) (\<lambda>_. touch_heartbeat w d))) ?u"
    using Some by (simp add: run_cmd_def andThen_touch)
  also have "\<dots> = (w_shell w (calls s @ [Run argv]), t)"
    using t by (simp add: try_finally_def transport_run_def shell_call_def Let_def touch_heartbeat_calls)
  finally show ?thesis using t(2) by (simp add: touch_heartbeat_calls)
qed

definition inspect_running :: "string \<Rightarrow> string list" where
  "inspect_running c = [''docker'', ''inspect'', ''--format'', ''{{.State.Running}}'', c]"

lemma container_running_eff:
  "w_shell w (calls s @ [Probe (inspect_running c)]) = Inr r \<Longrightarrow>
   container_running w c s =
     (Inr (if result_ok r then Some (lower (strip (stdout r)) \<in> {''true'', ''running'', ''1''}) else None),
      s\<lparr>calls := calls s @ [Probe (inspect_running c)]\<rparr>)"
  by (simp add: container_running_def inspect_running_def bnd_def transport_probe_def shell_call_def Let_def ret_def)

lemma set_maintenance_eff:
  "warmup_timeout_s d = Inr k \<Longrightarrow>
   \<exists>u. (case ds_site d of None \<Rightarrow> ret () | Some site \<Rightarrow> set_maintenance_until w site d) s = (Inr (), u) \<and> calls u = calls s"
  by (cases "ds_site d") (simp_all add: ret_def set_maintenance_until_def bnd_def timezone_now_def save_site_def modify_def)

lemma stop_old_writer_eff:
  assumes "ds_old_container d = Some old" "old \<noteq> []" "old \<noteq> name" "warmup_timeout_s d = Inr k"
    "w_shell w (calls s @ [Probe (inspect_running old)]) = Inr r" "result_ok r" "lower (strip (stdout r)) = ''true''"
  shows "\<exists>u. stop_old_writer w d name s =
      (bnd (of_sum (w_shell w (calls s @ [Probe (inspect_running old), Run [''docker'', ''stop'', old]])))
        (expect_ok ''docker stop'') u) \<and>
    calls u = calls s @ [Probe (inspect_running old), Run [''docker'', ''stop'', old]]"
proof -
  obtain u where u: "(case ds_site d of None \<Rightarrow> ret () | Some site \<Rightarrow> set_maintenance_until w site d) s = (Inr (), u)"
    "calls u = calls s" using set_maintenance_eff [OF assms(4)] by blast
  let ?v = "u\<lparr>calls := calls u @ [Probe (inspect_running old)]\<rparr>"
  obtain t where t: "run_cmd w (ds_heartbeat d) [''docker'', ''stop'', old] ?v =
      (w_shell w (calls ?v @ [Run [''docker'', ''stop'', old]]), t)"
    "calls t = calls ?v @ [Run [''docker'', ''stop'', old]]"
    using run_cmd_eff by blast
  have run: "container_running w old u = (Inr (Some True), ?v)"
    using container_running_eff [of w u old r] assms(5-7) u(2) by simp
  have "stop_old_writer w d name s = bnd (container_running w old) (\<lambda>running.
            if running = Some True
            then bnd (run_cmd w (ds_heartbeat d) [''docker'', ''stop'', old]) (expect_ok ''docker stop'')
            else ret ()) u"
    using assms(1-3) u(1) by (simp add: stop_old_writer_def andThen_def bnd_def)
  also have "\<dots> = bnd (run_cmd w (ds_heartbeat d) [''docker'', ''stop'', old]) (expect_ok ''docker stop'') ?v"
    using run by (simp add: bnd_def [of "container_running w old"])
  also have "\<dots> = bnd (of_sum (w_shell w (calls ?v @ [Run [''docker'', ''stop'', old]]))) (expect_ok ''docker stop'') t"
    using t(1) by (simp add: bnd_def of_sum_def ret_def throw_def split: sum.split)
  finally show ?thesis using t(2) u(2) by auto
qed

section \<open>What every step leaves alone\<close>

text \<open>
  The hub without the columns and tables a step may write: heartbeat stamps, the records of calls, the
  volume and DNS rows, the maintenance mark of sites, findings and the journals.
\<close>

definition core_state :: "hub \<Rightarrow> hub" where
  "core_state s = (unstamped s)\<lparr>calls := [], dns_calls := [], tls_app_cache := None, site_volumes := [],
     dns_records := [], sites := map (\<lambda>r. r\<lparr>s_maintenance_until := None\<rparr>) (sites s),
     findings := [], audits := [], chain_heads := [], stream := [], tls_certificates := [], secrets := [], dek_cache := []\<rparr>"

definition step_row :: "nat \<Rightarrow> nat \<Rightarrow> deployment_step \<Rightarrow> bool" where
  "step_row d q r = (st_deployment r = d \<and> st_seq r = q)"

text \<open>The same, with status and artifacts of the step that runs wiped too.\<close>

definition step_core :: "nat \<Rightarrow> nat \<Rightarrow> hub \<Rightarrow> hub" where
  "step_core d q s = (core_state s)\<lparr>dsteps := map (\<lambda>r. if step_row d q r
     then r\<lparr>st_status := StPending, st_artifacts := []\<rparr> else r) (dsteps s)\<rparr>"

text \<open>The collaborators write neither deployments, steps, locks, targets nor manifests.\<close>

definition ports_keep :: "ports \<Rightarrow> bool" where
  "ports_keep P = ((\<forall>d. evolves (same core_state) (pt_cert P d)) \<and> (\<forall>t. evolves (same core_state) (pt_ssm_for P t)) \<and>
     (\<forall>n. evolves (same core_state) (pt_ssm_get P n)) \<and> (\<forall>n v k. evolves (same core_state) (pt_ssm_put P n v k)) \<and>
     (\<forall>t ns r. evolves (same core_state) (pt_ssm_fail P t ns r)) \<and> (\<forall>d. evolves (same core_state) (pt_runbook P d)) \<and>
     (\<forall>k. evolves (same core_state) (pt_env_mapping P k)) \<and>
     (\<forall>z. evolves (same core_state) (pt_dns_provider_for P z)) \<and>
     (\<forall>z. evolves (same core_state) (pt_origin_cert_issuer_for P z)))"

lemma core_step_core:
  assumes "evolves (same core_state) m"
  shows "evolves (same (step_core d q)) m"
proof -
  have "step_core d q s = (\<lambda>c. c\<lparr>dsteps := map (\<lambda>r. if step_row d q r
     then r\<lparr>st_status := StPending, st_artifacts := []\<rparr> else r) (dsteps c)\<rparr>) (core_state s)" for s
    by (simp add: step_core_def core_state_def unstamped_def)
  with assms show ?thesis unfolding evolves_def same_def by simp
qed

lemma ports_cores:
  assumes "ports_keep P"
  shows "evolves (same (step_core d q)) (pt_cert P x)" "evolves (same (step_core d q)) (pt_ssm_for P t)"
    "evolves (same (step_core d q)) (pt_ssm_get P n)" "evolves (same (step_core d q)) (pt_ssm_put P n v k)"
    "evolves (same (step_core d q)) (pt_ssm_fail P t ns r)" "evolves (same (step_core d q)) (pt_runbook P x)"
    "evolves (same (step_core d q)) (pt_env_mapping P k)" "evolves (same (step_core d q)) (pt_dns_provider_for P z)"
    "evolves (same (step_core d q)) (pt_origin_cert_issuer_for P z)"
  using assms unfolding ports_keep_def by (blast intro: core_step_core)+

lemma step_core_unstamped: "step_core d q (unstamped s) = step_core d q s"
  by (simp add: step_core_def core_state_def unstamped_def comp_def)

lemma clock_cores [cores]:
  "evolves (same (step_core d q)) (timezone_now w)"
  "evolves (same (step_core d q)) (monotonic_now w)"
  by (rule timezone_now_frame monotonic_now_frame, simp add: step_core_def core_state_def unstamped_def)+

lemma touch_cores [cores]: "evolves (same (step_core d q)) (touch_heartbeat w k)"
  using touch_heartbeat_unstamped by (rule unstamped_weaken) (rule step_core_unstamped)

lemma call_cores [cores]:
  "evolves (same (step_core d q)) (transport_run w argv)"
  "evolves (same (step_core d q)) (transport_probe w argv)"
  "evolves (same (step_core d q)) (dns_list_records w z)"
  "evolves (same (step_core d q)) (dns_upsert_record w z nm rt vs pr)"
  by (simp_all add: step_core_def core_state_def unstamped_def evolves_def same_def transport_run_def
      transport_probe_def shell_call_def Let_def dns_list_records_def dns_upsert_record_def)

lemma sum_cores [cores]:
  "evolves (same f) (of_sum r)" "evolves (same f) (expect_ok what res)"
  by (auto simp: evolves_def same_def of_sum_def expect_ok_def ret_def throw_def split: sum.split)

lemma put_cores [cores]: "evolves (same (step_core d q)) (transport_put w c r m)"
  unfolding transport_put_def
  by (intro frame.ev_rules shell_call_frame) (simp add: step_core_def core_state_def unstamped_def)

lemma write_cores [cores]:
  "evolves (same (step_core d q)) (upsert_site_volume k v)"
  "evolves (same (step_core d q)) (upsert_dns_row k nm rt x)"
  "evolves (same (step_core d q)) (modify (\<lambda>s. s\<lparr>tls_app_cache := y\<rparr>))"
  unfolding upsert_site_volume_def upsert_dns_row_def
  by (rule modify_frame, simp add: step_core_def core_state_def unstamped_def Let_def)+

lemma save_step_cores:
  assumes "\<And>r. step_row d q r \<Longrightarrow> (f r)\<lparr>st_status := StPending, st_artifacts := []\<rparr> = r\<lparr>st_status := StPending, st_artifacts := []\<rparr>"
    "\<And>r. step_row d q r \<Longrightarrow> step_row d q (f r)"
  shows "evolves (same (step_core d q)) (save_step d q f)"
  unfolding save_step_def
  by (rule modify_frame) (use assms in \<open>auto simp: step_core_def core_state_def unstamped_def upd_rows_def step_row_def\<close>)

lemma maintenance_cores [cores]: "evolves (same (step_core d q)) (set_maintenance_until w site x)"
  unfolding set_maintenance_until_def save_site_def
  by (intro frame.ev_rules cores modify_frame)
    (simp add: step_core_def core_state_def unstamped_def upd_rows_def comp_def if_distrib cong: if_cong)

lemma beat_cores [cores]: "evolves (same (step_core d q)) (beat w hb)"
  unfolding beat_def by (intro frame.ev_rules cores)

lemma run_cmd_cores [cores]: "evolves (same (step_core d q)) (run_cmd w hb argv)"
  unfolding run_cmd_def by (intro frame.ev_rules cores)

lemma ensure_hub_dir_cores [cores]: "evolves (same (step_core d q)) (ensure_hub_dir w u hb)"
  unfolding ensure_hub_dir_def by (intro frame.ev_rules cores)

lemma probe_cores [cores]:
  "evolves (same (step_core d q)) (image_present w tag)"
  "evolves (same (step_core d q)) (volume_present w n)"
  "evolves (same (step_core d q)) (container_running w c)"
  "evolves (same (step_core d q)) (healthz_payload w x)"
  unfolding image_present_def volume_present_def container_running_def healthz_payload_def
  by (intro frame.ev_rules cores)+

lemma field_cores [cores]:
  "evolves (same f) (argv_of v)" "evolves (same f) (payload_fields p)" "evolves (same f) (dns_fields rec)"
proof -
  show a: "evolves (same f) (argv_of v)" for v unfolding argv_of_def by (intro frame.ev_rules cores)
  show "evolves (same f) (payload_fields p)"
    unfolding payload_fields_def by (cases p) (auto intro: frame.ev_rules)
  show "evolves (same f) (dns_fields rec)"
    unfolding dns_fields_def by (cases rec) (auto intro!: frame.ev_rules a)
qed

lemma ensure_build_cores [cores]: "evolves (same (step_core d q)) (ensure_build w x)"
  unfolding ensure_build_def Let_def by (intro frame.ev_rules cores)

lemma ensure_ship_cores [cores]: "evolves (same (step_core d q)) (ensure_ship w x)"
  unfolding ensure_ship_def docker_load_image_def Let_def by (intro frame.ev_rules cores)

lemma ensure_volume_cores [cores]: "evolves (same (step_core d q)) (ensure_volume w x)"
  unfolding ensure_volume_def Let_def by (intro frame.ev_rules cores)

lemma run_hook_cores [cores]: "evolves (same (step_core d q)) (run_hook w x what h)"
  unfolding run_hook_def by (intro frame.ev_rules cores)

lemma ensure_migrate_cores:
  "ds_step x = Some st \<Longrightarrow> st_deployment st = d \<Longrightarrow> st_seq st = q \<Longrightarrow>
   evolves (same (step_core d q)) (ensure_migrate w x)"
  unfolding ensure_migrate_def
  by (simp add: frame.ev_ret) (intro impI frame.ev_rules cores save_step_cores; simp add: step_row_def)

lemma put_env_file_cores: "ports_keep P \<Longrightarrow> evolves (same (step_core d q)) (put_env_file w P x)"
  unfolding put_env_file_def Let_def
  by (intro frame.ev_rules cores put_ssm_pull_evolves frame.evolution_axioms ports_cores)

lemma stop_old_writer_cores [cores]: "evolves (same (step_core d q)) (stop_old_writer w x nm)"
  unfolding stop_old_writer_def by (intro frame.ev_rules cores)

lemma ensure_start_cores: "ports_keep P \<Longrightarrow> evolves (same (step_core d q)) (ensure_start w P x)"
  unfolding ensure_start_def start_from_def by (intro frame.ev_rules cores put_env_file_cores)

lemma poll_health_cores: "evolves (same (step_core d q)) (poll_health fuel w x deadline prev)"
proof (induction fuel arbitrary: prev)
  case 0
  show ?case by (simp add: frame.ev_throw)
next
  case (Suc fuel)
  show ?case unfolding poll_health.simps(2) by (intro frame.ev_rules cores Suc.IH)
qed

lemma ensure_health_check_cores [cores]: "evolves (same (step_core d q)) (ensure_health_check w x)"
  unfolding ensure_health_check_def by (intro frame.ev_rules cores poll_health_cores)

lemma ensure_dns_cores [cores]: "evolves (same (step_core d q)) (ensure_dns w x)"
  unfolding ensure_dns_def persist_dns_rows_def Let_def by (intro frame.ev_rules cores)

lemma probe_urls_cores: "evolves (same (step_core d q)) (probe_urls w urls)"
proof (induction urls)
  case Nil
  show ?case by (simp add: frame.ev_ret)
next
  case (Cons u urls)
  show ?case unfolding probe_urls.simps(2) by (intro frame.ev_rules cores Cons.IH)
qed

lemma put_caddy_cores [cores]: "evolves (same (step_core d q)) (put_caddy_origin_certs w x route)"
  unfolding put_caddy_origin_certs_def probe_caddy_tls_def caddy_put_def Let_def
  by (intro frame.ev_rules cores)

lemma ensure_route_tls_cores: "ports_keep P \<Longrightarrow> evolves (same (step_core d q)) (ensure_route_tls w P x)"
  unfolding ensure_route_tls_def probe_caddy_route_def caddy_put_def Let_def
  by (intro frame.ev_rules cores probe_urls_cores ports_cores)

lemma ensure_smoke_cores [cores]: "evolves (same (step_core d q)) (ensure_smoke w x)"
  unfolding ensure_smoke_def caddy_smoke_payload_def ws_frame_def Let_def
  by (intro frame.ev_rules cores)

lemma ensure_cutover_cores:
  "ds_step x = Some st \<Longrightarrow> st_deployment st = d \<Longrightarrow> st_seq st = q \<Longrightarrow>
   evolves (same (step_core d q)) (ensure_cutover w x)"
  unfolding ensure_cutover_def cutover_ready_def stop_for_cutover_def
  by (intro frame.ev_rules cores) (auto intro!: frame.ev_rules cores save_step_cores simp: step_row_def)

section \<open>Properties\<close>

definition sample_desired :: desired where
  "sample_desired = \<lparr>ds_site = None, ds_target = None, ds_site_slug = ''shop'', ds_deployment_id = 5,
     ds_body = [], ds_git_sha = ''abc'', ds_source_dir = ''/src'', ds_image_tag = Some ''abc-1'',
     ds_heartbeat = None, ds_old_container = Some ''site-shop-4'', ds_zone = ''example.test'',
     ds_dns_zone = None, ds_domain = ''shop.example.test'', ds_dns_values = [''203.0.113.7''],
     ds_dns_proxied = True, ds_internal_port = 20000, ds_docker_run_extra = JNull, ds_env_names = [],
     ds_firewall_argv = [], ds_upstream = JNull, ds_dockerfile = None, ds_caddy_route = JNull,
     ds_dns_set = JNull, ds_env_mapping = [(''DATABASE_URL'', ''postgres://secret'')], ds_env_file = None,
     ds_tls_files = None, ds_step = None\<rparr>"

text \<open>Collaborators that do nothing.\<close>

definition quiet_ports :: ports where
  "quiet_ports = \<lparr>pt_cert = (\<lambda>_. ret None), pt_ssm_for = (\<lambda>_. ret ()), pt_param_name = (\<lambda>_ k. k),
     pt_ssm_get = (\<lambda>_. ret None), pt_ssm_put = (\<lambda>_ _ _. ret ()), pt_ssm_fail = (\<lambda>_ _ _. ret ()),
     pt_runbook = (\<lambda>_. ret ()), pt_env_mapping = (\<lambda>_. ret []),
     pt_dns_provider_for = (\<lambda>_. ret ()), pt_origin_cert_issuer_for = (\<lambda>_. ret ())\<rparr>"

lemma quiet_ports_keep: "ports_keep quiet_ports"
  by (simp add: ports_keep_def quiet_ports_def frame.ev_ret)

lemma quiet_ports_append: "ports_append quiet_ports"
  by (simp add: ports_append_def quiet_ports_def issue.ev_ret)

text \<open>
  Idempotence. When a build, ship or start step reports that it was skipped, it has sent no command
  that changes the target: it only probed.
\<close>

theorem skipped_step_changes_nothing:
  "(ensure_build w d s = (Inr ''skipped'', t) \<longrightarrow> mutating_calls t = mutating_calls s) \<and>
   (ensure_ship w d s = (Inr ''skipped'', t) \<longrightarrow> mutating_calls t = mutating_calls s) \<and>
   (ensure_start w P d s = (Inr ''skipped'', t) \<longrightarrow> mutating_calls t = mutating_calls s)"
  using ensure_build_skip ensure_ship_skip ensure_start_skip adds_mutating by blast

theorem skipped_step_changes_nothing_witness:
  "mutating_calls (snd (ensure_build calm_world sample_desired empty_hub)) = []"
proof -
  have "ensure_build calm_world sample_desired empty_hub =
      (Inr ''skipped'', empty_hub\<lparr>calls := [Probe [''docker'', ''image'', ''inspect'', ''abc-1'']]\<rparr>)"
    by (simp add: ensure_build_def image_present_def bnd_def transport_probe_def shell_call_def Let_def ret_def
        calm_world_def quiet_result_def result_ok_def desired_image_tag_def sample_desired_def)
  with skipped_step_changes_nothing [of calm_world sample_desired empty_hub _ quiet_ports] show ?thesis
    by (simp add: mutating_calls_def)
qed

text \<open>
  Volumes are only ever created. Every command of \<open>ensure_volume\<close> that changes the target creates one of
  the volumes of the site; the rollback variant sends no command and changes no row.
\<close>

theorem volumes_never_removed:
  "(\<exists>cs. mutating_calls (snd (ensure_volume w d s)) = mutating_calls s @ cs \<and>
     set cs \<subseteq> (\<lambda>v. Run [''docker'', ''volume'', ''create'', vs_name v]) ` set (volume_specs (ds_site_slug d) (ds_body d))) \<and>
   ensure_volume_rollback d s = (Inr ''refused'', s)"
proof -
  obtain cs where cs: "calls (snd (ensure_volume w d s)) = calls s @ cs"
    "list_all (\<lambda>c. mutating c \<longrightarrow> volume_create (volume_specs (ds_site_slug d) (ds_body d)) c) cs"
    using ensure_volume_adds [of d w] unfolding evolves_def adds_def by blast
  then have "mutating_calls (snd (ensure_volume w d s)) = mutating_calls s @ filter mutating cs"
    "set (filter mutating cs) \<subseteq> (\<lambda>v. Run [''docker'', ''volume'', ''create'', vs_name v]) `
       set (volume_specs (ds_site_slug d) (ds_body d))"
    by (auto simp: mutating_calls_def list_all_iff volume_create_def)
  then show ?thesis by (auto simp: ensure_volume_rollback_def ret_def)
qed



text \<open>
  DNS changes are differences. A public site's DNS step lists the zone once and then upserts only
  records whose values or proxy flag differ from that listing.
\<close>

theorem dns_upserts_are_differences:
  assumes "\<not> mesh_only d" "w_dns w (dns_calls s @ [DnsList (zone_of d)]) = Inr listed"
  shows "\<exists>cs. dns_calls (snd (ensure_dns w d s)) = dns_calls s @ DnsList (zone_of d) # cs \<and>
    list_all (\<lambda>c. \<exists>name rtype vals proxied. c = DnsUpsert (zone_of d) name rtype vals proxied \<and>
      \<not> dns_same (dns_current listed name rtype) vals proxied) cs"
proof -
  have "dns_difference (zone_of d) listed c \<Longrightarrow> \<exists>name rtype vals proxied. c = DnsUpsert (zone_of d) name rtype vals proxied \<and>
      \<not> dns_same (dns_current listed name rtype) vals proxied" for c
    by (cases c) (auto simp: dns_difference_def)
  moreover obtain cs where "dns_calls (snd (ensure_dns w d s)) = dns_calls s @ DnsList (zone_of d) # cs"
    "list_all (dns_difference (zone_of d) listed) cs"
    using ensure_dns_differences [OF assms] by blast
  ultimately show ?thesis unfolding list_all_iff by blast
qed

lemma sample_public: "\<not> mesh_only sample_desired" "zone_of sample_desired = ZoneName ''example.test''"
  by (simp_all add: mesh_only_def exposure_of_def sample_desired_def jget_def or_else_def Let_def zone_of_def)

theorem dns_upserts_are_differences_witness:
  "\<exists>cs. dns_calls (snd (ensure_dns calm_world sample_desired empty_hub)) = DnsList (ZoneName ''example.test'') # cs"
  using dns_upserts_are_differences [of sample_desired calm_world empty_hub "[]"] sample_public
  by (auto simp: calm_world_def)

text \<open>
  C37: The health check ends, and ends well only for a ready container. If the monotonic clock grows
  beyond every bound, a large enough number of polls is never exhausted: the check returns or raises
  (timeout, frozen checks, transport error). A payload it returns is one that says \<open>ready\<close>.
\<close>

theorem health_check_ends:
  assumes "\<forall>b. \<exists>n. \<forall>m \<ge> n. b \<le> w_monotonic w m" "\<not> transport_exn w polls_exhausted"
  shows "\<exists>n. \<forall>fuel \<ge> n. \<forall>r t. ensure_health_check (w\<lparr>w_poll_fuel := fuel\<rparr>) d s = (r, t) \<longrightarrow>
    r \<noteq> Inl polls_exhausted \<and> (\<forall>p. r = Inr p \<longrightarrow> truthy (jget (obj_fields p) ''ready''))"
proof -
  have err: "py_int v \<noteq> Inl polls_exhausted" for v
    by (cases v) (auto simp: polls_exhausted_def Let_def split: list.split)
  have ready: "yields (ensure_health_check w' d) (\<lambda>p. truthy (jget (obj_fields p) ''ready''))" for w'
    unfolding ensure_health_check_def by (intro yields_bnd poll_health_ready)
  show ?thesis
  proof (cases "warmup_timeout_s d")
    case (Inl e)
    then have "e \<noteq> polls_exhausted"
      using err by (auto simp: warmup_timeout_s_def Let_def split: if_splits option.splits)
    with Inl show ?thesis by (auto simp: ensure_health_check_def bnd_def throw_def)
  next
    case (Inr k)
    let ?deadline = "w_monotonic w (ticks s) + seconds k"
    obtain n where n: "\<And>m. m \<ge> n \<Longrightarrow> ?deadline \<le> w_monotonic w m" using assms(1) by blast
    have "fst (ensure_health_check (w\<lparr>w_poll_fuel := fuel\<rparr>) d s) \<noteq> Inl polls_exhausted" if "fuel \<ge> Suc n" for fuel
    proof -
      have "fst (poll_health fuel (w\<lparr>w_poll_fuel := fuel\<rparr>) d ?deadline None (s\<lparr>ticks := Suc (ticks s)\<rparr>)) \<noteq> Inl polls_exhausted"
        using n assms(2) that by (intro poll_health_ends [of n]) (simp_all add: transport_exn_def)
      then show ?thesis using Inr by (simp add: ensure_health_check_def bnd_def monotonic_now_def ret_def)
    qed
    with yieldsD [OF ready] show ?thesis by (metis fst_conv)
  qed
qed

theorem health_check_ends_witness:
  "\<exists>n. \<forall>fuel \<ge> n. fst (ensure_health_check (calm_world\<lparr>w_poll_fuel := fuel\<rparr>) sample_desired empty_hub) \<noteq> Inl polls_exhausted"
proof -
  have "\<exists>n. \<forall>m \<ge> n. b \<le> w_monotonic calm_world m" for b
    by (intro exI [of _ "nat b"]) (auto simp: calm_world_def seconds_def)
  moreover have "\<not> transport_exn calm_world polls_exhausted" by (simp add: transport_exn_def calm_world_def)
  ultimately show ?thesis
    using health_check_ends [of calm_world sample_desired empty_hub] by (metis prod.collapse)
qed

text \<open>
  No cutover without readiness. Unless the health endpoint of the new container answers ready, the
  cutover raises and sends no command that changes the target; and the only such command it ever sends
  stops the old container, which is kept for a rollback.
\<close>

theorem cutover_needs_ready:
  "((\<exists>u. cutover_ready w d s = (Inr True, u)) \<or>
    ((\<exists>e. fst (ensure_cutover w d s) = Inl e) \<and> mutating_calls (snd (ensure_cutover w d s)) = mutating_calls s)) \<and>
   (\<exists>cs. mutating_calls (snd (ensure_cutover w d s)) = mutating_calls s @ cs \<and>
     set cs \<subseteq> {Run [''docker'', ''stop'', old] | old. ds_old_container d = Some old})"
proof -
  obtain cs where cs: "calls (snd (ensure_cutover w d s)) = calls s @ cs" "list_all (\<lambda>c. mutating c \<longrightarrow> stop_old d c) cs"
    using ensure_cutover_adds [of d w] unfolding evolves_def adds_def by blast
  then have "mutating_calls (snd (ensure_cutover w d s)) = mutating_calls s @ filter mutating cs"
    "set (filter mutating cs) \<subseteq> {Run [''docker'', ''stop'', old] | old. ds_old_container d = Some old}"
    by (auto simp: mutating_calls_def list_all_iff stop_old_def)
  moreover have "(\<exists>u. cutover_ready w d s = (Inr True, u)) \<or>
    ((\<exists>e. fst (ensure_cutover w d s) = Inl e) \<and> mutating_calls (snd (ensure_cutover w d s)) = mutating_calls s)"
    using ensure_cutover_not_ready [of w d s] adds_mutating by blast
  ultimately show ?thesis by blast
qed

text \<open>
  Sibling certificates survive. When reading the edge's TLS object failed and nothing is remembered
  of it, the step refuses with an error and uploads nothing; otherwise every file it uploads is the
  merge of this site's pair into the object read (or remembered).
\<close>

theorem tls_put_refuses_or_merges:
  assumes "has_key route ''tls_connection_policies''" "origin_tls_files d = Some fs"
    "probe_caddy_tls w s = (Inr probed, u)"
  shows "if probed = None \<and> last_known_tls_app u = []
    then put_caddy_origin_certs w d route s = (Inl wipe_refused, u) \<and> mutating_calls u = mutating_calls s
    else \<exists>cs. calls (snd (put_caddy_origin_certs w d route s)) = calls u @ cs \<and>
      (\<forall>content remote mode. Put content remote mode \<in> set cs \<longrightarrow> content = dumps_canonical (JObj
        (merge_caddy_origin_tls (case probed of Some app \<Rightarrow> app | None \<Rightarrow> last_known_tls_app u) fs (site_tag d))))"
proof (cases "probed = None \<and> last_known_tls_app u = []")
  case True
  moreover have "mutating_calls u = mutating_calls s"
    using issue.evolvesD [OF probe_caddy_tls_adds assms(3), of "\<lambda>c. \<not> mutating c"] by (simp add: adds_mutating)
  ultimately show ?thesis using put_caddy_origin_certs_step [OF assms] by simp
next
  case False
  let ?live = "case probed of Some app \<Rightarrow> app | None \<Rightarrow> last_known_tls_app u"
  have "put_caddy_origin_certs w d route s = put_merged w d ?live fs u"
    using put_caddy_origin_certs_step [OF assms] False by (auto split: option.splits)
  then obtain cs where "calls (snd (put_caddy_origin_certs w d route s)) = calls u @ cs"
    "list_all (tls_upload ?live fs (site_tag d)) cs"
    using put_merged_adds [of ?live fs d w] unfolding evolves_def adds_def by metis
  moreover have "tls_upload ?live fs (site_tag d) (Put content remote mode) \<longleftrightarrow>
      content = dumps_canonical (JObj (merge_caddy_origin_tls ?live fs (site_tag d)))" for content remote mode
    by (simp add: tls_upload_def)
  ultimately show ?thesis unfolding if_not_P [OF False] list_all_iff by blast
qed

definition deaf_world :: world where
  "deaf_world = calm_world\<lparr>w_shell := (\<lambda>_. Inr \<lparr>exit_code = 7, stdout = [], stderr = ''timeout''\<rparr>)\<rparr>"

theorem tls_put_refuses_or_merges_witness:
  "fst (put_caddy_origin_certs deaf_world sample_desired [(''tls_connection_policies'', JArr [])] empty_hub) = Inl wipe_refused"
proof -
  have "\<not> is_space CHR ''t''" by (simp add: is_space_def)
  then have "strip ''timeout'' = ''timeout''" by (simp add: strip_def)
  then have "probe_caddy_tls deaf_world empty_hub = (Inr None, empty_hub\<lparr>calls := [Probe [''curl'', ''-s'', ''-w'',
      nl @ ''%{http_code}'', caddy_tls_admin_url]]\<rparr>)"
    by (simp add: probe_caddy_tls_def deaf_world_def calm_world_def bnd_def transport_probe_def shell_call_def
        split_status_def result_ok_def ret_def suffix_def)
  moreover have "origin_tls_files sample_desired = Some (tls_dir ''shop'' @ ''/cert.pem'', tls_dir ''shop'' @ ''/key.pem'')"
    using sample_public by (simp add: origin_tls_files_def sample_desired_def)
  ultimately show ?thesis
    using tls_put_refuses_or_merges [of "[(''tls_connection_policies'', JArr [])]" sample_desired _ deaf_world empty_hub None]
    by (simp add: has_key_def last_known_tls_app_def)
qed

text \<open>
  Recreate never runs two writers. With the recreate strategy, when the new container is absent and
  the old one runs, the first command that changes the target stops the old container; if that command
  fails, the step raises and sends nothing more.
\<close>

theorem recreate_stops_old_first:
  assumes "deploy_strategy_of d = JStr ''recreate''" "ds_old_container d = Some old" "old \<noteq> []"
    "old \<noteq> container_name d" "warmup_timeout_s d = Inr k"
    and absent: "w_shell w (calls s @ [Probe (inspect_running (container_name d))]) = Inr r1" "\<not> result_ok r1"
    and up: "w_shell w (calls s @ [Probe (inspect_running (container_name d)), Probe (inspect_running old)]) = Inr r2"
      "result_ok r2" "lower (strip (stdout r2)) = ''true''"
    and stop: "w_shell w (calls s @ [Probe (inspect_running (container_name d)), Probe (inspect_running old),
      Run [''docker'', ''stop'', old]]) = Inr r3"
    and "ports_append P"
  shows "\<exists>rest. mutating_calls (snd (ensure_start w P d s)) = mutating_calls s @ Run [''docker'', ''stop'', old] # rest \<and>
    (\<not> result_ok r3 \<longrightarrow> rest = [] \<and> fst (ensure_start w P d s) = Inl (RuntimeError (''docker stop failed: '' @ stderr r3)))"
proof -
  let ?name = "container_name d"
  let ?s = "s\<lparr>calls := calls s @ [Probe (inspect_running ?name)]\<rparr>"
  have "container_running w ?name s = (Inr None, ?s)"
    using container_running_eff [OF absent(1)] absent(2) by simp
  then have es: "ensure_start w P d s = andThen (stop_old_writer w d ?name) (run_new w P d ?name) ?s"
    using assms(1) by (simp add: ensure_start_def bnd_Inr start_from_recreate)
  obtain u where u: "stop_old_writer w d ?name ?s = expect_ok ''docker stop'' r3 u"
    "calls u = calls ?s @ [Probe (inspect_running old), Run [''docker'', ''stop'', old]]"
    using stop_old_writer_eff [OF assms(2-5), of w ?s r2] up stop by auto
  show ?thesis
  proof (cases "result_ok r3")
    case True
    then have "ensure_start w P d s = run_new w P d ?name u"
      using es u(1) by (simp add: expect_ok_def andThen_def bnd_def ret_def)
    moreover obtain cs where "calls (snd (run_new w P d ?name u)) = calls u @ cs"
      using run_new_appends [OF assms(12)] unfolding evolves_def adds_def by blast
    ultimately show ?thesis using u(2) True by (simp add: mutating_calls_def)
  next
    case False
    then have "ensure_start w P d s = (Inl (RuntimeError (''docker stop failed: '' @ stderr r3)), u)"
      using es u(1) by (simp add: expect_ok_def andThen_def bnd_def throw_def)
    then show ?thesis using u(2) by (simp add: mutating_calls_def)
  qed
qed

text \<open>A target on which the old container runs and the new one does not exist yet.\<close>

definition old_runs_world :: world where
  "old_runs_world = calm_world\<lparr>w_shell := (\<lambda>cs. Inr (
     if last cs = Probe (inspect_running ''site-shop-4'') then \<lparr>exit_code = 0, stdout = ''true'', stderr = []\<rparr>
     else if last cs = Probe (inspect_running ''site-shop-5'') then \<lparr>exit_code = 1, stdout = [], stderr = ''no such object''\<rparr>
     else quiet_result))\<rparr>"

definition recreate_desired :: desired where
  "recreate_desired = sample_desired\<lparr>ds_body := [(''local_state'', JBool True)]\<rparr>"

theorem recreate_stops_old_first_witness:
  "\<exists>rest. mutating_calls (snd (ensure_start old_runs_world quiet_ports recreate_desired empty_hub)) =
     Run [''docker'', ''stop'', ''site-shop-4''] # rest"
proof -
  have name: "container_name recreate_desired = ''site-shop-5''"
    by (simp add: container_name_def recreate_desired_def sample_desired_def str_nat.simps digit_def) (code_simp)
  have low: "lower (strip ''true'') = ''true''" by code_simp
  show ?thesis
    using recreate_stops_old_first [of recreate_desired "''site-shop-4''" 60 old_runs_world empty_hub
        "\<lparr>exit_code = 1, stdout = [], stderr = ''no such object''\<rparr>" "\<lparr>exit_code = 0, stdout = ''true'', stderr = []\<rparr>"
        quiet_result quiet_ports] quiet_ports_append
    by (simp add: name low old_runs_world_def inspect_running_def result_ok_def mutating_calls_def)
      (auto simp: recreate_desired_def sample_desired_def deploy_strategy_of_def jget_def warmup_timeout_s_def Let_def)
qed

end
