(* ===== verification/Addresses.thy ===== *)
theory Addresses
  imports Prelude "HOL-Library.Word"
begin

text \<open>
  IPv4 addresses as 32-bit words: what \<open>ipaddress.IPv4Address\<close> accepts and prints, membership in a
  network, and the address filters of \<open>deploys/overflow.py\<close> and \<open>deploys/pipeline.py\<close>.
\<close>

type_synonym ipv4 = "32 word"


section \<open>Reading and printing\<close>

text \<open>One octet: at most three decimal digits, no leading zero, at most 255.\<close>

definition parse_octet :: "string \<Rightarrow> int option" where
  "parse_octet x = (if x \<noteq> [] \<and> list_all is_digit x \<and> length x \<le> 3 \<and> (x = ''0'' \<or> hd x \<noteq> CHR ''0'') \<and>
     nat_of_digits x \<le> 255 then Some (int (nat_of_digits x)) else None)"

definition IPv4Address :: "string \<Rightarrow> ipv4 option" where
  "IPv4Address x = (case map parse_octet (split_char (CHR ''.'') x) of
     [Some a, Some b, Some c, Some d] \<Rightarrow> Some (of_int (((a * 256 + b) * 256 + c) * 256 + d))
   | _ \<Rightarrow> None)"

definition octets :: "ipv4 \<Rightarrow> int list" where
  "octets a = (let n = uint a in [n div 16777216 mod 256, n div 65536 mod 256, n div 256 mod 256, n mod 256])"

definition str_ipv4 :: "ipv4 \<Rightarrow> string" where
  "str_ipv4 a = join ''.'' (map (\<lambda>n. str_nat (nat n)) (octets a))"

lemma split_char_plain: "c \<notin> set p \<Longrightarrow> split_char c p = [p]"
  by (induction p) auto

lemma split_char_step: "c \<notin> set p \<Longrightarrow> split_char c (p @ c # q) = p # split_char c q"
  by (induction p) auto

lemma parse_octet_str: "n \<le> 255 \<Longrightarrow> parse_octet (str_nat n) = Some (int n)"
proof -
  assume n: "n \<le> 255"
  have short: "length (str_nat n) \<le> 3" using n
    by (simp add: str_nat.simps [of n] str_nat.simps [of "n div 10"] str_nat.simps [of "n div 10 div 10"])
  have lead: "str_nat m = ''0'' \<or> hd (str_nat m) \<noteq> CHR ''0''" for m
  proof (induction m rule: str_nat.induct)
    case (1 m)
    have digit0: "digit k = CHR ''0'' \<longleftrightarrow> k = 0" if "k < 10" for k
    proof -
      have "(of_char (digit k) :: nat) = of_char (CHR ''0'') \<longleftrightarrow> k = 0" using that by simp
      then show ?thesis by (simp only: of_char_eq_iff)
    qed
    show ?case
    proof (cases "m < 10")
      case True
      then show ?thesis using digit0 [of m] by (auto simp: str_nat.simps [of m])
    next
      case False
      then have "m div 10 \<noteq> 0" by auto
      then have "str_nat (m div 10) \<noteq> ''0''"
        using nat_of_str_nat [of "m div 10"] by (auto simp: nat_of_digits_def)
      with "1.IH" False show ?thesis by (simp add: str_nat.simps [of m])
    qed
  qed
  show ?thesis using n short lead [of n] digits_str_nat [of _ n]
    by (simp add: parse_octet_def list_all_iff)
qed

lemma dot_not_digits: "CHR ''.'' \<notin> set (str_nat n)"
  using digits_str_nat [of "CHR ''.''" n] by (auto simp: is_digit_def)

lemma octets_value:
  "((n div 16777216 mod 256 * 256 + n div 65536 mod 256) * 256 + n div 256 mod 256) * 256 + n mod 256 = n"
  if "0 \<le> n" "n < 4294967296" for n :: int
proof -
  have "n div 16777216 mod 256 = n div 16777216" using that by (intro mod_pos_pos_trivial) (simp_all add: div_less_iff_less_mult pos_imp_zdiv_nonneg_iff)
  moreover have "n div 16777216 = n div 65536 div 256" "n div 65536 = n div 256 div 256" by (simp_all add: zdiv_zmult2_eq [symmetric])
  ultimately show ?thesis by (metis div_mult_mod_eq)
qed

lemma IPv4Address_str: "IPv4Address (str_ipv4 a) = Some a"
proof -
  let ?n = "uint a"
  let ?v = "((?n div 16777216 mod 256 * 256 + ?n div 65536 mod 256) * 256 + ?n div 256 mod 256) * 256 + ?n mod 256"
  have n: "0 \<le> ?n" "?n < 2 ^ LENGTH(32)" by (rule unsigned_greater_eq, rule unsigned_less)
  have octet: "parse_octet (str_nat (nat (k mod 256))) = Some (k mod 256)" for k :: int
    by (subst parse_octet_str) simp_all
  have parts: "map parse_octet (split_char (CHR ''.'') (str_ipv4 a)) = [Some (?n div 16777216 mod 256),
      Some (?n div 65536 mod 256), Some (?n div 256 mod 256), Some (?n mod 256)]"
    by (simp only: str_ipv4_def octets_def Let_def list.map join.simps append.simps append_assoc
        split_char_step [OF dot_not_digits] split_char_plain [OF dot_not_digits] octet)
  have "?n < 4294967296" using n(2) by simp
  then have "?v = ?n" using n(1) by (rule octets_value [rotated])
  then have "of_int ?v = a" by (simp only: of_int_uint ucast_id)
  with parts show ?thesis by (simp only: IPv4Address_def list.case option.case)
qed


lemma str_nat_of_digits:
  "x \<noteq> [] \<Longrightarrow> list_all is_digit x \<Longrightarrow> x = ''0'' \<or> hd x \<noteq> CHR ''0'' \<Longrightarrow> str_nat (nat_of_digits x) = x"
proof (induction x rule: rev_induct)
  case (snoc c x)
  have c: "is_digit c" using snoc.prems by simp
  then obtain k where k: "c = digit k" "k < 10"
    by (intro that [of "of_char c - 48"]) (auto simp: is_digit_def digit_def Let_def)
  show ?case
  proof (cases "x = []")
    case True
    then show ?thesis using k by (simp add: nat_of_digits_def str_nat.simps)
  next
    case False
    with snoc.prems have h: "hd x \<noteq> CHR ''0''" by auto
    with snoc False have IH: "str_nat (nat_of_digits x) = x" by auto
    have "nat_of_digits x \<noteq> 0"
    proof
      assume "nat_of_digits x = 0"
      with IH have "x = [digit 0]" by (simp add: str_nat.simps)
      moreover have "digit 0 = CHR ''0''" by code_simp
      ultimately show False using h by simp
    qed
    then show ?thesis using k IH by (simp add: nat_of_digits_snoc str_nat.simps [of "_ + _"])
  qed
qed simp

lemma join_split_char: "join [c] (split_char c x) = x"
proof (induction x)
  case (Cons a x)
  have "join [c] ((a # p) # ps) = a # join [c] (p # ps)" for p ps by (cases ps) simp_all
  with Cons show ?case by (cases "split_char c x") auto
qed simp

lemma octets_of_int:
  assumes "a \<in> {0..255}" "b \<in> {0..255}" "c \<in> {0..255}" "d \<in> {0..255}"
  shows "octets (of_int (((a * 256 + b) * 256 + c) * 256 + d)) = [a, b, c, d]"
proof -
  let ?n = "((a * 256 + b) * 256 + c) * 256 + d"
  have "0 \<le> ?n" "?n < 4294967296" using assms by auto
  then have "uint (of_int ?n :: ipv4) = ?n" by (subst uint_word_of_int) (simp only: len_num1 len_bit0, simp)
  moreover have byte: "(m * 256 + k) mod 256 = k" "(m * 256 + k) div 256 = m" if "k \<in> {0..255}" for m k :: int
    using that by auto
  moreover have "?n div 65536 = ?n div 256 div 256" "?n div 16777216 = ?n div 256 div 256 div 256" by (simp_all add: zdiv_zmult2_eq [symmetric])
  moreover have "a mod 256 = a" using assms(1) by auto
  ultimately show ?thesis using assms by (simp only: octets_def Let_def byte)
qed

lemma parse_octet_range: "parse_octet x = Some n \<Longrightarrow> n \<in> {0..255} \<and> str_nat (nat n) = x"
  by (auto simp: parse_octet_def str_nat_of_digits split: if_splits)

text \<open>No address has two spellings.\<close>

lemma str_IPv4Address:
  assumes "IPv4Address x = Some a"
  shows "str_ipv4 a = x"
proof -
  obtain p q r t where parts: "map parse_octet (split_char (CHR ''.'') x) = [Some p, Some q, Some r, Some t]"
    and a: "a = of_int (((p * 256 + q) * 256 + r) * 256 + t)"
    using assms by (auto simp: IPv4Address_def split: list.splits option.splits)
  from parts obtain x1 x2 x3 x4 where xs: "split_char (CHR ''.'') x = [x1, x2, x3, x4]"
    "parse_octet x1 = Some p" "parse_octet x2 = Some q" "parse_octet x3 = Some r" "parse_octet x4 = Some t"
    by (auto simp: map_eq_Cons_conv)
  have "octets a = [p, q, r, t]"
    unfolding a using xs(2-5)[THEN parse_octet_range] by (intro octets_of_int) simp_all
  then have "str_ipv4 a = join ''.'' [x1, x2, x3, x4]"
    using xs(2-5)[THEN parse_octet_range] by (simp add: str_ipv4_def)
  also have "\<dots> = x" using join_split_char [of "CHR ''.''" x] by (simp add: xs(1))
  finally show ?thesis .
qed


section \<open>Networks and filters\<close>

definition in_net :: "ipv4 \<Rightarrow> ipv4 \<Rightarrow> nat \<Rightarrow> bool" where
  "in_net a net p = (drop_bit (32 - p) a = drop_bit (32 - p) net)"

definition ip :: "int \<Rightarrow> int \<Rightarrow> int \<Rightarrow> int \<Rightarrow> ipv4" where
  "ip a b c d = of_int (((a * 256 + b) * 256 + c) * 256 + d)"

definition is_loopback :: "ipv4 \<Rightarrow> bool" where
  "is_loopback a = in_net a (ip 127 0 0 0) 8"

definition is_link_local :: "ipv4 \<Rightarrow> bool" where
  "is_link_local a = in_net a (ip 169 254 0 0) 16"

definition is_multicast :: "ipv4 \<Rightarrow> bool" where
  "is_multicast a = in_net a (ip 224 0 0 0) 4"

definition is_unspecified :: "ipv4 \<Rightarrow> bool" where
  "is_unspecified a = (a = 0)"

definition RFC1918 :: "(ipv4 \<times> nat) list" where
  "RFC1918 = [(ip 10 0 0 0, 8), (ip 172 16 0 0, 12), (ip 192 168 0 0, 16)]"

definition CGNAT :: "ipv4 \<times> nat" where
  "CGNAT = (ip 100 64 0 0, 10)"

text \<open>\<open>_joinable_ipv4\<close>: a public unicast address in canonical spelling, or nothing.\<close>

definition joinable_ipv4 :: "string \<Rightarrow> string option" where
  "joinable_ipv4 host = (case IPv4Address (strip host) of
     None \<Rightarrow> None
   | Some a \<Rightarrow>
       if is_loopback a \<or> is_link_local a \<or> is_multicast a \<or> is_unspecified a then None
       else if list_ex (\<lambda>(net, p). in_net a net p) RFC1918 \<or> in_net a (fst CGNAT) (snd CGNAT) then None
       else Some (str_ipv4 a))"

text \<open>\<open>all_some\<close>: every part reads as an address, as in the list comprehension under \<open>try\<close>.\<close>

fun all_some :: "'a option list \<Rightarrow> 'a list option" where
  "all_some [] = Some []"
| "all_some (None # xs) = None"
| "all_some (Some x # xs) = map_option (Cons x) (all_some xs)"

text \<open>The comma-joined addresses of a DNS row: nothing on any unreadable, loopback or link-local part.\<close>

definition joined_values :: "string \<Rightarrow> string list option" where
  "joined_values v =
     (let parts = filter (\<lambda>p. p \<noteq> []) (map strip (split_char (CHR '','') v)) in
      if strip v = [] \<or> parts = [] then None
      else case all_some (map IPv4Address parts) of
        None \<Rightarrow> None
      | Some addrs \<Rightarrow> if list_ex (\<lambda>a. is_loopback a \<or> is_link_local a) addrs then None
          else Some (map str_ipv4 addrs))"

lemma strip_no_space: "\<not> list_ex is_space x \<Longrightarrow> strip x = x"
proof -
  assume "\<not> list_ex is_space x"
  then have "dropWhile is_space x = x" "dropWhile is_space (rev x) = rev x"
    by (auto simp: dropWhile_eq_self_iff list_ex_iff hd_rev)
  then show ?thesis by (simp add: strip_def)
qed

lemma set_join: "set (join sep xs) \<subseteq> set sep \<union> \<Union>(set ` set xs)"
  by (induction sep xs rule: join.induct) auto

lemma strip_str_ipv4: "strip (str_ipv4 a) = str_ipv4 a"
proof -
  have "\<not> is_space c" if "c \<in> set (str_ipv4 a)" for c
  proof -
    have "c = CHR ''.'' \<or> is_digit c"
      using that set_join [of "''.''" "map (\<lambda>n. str_nat (nat n)) (octets a)"] digits_str_nat
      by (auto simp: str_ipv4_def)
    then show ?thesis by (auto simp: is_space_def is_digit_def Let_def)
  qed
  then show ?thesis by (auto simp: list_ex_iff intro!: strip_no_space)
qed

lemma all_some_Nil: "all_some ys = Some [] \<Longrightarrow> ys = []"
  by (cases ys rule: all_some.cases) auto

lemma joined_values_readable: "joined_values v = Some xs \<Longrightarrow> xs \<noteq> [] \<and> list_all (\<lambda>x. IPv4Address x \<noteq> None) xs"
proof -
  assume "joined_values v = Some xs"
  then show ?thesis
    by (auto simp: joined_values_def Let_def list_all_iff IPv4Address_str
        split: if_splits option.splits dest!: all_some_Nil)
qed

lemma joinable_ipv4_spelling: "joinable_ipv4 x = Some y \<Longrightarrow> y = strip x"
  by (auto simp: joinable_ipv4_def dest: str_IPv4Address split: option.splits if_splits)


section \<open>Properties\<close>

text \<open>
  What the overflow path may publish. An address accepted for a DNS record is the canonical spelling of
  an IPv4 address that is neither loopback, link-local, multicast, unspecified, private (RFC 1918) nor
  carrier-grade NAT; accepting the result again gives the same text.
\<close>

theorem published_addresses_are_public:
  assumes "joinable_ipv4 host = Some x"
  shows "joinable_ipv4 x = Some x \<and> (\<exists>a. IPv4Address x = Some a \<and> x = str_ipv4 a \<and>
    \<not> is_loopback a \<and> \<not> is_link_local a \<and> \<not> is_multicast a \<and> \<not> is_unspecified a \<and>
    list_all (\<lambda>(net, p). \<not> in_net a net p) (CGNAT # RFC1918))"
proof -
  obtain a where a: "x = str_ipv4 a" "\<not> is_loopback a" "\<not> is_link_local a" "\<not> is_multicast a" "\<not> is_unspecified a"
    "\<not> list_ex (\<lambda>(net, p). in_net a net p) RFC1918" "\<not> in_net a (fst CGNAT) (snd CGNAT)"
    using assms by (auto simp: joinable_ipv4_def split: option.splits if_splits)
  then have "list_all (\<lambda>(net, p). \<not> in_net a net p) (CGNAT # RFC1918)"
    by (auto simp: list_ex_iff list_all_iff split_beta)
  moreover have "joinable_ipv4 x = Some x"
    using a by (simp add: joinable_ipv4_def strip_str_ipv4 IPv4Address_str)
  ultimately show ?thesis using a IPv4Address_str [of a] by blast
qed

theorem published_addresses_are_public_witness:
  "joinable_ipv4 '' 9.9.9.9 '' = Some ''9.9.9.9'' \<and> joinable_ipv4 ''9.9.9.9'' = Some ''9.9.9.9'' \<and>
   joinable_ipv4 ''10.1.2.3'' = None"
proof -
  have "joinable_ipv4 '' 9.9.9.9 '' = Some ''9.9.9.9''" "joinable_ipv4 ''10.1.2.3'' = None" by code_simp+
  with published_addresses_are_public [of "'' 9.9.9.9 ''" "''9.9.9.9''"] show ?thesis by blast
qed

lemma comma_not_ipv4: "CHR '','' \<notin> set (str_ipv4 a)"
  using set_join [of "''.''" "map (\<lambda>n. str_nat (nat n)) (octets a)"] digits_str_nat
  by (fastforce simp: str_ipv4_def is_digit_def)

lemma str_ipv4_nonempty: "str_ipv4 a \<noteq> []"
  using IPv4Address_str [of a] by (auto simp: IPv4Address_def parse_octet_def)

lemma split_join_commas:
  "addrs \<noteq> [] \<Longrightarrow> split_char (CHR '','') (join '','' (map str_ipv4 addrs)) = map str_ipv4 addrs"
proof (induction addrs)
  case (Cons a as)
  then show ?case
    by (cases as) (simp_all add: split_char_plain split_char_step comma_not_ipv4)
qed simp

lemma all_some_map: "all_some (map Some xs) = Some xs"
  by (induction xs) simp_all

lemma joined_values_join:
  assumes "addrs \<noteq> []" "\<forall>a\<in>set addrs. \<not> is_loopback a \<and> \<not> is_link_local a"
  shows "joined_values (join '','' (map str_ipv4 addrs)) = Some (map str_ipv4 addrs)"
proof -
  let ?v = "join '','' (map str_ipv4 addrs)"
  have split: "split_char (CHR '','') ?v = map str_ipv4 addrs" using assms(1) by (rule split_join_commas)
  obtain a as where addrs: "addrs = a # as" using assms(1) by (cases addrs) auto
  have "strip ?v \<noteq> []"
  proof
    assume "strip ?v = []"
    then have "\<forall>c\<in>set (dropWhile is_space ?v). is_space c" by (simp add: strip_def)
    then have "\<forall>c\<in>set ?v. is_space c"
      by (metis Un_iff set_append set_takeWhileD takeWhile_dropWhile_id)
    moreover have "set (str_ipv4 a) \<subseteq> set ?v" by (cases as) (auto simp: addrs)
    ultimately have "strip (str_ipv4 a) = []" by (auto simp: strip_def dest!: set_dropWhileD)
    then show False by (simp add: strip_str_ipv4 str_ipv4_nonempty)
  qed
  moreover have "filter (\<lambda>p. p \<noteq> []) (map strip (map str_ipv4 addrs)) = map str_ipv4 addrs"
    by (simp add: strip_str_ipv4 str_ipv4_nonempty comp_def)
  moreover have "all_some (map IPv4Address (map str_ipv4 addrs)) = Some addrs"
    by (simp add: IPv4Address_str comp_def all_some_map)
  ultimately show ?thesis using assms by (auto simp: joined_values_def Let_def split list_ex_iff)
qed

text \<open>
  The comma-joined value that the DNS step stores for a set of origins is read back as exactly these
  addresses in this order, whatever the addresses are, as long as none is loopback or link-local.
\<close>

theorem joined_value_round_trip:
  assumes "addrs \<noteq> []" "\<forall>a\<in>set addrs. \<not> is_loopback a \<and> \<not> is_link_local a"
  shows "joined_values (join '','' (map str_ipv4 addrs)) = Some (map str_ipv4 addrs)"
  using assms by (rule joined_values_join)

theorem joined_value_round_trip_witness:
  "joined_values ''9.9.9.9,203.0.113.7'' = Some [''9.9.9.9'', ''203.0.113.7'']"
proof -
  have "str_ipv4 (ip 9 9 9 9) = ''9.9.9.9''" "str_ipv4 (ip 203 0 113 7) = ''203.0.113.7''" by code_simp+
  moreover have "\<not> is_loopback (ip 9 9 9 9)" "\<not> is_link_local (ip 9 9 9 9)"
    "\<not> is_loopback (ip 203 0 113 7)" "\<not> is_link_local (ip 203 0 113 7)" by code_simp+
  ultimately show ?thesis
    using joined_value_round_trip [of "[ip 9 9 9 9, ip 203 0 113 7]"] by simp
qed

end
