(* ===== verification/Pipeline.thy ===== *)
theory Pipeline
  imports Step_Facts Addresses
begin

text \<open>
  \<open>deploys/pipeline.py\<close>, \<open>deploys/seams.py\<close> and \<open>deploys/artifacts.py\<close>: the deployment state machine. A
  deployment takes the deploy locks of its site and target, persists nine steps, runs them in order,
  and ends succeeded or failed; a rollback is a new deployment that re-applies stored artifacts. The
  kill-matrix hook (environment variables that crash the worker in tests) is not part of the model.
\<close>


section \<open>Taking the locks\<close>

fun terminal :: "deployment_status \<Rightarrow> bool" where
  "terminal Queued = False"
| "terminal Running = False"
| "terminal Succeeded = True"
| "terminal Failed = True"
| "terminal Cancelled = True"
| "terminal Superseded = True"
| "terminal RolledBack = True"

definition set_status :: "nat \<Rightarrow> deployment_status \<Rightarrow> unit act" where
  "set_status d st = save_deployment d (\<lambda>r. r\<lparr>d_status := st\<rparr>)"

definition others_running :: "hub \<Rightarrow> nat \<Rightarrow> nat \<Rightarrow> deployment list" where
  "others_running s site except_pk = filter (\<lambda>r. deployment_site s r = Some site \<and> d_status r = Running \<and>
     d_pk r \<noteq> except_pk) (deployments s)"

definition supersede_running :: "nat \<Rightarrow> nat \<Rightarrow> unit act" where
  "supersede_running site except_pk =
     bnd (gets (\<lambda>s. others_running s site except_pk)) (\<lambda>others.
     for_each others (\<lambda>old. andThen (set_status (d_pk old) Superseded) (release_deploy_locks (d_pk old))))"

definition begin_deploy :: "world \<Rightarrow> deployment \<Rightarrow> nat option \<Rightarrow> bool act" where
  "begin_deploy w dep tgt =
     bnd (gets (\<lambda>s. Option.bind (deployment_site s dep) (site_by_pk s))) (\<lambda>found.
     case found of None \<Rightarrow> throw DoesNotExist
     | Some site \<Rightarrow>
       (case (case tgt of Some t \<Rightarrow> Some t | None \<Rightarrow> s_primary_target site) of
          None \<Rightarrow> ret False
        | Some target \<Rightarrow>
          let holder = str_nat (d_pk dep); site_id = str_nat (s_pk site) in
          andThen (supersede_running (s_pk site) (d_pk dep))
          (bnd (acquire w ScopeSite site_id KindDeploy holder) (\<lambda>site_lock.
           if site_lock = None then ret False
           else bnd (acquire w ScopeTarget (str_nat target) KindDeploy holder) (\<lambda>target_lock.
             if target_lock = None
             then andThen (release ScopeSite site_id KindDeploy (Some holder)) (ret False)
             else andThen (persist_steps (d_pk dep))
               (bnd (timezone_now w) (\<lambda>now.
                andThen (save_deployment (d_pk dep) (\<lambda>r. r\<lparr>d_status := Running, d_last_heartbeat := Some now\<rparr>))
                (ret True))))))))"


section \<open>Production seams\<close>

definition needs_origin_cert :: "site \<Rightarrow> bool" where
  "needs_origin_cert site = (if s_exposure site = MeshOnly then False else s_proxied site)"

definition missing_refs :: "site \<Rightarrow> string list" where
  "missing_refs site = (case s_dns_zone site of
     None \<Rightarrow> [''dns_zone'']
   | Some zone \<Rightarrow>
       (if a_dns_token_ref (dz_account zone) = [] then [''dns_token_ref''] else []) @
       (if needs_origin_cert site \<and> a_origin_ca_key_ref (dz_account zone) = [] then [''origin_ca_key_ref''] else []))"

definition refuse_seams :: "world \<Rightarrow> site \<Rightarrow> string list \<Rightarrow> unit act" where
  "refuse_seams w site missing = (let names = join '', '' missing in
     bnd (finding w ''deploys'' (''deploy-seam:'' @ str_nat (s_pk site)) (Some (s_workspace site))
       \<lparr>ff_severity = P2, ff_entity = ''site:'' @ s_name site, ff_title = ''Deploy refused: missing '' @ names,
        ff_body = ''Site '' @ s_name site @ '' cannot deploy without '' @ names @
          ''. Settings-connect stores a DNS token only; Origin certificates '' @
          ''require origin_ca_key_ref on the DnsAccount (vault) planted as a '' @
          ''Bearer token with Zone SSL and Certificates Edit. The pipeline '' @
          ''refuses rather than using an in-memory Fake.'',
        ff_fix_action = ''Set '' @ names @ '' on the DnsAccount in the vault. '' @
          ''Settings-connect does not accept an Origin CA token; plant a '' @
          ''Bearer token with Zone SSL and Certificates Edit.''\<rparr>)
     (\<lambda>_. throw (DeploySeamRefused (''missing '' @ names))))"

definition resolve_production_seams :: "world \<Rightarrow> ports \<Rightarrow> site \<Rightarrow> unit act" where
  "resolve_production_seams w P site =
     (if s_exposure site = MeshOnly then ret ()
      else if missing_refs site \<noteq> [] then refuse_seams w site (missing_refs site)
      else case s_dns_zone site of None \<Rightarrow> ret ()
        | Some zone \<Rightarrow> andThen (pt_dns_provider_for P zone)
            (when_do (needs_origin_cert site) (pt_origin_cert_issuer_for P zone)))"

text \<open>Injected seams (\<open>dns=\<close> or \<open>cert_issuer=\<close> given) bypass the factory.\<close>

definition resolve_seams :: "world \<Rightarrow> ports \<Rightarrow> bool \<Rightarrow> site \<Rightarrow> unit act" where
  "resolve_seams w P injected site = (if injected then ret () else resolve_production_seams w P site)"


section \<open>History and the desired state\<close>

text \<open>Succeeded deployments of the same site except this one, newest first.\<close>

definition succeeded_history :: "hub \<Rightarrow> deployment \<Rightarrow> deployment list" where
  "succeeded_history s dep = rev (sort_key d_pk (filter (\<lambda>r. deployment_site s r = deployment_site s dep \<and>
     d_status r = Succeeded \<and> d_pk r \<noteq> d_pk dep) (deployments s)))"

definition previous_succeeded :: "hub \<Rightarrow> deployment \<Rightarrow> deployment option" where
  "previous_succeeded s dep = (case succeeded_history s dep of [] \<Rightarrow> None | r # _ \<Rightarrow> Some r)"

definition build_skipped :: "hub \<Rightarrow> deployment \<Rightarrow> bool" where
  "build_skipped s dep = (\<exists>r \<in> set (dsteps s). st_deployment r = d_pk dep \<and> st_name r = Build \<and> st_status r = StSkipped)"

definition stored_image_tag :: "hub \<Rightarrow> deployment \<Rightarrow> string option" where
  "stored_image_tag s dep =
     (case find (\<lambda>r. da_deployment r = d_pk dep \<and> da_kind r = ''image_tag'') (artifacts s) of
        None \<Rightarrow> None | Some row \<Rightarrow> let tag = strip (da_content row) in if tag = [] then None else Some tag)"

definition walk_to_built_deploy :: "hub \<Rightarrow> deployment \<Rightarrow> deployment option" where
  "walk_to_built_deploy s dep = find (\<lambda>row.
     case find (\<lambda>r. st_deployment r = d_pk row \<and> st_name r = Build) (dsteps s) of
       None \<Rightarrow> True | Some build \<Rightarrow> st_status build \<noteq> StSkipped) (succeeded_history s dep)"

definition body_of :: "hub \<Rightarrow> deployment \<Rightarrow> (string \<times> json) list" where
  "body_of s dep = (case manifest_by_pk s (d_manifest dep) of None \<Rightarrow> [] | Some m \<Rightarrow> obj_fields (mf_body m))"

definition text_or :: "json \<Rightarrow> string \<Rightarrow> string" where
  "text_or v dflt = (if truthy v then py_str v else dflt)"

definition pin_from_succeeded_history :: "world \<Rightarrow> hub \<Rightarrow> deployment \<Rightarrow> string \<Rightarrow> string \<times> string" where
  "pin_from_succeeded_history w s dep fallback_sha =
     (let from_built = (case walk_to_built_deploy s dep of
           None \<Rightarrow> (fallback_sha, image_tag w fallback_sha (body_of s dep))
         | Some built \<Rightarrow> let body = body_of s built; sha = text_or (jget body ''git_sha'') fallback_sha in
             (sha, case stored_image_tag s built of Some t \<Rightarrow> t | None \<Rightarrow> image_tag w sha body))
      in case previous_succeeded s dep of
           None \<Rightarrow> from_built
         | Some prev \<Rightarrow> (case stored_image_tag s prev of
             None \<Rightarrow> from_built
           | Some stored \<Rightarrow> (text_or (jget (body_of s prev) ''git_sha'') fallback_sha, stored)))"

definition DEFAULT_GIT_SHA :: string where
  "DEFAULT_GIT_SHA = replicate 40 (CHR ''a'')"

text \<open>The artifacts of the deployment that is rolled back, by kind; the last row of a kind counts.\<close>

definition rollback_artifact :: "hub \<Rightarrow> deployment \<Rightarrow> string \<Rightarrow> string option" where
  "rollback_artifact s dep kind = (case d_rollback_of dep of None \<Rightarrow> None
     | Some k \<Rightarrow> map_option da_content (find (\<lambda>r. da_deployment r = k \<and> da_kind r = kind) (rev (artifacts s))))"

definition joined_dns_values :: "hub \<Rightarrow> site \<Rightarrow> string list option" where
  "joined_dns_values s site = (if s_pk site = 0 \<or> s_domain site = [] then None
     else case find (\<lambda>r. r_site r = s_pk site \<and> r_name r = s_domain site \<and> r_rtype r = ''A'') (dns_records s) of
       None \<Rightarrow> None | Some rec \<Rightarrow> joined_values (r_value rec))"

definition origin_ipv4 :: "hub \<Rightarrow> site \<Rightarrow> string option" where
  "origin_ipv4 s site = (case Option.bind (s_primary_target site) (target_by_pk s) of
     None \<Rightarrow> None | Some t \<Rightarrow> if t_host t = [] then None else joinable_ipv4 (t_host t))"

definition json_list :: "world \<Rightarrow> string \<Rightarrow> json list" where
  "json_list w raw = (if raw = [] then [] else case w_loads w raw of Some (JArr xs) \<Rightarrow> xs | _ \<Rightarrow> [])"

definition dns_zone_name :: "(string \<times> json) list \<Rightarrow> string \<Rightarrow> string" where
  "dns_zone_name body domain = (let zone = jget body ''dns_zone'' in
     if truthy zone then py_str zone
     else let rest = snd (partition_char (CHR ''.'') domain) in
       if CHR ''.'' \<in> set domain \<and> rest \<noteq> [] then rest else ''example.test'')"

definition list_or_empty :: "json \<Rightarrow> exn + json list" where
  "list_or_empty v = (if truthy v then py_list v else Inr [])"

text \<open>The dictionary before the overlays: everything that comes from the row, the manifest and the history.\<close>

definition base_desired :: "world \<Rightarrow> hub \<Rightarrow> deployment \<Rightarrow> site \<Rightarrow> exn + desired" where
  "base_desired w s dep site =
     (let body = body_of s dep; slug = s_name site;
          git_sha = text_or (jget body ''git_sha'') DEFAULT_GIT_SHA;
          domain = (if s_domain site \<noteq> [] then s_domain site else text_or (jget body ''domain'') (slug @ ''.local''));
          prev = previous_succeeded s dep;
          (sha, pinned) = (if prev \<noteq> None \<and> build_skipped s dep then pin_from_succeeded_history w s dep git_sha
             else (git_sha, image_tag w git_sha body))
      in case (case jget body ''env'' of JObj env \<Rightarrow> Inr (map (\<lambda>kv. JStr (fst kv)) env)
                 | _ \<Rightarrow> list_or_empty (jget body ''env_names'')) of Inl e \<Rightarrow> Inl e
         | Inr env_names \<Rightarrow>
       (case list_or_empty (jget body ''dns_values'') of Inl e \<Rightarrow> Inl e | Inr dns_values \<Rightarrow>
       (case py_int (or_else (jget body ''internal_port'') (JInt 20000)) of Inl e \<Rightarrow> Inl e | Inr port \<Rightarrow>
       (case list_or_empty (jget body ''firewall_argv'') of Inl e \<Rightarrow> Inl e | Inr firewall \<Rightarrow>
       Inr \<lparr>ds_site = Some site, ds_target = None, ds_site_slug = slug, ds_deployment_id = d_pk dep, ds_body = body,
         ds_git_sha = sha, ds_source_dir = text_or (jget body ''source_dir'') (w_repo_root w @ ''/sample-node-site''),
         ds_image_tag = Some pinned, ds_heartbeat = Some (d_pk dep),
         ds_old_container = map_option (\<lambda>p. ''site-'' @ slug @ ''-'' @ str_nat (d_pk p)) prev,
         ds_zone = dns_zone_name body domain, ds_dns_zone = s_dns_zone site, ds_domain = domain,
         ds_dns_values = map py_str dns_values, ds_dns_proxied = s_proxied site, ds_internal_port = port,
         ds_docker_run_extra = jget body ''docker_run_extra'', ds_env_names = env_names, ds_firewall_argv = firewall,
         ds_upstream = jget body ''upstream'', ds_dockerfile = None, ds_caddy_route = JNull, ds_dns_set = JNull,
         ds_env_mapping = [], ds_env_file = None, ds_tls_files = None, ds_step = None\<rparr>))))"

definition opt_text :: "string option \<Rightarrow> json" where
  "opt_text x = (case x of None \<Rightarrow> JNull | Some v \<Rightarrow> JStr v)"

definition assemble_desired :: "world \<Rightarrow> hub \<Rightarrow> deployment \<Rightarrow> site \<Rightarrow> exn + desired" where
  "assemble_desired w s dep site = (case base_desired w s dep site of Inl e \<Rightarrow> Inl e | Inr d0 \<Rightarrow>
     (let art = rollback_artifact s dep;
          d1 = d0\<lparr>ds_dockerfile := Some (case art ''dockerfile'' of Some f \<Rightarrow> f | None \<Rightarrow> dockerfile_from_body (ds_body d0))\<rparr>;
          d2 = d1\<lparr>ds_caddy_route := JStr (case art ''caddy_route'' of Some r \<Rightarrow> r
                 | None \<Rightarrow> dumps_canonical (JObj (caddy_route w d1 (site_tag d1))))\<rparr>;
          joined = joined_dns_values s site;
          d3 = d2\<lparr>ds_dns_values := (case joined of Some vs \<Rightarrow> vs
                 | None \<Rightarrow> if ds_dns_values d2 \<noteq> [] then ds_dns_values d2
                     else case origin_ipv4 s site of Some o' \<Rightarrow> [o'] | None \<Rightarrow> [])\<rparr>;
          d4 = d3\<lparr>ds_dns_set := opt_text (art ''dns_set'')\<rparr>;
          d5 = (if joined \<noteq> None \<or> ds_dns_set d4 = JNull
                then d4\<lparr>ds_dns_set := JStr (dumps_default (JArr (desired_dns_records w d4)))\<rparr> else d4);
          d6 = (case art ''env_names'' of None \<Rightarrow> d5 | Some raw \<Rightarrow> d5\<lparr>ds_env_names := json_list w raw\<rparr>);
          d7 = (case art ''firewall_argv'' of None \<Rightarrow> d6 | Some raw \<Rightarrow> d6\<lparr>ds_firewall_argv := json_list w raw\<rparr>)
      in Inr d7))"

section \<open>Artifacts and the runbook\<close>

definition dns_content :: "desired \<Rightarrow> string" where
  "dns_content d = (case ds_dns_set d of JNull \<Rightarrow> ''[]'' | JStr x \<Rightarrow> x | v \<Rightarrow> dumps_default v)"

text \<open>The six texts a deployment leaves behind: names of variables, never their values.\<close>

definition artifact_rows :: "desired \<Rightarrow> (string \<times> string) list" where
  "artifact_rows d = [
     (''dockerfile'', case ds_dockerfile d of Some f \<Rightarrow> f | None \<Rightarrow> []),
     (''caddy_route'', case ds_caddy_route d of JStr r \<Rightarrow> r | _ \<Rightarrow> []),
     (''dns_set'', dns_content d),
     (''env_names'', dumps_default (JArr (ds_env_names d))),
     (''firewall_argv'', dumps_default (JArr (ds_firewall_argv d))),
     (''image_tag'', case ds_image_tag d of Some t \<Rightarrow> t | None \<Rightarrow> [])]"

definition snapshot_artifacts :: "desired \<Rightarrow> unit act" where
  "snapshot_artifacts d = for_each (artifact_rows d) (\<lambda>(kind, content). modify (\<lambda>s.
     s\<lparr>artifacts := artifacts s @ [\<lparr>da_deployment = ds_deployment_id d, da_kind = kind, da_content = content\<rparr>]\<rparr>))"

definition site_dir :: "desired \<Rightarrow> string" where
  "site_dir d = ''/srv/sites/'' @ ds_site_slug d"

definition runbook_present :: "world \<Rightarrow> desired \<Rightarrow> bool act" where
  "runbook_present w d = bnd (transport_probe w [''test'', ''-f'', site_dir d @ ''/BREAK-GLASS.md'']) (\<lambda>r. ret (result_ok r))"

text \<open>\<open>_ssh_user(transport)\<close>: the transport of a deployment is bound to the primary target of its site.\<close>

definition transport_user :: "hub \<Rightarrow> desired \<Rightarrow> string" where
  "transport_user s d = (case Option.bind (ds_site d) (\<lambda>site. Option.bind (s_primary_target site) (target_by_pk s)) of
     None \<Rightarrow> ''deploy'' | Some t \<Rightarrow> if t_ssh_user t = [] then ''deploy'' else t_ssh_user t)"

definition snapshot_and_runbook :: "world \<Rightarrow> ports \<Rightarrow> desired \<Rightarrow> unit act" where
  "snapshot_and_runbook w P d =
     bnd (gets (\<lambda>s. \<exists>r \<in> set (artifacts s). da_deployment r = ds_deployment_id d)) (\<lambda>ex.
     andThen (when_do (\<not> ex) (snapshot_artifacts d))
     (bnd (runbook_present w d) (\<lambda>present.
      if present then ret ()
      else bnd (transport_run w [''mkdir'', ''-p'', site_dir d]) (\<lambda>made.
        bnd (gets (\<lambda>s. transport_user s d)) (\<lambda>user.
        andThen (when_do (\<not> result_ok made)
          (andThen (transport_run w [''sudo'', ''mkdir'', ''-p'', site_dir d])
          (bnd (transport_run w [''sudo'', ''chown'', user @ '':'' @ user, site_dir d]) (\<lambda>_. ret ()))))
        (andThen (transport_run w [''chmod'', ''u+w'', site_dir d @ ''/BREAK-GLASS.md''])
        (pt_runbook P d)))))))"


section \<open>Running the steps\<close>

definition unit_of :: "'a act \<Rightarrow> unit act" where
  "unit_of m = bnd m (\<lambda>_. ret ())"

definition dispatch_step :: "world \<Rightarrow> ports \<Rightarrow> deployment \<Rightarrow> step_name \<Rightarrow> desired \<Rightarrow> unit act" where
  "dispatch_step w P dep name d = (case name of
     Build \<Rightarrow> unit_of (ensure_build w d)
   | Ship \<Rightarrow> unit_of (ensure_ship w d)
   | Migrate \<Rightarrow> andThen (ensure_volume w d)
       (andThen (if d_rollback_of dep \<noteq> None then unit_of (ensure_volume_rollback d) else ret ())
       (unit_of (ensure_migrate w d)))
   | StartGreen \<Rightarrow> unit_of (ensure_start w P d)
   | HealthCheck \<Rightarrow> unit_of (ensure_health_check w d)
   | Dns \<Rightarrow> unit_of (ensure_dns w d)
   | RouteTls \<Rightarrow> unit_of (ensure_route_tls w P d)
   | SmokeTest \<Rightarrow> unit_of (ensure_smoke w d)
   | Cutover \<Rightarrow> unit_of (ensure_cutover w d))"

definition mark_failed :: "world \<Rightarrow> deployment \<Rightarrow> deployment_step \<Rightarrow> unit act" where
  "mark_failed w dep st =
     bnd (timezone_now w) (\<lambda>now.
     andThen (save_step (st_deployment st) (st_seq st) (\<lambda>r. r\<lparr>st_status := StFailed, st_finished := Some now\<rparr>))
     (andThen (set_status (d_pk dep) Failed)
     (release_deploy_locks (d_pk dep))))"

text \<open>The two halves of \<open>_run_step\<close>: the dispatch under \<open>try\<close>, and what follows a dispatch that returned.\<close>

definition attempt_step :: "world \<Rightarrow> ports \<Rightarrow> deployment \<Rightarrow> deployment_step \<Rightarrow> desired \<Rightarrow> unit act" where
  "attempt_step w P dep st work = try_except (dispatch_step w P dep (st_name st) work)
     (\<lambda>e. andThen (mark_failed w dep st) (throw e))"

definition settle_step :: "world \<Rightarrow> ports \<Rightarrow> deployment \<Rightarrow> deployment_step \<Rightarrow> desired \<Rightarrow> unit act" where
  "settle_step w P dep st work =
     andThen (when_do (st_name st = Cutover) (snapshot_and_runbook w P work))
     (bnd (timezone_now w) (\<lambda>finished.
      andThen (save_step (st_deployment st) (st_seq st) (\<lambda>r. r\<lparr>st_status := StSucceeded, st_finished := Some finished\<rparr>))
      (touch_heartbeat w (d_pk dep))))"

definition run_step :: "world \<Rightarrow> ports \<Rightarrow> deployment \<Rightarrow> deployment_step \<Rightarrow> desired \<Rightarrow> unit act" where
  "run_step w P dep st d =
     bnd (timezone_now w) (\<lambda>started.
     andThen (save_step (st_deployment st) (st_seq st) (\<lambda>r. r\<lparr>st_status := StRunning, st_started := Some started\<rparr>))
     (andThen (touch_heartbeat w (d_pk dep))
     (let work = d\<lparr>ds_step := Some (st\<lparr>st_status := StRunning, st_started := Some started\<rparr>)\<rparr> in
      andThen (attempt_step w P dep st work) (settle_step w P dep st work))))"

text \<open>\<open>deployment.refresh_from_db()\<close> and its status.\<close>

definition status_of :: "nat \<Rightarrow> hub \<Rightarrow> deployment_status option" where
  "status_of d s = map_option d_status (deployment_by_pk s d)"

definition current_status :: "nat \<Rightarrow> deployment_status act" where
  "current_status d = bnd (gets (status_of d)) (\<lambda>st.
     case st of None \<Rightarrow> throw DoesNotExist | Some x \<Rightarrow> ret x)"

text \<open>The loop over the steps: it stops early when the deployment is no longer running.\<close>

fun run_steps :: "world \<Rightarrow> ports \<Rightarrow> deployment \<Rightarrow> desired \<Rightarrow> deployment_step list \<Rightarrow> deployment_status option act" where
  "run_steps w P dep d [] = ret None"
| "run_steps w P dep d (st # steps) =
     bnd (current_status (d_pk dep)) (\<lambda>now.
     if now \<noteq> Running then ret (Some now)
     else if step_done st then run_steps w P dep d steps
     else andThen (run_step w P dep st d) (run_steps w P dep d steps))"

datatype exec_result = NotStarted | NotRunning deployment_status | Ran deployment_status

text \<open>Running the persisted steps with the assembled state and settling the deployment.\<close>

definition run_and_settle :: "world \<Rightarrow> ports \<Rightarrow> deployment \<Rightarrow> site \<Rightarrow> desired \<Rightarrow> exec_result act" where
  "run_and_settle w P dep site d =
     bnd (gets (\<lambda>s. steps_of s (d_pk dep))) (\<lambda>steps.
     bnd (run_steps w P dep d steps) (\<lambda>stopped.
     case stopped of Some st \<Rightarrow> ret (Ran st)
     | None \<Rightarrow>
       bnd (current_status (d_pk dep)) (\<lambda>now.
       if now \<noteq> Running then ret (Ran now)
       else andThen (set_status (d_pk dep) Succeeded)
         (andThen (save_site (s_pk site) (\<lambda>r. r\<lparr>s_config_stale := False\<rparr>))
         (ret (Ran Succeeded))))))"

definition execute_running :: "world \<Rightarrow> ports \<Rightarrow> deployment \<Rightarrow> site \<Rightarrow> exec_result act" where
  "execute_running w P dep site =
     andThen (modify (\<lambda>s. s\<lparr>tls_app_cache := None\<rparr>))
     (bnd (gets (\<lambda>s. assemble_desired w s dep site)) (\<lambda>assembled.
      bnd (of_sum assembled) (\<lambda>d.
      bnd (pt_env_mapping P (d_pk dep)) (\<lambda>mapping.
      run_and_settle w P dep site (d\<lparr>ds_env_mapping := mapping\<rparr>)))))"

definition assert_test_zone :: "world \<Rightarrow> network_zone \<Rightarrow> unit act" where
  "assert_test_zone w z = (let ident = (if z_slug z \<noteq> [] then z_slug z else z_name z) in
     if \<not> w_test_mode w then ret ()
     else if z_purpose z \<noteq> PurposeTest \<or> ident \<notin> set (w_test_slugs w) then throw (OtherError ''TestModeError'')
     else ret ())"

definition release_if_terminal :: "nat \<Rightarrow> unit act" where
  "release_if_terminal d = bnd (current_status d) (\<lambda>st. when_do (terminal st) (release_deploy_locks d))"

text \<open>The guard on the zone of the primary target in test mode.\<close>

definition test_guard :: "world \<Rightarrow> site \<Rightarrow> unit act" where
  "test_guard w site = (if w_test_mode w then
     bnd (gets (\<lambda>s. Option.bind (s_primary_target site) (target_by_pk s))) (\<lambda>t.
     case t of None \<Rightarrow> throw (OtherError ''AttributeError'') | Some tg \<Rightarrow> assert_test_zone w (t_zone tg))
   else ret ())"

text \<open>The part of \<open>execute\<close> for a deployment that is running.\<close>

definition drive :: "world \<Rightarrow> ports \<Rightarrow> deployment \<Rightarrow> site \<Rightarrow> exec_result act" where
  "drive w P dep site = andThen (touch_heartbeat w (d_pk dep))
     (try_finally (execute_running w P dep site) (release_if_terminal (d_pk dep)))"

definition execute :: "world \<Rightarrow> ports \<Rightarrow> bool \<Rightarrow> nat \<Rightarrow> exec_result act" where
  "execute w P injected deployment_id =
     bnd (gets (\<lambda>s. Option.bind (deployment_by_pk s deployment_id) (\<lambda>dep.
        map_option (Pair dep) (Option.bind (deployment_site s dep) (site_by_pk s))))) (\<lambda>found.
     case found of None \<Rightarrow> throw DoesNotExist
     | Some (dep, site) \<Rightarrow>
       andThen (test_guard w site)
       (andThen (try_except (resolve_seams w P injected site) (\<lambda>e. case e of
            DeploySeamRefused m \<Rightarrow> andThen (set_status (d_pk dep) Failed)
              (andThen (release_deploy_locks (d_pk dep)) (throw e))
          | _ \<Rightarrow> throw e))
       (bnd (if d_status dep = Queued then begin_deploy w dep None else ret True) (\<lambda>started.
        if \<not> started then ret NotStarted
        else bnd (current_status (d_pk dep)) (\<lambda>st.
          let st' = (if d_status dep = Queued then st else d_status dep) in
          if st' \<noteq> Running then ret (NotRunning st')
          else drive w P dep site)))))"

definition create_rollback :: "deployment \<Rightarrow> nat act" where
  "create_rollback original = (\<lambda>s. let pk = next_pk (map d_pk (deployments s)) in
     (Inr pk, s\<lparr>deployments := deployments s @ [\<lparr>d_pk = pk, d_manifest = d_manifest original, d_status = Queued,
        d_last_heartbeat = None, d_rollback_of = Some (d_pk original)\<rparr>]\<rparr>))"

definition rollback :: "world \<Rightarrow> ports \<Rightarrow> bool \<Rightarrow> nat \<Rightarrow> exec_result act" where
  "rollback w P injected deployment_id =
     bnd (gets (\<lambda>s. deployment_by_pk s deployment_id)) (\<lambda>found.
     case found of None \<Rightarrow> throw DoesNotExist
     | Some original \<Rightarrow> bnd (create_rollback original) (execute w P injected))"

end
