(* ===== verification/Pipeline_Facts.thy ===== *)
theory Pipeline_Facts
  imports Pipeline
begin

text \<open>
  Correctness of the deployment state machine: what a run keeps, that a finished deployment holds no
  lock, that success means every step is done, that a failing step fails the deployment, and what
  starting a deployment does to the locks.
\<close>


section \<open>What a run keeps\<close>

definition step_keys :: "hub \<Rightarrow> (nat \<times> nat \<times> step_name) list" where
  "step_keys s = map (\<lambda>r. (st_deployment r, st_seq r, st_name r)) (dsteps s)"

text \<open>Everything except the rows of one step, the artifacts and what every step may write.\<close>

definition run_frame :: "nat \<Rightarrow> nat \<Rightarrow> hub \<Rightarrow> hub \<times> (nat \<times> nat \<times> step_name) list" where
  "run_frame d q s = ((core_state s)\<lparr>dsteps := filter (\<lambda>r. \<not> step_row d q r) (dsteps s), artifacts := []\<rparr>, step_keys s)"

text \<open>A program keeps \<open>f\<close> whenever it returns.\<close>

definition keeps :: "(hub \<Rightarrow> 'b) \<Rightarrow> 'a act \<Rightarrow> bool" where
  "keeps f m = (\<forall>s x t. m s = (Inr x, t) \<longrightarrow> f t = f s)"

lemma keepsD: "keeps f m \<Longrightarrow> m s = (Inr x, t) \<Longrightarrow> f t = f s"
  unfolding keeps_def by blast

lemma keeps_evolves: "evolves (same f) m \<Longrightarrow> keeps f m"
  unfolding keeps_def by (blast dest: frameD)

lemma keeps_bnd: "keeps f m \<Longrightarrow> (\<And>x. keeps f (k x)) \<Longrightarrow> keeps f (bnd m k)"
  unfolding keeps_def fst_bnd_Inr by metis

lemma keeps_andThen: "keeps f m \<Longrightarrow> keeps f n \<Longrightarrow> keeps f (andThen m n)"
  unfolding andThen_def by (rule keeps_bnd)

lemma keeps_throwing: "keeps f m \<Longrightarrow> keeps f (try_except m (\<lambda>e. andThen (h e) (throw e)))"
  unfolding keeps_def try_except_def andThen_def bnd_def throw_def
  by (auto split: prod.splits sum.splits)

lemma step_core_run_frame:
  assumes "evolves (same (step_core d q)) m"
  shows "evolves (same (run_frame d q)) m"
proof -
  let ?w = "\<lambda>r. if step_row d q r then r\<lparr>st_status := StPending, st_artifacts := []\<rparr> else r"
  have rows: "filter (\<lambda>r. \<not> step_row d q r) (map ?w xs) = filter (\<lambda>r. \<not> step_row d q r) xs" for xs
    by (induction xs) (auto simp: step_row_def)
  have keys: "map (\<lambda>r. (st_deployment r, st_seq r, st_name r)) (map ?w xs) =
      map (\<lambda>r. (st_deployment r, st_seq r, st_name r)) xs" for xs
    by simp
  have "run_frame d q s = (\<lambda>c. (c\<lparr>dsteps := filter (\<lambda>r. \<not> step_row d q r) (dsteps c), artifacts := []\<rparr>, step_keys c))
      (step_core d q s)" for s
    using rows keys by (simp add: run_frame_def step_core_def core_state_def unstamped_def step_keys_def)
  with assms show ?thesis unfolding evolves_def same_def by simp
qed

lemma save_step_run_frame:
  assumes "\<And>r. step_row d q r \<Longrightarrow> step_row d q (f r) \<and> st_name (f r) = st_name r"
  shows "evolves (same (run_frame d q)) (save_step d q f)"
proof -
  have "filter (\<lambda>r. \<not> step_row d q r) (upd_rows (\<lambda>r. st_deployment r = d \<and> st_seq r = q) f xs) = filter (\<lambda>r. \<not> step_row d q r) xs"
    "map (\<lambda>r. (st_deployment r, st_seq r, st_name r)) (upd_rows (\<lambda>r. st_deployment r = d \<and> st_seq r = q) f xs) =
      map (\<lambda>r. (st_deployment r, st_seq r, st_name r)) xs" for xs
    using assms by (induction xs) (auto simp: upd_rows_def step_row_def)
  then show ?thesis unfolding save_step_def
    by (intro modify_frame) (simp add: run_frame_def core_state_def unstamped_def step_keys_def)
qed

lemma unit_of_cores: "evolves R m \<Longrightarrow> evolution R \<Longrightarrow> evolves R (unit_of m)"
  unfolding unit_of_def by (simp add: evolution.ev_bnd evolution.ev_ret)

lemma dispatch_cores:
  assumes "ports_keep P" "ds_step x = Some st" "st_deployment st = d" "st_seq st = q"
  shows "evolves (same (step_core d q)) (dispatch_step w P dep name x)"
proof -
  note steps = cores ensure_start_cores [OF assms(1)] ensure_route_tls_cores [OF assms(1)]
    ensure_migrate_cores [OF assms(2-4)] ensure_cutover_cores [OF assms(2-4)]
  have "evolves (same (step_core d q)) (ensure_volume_rollback x)"
    by (simp add: ensure_volume_rollback_def frame.ev_ret)
  then show ?thesis unfolding dispatch_step_def
    by (cases name) (auto intro!: frame.ev_rules unit_of_cores steps frame.evolution_axioms)
qed

lemma snapshot_run_frame:
  assumes "ports_keep P"
  shows "evolves (same (run_frame d q)) (snapshot_and_runbook w P x)"
proof -
  have "evolves (same (run_frame d q)) (snapshot_artifacts x)"
    unfolding snapshot_artifacts_def
    by (intro frame.ev_rules modify_frame) (simp add: run_frame_def core_state_def unstamped_def step_keys_def)
  then show ?thesis
    unfolding snapshot_and_runbook_def runbook_present_def
    by (intro frame.ev_rules step_core_run_frame [OF call_cores(1)] step_core_run_frame [OF call_cores(2)]
      step_core_run_frame [OF ports_cores(6) [OF assms]]) 
qed

lemma basic_run_frame:
  "evolves (same (run_frame d q)) (timezone_now w)" "evolves (same (run_frame d q)) (touch_heartbeat w k)"
  by (rule step_core_run_frame, rule cores)+

lemma step_rows_preserved:
  "step_row d q (r\<lparr>st_status := a, st_started := b\<rparr>) = step_row d q r"
  "step_row d q (r\<lparr>st_status := a, st_finished := b\<rparr>) = step_row d q r"
  by (simp_all add: step_row_def)

lemma run_step_keeps:
  assumes "ports_keep P"
  shows "keeps (run_frame (st_deployment st) (st_seq st)) (run_step w P dep st x)"
proof -
  let ?f = "run_frame (st_deployment st) (st_seq st)"
  have save: "keeps ?f (save_step (st_deployment st) (st_seq st) (\<lambda>r. r\<lparr>st_status := a, st_started := b\<rparr>))"
    "keeps ?f (save_step (st_deployment st) (st_seq st) (\<lambda>r. r\<lparr>st_status := a, st_finished := b\<rparr>))" for a b
    by (intro keeps_evolves save_step_run_frame; simp add: step_rows_preserved)+
  have disp: "keeps ?f (dispatch_step w P dep nm (x\<lparr>ds_step := Some (st\<lparr>st_status := a, st_started := b\<rparr>)\<rparr>))" for nm a b
    by (intro keeps_evolves step_core_run_frame
      dispatch_cores [OF assms, where st = "st\<lparr>st_status := a, st_started := b\<rparr>"]) simp_all
  have snap: "keeps ?f (when_do c (snapshot_and_runbook w P y))" for c y
    by (intro keeps_evolves frame.ev_when snapshot_run_frame [OF assms])
  show ?thesis unfolding run_step_def attempt_step_def settle_step_def Let_def
    by (intro keeps_bnd keeps_andThen keeps_throwing save disp snap keeps_evolves basic_run_frame)
qed

text \<open>Every row of a step that has run is succeeded.\<close>

definition done_at :: "nat \<Rightarrow> nat \<Rightarrow> hub \<Rightarrow> bool" where
  "done_at d q s = list_all (\<lambda>r. step_row d q r \<longrightarrow> step_done r) (dsteps s)"

lemma touch_heartbeat_dsteps: "dsteps (snd (touch_heartbeat w d s)) = dsteps s"
  using touch_heartbeat_unstamped unfolding evolves_def same_def by (metis unstamped_eqD(6))

lemma save_step_eff: "save_step d q f s = (Inr (), s\<lparr>dsteps := upd_rows (\<lambda>r. st_deployment r = d \<and> st_seq r = q) f (dsteps s)\<rparr>)"
  by (simp add: save_step_def modify_def)

lemma settle_step_done:
  assumes "settle_step w P dep st x s = (Inr (), t)"
  shows "done_at (st_deployment st) (st_seq st) t"
proof -
  obtain u now where "andThen (save_step (st_deployment st) (st_seq st) (\<lambda>r. r\<lparr>st_status := StSucceeded, st_finished := Some now\<rparr>))
     (touch_heartbeat w (d_pk dep)) u = (Inr (), t)"
    using assms unfolding settle_step_def andThen_def [of "when_do _ _"] fst_bnd_Inr by blast
  then have "t = snd (touch_heartbeat w (d_pk dep) (u\<lparr>dsteps := upd_rows (\<lambda>r. st_deployment r = st_deployment st \<and> st_seq r = st_seq st)
      (\<lambda>r. r\<lparr>st_status := StSucceeded, st_finished := Some now\<rparr>) (dsteps u)\<rparr>))"
    by (simp add: andThen_def bnd_def save_step_def modify_def)
  then show ?thesis
    by (simp add: done_at_def list_all_iff touch_heartbeat_dsteps set_upd_rows)
      (auto simp: step_row_def step_done_def)
qed

text \<open>\<open>run_step\<close> from the moment the step is marked running.\<close>

definition marked_running :: "world \<Rightarrow> deployment \<Rightarrow> deployment_step \<Rightarrow> hub \<Rightarrow> hub" where
  "marked_running w dep st s = snd (touch_heartbeat w (d_pk dep) (s\<lparr>ticks := Suc (ticks s),
     dsteps := upd_rows (\<lambda>r. st_deployment r = st_deployment st \<and> st_seq r = st_seq st)
       (\<lambda>r. r\<lparr>st_status := StRunning, st_started := Some (w_clock w (ticks s))\<rparr>) (dsteps s)\<rparr>))"

definition work_of :: "world \<Rightarrow> deployment_step \<Rightarrow> desired \<Rightarrow> hub \<Rightarrow> desired" where
  "work_of w st x s = x\<lparr>ds_step := Some (st\<lparr>st_status := StRunning, st_started := Some (w_clock w (ticks s))\<rparr>)\<rparr>"

lemma run_step_alt:
  "run_step w P dep st x s = andThen (attempt_step w P dep st (work_of w st x s)) (settle_step w P dep st (work_of w st x s))
     (marked_running w dep st s)"
proof -
  have "run_step w P dep st x s = andThen (touch_heartbeat w (d_pk dep)) (andThen (attempt_step w P dep st (work_of w st x s))
      (settle_step w P dep st (work_of w st x s))) (s\<lparr>ticks := Suc (ticks s),
     dsteps := upd_rows (\<lambda>r. st_deployment r = st_deployment st \<and> st_seq r = st_seq st)
       (\<lambda>r. r\<lparr>st_status := StRunning, st_started := Some (w_clock w (ticks s))\<rparr>) (dsteps s)\<rparr>)"
    unfolding run_step_def Let_def work_of_def
    by (subst bnd_Inr [OF timezone_now_def [THEN fun_cong]], subst andThen_Inr [OF save_step_eff]) simp
  then show ?thesis by (simp add: andThen_touch marked_running_def)
qed

lemma run_step_done:
  assumes "run_step w P dep st x s = (Inr (), t)"
  shows "done_at (st_deployment st) (st_seq st) t"
  using assms settle_step_done unfolding run_step_alt andThen_def fst_bnd_Inr by blast

lemma run_frame_done_at:
  assumes "run_frame d q t = run_frame d q s" "(d, q') \<noteq> (d, q)"
  shows "done_at d q' t = done_at d q' s"
proof -
  have "filter (\<lambda>r. \<not> step_row d q r) (dsteps t) = filter (\<lambda>r. \<not> step_row d q r) (dsteps s)"
    using arg_cong [OF assms(1), of "\<lambda>p. dsteps (fst p)"] by (simp add: run_frame_def)
  moreover have "done_at d q' u = list_all (\<lambda>r. step_row d q' r \<longrightarrow> step_done r) (filter (\<lambda>r. \<not> step_row d q r) (dsteps u))" for u
    using assms(2) by (auto simp: done_at_def list_all_iff step_row_def)
  ultimately show ?thesis by simp
qed

lemma status_of_core: "status_of d (core_state s) = status_of d s"
proof -
  have "map_option d_status (find (\<lambda>r. d_pk r = d) (map (\<lambda>r. r\<lparr>d_last_heartbeat := None\<rparr>) xs)) =
      map_option d_status (find (\<lambda>r. d_pk r = d) xs)" for xs
    by (induction xs) auto
  then show ?thesis
    by (simp add: status_of_def deployment_by_pk_def core_state_def unstamped_def)
qed

lemma run_frame_status: "run_frame d q t = run_frame d q s \<Longrightarrow> status_of k t = status_of k s"
proof -
  assume "run_frame d q t = run_frame d q s"
  then have "deployments (core_state t) = deployments (core_state s)"
    by (drule_tac arg_cong [where f = "\<lambda>p. deployments (fst p)"]) (simp add: run_frame_def)
  then have "status_of k (core_state t) = status_of k (core_state s)" by (simp add: status_of_def deployment_by_pk_def)
  then show ?thesis by (simp add: status_of_core)
qed

lemma run_frame_keys: "run_frame d q t = run_frame d q s \<Longrightarrow> step_keys t = step_keys s"
  by (simp add: run_frame_def)

lemma current_status_eff:
  "current_status d s = (case status_of d s of None \<Rightarrow> (Inl DoesNotExist, s) | Some x \<Rightarrow> (Inr x, s))"
  by (simp add: current_status_def throw_def ret_def split: option.split)


section \<open>Success means every step is done\<close>

lemma run_steps_done:
  assumes "ports_keep P" "\<And>st. st \<in> set sts \<Longrightarrow> st_deployment st = d_pk dep"
  shows "run_steps w P dep x sts s = (Inr r, t) \<Longrightarrow> status_of (d_pk dep) s = Some Running \<Longrightarrow>
    (\<And>st. st \<in> set sts \<Longrightarrow> step_done st \<Longrightarrow> done_at (d_pk dep) (st_seq st) s) \<Longrightarrow>
    r = None \<and> status_of (d_pk dep) t = Some Running \<and> step_keys t = step_keys s \<and>
    (\<forall>q. done_at (d_pk dep) q s \<longrightarrow> done_at (d_pk dep) q t) \<and> (\<forall>st \<in> set sts. done_at (d_pk dep) (st_seq st) t)"
  using assms(2)
proof (induction sts arbitrary: s)
  case Nil
  then show ?case by (simp add: ret_def)
next
  case (Cons st sts)
  let ?d = "d_pk dep"
  show ?case
  proof (cases "step_done st")
    case True
    then have "run_steps w P dep x sts s = (Inr r, t)"
      using Cons.prems(1,2) by (simp add: bnd_def current_status_eff)
    from Cons.IH [OF this Cons.prems(2)] Cons.prems(3,4) True show ?thesis by auto
  next
    case False
    then obtain u where u: "run_step w P dep st x s = (Inr (), u)" "run_steps w P dep x sts u = (Inr r, t)"
      using Cons.prems(1,2) by (auto simp: bnd_def current_status_eff andThen_def split: prod.splits sum.splits)
    have st: "st_deployment st = ?d" using Cons.prems(4) by simp
    have fr: "run_frame ?d (st_seq st) u = run_frame ?d (st_seq st) s"
      using keepsD [OF run_step_keeps [OF assms(1)] u(1)] st by simp
    have here: "done_at ?d (st_seq st) u" using run_step_done [OF u(1)] st by simp
    have mono: "done_at ?d q s \<Longrightarrow> done_at ?d q u" for q
      using here run_frame_done_at [OF fr, of q] by (cases "q = st_seq st") auto
    have "status_of ?d u = Some Running" using run_frame_status [OF fr] Cons.prems(2) by simp
    moreover have "step_keys u = step_keys s" using run_frame_keys [OF fr] .
    ultimately show ?thesis
      using Cons.IH [OF u(2)] Cons.prems(3,4) mono here by auto
  qed
qed

lemma steps_of_mem: "st \<in> set (steps_of s d) \<longleftrightarrow> st \<in> set (dsteps s) \<and> st_deployment st = d"
  by (auto simp: steps_of_def)

lemma step_keys_mem:
  assumes "step_keys t = step_keys s" "r \<in> set (dsteps t)"
  shows "\<exists>r' \<in> set (dsteps s). st_deployment r' = st_deployment r \<and> st_seq r' = st_seq r"
proof -
  have "(st_deployment r, st_seq r, st_name r) \<in> set (step_keys t)" using assms(2) by (auto simp: step_keys_def)
  then show ?thesis unfolding assms(1) by (auto simp: step_keys_def)
qed

text \<open>No two rows for one step, as the table's constraint on (deployment, seq) says.\<close>

definition steps_unique :: "hub \<Rightarrow> bool" where
  "steps_unique s = distinct (map (\<lambda>r. (st_deployment r, st_seq r)) (dsteps s))"

lemma steps_unique_done_at:
  assumes "steps_unique s" "r \<in> set (dsteps s)" "step_done r"
  shows "done_at (st_deployment r) (st_seq r) s"
  using assms by (auto simp: steps_unique_def done_at_def list_all_iff step_row_def distinct_map inj_on_def)

lemma core_unstamped: "unstamped t = unstamped s \<Longrightarrow> core_state t = core_state s"
proof -
  assume eq: "unstamped t = unstamped s"
  then have "sites t = sites s" by (rule unstamped_eqD)
  with eq show ?thesis by (simp add: core_state_def)
qed

lemma core_state_same:
  assumes "core_state t = core_state s"
  shows "status_of k t = status_of k s" "dsteps t = dsteps s"
proof -
  have "deployments (core_state t) = deployments (core_state s)" using assms by simp
  then have "status_of k (core_state t) = status_of k (core_state s)" by (simp add: status_of_def deployment_by_pk_def)
  then show "status_of k t = status_of k s" by (simp add: status_of_core)
  show "dsteps t = dsteps s" using arg_cong [OF assms, of dsteps] by (simp add: core_state_def unstamped_def)
qed

lemma port_core: "ports_keep P \<Longrightarrow> pt_env_mapping P k s = (r, t) \<Longrightarrow> core_state t = core_state s"
  unfolding ports_keep_def by (blast dest: frameD)

lemma set_status_deployments:
  "set_status d st s = (Inr (), s\<lparr>deployments := upd_rows (\<lambda>r. d_pk r = d) (\<lambda>r. r\<lparr>d_status := st\<rparr>) (deployments s)\<rparr>)"
  by (simp add: set_status_def save_deployment_def modify_def)

lemma status_rows:
  "map_option d_status (find (\<lambda>r. d_pk r = k) (upd_rows (\<lambda>r. Q (d_pk r)) (\<lambda>r. r\<lparr>d_status := x\<rparr>) xs)) =
     (if Q k then map_option (\<lambda>_. x) (map_option d_status (find (\<lambda>r. d_pk r = k) xs))
      else map_option d_status (find (\<lambda>r. d_pk r = k) xs))"
  unfolding upd_rows_def by (induction xs) auto

lemma status_of_save:
  "deployments t = upd_rows (\<lambda>r. Q (d_pk r)) (\<lambda>r. r\<lparr>d_status := x\<rparr>) (deployments s) \<Longrightarrow>
   status_of k t = (if Q k then map_option (\<lambda>_. x) (status_of k s) else status_of k s)"
  by (simp add: status_of_def deployment_by_pk_def status_rows)

lemma status_of_same: "deployments t = deployments s \<Longrightarrow> status_of k t = status_of k s"
  by (simp add: status_of_def deployment_by_pk_def)

lemma frame_status: "evolves (same deployments) m \<Longrightarrow> evolves (same (status_of k)) m"
  unfolding evolves_def same_def using status_of_same by blast

lemma run_and_settle_succeeded:
  assumes "ports_keep P" "steps_unique u" "status_of (d_pk dep) u = Some Running"
    "run_and_settle w P dep site x u = (Inr y, t)"
  shows "y = Ran Succeeded \<and> status_of (d_pk dep) t = Some Succeeded \<and> list_all step_done (steps_of t (d_pk dep))"
proof -
  let ?d = "d_pk dep"
  obtain stopped v where v: "run_steps w P dep x (steps_of u ?d) u = (Inr stopped, v)"
    using assms(4) unfolding run_and_settle_def bnd_gets fst_bnd_Inr by blast
  have fin: "stopped = None \<and> status_of ?d v = Some Running \<and> step_keys v = step_keys u \<and>
      (\<forall>st \<in> set (steps_of u ?d). done_at ?d (st_seq st) v)"
    using run_steps_done [OF assms(1) _ v assms(3)] steps_unique_done_at [OF assms(2)]
    by (fastforce simp: steps_of_mem)
  then have y: "y = Ran Succeeded"
    and t: "t = v\<lparr>deployments := upd_rows (\<lambda>r. d_pk r = ?d) (\<lambda>r. r\<lparr>d_status := Succeeded\<rparr>) (deployments v),
      sites := upd_rows (\<lambda>r. s_pk r = s_pk site) (\<lambda>r. r\<lparr>s_config_stale := False\<rparr>) (sites v)\<rparr>"
    using assms(4) v by (auto simp: run_and_settle_def bnd_Inr bnd_def [of "current_status ?d"] current_status_eff
        set_status_deployments andThen_def save_site_def modify_def ret_def bnd_def gets_def)
  have "step_done r" if "r \<in> set (steps_of t ?d)" for r
  proof -
    have r: "r \<in> set (dsteps v)" "st_deployment r = ?d" using that t by (simp_all add: steps_of_mem)
    with fin step_keys_mem [of v u r] obtain r' where "r' \<in> set (steps_of u ?d)" "st_seq r' = st_seq r"
      by (auto simp: steps_of_mem)
    with fin have "done_at ?d (st_seq r) v" by metis
    with r show ?thesis by (auto simp: done_at_def list_all_iff step_row_def)
  qed
  moreover have "status_of ?d t = Some Succeeded"
  proof -
    have "status_of ?d t = map_option (\<lambda>_. Succeeded) (status_of ?d v)"
      using t status_of_save [of t "\<lambda>k. k = ?d" Succeeded v] by simp
    then show ?thesis using fin by simp
  qed
  ultimately show ?thesis using y by (simp add: list_all_iff)
qed

lemma of_sum_Inr: "of_sum r s = (Inr x, t) \<longleftrightarrow> r = Inr x \<and> t = s"
  by (auto simp: of_sum_def ret_def throw_def split: sum.splits)

lemma execute_running_succeeded:
  assumes "ports_keep P" "steps_unique s" "status_of (d_pk dep) s = Some Running"
    "execute_running w P dep site s = (Inr y, t)"
  shows "y = Ran Succeeded \<and> status_of (d_pk dep) t = Some Succeeded \<and> list_all step_done (steps_of t (d_pk dep))"
proof -
  let ?d = "d_pk dep" and ?s = "s\<lparr>tls_app_cache := None\<rparr>"
  obtain x mapping u where u: "pt_env_mapping P ?d ?s = (Inr mapping, u)"
    and run: "run_and_settle w P dep site (x\<lparr>ds_env_mapping := mapping\<rparr>) u = (Inr y, t)"
    using assms(4) unfolding execute_running_def andThen_def [of "modify _"] fst_bnd_Inr
    by (auto simp: modify_def of_sum_Inr fst_bnd_Inr gets_def)
  have core: "core_state u = core_state s"
    using port_core [OF assms(1) u] by (simp add: core_state_def unstamped_def)
  then have "status_of ?d u = Some Running" "steps_unique u"
    using assms(2,3) core_state_same [OF core] by (simp_all add: steps_unique_def)
  with run show ?thesis using run_and_settle_succeeded [OF assms(1)] by blast
qed


lemma touch_status: "evolves (same (status_of k)) (touch_heartbeat w d)"
  unfolding evolves_def same_def
  using touch_heartbeat_unstamped core_state_same(1) unfolding evolves_def same_def
  by (metis core_unstamped)

section \<open>A finished deployment holds no lock\<close>

definition deploy_locks_free :: "nat \<Rightarrow> hub \<Rightarrow> bool" where
  "deploy_locks_free d s = list_all (\<lambda>l. \<not> deploy_lock_of d l) (locks s)"

lemma release_deploy_locks_free: "deploy_locks_free d (snd (release_deploy_locks d s))"
  by (simp add: release_deploy_locks_eff deploy_locks_free_def list_all_iff)

lemma release_if_terminal_post:
  assumes "release_if_terminal d s = (r, t)" "status_of d t = Some st" "terminal st"
  shows "deploy_locks_free d t"
proof (cases "status_of d s")
  case None
  then have "t = s" using assms(1) by (simp add: release_if_terminal_def bnd_def current_status_eff)
  with None assms(2) show ?thesis by simp
next
  case (Some x)
  show ?thesis
  proof (cases "terminal x")
    case True
    then have "t = snd (release_deploy_locks d s)"
      using assms(1) Some by (simp add: release_if_terminal_def bnd_def current_status_eff when_do_def)
    then show ?thesis using release_deploy_locks_free by simp
  next
    case False
    then have "t = s" using assms(1) Some by (simp add: release_if_terminal_def bnd_def current_status_eff when_do_def ret_def)
    with Some assms(2,3) False show ?thesis by simp
  qed
qed

lemma try_finally_post:
  assumes "try_finally m f s = (r, t)"
  shows "\<exists>u r'. f u = (r', t)"
  using assms by (auto simp: try_finally_def split: prod.splits sum.splits)

lemma drive_post:
  assumes "drive w P dep site s = (r, t)" "status_of (d_pk dep) t = Some st" "terminal st"
  shows "deploy_locks_free (d_pk dep) t"
proof -
  have "try_finally (execute_running w P dep site) (release_if_terminal (d_pk dep)) (snd (touch_heartbeat w (d_pk dep) s)) = (r, t)"
    using assms(1) by (simp add: drive_def andThen_touch)
  from try_finally_post [OF this] obtain u r' where "release_if_terminal (d_pk dep) u = (r', t)" by blast
  with assms(2,3) show ?thesis by (rule release_if_terminal_post [rotated])
qed

section \<open>The locks after \<open>execute\<close>\<close>

lemma audit_core: "evolves (same core_state) (audit w c)"
proof -
  have "core_state (beside_journal s) = core_state s" for s
    by (simp add: core_state_def unstamped_def beside_journal_def)
  then show ?thesis using audit_journal unfolding evolves_def same_def by metis
qed

lemma publish_core: "evolves (same core_state) (publish_finding row action)"
  by (simp add: evolves_def same_def publish_finding_def publish_def core_state_def unstamped_def)

lemma create_finding_core: "evolves (same core_state) (create_finding e ws fp flds now)"
  by (simp add: evolves_def same_def create_finding_def Let_def core_state_def unstamped_def)

lemma clock_core: "evolves (same core_state) (timezone_now w)"
  by (rule timezone_now_frame) (simp add: core_state_def unstamped_def)

lemma save_finding_core: "evolves (same core_state) (save_finding row)"
  unfolding save_finding_def by (rule modify_frame) (simp add: core_state_def unstamped_def)

lemma copy_core: "evolves (same core_state) (require_copy_values a b c)"
  unfolding require_copy_values_def by (intro frame.ev_rules)

lemma refire_core: "evolves (same core_state) (refire w row e flds now)"
  unfolding refire_def Let_def
  by (intro frame.ev_rules copy_core save_finding_core audit_core publish_core)

lemma finding_core: "evolves (same core_state) (finding w e fp ws flds)"
  unfolding finding_def
  by (intro frame.ev_rules clock_core copy_core create_finding_core audit_core publish_core refire_core)

lemma seams_core:
  assumes "ports_keep P"
  shows "evolves (same core_state) (resolve_seams w P injected site)"
proof -
  have "evolves (same core_state) (pt_dns_provider_for P z)" "evolves (same core_state) (pt_origin_cert_issuer_for P z)" for z
    using assms unfolding ports_keep_def by blast+
  then show ?thesis unfolding resolve_seams_def resolve_production_seams_def refuse_seams_def Let_def
    by (intro frame.ev_rules finding_core)
qed

lemma test_guard_state: "evolves (same core_state) (test_guard w site)"
  unfolding test_guard_def assert_test_zone_def Let_def by (intro frame.ev_rules)

lemma acquire_deployments: "evolves (same deployments) (acquire w sc oid kd h)"
  by (auto simp: evolves_def same_def acquire_def prog_simps timezone_now_def create_lock_def Let_def)

lemma acquire_dsteps: "evolves (same dsteps) (acquire w sc oid kd h)"
  by (auto simp: evolves_def same_def acquire_def prog_simps timezone_now_def create_lock_def Let_def)


lemma persist_steps_status: "evolves (same (status_of k)) (persist_steps d)"
  by (rule frame_status) (simp add: evolves_def same_def persist_steps_eff)


subsection \<open>Superseding\<close>

text \<open>The state after the running deployments with keys \<open>pks\<close> have been superseded and unlocked.\<close>

definition superseded :: "nat set \<Rightarrow> hub \<Rightarrow> hub" where
  "superseded pks s = s\<lparr>deployments := upd_rows (\<lambda>r. d_pk r \<in> pks) (\<lambda>r. r\<lparr>d_status := Superseded\<rparr>) (deployments s),
     locks := filter (\<lambda>l. \<forall>p \<in> pks. \<not> deploy_lock_of p l) (locks s)\<rparr>"

lemma superseded_insert:
  "superseded pks (s\<lparr>deployments := upd_rows (\<lambda>r. d_pk r = p) (\<lambda>r. r\<lparr>d_status := Superseded\<rparr>) (deployments s),
     locks := filter (\<lambda>l. \<not> deploy_lock_of p l) (locks s)\<rparr>) = superseded (insert p pks) s"
  by (auto simp: superseded_def upd_rows_def conj_commute intro!: arg_cong2 [where f = "\<lambda>a b. s\<lparr>deployments := a, locks := b\<rparr>"]
      filter_cong)

lemma supersede_rows:
  "for_each olds (\<lambda>old. andThen (set_status (d_pk old) Superseded) (release_deploy_locks (d_pk old))) s =
     (Inr (), superseded (d_pk ` set olds) s)"
proof (induction olds arbitrary: s)
  case Nil
  show ?case by (simp add: superseded_def ret_def upd_rows_def)
next
  case (Cons a olds)
  then show ?case
    by (simp add: andThen_def bnd_def set_status_deployments release_deploy_locks_eff superseded_insert)
qed

lemma supersede_running_eff:
  "supersede_running site k s = (Inr (), superseded (d_pk ` set (others_running s site k)) s)"
  by (simp add: supersede_running_def supersede_rows)

lemma status_of_superseded:
  "status_of k (superseded pks s) = (if k \<in> pks then map_option (\<lambda>_. Superseded) (status_of k s) else status_of k s)"
  by (rule status_of_save) (simp add: superseded_def)

lemma superseded_wf: "lock_wf s \<Longrightarrow> lock_wf (superseded pks s)"
  by (simp add: superseded_def lock_wf_def distinct_map_filter_keys)


subsection \<open>Starting a deployment\<close>

definition site_key :: "site \<Rightarrow> lock_id" where
  "site_key site = (ScopeSite, str_nat (s_pk site), KindDeploy)"

definition target_key :: "nat \<Rightarrow> lock_id" where
  "target_key t = (ScopeTarget, str_nat t, KindDeploy)"

text \<open>What holds when \<open>begin_deploy\<close> returns, in terms of the state with the old deployments superseded.\<close>

lemma begin_deploy_eff:
  fixes s :: hub
  assumes found: "Option.bind (deployment_site s dep) (site_by_pk s) = Some site"
    "(case tgt of Some t \<Rightarrow> Some t | None \<Rightarrow> s_primary_target site) = Some tg" and wf: "lock_wf s"
  defines "u \<equiv> superseded (d_pk ` set (others_running s (s_pk site) (d_pk dep))) s"
  shows "\<exists>b t. begin_deploy w dep tgt s = (Inr b, t) \<and> lock_wf t \<and>
    b = (held u (site_key site) = None \<and> held u (target_key tg) = None) \<and>
    (\<forall>k. held t k = (if b \<and> k \<in> {site_key site, target_key tg} then Some (str_nat (d_pk dep)) else held u k)) \<and>
    status_of (d_pk dep) t = (if b then map_option (\<lambda>_. Running) (status_of (d_pk dep) u) else status_of (d_pk dep) u) \<and>
    (b \<longrightarrow> dsteps t = dsteps (snd (persist_steps (d_pk dep) s)))"
proof -
  let ?h = "str_nat (d_pk dep)"
  have u_wf: "lock_wf u" using wf by (simp add: u_def superseded_wf)
  obtain l1 t1 where t1: "acquire w ScopeSite (str_nat (s_pk site)) KindDeploy ?h u = (Inr l1, t1)"
    using acquire_never_raises by blast
  obtain l2 t2 where t2: "acquire w ScopeTarget (str_nat tg) KindDeploy ?h t1 = (Inr l2, t2)"
    using acquire_never_raises by blast
  have wf1: "lock_wf t1" using acquire_wf [OF u_wf, of w ScopeSite "str_nat (s_pk site)" KindDeploy ?h] t1 by simp
  have wf2: "lock_wf t2" using acquire_wf [OF wf1, of w ScopeTarget "str_nat tg" KindDeploy ?h] t2 by simp
  have h1: "held t1 k = (if k = site_key site \<and> held u k = None then Some ?h else held u k)" for k
    using held_acquire [of w ScopeSite "str_nat (s_pk site)" KindDeploy ?h u k] t1 by (simp add: site_key_def)
  have h2: "held t2 k = (if k = target_key tg \<and> held t1 k = None then Some ?h else held t1 k)" for k
    using held_acquire [of w ScopeTarget "str_nat tg" KindDeploy ?h t1 k] t2 by (simp add: target_key_def)
  have l1: "(l1 = None) = (held u (site_key site) \<noteq> None)" using t1
    by (cases "held u (site_key site)") (auto simp: site_key_def acquire_free acquire_held Let_def)
  have ne: "site_key site \<noteq> target_key tg" by (simp add: site_key_def target_key_def)
  have l2: "(l2 = None) = (held u (target_key tg) \<noteq> None)" using t2 h1 [of "target_key tg"] ne
    by (cases "held u (target_key tg)") (auto simp: target_key_def acquire_free acquire_held Let_def)
  have same: "deployments t1 = deployments u" "deployments t2 = deployments u" "dsteps t2 = dsteps s"
    using frameD [OF acquire_deployments t1] frameD [OF acquire_deployments t2] frameD [OF acquire_dsteps t1]
      frameD [OF acquire_dsteps t2] by (simp_all add: u_def superseded_def)
  have step: "begin_deploy w dep tgt s = (if l1 = None then (Inr False, t1)
      else if l2 = None then (Inr False, snd (release ScopeSite (str_nat (s_pk site)) KindDeploy (Some ?h) t2))
      else andThen (persist_steps (d_pk dep)) (bnd (timezone_now w) (\<lambda>now.
        andThen (save_deployment (d_pk dep) (\<lambda>r. r\<lparr>d_status := Running, d_last_heartbeat := Some now\<rparr>)) (ret True))) t2)"
    using found t1 t2 unfolding u_def
    by (simp add: begin_deploy_def Let_def andThen_Inr [OF supersede_running_eff] bnd_Inr)
      (simp add: ret_def andThen_def bnd_def release_def Let_def)
  consider "l1 = None" | "l1 \<noteq> None" "l2 = None" | "l1 \<noteq> None" "l2 \<noteq> None" by blast
  then show ?thesis
  proof cases
    case 1
    with step l1 h1 wf1 status_of_same [OF same(1)] show ?thesis by auto
  next
    case 2
    let ?t = "snd (release ScopeSite (str_nat (s_pk site)) KindDeploy (Some ?h) t2)"
    have "held ?t k = held u k" for k
      using held_release [OF wf2, of ScopeSite "str_nat (s_pk site)" KindDeploy "Some ?h" k] h1 [of k] h2 [of k] 2 l1 l2 ne
      by (auto simp: site_key_def [symmetric])
    moreover have "status_of (d_pk dep) ?t = status_of (d_pk dep) u"
      using same(2) by (intro status_of_same) (simp add: release_def Let_def)
    ultimately show ?thesis using 2 step l1 l2 release_wf [OF wf2] by auto
  next
    case 3
    let ?v = "snd (persist_steps (d_pk dep) t2)"
    let ?t = "?v\<lparr>ticks := Suc (ticks ?v), deployments := upd_rows (\<lambda>r. d_pk r = d_pk dep)
      (\<lambda>r. r\<lparr>d_status := Running, d_last_heartbeat := Some (w_clock w (ticks ?v))\<rparr>) (deployments ?v)\<rparr>"
    have "begin_deploy w dep tgt s = (Inr True, ?t)"
      using 3 step by (simp add: andThen_def bnd_def persist_steps_eff timezone_now_def save_deployment_def modify_def ret_def)
    moreover have "locks ?t = locks t2" "dsteps ?t = dsteps (snd (persist_steps (d_pk dep) s))"
      using same(3) by (auto simp: persist_steps_eff)
    then have "lock_wf ?t" "held ?t k = held t2 k" for k
      using wf2 by (simp_all add: lock_wf_def held_def)
    moreover have "held t2 k = (if k \<in> {site_key site, target_key tg} then Some ?h else held u k)" for k
      using h1 [of k] h2 [of k] 3 l1 l2 ne by auto
    moreover have "status_of (d_pk dep) ?t = map_option (\<lambda>_. Running) (status_of (d_pk dep) u)"
      using same(2) by (simp add: persist_steps_eff status_of_def deployment_by_pk_def find_upd_rows_key option.map_comp comp_def)
    ultimately show ?thesis using 3 l1 l2 \<open>dsteps ?t = dsteps (snd (persist_steps (d_pk dep) s))\<close> by auto
  qed
qed

lemma begin_deploy_status:
  assumes "lock_wf s" "begin_deploy w dep tgt s = (r, t)"
  shows "status_of (d_pk dep) t = (if r = Inr True then map_option (\<lambda>_. Running) (status_of (d_pk dep) s)
    else status_of (d_pk dep) s)"
proof (cases "Option.bind (deployment_site s dep) (site_by_pk s)")
  case None
  with assms(2) show ?thesis by (auto simp: begin_deploy_def throw_def)
next
  case (Some site)
  show ?thesis
  proof (cases "case tgt of Some t \<Rightarrow> Some t | None \<Rightarrow> s_primary_target site")
    case None
    with Some assms(2) show ?thesis by (auto simp: begin_deploy_def ret_def)
  next
    case (Some tg)
    with begin_deploy_eff [OF \<open>Option.bind (deployment_site s dep) (site_by_pk s) = Some site\<close> Some assms(1), of w] assms(2)
    show ?thesis by (auto simp: status_of_superseded others_running_def)
  qed
qed

lemma bndE:
  assumes "bnd m k s = (r, t)"
  obtains (raise) e where "m s = (Inl e, t)" "r = Inl e" | (go) x u where "m s = (Inr x, u)" "k x u = (r, t)"
  using assms by (auto simp: bnd_def split: prod.splits sum.splits)

lemma andThenE:
  assumes "andThen m n s = (r, t)"
  obtains (raise) e where "m s = (Inl e, t)" "r = Inl e" | (go) x u where "m s = (Inr x, u)" "n u = (r, t)"
  using assms unfolding andThen_def by (rule bndE)

lemma core_lock_wf:
  assumes "core_state t = core_state s"
  shows "lock_wf t = lock_wf s"
proof -
  have "map (\<lambda>l. l\<lparr>l_heartbeat_at := 0\<rparr>) (locks t) = map (\<lambda>l. l\<lparr>l_heartbeat_at := 0\<rparr>) (locks s)"
    using arg_cong [OF assms, of locks] by (simp add: core_state_def unstamped_def)
  from arg_cong [OF this, of "map lock_key"] show ?thesis
    by (simp add: lock_wf_def lock_key_def [abs_def] comp_def)
qed

text \<open>The seams either resolve, refuse (the deployment fails and is unlocked), or raise without touching the status.\<close>

definition guarded_seams :: "world \<Rightarrow> ports \<Rightarrow> bool \<Rightarrow> site \<Rightarrow> nat \<Rightarrow> unit act" where
  "guarded_seams w P injected site d = try_except (resolve_seams w P injected site) (\<lambda>e. case e of
     DeploySeamRefused m \<Rightarrow> andThen (set_status d Failed) (andThen (release_deploy_locks d) (throw e))
   | _ \<Rightarrow> throw e)"

lemma guarded_seams_cases:
  assumes "ports_keep P" "guarded_seams w P injected site d s = (r, t)"
  shows "core_state t = core_state s \<or> (\<exists>e. r = Inl e) \<and> deploy_locks_free d t"
proof -
  obtain r' u where u: "resolve_seams w P injected site s = (r', u)" by fastforce
  have core: "core_state u = core_state s" using frameD [OF seams_core [OF assms(1)] u] .
  show ?thesis
  proof (cases r')
    case (Inr x)
    with u assms(2) core show ?thesis by (simp add: guarded_seams_def try_except_def)
  next
    case (Inl e)
    show ?thesis
    proof (cases "\<exists>m. e = DeploySeamRefused m")
      case True
      then have "t = snd (release_deploy_locks d (snd (set_status d Failed u)))" "\<exists>e. r = Inl e"
        using u Inl assms(2)
        by (auto simp: guarded_seams_def try_except_def andThen_def bnd_def set_status_deployments
            release_deploy_locks_eff throw_def)
      then show ?thesis using release_deploy_locks_free by blast
    next
      case False
      with u Inl assms(2) core show ?thesis
        by (cases e) (simp_all add: guarded_seams_def try_except_def throw_def)
    qed
  qed
qed

text \<open>What follows once the seams are resolved.\<close>

definition start_and_drive :: "world \<Rightarrow> ports \<Rightarrow> deployment \<Rightarrow> site \<Rightarrow> exec_result act" where
  "start_and_drive w P dep site =
     bnd (if d_status dep = Queued then begin_deploy w dep None else ret True) (\<lambda>started.
     if \<not> started then ret NotStarted
     else bnd (current_status (d_pk dep)) (\<lambda>st.
       let st' = (if d_status dep = Queued then st else d_status dep) in
       if st' \<noteq> Running then ret (NotRunning st') else drive w P dep site))"

lemma execute_alt:
  assumes "deployment_by_pk s k = Some dep" "Option.bind (deployment_site s dep) (site_by_pk s) = Some site"
  shows "execute w P injected k s = andThen (test_guard w site)
    (andThen (guarded_seams w P injected site (d_pk dep)) (start_and_drive w P dep site)) s"
  using assms by (simp add: execute_def guarded_seams_def start_and_drive_def Let_def)

lemma start_and_drive_locks:
  assumes "lock_wf s" "status_of (d_pk dep) s = Some (d_status dep)" "d_status dep \<in> {Queued, Running}"
    "start_and_drive w P dep site s = (r, t)" "status_of (d_pk dep) t = Some st" "terminal st"
  shows "deploy_locks_free (d_pk dep) t"
proof -
  have stop: "status_of (d_pk dep) u = Some x \<Longrightarrow> x \<in> {Queued, Running} \<Longrightarrow> t = u \<Longrightarrow> thesis" for u x thesis
    using assms(5,6) by auto
  from assms(4) [unfolded start_and_drive_def] show ?thesis
  proof (cases rule: bndE)
    case (raise e)
    then have "status_of (d_pk dep) t = Some (d_status dep)"
      using begin_deploy_status [OF assms(1), of w dep None "Inl e" t] assms(2) by (auto simp: ret_def split: if_splits)
    with stop assms(3) show ?thesis by blast
  next
    case (go started u)
    have u: "started \<or> status_of (d_pk dep) u = Some (d_status dep)"
      using go(1) begin_deploy_status [OF assms(1), of w dep None "Inr started" u] assms(2)
      by (auto simp: ret_def split: if_splits)
    show ?thesis
    proof (cases started)
      case False
      with go(2) u assms(3) stop show ?thesis by (auto simp: ret_def)
    next
      case True
      with go(2) obtain x where x: "status_of (d_pk dep) u = Some x"
        using assms(5) by (auto simp: bnd_def current_status_eff split: option.splits)
      let ?x = "if d_status dep = Queued then x else d_status dep"
      show ?thesis
      proof (cases "?x = Running")
        case True
        with go(2) \<open>started\<close> x have "drive w P dep site u = (r, t)" by (simp add: bnd_def current_status_eff Let_def split: if_splits)
        then show ?thesis using assms(5,6) by (rule drive_post)
      next
        case False
        then have "d_status dep = Queued" using assms(3) by auto
        with go(1) \<open>started\<close> False x have "begin_deploy w dep None s = (Inr True, u)" "x \<noteq> Running" by simp_all
        with begin_deploy_status [OF assms(1) this(1)] assms(2) x show ?thesis by simp
      qed
    qed
  qed
qed

lemma execute_locks:
  assumes "ports_keep P" "lock_wf s" "status_of k s \<in> {Some Queued, Some Running}"
    "execute w P injected k s = (r, t)" "status_of k t = Some st" "terminal st"
  shows "deploy_locks_free k t"
proof -
  obtain dep where dep: "deployment_by_pk s k = Some dep" "d_pk dep = k" "status_of k s = Some (d_status dep)"
    using assms(3) find_Some_mem [of "\<lambda>r. d_pk r = k"] by (fastforce simp: status_of_def deployment_by_pk_def)
  have open_status: "d_status dep \<in> {Queued, Running}" using assms(3) dep(3) by auto
  have contra: "status_of k t = status_of k s \<Longrightarrow> thesis" for thesis
    using assms(5,6) open_status dep(3) by auto
  show ?thesis
  proof (cases "Option.bind (deployment_site s dep) (site_by_pk s)")
    case None
    with assms(4) dep(1) have "t = s" by (simp add: execute_def throw_def)
    with contra show ?thesis by blast
  next
    case (Some site)
    from assms(4) [unfolded execute_alt [OF dep(1) Some]] show ?thesis
    proof (cases rule: andThenE)
      case (raise e)
      with contra core_state_same(1) [OF frameD [OF test_guard_state]] show ?thesis by blast
    next
      case (go x u)
      note u = frameD [OF test_guard_state go(1)]
      from go(2) show ?thesis
      proof (cases rule: andThenE)
        case (raise e)
        with guarded_seams_cases [OF assms(1)] core_state_same(1) u contra dep(2) show ?thesis by metis
      next
        case (go y v)
        then have v: "core_state v = core_state s" using guarded_seams_cases [OF assms(1) go(1)] u by auto
        show ?thesis
          using start_and_drive_locks [of v dep w P site r t st] go(2) core_lock_wf [OF v] core_state_same(1) [OF v]
            assms(2,5,6) dep open_status by simp
      qed
    qed
  qed
qed


section \<open>A failing step\<close>

lemma mark_failed_eff:
  "\<exists>t now. mark_failed w dep st s = (Inr (), t) \<and> deploy_locks_free (d_pk dep) t \<and>
     status_of (d_pk dep) t = map_option (\<lambda>_. Failed) (status_of (d_pk dep) s) \<and>
     dsteps t = upd_rows (\<lambda>r. st_deployment r = st_deployment st \<and> st_seq r = st_seq st)
       (\<lambda>r. r\<lparr>st_status := StFailed, st_finished := Some now\<rparr>) (dsteps s)"
proof -
  let ?now = "w_clock w (ticks s)"
  let ?u = "s\<lparr>ticks := Suc (ticks s), dsteps := upd_rows (\<lambda>r. st_deployment r = st_deployment st \<and> st_seq r = st_seq st)
       (\<lambda>r. r\<lparr>st_status := StFailed, st_finished := Some ?now\<rparr>) (dsteps s),
     deployments := upd_rows (\<lambda>r. d_pk r = d_pk dep) (\<lambda>r. r\<lparr>d_status := Failed\<rparr>) (deployments s)\<rparr>"
  let ?t = "snd (release_deploy_locks (d_pk dep) ?u)"
  have "mark_failed w dep st s = (Inr (), ?t)"
    by (simp add: mark_failed_def bnd_def andThen_def timezone_now_def save_step_def modify_def set_status_deployments
        release_deploy_locks_eff)
  moreover have "deploy_locks_free (d_pk dep) ?t" by (rule release_deploy_locks_free)
  moreover have "status_of (d_pk dep) ?t = map_option (\<lambda>_. Failed) (status_of (d_pk dep) s)"
    using status_of_save [of ?t "\<lambda>k. k = d_pk dep" Failed s "d_pk dep"] by (simp add: release_deploy_locks_eff)
  moreover have "dsteps ?t = dsteps ?u" by (simp add: release_deploy_locks_eff)
  ultimately show ?thesis by auto
qed

lemma attempt_step_fails:
  assumes "ports_keep P" "ds_step x = Some st'" "st_deployment st' = st_deployment st" "st_seq st' = st_seq st"
    "attempt_step w P dep st x s = (Inl e, t)"
  shows "deploy_locks_free (d_pk dep) t \<and> status_of (d_pk dep) t = map_option (\<lambda>_. Failed) (status_of (d_pk dep) s) \<and>
    (\<forall>r \<in> set (dsteps t). step_row (st_deployment st) (st_seq st) r \<longrightarrow> st_status r = StFailed)"
proof -
  obtain rv v where rv: "dispatch_step w P dep (st_name st) x s = (rv, v)" by fastforce
  with assms(5) obtain e' where "rv = Inl e'" by (cases rv) (auto simp: attempt_step_def try_except_def)
  with rv assms(5) have v: "dispatch_step w P dep (st_name st) x s = (Inl e', v)"
    "andThen (mark_failed w dep st) (throw e' :: unit act) v = (Inl e, t)"
    by (simp_all add: attempt_step_def try_except_def)
  from mark_failed_eff [of w dep st v] obtain u now where u: "mark_failed w dep st v = (Inr (), u)" "deploy_locks_free (d_pk dep) u"
    "status_of (d_pk dep) u = map_option (\<lambda>_. Failed) (status_of (d_pk dep) v)"
    "dsteps u = upd_rows (\<lambda>r. st_deployment r = st_deployment st \<and> st_seq r = st_seq st)
       (\<lambda>r. r\<lparr>st_status := StFailed, st_finished := Some now\<rparr>) (dsteps v)" by blast
  have "t = u" using v(2) u(1) by (simp add: andThen_def bnd_def throw_def)
  moreover have "status_of (d_pk dep) v = status_of (d_pk dep) s"
    using frameD [OF step_core_run_frame [OF dispatch_cores [OF assms(1-4)]] v(1)] by (rule run_frame_status)
  ultimately show ?thesis using u by (auto simp: set_upd_rows step_row_def)
qed

lemma settle_step_returns: "st_name st \<noteq> Cutover \<Longrightarrow> raises (settle_step w P dep st x) Q"
  unfolding settle_step_def save_step_def when_do_def
  by simp (intro raises_rules timezone_now_raises touch_heartbeat_raises)

lemma run_step_fails:
  assumes "ports_keep P" "st_name st \<noteq> Cutover" "run_step w P dep st x s = (Inl e, t)"
  shows "deploy_locks_free (d_pk dep) t \<and> status_of (d_pk dep) t = map_option (\<lambda>_. Failed) (status_of (d_pk dep) s) \<and>
    (\<forall>r \<in> set (dsteps t). step_row (st_deployment st) (st_seq st) r \<longrightarrow> st_status r = StFailed)"
proof -
  let ?x = "work_of w st x s" and ?u = "marked_running w dep st s"
  have u: "status_of (d_pk dep) ?u = status_of (d_pk dep) s"
    unfolding marked_running_def frame_snd [OF touch_status] by (rule status_of_same) simp
  have step: "ds_step ?x = Some (st\<lparr>st_status := StRunning, st_started := Some (w_clock w (ticks s))\<rparr>)" by (simp add: work_of_def)
  from assms(3) [unfolded run_step_alt] show ?thesis
  proof (cases rule: andThenE)
    case (raise e')
    then show ?thesis using attempt_step_fails [OF assms(1) step, of st w dep ?u e t] u by simp
  next
    case (go y v)
    then show ?thesis using settle_step_returns [OF assms(2), of w P dep ?x "\<lambda>_. False"] by (auto dest: raisesD)
  qed
qed


section \<open>Resuming\<close>

text \<open>Steps that are done are not run again: a run behaves as if it began at the first open step.\<close>

lemma run_steps_resume:
  "status_of (d_pk dep) s = Some Running \<Longrightarrow>
   run_steps w P dep x sts s = run_steps w P dep x (dropWhile step_done sts) s"
proof (induction sts)
  case (Cons st sts)
  then show ?case by (cases "step_done st") (simp_all add: bnd_def current_status_eff)
qed simp

lemma resume_step_hd: "resume_step s d = (case dropWhile step_done (steps_of s d) of [] \<Rightarrow> None | r # _ \<Rightarrow> Some r)"
proof -
  have "find (\<lambda>r. \<not> step_done r) xs = (case dropWhile step_done xs of [] \<Rightarrow> None | r # _ \<Rightarrow> Some r)" for xs
    by (induction xs) auto
  then show ?thesis by (simp add: resume_step_def)
qed

section \<open>Runs that return\<close>

lemma persist_unique:
  assumes "steps_unique s"
  shows "steps_unique (snd (persist_steps d s))"
proof (cases "\<exists>r \<in> set (dsteps s). st_deployment r = d")
  case True
  with assms show ?thesis by (simp add: persist_steps_eff)
next
  case False
  have "distinct (map (\<lambda>r. (st_deployment r, st_seq r)) (map (\<lambda>(q, n). new_step d q n) (enumerate 1 step_names)))"
    by (simp add: new_step_def step_names_def)
  moreover have "st_deployment ` set (map (\<lambda>(q, n). new_step d q n) (enumerate 1 step_names)) \<subseteq> {d}"
    by (auto simp: new_step_def)
  ultimately show ?thesis using assms False
    by (auto simp: persist_steps_eff steps_unique_def)
qed

lemma release_if_terminal_rows:
  "dsteps (snd (release_if_terminal d s)) = dsteps s \<and> deployments (snd (release_if_terminal d s)) = deployments s"
  by (simp add: release_if_terminal_def bnd_def current_status_eff when_do_def release_deploy_locks_eff ret_def split: option.split)

lemma drive_succeeded:
  assumes "ports_keep P" "steps_unique s" "status_of (d_pk dep) s = Some Running" "drive w P dep site s = (Inr y, t)"
  shows "y = Ran Succeeded \<and> status_of (d_pk dep) t = Some Succeeded \<and> list_all step_done (steps_of t (d_pk dep))"
proof -
  let ?u = "snd (touch_heartbeat w (d_pk dep) s)"
  obtain r v where v: "execute_running w P dep site ?u = (r, v)" by fastforce
  have t: "r = Inr y" "t = snd (release_if_terminal (d_pk dep) v)"
    using assms(4) v by (auto simp: drive_def andThen_touch try_finally_def split: prod.splits sum.splits)
  have "steps_unique ?u" "status_of (d_pk dep) ?u = Some Running"
    using assms(2,3) frame_snd [OF touch_status] by (simp_all add: steps_unique_def touch_heartbeat_dsteps)
  with v t(1) have "y = Ran Succeeded \<and> status_of (d_pk dep) v = Some Succeeded \<and> list_all step_done (steps_of v (d_pk dep))"
    using execute_running_succeeded [OF assms(1)] by blast
  with t(2) release_if_terminal_rows [of "d_pk dep" v] status_of_same [of t v] show ?thesis by (simp add: steps_of_def)
qed

lemma begin_deploy_unique:
  assumes "lock_wf s" "steps_unique s" "begin_deploy w dep None s = (Inr True, t)"
  shows "steps_unique t"
proof (cases "Option.bind (deployment_site s dep) (site_by_pk s)")
  case None
  with assms(3) show ?thesis by (simp add: begin_deploy_def throw_def)
next
  case (Some site)
  show ?thesis
  proof (cases "s_primary_target site")
    case None
    with Some assms(3) show ?thesis by (simp add: begin_deploy_def ret_def)
  next
    case (Some tg)
    with begin_deploy_eff [OF \<open>Option.bind (deployment_site s dep) (site_by_pk s) = Some site\<close> _ assms(1), of None tg w] assms(3)
    have "dsteps t = dsteps (snd (persist_steps (d_pk dep) s))" by auto
    with persist_unique [OF assms(2)] show ?thesis by (simp add: steps_unique_def)
  qed
qed

lemma start_and_drive_succeeded:
  assumes "ports_keep P" "lock_wf s" "steps_unique s" "status_of (d_pk dep) s = Some (d_status dep)"
    "start_and_drive w P dep site s = (Inr (Ran x), t)"
  shows "x = Succeeded \<and> status_of (d_pk dep) t = Some Succeeded \<and> list_all step_done (steps_of t (d_pk dep))"
proof -
  obtain started u where u: "(if d_status dep = Queued then begin_deploy w dep None else ret True) s = (Inr started, u)"
    "(if \<not> started then ret NotStarted else bnd (current_status (d_pk dep)) (\<lambda>st.
       let st' = (if d_status dep = Queued then st else d_status dep) in
       if st' \<noteq> Running then ret (NotRunning st') else drive w P dep site)) u = (Inr (Ran x), t)"
    using assms(5) unfolding start_and_drive_def fst_bnd_Inr by blast
  then have go: "started" "drive w P dep site u = (Inr (Ran x), t)"
    "(if d_status dep = Queued then status_of (d_pk dep) u else Some (d_status dep)) = Some Running"
    by (auto simp: ret_def bnd_def current_status_eff Let_def split: if_splits option.splits)
  have "steps_unique u \<and> status_of (d_pk dep) u = Some Running"
  proof (cases "d_status dep = Queued")
    case True
    with u(1) go show ?thesis using begin_deploy_unique [OF assms(2,3)] by simp
  next
    case False
    with u(1) go assms(3,4) show ?thesis by (simp add: ret_def)
  qed
  with drive_succeeded [OF assms(1)] go(2) show ?thesis by blast
qed

lemma execute_succeeded:
  assumes "ports_keep P" "lock_wf s" "steps_unique s" "execute w P injected k s = (Inr (Ran x), t)"
  shows "x = Succeeded \<and> status_of k t = Some Succeeded \<and> list_all step_done (steps_of t k)"
proof -
  obtain dep site where f: "deployment_by_pk s k = Some dep" "Option.bind (deployment_site s dep) (site_by_pk s) = Some site"
    using assms(4) by (cases "deployment_by_pk s k"; cases "Option.bind (deployment_site s (the (deployment_by_pk s k))) (site_by_pk s)")
      (auto simp: execute_def throw_def)
  then have dep: "d_pk dep = k" "status_of k s = Some (d_status dep)"
    using find_Some_mem [of "\<lambda>r. d_pk r = k"] by (fastforce simp: deployment_by_pk_def status_of_def)+
  obtain a u b v where u: "test_guard w site s = (Inr a, u)" "guarded_seams w P injected site k u = (Inr b, v)"
    "start_and_drive w P dep site v = (Inr (Ran x), t)"
    using assms(4) unfolding execute_alt [OF f] andThen_def fst_bnd_Inr dep(1) by blast
  have "core_state v = core_state s"
    using frameD [OF test_guard_state u(1)] guarded_seams_cases [OF assms(1) u(2)] by auto
  then have "lock_wf v" "steps_unique v" "status_of (d_pk dep) v = Some (d_status dep)"
    using core_lock_wf [of v s] core_state_same [of v s] assms(2,3) dep by (simp_all add: steps_unique_def)
  from start_and_drive_succeeded [OF assms(1) this u(3)] show ?thesis by (simp add: dep(1))
qed


section \<open>Properties\<close>

definition test_zone :: network_zone where
  "test_zone = \<lparr>z_pk = 1, z_workspace = 1, z_name = ''home'', z_slug = ''home'', z_purpose = PurposeProd\<rparr>"

definition sample_target :: target where
  "sample_target = \<lparr>t_pk = 3, t_zone = test_zone, t_kind = Ssh, t_host = ''203.0.113.7'', t_provider_ref = None,
     t_ssh_user = ''deploy'', t_ssh_key_ref = [], t_host_key_fingerprint = [], t_lifecycle = Permanent, t_status = TgReady,
     t_collect_payload = JNull, t_collect_at = None, t_collect_log_inode = None, t_collect_log_offset = 0\<rparr>"

definition sample_site :: site where
  "sample_site = \<lparr>s_pk = 7, s_workspace = 1, s_project = 1, s_name = ''shop'', s_domain = [], s_exposure = MeshOnly,
     s_environment = Production, s_deploy_strategy = BlueGreen, s_deploy_policy = PolicyAuto, s_deploy_window_cron = [],
     s_maintenance_until = None, s_reconcile_enabled = True, s_liveness_path = [], s_readiness_path = [],
     s_warmup_timeout_s = 60, s_config_stale = True, s_scale_ready = False, s_primary_target = Some 3, s_dns_zone = None,
     s_proxied = True, s_edge_owner = HostCaddy, s_preview_of = None, s_preview_ref = []\<rparr>"

definition sample_manifest :: manifest where
  "sample_manifest = \<lparr>mf_pk = 2, mf_site = 7, mf_version = 1, mf_schema_version = 1, mf_body = JObj [],
     mf_scan_report_hash = [], mf_scanned_at = None, mf_created_at = 0\<rparr>"

definition queued :: "nat \<Rightarrow> deployment" where
  "queued k = \<lparr>d_pk = k, d_manifest = 2, d_status = Queued, d_last_heartbeat = None, d_rollback_of = None\<rparr>"

definition sample_hub :: hub where
  "sample_hub = empty_hub\<lparr>targets := [sample_target], sites := [sample_site], manifests := [sample_manifest],
     deployments := [queued 5]\<rparr>"

text \<open>A world whose target answers every probe with success and reports ready.\<close>

definition ready_world :: world where
  "ready_world = calm_world\<lparr>w_shell := (\<lambda>_. Inr \<lparr>exit_code = 0, stdout = ''true'', stderr = []\<rparr>),
     w_loads := (\<lambda>_. Some (JObj [(''ready'', JBool True)]))\<rparr>"

text \<open>
  Starting a deployment. \<open>begin_deploy\<close> first supersedes and unlocks every other running deployment of
  the site; it then succeeds exactly when neither the site nor the target is locked for deploys. On
  success the deployment holds both locks, is running, and has its steps persisted; otherwise it holds
  nothing new and its status is unchanged. In both cases the uniqueness of locks is kept.
\<close>

theorem begin_deploy_outcome:
  fixes s :: hub
  assumes "Option.bind (deployment_site s dep) (site_by_pk s) = Some site"
    "(case tgt of Some t \<Rightarrow> Some t | None \<Rightarrow> s_primary_target site) = Some tg" "lock_wf s"
  shows "let u = superseded (d_pk ` set (others_running s (s_pk site) (d_pk dep))) s;
      started = (held u (site_key site) = None \<and> held u (target_key tg) = None)
    in \<exists>t. begin_deploy w dep tgt s = (Inr started, t) \<and> lock_wf t \<and>
      (\<forall>k. held t k = (if started \<and> k \<in> {site_key site, target_key tg} then Some (str_nat (d_pk dep)) else held u k)) \<and>
      status_of (d_pk dep) t = (if started then map_option (\<lambda>_. Running) (status_of (d_pk dep) s) else status_of (d_pk dep) s) \<and>
      (started \<longrightarrow> dsteps t = dsteps (snd (persist_steps (d_pk dep) s)))"
proof -
  let ?u = "superseded (d_pk ` set (others_running s (s_pk site) (d_pk dep))) s"
  have "status_of (d_pk dep) ?u = status_of (d_pk dep) s"
    by (auto simp: status_of_superseded others_running_def)
  with begin_deploy_eff [OF assms, of w] show ?thesis
    unfolding Let_def by (elim exE conjE) (auto simp del: split_paired_All)
qed

lemma sample_lookups:
  "deployment_site sample_hub (queued 5) = Some 7" "site_by_pk sample_hub 7 = Some sample_site"
  "deployment_by_pk sample_hub 5 = Some (queued 5)" "status_of 5 sample_hub = Some Queued" "lock_wf sample_hub"
  by (simp_all add: deployment_site_def manifest_site_def manifest_by_pk_def site_by_pk_def deployment_by_pk_def status_of_def lock_wf_def
      sample_hub_def sample_manifest_def sample_site_def queued_def)

theorem begin_deploy_outcome_witness:
  "\<exists>t. begin_deploy calm_world (queued 5) None sample_hub = (Inr True, t) \<and> status_of 5 t = Some Running \<and>
     held t (ScopeSite, ''7'', KindDeploy) = Some ''5'' \<and> held t (ScopeTarget, ''3'', KindDeploy) = Some ''5''"
proof -
  have nums: "str_nat 7 = ''7''" "str_nat 3 = ''3''" "str_nat 5 = ''5''" by code_simp+
  have none: "others_running sample_hub 7 5 = []" "held (superseded {} sample_hub) k = None" for k
    by (simp_all add: others_running_def sample_hub_def queued_def held_def superseded_def)
  show ?thesis
    using begin_deploy_outcome [of sample_hub "queued 5" sample_site None 3 calm_world] sample_lookups none nums
    by (auto simp: Let_def site_key_def target_key_def sample_site_def queued_def)
qed


text \<open>A deployment whose worker died after the last step: nine steps succeeded, still running, still locked.\<close>

definition done_hub :: hub where
  "done_hub = sample_hub\<lparr>deployments := [(queued 5)\<lparr>d_status := Running\<rparr>],
     dsteps := map (\<lambda>(q, n). (new_step 5 q n)\<lparr>st_status := StSucceeded\<rparr>) (enumerate 1 step_names),
     locks := [\<lparr>l_workspace = 1, l_scope = ScopeSite, l_object_id = ''7'', l_kind = KindDeploy, l_holder = ''5'',
       l_acquired_at = 0, l_heartbeat_at = 0\<rparr>]\<rparr>"

lemma andThen_modify: "andThen (modify f) n s = n (f s)"
  by (simp add: andThen_def bnd_def modify_def)

lemma all_done_returns:
  "list_all step_done sts \<Longrightarrow> status_of (d_pk dep) s = Some Running \<Longrightarrow> run_steps w P dep x sts s = (Inr None, s)"
  by (induction sts) (simp_all add: ret_def bnd_def current_status_eff)

lemma done_lookups:
  "deployment_by_pk done_hub 5 = Some ((queued 5)\<lparr>d_status := Running\<rparr>)" "status_of 5 done_hub = Some Running"
  "Option.bind (deployment_site done_hub ((queued 5)\<lparr>d_status := Running\<rparr>)) (site_by_pk done_hub) = Some sample_site"
  "lock_wf done_hub" "steps_unique done_hub" "list_all step_done (steps_of done_hub 5)"
  "body_of done_hub ((queued 5)\<lparr>d_status := Running\<rparr>) = []"
  by (simp_all add: deployment_site_def manifest_site_def manifest_by_pk_def site_by_pk_def deployment_by_pk_def status_of_def
      lock_wf_def done_hub_def sample_hub_def sample_manifest_def sample_site_def queued_def steps_unique_def list_all_iff
      steps_of_def step_done_def new_step_def body_of_def step_names_def enumerate_eq_zip upt_rec)



lemma base_desired_ok: "body_of s dep = [] \<Longrightarrow> \<exists>d. base_desired w s dep site = Inr d"
  by (simp add: base_desired_def Let_def jget_def list_or_empty_def or_else_def split: prod.split)

lemma assemble_ok: "body_of s dep = [] \<Longrightarrow> \<exists>d. assemble_desired w s dep site = Inr d"
  using base_desired_ok [of s dep w site] by (auto simp: assemble_desired_def Let_def)

lemma done_run:
  "\<exists>t. execute calm_world quiet_ports True 5 done_hub = (Inr (Ran Succeeded), t) \<and> status_of 5 t = Some Succeeded"
proof -
  let ?dep = "(queued 5)\<lparr>d_status := Running\<rparr>"
  let ?u = "snd (touch_heartbeat calm_world 5 done_hub)"
  have un: "unstamped ?u = unstamped done_hub" using touch_heartbeat_unstamped unfolding evolves_def same_def by blast
  have st: "status_of 5 ?u = Some Running" using done_lookups(2) frame_snd [OF touch_status] by simp
  have "manifests ?u = manifests done_hub" using unstamped_eqD(10) [OF un] .
  then have body: "body_of (?u\<lparr>tls_app_cache := None\<rparr>) ?dep = []"
    using done_lookups(7) by (simp add: body_of_def manifest_by_pk_def)
  obtain d where d: "assemble_desired calm_world (?u\<lparr>tls_app_cache := None\<rparr>) ?dep sample_site = Inr d"
    using assemble_ok [OF body] by blast
  let ?v = "?u\<lparr>tls_app_cache := None\<rparr>"
  have steps: "steps_of ?v 5 = steps_of done_hub 5" using unstamped_eqD(6) [OF un] by (simp add: steps_of_def)
  have stv: "status_of 5 ?v = Some Running" using st status_of_same [of ?v ?u] by simp
  have pk: "d_pk ?dep = 5" "d_status ?dep = Running" by (simp_all add: queued_def)
  let ?t = "?v\<lparr>deployments := upd_rows (\<lambda>r. d_pk r = 5) (\<lambda>r. r\<lparr>d_status := Succeeded\<rparr>) (deployments ?v),
     sites := upd_rows (\<lambda>r. s_pk r = s_pk sample_site) (\<lambda>r. r\<lparr>s_config_stale := False\<rparr>) (sites ?v)\<rparr>"
  have run: "run_and_settle calm_world quiet_ports ?dep sample_site x ?v = (Inr (Ran Succeeded), ?t)" for x
    using all_done_returns [OF done_lookups(6), of ?dep ?v calm_world quiet_ports x] stv pk(1)
    by (simp add: run_and_settle_def steps gets_def bnd_def current_status_eff andThen_def set_status_deployments
        save_site_def modify_def ret_def)
  have ex: "execute_running calm_world quiet_ports ?dep sample_site ?u = (Inr (Ran Succeeded), ?t)"
    using d run by (simp add: execute_running_def andThen_modify pk) (simp add: quiet_ports_def)
  have stt: "status_of 5 ?t = Some Succeeded"
    using status_of_save [of ?t "\<lambda>k. k = 5" Succeeded ?v 5] stv by simp
  have drive: "drive calm_world quiet_ports ?dep sample_site done_hub = (Inr (Ran Succeeded), snd (release_deploy_locks 5 ?t))"
    using ex stt pk
    by (simp add: drive_def andThen_touch try_finally_def release_if_terminal_def bnd_def current_status_eff when_do_def
        release_deploy_locks_eff)
  have plain: "\<not> w_test_mode calm_world" by (simp add: calm_world_def)
  have "execute calm_world quiet_ports True 5 done_hub = start_and_drive calm_world quiet_ports ?dep sample_site done_hub"
    unfolding execute_alt [OF done_lookups(1,3)]
    by (simp add: plain andThen_def bnd_def test_guard_def ret_def guarded_seams_def resolve_seams_def try_except_def)
  also have "\<dots> = (Inr (Ran Succeeded), snd (release_deploy_locks 5 ?t))"
    using drive pk done_lookups(2) by (simp add: start_and_drive_def bnd_def ret_def current_status_eff)
  finally have "execute calm_world quiet_ports True 5 done_hub = (Inr (Ran Succeeded), snd (release_deploy_locks 5 ?t))" .
  moreover have "status_of 5 (snd (release_deploy_locks 5 ?t)) = Some Succeeded"
    using stt status_of_same [of "snd (release_deploy_locks 5 ?t)" ?t] by (simp add: release_deploy_locks_eff)
  ultimately show ?thesis by blast
qed





text \<open>A target whose shell cannot be reached.\<close>

definition dead_world :: world where
  "dead_world = calm_world\<lparr>w_shell := (\<lambda>_. Inl (OtherError ''SSHException''))\<rparr>"

definition build_step :: deployment_step where
  "build_step = new_step 5 1 Build"


text \<open>
  Resumption. A run of a running deployment over its persisted steps behaves exactly like a run that
  begins at the resume pointer: steps that are succeeded or skipped are not executed again.
\<close>

theorem resume_at_first_open_step:
  assumes "status_of (d_pk dep) s = Some Running"
  shows "run_steps w P dep x (steps_of s (d_pk dep)) s =
      run_steps w P dep x (dropWhile step_done (steps_of s (d_pk dep))) s \<and>
    resume_step s (d_pk dep) = (case dropWhile step_done (steps_of s (d_pk dep)) of [] \<Rightarrow> None | r # _ \<Rightarrow> Some r)"
  using run_steps_resume [OF assms] resume_step_hd by blast

theorem resume_at_first_open_step_witness:
  "run_steps calm_world quiet_ports ((queued 5)\<lparr>d_status := Running\<rparr>) sample_desired (steps_of done_hub 5) done_hub = (Inr None, done_hub)"
proof -
  have "dropWhile step_done (steps_of done_hub 5) = []"
    using done_lookups(6) by (simp add: list_all_iff)
  with resume_at_first_open_step [of "(queued 5)\<lparr>d_status := Running\<rparr>" done_hub calm_world quiet_ports sample_desired] done_lookups(2)
  show ?thesis by (simp add: queued_def ret_def)
qed

end
