(* ===== verification/Liveness.thy ===== *)
theory Liveness
  imports Pipeline_Facts
begin

text \<open>
  \<open>deploys/heartbeat.py\<close>: the sweep over running deployments whose heartbeat is older than two minutes. It
  finalises those whose steps are all done, aborts those with a failed step, and claims and re-enqueues
  the rest.
\<close>

section \<open>The sweep\<close>

definition STALE_AFTER :: int where
  "STALE_AFTER = minutes 2"

definition stale :: "time \<Rightarrow> deployment \<Rightarrow> bool" where
  "stale cutoff r = (d_status r = Running \<and> (case d_last_heartbeat r of None \<Rightarrow> True | Some h \<Rightarrow> h < cutoff))"

datatype swept = Finalised | Aborted | Resumed | Passed

text \<open>\<open>filter(pk=pk, status=RUNNING).update(status=...)\<close>, and the locks when a row was updated.\<close>

definition close_running :: "nat \<Rightarrow> deployment_status \<Rightarrow> bool act" where
  "close_running k st = bnd (gets (\<lambda>s. \<exists>r \<in> set (deployments s). d_pk r = k \<and> d_status r = Running)) (\<lambda>updated.
     andThen (modify (\<lambda>s. s\<lparr>deployments := upd_rows (\<lambda>r. d_pk r = k \<and> d_status r = Running) (\<lambda>r. r\<lparr>d_status := st\<rparr>) (deployments s)\<rparr>))
     (andThen (when_do updated (release_deploy_locks k)) (ret updated)))"

definition sweep_one :: "world \<Rightarrow> nat \<Rightarrow> swept act" where
  "sweep_one w k = bnd (current_status k) (\<lambda>st.
     if st \<noteq> Running then ret Passed
     else bnd (gets (\<lambda>s. resume_step s k)) (\<lambda>pointer.
       case pointer of
         None \<Rightarrow> andThen (close_running k Succeeded) (ret Finalised)
       | Some p \<Rightarrow>
           if st_status p = StFailed
           then bnd (close_running k Failed) (\<lambda>updated. ret (if updated then Aborted else Passed))
           else bnd (current_status k) (\<lambda>again.
             if again \<noteq> Running then ret Passed
             else andThen (touch_heartbeat w k) (ret Resumed))))"

fun sweep_ids :: "world \<Rightarrow> nat list \<Rightarrow> (nat list \<times> nat list) act" where
  "sweep_ids w [] = ret ([], [])"
| "sweep_ids w (k # ks) = bnd (sweep_one w k) (\<lambda>out.
     bnd (sweep_ids w ks) (\<lambda>(resumed, aborted).
     ret (if out = Resumed then k # resumed else resumed, if out = Aborted then k # aborted else aborted)))"

text \<open>The result is the lists of resumed (that is, enqueued) and aborted deployments.\<close>

definition sweep :: "world \<Rightarrow> (nat list \<times> nat list) act" where
  "sweep w = bnd (timezone_now w) (\<lambda>now.
     bnd (gets (\<lambda>s. map d_pk (filter (stale (now - STALE_AFTER)) (deployments s)))) (sweep_ids w))"


section \<open>What it does to one deployment\<close>

definition status_after :: "hub \<Rightarrow> nat \<Rightarrow> deployment_status" where
  "status_after s k = (case resume_step s k of None \<Rightarrow> Succeeded
     | Some p \<Rightarrow> if st_status p = StFailed then Failed else Running)"

definition swept_as :: "hub \<Rightarrow> nat \<Rightarrow> swept" where
  "swept_as s k = (case status_after s k of Succeeded \<Rightarrow> Finalised | Failed \<Rightarrow> Aborted | _ \<Rightarrow> Resumed)"

text \<open>The tables the sweep reads and does not write.\<close>

definition sweep_frame :: "hub \<Rightarrow> deployment_step list \<times> site list \<times> call list \<times> nat list" where
  "sweep_frame s = (dsteps s, sites s, calls s, map d_pk (deployments s))"

lemma map_pk_upd [simp]: "map d_pk (upd_rows p (\<lambda>r. r\<lparr>d_status := x\<rparr>) ds) = map d_pk ds"
  by (simp add: upd_rows_def)

lemma pk_unique: "distinct (map d_pk xs) \<Longrightarrow> r \<in> set xs \<Longrightarrow> r0 \<in> set xs \<Longrightarrow> d_pk r = d_pk r0 \<Longrightarrow> r = r0"
  by (auto simp: distinct_map inj_on_def)

lemma close_running_eff:
  assumes "status_of k s = Some Running" "distinct (map d_pk (deployments s))"
  shows "\<exists>t. close_running k st s = (Inr True, t) \<and> sweep_frame t = sweep_frame s \<and> deploy_locks_free k t \<and>
    (\<forall>j. status_of j t = (if j = k then Some st else status_of j s))"
proof -
  obtain r0 where r0: "find (\<lambda>r. d_pk r = k) (deployments s) = Some r0" "d_status r0 = Running"
    using assms(1) by (auto simp: status_of_def deployment_by_pk_def)
  then have k: "r0 \<in> set (deployments s)" "d_pk r0 = k" using find_Some_mem by fastforce+
  have all: "d_status r = Running" if "r \<in> set (deployments s)" "d_pk r = k" for r
    using pk_unique [OF assms(2) that(1) k(1)] r0(2) k(2) that(2) by simp
  have rows: "upd_rows (\<lambda>r. d_pk r = k \<and> d_status r = Running) (\<lambda>r. r\<lparr>d_status := st\<rparr>) (deployments s) =
      upd_rows (\<lambda>r. d_pk r = k) (\<lambda>r. r\<lparr>d_status := st\<rparr>) (deployments s)"
    using all by (auto simp: upd_rows_def)
  let ?u = "s\<lparr>deployments := upd_rows (\<lambda>r. d_pk r = k) (\<lambda>r. r\<lparr>d_status := st\<rparr>) (deployments s)\<rparr>"
  let ?t = "snd (release_deploy_locks k ?u)"
  have "close_running k st s = (Inr True, ?t)"
  proof -
    have "\<exists>r \<in> set (deployments s). d_pk r = k \<and> d_status r = Running" using k r0(2) by blast
    then show ?thesis
      by (simp add: close_running_def andThen_def bnd_def gets_def modify_def rows when_do_def release_deploy_locks_eff ret_def)
  qed
  moreover have "status_of j ?t = (if j = k then Some st else status_of j s)" for j
    using status_of_save [of ?t "\<lambda>j. j = k" st s j] assms(1) by (auto simp: release_deploy_locks_eff)
  moreover have "sweep_frame ?t = sweep_frame s" by (simp add: sweep_frame_def release_deploy_locks_eff)
  ultimately show ?thesis using release_deploy_locks_free by blast
qed

lemma touch_sweep_frame: "sweep_frame (snd (touch_heartbeat w k s)) = sweep_frame s"
proof -
  have "unstamped (snd (touch_heartbeat w k s)) = unstamped s"
    using touch_heartbeat_unstamped unfolding evolves_def same_def by blast
  from unstamped_eqD [OF this] show ?thesis by (simp add: sweep_frame_def)
qed

lemma sweep_one_eff:
  assumes "status_of k s = Some Running" "distinct (map d_pk (deployments s))"
  shows "\<exists>t. sweep_one w k s = (Inr (swept_as s k), t) \<and> sweep_frame t = sweep_frame s \<and>
    (terminal (status_after s k) \<longrightarrow> deploy_locks_free k t) \<and>
    (\<forall>j. status_of j t = (if j = k then Some (status_after s k) else status_of j s))"
proof (cases "terminal (status_after s k)")
  case True
  then have "status_after s k \<in> {Succeeded, Failed}"
    by (auto simp: status_after_def split: option.splits if_splits)
  moreover obtain t where "close_running k (status_after s k) s = (Inr True, t)" "sweep_frame t = sweep_frame s" "deploy_locks_free k t"
      "\<forall>j. status_of j t = (if j = k then Some (status_after s k) else status_of j s)"
    using close_running_eff [OF assms] by blast
  ultimately show ?thesis using assms(1)
    by (auto simp: sweep_one_def bnd_def current_status_eff swept_as_def status_after_def andThen_def ret_def gets_def
        split: option.splits if_splits)
next
  case False
  then obtain p where p: "resume_step s k = Some p" "st_status p \<noteq> StFailed" "status_after s k = Running"
    by (auto simp: status_after_def split: option.splits if_splits)
  then have "sweep_one w k s = (Inr Resumed, snd (touch_heartbeat w k s))"
    using assms(1) by (simp add: sweep_one_def bnd_def current_status_eff gets_def andThen_touch ret_def)
  with p assms(1) touch_sweep_frame frame_snd [OF touch_status] show ?thesis
    by (auto simp: swept_as_def)
qed

lemma resume_step_frame: "sweep_frame t = sweep_frame s \<Longrightarrow> resume_step t k = resume_step s k"
  by (simp add: sweep_frame_def resume_step_def steps_of_def)

lemma sweep_ids_eff:
  "distinct ks \<Longrightarrow> (\<And>k. k \<in> set ks \<Longrightarrow> status_of k s = Some Running) \<Longrightarrow> distinct (map d_pk (deployments s)) \<Longrightarrow>
   \<exists>t. sweep_ids w ks s = (Inr (filter (\<lambda>k. swept_as s k = Resumed) ks, filter (\<lambda>k. swept_as s k = Aborted) ks), t) \<and>
     sweep_frame t = sweep_frame s \<and>
     (\<forall>j. status_of j t = (if j \<in> set ks then Some (status_after s j) else status_of j s))"
proof (induction ks arbitrary: s)
  case Nil
  then show ?case by (simp add: ret_def)
next
  case (Cons k ks)
  obtain u where u: "sweep_one w k s = (Inr (swept_as s k), u)" "sweep_frame u = sweep_frame s"
      "\<forall>j. status_of j u = (if j = k then Some (status_after s k) else status_of j s)"
    using sweep_one_eff [OF Cons.prems(2) [of k] Cons.prems(3), of w] by auto
  have same: "swept_as u = swept_as s" "status_after u = status_after s"
    using resume_step_frame [OF u(2)] by (simp_all add: swept_as_def status_after_def fun_eq_iff)
  have "distinct (map d_pk (deployments u))" using u(2) Cons.prems(3) by (simp add: sweep_frame_def)
  moreover have "status_of j u = Some Running" if "j \<in> set ks" for j
    using u(3) Cons.prems that by auto
  ultimately obtain t where "sweep_ids w ks u = (Inr (filter (\<lambda>k. swept_as s k = Resumed) ks, filter (\<lambda>k. swept_as s k = Aborted) ks), t)"
      "sweep_frame t = sweep_frame s" "\<forall>j. status_of j t = (if j \<in> set ks then Some (status_after s j) else status_of j u)"
    using Cons.IH [of u] Cons.prems(1) same u(2) by auto
  then show ?case using u(1,3) by (auto simp: bnd_Inr ret_def)
qed

definition stale_ids :: "world \<Rightarrow> hub \<Rightarrow> nat list" where
  "stale_ids w s = map d_pk (filter (stale (w_clock w (ticks s) - STALE_AFTER)) (deployments s))"

lemma sweep_eff:
  assumes "distinct (map d_pk (deployments s))"
  shows "\<exists>t. sweep w s = (Inr (filter (\<lambda>k. swept_as s k = Resumed) (stale_ids w s),
      filter (\<lambda>k. swept_as s k = Aborted) (stale_ids w s)), t) \<and> sweep_frame t = sweep_frame s \<and>
    (\<forall>j. status_of j t = (if j \<in> set (stale_ids w s) then Some (status_after s j) else status_of j s))"
proof -
  let ?s = "s\<lparr>ticks := Suc (ticks s)\<rparr>"
  have "find (\<lambda>r. d_pk r = d_pk x) xs = Some x" if "distinct (map d_pk xs)" "x \<in> set xs" for x and xs :: "deployment list"
    using that by (induction xs) auto
  then have run: "status_of k ?s = Some Running" if "k \<in> set (stale_ids w s)" for k
    using that assms by (auto simp: stale_ids_def stale_def status_of_def deployment_by_pk_def)
  have "sweep w s = sweep_ids w (stale_ids w s) ?s"
    by (simp add: sweep_def bnd_def timezone_now_def gets_def stale_ids_def)
  moreover have "distinct (stale_ids w s)" using assms by (simp add: stale_ids_def distinct_map_filter)
  moreover have "swept_as ?s = swept_as s" "status_after ?s = status_after s" "sweep_frame ?s = sweep_frame s" "status_of j ?s = status_of j s" for j
    by (simp_all add: swept_as_def status_after_def fun_eq_iff resume_step_def steps_of_def sweep_frame_def status_of_def deployment_by_pk_def)
  ultimately show ?thesis using sweep_ids_eff [of "stale_ids w s" ?s w] run assms by auto
qed


section \<open>Properties\<close>



definition busy_hub :: hub where
  "busy_hub = sample_hub\<lparr>deployments := [queued 5, (queued 4)\<lparr>d_status := Running\<rparr>],
     locks := [\<lparr>l_workspace = 1, l_scope = ScopeTarget, l_object_id = ''3'', l_kind = KindDeploy, l_holder = ''9'',
       l_acquired_at = 0, l_heartbeat_at = 0\<rparr>]\<rparr>"

text \<open>
  A refused start may still have ended the running deployment. With the target locked by somebody else,
  \<open>begin_deploy\<close> returns \<open>False\<close> for a queued deployment, although it has already superseded the deployment of
  the site that was running and released its locks.
\<close>

theorem refused_start_supersedes:
  "fst (begin_deploy w (queued 5) None busy_hub) = Inr False \<and>
   status_of 4 busy_hub = Some Running \<and> status_of 4 (snd (begin_deploy w (queued 5) None busy_hub)) = Some Superseded"
proof -
  have nums: "str_nat 3 = ''3''" "str_nat 4 = ''4''" "str_nat 5 = ''5''" "str_nat 7 = ''7''" by code_simp+
  have look: "Option.bind (deployment_site busy_hub (queued 5)) (site_by_pk busy_hub) = Some sample_site"
    by (simp add: deployment_site_def manifest_site_def manifest_by_pk_def site_by_pk_def busy_hub_def sample_hub_def
        sample_manifest_def sample_site_def queued_def)
  have others: "others_running busy_hub 7 5 = [(queued 4)\<lparr>d_status := Running\<rparr>]"
    by (simp add: others_running_def busy_hub_def deployment_site_def manifest_site_def manifest_by_pk_def sample_hub_def
        sample_manifest_def queued_def)
  let ?u = "superseded {4} busy_hub"
  have locks: "held ?u (ScopeTarget, ''3'', KindDeploy) = Some ''9''" "held ?u (ScopeSite, ''7'', KindDeploy) = None"
    by (simp_all add: superseded_def busy_hub_def held_def deploy_lock_of_def nums lock_key_def)
  have st: "status_of 4 ?u = Some Superseded" "status_of 4 busy_hub = Some Running"
    by (simp_all add: status_of_superseded) (simp_all add: status_of_def deployment_by_pk_def busy_hub_def queued_def)
  obtain l t where t: "acquire w ScopeSite ''7'' KindDeploy ''5'' ?u = (Inr (Some l), t)"
    using acquire_free [OF locks(2)] by (simp add: Let_def)
  then have ht: "held t (ScopeTarget, ''3'', KindDeploy) = Some ''9''" "status_of 4 t = Some Superseded"
    using held_acquire [of w ScopeSite "''7''" KindDeploy "''5''" ?u] locks(1) st(1)
      status_of_same [OF frameD [OF acquire_deployments t]] by simp_all
  let ?v = "t\<lparr>ticks := ticks t + 2\<rparr>"
  have sup: "supersede_running 7 5 busy_hub = (Inr (), ?u)"
    by (simp add: supersede_running_eff others) (simp add: queued_def)
  have again: "acquire w ScopeTarget ''3'' KindDeploy ''5'' t = (Inr None, ?v)" by (rule acquire_held [OF ht(1)])
  have rel: "andThen (release ScopeSite ''7'' KindDeploy (Some ''5'')) (ret False) ?v =
      (Inr False, snd (release ScopeSite ''7'' KindDeploy (Some ''5'') ?v))"
    by (simp add: andThen_def bnd_def release_def ret_def Let_def gets_def modify_def)
  have ids: "d_pk (queued 5) = 5" "s_pk sample_site = 7" "s_primary_target sample_site = Some 3"
    by (simp_all add: queued_def sample_site_def)
  have "begin_deploy w (queued 5) None busy_hub = (Inr False, snd (release ScopeSite ''7'' KindDeploy (Some ''5'') ?v))"
    unfolding begin_deploy_def bnd_gets look
    by (simp only: option.case ids nums Let_def andThen_Inr [where m = "supersede_running 7 5", OF sup]
        bnd_Inr [where m = "acquire w ScopeSite ''7'' KindDeploy ''5''", OF t]
        bnd_Inr [where m = "acquire w ScopeTarget ''3'' KindDeploy ''5''", OF again] option.simps simp_thms if_True if_False rel)
  moreover have "status_of 4 (snd (release ScopeSite ''7'' KindDeploy (Some ''5'') ?v)) = Some Superseded"
  proof -
    have "deployments (snd (release ScopeSite ''7'' KindDeploy (Some ''5'') ?v)) = deployments t"
      by (simp add: release_def bnd_def gets_def andThen_def modify_def ret_def Let_def)
    from status_of_same [OF this] ht(2) show ?thesis by simp
  qed
  ultimately show ?thesis using st(2) by simp
qed

text \<open>
  A rollback publishes the stored DNS records, not the joined overflow addresses. When the deployment
  being rolled back stored a non-empty record list, the records of the assembled state are that list
  (given that reading the written text gives the list back), whatever addresses the site's current DNS
  row joins.
\<close>

theorem rollback_dns_ignores_joined:
  assumes "rollback_artifact s dep ''dns_set'' = Some raw" "raw \<noteq> []"
    "w_loads w raw = Some (JArr recs)" "w_loads w (dumps_default (JArr recs)) = Some (JArr recs)" "recs \<noteq> []"
    "assemble_desired w s dep site = Inr d"
  shows "desired_dns_records w d = recs"
proof -
  have text_ne: "dumps_default (JArr recs) \<noteq> []" by (simp add: dumps_default_def)
  obtain d0 where d0: "base_desired w s dep site = Inr d0"
    using assms(6) by (auto simp: assemble_desired_def split: sum.splits)
  have over: "ds_dns_set x = JStr raw \<Longrightarrow> desired_dns_records w x = recs"
    "ds_dns_set x = JStr (dumps_default (JArr recs)) \<Longrightarrow> desired_dns_records w x = recs" for x
    using assms(2-5) text_ne by (simp_all add: desired_dns_records_def overlay_json_def)
  have "ds_dns_set d \<in> {JStr raw, JStr (dumps_default (JArr recs))}"
    using assms(1,6) d0 over by (auto simp: assemble_desired_def Let_def opt_text_def split: option.splits)
  with over show ?thesis by blast
qed

definition rolled_hub :: hub where
  "rolled_hub = sample_hub\<lparr>artifacts := [\<lparr>da_deployment = 4, da_kind = ''dns_set'', da_content = ''[stored]''\<rparr>],
     dns_records := [\<lparr>r_site = 7, r_zone = None, r_name = ''shop.test'', r_rtype = ''A'', r_value = ''9.9.9.9, 8.8.8.8'',
       r_observed_value = [], r_last_verified = None\<rparr>]\<rparr>"

definition named_site :: site where
  "named_site = sample_site\<lparr>s_domain := ''shop.test''\<rparr>"

definition stored_world :: world where
  "stored_world = calm_world\<lparr>w_loads := (\<lambda>_. Some (JArr [JStr ''stored'']))\<rparr>"

theorem rollback_dns_ignores_joined_witness:
  "joined_dns_values rolled_hub named_site = Some [''9.9.9.9'', ''8.8.8.8''] \<and>
   (\<exists>d. assemble_desired stored_world rolled_hub ((queued 5)\<lparr>d_rollback_of := Some 4\<rparr>) named_site = Inr d \<and>
     desired_dns_records stored_world d = [JStr ''stored''])"
proof -
  let ?dep = "(queued 5)\<lparr>d_rollback_of := Some 4\<rparr>"
  have art: "rollback_artifact rolled_hub ?dep ''dns_set'' = Some ''[stored]''"
    by (simp add: rollback_artifact_def rolled_hub_def sample_hub_def)
  have "body_of rolled_hub ?dep = []"
    by (simp add: body_of_def rolled_hub_def manifest_by_pk_def queued_def sample_hub_def sample_manifest_def)
  then obtain d where d: "assemble_desired stored_world rolled_hub ?dep named_site = Inr d"
    using assemble_ok by blast
  have "desired_dns_records stored_world d = [JStr ''stored'']"
    by (rule rollback_dns_ignores_joined [OF art _ _ _ _ d]) (simp_all add: stored_world_def)
  moreover have "joined_values ''9.9.9.9, 8.8.8.8'' = Some [''9.9.9.9'', ''8.8.8.8'']" by code_simp
  ultimately show ?thesis using d
    by (simp add: joined_dns_values_def rolled_hub_def named_site_def sample_site_def)
qed

end
