(* ===== verification/Reconcile.thy ===== *)
theory Reconcile
  imports Pipeline_Facts
begin

text \<open>
  \<open>reconcile/loop.py\<close> and \<open>reconcile/tasks.py\<close>: the loop that compares the desired with the observed state
  of every instance and repairs a difference by starting, stopping or restarting the container, unless
  a brake applies. A row held by the code is a record passed along; \<open>save(update_fields=...)\<close> writes the
  named columns of the stored row. The optional \<open>observe\<close> callback returns the texts of its \<open>state\<close> and
  \<open>reason\<close> entries, empty when missing. The bookkeeping entry that \<open>_record\<close> leaves on recording
  transports is not modelled.
\<close>

section \<open>Constants\<close>

definition MUTATION_BUDGET :: int where "MUTATION_BUDGET = 2"
definition GLOBAL_MUTATION_BUDGET :: int where "GLOBAL_MUTATION_BUDGET = 3"
definition FLAP_WINDOW :: int where "FLAP_WINDOW = minutes 10"
definition FLAP_CYCLE_LIMIT :: nat where "FLAP_CYCLE_LIMIT = 3"
definition BACKOFF_AFTER :: nat where "BACKOFF_AFTER = 3"
definition COLLECT_FRESH_S :: int where "COLLECT_FRESH_S = 60"

definition STALE_REASONS :: "string list" where
  "STALE_REASONS = [''data-stale'', ''feed-stale'', ''feed-staleness'', ''staleness'']"

definition UPSTREAM_REASONS :: "string list" where
  "UPSTREAM_REASONS = [''upstream-down'']"

definition LISTEN_PORT_UNKNOWN :: string where
  "LISTEN_PORT_UNKNOWN = ''listen-port-unknown''"

definition REARM_SCOPED_AUDITS :: "string list" where
  "REARM_SCOPED_AUDITS = [''reconcile_flap_pause'', ''reconcile_backoff'']"

definition RUNNING_DOCKER :: "string list" where
  "RUNNING_DOCKER = [''running'', ''true'', ''1'']"


section \<open>Observation\<close>

record observation =
  ob_state :: string
  ob_reason :: string

fun observed_text :: "observed_state \<Rightarrow> string" where
  "observed_text ObsRunning = ''running''"
| "observed_text ObsStopped = ''stopped''"
| "observed_text ObsAbsent = ''absent''"
| "observed_text ObsUnhealthy = ''unhealthy''"
| "observed_text ObsWarming = ''warming''"

text \<open>The choice a text names; every other text counts as absent.\<close>

definition observed_of :: "string \<Rightarrow> observed_state" where
  "observed_of x = (case find (\<lambda>v. observed_text v = x) [ObsRunning, ObsStopped, ObsAbsent, ObsUnhealthy, ObsWarming] of
     Some v \<Rightarrow> v | None \<Rightarrow> ObsAbsent)"

definition reason_key :: "string \<Rightarrow> string" where
  "reason_key reason = replace_char (CHR ''_'') (CHR ''-'') (lower (strip reason))"

text \<open>\<open>_reason_key(health.get("reason"))\<close>: a truthy value that is no text has no \<open>strip\<close>.\<close>

definition attribute_error :: exn where
  "attribute_error = OtherError ''AttributeError''"

definition reason_key_json :: "json \<Rightarrow> exn + string" where
  "reason_key_json v = (if \<not> truthy v then Inr (reason_key []) else case v of JStr x \<Rightarrow> Inr (reason_key x) | _ \<Rightarrow> Inl attribute_error)"

definition health_for :: "(string \<times> json) list \<Rightarrow> string \<Rightarrow> (string \<times> json) list" where
  "health_for payload name = (case or_else (jget payload ''healthz'') (JObj []) of
     JObj healthz \<Rightarrow>
       (case or_else (jget healthz ''checks'') (JObj []) of
          JObj checks \<Rightarrow> (case jget checks name of
              JObj per \<Rightarrow> if has_key per ''live'' \<or> has_key per ''ready'' then per else healthz
            | _ \<Rightarrow> healthz)
        | _ \<Rightarrow> healthz)
   | _ \<Rightarrow> [])"

definition stale_token :: "string \<times> json \<Rightarrow> string option" where
  "stale_token kv = find (\<lambda>x. x \<in> set STALE_REASONS) [reason_key (fst kv), reason_key (py_str (snd kv))]"

fun first_stale :: "(string \<times> json) list \<Rightarrow> string" where
  "first_stale [] = []"
| "first_stale (kv # kvs) = (case stale_token kv of Some x \<Rightarrow> x | None \<Rightarrow> first_stale kvs)"

definition reason_from_collect :: "(string \<times> json) list \<Rightarrow> string \<Rightarrow> string" where
  "reason_from_collect payload name = (let health = health_for payload name; explicit = jget health ''reason'' in
     if truthy explicit then py_str explicit
     else case jget health ''checks'' of
       JObj checks \<Rightarrow>
         (case jget checks ''upstream'' of
            JStr u \<Rightarrow> if reason_key u \<in> set UPSTREAM_REASONS then reason_key u else first_stale checks
          | _ \<Rightarrow> first_stale checks)
     | _ \<Rightarrow> [])"

text \<open>One round of the loop over the collected containers: the state filed under a name.\<close>

definition container_state :: "json \<Rightarrow> exn + string" where
  "container_state v = (if \<not> truthy v then Inr [] else case v of JStr x \<Rightarrow> Inr (lower (strip x)) | _ \<Rightarrow> Inl attribute_error)"

definition hashable :: "json \<Rightarrow> bool" where
  "hashable v = (\<not> is_obj v \<and> \<not> is_arr v)"

fun by_name :: "json list \<Rightarrow> (json \<times> string) list \<Rightarrow> exn + (json \<times> string) list" where
  "by_name [] acc = Inr acc"
| "by_name (row # rows) acc = (case row of
     JObj d \<Rightarrow>
       if truthy (jget d ''name'')
       then (case container_state (jget d ''state'') of Inl e \<Rightarrow> Inl e
             | Inr st \<Rightarrow> if hashable (jget d ''name'') then by_name rows ((jget d ''name'', st) # acc)
                 else Inl (TypeError ''unhashable type''))
       else by_name rows acc
   | _ \<Rightarrow> by_name rows acc)"

definition state_from_collect :: "(string \<times> json) list \<Rightarrow> string \<Rightarrow> exn + observed_state" where
  "state_from_collect payload name =
     (case (if truthy (jget payload ''containers'') then py_list (jget payload ''containers'') else Inr []) of Inl e \<Rightarrow> Inl e
      | Inr rows \<Rightarrow> (case by_name rows [] of Inl e \<Rightarrow> Inl e
      | Inr states \<Rightarrow> (case map_of states (JStr name) of None \<Rightarrow> Inr ObsAbsent
      | Some st \<Rightarrow> if st \<notin> set RUNNING_DOCKER then Inr ObsStopped
          else let health = health_for payload name in
            (case reason_key_json (jget health ''reason'') of Inl e \<Rightarrow> Inl e
             | Inr key \<Rightarrow> if key = LISTEN_PORT_UNKNOWN then Inr ObsWarming
                 else let live = truthy (jget health ''live''); ready = truthy (jget health ''ready'') in
                   Inr (if live \<and> ready then ObsRunning else if live then ObsWarming else ObsUnhealthy)))))"

text \<open>The payload of the last collection when it is at most a minute old.\<close>

definition fresh_collect_payload :: "hub \<Rightarrow> site_instance \<Rightarrow> time \<Rightarrow> json option" where
  "fresh_collect_payload s inst now = (case target_by_pk s (i_target inst) of None \<Rightarrow> None
     | Some t \<Rightarrow> (case t_collect_at t of None \<Rightarrow> None
         | Some stamp \<Rightarrow> if \<not> truthy (t_collect_payload t) \<or> now - stamp > seconds COLLECT_FRESH_S then None
             else Some (t_collect_payload t)))"

text \<open>\<open>_desired\<close>: the dictionary handed to \<open>ensure_start\<close>; every other key is absent.\<close>

definition last_succeeded :: "hub \<Rightarrow> site \<Rightarrow> deployment option" where
  "last_succeeded s site = (case rev (sort_key d_pk (filter (\<lambda>r. deployment_site s r = Some (s_pk site) \<and>
     d_status r = Succeeded) (deployments s))) of [] \<Rightarrow> None | r # _ \<Rightarrow> Some r)"

definition recon_desired :: "hub \<Rightarrow> site \<Rightarrow> site_instance \<Rightarrow> desired" where
  "recon_desired s site inst = (let dep = last_succeeded s site in
     \<lparr>ds_site = Some site, ds_target = None, ds_site_slug = s_name site,
      ds_deployment_id = (case dep of Some r \<Rightarrow> d_pk r | None \<Rightarrow> i_pk inst),
      ds_body = (case dep of Some r \<Rightarrow> body_of s r | None \<Rightarrow> []), ds_git_sha = [], ds_source_dir = [],
      ds_image_tag = Some (if i_desired_image_tag inst = [] then ''app:recon'' else i_desired_image_tag inst),
      ds_heartbeat = None, ds_old_container = None, ds_zone = [], ds_dns_zone = None, ds_domain = [],
      ds_dns_values = [], ds_dns_proxied = False, ds_internal_port = int (i_internal_port inst),
      ds_docker_run_extra = JNull, ds_env_names = [], ds_firewall_argv = [], ds_upstream = JNull,
      ds_dockerfile = None, ds_caddy_route = JNull, ds_dns_set = JNull, ds_env_mapping = [], ds_env_file = None,
      ds_tls_files = None, ds_step = None\<rparr>)"

definition probe_container_state :: "world \<Rightarrow> site \<Rightarrow> site_instance \<Rightarrow> observed_state act" where
  "probe_container_state w site inst =
     bnd (gets (\<lambda>s. container_name (recon_desired s site inst))) (\<lambda>name.
     bnd (transport_probe w [''docker'', ''inspect'', ''--format'', ''{{.State.Running}}'', name]) (\<lambda>r.
     ret (if \<not> result_ok r then ObsAbsent
          else if lower (strip (stdout r)) \<in> set RUNNING_DOCKER then ObsRunning else ObsStopped)))"

type_synonym observer = "(site_instance \<Rightarrow> string \<times> string) option"

definition read_observed :: "world \<Rightarrow> observer \<Rightarrow> site \<Rightarrow> site_instance \<Rightarrow> time \<Rightarrow> observation act" where
  "read_observed w observe site inst now = (case observe of
     Some f \<Rightarrow> ret \<lparr>ob_state = (if fst (f inst) = [] then ''absent'' else fst (f inst)), ob_reason = snd (f inst)\<rparr>
   | None \<Rightarrow> bnd (gets (\<lambda>s. fresh_collect_payload s inst now)) (\<lambda>found. case found of
       Some (JObj payload) \<Rightarrow>
         bnd (gets (\<lambda>s. container_name (recon_desired s site inst))) (\<lambda>name.
         bnd (of_sum (state_from_collect payload name)) (\<lambda>st.
         ret \<lparr>ob_state = observed_text st, ob_reason = reason_from_collect payload name\<rparr>))
     | Some _ \<Rightarrow> throw attribute_error
     | None \<Rightarrow> bnd (probe_container_state w site inst) (\<lambda>st. ret \<lparr>ob_state = observed_text st, ob_reason = []\<rparr>)))"


section \<open>Rows and events\<close>

definition save_instance :: "nat \<Rightarrow> (site_instance \<Rightarrow> site_instance) \<Rightarrow> unit act" where
  "save_instance k f = modify (\<lambda>s. s\<lparr>instances := upd_rows (\<lambda>r. i_pk r = k) f (instances s)\<rparr>)"

definition persist_observation :: "site_instance \<Rightarrow> observation \<Rightarrow> time \<Rightarrow> site_instance act" where
  "persist_observation inst ob now = (let st = observed_of (ob_state ob) in
     andThen (save_instance (i_pk inst) (\<lambda>r. r\<lparr>i_observed_state := st, i_observed_at := Some now\<rparr>))
     (ret (inst\<lparr>i_observed_state := st, i_observed_at := Some now\<rparr>)))"

definition events_of :: "hub \<Rightarrow> string \<Rightarrow> string \<Rightarrow> string \<Rightarrow> audit_event list" where
  "events_of s action otype oid = filter (\<lambda>e. ae_action e = action \<and> ae_object_type e = otype \<and> ae_object_id e = oid) (audits s)"

text \<open>The time of the newest such event: all that the callers use of \<open>order_by("-ts").first()\<close>.\<close>

definition newest :: "audit_event list \<Rightarrow> time option" where
  "newest es = (if es = [] then None else Some (Max (set (map ae_ts es))))"

definition last_rearm :: "hub \<Rightarrow> string \<Rightarrow> string \<Rightarrow> time option" where
  "last_rearm s otype oid = newest (events_of s ''reconcile_rearmed'' otype oid)"

definition after_rearm :: "time option \<Rightarrow> audit_event \<Rightarrow> bool" where
  "after_rearm rearmed e = (case rearmed of None \<Rightarrow> True | Some r \<Rightarrow> r < ae_ts e)"

definition seen_once :: "hub \<Rightarrow> string \<Rightarrow> audit_obj option \<Rightarrow> bool" where
  "seen_once s action obj = (let otype = (case obj of None \<Rightarrow> [] | Some ob \<Rightarrow> obj_type ob);
       oid = (case obj of None \<Rightarrow> [] | Some ob \<Rightarrow> str_nat (obj_pk ob));
       es = events_of s action otype oid in
     list_ex (\<lambda>e. action \<in> set REARM_SCOPED_AUDITS \<longrightarrow> after_rearm (last_rearm s otype oid) e) es)"

definition audit_once :: "world \<Rightarrow> string \<Rightarrow> audit_obj option \<Rightarrow> (string \<times> json) list \<Rightarrow> unit act" where
  "audit_once w action obj detail = bnd (gets (\<lambda>s. seen_once s action obj)) (\<lambda>seen.
     when_do (\<not> seen) (bnd (audit w ((audit_args action obj)\<lparr>ac_source := SrcReconciler, ac_detail := detail\<rparr>)) (\<lambda>_. ret ())))"

definition flap_paused :: "hub \<Rightarrow> site_instance \<Rightarrow> bool" where
  "flap_paused s inst = (case newest (events_of s ''reconcile_flap_pause'' ''SiteInstance'' (str_nat (i_pk inst))) of
     None \<Rightarrow> False
   | Some p \<Rightarrow> (case last_rearm s ''SiteInstance'' (str_nat (i_pk inst)) of None \<Rightarrow> True | Some r \<Rightarrow> r \<le> p))"

text \<open>Neighbouring start/stop pairs, each event counted in at most one pair.\<close>

fun count_cycles :: "string list \<Rightarrow> nat" where
  "count_cycles (a # b # ops) = (if {a, b} = {''start'', ''stop''} then Suc (count_cycles ops) else count_cycles (b # ops))"
| "count_cycles _ = 0"

definition cycle_count :: "hub \<Rightarrow> site_instance \<Rightarrow> time \<Rightarrow> nat" where
  "cycle_count s inst now = (let oid = str_nat (i_pk inst);
       es = filter (\<lambda>e. now - FLAP_WINDOW \<le> ae_ts e \<and> after_rearm (last_rearm s ''SiteInstance'' oid) e)
         (events_of s ''reconcile_repair'' ''SiteInstance'' oid);
       ops = map (\<lambda>e. jget (ae_detail e) ''op'') (sort_key ae_ts es) in
     count_cycles (map py_str (filter (\<lambda>v. v \<in> {JStr ''start'', JStr ''stop''}) ops)))"


section \<open>Brakes and plan\<close>

definition braked :: "world \<Rightarrow> site \<Rightarrow> site_instance \<Rightarrow> observation \<Rightarrow> time \<Rightarrow> bool act" where
  "braked w site inst ob now = (let key = reason_key (ob_reason ob); p2 = [(''priority'', JStr ''P2'')] in
     if \<not> s_reconcile_enabled site then andThen (audit_once w ''reconcile_disabled'' (Some (OSite site)) []) (ret True)
     else if (case s_maintenance_until site of None \<Rightarrow> False | Some u \<Rightarrow> u > now) then ret True
     else if key \<in> set STALE_REASONS then andThen (audit_once w ''reconcile_data_stale'' (Some (OInstance inst)) p2) (ret True)
     else if key \<in> set UPSTREAM_REASONS then andThen (audit_once w ''reconcile_upstream_down'' (Some (OInstance inst)) p2) (ret True)
     else if i_consecutive_failures inst \<ge> BACKOFF_AFTER
       then andThen (audit_once w ''reconcile_backoff'' (Some (OInstance inst)) []) (ret True)
     else gets (\<lambda>s. flap_paused s inst))"

datatype repair = Start | Stop | Restart

fun repair_text :: "repair \<Rightarrow> string" where
  "repair_text Start = ''start''"
| "repair_text Stop = ''stop''"
| "repair_text Restart = ''restart''"

definition plan :: "site_instance \<Rightarrow> observation \<Rightarrow> repair option" where
  "plan inst ob = (let state = ob_state ob; want = i_desired_state inst in
     if state = ''warming'' then None
     else if want \<in> {WantStopped, WantAbsent} \<and> state \<in> {''running'', ''unhealthy''} then Some Stop
     else if state = ''unhealthy'' then
       (if reason_key (ob_reason ob) = LISTEN_PORT_UNKNOWN then None
        else if i_consecutive_failures inst \<ge> 1 then None
        else if want = WantRunning then Some Restart else None)
     else if want = WantRunning \<and> state \<in> {''absent'', ''stopped''} then Some Start
     else None)"

definition maybe_clear_failures :: "site_instance \<Rightarrow> observation \<Rightarrow> unit act" where
  "maybe_clear_failures inst ob =
     when_do (ob_state ob = ''running'' \<and> i_desired_state inst = WantRunning \<and> i_consecutive_failures inst \<noteq> 0)
       (save_instance (i_pk inst) (\<lambda>r. r\<lparr>i_consecutive_failures := 0\<rparr>))"

definition lock_present :: "hub \<Rightarrow> lock_scope \<Rightarrow> string \<Rightarrow> lock_kind \<Rightarrow> bool" where
  "lock_present s scope oid kind = list_ex (\<lambda>l. l_scope l = scope \<and> l_object_id l = oid \<and> l_kind l = kind) (locks s)"

definition deploy_lock_held :: "hub \<Rightarrow> site \<Rightarrow> site_instance \<Rightarrow> bool" where
  "deploy_lock_held s site inst = (lock_present s ScopeSite (str_nat (s_pk site)) KindDeploy \<or>
     lock_present s ScopeTarget (str_nat (i_target inst)) KindDeploy)"


section \<open>Repair\<close>

definition invalidate_collect :: "nat \<Rightarrow> unit act" where
  "invalidate_collect k = modify (\<lambda>s. s\<lparr>targets := upd_rows (\<lambda>t. t_pk t = k) (\<lambda>t. t\<lparr>t_collect_at := None\<rparr>) (targets s)\<rparr>)"

text \<open>The action itself; the result is the row in memory, not yet saved.\<close>

definition perform :: "world \<Rightarrow> ports \<Rightarrow> site \<Rightarrow> site_instance \<Rightarrow> repair \<Rightarrow> site_instance act" where
  "perform w P site inst action = bnd (gets (\<lambda>s. recon_desired s site inst)) (\<lambda>d.
     case action of
       Start \<Rightarrow> andThen (ensure_start w P d) (ret (inst\<lparr>i_consecutive_failures := 0, i_observed_state := ObsRunning\<rparr>))
     | Stop \<Rightarrow> bnd (transport_run w [''docker'', ''stop'', container_name d]) (\<lambda>r.
         andThen (expect_ok ''docker stop'' r) (ret (inst\<lparr>i_observed_state := ObsStopped\<rparr>)))
     | Restart \<Rightarrow> bnd (transport_run w [''docker'', ''restart'', container_name d]) (\<lambda>r.
         andThen (expect_ok ''docker restart'' r)
         (ret (inst\<lparr>i_consecutive_failures := Suc (i_consecutive_failures inst), i_observed_state := ObsUnhealthy\<rparr>))))"

text \<open>The second look under the lock; \<open>None\<close> when nothing is to be done after all.\<close>

definition recheck :: "world \<Rightarrow> ports \<Rightarrow> observer \<Rightarrow> site \<Rightarrow> string \<Rightarrow> site_instance \<Rightarrow> time \<Rightarrow>
    (repair \<times> site_instance) option act" where
  "recheck w P observe site holder inst now =
     bnd (read_observed w observe site inst now) (\<lambda>ob.
     bnd (persist_observation inst ob now) (\<lambda>inst'.
     bnd (braked w site inst' ob now) (\<lambda>stop.
     if stop then ret None
     else case plan inst' ob of
       None \<Rightarrow> andThen (maybe_clear_failures inst' ob) (ret None)
     | Some action \<Rightarrow>
         bnd (gets (\<lambda>s. list_ex (\<lambda>l. l_scope l = ScopeSite \<and> l_object_id l = str_nat (s_pk site) \<and>
             l_kind l = KindReconcile \<and> l_holder l = holder) (locks s))) (\<lambda>mine.
         bnd (gets (\<lambda>s. deploy_lock_held s site inst')) (\<lambda>deploying.
         if \<not> mine \<or> deploying then ret None
         else bnd (perform w P site inst' action) (\<lambda>done. ret (Some (action, done))))))))"

definition commit_repair :: "world \<Rightarrow> site_instance \<Rightarrow> repair \<Rightarrow> time \<Rightarrow> unit act" where
  "commit_repair w inst action now =
     andThen (save_instance (i_pk inst) (\<lambda>r. r\<lparr>i_observed_state := i_observed_state inst,
         i_consecutive_failures := i_consecutive_failures inst, i_last_reconciled_at := Some now\<rparr>))
     (andThen (audit w ((audit_args ''reconcile_repair'' (Some (OInstance inst)))\<lparr>ac_source := SrcReconciler,
         ac_detail := [(''op'', JStr (repair_text action))]\<rparr>))
     (invalidate_collect (i_target inst)))"

text \<open>\<open>except Exception\<close>: one more failure on the row in memory.\<close>

definition count_failure :: "world \<Rightarrow> site_instance \<Rightarrow> bool act" where
  "count_failure w inst = (let n = Suc (i_consecutive_failures inst) in
     andThen (save_instance (i_pk inst) (\<lambda>r. r\<lparr>i_consecutive_failures := n\<rparr>))
     (andThen (when_do (n \<ge> BACKOFF_AFTER)
         (audit_once w ''reconcile_backoff'' (Some (OInstance (inst\<lparr>i_consecutive_failures := n\<rparr>))) []))
     (ret False)))"

definition attempt :: "'a act \<Rightarrow> (exn + 'a) act" where
  "attempt m = try_except (bnd m (\<lambda>x. ret (Inr x))) (\<lambda>e. ret (Inl e))"

definition refresh_instance :: "site_instance \<Rightarrow> site_instance act" where
  "refresh_instance inst = bnd (gets (\<lambda>s. find (\<lambda>r. i_pk r = i_pk inst) (instances s))) (\<lambda>found.
     case found of None \<Rightarrow> throw DoesNotExist | Some r \<Rightarrow> ret r)"

text \<open>The body of the \<open>try\<close>, with the row in memory at the point where it raises.\<close>

definition apply_locked :: "world \<Rightarrow> ports \<Rightarrow> observer \<Rightarrow> site \<Rightarrow> string \<Rightarrow> site_instance \<Rightarrow> time \<Rightarrow> bool act" where
  "apply_locked w P observe site holder inst now =
     bnd (attempt (refresh_instance inst)) (\<lambda>r. case r of
       Inl _ \<Rightarrow> count_failure w inst
     | Inr inst1 \<Rightarrow> bnd (attempt (recheck w P observe site holder inst1 now)) (\<lambda>r. case r of
         Inl _ \<Rightarrow> count_failure w inst1
       | Inr None \<Rightarrow> ret False
       | Inr (Some (action, inst2)) \<Rightarrow> bnd (attempt (commit_repair w inst2 action now)) (\<lambda>r. case r of
           Inl _ \<Rightarrow> count_failure w inst2
         | Inr _ \<Rightarrow> ret True)))"

definition recon_holder :: "site \<Rightarrow> string" where
  "recon_holder site = ''reconcile:'' @ str_nat (s_pk site)"

definition apply_repair :: "world \<Rightarrow> ports \<Rightarrow> observer \<Rightarrow> site \<Rightarrow> site_instance \<Rightarrow> time \<Rightarrow> bool act" where
  "apply_repair w P observe site inst now =
     bnd (acquire w ScopeSite (str_nat (s_pk site)) KindReconcile (recon_holder site)) (\<lambda>lock.
     if lock = None then ret False
     else try_finally (apply_locked w P observe site (recon_holder site) inst now)
       (bnd (release ScopeSite (str_nat (s_pk site)) KindReconcile (Some (recon_holder site))) (\<lambda>_. ret ())))"


section \<open>The tick\<close>

text \<open>One instance: whether a repair was carried out, and then the flap brake.\<close>

definition repair_row :: "world \<Rightarrow> ports \<Rightarrow> observer \<Rightarrow> site \<Rightarrow> time \<Rightarrow> bool \<Rightarrow> site_instance \<Rightarrow> observation \<Rightarrow> bool act" where
  "repair_row w P observe site now budget_left row ob = (case plan row ob of
     None \<Rightarrow> andThen (maybe_clear_failures row ob) (ret False)
   | Some _ \<Rightarrow>
       if \<not> budget_left then ret False
       else bnd (gets (\<lambda>s. deploy_lock_held s site row)) (\<lambda>deploying.
         if deploying then ret False
         else bnd (apply_repair w P observe site row now) (\<lambda>acted.
           if \<not> acted then ret False
           else bnd (gets (\<lambda>s. cycle_count s row now)) (\<lambda>n.
             andThen (when_do (n \<ge> FLAP_CYCLE_LIMIT) (audit_once w ''reconcile_flap_pause'' (Some (OInstance row)) []))
             (ret True)))))"

definition tick_one :: "world \<Rightarrow> ports \<Rightarrow> observer \<Rightarrow> site \<Rightarrow> time \<Rightarrow> bool \<Rightarrow> site_instance \<Rightarrow> bool act" where
  "tick_one w P observe site now budget_left inst =
     bnd (read_observed w observe site inst now) (\<lambda>ob.
     bnd (persist_observation inst ob now) (\<lambda>row.
     bnd (braked w site row ob now) (\<lambda>stop.
     if stop then ret False else repair_row w P observe site now budget_left row ob)))"

fun tick_rows :: "world \<Rightarrow> ports \<Rightarrow> observer \<Rightarrow> site \<Rightarrow> time \<Rightarrow> int \<Rightarrow> int \<Rightarrow> site_instance list \<Rightarrow> int act" where
  "tick_rows w P observe site now cap used [] = ret used"
| "tick_rows w P observe site now cap used (row # rows) =
     bnd (tick_one w P observe site now (used < cap) row) (\<lambda>acted.
     tick_rows w P observe site now cap (if acted then used + 1 else used) rows)"

definition tick :: "world \<Rightarrow> ports \<Rightarrow> bool \<Rightarrow> observer \<Rightarrow> site \<Rightarrow> time option \<Rightarrow> int option \<Rightarrow> nat option \<Rightarrow> int act" where
  "tick w P enabled observe site now budget only =
     (if \<not> enabled then andThen (audit_once w ''reconcile_globally_disabled'' None []) (ret 0)
      else bnd (case now of Some n \<Rightarrow> ret n | None \<Rightarrow> timezone_now w) (\<lambda>clock.
        bnd (gets (\<lambda>s. filter (\<lambda>r. i_site r = s_pk site \<and> (case only of None \<Rightarrow> True | Some k \<Rightarrow> i_pk r = k)) (instances s))) (\<lambda>rows.
        tick_rows w P observe site clock (case budget of Some b \<Rightarrow> b | None \<Rightarrow> MUTATION_BUDGET) 0 rows)))"

definition rearm :: "world \<Rightarrow> site_instance \<Rightarrow> unit act" where
  "rearm w inst = andThen (save_instance (i_pk inst) (\<lambda>r. r\<lparr>i_consecutive_failures := 0\<rparr>))
     (bnd (audit w ((audit_args ''reconcile_rearmed'' (Some (OInstance inst)))\<lparr>ac_source := SrcReconciler\<rparr>)) (\<lambda>_. ret ()))"

text \<open>
  The scheduled task. \<open>shell_of\<close> is the transport factory: the shell of a target, or the exception of
  its constructor. A tick that raises is recorded and the loop goes on.
\<close>

type_synonym shell = "call list \<Rightarrow> exn + cmd_result"

fun tick_instances :: "world \<Rightarrow> (nat \<Rightarrow> exn + shell) \<Rightarrow> ports \<Rightarrow> bool \<Rightarrow> int \<Rightarrow> (site_instance \<times> site) list \<Rightarrow> int act" where
  "tick_instances w shell_of P enabled remaining [] = ret remaining"
| "tick_instances w shell_of P enabled remaining ((inst, site) # rest) =
     (if remaining \<le> 0 then ret remaining
      else bnd (attempt (bnd (of_sum (shell_of (i_target inst))) (\<lambda>sh.
          tick (w\<lparr>w_shell := sh\<rparr>) P enabled None site None (Some remaining) (Some (i_pk inst))))) (\<lambda>r. case r of
        Inl e \<Rightarrow> andThen (audit w ((audit_args ''reconcile-tick-failed'' (Some (OInstance inst)))\<lparr>ac_source := SrcCelery,
            ac_detail := [(''error'', JStr (exn_class e))]\<rparr>))
          (tick_instances w shell_of P enabled remaining rest)
      | Inr n \<Rightarrow> tick_instances w shell_of P enabled (remaining - n) rest))"

definition tick_all :: "world \<Rightarrow> (nat \<Rightarrow> exn + shell) \<Rightarrow> ports \<Rightarrow> bool \<Rightarrow> int option \<Rightarrow> int act" where
  "tick_all w shell_of P enabled budget =
     bnd (gets (\<lambda>s. List.map_filter (\<lambda>r. map_option (Pair r) (site_by_pk s (i_site r))) (instances s)))
     (tick_instances w shell_of P enabled (case budget of Some b \<Rightarrow> b | None \<Rightarrow> GLOBAL_MUTATION_BUDGET))"

end
