(* ===== verification/Reconcile_Facts.thy ===== *)
theory Reconcile_Facts
  imports Reconcile
begin

text \<open>
  Facts about the reconciler: its brakes, its use of the operation lock, its mutation budget and the
  effect of re-arming.
\<close>

section \<open>The mutation budget\<close>

lemma yields_bnd_weak: "yields m Q \<Longrightarrow> (\<And>x. Q x \<Longrightarrow> yields (k x) R) \<Longrightarrow> yields (bnd m k) R"
  unfolding yields_def by (simp add: fst_bnd_Inr) blast

lemma yields_mono: "yields m Q \<Longrightarrow> (\<And>x. Q x \<Longrightarrow> R x) \<Longrightarrow> yields m R"
  unfolding yields_def by blast

lemma yields_attempt: "yields m Q \<Longrightarrow> yields (attempt m) (\<lambda>r. case r of Inl _ \<Rightarrow> True | Inr x \<Rightarrow> Q x)"
  unfolding yields_def attempt_def try_except_def bnd_def ret_def
  by (auto split: prod.splits sum.splits)

lemma tick_one_budget: "yields (tick_one w P observe site now left inst) (\<lambda>b. b \<longrightarrow> left)"
  unfolding tick_one_def repair_row_def
  by (intro yields_bnd) (auto intro!: yields_rules split: option.split)

lemma tick_rows_budget:
  "yields (tick_rows w P observe site now cap used rows) (\<lambda>n. used \<le> n \<and> n \<le> max used cap)"
proof (induction rows arbitrary: used)
  case Nil
  show ?case by (simp add: yields_ret)
next
  case (Cons row rows)
  show ?case unfolding tick_rows.simps
  proof (rule yields_bnd_weak [OF tick_one_budget])
    fix acted
    assume "acted \<longrightarrow> used < cap"
    with Cons.IH [of "used + 1"] Cons.IH [of used]
    show "yields (tick_rows w P observe site now cap (if acted then used + 1 else used) rows)
        (\<lambda>n. used \<le> n \<and> n \<le> max used cap)"
      by (auto elim!: yields_mono)
  qed
qed

lemma tick_budget:
  "yields (tick w P enabled observe site now budget only)
     (\<lambda>n. 0 \<le> n \<and> n \<le> max 0 (case budget of Some b \<Rightarrow> b | None \<Rightarrow> MUTATION_BUDGET))"
  unfolding tick_def by (auto intro!: yields_rules tick_rows_budget)

lemma tick_instances_budget:
  "yields (tick_instances w shell_of P enabled remaining rows) (\<lambda>r. min 0 remaining \<le> r \<and> r \<le> remaining)"
proof (induction rows arbitrary: remaining)
  case Nil
  show ?case by (simp add: yields_ret)
next
  case (Cons p rows)
  obtain inst site where p: "p = (inst, site)" by (cases p)
  let ?m = "bnd (of_sum (shell_of (i_target inst))) (\<lambda>sh.
      tick (w\<lparr>w_shell := sh\<rparr>) P enabled None site None (Some remaining) (Some (i_pk inst)))"
  have "yields ?m (\<lambda>n. 0 \<le> n \<and> n \<le> max 0 remaining)"
    by (rule yields_bnd) (use tick_budget [where budget = "Some remaining"] in simp)
  from yields_attempt [OF this]
  have step: "yields (attempt ?m) (\<lambda>r. case r of Inl _ \<Rightarrow> True | Inr n \<Rightarrow> 0 \<le> n \<and> n \<le> max 0 remaining)" .
  show ?case
  proof (cases "remaining \<le> 0")
    case True
    then show ?thesis by (simp add: p yields_ret)
  next
    case False
    show ?thesis unfolding p tick_instances.simps using False
    proof (simp, intro yields_bnd_weak [OF step])
      have rest: "0 \<le> m \<Longrightarrow> m \<le> remaining \<Longrightarrow> yields (tick_instances w shell_of P enabled m rows) (\<lambda>r. 0 \<le> r \<and> r \<le> remaining)" for m
        by (rule yields_mono [OF Cons.IH [of m]]) auto
      fix r :: "exn + int"
      assume "case r of Inl _ \<Rightarrow> True | Inr n \<Rightarrow> 0 \<le> n \<and> n \<le> max 0 remaining"
      then show "yields (case r of Inl e \<Rightarrow> andThen (audit w ((audit_args ''reconcile-tick-failed'' (Some (OInstance inst)))
            \<lparr>ac_source := SrcCelery, ac_detail := [(''error'', JStr (exn_class e))]\<rparr>))
          (tick_instances w shell_of P enabled remaining rows)
        | Inr n \<Rightarrow> tick_instances w shell_of P enabled (remaining - n) rows) (\<lambda>r. 0 \<le> r \<and> r \<le> remaining)"
        using False by (auto split: sum.split intro!: yields_rules rest)
    qed
  qed
qed


section \<open>Brakes\<close>

text \<open>Running \<open>m\<close> in a state that satisfies \<open>D\<close> sends no changing command and keeps the lock rows.\<close>

definition calm :: "(hub \<Rightarrow> bool) \<Rightarrow> hub \<Rightarrow> hub \<Rightarrow> bool" where
  "calm D s t = (D s \<longrightarrow> adds (\<lambda>c. \<not> mutating c) s t \<and> locks t = locks s)"

definition deploying_site :: "site \<Rightarrow> hub \<Rightarrow> bool" where
  "deploying_site site s = lock_present s ScopeSite (str_nat (s_pk site)) KindDeploy"

lemma lock_present_same: "locks t = locks s \<Longrightarrow> lock_present t = lock_present s"
  by (simp add: lock_present_def fun_eq_iff)

interpretation calm_site: evolution "calm (\<lambda>s. b \<or> deploying_site site s)" for b site
proof unfold_locales
  show "calm (\<lambda>s. b \<or> deploying_site site s) s s" for s
    by (simp add: calm_def adds_def)
  show "calm (\<lambda>s. b \<or> deploying_site site s) s u"
    if "calm (\<lambda>s. b \<or> deploying_site site s) s t" "calm (\<lambda>s. b \<or> deploying_site site s) t u" for s t u
    using that unfolding calm_def deploying_site_def
    by (metis (no_types, lifting) issue.R_trans lock_present_same)
qed

named_theorems calms \<open>programs that send no changing command\<close>

lemma calmI: "evolves (adds (\<lambda>c. \<not> mutating c)) m \<Longrightarrow> evolves (same locks) m \<Longrightarrow> evolves (calm D) m"
  by (simp add: evolves_def calm_def same_def)

lemma audit_calls: "evolves (same calls) (audit w c)"
  using audit_journal unfolding evolves_def same_def by (metis beside_journal_fields(7))

lemma audit_locks: "evolves (same locks) (audit w c)"
  using audit_journal unfolding evolves_def same_def by (metis beside_journal_fields(3))

lemma audit_calm [calms]: "evolves (calm D) (audit w c)"
  by (intro calmI frame_adds audit_calls audit_locks)

lemma audit_once_calm [calms]: "evolves (calm (\<lambda>s. b \<or> deploying_site site s)) (audit_once w action obj detail)"
  unfolding audit_once_def by (intro calm_site.ev_rules calms)

lemma save_instance_calm [calms]: "evolves (calm D) (save_instance k f)"
  unfolding save_instance_def by (intro calmI frame_adds modify_frame) simp_all

lemma timezone_now_calm [calms]: "evolves (calm D) (timezone_now w)"
  by (intro calmI frame_adds timezone_now_frame) simp_all

lemma of_sum_calm [calms]: "evolves (calm (\<lambda>s. b \<or> deploying_site site s)) (of_sum r)"
  unfolding of_sum_def by (intro calm_site.ev_rules)

lemma probe_calm [calms]: "evolves (calm D) (transport_probe w argv)"
  by (intro calmI issues) (simp_all add: transport_probe_def shell_call_frame)

lemma read_observed_calm [calms]:
  "evolves (calm (\<lambda>s. b \<or> deploying_site site s)) (read_observed w observe site' inst now)"
proof -
  have "evolves (calm (\<lambda>s. b \<or> deploying_site site s)) (case found of
       Some (JObj payload) \<Rightarrow>
         bnd (gets (\<lambda>s. container_name (recon_desired s site' inst))) (\<lambda>name.
         bnd (of_sum (state_from_collect payload name)) (\<lambda>st.
         ret \<lparr>ob_state = observed_text st, ob_reason = reason_from_collect payload name\<rparr>))
     | Some _ \<Rightarrow> throw attribute_error
     | None \<Rightarrow> bnd (probe_container_state w site' inst) (\<lambda>st. ret \<lparr>ob_state = observed_text st, ob_reason = []\<rparr>))" for found
    unfolding probe_container_state_def
    by (cases found rule: option.exhaust; simp split: json.split; intro conjI allI impI calm_site.ev_rules calms)
  then show ?thesis unfolding read_observed_def
    by (cases observe) (simp_all only: option.case calm_site.ev_ret calm_site.ev_bnd [OF calm_site.ev_gets])
qed

lemma persist_observation_calm [calms]:
  "evolves (calm (\<lambda>s. b \<or> deploying_site site s)) (persist_observation inst ob now)"
  unfolding persist_observation_def by (intro calm_site.ev_rules calms)

lemma braked_calm [calms]: "evolves (calm (\<lambda>s. b \<or> deploying_site site s)) (braked w site' inst ob now)"
  unfolding braked_def by (intro calm_site.ev_rules calms)

lemma clear_calm [calms]: "evolves (calm (\<lambda>s. b \<or> deploying_site site s)) (maybe_clear_failures inst ob)"
  unfolding maybe_clear_failures_def by (intro calm_site.ev_rules calms)

text \<open>The standing brakes of an instance: those that do not depend on the observation.\<close>

definition stopped_for :: "site \<Rightarrow> time \<Rightarrow> site_instance \<Rightarrow> bool" where
  "stopped_for site now inst = (\<not> s_reconcile_enabled site \<or>
     (case s_maintenance_until site of None \<Rightarrow> False | Some u \<Rightarrow> now < u) \<or> BACKOFF_AFTER \<le> i_consecutive_failures inst)"

lemma braked_stopped: "stopped_for site now inst \<Longrightarrow> yields (braked w site inst ob now) (\<lambda>b. b)"
  unfolding braked_def Let_def stopped_for_def
  by (auto intro!: yields_rules split: option.splits)

lemma persist_observation_row:
  "yields (persist_observation inst ob now) (\<lambda>r. i_consecutive_failures r = i_consecutive_failures inst \<and> i_pk r = i_pk inst \<and> i_target r = i_target inst)"
  unfolding persist_observation_def Let_def by (intro yields_rules) simp

lemma evolves_bnd_yields:
  assumes "evolution R" "evolves R m" "yields m Q" "\<And>x. Q x \<Longrightarrow> evolves R (k x)"
  shows "evolves R (bnd m k)"
  unfolding evolves_def
proof
  fix s
  show "R s (snd (bnd m k s))"
  proof (cases "m s")
    case (Pair r t)
    then have st: "R s t" using assms(2) unfolding evolves_def by (metis snd_conv)
    show ?thesis
    proof (cases r)
      case (Inl e)
      with Pair st show ?thesis by (simp add: bnd_def)
    next
      case (Inr x)
      then have "Q x" using Pair assms(3) unfolding yields_def by blast
      then have "R t (snd (k x t))" using assms(4) unfolding evolves_def by blast
      with st Pair Inr show ?thesis using evolution.R_trans [OF assms(1)] by (auto simp: bnd_def)
    qed
  qed
qed

lemma evolves_bnd_deploying:
  "evolves (calm (\<lambda>s. False \<or> deploying_site site s))
     (bnd (gets (\<lambda>s. deploy_lock_held s site inst)) (\<lambda>dep. if dep then ret False else m))"
  by (auto simp: evolves_def calm_def deploying_site_def deploy_lock_held_def ret_def adds_def)

lemma tick_one_calm:
  "evolves (calm (\<lambda>s. stopped_for site now inst \<or> deploying_site site s)) (tick_one w P observe site now left inst)"
proof (cases "stopped_for site now inst")
  case True
  show ?thesis unfolding tick_one_def
  proof (rule calm_site.ev_bnd [OF read_observed_calm],
      rule evolves_bnd_yields [OF calm_site.evolution_axioms persist_observation_calm persist_observation_row])
    fix ob and row :: site_instance
    assume "i_consecutive_failures row = i_consecutive_failures inst \<and> i_pk row = i_pk inst \<and> i_target row = i_target inst"
    then have "stopped_for site now row" using True by (simp add: stopped_for_def)
    note stop = braked_stopped [OF this]
    show "evolves (calm (\<lambda>s. stopped_for site now inst \<or> deploying_site site s))
       (bnd (braked w site row ob now) (\<lambda>stop. if stop then ret False else repair_row w P observe site now left row ob))"
      by (rule evolves_bnd_yields [OF calm_site.evolution_axioms braked_calm stop]) (simp add: calm_site.ev_ret)
  qed
next
  case False
  then show ?thesis unfolding tick_one_def repair_row_def
    by (simp only: False, intro calm_site.ev_rules calms evolves_bnd_deploying)
qed

lemma tick_rows_calm:
  assumes "list_all (stopped_for site now) rows \<or> deploying_site site s"
  shows "adds (\<lambda>c. \<not> mutating c) s (snd (tick_rows w P observe site now cap used rows s))"
  using assms
proof (induction rows arbitrary: used s)
  case Nil
  show ?case by (simp add: ret_def adds_def)
next
  case (Cons row rows)
  obtain r t where t: "tick_one w P observe site now (used < cap) row s = (r, t)" by fastforce
  have "calm (\<lambda>s. stopped_for site now row \<or> deploying_site site s) s t"
    using tick_one_calm t unfolding evolves_def by (metis snd_conv)
  then have st: "adds (\<lambda>c. \<not> mutating c) s t" "locks t = locks s" using Cons.prems by (auto simp: calm_def)
  then have "list_all (stopped_for site now) rows \<or> deploying_site site t"
    using Cons.prems lock_present_same [OF st(2)] by (auto simp: deploying_site_def)
  note rest = issue.R_trans [OF st(1) Cons.IH [OF this]]
  show ?case
  proof (cases r)
    case (Inl e)
    then show ?thesis using st(1) t by (simp add: bnd_def)
  next
    case (Inr acted)
    then show ?thesis using rest t by (simp add: bnd_def)
  qed
qed


section \<open>The operation lock is given back\<close>

definition locks_back :: "hub \<Rightarrow> hub \<Rightarrow> bool" where
  "locks_back s t = (lock_wf s \<longrightarrow> lock_wf t \<and> held t = held s)"

interpretation kept: evolution locks_back
  by unfold_locales (auto simp: locks_back_def)

lemma backI: "evolves (same locks) m \<Longrightarrow> evolves locks_back m"
  unfolding evolves_def same_def locks_back_def held_def lock_wf_def by (simp add: fun_eq_iff)

named_theorems backs \<open>programs that leave every lock with its holder\<close>

lemma basic_backs [backs]:
  "evolves locks_back (audit w c)" "evolves locks_back (save_instance k f)" "evolves locks_back (timezone_now w)"
  "evolves locks_back (transport_probe w argv)" "evolves locks_back (transport_run w argv)"
  "evolves locks_back (invalidate_collect k)" "evolves locks_back (of_sum r)" "evolves locks_back (expect_ok what res)"
  by (intro backI audit_locks timezone_now_frame modify_frame;
      simp add: save_instance_def invalidate_collect_def modify_frame transport_probe_def transport_run_def shell_call_frame
        sum_cores)+

lemma audit_once_back [backs]: "evolves locks_back (audit_once w action obj detail)"
  unfolding audit_once_def by (intro kept.ev_rules backs)

lemma read_observed_back [backs]: "evolves locks_back (read_observed w observe site inst now)"
  unfolding read_observed_def probe_container_state_def
  by (cases observe) (auto split: option.split json.split intro!: kept.ev_rules backs)

lemma persist_observation_back [backs]: "evolves locks_back (persist_observation inst ob now)"
  unfolding persist_observation_def by (intro kept.ev_rules backs)

lemma braked_back [backs]: "evolves locks_back (braked w site inst ob now)"
  unfolding braked_def by (intro kept.ev_rules backs)

lemma clear_back [backs]: "evolves locks_back (maybe_clear_failures inst ob)"
  unfolding maybe_clear_failures_def by (intro kept.ev_rules backs)

lemma held_map_of: "held s = map_of (map (\<lambda>l. (lock_key l, l_holder l)) (locks s))"
proof -
  have "map_option l_holder (find (\<lambda>l. lock_key l = k) ls) = map_of (map (\<lambda>l. (lock_key l, l_holder l)) ls) k" for k ls
    by (induction ls) auto
  then show ?thesis by (simp add: held_def fun_eq_iff)
qed

lemma unstamped_locks:
  assumes "map (\<lambda>l. l\<lparr>l_heartbeat_at := 0\<rparr>) (locks t) = map (\<lambda>l. l\<lparr>l_heartbeat_at := 0\<rparr>) (locks s)"
  shows "held t = held s \<and> lock_wf t = lock_wf s"
  using arg_cong [OF assms, of "map (\<lambda>l. (lock_key l, l_holder l))"] arg_cong [OF assms, of "map lock_key"]
  by (simp add: held_map_of lock_wf_def lock_key_def [abs_def] comp_def)

lemma step_core_locks: "step_core d q t = step_core d q s \<Longrightarrow> held t = held s \<and> lock_wf t = lock_wf s"
  by (rule unstamped_locks, drule arg_cong [of _ _ locks]) (simp add: step_core_def core_state_def unstamped_def)

lemma ensure_start_back [backs]: "ports_keep P \<Longrightarrow> evolves locks_back (ensure_start w P d)"
  using ensure_start_cores [of P 0 0 w d] step_core_locks unfolding evolves_def same_def locks_back_def by blast

lemma perform_back [backs]: "ports_keep P \<Longrightarrow> evolves locks_back (perform w P site inst action)"
  unfolding perform_def by (cases action) (simp_all, (intro kept.ev_rules backs; assumption?)+)

lemma recheck_back [backs]: "ports_keep P \<Longrightarrow> evolves locks_back (recheck w P observe site h inst now)"
  unfolding recheck_def by (intro kept.ev_rules backs)

lemma commit_back [backs]: "evolves locks_back (commit_repair w inst action now)"
  unfolding commit_repair_def by (intro kept.ev_rules backs)

lemma count_failure_back [backs]: "evolves locks_back (count_failure w inst)"
  unfolding count_failure_def by (intro kept.ev_rules backs)

lemma attempt_back [backs]: "evolves locks_back m \<Longrightarrow> evolves locks_back (attempt m)"
  unfolding attempt_def by (intro kept.ev_rules)

lemma refresh_back [backs]: "evolves locks_back (refresh_instance inst)"
  unfolding refresh_instance_def by (intro kept.ev_rules)

lemma apply_locked_back: "ports_keep P \<Longrightarrow> evolves locks_back (apply_locked w P observe site h inst now)"
  unfolding apply_locked_def
  by (intro kept.ev_rules backs) (auto split: option.split intro!: kept.ev_rules backs)

lemma apply_repair_back [backs]:
  assumes "ports_keep P"
  shows "evolves locks_back (apply_repair w P observe site inst now)"
  unfolding evolves_def locks_back_def
proof (intro allI impI)
  fix s :: hub
  assume wf: "lock_wf s"
  let ?k = "(ScopeSite, str_nat (s_pk site), KindReconcile)" and ?h = "recon_holder site"
  obtain r t where t: "acquire w ScopeSite (str_nat (s_pk site)) KindReconcile ?h s = (Inr r, t)"
    using acquire_never_raises by blast
  have wft: "lock_wf t" using acquire_wf [OF wf, of w ScopeSite "str_nat (s_pk site)" KindReconcile ?h] t by simp
  have ht: "held t k = (if k = ?k \<and> held s k = None then Some ?h else held s k)" for k
    using held_acquire [of w ScopeSite "str_nat (s_pk site)" KindReconcile ?h s k] t by simp
  let ?goal = "lock_wf (snd (apply_repair w P observe site inst now s)) \<and>
      held (snd (apply_repair w P observe site inst now s)) = held s"
  show ?goal
  proof (cases "held s ?k")
    case (Some h')
    then have "r = None" using t acquire_held [OF Some, of w ?h] by simp
    with t wft ht Some show ?thesis
      by (auto simp: apply_repair_def bnd_def ret_def fun_eq_iff)
  next
    case None
    then have r: "r \<noteq> None" using t acquire_free [OF None, of w ?h] by (auto simp: Let_def)
    obtain x u where u: "apply_locked w P observe site ?h inst now t = (x, u)" by fastforce
    have uk: "lock_wf u" "held u = held t"
      using apply_locked_back [OF assms] u wft unfolding evolves_def locks_back_def by (metis snd_conv)+
    have "snd (apply_repair w P observe site inst now s) =
        snd (release ScopeSite (str_nat (s_pk site)) KindReconcile (Some ?h) u)"
      using t u r by (auto simp: apply_repair_def bnd_def try_finally_def release_def ret_def gets_def modify_def andThen_def Let_def
          split: prod.splits)
    moreover have "held (snd (release ScopeSite (str_nat (s_pk site)) KindReconcile (Some ?h) u)) = held s"
      using held_release [OF uk(1), of ScopeSite "str_nat (s_pk site)" KindReconcile "Some ?h"] uk(2) ht None
      by (auto simp: fun_eq_iff)
    ultimately show ?thesis using release_wf [OF uk(1)] by simp
  qed
qed

lemma tick_one_back [backs]: "ports_keep P \<Longrightarrow> evolves locks_back (tick_one w P observe site now left inst)"
  unfolding tick_one_def repair_row_def by (intro kept.ev_rules backs)

lemma tick_rows_back [backs]: "ports_keep P \<Longrightarrow> evolves locks_back (tick_rows w P observe site now cap used rows)"
  by (induction rows arbitrary: used) (auto intro!: kept.ev_rules backs)

lemma tick_back [backs]: "ports_keep P \<Longrightarrow> evolves locks_back (tick w P enabled observe site now budget only)"
  unfolding tick_def by (intro kept.ev_rules backs)

lemma tick_instances_back: "ports_keep P \<Longrightarrow> evolves locks_back (tick_instances w shell_of P enabled remaining rows)"
  by (induction rows arbitrary: remaining) (auto intro!: kept.ev_rules backs)


section \<open>Re-arming\<close>

lemma audit_writes:
  assumes "audit w c s = (Inr e, t)"
  shows "audits t = audits s @ [e]" "ae_action e = ac_action c" "ae_ts e = w_clock w (ticks s)" "ae_detail e = ac_detail c"
    "ae_object_type e = (case ac_obj c of None \<Rightarrow> [] | Some ob \<Rightarrow> obj_type ob)"
    "ae_object_id e = (case ac_obj c of None \<Rightarrow> [] | Some ob \<Rightarrow> str_nat (obj_pk ob))"
proof -
  obtain k where k: "write_event w c k s = (Inr e, t)"
    using assms by (auto simp: audit_def throw_def split: sum.splits)
  obtain h u where u: "chain_head k s = (Inr h, u)" "ticks u = ticks s" "audits u = audits s"
    by (cases "find (\<lambda>h. head_key h = k) (chain_heads s)") (auto simp: chain_head_def Let_def)
  from k show "audits t = audits s @ [e]" "ae_action e = ac_action c" "ae_ts e = w_clock w (ticks s)" "ae_detail e = ac_detail c"
    "ae_object_type e = (case ac_obj c of None \<Rightarrow> [] | Some ob \<Rightarrow> obj_type ob)"
    "ae_object_id e = (case ac_obj c of None \<Rightarrow> [] | Some ob \<Rightarrow> str_nat (obj_pk ob))"
    using u by (auto simp: write_event_def Let_def timezone_now_def bnd_def gets_def modify_def andThen_def ret_def)
qed

lemma rearm_writes:
  assumes "rearm w inst s = (Inr (), t)"
  obtains e where "audits t = audits s @ [e]" "ae_action e = ''reconcile_rearmed''" "ae_ts e = w_clock w (ticks s)"
    "ae_object_type e = ''SiteInstance''" "ae_object_id e = str_nat (i_pk inst)"
    "instances t = upd_rows (\<lambda>r. i_pk r = i_pk inst) (\<lambda>r. r\<lparr>i_consecutive_failures := 0\<rparr>) (instances s)"
proof -
  let ?u = "s\<lparr>instances := upd_rows (\<lambda>r. i_pk r = i_pk inst) (\<lambda>r. r\<lparr>i_consecutive_failures := 0\<rparr>) (instances s)\<rparr>"
  obtain e where e: "audit w ((audit_args ''reconcile_rearmed'' (Some (OInstance inst)))\<lparr>ac_source := SrcReconciler\<rparr>) ?u = (Inr e, t)"
    using assms by (auto simp: rearm_def save_instance_def andThen_def bnd_def modify_def ret_def split: prod.splits sum.splits)
  from frameD [OF audit_journal this] have "instances t = instances ?u" by (rule beside_journal_fields)
  with audit_writes [OF e] show thesis by (intro that [of e]) (simp_all add: audit_args_def)
qed

lemma newest_snoc: "list_all (\<lambda>x. ae_ts x < ae_ts e) es \<Longrightarrow> newest (es @ [e]) = Some (ae_ts e)"
  by (auto simp: newest_def list_all_iff intro!: Max_eqI)

lemma newest_less: "list_all (\<lambda>x. ae_ts x < r) es \<Longrightarrow> newest es = Some p \<Longrightarrow> p < r"
  by (auto simp: newest_def list_all_iff split: if_splits)

lemma rearm_clears:
  assumes "rearm w inst s = (Inr (), t)" "list_all (\<lambda>e. ae_ts e < w_clock w (ticks s)) (audits s)"
  shows "\<not> flap_paused t inst" "cycle_count t inst now = 0"
    "list_all (\<lambda>r. i_pk r = i_pk inst \<longrightarrow> i_consecutive_failures r = 0) (instances t)"
proof -
  obtain e where e: "audits t = audits s @ [e]" "ae_action e = ''reconcile_rearmed''" "ae_ts e = w_clock w (ticks s)"
    "ae_object_type e = ''SiteInstance''" "ae_object_id e = str_nat (i_pk inst)"
    "instances t = upd_rows (\<lambda>r. i_pk r = i_pk inst) (\<lambda>r. r\<lparr>i_consecutive_failures := 0\<rparr>) (instances s)"
    by (rule rearm_writes [OF assms(1)])
  let ?id = "str_nat (i_pk inst)"
  have less: "list_all (\<lambda>x. ae_ts x < ae_ts e) (events_of s act ty oid)" for act ty oid
    using assms(2) e(3) by (simp add: events_of_def list_all_iff)
  have same: "events_of t act ''SiteInstance'' ?id = events_of s act ''SiteInstance'' ?id" if "act \<noteq> ''reconcile_rearmed''" for act
    using e that by (simp add: events_of_def)
  have last: "last_rearm t ''SiteInstance'' ?id = Some (ae_ts e)"
    using e newest_snoc [OF less] by (simp add: last_rearm_def events_of_def)
  show "\<not> flap_paused t inst"
    using newest_less [OF less] by (fastforce simp: flap_paused_def same last split: option.splits)
  have "filter (\<lambda>x. now - FLAP_WINDOW \<le> ae_ts x \<and> after_rearm (Some (ae_ts e)) x) (events_of s ''reconcile_repair'' ''SiteInstance'' ?id) = []"
    using less [of "''reconcile_repair''" "''SiteInstance''" ?id] by (auto simp: filter_empty_conv after_rearm_def list_all_iff)
  then show "cycle_count t inst now = 0" by (simp add: cycle_count_def Let_def same last)
  show "list_all (\<lambda>r. i_pk r = i_pk inst \<longrightarrow> i_consecutive_failures r = 0) (instances t)"
    using e(6) by (auto simp: upd_rows_def list_all_iff)
qed


section \<open>Properties\<close>

definition stray :: "nat \<Rightarrow> site_instance" where
  "stray k = \<lparr>i_pk = k, i_site = 7, i_target = 3, i_desired_image_tag = [], i_desired_state = WantStopped,
     i_observed_state = ObsRunning, i_observed_at = None, i_last_reconciled_at = None, i_consecutive_failures = 0,
     i_internal_port = k\<rparr>"

definition stray_hub :: hub where
  "stray_hub = sample_hub\<lparr>deployments := [], instances := [stray 1, stray 2]\<rparr>"

text \<open>A host on which containers run and no command that changes anything succeeds.\<close>

definition stuck_world :: world where
  "stuck_world = calm_world\<lparr>w_shell := (\<lambda>cs. Inr (case last cs of
     Probe _ \<Rightarrow> \<lparr>exit_code = 0, stdout = ''true'', stderr = []\<rparr> | _ \<Rightarrow> \<lparr>exit_code = 1, stdout = [], stderr = ''no''\<rparr>))\<rparr>"

text \<open>
  C29: The brakes of the reconciler hold. While reconciliation is switched off globally or for the site,
  while the site is in maintenance, while a deployment holds the lock of the site, or when every instance
  of the site has failed three times in a row, a tick sends no command that changes the target.
\<close>

theorem brakes_hold:
  assumes "\<not> enabled \<or> \<not> s_reconcile_enabled site \<or> (\<exists>u. s_maintenance_until site = Some u \<and> now < u) \<or>
    lock_present s ScopeSite (str_nat (s_pk site)) KindDeploy \<or>
    list_all (\<lambda>r. i_site r = s_pk site \<longrightarrow> BACKOFF_AFTER \<le> i_consecutive_failures r) (instances s)"
  shows "mutating_calls (snd (tick w P enabled observe site (Some now) budget only s)) = mutating_calls s"
proof (cases enabled)
  case False
  have "evolves (adds (\<lambda>c. \<not> mutating c)) (audit_once w ''reconcile_globally_disabled'' None [])"
    unfolding audit_once_def by (intro issue.ev_rules frame_adds audit_calls)
  then have "evolves (adds (\<lambda>c. \<not> mutating c)) (tick w P enabled observe site (Some now) budget only)"
    using False unfolding tick_def by (simp add: issue.ev_andThen issue.ev_ret)
  then show ?thesis by (simp add: evolves_def adds_mutating)
next
  case True
  let ?rows = "filter (\<lambda>r. i_site r = s_pk site \<and> (case only of None \<Rightarrow> True | Some k \<Rightarrow> i_pk r = k)) (instances s)"
  have "list_all (stopped_for site now) ?rows \<or> deploying_site site s"
    using assms True by (auto simp: list_all_iff stopped_for_def deploying_site_def)
  from adds_mutating [OF tick_rows_calm [OF this]] True show ?thesis by (simp add: tick_def)
qed

theorem brakes_hold_witness:
  "mutating_calls (snd (tick stuck_world quiet_ports False None sample_site (Some 0) None None stray_hub)) = mutating_calls stray_hub"
  using brakes_hold [of False] by blast

text \<open>
  C30: The reconciler gives its locks back. However a scheduled run ends, every lock is held by whoever
  held it before the run, and the uniqueness of locks is kept.
\<close>

theorem reconciler_returns_locks:
  assumes "ports_keep P" "lock_wf s"
  shows "held (snd (tick_all w shell_of P enabled budget s)) = held s \<and> lock_wf (snd (tick_all w shell_of P enabled budget s))"
proof -
  have "evolves locks_back (tick_all w shell_of P enabled budget)"
    unfolding tick_all_def by (intro kept.ev_rules tick_instances_back assms)
  with assms(2) show ?thesis unfolding evolves_def locks_back_def by blast
qed

theorem reconciler_returns_locks_witness:
  "held (snd (tick_all stuck_world (\<lambda>_. Inr (w_shell stuck_world)) quiet_ports True None stray_hub)) = held stray_hub"
proof -
  have "lock_wf stray_hub" by (simp add: stray_hub_def sample_hub_def lock_wf_def)
  with reconciler_returns_locks [OF quiet_ports_keep] show ?thesis by blast
qed

text \<open>
  Repairs stay within the budget. A tick that returns has carried out between zero and its budget of
  repairs, and a scheduled run that starts with a non-negative budget ends with what is left of it,
  never below zero.
\<close>

theorem repairs_within_budget:
  "(tick w P enabled observe site now (Some b) only s = (Inr n, t) \<longrightarrow> 0 \<le> n \<and> n \<le> max 0 b) \<and>
   (0 \<le> b \<and> tick_all w shell_of P enabled (Some b) s = (Inr r, u) \<longrightarrow> 0 \<le> r \<and> r \<le> b)"
proof -
  have "yields (tick_all w shell_of P enabled (Some b)) (\<lambda>r. min 0 b \<le> r \<and> r \<le> b)"
    unfolding tick_all_def by (intro yields_bnd) (simp add: tick_instances_budget)
  then have "tick_all w shell_of P enabled (Some b) s = (Inr r, u) \<Longrightarrow> min 0 b \<le> r \<and> r \<le> b"
    by (rule yieldsD)
  then show ?thesis
    using yieldsD [OF tick_budget, of w P enabled observe site now "Some b" only s n t] by auto
qed

theorem repairs_within_budget_witness:
  "\<exists>n t. tick stuck_world quiet_ports False None sample_site None (Some 1) None empty_hub = (Inr n, t) \<and> 0 \<le> n \<and> n \<le> 1"
proof -
  have "\<exists>n t. tick stuck_world quiet_ports False None sample_site None (Some 1) None empty_hub = (Inr n, t)"
    by (simp add: tick_def audit_once_def seen_once_def events_of_def andThen_def bnd_def gets_def when_do_def audit_def
        resolve_workspace_def initial_scope_def audit_args_def write_event_def chain_head_def timezone_now_def modify_def ret_def Let_def)
  then obtain n t where "tick stuck_world quiet_ports False None sample_site None (Some 1) None empty_hub = (Inr n, t)" by blast
  with repairs_within_budget [of stuck_world quiet_ports False None sample_site None 1 None empty_hub n t] show ?thesis by auto
qed

definition seen_running :: observer where
  "seen_running = Some (\<lambda>_. (''running'', []))"

lemma stray_plan: "plan ((stray k)\<lparr>i_observed_state := x, i_observed_at := y\<rparr>) \<lparr>ob_state = ''running'', ob_reason = []\<rparr> = Some Stop"
  by (simp add: plan_def stray_def)

lemma stray_not_braked:
  "audits s = [] \<Longrightarrow> braked w sample_site ((stray k)\<lparr>i_observed_state := x, i_observed_at := y\<rparr>) \<lparr>ob_state = ''running'', ob_reason = []\<rparr> now s = (Inr False, s)"
  by (simp add: braked_def sample_site_def stray_def reason_key_def lower_def replace_char_def STALE_REASONS_def
      UPSTREAM_REASONS_def BACKOFF_AFTER_def gets_def flap_paused_def newest_def events_of_def Let_def)

lemma read_seen: "read_observed w seen_running site inst now = ret \<lparr>ob_state = ''running'', ob_reason = []\<rparr>"
  by (simp add: read_observed_def seen_running_def)

lemma stray_observed:
  "persist_observation inst \<lparr>ob_state = ''running'', ob_reason = []\<rparr> now s =
     (Inr (inst\<lparr>i_observed_state := ObsRunning, i_observed_at := Some now\<rparr>),
      s\<lparr>instances := upd_rows (\<lambda>r. i_pk r = i_pk inst) (\<lambda>r. r\<lparr>i_observed_state := ObsRunning, i_observed_at := Some now\<rparr>) (instances s)\<rparr>)"
  by (simp add: persist_observation_def save_instance_def observed_of_def andThen_def bnd_def modify_def ret_def)

abbreviation seen_stray :: "time \<Rightarrow> nat \<Rightarrow> site_instance" where
  "seen_stray now k \<equiv> (stray k)\<lparr>i_observed_state := ObsRunning, i_observed_at := Some now\<rparr>"

lemma stray_perform:
  assumes "deployments s = []"
  shows "perform stuck_world P sample_site (seen_stray now k) Stop s =
    (Inl (RuntimeError (''docker stop failed: '' @ ''no'')), s\<lparr>calls := calls s @ [Run [''docker'', ''stop'', ''site-shop-'' @ str_nat k]]\<rparr>)"
proof -
  have "container_name (recon_desired s sample_site (seen_stray now k)) = ''site-shop-'' @ str_nat k"
    using assms by (simp add: container_name_def recon_desired_def last_succeeded_def Let_def sample_site_def stray_def)
  then show ?thesis
    by (simp add: perform_def transport_run_def shell_call_def Let_def bnd_def gets_def stuck_world_def andThen_def expect_ok_def
        result_ok_def throw_def)
qed

lemma stray_recheck:
  assumes "locks s = [l]" "lock_key l = (ScopeSite, str_nat 7, KindReconcile)" "l_holder l = h" "audits s = []" "deployments s = []"
  shows "recheck stuck_world P seen_running sample_site h (seen_stray now k) now s =
    (Inl (RuntimeError (''docker stop failed: '' @ ''no'')),
     s\<lparr>instances := upd_rows (\<lambda>r. i_pk r = k) (\<lambda>r. r\<lparr>i_observed_state := ObsRunning, i_observed_at := Some now\<rparr>) (instances s),
       calls := calls s @ [Run [''docker'', ''stop'', ''site-shop-'' @ str_nat k]]\<rparr>)"
proof -
  let ?s = "s\<lparr>instances := upd_rows (\<lambda>r. i_pk r = k) (\<lambda>r. r\<lparr>i_observed_state := ObsRunning, i_observed_at := Some now\<rparr>) (instances s)\<rparr>"
  have pk: "i_pk (stray k) = k" "s_pk sample_site = 7" by (simp_all add: stray_def sample_site_def)
  have key: "l_scope l = ScopeSite" "l_object_id l = str_nat 7" "l_kind l = KindReconcile" using assms(2) by (simp_all add: lock_key_def)
  have free: "\<not> deploy_lock_held ?s sample_site (seen_stray now k)"
    using assms(1) key by (simp add: deploy_lock_held_def lock_present_def)
  show ?thesis
    using stray_perform [of ?s P now k] stray_plan [where k = k and x = ObsRunning and y = "Some now"] stray_not_braked [where s = ?s and k = k and x = ObsRunning and y = "Some now" and now = now and w = stuck_world]
      assms(1,3,4,5) key free
    by (simp add: recheck_def read_seen stray_observed bnd_def pk ret_def gets_def)
qed

lemma stray_tick_one:
  assumes "locks s = []" "audits s = []" "deployments s = []" "find (\<lambda>r. i_pk r = k) (instances s) = Some (stray k)"
  shows "\<exists>t. tick_one stuck_world quiet_ports seen_running sample_site now True (stray k) s = (Inr False, t) \<and>
    locks t = [] \<and> audits t = [] \<and> deployments t = [] \<and>
    calls t = calls s @ [Run [''docker'', ''stop'', ''site-shop-'' @ str_nat k]] \<and>
    (\<forall>j. j \<noteq> k \<longrightarrow> find (\<lambda>r. i_pk r = j) (instances t) = find (\<lambda>r. i_pk r = j) (instances s))"
proof -
  let ?see = "\<lambda>s. s\<lparr>instances := upd_rows (\<lambda>r. i_pk r = k) (\<lambda>r. r\<lparr>i_observed_state := ObsRunning, i_observed_at := Some now\<rparr>) (instances s)\<rparr>"
  let ?u = "?see s" and ?h = "recon_holder sample_site" and ?site = "str_nat 7"
  have pk: "i_pk (stray k) = k" "s_pk sample_site = 7" by (simp_all add: stray_def sample_site_def)
  have free: "held ?u (ScopeSite, ?site, KindReconcile) = None" "\<not> deploy_lock_held ?u sample_site (seen_stray now k)"
    using assms(1) by (simp_all add: held_def deploy_lock_held_def lock_present_def)
  obtain l v where v: "acquire stuck_world ScopeSite ?site KindReconcile ?h ?u = (Inr (Some l), v)" "v = ?u\<lparr>locks := [l], ticks := ticks s + 2\<rparr>"
      "lock_key l = (ScopeSite, ?site, KindReconcile)" "l_holder l = ?h"
    using acquire_free [OF free(1), of stuck_world ?h] assms(1) by (auto simp: Let_def lock_key_def)
  have found: "find (\<lambda>r. i_pk r = k) (instances v) = Some (seen_stray now k)"
    using assms(4) by (simp add: v(2) find_upd_rows_key)
  let ?x = "(?see v)\<lparr>calls := calls s @ [Run [''docker'', ''stop'', ''site-shop-'' @ str_nat k]]\<rparr>"
  let ?y = "?x\<lparr>instances := upd_rows (\<lambda>r. i_pk r = k) (\<lambda>r. r\<lparr>i_consecutive_failures := 1\<rparr>) (instances ?x)\<rparr>"
  have "recheck stuck_world quiet_ports seen_running sample_site ?h (seen_stray now k) now v = (Inl (RuntimeError (''docker stop failed: '' @ ''no'')), ?x)"
    using stray_recheck [of v l ?h quiet_ports now k] v(2-4) assms(2,3) by simp
  then have locked: "apply_locked stuck_world quiet_ports seen_running sample_site ?h (seen_stray now k) now v = (Inr False, ?y)"
    using found by (simp add: apply_locked_def attempt_def try_except_def refresh_instance_def bnd_def gets_def ret_def pk
        count_failure_def save_instance_def andThen_def modify_def when_do_def BACKOFF_AFTER_def stray_def)
  have "apply_repair stuck_world quiet_ports seen_running sample_site (seen_stray now k) now ?u = (Inr False, ?y\<lparr>locks := []\<rparr>)"
    using v locked by (simp add: apply_repair_def pk bnd_def try_finally_def release_def gets_def modify_def andThen_def ret_def Let_def lock_match_def)
  then have "tick_one stuck_world quiet_ports seen_running sample_site now True (stray k) s = (Inr False, ?y\<lparr>locks := []\<rparr>)"
    using stray_plan [where k = k and x = ObsRunning and y = "Some now"] stray_not_braked [where s = ?u and k = k and x = ObsRunning and y = "Some now" and now = now and w = stuck_world] assms(2) free(2)
    by (simp add: tick_one_def repair_row_def read_seen stray_observed bnd_def pk ret_def gets_def)
  then show ?thesis using v(2) assms by (simp add: find_upd_rows_key option.map_ident)
qed

text \<open>
  Failed repairs spend no budget. On a host where every changing command fails, a tick with a budget
  of one mutation over two unwanted containers sends a stop command to each and reports none.
\<close>

theorem failed_repairs_spend_no_budget:
  "fst (tick stuck_world quiet_ports True seen_running sample_site (Some 0) (Some 1) None stray_hub) = Inr 0 \<and>
   mutating_calls (snd (tick stuck_world quiet_ports True seen_running sample_site (Some 0) (Some 1) None stray_hub)) =
     [Run [''docker'', ''stop'', ''site-shop-'' @ str_nat 1], Run [''docker'', ''stop'', ''site-shop-'' @ str_nat 2]]"
proof -
  have hub: "locks stray_hub = []" "audits stray_hub = []" "deployments stray_hub = []" "calls stray_hub = []"
    "instances stray_hub = [stray 1, stray 2]" by (simp_all add: stray_hub_def sample_hub_def)
  have ids: "i_pk (stray k) = k" "i_site (stray k) = 7" "s_pk sample_site = 7" for k by (simp_all add: stray_def sample_site_def)
  obtain t where t: "tick_one stuck_world quiet_ports seen_running sample_site 0 True (stray 1) stray_hub = (Inr False, t)"
      "locks t = []" "audits t = []" "deployments t = []" "calls t = [Run [''docker'', ''stop'', ''site-shop-'' @ str_nat 1]]"
      "find (\<lambda>r. i_pk r = 2) (instances t) = Some (stray 2)"
    using stray_tick_one [of stray_hub 1 0] hub ids by auto
  obtain u where u: "tick_one stuck_world quiet_ports seen_running sample_site 0 True (stray 2) t = (Inr False, u)"
      "calls u = calls t @ [Run [''docker'', ''stop'', ''site-shop-'' @ str_nat 2]]"
    using stray_tick_one [of t 2 0] t by auto
  have "tick stuck_world quiet_ports True seen_running sample_site (Some 0) (Some 1) None stray_hub = (Inr 0, u)"
    using t(1) u(1) by (simp add: tick_def hub ids bnd_def ret_def gets_def)
  with t(5) u(2) show ?thesis by (simp add: mutating_calls_def)
qed

text \<open>
  Re-arming lifts the pause. When the clock is past every recorded event, re-arming an instance ends
  its flap pause, resets its failure count, and no earlier repair counts as a cycle any more.
\<close>

theorem rearm_lifts_brakes:
  assumes "rearm w inst s = (Inr (), t)" "list_all (\<lambda>e. ae_ts e < w_clock w (ticks s)) (audits s)"
  shows "\<not> flap_paused t inst \<and> cycle_count t inst now = 0 \<and>
    list_all (\<lambda>r. i_pk r = i_pk inst \<longrightarrow> i_consecutive_failures r = 0) (instances t)"
  using rearm_clears [OF assms] by blast

theorem rearm_lifts_brakes_witness:
  "\<exists>t. rearm calm_world (stray 1) stray_hub = (Inr (), t) \<and> \<not> flap_paused t (stray 1) \<and> cycle_count t (stray 1) 0 = 0"
proof -
  let ?c = "(audit_args ''reconcile_rearmed'' (Some (OInstance (stray 1))))\<lparr>ac_source := SrcReconciler\<rparr>"
  let ?u = "stray_hub\<lparr>instances := upd_rows (\<lambda>r. i_pk r = i_pk (stray 1)) (\<lambda>r. r\<lparr>i_consecutive_failures := 0\<rparr>) (instances stray_hub)\<rparr>"
  have "resolve_workspace ?u (ac_obj ?c) (ac_workspace ?c) (initial_scope ?c) = Inr (Some 1)"
    by (simp add: resolve_workspace_def audit_args_def initial_scope_def site_by_pk_def stray_hub_def sample_hub_def sample_site_def stray_def)
  then have "\<exists>e t. audit calm_world ?c ?u = (Inr e, t)"
    using write_event_effect [of calm_world ?c "(final_scope ?c (Some 1), Some 1)" ?u] by (auto simp: audit_def)
  then obtain t where t: "rearm calm_world (stray 1) stray_hub = (Inr (), t)"
    by (auto simp: rearm_def save_instance_def andThen_def bnd_def modify_def ret_def)
  have "audits stray_hub = []" by (simp add: stray_hub_def sample_hub_def)
  with rearm_lifts_brakes [OF t] t show ?thesis by auto
qed

end
