(* ===== verification/Rbac.thy ===== *)
theory Rbac
  imports Prelude
begin

text \<open>
  \<open>core/rbac.py\<close> and \<open>core/permissions.py\<close>: workspace-scoped roles and capabilities, the workspace a request
  acts in, and the permission classes in front of the mutating views. The tables of workspaces and
  memberships are the state; a request caches its workspace.
\<close>

section \<open>Tables\<close>

datatype role = Viewer | Auditor | Operator | Deployer | Admin | Owner

record workspace =
  ws_pk :: nat
  ws_slug :: string
  ws_name :: string

record membership =
  mb_pk :: nat
  mb_workspace :: nat
  mb_user :: nat
  mb_role :: role

record account =
  u_pk :: nat
  u_authenticated :: bool
  u_staff :: bool
  u_superuser :: bool

record directory =
  workspaces :: "workspace list"
  memberships :: "membership list"

type_synonym 'a dact = "(directory, 'a) prog"


section \<open>Roles and actions\<close>

fun ROLE_CAPABILITIES :: "role \<Rightarrow> string list" where
  "ROLE_CAPABILITIES Viewer = [''hud_ui_v1'', ''admin_read'']"
| "ROLE_CAPABILITIES Auditor = [''hud_ui_v1'', ''admin_read'', ''audit.export'']"
| "ROLE_CAPABILITIES Operator = [''hud_ui_v1'', ''admin_read'', ''deployment.cancel'', ''deployment.rollback'',
     ''deployment.retry'', ''findings.manage'']"
| "ROLE_CAPABILITIES Deployer = [''hud_ui_v1'', ''admin_read'', ''config.write'', ''deployment.request'',
     ''deployment.cancel'', ''deployment.rollback'', ''deployment.retry'', ''findings.manage'']"
| "ROLE_CAPABILITIES Admin = [''hud_ui_v1'', ''admin_read'', ''audit.export'', ''config.write'', ''secrets.manage'',
     ''members.manage'', ''deployment.request'', ''deployment.approve_prod'', ''deployment.cancel'',
     ''deployment.rollback'', ''deployment.retry'', ''findings.manage'', ''findings.accept_risk'']"
| "ROLE_CAPABILITIES Owner = [''hud_ui_v1'', ''admin_read'', ''audit.export'', ''config.write'', ''deployment.request'',
     ''deployment.approve_prod'', ''deployment.cancel'', ''deployment.rollback'', ''deployment.retry'',
     ''secrets.manage'', ''members.manage'', ''lifecycle.destroy'', ''findings.manage'', ''findings.accept_risk'']"

definition SYSTEM_ACTIONS :: "string list" where
  "SYSTEM_ACTIONS = [''partner.api_kill_switch'', ''aws.connect'']"

definition ACTION_CAPABILITY :: "(string \<times> string) list" where
  "ACTION_CAPABILITY = [
     (''target.create'', ''config.write''), (''target.probe'', ''config.write''),
     (''target.delete'', ''lifecycle.destroy''), (''target.router_probe'', ''config.write''),
     (''instance.create'', ''config.write''), (''instance.terminate'', ''lifecycle.destroy''),
     (''ssh.rotate'', ''secrets.manage''), (''partner.create'', ''config.write''),
     (''partner.suspend'', ''members.manage''), (''partner.site_takedown'', ''deployment.request''),
     (''partner.destination_rank'', ''config.write''), (''site.create'', ''config.write''),
     (''site.deploy'', ''deployment.request''), (''site.env'', ''config.write''),
     (''site.rollback'', ''deployment.rollback''), (''site.adopt'', ''config.write''),
     (''site.preview_create'', ''deployment.request''), (''site.overflow_deploy'', ''deployment.request''),
     (''site.overflow_join'', ''deployment.request''), (''site.overflow_scale_in'', ''deployment.request''),
     (''site.backup_restore'', ''lifecycle.destroy''), (''site.backup_test'', ''config.write''),
     (''site.edge_owner'', ''config.write''), (''project.scan'', ''config.write''),
     (''project.create'', ''config.write''), (''wizard.answers'', ''config.write''),
     (''wizard.materialize'', ''deployment.request''), (''integration.verify'', ''config.write''),
     (''aws.verify'', ''config.write''), (''cloudflare.verify'', ''config.write''),
     (''dns.verify'', ''config.write''), (''dns.origin_ca_plant'', ''secrets.manage''),
     (''dns.cloudflare_connect'', ''secrets.manage''), (''deployment.cancel'', ''deployment.cancel''),
     (''deployment.abort'', ''deployment.cancel''), (''deployment.retry'', ''deployment.retry''),
     (''deployment.rollback'', ''deployment.rollback''), (''finding.ack'', ''findings.manage''),
     (''finding.resolve'', ''findings.manage''), (''finding.transition'', ''findings.manage''),
     (''finding.accept_risk'', ''findings.accept_risk''), (''secret.create'', ''secrets.manage''),
     (''member.invite'', ''members.manage'')]"

text \<open>The set of a role, without the shell capability when the setting HUD_UI_V1 is off, sorted.\<close>

definition hud_capabilities :: "bool \<Rightarrow> role \<Rightarrow> string list" where
  "hud_capabilities hud r = sort (remdups (filter (\<lambda>c. hud \<or> c \<noteq> ''hud_ui_v1'') (ROLE_CAPABILITIES r)))"


section \<open>Memberships\<close>

definition DEFAULT_WORKSPACE_ID :: nat where
  "DEFAULT_WORKSPACE_ID = 1"

definition default_workspace :: "workspace dact" where
  "default_workspace = (\<lambda>s. case find (\<lambda>x. ws_pk x = DEFAULT_WORKSPACE_ID) (workspaces s) of
     Some x \<Rightarrow> (Inr x, s)
   | None \<Rightarrow> (let x = \<lparr>ws_pk = DEFAULT_WORKSPACE_ID, ws_slug = ''default'', ws_name = ''Default workspace''\<rparr>
              in if list_ex (\<lambda>y. ws_slug y = ''default'') (workspaces s) then (Inl IntegrityError, s)
                 else (Inr x, s\<lparr>workspaces := workspaces s @ [x]\<rparr>)))"

text \<open>\<open>None\<close> is the anonymous request.\<close>

definition signed_in :: "account option \<Rightarrow> bool" where
  "signed_in user = (case user of None \<Rightarrow> False | Some u \<Rightarrow> u_authenticated u)"

definition is_system_admin :: "account option \<Rightarrow> bool" where
  "is_system_admin user = (case user of None \<Rightarrow> False | Some u \<Rightarrow> u_authenticated u \<and> u_superuser u)"

text \<open>The role in force: a stored membership, or the bootstrap of staff on the default workspace.\<close>

datatype standing = Stored role | Bootstrap role

fun standing_role :: "standing \<Rightarrow> role" where
  "standing_role (Stored r) = r"
| "standing_role (Bootstrap r) = r"

definition workspace_membership :: "directory \<Rightarrow> account option \<Rightarrow> workspace option \<Rightarrow> standing option" where
  "workspace_membership s user wsp = (case (user, wsp) of
     (Some u, Some x) \<Rightarrow>
       if \<not> u_authenticated u then None
       else (case find (\<lambda>m. mb_user m = u_pk u \<and> mb_workspace m = ws_pk x) (memberships s) of
           Some m \<Rightarrow> Some (Stored (mb_role m))
         | None \<Rightarrow> if ws_slug x \<noteq> ''default'' then None
             else if u_staff u \<or> u_superuser u then Some (Bootstrap (if u_superuser u then Owner else Admin))
             else None)
   | _ \<Rightarrow> None)"


section \<open>The workspace of a request\<close>

text \<open>\<open>str.isdigit()\<close> on a non-empty text also accepts the superscript digits, which \<open>int()\<close> rejects.\<close>

definition isdigit :: "string \<Rightarrow> bool" where
  "isdigit x = (x \<noteq> [] \<and> list_all (\<lambda>c. is_digit c \<or> of_char c \<in> {178, 179, 185 :: nat}) x)"

definition int_of_ref :: "string \<Rightarrow> exn + nat" where
  "int_of_ref x = (if list_all is_digit x then Inr (nat_of_digits x) else Inl (ValueError ''invalid literal for int()''))"

text \<open>\<open>Workspace.objects.filter(lookup).first()\<close>: the matching row with the smallest key.\<close>

definition first_by_pk :: "(workspace \<Rightarrow> bool) \<Rightarrow> workspace list \<Rightarrow> workspace option" where
  "first_by_pk p xs = find p (sort_key ws_pk xs)"

definition candidate_workspace :: "directory \<Rightarrow> string \<Rightarrow> exn + workspace option" where
  "candidate_workspace s ref =
     (if isdigit ref
      then (case int_of_ref ref of Inl e \<Rightarrow> Inl e
        | Inr n \<Rightarrow> Inr (first_by_pk (\<lambda>x. ws_slug x = ref \<or> ws_pk x = n) (workspaces s)))
      else Inr (first_by_pk (\<lambda>x. ws_slug x = ref) (workspaces s)))"

text \<open>The memberships of a user in the order of the slug of their workspace, then of their key.\<close>

definition slug_of :: "directory \<Rightarrow> nat \<Rightarrow> string" where
  "slug_of s k = (case find (\<lambda>x. ws_pk x = k) (workspaces s) of Some x \<Rightarrow> ws_slug x | None \<Rightarrow> [])"

definition own_memberships :: "directory \<Rightarrow> nat \<Rightarrow> membership list" where
  "own_memberships s k = sort_key (\<lambda>m. slug_of s (mb_workspace m)) (sort_key mb_pk (filter (\<lambda>m. mb_user m = k) (memberships s)))"

definition first_own_workspace :: "directory \<Rightarrow> nat \<Rightarrow> workspace option" where
  "first_own_workspace s k = (case own_memberships s k of [] \<Rightarrow> None
     | m # _ \<Rightarrow> find (\<lambda>x. ws_pk x = mb_workspace m) (workspaces s))"

definition resolve_workspace_ref :: "account option \<Rightarrow> string option \<Rightarrow> workspace option dact" where
  "resolve_workspace_ref user ref =
     (if \<not> signed_in user then ret None
      else case (case ref of None \<Rightarrow> [] | Some r \<Rightarrow> r) of
        c # cs \<Rightarrow> bnd (gets (\<lambda>s. candidate_workspace s (c # cs))) (\<lambda>found. case found of
            Inl e \<Rightarrow> throw e
          | Inr candidate \<Rightarrow> bnd (gets (\<lambda>s. workspace_membership s user candidate)) (\<lambda>m.
              ret (if m = None then None else candidate)))
      | [] \<Rightarrow> bnd (gets (\<lambda>s. first_own_workspace s (u_pk (the user)))) (\<lambda>own. case own of
            Some x \<Rightarrow> ret (Some x)
          | None \<Rightarrow> bnd default_workspace (\<lambda>dflt.
              bnd (gets (\<lambda>s. workspace_membership s user (Some dflt))) (\<lambda>m.
              ret (if m = None then None else Some dflt)))))"

text \<open>
  What the permission layer reads of a request: the two headers, the query parameter, and the cached
  workspace (\<open>None\<close> before the first call).
\<close>

record request =
  rq_user :: "account option"
  rq_method :: string
  rq_header :: "string option"
  rq_header_id :: "string option"
  rq_query :: "string option"
  rq_workspace :: "workspace option option"

definition or_text :: "string option \<Rightarrow> string option \<Rightarrow> string option" where
  "or_text a b = (case a of Some (c # cs) \<Rightarrow> a | _ \<Rightarrow> b)"

definition request_ref :: "request \<Rightarrow> string option" where
  "request_ref rq = or_text (rq_header rq) (or_text (rq_header_id rq) (rq_query rq))"

definition request_workspace :: "request \<Rightarrow> (workspace option \<times> request) dact" where
  "request_workspace rq = (case rq_workspace rq of
     Some x \<Rightarrow> ret (x, rq)
   | None \<Rightarrow> bnd (resolve_workspace_ref (rq_user rq) (request_ref rq)) (\<lambda>x. ret (x, rq\<lparr>rq_workspace := Some x\<rparr>)))"


section \<open>Capabilities\<close>

definition bootstrap_revoked :: "account option \<Rightarrow> standing \<Rightarrow> bool" where
  "bootstrap_revoked user m = (case m of Stored _ \<Rightarrow> False | Bootstrap _ \<Rightarrow>
     (case user of None \<Rightarrow> True | Some u \<Rightarrow> \<not> (u_staff u \<or> u_superuser u)))"

definition capabilities_for :: "bool \<Rightarrow> directory \<Rightarrow> account option \<Rightarrow> workspace option \<Rightarrow> string list" where
  "capabilities_for hud s user wsp = (case workspace_membership s user wsp of
     None \<Rightarrow> []
   | Some m \<Rightarrow> if bootstrap_revoked user m then [] else hud_capabilities hud (standing_role m))"

definition selected :: "account option \<Rightarrow> workspace option \<Rightarrow> workspace option dact" where
  "selected user wsp = (case wsp of Some x \<Rightarrow> ret (Some x) | None \<Rightarrow> resolve_workspace_ref user None)"

definition user_capabilities :: "bool \<Rightarrow> account option \<Rightarrow> workspace option \<Rightarrow> string list dact" where
  "user_capabilities hud user wsp = bnd (selected user wsp) (\<lambda>x. gets (\<lambda>s. capabilities_for hud s user x))"

definition user_role :: "account option \<Rightarrow> workspace option \<Rightarrow> role option dact" where
  "user_role user wsp = bnd (selected user wsp) (\<lambda>x. gets (\<lambda>s. case workspace_membership s user x of
     None \<Rightarrow> None | Some m \<Rightarrow> if bootstrap_revoked user m then None else Some (standing_role m)))"

definition has_capability :: "bool \<Rightarrow> account option \<Rightarrow> string \<Rightarrow> workspace option \<Rightarrow> bool dact" where
  "has_capability hud user name wsp = bnd (user_capabilities hud user wsp) (\<lambda>caps. ret (name \<in> set caps))"

definition has_operator_capability :: "bool \<Rightarrow> account option \<Rightarrow> string \<Rightarrow> workspace option \<Rightarrow> bool dact" where
  "has_operator_capability hud user name wsp = bnd (selected user wsp) (\<lambda>x. has_capability hud user name x)"

record workspace_row =
  wr_id :: nat
  wr_slug :: string
  wr_name :: string
  wr_role :: role
  wr_capabilities :: "string list"

definition payload_row :: "bool \<Rightarrow> workspace \<Rightarrow> role \<Rightarrow> workspace_row" where
  "payload_row hud x r = \<lparr>wr_id = ws_pk x, wr_slug = ws_slug x, wr_name = ws_name x, wr_role = r,
     wr_capabilities = hud_capabilities hud r\<rparr>"

definition own_rows :: "bool \<Rightarrow> directory \<Rightarrow> nat \<Rightarrow> workspace_row list" where
  "own_rows hud s k = List.map_filter (\<lambda>m. map_option (\<lambda>x. payload_row hud x (mb_role m))
     (find (\<lambda>x. ws_pk x = mb_workspace m) (workspaces s))) (own_memberships s k)"

definition workspace_payload :: "bool \<Rightarrow> account option \<Rightarrow> workspace_row list dact" where
  "workspace_payload hud user = (case user of
     None \<Rightarrow> ret []
   | Some u \<Rightarrow> if \<not> u_authenticated u then ret []
       else bnd (gets (\<lambda>s. own_rows hud s (u_pk u))) (\<lambda>rows.
         if \<not> (u_staff u \<or> u_superuser u) then ret rows
         else bnd default_workspace (\<lambda>dflt.
           ret (if list_ex (\<lambda>r. wr_id r = ws_pk dflt) rows then rows
                else rows @ [payload_row hud dflt (if u_superuser u then Owner else Admin)]))))"

text \<open>\<open>scope_queryset\<close> over rows with an owning workspace, and the single row behind a detail view.\<close>

definition scope_queryset :: "('r \<Rightarrow> nat) \<Rightarrow> workspace option \<Rightarrow> 'r list \<Rightarrow> 'r list" where
  "scope_queryset owner wsp rows = (case wsp of None \<Rightarrow> [] | Some x \<Rightarrow> filter (\<lambda>r. owner r = ws_pk x) rows)"

definition scoped_get :: "('r \<Rightarrow> nat) \<Rightarrow> request \<Rightarrow> ('r \<Rightarrow> bool) \<Rightarrow> 'r list \<Rightarrow> 'r option dact" where
  "scoped_get owner rq lookup rows = bnd (request_workspace rq) (\<lambda>(x, _). ret (find lookup (scope_queryset owner x rows)))"


section \<open>Permission classes\<close>

definition SAFE_METHODS :: "string list" where
  "SAFE_METHODS = [''GET'', ''HEAD'', ''OPTIONS'']"

definition require_workspace :: "request \<Rightarrow> (bool \<times> request) dact" where
  "require_workspace rq = bnd (request_workspace rq) (\<lambda>(x, rq'). ret (x \<noteq> None, rq'))"

definition require_action :: "bool \<Rightarrow> string option \<Rightarrow> request \<Rightarrow> bool dact" where
  "require_action hud action_id rq =
     (if rq_method rq \<in> set SAFE_METHODS then ret True
      else case map_of ACTION_CAPABILITY (case action_id of None \<Rightarrow> [] | Some a \<Rightarrow> a) of
        None \<Rightarrow> ret False
      | Some cap \<Rightarrow> bnd (request_workspace rq) (\<lambda>(x, rq'). has_operator_capability hud (rq_user rq) cap x))"

definition require_system_admin :: "request \<Rightarrow> bool" where
  "require_system_admin rq = is_system_admin (rq_user rq)"

text \<open>The touch recorded in the session: absent, unreadable, or a time.\<close>

datatype touch = NoTouch | UnreadableTouch | TouchedAt time

definition TOUCH_MINUTES :: int where
  "TOUCH_MINUTES = 5"

definition require_recent_touch :: "account option \<Rightarrow> nat \<Rightarrow> touch \<Rightarrow> time \<Rightarrow> bool" where
  "require_recent_touch user confirmed raw now =
     (signed_in user \<and> confirmed \<ge> 2 \<and> (case raw of TouchedAt t \<Rightarrow>
        let age = now - t in \<not> (age > minutes TOUCH_MINUTES \<or> age < 0) | _ \<Rightarrow> False))"

text \<open>The list in front of a mutating view: every class must agree.\<close>

definition mutating_view :: "bool \<Rightarrow> string option \<Rightarrow> request \<Rightarrow> bool dact" where
  "mutating_view hud action_id rq =
     (if \<not> signed_in (rq_user rq) then ret False
      else bnd (require_workspace rq) (\<lambda>(ok, rq'). if \<not> ok then ret False else require_action hud action_id rq'))"


section \<open>Facts\<close>

lemma hud_capabilities_subset: "set (hud_capabilities hud r) \<subseteq> set (ROLE_CAPABILITIES r)"
  by (auto simp: hud_capabilities_def)

lemma workspace_membership_Some:
  "workspace_membership s user wsp = Some m \<Longrightarrow> \<exists>u x. user = Some u \<and> wsp = Some x \<and> u_authenticated u \<and>
     ((\<exists>row \<in> set (memberships s). mb_user row = u_pk u \<and> mb_workspace row = ws_pk x \<and> m = Stored (mb_role row)) \<or>
      (ws_slug x = ''default'' \<and> (u_staff u \<or> u_superuser u) \<and> m = Bootstrap (if u_superuser u then Owner else Admin)))"
  by (auto simp: workspace_membership_def split: option.splits if_splits dest!: find_Some_mem)

text \<open>The right to a capability in a workspace, as a table lookup.\<close>

definition entitled :: "directory \<Rightarrow> account \<Rightarrow> workspace \<Rightarrow> string \<Rightarrow> bool" where
  "entitled s u x cap = (u_authenticated u \<and>
     ((\<exists>row \<in> set (memberships s). mb_user row = u_pk u \<and> mb_workspace row = ws_pk x \<and> cap \<in> set (ROLE_CAPABILITIES (mb_role row))) \<or>
      (ws_slug x = ''default'' \<and> (u_superuser u \<and> cap \<in> set (ROLE_CAPABILITIES Owner) \<or>
         u_staff u \<and> cap \<in> set (ROLE_CAPABILITIES Admin)))))"

lemma capabilities_entitled:
  assumes "cap \<in> set (capabilities_for hud s user wsp)"
  shows "\<exists>u x. user = Some u \<and> wsp = Some x \<and> entitled s u x cap"
proof -
  obtain m where m: "workspace_membership s user wsp = Some m" "cap \<in> set (hud_capabilities hud (standing_role m))"
    using assms by (cases "workspace_membership s user wsp") (auto simp: capabilities_for_def split: if_splits)
  then have cap: "cap \<in> set (ROLE_CAPABILITIES (standing_role m))" using hud_capabilities_subset by blast
  from workspace_membership_Some [OF m(1)] cap show ?thesis
    by (fastforce simp: entitled_def split: if_splits)
qed

lemma require_workspace_ok:
  assumes "require_workspace rq s = (Inr (True, rq'), t)"
  shows "\<exists>x. rq_workspace rq' = Some (Some x) \<and> rq_user rq' = rq_user rq \<and> rq_method rq' = rq_method rq"
  using assms unfolding require_workspace_def request_workspace_def
  by (auto simp: bnd_def ret_def split: option.splits prod.splits sum.splits)

lemma require_action_cached:
  assumes "require_action hud action_id rq s = (Inr True, t)" "rq_method rq \<notin> set SAFE_METHODS"
    "rq_workspace rq = Some (Some x)"
  shows "s = t \<and> (\<exists>cap. map_of ACTION_CAPABILITY (case action_id of None \<Rightarrow> [] | Some a \<Rightarrow> a) = Some cap \<and>
    cap \<in> set (capabilities_for hud s (rq_user rq) (Some x)))"
  using assms unfolding require_action_def request_workspace_def has_operator_capability_def has_capability_def
    user_capabilities_def selected_def
  by (auto simp: ret_def bnd_def gets_def split: option.splits)


section \<open>Properties\<close>

text \<open>
  C32: No mutation without a right in that workspace. When the permission list of a mutating view lets a
  changing request through, the view names a registered action, the request acts in one workspace, and
  the signed-in user is entitled to the action's capability in that very workspace: through a membership
  there, or as staff on the default workspace. Rights in other workspaces never count.
\<close>

theorem mutation_needs_right_here:
  assumes "mutating_view hud action_id rq s = (Inr True, t)" "rq_method rq \<notin> set SAFE_METHODS"
  shows "\<exists>a cap u x rq'. action_id = Some a \<and> map_of ACTION_CAPABILITY a = Some cap \<and> rq_user rq = Some u \<and>
    request_workspace rq s = (Inr (Some x, rq'), t) \<and> entitled t u x cap"
proof -
  obtain rq' u where rq': "require_workspace rq s = (Inr (True, rq'), u)" "require_action hud action_id rq' u = (Inr True, t)"
    using assms(1) unfolding mutating_view_def
    by (auto simp: ret_def bnd_def split: if_splits prod.splits sum.splits)
  obtain x where x: "rq_workspace rq' = Some (Some x)" "rq_user rq' = rq_user rq" "rq_method rq' = rq_method rq"
    using require_workspace_ok [OF rq'(1)] by blast
  obtain cap where cap: "u = t" "map_of ACTION_CAPABILITY (case action_id of None \<Rightarrow> [] | Some a \<Rightarrow> a) = Some cap"
      "cap \<in> set (capabilities_for hud u (rq_user rq) (Some x))"
    using require_action_cached [OF rq'(2) _ x(1)] x(2,3) assms(2) by auto
  moreover obtain a where "action_id = Some a"
    using cap(2) by (cases action_id) (auto simp: ACTION_CAPABILITY_def)
  moreover have "request_workspace rq s = (Inr (Some x, rq'), u)"
    using rq'(1) x(1) unfolding require_workspace_def
    by (auto simp: bnd_def ret_def request_workspace_def split: option.splits prod.splits sum.splits)
  ultimately show ?thesis using capabilities_entitled [OF cap(3)] by auto
qed

definition small_office :: directory where
  "small_office = \<lparr>workspaces = [\<lparr>ws_pk = 1, ws_slug = ''default'', ws_name = ''Default workspace''\<rparr>,
       \<lparr>ws_pk = 2, ws_slug = ''shop'', ws_name = ''Shop''\<rparr>],
     memberships = [\<lparr>mb_pk = 1, mb_workspace = 2, mb_user = 9, mb_role = Deployer\<rparr>]\<rparr>"

definition nina :: account where
  "nina = \<lparr>u_pk = 9, u_authenticated = True, u_staff = False, u_superuser = False\<rparr>"

definition deploy_request :: "string \<Rightarrow> request" where
  "deploy_request ref = \<lparr>rq_user = Some nina, rq_method = ''POST'', rq_header = Some ref, rq_header_id = None,
     rq_query = None, rq_workspace = None\<rparr>"

theorem mutation_needs_right_here_witness:
  "fst (mutating_view True (Some ''site.deploy'') (deploy_request ''shop'') small_office) = Inr True \<and>
   fst (mutating_view True (Some ''site.deploy'') (deploy_request ''default'') small_office) = Inr False \<and>
   (\<exists>x. entitled small_office nina x ''deployment.request'')"
proof -
  have "mutating_view True (Some ''site.deploy'') (deploy_request ''shop'') small_office = (Inr True, small_office)"
    "fst (mutating_view True (Some ''site.deploy'') (deploy_request ''default'') small_office) = Inr False"
    by code_simp+
  moreover have "rq_method (deploy_request ''shop'') \<notin> set SAFE_METHODS" "map_of ACTION_CAPABILITY ''site.deploy'' = Some ''deployment.request''"
    by code_simp+
  ultimately show ?thesis
    using mutation_needs_right_here [of True "Some ''site.deploy''" "deploy_request ''shop''" small_office small_office]
    by (auto simp: deploy_request_def)
qed

text \<open>
  The roles form a ladder. Each of viewer, operator, deployer, admin and owner has every capability of
  the one before, auditor lies between viewer and admin; only owners may destroy; every registered action
  is open to an owner, and no system action is registered for a workspace.
\<close>

theorem role_ladder:
  "set (ROLE_CAPABILITIES Viewer) \<subseteq> set (ROLE_CAPABILITIES Operator) \<and>
   set (ROLE_CAPABILITIES Operator) \<subseteq> set (ROLE_CAPABILITIES Deployer) \<and>
   set (ROLE_CAPABILITIES Deployer) \<subseteq> set (ROLE_CAPABILITIES Admin) \<and>
   set (ROLE_CAPABILITIES Admin) \<subseteq> set (ROLE_CAPABILITIES Owner) \<and>
   set (ROLE_CAPABILITIES Viewer) \<subseteq> set (ROLE_CAPABILITIES Auditor) \<and>
   set (ROLE_CAPABILITIES Auditor) \<subseteq> set (ROLE_CAPABILITIES Admin) \<and>
   list_all (\<lambda>r. (''lifecycle.destroy'' \<in> set (ROLE_CAPABILITIES r)) = (r = Owner)) [Viewer, Auditor, Operator, Deployer, Admin, Owner] \<and>
   snd ` set ACTION_CAPABILITY \<subseteq> set (ROLE_CAPABILITIES Owner) \<and>
   set SYSTEM_ACTIONS \<inter> fst ` set ACTION_CAPABILITY = {}"
  by code_simp

text \<open>
  A superscript digit breaks the workspace lookup. \<open>isdigit\<close> accepts such a text while \<open>int\<close> rejects it, so a
  signed-in request that names it as its workspace ends in an uncaught \<open>ValueError\<close> instead of being refused.
\<close>

theorem superscript_workspace_raises:
  "resolve_workspace_ref (Some nina) (Some [char_of (178 :: nat)]) s = (Inl (ValueError ''invalid literal for int()''), s)"
proof -
  have "isdigit [char_of (178 :: nat)]" "\<not> list_all is_digit [char_of (178 :: nat)]" by code_simp+
  then show ?thesis
    by (simp add: resolve_workspace_ref_def signed_in_def nina_def candidate_workspace_def int_of_ref_def bnd_def gets_def throw_def)
qed

end
