(* ===== verification/Alert_Rules.thy ===== *)
theory Alert_Rules
  imports Models
begin

text \<open>
  \<open>monitor/alert_rules.py\<close>: the table of alert classes and \<open>classify\<close>. A row of the table is its kind, its
  severity and whether it may trigger a restart; the prose of the condition and the reference to the
  protocol document are not read by the code and are left out. The table is in four parts, in the order
  of the file.
\<close>

record alert_rule =
  ar_kind :: string
  ar_severity :: severity
  ar_restart_trigger :: bool

definition rule :: "string \<Rightarrow> severity \<Rightarrow> alert_rule" where
  "rule kind sev = \<lparr>ar_kind = kind, ar_severity = sev, ar_restart_trigger = False\<rparr>"

definition RULES_P1 :: "alert_rule list" where
  "RULES_P1 = [
    rule ''prod-site-hard-down'' P1, rule ''hub-down'' P1, rule ''hub-db-or-backup-failure'' P1,
    rule ''attack-playbook-engaged'' P1, rule ''budget-cap-hit'' P1, rule ''vault-kek-or-mass-secret'' P1,
    rule ''ssh-host-key-mismatch'' P1, rule ''ssh-rotation-incomplete'' P1, rule ''disk-critical'' P1,
    rule ''partner-kill-switch'' P1, rule ''partner-intake-unreachable'' P1, rule ''cert-expiry-critical'' P1,
    rule ''instance-warmup-no-ready'' P1, rule ''partner-aggregate-down'' P1]"

definition RULES_P2 :: "alert_rule list" where
  "RULES_P2 = [
    rule ''staging-or-flapping'' P2, rule ''error-rate-or-latency'' P2, rule ''resource-pressure'' P2,
    rule ''drift-unrepaired'' P2, rule ''ssh-rotation-stale-key'' P2, rule ''cert-expiry-warning'' P2,
    rule ''auth-brute-force'' P2, rule ''drill-missed'' P2, rule ''hub-egress-degraded'' P2,
    rule ''clock-skew'' P2, rule ''scale-out-proposal'' P2, rule ''scale-cheap-remediation'' P2,
    rule ''ephemeral-overflow-orphan'' P2, rule ''feed-data-stale'' P2, rule ''instance-warmup-exceeded'' P2,
    rule ''scheduled-job-failed'' P2, rule ''partner-site-hard-down'' P2, rule ''hub-outbox-poll-failing'' P2,
    rule ''partner-replay'' P2, rule ''target-cron-stale'' P2]"

definition RULES_P3 :: "alert_rule list" where
  "RULES_P3 = [
    rule ''advice-tier'' P3, rule ''drift-auto-repaired'' P3, rule ''completed-event'' P3,
    rule ''dependency-advisory'' P3, rule ''weekly-trends'' P3, rule ''cert-expiry-advisory'' P3,
    rule ''scheduled-job-run-failed'' P3]"

definition RULES_OTHER :: "alert_rule list" where
  "RULES_OTHER = [
    rule ''deadman-post-failure'' P2, rule ''cf-token-scope'' P2, rule ''tailscale-unknown-device'' P2,
    rule ''audit-ship-failed'' P2, rule ''unproxied-cert-refusal'' P2, rule ''FLAPPING'' P2,
    rule ''ALERT STORM (n)'' P1, rule ''pager-email-failed'' P2, rule ''ntfy-token-revoke-pending'' P2,
    rule ''pager-drill'' P1, rule ''aws-scope'' P2, rule ''aws-create-failed'' P2,
    rule ''aws-terminate-failed'' P1, rule ''aws-host-key-timeout'' P1, rule ''r53-fail'' P2,
    rule ''ssm-fail'' P2]"

definition RULES :: "alert_rule list" where
  "RULES = RULES_P1 @ RULES_P2 @ RULES_P3 @ RULES_OTHER"

text \<open>The facts \<open>classify\<close> looks at; absent keys are \<open>None\<close>, \<open>False\<close> or the empty text.\<close>

record alert_details =
  fc_ready_instance_serving :: "bool option"
  fc_host_down :: bool
  fc_aggregate :: bool
  fc_sites_down :: "int option"
  fc_consecutive :: "bool option"
  fc_hub_surface :: bool
  fc_cve_matches_hub :: bool
  fc_drill_kind :: string

definition no_details :: alert_details where
  "no_details = \<lparr>fc_ready_instance_serving = None, fc_host_down = False, fc_aggregate = False, fc_sites_down = None,
     fc_consecutive = None, fc_hub_surface = False, fc_cve_matches_hub = False, fc_drill_kind = []\<rparr>"

definition PARTNER_AGGREGATE_N :: int where
  "PARTNER_AGGREGATE_N = 2"

definition partner_aggregate :: "alert_details \<Rightarrow> bool" where
  "partner_aggregate fc = (fc_host_down fc \<or> fc_aggregate fc \<or>
     (case fc_sites_down fc of None \<Rightarrow> False | Some n \<Rightarrow> n \<ge> PARTNER_AGGREGATE_N))"

definition unclassified :: "string \<Rightarrow> exn" where
  "unclassified kind = LookupError (''unclassified alert kind '' @ kind)"

definition classify :: "string \<Rightarrow> alert_details \<Rightarrow> exn + severity" where
  "classify kind fc = (case find (\<lambda>r. ar_kind r = kind) RULES of
     None \<Rightarrow> Inl (unclassified kind)
   | Some r \<Rightarrow>
       if kind = ''instance-warmup-exceeded'' \<and> fc_ready_instance_serving fc = Some False then Inr P1
       else if kind = ''partner-site-hard-down'' \<and> partner_aggregate fc then Inr P1
       else if kind = ''scheduled-job-failed'' \<and> fc_consecutive fc = Some False then Inr P3
       else if kind = ''dependency-advisory'' \<and> (fc_hub_surface fc \<or> fc_cve_matches_hub fc) then Inr P2
       else if kind = ''drill-missed'' \<and> fc_drill_kind fc = ''pager'' then Inr P1
       else Inr (ar_severity r))"


section \<open>Facts\<close>

lemma RULES_distinct: "distinct (map ar_kind RULES)"
  by code_simp

lemma find_rule: "r \<in> set RULES \<Longrightarrow> find (\<lambda>x. ar_kind x = ar_kind r) RULES = Some r"
proof -
  have "r \<in> set xs \<Longrightarrow> distinct (map ar_kind xs) \<Longrightarrow> find (\<lambda>x. ar_kind x = ar_kind r) xs = Some r" for xs
    by (induction xs) auto
  then show "r \<in> set RULES \<Longrightarrow> ?thesis" using RULES_distinct by blast
qed

text \<open>Kinds that the facts cannot move, evaluated.\<close>

lemma classify_engine_kinds:
  "classify ''FLAPPING'' fc = Inr P2" "classify ''ALERT STORM (n)'' fc = Inr P1" "classify ''pager-email-failed'' fc = Inr P2"
  "classify ''scale-out-proposal'' fc = Inr P2" "classify ''scale-cheap-remediation'' fc = Inr P2"
  "classify ''prod-site-hard-down'' fc = Inr P1" "classify ''staging-or-flapping'' fc = Inr P2"
  "classify ''partner-aggregate-down'' fc = Inr P1" "classify ''attack-playbook-engaged'' fc = Inr P1"
  by (simp_all add: classify_def RULES_def RULES_P1_def RULES_P2_def RULES_P3_def RULES_OTHER_def rule_def)

end
