(* ===== verification/Alerts.thy ===== *)
theory Alerts
  imports Findings Alert_Rules
begin

text \<open>
  \<open>monitor/alerts.py\<close>, \<open>monitor/antinoise.py\<close> and \<open>monitor/pager.py\<close>: from a probe result to a page. The alert
  engine calls itself: filing an alert may open the storm alert, and a failed mail files an alert. The
  module counter \<open>_after_raise_depth\<close> makes this finite, and the model has one layer per depth: functions
  with the suffix \<open>_with\<close> take the filing function of their layer as an argument. An alert filed from within
  the hook is only annotated and delivered; the alert about a failed mail is a P2 and is never paged.
  The attributes the hook sets on a row in memory are the record \<open>paged\<close>.
\<close>

section \<open>Constants\<close>

definition OPEN_AFTER :: nat where "OPEN_AFTER = 3"
definition CLOSE_AFTER :: nat where "CLOSE_AFTER = 2"
definition FLAP_WINDOW_ALERT :: int where "FLAP_WINDOW_ALERT = minutes 30"
definition FLAP_CYCLES :: nat where "FLAP_CYCLES = 3"
definition GROUP_P2_WINDOW_S :: int where "GROUP_P2_WINDOW_S = 600"
definition STORM_WINDOW :: int where "STORM_WINDOW = minutes 10"
definition STORM_LIMIT :: nat where "STORM_LIMIT = 10"
definition PUSH_LOG_FP :: string where "PUSH_LOG_FP = ''__pushes__''"
definition STORM_STATE_FP :: string where "STORM_STATE_FP = ''__storm__''"
definition STORM_FINDING_FP :: string where "STORM_FINDING_FP = ''alert-storm''"

text \<open>\<open>_workspace()\<close> without arguments.\<close>

definition default_ws :: nat where "default_ws = 1"


section \<open>Rows of the alert state\<close>

definition new_state :: "nat \<Rightarrow> string \<Rightarrow> alert_state" where
  "new_state ws fp = \<lparr>as_workspace = ws, as_fingerprint = fp, as_consecutive_fail = 0, as_consecutive_ok = 0,
     as_opened_at = None, as_closed_at = None, as_last_push_at = None, as_acked_at = None, as_transitions = []\<rparr>"

definition state_key :: "alert_state \<Rightarrow> nat \<times> string" where
  "state_key r = (as_workspace r, as_fingerprint r)"

definition state_at :: "hub \<Rightarrow> nat \<Rightarrow> string \<Rightarrow> alert_state option" where
  "state_at s ws fp = find (\<lambda>r. state_key r = (ws, fp)) (alert_states s)"

definition get_or_create_state :: "nat \<Rightarrow> string \<Rightarrow> alert_state act" where
  "get_or_create_state ws fp = (\<lambda>s. case state_at s ws fp of
     Some r \<Rightarrow> (Inr r, s)
   | None \<Rightarrow> (Inr (new_state ws fp), s\<lparr>alert_states := alert_states s @ [new_state ws fp]\<rparr>))"

text \<open>\<open>state.save(update_fields=...)\<close>: the function sets the named columns.\<close>

definition save_state :: "nat \<Rightarrow> string \<Rightarrow> (alert_state \<Rightarrow> alert_state) \<Rightarrow> unit act" where
  "save_state ws fp f = modify (\<lambda>s. s\<lparr>alert_states := upd_rows (\<lambda>r. state_key r = (ws, fp)) f (alert_states s)\<rparr>)"

definition is_open :: "alert_state \<Rightarrow> bool" where
  "is_open r = (as_opened_at r \<noteq> None \<and> as_closed_at r = None)"

definition fingerprint_open :: "hub \<Rightarrow> string \<Rightarrow> bool" where
  "fingerprint_open s fp = (case state_at s default_ws fp of None \<Rightarrow> False | Some r \<Rightarrow> is_open r)"

fun at_of :: "alert_mark \<Rightarrow> time" where
  "at_of (Opened t) = t"
| "at_of (ClosedAt t) = t"
| "at_of (Pushed t _ _ _ _ _ _) = t"

text \<open>Open/close pairs inside the window; the entries of the push log carry no \<open>event\<close> key.\<close>

fun count_flaps :: "time \<Rightarrow> bool \<Rightarrow> alert_mark list \<Rightarrow> exn + nat" where
  "count_flaps now opened [] = Inr 0"
| "count_flaps now opened (e # es) =
     (if now - at_of e > FLAP_WINDOW_ALERT then count_flaps now opened es
      else case e of
        Opened _ \<Rightarrow> count_flaps now True es
      | ClosedAt _ \<Rightarrow> if opened then map_sum id Suc (count_flaps now False es) else count_flaps now opened es
      | Pushed _ _ _ _ _ _ _ \<Rightarrow> Inl (KeyError ''event''))"

definition flap_cycles :: "alert_state \<Rightarrow> time \<Rightarrow> exn + nat" where
  "flap_cycles r now = count_flaps now False (as_transitions r)"

fun counts_for_storm :: "alert_mark \<Rightarrow> bool" where
  "counts_for_storm (Pushed _ _ _ _ _ _ c) = c"
| "counts_for_storm _ = True"

definition recent_pushes :: "hub \<Rightarrow> time \<Rightarrow> alert_mark list" where
  "recent_pushes s now = (case state_at s default_ws PUSH_LOG_FP of None \<Rightarrow> []
     | Some plog \<Rightarrow> filter (\<lambda>e. counts_for_storm e \<and> now - at_of e \<le> STORM_WINDOW) (as_transitions plog))"


section \<open>Fingerprints and entities\<close>

definition FLAPPING_PREFIX :: string where
  "FLAPPING_PREFIX = ''FLAPPING:''"

definition flap_fp :: "string \<Rightarrow> string" where
  "flap_fp fp = FLAPPING_PREFIX @ fp"

definition is_flap_fp :: "string \<Rightarrow> bool" where
  "is_flap_fp fp = prefix FLAPPING_PREFIX fp"

function entity_of :: "string \<Rightarrow> string" where
  "entity_of fp = (let (pre, rest) = partition_char (CHR '':'') fp in
     if suffix ''-down'' pre then take (length pre - 5) pre @ '':'' @ rest
     else if pre = ''FLAPPING'' then entity_of rest
     else fp)"
  by auto
termination
proof (relation "measure length")
  fix fp pre rest and x :: "string \<times> string"
  assume "x = partition_char (CHR '':'') fp" "(pre, rest) = x" "pre = ''FLAPPING''"
  then have "takeWhile (\<lambda>c. c \<noteq> CHR '':'') fp = ''FLAPPING''" "rest = tl (dropWhile (\<lambda>c. c \<noteq> CHR '':'') fp)"
    by (simp_all add: partition_char_def)
  moreover have "length (takeWhile (\<lambda>c. c \<noteq> CHR '':'') fp) + length (dropWhile (\<lambda>c. c \<noteq> CHR '':'') fp) = length fp"
    by (metis length_append takeWhile_dropWhile_id)
  ultimately show "(rest, fp) \<in> measure length" by simp
qed simp

declare entity_of.simps [simp del]

definition colon_parts :: "string \<Rightarrow> string \<times> string" where
  "colon_parts x = partition_char (CHR '':'') x"

definition first_site :: "(site \<Rightarrow> bool) \<Rightarrow> hub \<Rightarrow> site option" where
  "first_site p s = find p (sort_key s_pk (sites s))"

definition first_target :: "(target \<Rightarrow> bool) \<Rightarrow> hub \<Rightarrow> target option" where
  "first_target p s = find p (sort_key t_pk (targets s))"

definition zone_suppression :: "hub \<Rightarrow> network_zone \<Rightarrow> string option" where
  "zone_suppression s z = (if fingerprint_open s (''zone-down:'' @ z_slug z) then Some (''zone:'' @ z_slug z) else None)"

definition suppressed_by :: "hub \<Rightarrow> string \<Rightarrow> string option" where
  "suppressed_by s entity = (let (kind, name) = colon_parts entity in
     if kind = ''site'' then
       (case Option.bind (first_site (\<lambda>r. s_name r = name) s) (\<lambda>r. Option.bind (s_primary_target r) (target_by_pk s)) of
          None \<Rightarrow> None
        | Some t \<Rightarrow> if fingerprint_open s (''host-down:'' @ t_host t) then Some (''host:'' @ t_host t)
            else zone_suppression s (t_zone t))
     else if kind = ''host'' then
       (case first_target (\<lambda>t. t_host t = name) s of None \<Rightarrow> None | Some t \<Rightarrow> zone_suppression s (t_zone t))
     else None)"

text \<open>The finding of a fingerprint that is not resolved.\<close>

definition live_finding :: "hub \<Rightarrow> nat \<Rightarrow> string \<Rightarrow> finding_row option" where
  "live_finding s ws fp = (case finding_at s ws fp of None \<Rightarrow> None | Some r \<Rightarrow> if f_state r = Resolved then None else Some r)"

definition last_transition :: "hub \<Rightarrow> nat \<Rightarrow> string \<Rightarrow> time option" where
  "last_transition s ws fp = (case state_at s ws fp of None \<Rightarrow> None
     | Some r \<Rightarrow> if as_transitions r = [] then None else Some (at_of (last (as_transitions r))))"

definition flap_holds :: "hub \<Rightarrow> nat \<Rightarrow> string \<Rightarrow> time \<Rightarrow> bool" where
  "flap_holds s ws fp now = (\<not> is_flap_fp fp \<and> live_finding s ws (flap_fp fp) \<noteq> None \<and>
     (case last_transition s ws fp of None \<Rightarrow> True | Some t \<Rightarrow> now - t < FLAP_WINDOW_ALERT))"


section \<open>The push log\<close>

record paged =
  pd_row :: finding_row
  pd_will_push :: bool
  pd_priority :: string
  pd_respects_quiet_hours :: bool

definition record_push :: "finding_row \<Rightarrow> time \<Rightarrow> string option \<Rightarrow> bool \<Rightarrow> unit act" where
  "record_push row now title counts =
     bnd (get_or_create_state default_ws PUSH_LOG_FP) (\<lambda>plog.
     save_state default_ws PUSH_LOG_FP (\<lambda>_. plog\<lparr>as_transitions := as_transitions plog @
         [Pushed now (f_fingerprint row) (f_workspace row) (f_severity row) False
            (case title of Some (c # cs) \<Rightarrow> c # cs | _ \<Rightarrow> f_title row) counts],
       as_last_push_at := Some now\<rparr>))"

definition storming_except :: "hub \<Rightarrow> finding_row \<Rightarrow> time \<Rightarrow> bool" where
  "storming_except s row now = (f_fingerprint row \<noteq> STORM_FINDING_FP \<and> length (recent_pushes s now) > STORM_LIMIT)"

text \<open>The flap check looks at the default workspace, whatever the workspace of the row.\<close>

definition annotate_delivery :: "finding_row \<Rightarrow> time \<Rightarrow> paged act" where
  "annotate_delivery row now = gets (\<lambda>s. \<lparr>pd_row = row,
     pd_will_push = (f_state row = Open \<and> \<not> flap_holds s default_ws (f_fingerprint row) now \<and>
       suppressed_by s (f_entity row) = None \<and> \<not> storming_except s row now),
     pd_priority = (if f_severity row = P1 then ''max'' else ''default''),
     pd_respects_quiet_hours = (f_severity row \<noteq> P1)\<rparr>)"


section \<open>The pager\<close>

definition is_word :: "char \<Rightarrow> bool" where
  "is_word c = (let n = of_char c :: nat in is_digit c \<or> (65 \<le> n \<and> n \<le> 90) \<or> n = 95 \<or> (97 \<le> n \<and> n \<le> 122) \<or>
     n \<in> {170, 178, 179, 181, 185, 186} \<or> (188 \<le> n \<and> n \<le> 190) \<or> (192 \<le> n \<and> n \<noteq> 215 \<and> n \<noteq> 247))"

text \<open>
  The pattern of four dotted groups of one to three digits between word boundaries. Each group but the
  last must be followed by a dot, so it is a whole run of digits and there is nothing to backtrack over.
\<close>

fun dotted_groups :: "nat \<Rightarrow> string \<Rightarrow> string option" where
  "dotted_groups n x = (let run = takeWhile is_digit x; rest = dropWhile is_digit x in
     if run = [] \<or> length run > 3 then None
     else case n of
       0 \<Rightarrow> (case rest of [] \<Rightarrow> Some run | c # _ \<Rightarrow> if is_word c then None else Some run)
     | Suc m \<Rightarrow> (case rest of c # after \<Rightarrow> if c = CHR ''.'' then map_option (\<lambda>g. run @ ''.'' @ g) (dotted_groups m after) else None
         | [] \<Rightarrow> None))"

fun search_ip :: "bool \<Rightarrow> string \<Rightarrow> string option" where
  "search_ip after_word [] = None"
| "search_ip after_word (c # cs) = (case (if after_word then None else dotted_groups 3 (c # cs)) of
     Some g \<Rightarrow> Some g | None \<Rightarrow> search_ip (is_word c) cs)"

definition object_label :: "hub \<Rightarrow> finding_row \<Rightarrow> string" where
  "object_label s row = (let entity = f_entity row; (kind, name) = colon_parts entity;
       haystack = (if name = [] then entity else name) in
     case search_ip False haystack of
       None \<Rightarrow> haystack
     | Some g \<Rightarrow> (case first_target (\<lambda>t. t_host t = g) s of
         Some t \<Rightarrow> (case find (\<lambda>r. s_primary_target r = Some (t_pk t)) (sort_key s_name (sites s)) of
             Some r \<Rightarrow> s_name r | None \<Rightarrow> ''host-'' @ str_nat (t_pk t))
       | None \<Rightarrow> if kind = [] then ''host'' else kind))"

definition public_url :: "world \<Rightarrow> string" where
  "public_url w = rev (dropWhile (\<lambda>c. c = CHR ''/'') (rev (w_public_url w)))"

definition minutes_since :: "time \<Rightarrow> time \<Rightarrow> int" where
  "minutes_since start now = max 0 ((now - start) div minutes 1)"

definition dot_sep :: string where
  "dot_sep = '' '' @ [char_of (183 :: nat)] @ '' ''"

definition minimized :: "world \<Rightarrow> hub \<Rightarrow> finding_row \<Rightarrow> time \<Rightarrow> string \<times> string \<times> string" where
  "minimized w s row now = (let obj = object_label s row; sev = finding_severity_text (f_severity row);
       mins = str_int (minutes_since (f_first_seen row) now); click = public_url w @ ''/#/findings/'' @ str_nat (f_pk row);
       title = obj @ dot_sep @ sev @ dot_sep @ mins @ '' min'' in
     (title, title @ dot_sep @ click, click))"

definition publish_page :: "world \<Rightarrow> page \<Rightarrow> exn option act" where
  "publish_page w p = (\<lambda>s. (Inr (w_page w (pages s @ [p])), s\<lparr>pages := pages s @ [p]\<rparr>))"

definition send_mail :: "world \<Rightarrow> mail \<Rightarrow> exn option act" where
  "send_mail w m = (\<lambda>s. (Inr (w_mail w (mails s @ [m])), s\<lparr>mails := mails s @ [m]\<rparr>))"

text \<open>The class name of an exception, as \<open>type(exc).__name__\<close>.\<close>

fun exc_name :: "exn \<Rightarrow> string" where
  "exc_name (RuntimeError _) = ''RuntimeError''"
| "exc_name (ValueError _) = ''ValueError''"
| "exc_name (TypeError _) = ''TypeError''"
| "exc_name (KeyError _) = ''KeyError''"
| "exc_name (LookupError _) = ''LookupError''"
| "exc_name IntegrityError = ''IntegrityError''"
| "exc_name DoesNotExist = ''DoesNotExist''"
| "exc_name (DeploySeamRefused _) = ''DeploySeamRefused''"
| "exc_name (SsmError _) = ''SsmError''"
| "exc_name (EnvelopeError _) = ''EnvelopeError''"
| "exc_name (SignatureRejected _) = ''SignatureRejected''"
| "exc_name (ReplayRejected _) = ''ReplayRejected''"
| "exc_name (PartnerRefuse _) = ''PartnerRefuse''"
| "exc_name PartnerNotFound = ''PartnerNotFound''"
| "exc_name (OverflowDeployError _) = ''OverflowDeployError''"
| "exc_name (TerminateError _) = ''TerminateError''"
| "exc_name (IntakeClientError _) = ''IntakeClientError''"
| "exc_name (OtherError n) = n"

definition log_delivery :: "world \<Rightarrow> finding_row \<Rightarrow> channel \<Rightarrow> severity \<Rightarrow> bool \<Rightarrow> string \<Rightarrow> unit act" where
  "log_delivery w row ch sev ok detail = bnd (timezone_now w) (\<lambda>now.
     modify (\<lambda>s. s\<lparr>deliveries := deliveries s @ [\<lparr>dl_finding = f_pk row, dl_channel = ch, dl_severity = sev,
       dl_backend = w_pager_backend w, dl_sent_at = now, dl_ok = ok, dl_detail = detail\<rparr>]\<rparr>))"

definition touch_last_push :: "finding_row \<Rightarrow> time \<Rightarrow> unit act" where
  "touch_last_push row now = bnd (get_or_create_state (f_workspace row) (f_fingerprint row)) (\<lambda>_.
     save_state (f_workspace row) (f_fingerprint row) (\<lambda>r. r\<lparr>as_last_push_at := Some now\<rparr>))"

definition release_failed_push_clock :: "finding_row \<Rightarrow> unit act" where
  "release_failed_push_clock row =
     bnd (gets (\<lambda>s. list_ex (\<lambda>d. dl_finding d = f_pk row \<and> dl_channel d = Ntfy \<and> dl_ok d) (deliveries s))) (\<lambda>has_ok.
     if has_ok then ret ()
     else bnd (get_or_create_state (f_workspace row) (f_fingerprint row)) (\<lambda>r.
       when_do (as_last_push_at r \<noteq> None)
         (save_state (f_workspace row) (f_fingerprint row) (\<lambda>x. x\<lparr>as_last_push_at := None\<rparr>))))"

text \<open>A hyphen stands for the long dash of the two texts, which is no code point below 256.\<close>

definition ADVISORY :: string where
  "ADVISORY = ''advisory only - re-read from the Findings inbox before typing''"

definition email_text :: "world \<Rightarrow> hub \<Rightarrow> finding_row \<Rightarrow> bool \<Rightarrow> mail" where
  "email_text w s row unacked = (let subject = w_scrub w (''[HUB P1] '' @ f_title row); nl2 = [CHR 0x0A, CHR 0x0A] in
     \<lparr>ml_subject = (if unacked then w_scrub w (''[UNACKED] '' @ subject) else subject),
      ml_body = w_scrub w (f_title row @ nl2 @ f_body row @ nl2 @ ADVISORY @ nl2 @ ''ssh '' @ object_label s row @
        ''  # docker restart - re-read from the Findings inbox before typing'' @ [CHR 0x0A])\<rparr>)"

text \<open>\<open>report\<close> files the alert about a mail that failed.\<close>

definition email_p1_with :: "(finding_row \<Rightarrow> exn \<Rightarrow> unit act) \<Rightarrow> world \<Rightarrow> finding_row \<Rightarrow> bool \<Rightarrow> unit act" where
  "email_p1_with report w row unacked =
     bnd (gets (\<lambda>s. email_text w s row unacked)) (\<lambda>m.
     bnd (send_mail w m) (\<lambda>failed. case failed of
       None \<Rightarrow> log_delivery w row Email (f_severity row) True (if unacked then ''[UNACKED]'' else [])
     | Some e \<Rightarrow> andThen (report row e) (log_delivery w row Email (f_severity row) False (exc_name e))))"

definition deliver_with :: "(finding_row \<Rightarrow> exn \<Rightarrow> unit act) \<Rightarrow> world \<Rightarrow> finding_row \<Rightarrow> time \<Rightarrow> bool act" where
  "deliver_with report w row now =
     (if f_severity row = P3 then ret False
      else bnd (gets (\<lambda>s. minimized w s row now)) (\<lambda>(title, body, click).
        bnd (publish_page w \<lparr>pg_severity = f_severity row, pg_title = w_scrub w title, pg_body = w_scrub w body,
            pg_tags = (if f_severity row = P1 then [''rotating_light''] else [''warning'']), pg_click = click\<rparr>) (\<lambda>failed.
        andThen (log_delivery w row Ntfy (f_severity row) (failed = None) (case failed of None \<Rightarrow> [] | Some e \<Rightarrow> exc_name e))
        (andThen (if failed = None then touch_last_push row now else release_failed_push_clock row)
        (andThen (when_do (f_severity row = P1) (email_p1_with report w row False))
        (ret (failed = None)))))))"

definition maybe_deliver_with :: "(finding_row \<Rightarrow> exn \<Rightarrow> unit act) \<Rightarrow> world \<Rightarrow> paged \<Rightarrow> unit act" where
  "maybe_deliver_with report w p =
     when_do (f_severity (pd_row p) = P1 \<and> pd_will_push p)
       (bnd (timezone_now w) (\<lambda>now. bnd (deliver_with report w (pd_row p) now) (\<lambda>_. ret ())))"


section \<open>Filing an alert\<close>

record alert_facts =
  af_fingerprint :: "string option"
  af_source_engine :: "string option"
  af_workspace :: "nat option"
  af_obj :: "audit_obj option"
  af_title :: string
  af_body :: string
  af_fix_action :: string
  af_details :: alert_details

text \<open>The part of \<open>raise_alert\<close> up to the filed row.\<close>

definition file_alert :: "world \<Rightarrow> string \<Rightarrow> string \<Rightarrow> alert_facts \<Rightarrow> finding_row act" where
  "file_alert w kind entity af = (case classify kind (af_details af) of
     Inl e \<Rightarrow> throw e
   | Inr sev \<Rightarrow>
       bnd (gets (\<lambda>s. case af_workspace af of Some ws \<Rightarrow> Some ws | None \<Rightarrow> Option.bind (af_obj af) (workspace_of s))) (\<lambda>workspace.
       if workspace = None then throw (TypeError ''raise_alert() requires workspace'')
       else finding w (case af_source_engine af of Some e \<Rightarrow> e | None \<Rightarrow> ''monitor.alerts'')
         (case af_fingerprint af of Some (c # cs) \<Rightarrow> c # cs | _ \<Rightarrow> kind @ '':'' @ entity) workspace
         \<lparr>ff_severity = sev, ff_entity = entity, ff_title = af_title af, ff_body = af_body af, ff_fix_action = af_fix_action af\<rparr>))"

type_synonym raiser = "string \<Rightarrow> string \<Rightarrow> alert_facts \<Rightarrow> paged act"

definition email_failure_facts :: "finding_row \<Rightarrow> exn \<Rightarrow> alert_facts" where
  "email_failure_facts row e = \<lparr>af_fingerprint = Some (''pager-email-failed:'' @ str_nat (f_pk row)),
     af_source_engine = Some ''monitor.pager'', af_workspace = Some (f_workspace row), af_obj = None,
     af_title = ''Alert email failed'',
     af_body = ''SMTP send failed ('' @ exc_name e @ '') for finding '' @ str_nat (f_pk row) @ ''. The push path was not blocked.'',
     af_fix_action = ''Check HUB_SMTP_* and the mail backend; re-send from the Findings inbox.'', af_details = no_details\<rparr>"

text \<open>Inside the hook: the filed row is annotated, and a P1 that may push is delivered.\<close>

definition report_nested :: "world \<Rightarrow> finding_row \<Rightarrow> exn \<Rightarrow> unit act" where
  "report_nested w row e = bnd (file_alert w ''pager-email-failed'' (f_entity row) (email_failure_facts row e)) (\<lambda>filed.
     bnd (timezone_now w) (\<lambda>now. bnd (annotate_delivery filed now) (\<lambda>_. ret ())))"

definition raise_nested :: "world \<Rightarrow> raiser" where
  "raise_nested w kind entity af = bnd (file_alert w kind entity af) (\<lambda>row.
     bnd (timezone_now w) (\<lambda>now.
     bnd (annotate_delivery row now) (\<lambda>p.
     andThen (maybe_deliver_with (report_nested w) w p) (ret p))))"


section \<open>Storm, recovery, flap\<close>

text \<open>\<open>resolve(row); row.refresh_from_db()\<close>.\<close>

definition resolve_refresh :: "world \<Rightarrow> finding_row \<Rightarrow> finding_row act" where
  "resolve_refresh w row = resolve w row None SrcApi"

text \<open>The notice itself; it counts for the storm rate unless it closes the storm.\<close>

definition push_notice :: "finding_row \<Rightarrow> time \<Rightarrow> int act" where
  "push_notice row now =
     bnd (gets (\<lambda>s. minutes_since (case Option.bind (state_at s (f_workspace row) (f_fingerprint row)) as_opened_at of
         Some t \<Rightarrow> t | None \<Rightarrow> f_first_seen row) now)) (\<lambda>mins.
     andThen (record_push row now (Some (''UP after '' @ str_int mins @ '' min'')) (f_fingerprint row \<noteq> STORM_FINDING_FP))
     (ret mins))"

definition storm_facts :: "nat \<Rightarrow> alert_facts" where
  "storm_facts n = \<lparr>af_fingerprint = Some STORM_FINDING_FP, af_source_engine = Some ''monitor.antinoise'',
     af_workspace = Some default_ws, af_obj = None, af_title = ''ALERT STORM ('' @ str_nat n @ '')'',
     af_body = str_nat n @ '' pushes in 10 minutes. Collapsing to 10-minute summaries until the rate drops.'',
     af_fix_action = ''Find the noisy source; do not ack individual pages.'', af_details = no_details\<rparr>"

definition storm_breaker_with :: "raiser \<Rightarrow> world \<Rightarrow> time \<Rightarrow> unit act" where
  "storm_breaker_with R w now =
     bnd (gets (\<lambda>s. length (recent_pushes s now))) (\<lambda>n.
     bnd (get_or_create_state default_ws STORM_STATE_FP) (\<lambda>storm.
     if n > STORM_LIMIT then
       (if \<not> is_open storm then
          andThen (save_state default_ws STORM_STATE_FP (\<lambda>_. storm\<lparr>as_opened_at := Some now, as_closed_at := None, as_last_push_at := Some now\<rparr>))
          (bnd (R ''ALERT STORM (n)'' ''fleet'' (storm_facts n)) (\<lambda>_. ret ()))
        else if (case as_last_push_at storm of None \<Rightarrow> True | Some t \<Rightarrow> now - t \<ge> STORM_WINDOW) then
          andThen (save_state default_ws STORM_STATE_FP (\<lambda>r. r\<lparr>as_last_push_at := Some now\<rparr>))
          (bnd (R ''ALERT STORM (n)'' ''fleet'' (storm_facts n)) (\<lambda>_. ret ()))
        else ret ())
     else if is_open storm then
       andThen (save_state default_ws STORM_STATE_FP (\<lambda>r. r\<lparr>as_closed_at := Some now\<rparr>))
       (bnd (gets (\<lambda>s. live_finding s default_ws STORM_FINDING_FP)) (\<lambda>found. case found of
          None \<Rightarrow> ret ()
        | Some row \<Rightarrow> bnd (resolve_refresh w row) (\<lambda>row'. bnd (push_notice row' now) (\<lambda>_. ret ()))))
     else ret ()))"

definition recovery_notice_with :: "raiser \<Rightarrow> world \<Rightarrow> finding_row \<Rightarrow> time \<Rightarrow> int act" where
  "recovery_notice_with R w row now = bnd (push_notice row now) (\<lambda>mins.
     andThen (when_do (f_fingerprint row \<noteq> STORM_FINDING_FP) (storm_breaker_with R w now)) (ret mins))"

definition maybe_resolve_flap_with :: "raiser \<Rightarrow> world \<Rightarrow> string \<Rightarrow> time \<Rightarrow> nat \<Rightarrow> unit act" where
  "maybe_resolve_flap_with R w fp now ws =
     (let base = (if is_flap_fp fp then drop (length FLAPPING_PREFIX) fp else fp);
          flap = (if is_flap_fp fp then fp else flap_fp fp) in
      bnd (gets (\<lambda>s. (live_finding s ws flap, last_transition s ws base))) (\<lambda>(found, last). case (found, last) of
        (Some row, Some t) \<Rightarrow> when_do (now - t \<ge> FLAP_WINDOW_ALERT)
          (bnd (resolve_refresh w row) (\<lambda>row'. bnd (recovery_notice_with R w row' now) (\<lambda>_. ret ())))
      | _ \<Rightarrow> ret ()))"


section \<open>The hook and \<open>raise_alert\<close>\<close>

definition after_raise_body :: "world \<Rightarrow> paged \<Rightarrow> time \<Rightarrow> paged act" where
  "after_raise_body w p now = (let row = pd_row p; ws = f_workspace row; fp = f_fingerprint row in
     bnd (get_or_create_state ws fp) (\<lambda>st.
     if f_state row = Acked then
       andThen (when_do (as_acked_at st = None) (save_state ws fp (\<lambda>r. r\<lparr>as_acked_at := Some now\<rparr>)))
       (ret (p\<lparr>pd_will_push := False\<rparr>))
     else
       andThen (when_do (pd_will_push p)
         (andThen (record_push row now None True) (save_state ws fp (\<lambda>r. r\<lparr>as_last_push_at := Some now\<rparr>))))
       (andThen (storm_breaker_with (raise_nested w) w now) (ret p))))"

definition after_raise :: "world \<Rightarrow> finding_row \<Rightarrow> paged act" where
  "after_raise w row = bnd (timezone_now w) (\<lambda>now.
     andThen (maybe_resolve_flap_with (raise_nested w) w (f_fingerprint row) now (f_workspace row))
     (andThen (storm_breaker_with (raise_nested w) w now)
     (bnd (annotate_delivery row now) (\<lambda>p. after_raise_body w p now))))"

definition report_failure :: "world \<Rightarrow> finding_row \<Rightarrow> exn \<Rightarrow> unit act" where
  "report_failure w row e = bnd (file_alert w ''pager-email-failed'' (f_entity row) (email_failure_facts row e)) (\<lambda>filed.
     bnd (after_raise w filed) (\<lambda>_. ret ()))"

definition raise_alert :: "world \<Rightarrow> raiser" where
  "raise_alert w kind entity af = bnd (file_alert w kind entity af) (\<lambda>row.
     bnd (after_raise w row) (\<lambda>p.
     andThen (maybe_deliver_with (report_failure w) w p) (ret p)))"

definition storm_breaker :: "world \<Rightarrow> time \<Rightarrow> unit act" where
  "storm_breaker w = storm_breaker_with (raise_alert w) w"

definition recovery_notice :: "world \<Rightarrow> finding_row \<Rightarrow> time \<Rightarrow> int act" where
  "recovery_notice w = recovery_notice_with (raise_alert w) w"

definition maybe_resolve_flap :: "world \<Rightarrow> string \<Rightarrow> time \<Rightarrow> nat \<Rightarrow> unit act" where
  "maybe_resolve_flap w = maybe_resolve_flap_with (raise_alert w) w"

definition deliver :: "world \<Rightarrow> finding_row \<Rightarrow> time \<Rightarrow> bool act" where
  "deliver w = deliver_with (report_failure w) w"

definition send_unacked_email :: "world \<Rightarrow> finding_row \<Rightarrow> unit act" where
  "send_unacked_email w row = email_p1_with (report_failure w) w row True"

end
