(* ===== verification/Antinoise.thy ===== *)
theory Antinoise
  imports Alerts Desired
begin

text \<open>
  The rest of \<open>monitor/antinoise.py\<close>, \<open>monitor/pager.py\<close> and \<open>monitor/alerts.py\<close>: the probe hysteresis
  \<open>observe\<close>, the flap check, the kind of alert an outage files, the grouped P2 pages and the hourly repeat of
  unacknowledged P1 alerts. Then what they guarantee: \<open>observe\<close> implements a three-counter machine, and the
  alert about a failed mail never asks for a page of its own.
\<close>

section \<open>Probe hysteresis\<close>

text \<open>\<open>_host_is_partner_tier\<close>: an element test in the stored order raises on values that are not containers.\<close>

fun int_in :: "int \<Rightarrow> json \<Rightarrow> exn + bool" where
  "int_in i (JArr xs) = Inr (list_ex (\<lambda>x. case x of JInt k \<Rightarrow> k = i | JBool b \<Rightarrow> i = (if b then 1 else 0) | _ \<Rightarrow> False) xs)"
| "int_in i (JObj _) = Inr False"
| "int_in i (JStr _) = Inl (TypeError ''in <string> requires string as left operand'')"
| "int_in i _ = Inl (TypeError ''argument is not iterable'')"

fun any_order :: "int \<Rightarrow> partner list \<Rightarrow> exn + bool" where
  "any_order i [] = Inr False"
| "any_order i (p # ps) = (if truthy (p_destination_order p)
     then case int_in i (p_destination_order p) of Inl e \<Rightarrow> Inl e | Inr True \<Rightarrow> Inr True | Inr False \<Rightarrow> any_order i ps
     else any_order i ps)"

definition host_is_partner_tier :: "hub \<Rightarrow> string \<Rightarrow> exn + bool" where
  "host_is_partner_tier s host = (case first_target (\<lambda>t. t_host t = host) s of
     None \<Rightarrow> Inr False
   | Some t \<Rightarrow>
       if list_ex (\<lambda>b. case site_by_pk s (ps_site b) of None \<Rightarrow> False | Some r \<Rightarrow> s_primary_target r = Some (t_pk t)) (partner_sites s)
       then Inr True else any_order (int (t_pk t)) (partners s))"

fun purpose_text :: "zone_purpose \<Rightarrow> string" where
  "purpose_text PurposeProd = ''prod''"
| "purpose_text PurposeTest = ''test''"

text \<open>Neither sites nor targets have an attribute \<open>tier\<close>, \<open>role\<close> or \<open>env\<close>.\<close>

definition env_role_label :: "hub \<Rightarrow> site \<Rightarrow> string" where
  "env_role_label s r = (if list_ex (\<lambda>b. ps_site b = s_pk r) (partner_sites s) then ''partner''
     else case Option.bind (s_primary_target r) (target_by_pk s) of
       Some t \<Rightarrow> purpose_text (z_purpose (t_zone t))
     | None \<Rightarrow> (case s_dns_zone r of Some z \<Rightarrow> purpose_text (dz_purpose z) | None \<Rightarrow> ''prod''))"

definition site_down_kind :: "hub \<Rightarrow> string \<Rightarrow> string" where
  "site_down_kind s entity = (let (kind, name) = colon_parts entity in
     if kind \<noteq> ''site'' then ''prod-site-hard-down''
     else case first_site (\<lambda>r. s_name r = name) s of
       None \<Rightarrow> ''prod-site-hard-down''
     | Some r \<Rightarrow> let label = env_role_label s r in
         if label = ''partner'' then ''partner-site-hard-down''
         else if label \<in> {''staging'', ''experiment'', ''test''} then ''staging-or-flapping''
         else ''prod-site-hard-down'')"

definition list_names :: "string \<Rightarrow> string list \<Rightarrow> string" where
  "list_names pre xs = (if xs = [] then ''(none)'' else join '', '' (map (\<lambda>n. pre @ n) xs))"

definition open_copy :: "hub \<Rightarrow> string \<Rightarrow> string \<Rightarrow> string \<times> string \<times> string" where
  "open_copy s fp entity = (let name = snd (colon_parts entity) in
     if prefix ''host-down:'' fp then
       (''Host '' @ name @ '' is down'',
        ''Host '' @ name @ '' is unreachable. Suppressed: '' @ list_names ''site:'' (sort (map s_name
          (filter (\<lambda>r. case Option.bind (s_primary_target r) (target_by_pk s) of None \<Rightarrow> False | Some t \<Rightarrow> t_host t = name) (sites s)))) @ ''.'',
        ''Check the host: SSH, disk, and docker.'')
     else if prefix ''zone-down:'' fp then
       (''Zone '' @ name @ '' is down'',
        ''All targets in zone '' @ name @ '' are unreachable. Suppressed: '' @ list_names ''host:'' (sort (map t_host
          (filter (\<lambda>t. z_slug (t_zone t) = name) (targets s)))) @ ''.'',
        ''Check zone connectivity before paging every host.'')
     else (''Site '' @ name @ '' is down'', ''Three consecutive probes failed for '' @ name @ ''.'',
        ''Check docker ps on the target; restart the container.''))"

definition engine_facts :: "string \<Rightarrow> nat \<Rightarrow> string \<Rightarrow> string \<Rightarrow> string \<Rightarrow> alert_facts" where
  "engine_facts fp ws title body fix_action = \<lparr>af_fingerprint = Some fp, af_source_engine = Some ''monitor.antinoise'',
     af_workspace = Some ws, af_obj = None, af_title = title, af_body = body, af_fix_action = fix_action, af_details = no_details\<rparr>"

text \<open>The sites of a partner that are down, counted in the default workspace.\<close>

definition partner_sites_down :: "hub \<Rightarrow> nat \<Rightarrow> nat" where
  "partner_sites_down s partner = length (filter (\<lambda>b. ps_partner b = partner \<and>
     (case site_by_pk s (ps_site b) of None \<Rightarrow> False | Some r \<Rightarrow> fingerprint_open s (''site-down:'' @ s_name r))) (partner_sites s))"

definition partner_of_site :: "hub \<Rightarrow> string \<Rightarrow> partner option" where
  "partner_of_site s name = Option.bind
     (find (\<lambda>b. case site_by_pk s (ps_site b) of None \<Rightarrow> False | Some r \<Rightarrow> s_name r = name) (partner_sites s))
     (\<lambda>b. find (\<lambda>p. p_pk p = ps_partner b) (partners s))"

definition maybe_file_partner_aggregate :: "world \<Rightarrow> string \<Rightarrow> unit act" where
  "maybe_file_partner_aggregate w entity = (let (kind, name) = colon_parts entity in
     if kind \<noteq> ''site'' then ret ()
     else bnd (gets (\<lambda>s. (partner_of_site s name, s))) (\<lambda>(found, s). case found of
       None \<Rightarrow> ret ()
     | Some p \<Rightarrow> (let down = partner_sites_down s (p_pk p); fp = ''partner-aggregate-down:'' @ str_nat (p_pk p) in
         if down < 2 \<or> live_finding s (p_workspace p) fp \<noteq> None then ret ()
         else bnd (raise_alert w ''partner-aggregate-down'' (''partner:'' @ str_nat (p_pk p))
           (engine_facts fp (p_workspace p) (''Partner '' @ p_slug p @ '' aggregate down'')
             (str_nat down @ '' partner sites are down.'')
             ''Check the partner-tier destination host before paging each site.'')) (\<lambda>_. ret ()))))"

definition file_open :: "world \<Rightarrow> string \<Rightarrow> string \<Rightarrow> string \<times> string \<times> string \<Rightarrow> nat \<Rightarrow> paged act" where
  "file_open w fp entity copy ws = (let (title, body, fix_action) = copy; facts = engine_facts fp ws title body fix_action in
     if prefix ''host-down:'' fp then
       bnd (gets (\<lambda>s. host_is_partner_tier s (snd (colon_parts entity)))) (\<lambda>tier. case tier of
         Inl e \<Rightarrow> throw e
       | Inr partner \<Rightarrow> raise_alert w (if partner then ''partner-aggregate-down'' else ''prod-site-hard-down'') entity facts)
     else if prefix ''zone-down:'' fp then raise_alert w ''prod-site-hard-down'' entity facts
     else bnd (gets (\<lambda>s. site_down_kind s entity)) (\<lambda>kind.
       if kind = ''partner-site-hard-down'' then
         bnd (raise_alert w kind entity facts) (\<lambda>p. andThen (maybe_file_partner_aggregate w entity) (ret p))
       else raise_alert w kind entity facts))"

definition opening_held :: "hub \<Rightarrow> nat \<Rightarrow> string \<Rightarrow> time \<Rightarrow> bool" where
  "opening_held s ws fp now = (flap_holds s ws fp now \<or> suppressed_by s (entity_of fp) \<noteq> None)"

definition open_state :: "alert_state \<Rightarrow> time \<Rightarrow> alert_state" where
  "open_state st now = st\<lparr>as_opened_at := Some now, as_closed_at := None, as_transitions := as_transitions st @ [Opened now]\<rparr>"

definition close_state :: "alert_state \<Rightarrow> time \<Rightarrow> alert_state" where
  "close_state st now = st\<lparr>as_closed_at := Some now, as_transitions := as_transitions st @ [ClosedAt now]\<rparr>"

definition open_alert :: "world \<Rightarrow> alert_state \<Rightarrow> string \<Rightarrow> time \<Rightarrow> nat \<Rightarrow> paged option act" where
  "open_alert w st fp now ws = bnd (gets (\<lambda>s. opening_held s ws fp now)) (\<lambda>held.
     if held then ret None
     else andThen (save_state ws fp (\<lambda>_. open_state st now))
       (bnd (gets (\<lambda>s. open_copy s fp (entity_of fp))) (\<lambda>copy.
        bnd (file_open w fp (entity_of fp) copy ws) (\<lambda>p. ret (Some p)))))"

definition flap_check :: "world \<Rightarrow> string \<Rightarrow> nat \<Rightarrow> time \<Rightarrow> finding_row option act" where
  "flap_check w fp ws now = bnd (gets (\<lambda>s. (state_at s ws fp, live_finding s ws (flap_fp fp)))) (\<lambda>(found, flap). case found of
     None \<Rightarrow> ret None
   | Some st \<Rightarrow> (case flap_cycles st now of
       Inl e \<Rightarrow> throw e
     | Inr cycles \<Rightarrow>
         if cycles < FLAP_CYCLES then ret None
         else case flap of
           Some row \<Rightarrow> ret (Some row)
         | None \<Rightarrow> bnd (raise_alert w ''FLAPPING'' (entity_of fp) (engine_facts (flap_fp fp) ws ''FLAPPING''
             (entity_of fp @ '' opened and closed '' @ str_nat cycles @
              '' times in 30 minutes. Individual transitions are suppressed until 30 minutes stable.'')
             ''Find the oscillating cause; do not chase each flap.'')) (\<lambda>p. ret (Some (pd_row p)))))"

text \<open>The value is the number of minutes the recovery notice reports.\<close>

definition close_alert :: "world \<Rightarrow> alert_state \<Rightarrow> string \<Rightarrow> time \<Rightarrow> nat \<Rightarrow> int act" where
  "close_alert w st fp now ws = bnd (gets (\<lambda>s. finding_at s ws fp)) (\<lambda>found.
     andThen (save_state ws fp (\<lambda>_. close_state st now))
     (case found of
        None \<Rightarrow> bnd (flap_check w fp ws now) (\<lambda>_. ret 0)
      | Some row \<Rightarrow> bnd (if f_state row \<noteq> Resolved then resolve_refresh w row else ret row) (\<lambda>row'.
          bnd (flap_check w fp ws now) (\<lambda>_. recovery_notice w row' now))))"

datatype alert_change = NoChange | AlertOpened paged | AlertClosed int

definition count_ok :: "alert_state \<Rightarrow> alert_state" where
  "count_ok st = st\<lparr>as_consecutive_ok := Suc (as_consecutive_ok st), as_consecutive_fail := 0\<rparr>"

definition count_fail :: "alert_state \<Rightarrow> alert_state" where
  "count_fail st = st\<lparr>as_consecutive_fail := Suc (as_consecutive_fail st), as_consecutive_ok := 0\<rparr>"

definition observe :: "world \<Rightarrow> string \<Rightarrow> bool \<Rightarrow> nat option \<Rightarrow> time \<Rightarrow> alert_change act" where
  "observe w fp ok workspace now = (case workspace of
     None \<Rightarrow> throw (TypeError ''observe() requires workspace'')
   | Some ws \<Rightarrow>
       andThen (maybe_resolve_flap w fp now ws)
       (bnd (get_or_create_state ws fp) (\<lambda>st.
        if ok then
          andThen (save_state ws fp (\<lambda>r. r\<lparr>as_consecutive_ok := Suc (as_consecutive_ok st), as_consecutive_fail := 0\<rparr>))
          (if is_open st \<and> Suc (as_consecutive_ok st) \<ge> CLOSE_AFTER
           then bnd (close_alert w (count_ok st) fp now ws) (\<lambda>n. ret (AlertClosed n))
           else ret NoChange)
        else
          andThen (save_state ws fp (\<lambda>r. r\<lparr>as_consecutive_fail := Suc (as_consecutive_fail st), as_consecutive_ok := 0\<rparr>))
          (if Suc (as_consecutive_fail st) \<ge> OPEN_AFTER \<and> \<not> is_open st
           then bnd (open_alert w (count_fail st) fp now ws) (\<lambda>p. case p of None \<Rightarrow> ret NoChange | Some q \<Rightarrow> ret (AlertOpened q))
           else ret NoChange))))"


section \<open>Grouped P2 pages\<close>

fun pending_p2 :: "int \<Rightarrow> time \<Rightarrow> alert_mark \<Rightarrow> (nat \<times> string) option" where
  "pending_p2 window now (Pushed t fp ws sev delivered title c) =
     (if delivered \<or> sev \<noteq> P2 \<or> \<not> now - t \<le> seconds window then None else Some (ws, fp))"
| "pending_p2 window now _ = None"

fun mark_event :: "string list \<Rightarrow> alert_mark \<Rightarrow> alert_mark" where
  "mark_event fps (Pushed t fp ws sev delivered title c) = Pushed t fp ws sev (delivered \<or> (sev = P2 \<and> fp \<in> set fps)) title c"
| "mark_event fps e = e"

definition mark_p2_delivered_fps :: "string list \<Rightarrow> unit act" where
  "mark_p2_delivered_fps fps = when_do (fps \<noteq> []) (bnd (get_or_create_state default_ws PUSH_LOG_FP) (\<lambda>plog.
     save_state default_ws PUSH_LOG_FP (\<lambda>r. r\<lparr>as_transitions := map (mark_event fps) (as_transitions plog)\<rparr>)))"

definition mark_p2_delivered :: "finding_row list \<Rightarrow> unit act" where
  "mark_p2_delivered rows = mark_p2_delivered_fps (map f_fingerprint rows)"

text \<open>The keys of the pending events, first occurrences in order.\<close>

fun dedupe :: "'a list \<Rightarrow> 'a list \<Rightarrow> 'a list" where
  "dedupe seen [] = []"
| "dedupe seen (x # xs) = (if x \<in> set seen then dedupe seen xs else x # dedupe (x # seen) xs)"

definition group_p2 :: "int \<Rightarrow> time \<Rightarrow> bool \<Rightarrow> (finding_row list \<times> bool) list act" where
  "group_p2 window now mark = bnd (get_or_create_state default_ws PUSH_LOG_FP) (\<lambda>plog.
     let pending = List.map_filter (pending_p2 window now) (as_transitions plog) in
     if pending = [] then ret []
     else bnd (gets (\<lambda>s. List.map_filter (\<lambda>(ws, fp). finding_at s ws fp) (dedupe [] pending))) (\<lambda>rows.
       andThen (when_do mark (mark_p2_delivered_fps (map snd pending)))
       (ret [(rows, length rows > 1)])))"

definition publish_group :: "world \<Rightarrow> finding_row list \<Rightarrow> bool act" where
  "publish_group w rows = (let click = public_url w @ ''/#/findings'' in
     bnd (gets (\<lambda>s. map (object_label s) rows)) (\<lambda>labels.
     bnd (publish_page w \<lparr>pg_severity = P2, pg_title = w_scrub w (str_nat (length rows) @ '' P2 findings''),
         pg_body = w_scrub w (join '', '' labels @ dot_sep @ ''p2'' @ dot_sep @ click), pg_tags = [''warning''], pg_click = click\<rparr>) (\<lambda>failed.
     andThen (log_delivery w (hd rows) Ntfy P2 (failed = None) (case failed of None \<Rightarrow> ''grouped'' | Some e \<Rightarrow> exc_name e))
     (ret (failed = None)))))"

fun flush_batches :: "world \<Rightarrow> time \<Rightarrow> (finding_row list \<times> bool) list \<Rightarrow> nat act" where
  "flush_batches w now [] = ret 0"
| "flush_batches w now ((rows, grouped) # rest) =
     (if rows = [] then flush_batches w now rest
      else bnd (if grouped then publish_group w rows else deliver w (hd rows) now) (\<lambda>ok.
        andThen (when_do ok (mark_p2_delivered rows))
        (bnd (flush_batches w now rest) (\<lambda>n. ret (Suc n)))))"

definition deliver_grouped :: "world \<Rightarrow> int \<Rightarrow> time \<Rightarrow> nat act" where
  "deliver_grouped w window now = bnd (group_p2 window now False) (flush_batches w now)"


section \<open>The hourly repeat\<close>

definition unacked_mail_sent :: "hub \<Rightarrow> finding_row \<Rightarrow> bool" where
  "unacked_mail_sent s row = list_ex (\<lambda>d. dl_finding d = f_pk row \<and> dl_channel d = Email \<and> sublist ''unacked'' (lower (dl_detail d))) (deliveries s)"

definition repeat_one :: "world \<Rightarrow> time \<Rightarrow> finding_row \<Rightarrow> (nat \<times> nat) act" where
  "repeat_one w now row =
     bnd (get_or_create_state (f_workspace row) (f_fingerprint row)) (\<lambda>st.
     let due = (case as_last_push_at st of None \<Rightarrow> True | Some t \<Rightarrow> now - t \<ge> hours 1);
         opened = (case as_opened_at st of None \<Rightarrow> f_first_seen row | Some t \<Rightarrow> t) in
     andThen (when_do due (bnd (deliver w row now) (\<lambda>_. ret ())))
     (bnd (gets (\<lambda>s. unacked_mail_sent s row)) (\<lambda>already.
      let mailing = (\<not> already \<and> now - opened \<ge> hours 24) in
      andThen (when_do mailing (send_unacked_email w row))
      (ret (if due then 1 else 0, if mailing then 1 else 0)))))"

fun repeat_rows :: "world \<Rightarrow> time \<Rightarrow> finding_row list \<Rightarrow> (nat \<times> nat) act" where
  "repeat_rows w now [] = ret (0, 0)"
| "repeat_rows w now (row # rows) = bnd (repeat_one w now row) (\<lambda>(p, m).
     bnd (repeat_rows w now rows) (\<lambda>(ps, ms). ret (p + ps, m + ms)))"

definition repeat_unacked :: "world \<Rightarrow> time \<Rightarrow> (nat \<times> nat) act" where
  "repeat_unacked w now = bnd (gets (\<lambda>s. filter (\<lambda>r. f_severity r = P1 \<and> f_state r = Open) (findings s))) (repeat_rows w now)"

end
