(* ===== verification/Cycle_Lock.thy ===== *)
theory Cycle_Lock
  imports Findings Locks
begin

text \<open>
  The guard against overlapping cycles that the uptime probes and the scale evaluator share: one lock row per
  kind of cycle, taken over when its time stamp is too old, released at the end in the name of a fixed holder.
  The locale \<open>cycle\<close> is a cycle whose work leaves the lock table alone.
\<close>

definition CYCLE_LOCK_STALE_S :: int where "CYCLE_LOCK_STALE_S = 300"

definition guard_key :: "string \<Rightarrow> lock_id" where
  "guard_key object_id = (ScopeTarget, object_id, KindCollect)"

definition drop_stale_guard :: "string \<Rightarrow> time \<Rightarrow> bool act" where
  "drop_stale_guard object_id cutoff = (\<lambda>s.
     let stale = (\<lambda>l. lock_key l = guard_key object_id \<and> l_heartbeat_at l < cutoff) in
     (Inr (list_ex stale (locks s)), s\<lparr>locks := filter (\<lambda>l. \<not> stale l) (locks s)\<rparr>))"

text \<open>The body both \<open>_acquire_cycle_lock\<close> functions have; they differ in the lock, the holder and the audit action.\<close>

definition acquire_guard :: "world \<Rightarrow> string \<Rightarrow> string \<Rightarrow> string \<Rightarrow> operation_lock option act" where
  "acquire_guard w object_id holder broken_action =
     bnd (acquire w ScopeTarget object_id KindCollect holder) (\<lambda>got. case got of
       Some l \<Rightarrow> ret (Some l)
     | None \<Rightarrow> bnd (timezone_now w) (\<lambda>now.
         bnd (drop_stale_guard object_id (now - seconds CYCLE_LOCK_STALE_S)) (\<lambda>stale.
         if \<not> stale then ret None
         else bnd (audit w ((audit_args broken_action None)\<lparr>ac_severity := SevWarning,
                ac_detail := [(''stale_after_s'', JInt CYCLE_LOCK_STALE_S)]\<rparr>)) (\<lambda>_.
           acquire w ScopeTarget object_id KindCollect holder))))"

definition release_guard :: "string \<Rightarrow> string \<Rightarrow> unit act" where
  "release_guard object_id holder = bnd (release ScopeTarget object_id KindCollect (Some holder)) (\<lambda>_. ret ())"


section \<open>Taking the guard\<close>

lemma audit_system_ok:
  assumes "ac_obj c = None" "ac_workspace c = None" "ac_scope c = None"
  obtains e t where "audit w c s = (Inr e, t)" "beside_journal t = beside_journal s"
proof -
  from assms have "resolve_workspace s (ac_obj c) (ac_workspace c) (initial_scope c) = Inr None"
    by (simp add: resolve_workspace_def initial_scope_def)
  with write_event_effect [of w c "(final_scope c None, None)" s] obtain e t where "audit w c s = (Inr e, t)"
    by (auto simp: audit_def bnd_def gets_def)
  with frameD [OF audit_journal this] that show thesis by blast
qed

lemma bnd_now: "bnd (timezone_now w) k s = k (w_clock w (ticks s)) (s\<lparr>ticks := Suc (ticks s)\<rparr>)"
  by (simp add: bnd_def timezone_now_def)

lemma held_cong: "locks t = locks s \<Longrightarrow> held t = held s"
  by (simp add: held_def fun_eq_iff)

lemma lock_wf_cong: "locks t = locks s \<Longrightarrow> lock_wf t = lock_wf s"
  by (simp add: lock_wf_def)

lemma drop_stale_effect:
  assumes "lock_wf s" "drop_stale_guard oid cutoff s = (r, t)"
  shows "lock_wf t" "k \<noteq> guard_key oid \<Longrightarrow> held t k = held s k"
    "r = Inr True \<Longrightarrow> held t (guard_key oid) = None" "r = Inr False \<Longrightarrow> locks t = locks s"
    "r = Inr (list_ex (\<lambda>l. lock_key l = guard_key oid \<and> l_heartbeat_at l < cutoff) (locks s))"
proof -
  let ?stale = "\<lambda>l. lock_key l = guard_key oid \<and> l_heartbeat_at l < cutoff"
  have r: "r = Inr (list_ex ?stale (locks s))" and t: "locks t = filter (\<lambda>l. \<not> ?stale l) (locks s)"
    using assms(2) by (auto simp: drop_stale_guard_def Let_def)
  show "lock_wf t" using assms(1) by (simp add: lock_wf_def t distinct_map_filter_keys)
  show "held t k = held s k" if "k \<noteq> guard_key oid"
    unfolding held_def t using that by (subst find_filter_keep) auto
  show "held t (guard_key oid) = None" if "r = Inr True"
  proof -
    from that r obtain l where l: "l \<in> set (locks s)" "?stale l" by (auto simp: list_ex_iff)
    have "l' = l" if "l' \<in> set (locks s)" "lock_key l' = guard_key oid" for l'
      using assms(1) l that by (auto simp: lock_wf_def distinct_map inj_on_def)
    with l(2) have "\<forall>l'\<in>set (locks t). lock_key l' \<noteq> guard_key oid" by (auto simp: t)
    then show ?thesis by (auto simp: held_None_iff)
  qed
  show "locks t = locks s" if "r = Inr False"
    using that r by (auto simp: t list_ex_iff intro!: filter_True)
  show "r = Inr (list_ex ?stale (locks s))" by (rule r)
qed

text \<open>Either the caller has the guard now and every other lock is as before, or nothing changed.\<close>

lemma acquire_guard_cases:
  assumes "lock_wf s"
  obtains (got) l t where "acquire_guard w oid h a s = (Inr (Some l), t)" "lock_wf t"
      "held t = (held s)(guard_key oid := Some h)"
  | (busy) t where "acquire_guard w oid h a s = (Inr None, t)" "locks t = locks s" "held s (guard_key oid) \<noteq> None"
      "\<not> list_ex (\<lambda>l. lock_key l = guard_key oid \<and> l_heartbeat_at l < w_clock w (ticks s + 2) - seconds CYCLE_LOCK_STALE_S) (locks s)"
proof (cases "held s (guard_key oid)")
  case None
  obtain r t where a: "acquire w ScopeTarget oid KindCollect h s = (r, t)" by fastforce
  with None obtain l where l: "r = Inr (Some l)" by (auto simp: acquire_free guard_key_def Let_def)
  have "held t = (held s)(guard_key oid := Some h)" "lock_wf t"
    using held_acquire [of w ScopeTarget oid KindCollect h s] acquire_wf [OF assms, of w ScopeTarget oid KindCollect h] None
    by (auto simp: a fun_eq_iff guard_key_def)
  moreover have "acquire_guard w oid h a s = (Inr (Some l), t)" using a l by (simp add: acquire_guard_def bnd_def ret_def)
  ultimately show thesis using got by blast
next
  case (Some h')
  let ?u = "s\<lparr>ticks := Suc (ticks s + 2)\<rparr>" and ?cut = "w_clock w (ticks s + 2) - seconds CYCLE_LOCK_STALE_S"
  obtain r t where d: "drop_stale_guard oid ?cut ?u = (r, t)" by fastforce
  have wf: "lock_wf ?u" using assms by (simp add: lock_wf_def)
  note eff = drop_stale_effect [OF wf d]
  have step: "acquire_guard w oid h a s = bnd (drop_stale_guard oid ?cut) (\<lambda>stale. if \<not> stale then ret None
         else bnd (audit w ((audit_args a None)\<lparr>ac_severity := SevWarning,
                ac_detail := [(''stale_after_s'', JInt CYCLE_LOCK_STALE_S)]\<rparr>)) (\<lambda>_.
           acquire w ScopeTarget oid KindCollect h)) ?u"
  proof -
    have "acquire w ScopeTarget oid KindCollect h s = (Inr None, s\<lparr>ticks := ticks s + 2\<rparr>)"
      using Some by (simp add: acquire_held guard_key_def)
    then show ?thesis
      by (simp add: acquire_guard_def bnd_def [of "acquire w ScopeTarget oid KindCollect h"] bnd_now)
  qed
  show thesis
  proof (cases "r = Inr True")
    case True
    obtain e v where v: "audit w ((audit_args a None)\<lparr>ac_severity := SevWarning,
        ac_detail := [(''stale_after_s'', JInt CYCLE_LOCK_STALE_S)]\<rparr>) t = (Inr e, v)" "beside_journal v = beside_journal t"
      by (rule audit_system_ok [of "(audit_args a None)\<lparr>ac_severity := SevWarning,
        ac_detail := [(''stale_after_s'', JInt CYCLE_LOCK_STALE_S)]\<rparr>"]) (simp_all add: audit_args_def)
    have lv: "locks v = locks t" using beside_journal_fields(3) [OF v(2)] .
    have free: "held v (guard_key oid) = None" using eff(3) [OF True] held_cong [OF lv] by simp
    obtain q x where a: "acquire w ScopeTarget oid KindCollect h v = (q, x)" by fastforce
    with free obtain l where l: "q = Inr (Some l)" by (auto simp: acquire_free guard_key_def Let_def)
    have "lock_wf v" using eff(1) lock_wf_cong [OF lv] by simp
    then have "lock_wf x" using acquire_wf [of v w ScopeTarget oid KindCollect h] by (simp add: a)
    moreover have "held x = (held s)(guard_key oid := Some h)"
    proof
      show "held x k = ((held s)(guard_key oid := Some h)) k" for k
        using held_acquire [of w ScopeTarget oid KindCollect h v k] eff(2) [of k] held_cong [OF lv] free
        by (auto simp: a guard_key_def held_def)
    qed
    moreover have "acquire_guard w oid h a s = (Inr (Some l), x)"
      unfolding step using d True v(1) a l by (simp add: bnd_def)
    ultimately show thesis using got by blast
  next
    case False
    then have none: "r = Inr False" using eff(5) by auto
    then have "acquire_guard w oid h a s = (Inr None, t)" "locks t = locks s"
      unfolding step using d eff(4) by (simp_all add: bnd_def ret_def)
    then show thesis using busy Some none eff(5) by simp
  qed
qed


section \<open>A guarded cycle\<close>

definition guarded :: "world \<Rightarrow> string \<Rightarrow> string \<Rightarrow> string \<Rightarrow> 'a act \<Rightarrow> 'a act \<Rightarrow> 'a act" where
  "guarded w object_id holder broken_action skip body =
     bnd (acquire_guard w object_id holder broken_action) (\<lambda>got. case got of
       None \<Rightarrow> skip | Some _ \<Rightarrow> try_finally body (release_guard object_id holder))"

locale cycle =
  fixes w :: world and oid holder broken_action :: string and skip body :: "'a act"
  assumes skip_locks: "evolves (same locks) skip" and body_locks: "evolves (same locks) body"
begin

abbreviation run :: "'a act" where
  "run \<equiv> guarded w oid holder broken_action skip body"

text \<open>Whatever the work does, returning or raising, the guard is free afterwards, or it was somebody else's all along.\<close>

lemma run_balanced:
  assumes "lock_wf s"
  shows "lock_wf (snd (run s))" "k \<noteq> guard_key oid \<Longrightarrow> held (snd (run s)) k = held s k"
    "held (snd (run s)) (guard_key oid) = None \<or> (held s (guard_key oid) \<noteq> None \<and> locks (snd (run s)) = locks s)"
proof -
  have "lock_wf (snd (run s)) \<and> (k \<noteq> guard_key oid \<longrightarrow> held (snd (run s)) k = held s k) \<and>
    (held (snd (run s)) (guard_key oid) = None \<or> (held s (guard_key oid) \<noteq> None \<and> locks (snd (run s)) = locks s))" for k
  proof (rule acquire_guard_cases [OF assms, of w oid holder broken_action])
    fix t assume busy: "acquire_guard w oid holder broken_action s = (Inr None, t)" "locks t = locks s" "held s (guard_key oid) \<noteq> None"
    have "locks (snd (skip t)) = locks t" using skip_locks by (rule frame_snd)
    with busy have "locks (snd (run s)) = locks s" by (simp add: guarded_def bnd_def)
    then show ?thesis using busy(3) assms held_cong lock_wf_cong by metis
  next
    fix l t assume got: "acquire_guard w oid holder broken_action s = (Inr (Some l), t)" "lock_wf t"
      "held t = (held s)(guard_key oid := Some holder)"
    obtain r u where b: "body t = (r, u)" by fastforce
    have lu: "locks u = locks t" using body_locks b by (rule frameD)
    have wf: "lock_wf u" using got(2) lock_wf_cong [OF lu] by simp
    let ?v = "snd (release ScopeTarget oid KindCollect (Some holder) u)"
    have "snd (run s) = ?v"
      using got(1) b by (simp add: guarded_def release_guard_def bnd_def try_finally_def ret_def release_def Let_def split: sum.splits)
    moreover have "lock_wf ?v" using wf by (rule release_wf)
    moreover have "held ?v k = (if k = guard_key oid then None else held s k)" for k
      using held_release [OF wf, of ScopeTarget oid KindCollect "Some holder" k] held_cong [OF lu] got(3)
      by (auto simp: guard_key_def)
    ultimately show ?thesis by simp
  qed
  then show "lock_wf (snd (run s))" "k \<noteq> guard_key oid \<Longrightarrow> held (snd (run s)) k = held s k"
    "held (snd (run s)) (guard_key oid) = None \<or> (held s (guard_key oid) \<noteq> None \<and> locks (snd (run s)) = locks s)"
    by blast+
qed

end

end
