(* ===== verification/Scaling.thy ===== *)
theory Scaling
  imports Antinoise Cycle_Lock
begin

text \<open>
  \<open>scaling/pressure.py\<close>, \<open>scaling/destination.py\<close>, \<open>scaling/attack_gate.py\<close> and \<open>scaling/evaluator.py\<close>: the
  propose-mode evaluator. It looks for five consecutive minutes over one threshold, asks for cheap
  remediations first and then files a proposal that names an idle machine; it never provisions. The numbers
  of a host sample are rationals; a sample always carries its time.
\<close>

section \<open>Pressure\<close>

definition MEM_PCT_THRESHOLD :: rat where "MEM_PCT_THRESHOLD = 85"
definition CONSECUTIVE_MINUTES :: nat where "CONSECUTIVE_MINUTES = 5"
definition WINDOW_S :: int where "WINDOW_S = 300"
definition MAX_SAMPLE_GAP_S :: int where "MAX_SAMPLE_GAP_S = 120"

datatype axis = Ram | Load

definition ram_over :: "host_metric \<Rightarrow> bool" where
  "ram_over x = (case m_ram x of None \<Rightarrow> False | Some r \<Rightarrow> r > MEM_PCT_THRESHOLD)"

definition load_over :: "host_metric \<Rightarrow> bool" where
  "load_over x = (case (m_cores x, m_load x) of (Some c, Some l) \<Rightarrow> c \<ge> 1 \<and> l > of_nat c | _ \<Rightarrow> False)"

definition has_headroom :: "host_metric \<Rightarrow> bool" where
  "has_headroom x = (case (m_ram x, m_load x) of
     (Some r, Some l) \<Rightarrow> r \<le> MEM_PCT_THRESHOLD \<and>
       (case m_cores x of None \<Rightarrow> True | Some c \<Rightarrow> c < 1 \<or> l \<le> of_nat c)
   | _ \<Rightarrow> False)"

text \<open>The minute of an instant: \<open>ts.replace(second=0, microsecond=0)\<close> in UTC.\<close>

definition minute_of :: "time \<Rightarrow> time" where
  "minute_of t = t - t mod minutes 1"

text \<open>\<open>by_minute\<close>: a later sample of the minute, or one of the same instant, takes the place of the earlier.\<close>

fun bucket_put :: "host_metric \<Rightarrow> (time \<times> host_metric) list \<Rightarrow> (time \<times> host_metric) list" where
  "bucket_put x [] = [(minute_of (m_ts x), x)]"
| "bucket_put x ((k, y) # bs) = (if k = minute_of (m_ts x) then (k, if m_ts x \<ge> m_ts y then x else y) # bs
     else (k, y) # bucket_put x bs)"

definition in_window :: "time \<Rightarrow> host_metric \<Rightarrow> bool" where
  "in_window now x = (now - seconds WINDOW_S \<le> m_ts x \<and> m_ts x \<le> now)"

definition minute_buckets :: "host_metric list \<Rightarrow> time \<Rightarrow> (time \<times> host_metric) list" where
  "minute_buckets samples now = sort_key fst (foldl (\<lambda>bs x. if in_window now x then bucket_put x bs else bs) [] samples)"

fun consecutive :: "time list \<Rightarrow> bool" where
  "consecutive (x # y # ts) = (y - x = minutes 1 \<and> consecutive (y # ts))"
| "consecutive _ = True"

definition overflow_axis :: "host_metric list \<Rightarrow> time \<Rightarrow> axis option" where
  "overflow_axis samples now = (let buckets = minute_buckets samples now in
     if length buckets < CONSECUTIVE_MINUTES then None
     else let gap = now - m_ts (snd (last buckets)) in
     if gap < 0 \<or> gap > seconds MAX_SAMPLE_GAP_S then None
     else let trailing = drop (length buckets - CONSECUTIVE_MINUTES) buckets; five = map snd trailing in
     if \<not> consecutive (map fst trailing) then None
     else if list_all ram_over five then Some Ram
     else if list_all load_over five then Some Load
     else None)"

definition sustained_pressure :: "host_metric list \<Rightarrow> time \<Rightarrow> bool" where
  "sustained_pressure samples now = (overflow_axis samples now \<noteq> None)"


section \<open>Where a site could overflow to\<close>

definition OVERFLOW_HOURLY_USD :: string where "OVERFLOW_HOURLY_USD = ''0.0416''"
definition OVERFLOW_SIZE :: string where "OVERFLOW_SIZE = ''t3.medium''"
definition IDLE_COST_USD :: string where "IDLE_COST_USD = ''0''"
definition IDLE_SIZE :: string where "IDLE_SIZE = ''own-machine''"

text \<open>\<open>int(x)\<close> raises only the two errors the loop skips.\<close>

fun order_pks :: "json list \<Rightarrow> int list" where
  "order_pks [] = []"
| "order_pks (x # xs) = (case py_int x of Inr i \<Rightarrow> i # order_pks xs | Inl _ \<Rightarrow> order_pks xs)"

fun partner_destination_pks :: "partner list \<Rightarrow> exn + int list" where
  "partner_destination_pks [] = Inr []"
| "partner_destination_pks (p # ps) =
     (case (if truthy (p_destination_order p) then py_list (p_destination_order p) else Inr []) of
        Inl e \<Rightarrow> Inl e
      | Inr xs \<Rightarrow> map_sum id (\<lambda>pks. order_pks xs @ pks) (partner_destination_pks ps))"

definition latest_in_window :: "hub \<Rightarrow> target \<Rightarrow> time \<Rightarrow> host_metric option" where
  "latest_in_window s t now = foldl (\<lambda>best x. case best of None \<Rightarrow> Some x | Some y \<Rightarrow> if m_ts x > m_ts y then Some x else Some y) None
     (filter (\<lambda>x. m_target x = t_pk t \<and> now - seconds MAX_SAMPLE_GAP_S \<le> m_ts x \<and> m_ts x \<le> now) (host_metrics s))"

text \<open>\<open>str.casefold\<close>; the setting \<open>w_hub_hostname\<close> is already folded.\<close>

definition casefold :: "string \<Rightarrow> string" where
  "casefold x = concat (map (\<lambda>c. if of_char c = (223 :: nat) then ''ss'' else [lower_char c]) x)"

definition eligible_home :: "world \<Rightarrow> hub \<Rightarrow> site \<Rightarrow> int list \<Rightarrow> time \<Rightarrow> target \<Rightarrow> bool" where
  "eligible_home w s site partner_pks now t =
     (t_status t = TgReady \<and> t_lifecycle t = Permanent \<and> s_primary_target site \<noteq> Some (t_pk t) \<and>
      int (t_pk t) \<notin> set partner_pks \<and> \<not> (w_hub_hostname w \<noteq> [] \<and> casefold (t_host t) = w_hub_hostname w) \<and>
      (case latest_in_window s t now of None \<Rightarrow> False | Some x \<Rightarrow> has_headroom x))"

definition pick_overflow_home :: "world \<Rightarrow> hub \<Rightarrow> site \<Rightarrow> time \<Rightarrow> exn + string option \<times> string \<times> string" where
  "pick_overflow_home w s site now = (case partner_destination_pks (partners s) of
     Inl e \<Rightarrow> Inl e
   | Inr pks \<Rightarrow> (case find (eligible_home w s site pks now) (sort_key t_pk (targets s)) of
       Some t \<Rightarrow> Inr (Some (t_host t), IDLE_COST_USD, IDLE_SIZE)
     | None \<Rightarrow> Inr (None, OVERFLOW_HOURLY_USD, OVERFLOW_SIZE)))"


section \<open>The attack gate\<close>

datatype refusal = AttackRefuse finding_row | PartnerOverflowRefuse

definition attack_fingerprint :: "dns_zone \<Rightarrow> string" where
  "attack_fingerprint z = ''attack-playbook-engaged:'' @ str_nat (dz_pk z)"

definition engaged_finding :: "hub \<Rightarrow> dns_zone option \<Rightarrow> finding_row option" where
  "engaged_finding s zone = (case zone of None \<Rightarrow> None
     | Some z \<Rightarrow> live_finding s (a_workspace (dz_account z)) (attack_fingerprint z))"

definition refuse_if_partner_overflow :: "hub \<Rightarrow> site \<Rightarrow> refusal option" where
  "refuse_if_partner_overflow s site =
     (if list_ex (\<lambda>b. ps_site b = s_pk site) (partner_sites s) then Some PartnerOverflowRefuse else None)"

definition refuse_if_attack :: "hub \<Rightarrow> site \<Rightarrow> refusal option" where
  "refuse_if_attack s site = (case engaged_finding s (s_dns_zone site) of
     Some row \<Rightarrow> Some (AttackRefuse row) | None \<Rightarrow> refuse_if_partner_overflow s site)"


section \<open>The evaluator\<close>

definition KIND :: string where "KIND = ''scale-out-proposal''"
definition CHEAP_KIND :: string where "CHEAP_KIND = ''scale-cheap-remediation''"
definition SOURCE :: string where "SOURCE = ''scaling.evaluator''"
definition CYCLE_HOLDER :: string where "CYCLE_HOLDER = ''evaluate-scale-proposals''"
definition CYCLE_LOCK_ID :: string where "CYCLE_LOCK_ID = ''evaluate-scale-proposals''"

definition scale_fp :: "string \<Rightarrow> site \<Rightarrow> string" where
  "scale_fp kind site = kind @ '':'' @ str_nat (s_pk site)"

fun axis_text :: "axis option \<Rightarrow> string" where
  "axis_text (Some Load) = ''load''"
| "axis_text _ = ''ram''"

definition scale_facts :: "site \<Rightarrow> string \<Rightarrow> string \<Rightarrow> string \<Rightarrow> string \<Rightarrow> alert_facts" where
  "scale_facts site fp title body fix_action = \<lparr>af_fingerprint = Some fp, af_source_engine = Some SOURCE,
     af_workspace = Some (s_workspace site), af_obj = None, af_title = title, af_body = body,
     af_fix_action = fix_action, af_details = no_details\<rparr>"

definition scale_entity :: "site \<Rightarrow> string" where
  "scale_entity site = ''site:'' @ (if s_domain site = [] then s_name site else s_domain site)"

definition samples_of :: "hub \<Rightarrow> site \<Rightarrow> time \<Rightarrow> host_metric list" where
  "samples_of s site now = filter (\<lambda>x. Some (m_target x) = s_primary_target site \<and> in_window now x) (host_metrics s)"

definition retract_kind :: "world \<Rightarrow> site \<Rightarrow> string \<Rightarrow> unit act" where
  "retract_kind w site kind = bnd (gets (\<lambda>s. finding_at s (s_workspace site) (scale_fp kind site))) (\<lambda>found. case found of
     None \<Rightarrow> ret ()
   | Some row \<Rightarrow> when_do (f_state row = Open \<or> f_state row = Acked) (bnd (resolve w row None SrcSystem) (\<lambda>_. ret ())))"

definition retract :: "world \<Rightarrow> site \<Rightarrow> unit act" where
  "retract w site = for_each [CHEAP_KIND, KIND] (retract_kind w site)"

definition file_cheap :: "world \<Rightarrow> site \<Rightarrow> host_metric list \<Rightarrow> time \<Rightarrow> paged act" where
  "file_cheap w site samples now = raise_alert w CHEAP_KIND (scale_entity site) (scale_facts site (scale_fp CHEAP_KIND site)
     ''Cheap remediations before overflow (propose mode)''
     (s_name site @ '' has sustained '' @ axis_text (overflow_axis samples now) @
      '' pressure. Apply cheap remediations before overflow: Cache-Control, Cloudflare cache, gunicorn 2'' @
      [char_of (215 :: nat)] @ ''CPU+1. propose-mode does not launch.'')
     ''Ack is not launch. Apply cache and workers before overflow.'')"

definition file_proposal :: "world \<Rightarrow> site \<Rightarrow> host_metric list \<Rightarrow> string option \<times> string \<times> string \<Rightarrow> time \<Rightarrow> paged act" where
  "file_proposal w site samples home now = (let (host, cost, size) = home in
     raise_alert w KIND (scale_entity site) (scale_facts site (scale_fp KIND site)
       ''Scale-out proposal awaiting approval (propose mode)''
       (s_name site @ '' has sustained '' @ axis_text (overflow_axis samples now) @ '' pressure. Overflow estimate '' @ cost @
        '' USD/hour on '' @ size @ ''. '' @ (case host of None \<Rightarrow> [] | Some h \<Rightarrow> ''idle registered machine '' @ h @ ''. '') @
        ''propose-mode does not launch.'')
       ''Ack is not launch. Propose-mode does not launch.''))"

definition evaluate_eligible :: "world \<Rightarrow> site \<Rightarrow> time \<Rightarrow> finding_row option act" where
  "evaluate_eligible w site now =
     (if s_primary_target site = None \<or> \<not> s_scale_ready site \<or> s_exposure site = MeshOnly
      then andThen (retract w site) (ret None)
      else bnd (gets (\<lambda>s. samples_of s site now)) (\<lambda>samples.
        if \<not> sustained_pressure samples now then andThen (retract w site) (ret None)
        else bnd (gets (\<lambda>s. finding_at s (s_workspace site) (scale_fp CHEAP_KIND site))) (\<lambda>cheap.
          case cheap of
            None \<Rightarrow> bnd (file_cheap w site samples now) (\<lambda>p. ret (Some (pd_row p)))
          | Some row \<Rightarrow>
              if f_state row = Resolved then bnd (file_cheap w site samples now) (\<lambda>p. ret (Some (pd_row p)))
              else if f_state row = Open \<or> f_state row = Acked then ret (Some row)
              else bnd (gets (\<lambda>s. live_finding s (s_workspace site) (scale_fp KIND site))) (\<lambda>existing.
                case existing of
                  Some prop \<Rightarrow> ret (Some prop)
                | None \<Rightarrow> bnd (gets (\<lambda>s. pick_overflow_home w s site now)) (\<lambda>home. case home of
                    Inl e \<Rightarrow> throw e
                  | Inr h \<Rightarrow> bnd (file_proposal w site samples h now) (\<lambda>p. ret (Some (pd_row p))))))))"

definition evaluate_site :: "world \<Rightarrow> site \<Rightarrow> time \<Rightarrow> finding_row option act" where
  "evaluate_site w site now = bnd (gets (\<lambda>s. refuse_if_attack s site)) (\<lambda>refused. case refused of
     Some _ \<Rightarrow> andThen (retract w site) (ret None)
   | None \<Rightarrow> try_except (evaluate_eligible w site now) (\<lambda>_. ret None))"

definition acquire_cycle_lock :: "world \<Rightarrow> operation_lock option act" where
  "acquire_cycle_lock w = acquire_guard w CYCLE_LOCK_ID CYCLE_HOLDER ''scale-evaluate-lock-broken''"

definition evaluate_one :: "world \<Rightarrow> time \<Rightarrow> site \<Rightarrow> unit act" where
  "evaluate_one w clock site = try_except (bnd (evaluate_site w site clock) (\<lambda>_. ret ()))
     (\<lambda>e. bnd (audit w ((audit_args ''scale-evaluate-failed'' (Some (OSite site)))\<lparr>ac_source := SrcCelery,
        ac_detail := [(''error'', JStr (exc_name e))]\<rparr>)) (\<lambda>_. ret ()))"

definition evaluate_all :: "world \<Rightarrow> unit act" where
  "evaluate_all w = bnd (acquire_cycle_lock w) (\<lambda>got. case got of
     None \<Rightarrow> bnd (audit w ((audit_args ''scale-evaluate-skipped'' None)\<lparr>ac_severity := SevWarning,
         ac_detail := [(''reason'', JStr ''cycle-lock-held'')]\<rparr>)) (\<lambda>_. ret ())
   | Some _ \<Rightarrow> bnd (timezone_now w) (\<lambda>clock.
       try_finally (bnd (gets (\<lambda>s. sort_key s_pk (sites s))) (\<lambda>rows. for_each rows (evaluate_one w clock)))
         (release_guard CYCLE_LOCK_ID CYCLE_HOLDER)))"

end
