(* ===== verification/Alert_Facts.thy ===== *)
theory Alert_Facts
  imports Antinoise
begin

text \<open>
  What the alert engine guarantees. \<open>observe\<close> implements a machine with two counters and a flag, whatever
  else filing, paging, storm and flap handling do on the way; and two places where the engine does less than
  it promises: the recovery notice of a P1 alert reaches no channel, and outages recorded in another
  workspace than the default one neither suppress nor add up.
\<close>

section \<open>The abstract hysteresis\<close>

record hyst =
  h_fail :: nat
  h_ok :: nat
  h_open :: bool

definition hyst_step :: "bool \<Rightarrow> bool \<Rightarrow> hyst \<Rightarrow> hyst" where
  "hyst_step ok blocked h = (if ok
     then \<lparr>h_fail = 0, h_ok = h_ok h + 1, h_open = (h_open h \<and> h_ok h + 1 < 2)\<rparr>
     else \<lparr>h_fail = h_fail h + 1, h_ok = 0, h_open = (h_open h \<or> (h_fail h + 1 \<ge> 3 \<and> \<not> blocked))\<rparr>)"

definition hyst_of_row :: "alert_state \<Rightarrow> hyst" where
  "hyst_of_row r = \<lparr>h_fail = as_consecutive_fail r, h_ok = as_consecutive_ok r, h_open = is_open r\<rparr>"

definition hyst_of :: "nat \<Rightarrow> string \<Rightarrow> hub \<Rightarrow> hyst" where
  "hyst_of ws fp s = (case state_at s ws fp of None \<Rightarrow> \<lparr>h_fail = 0, h_ok = 0, h_open = False\<rparr> | Some r \<Rightarrow> hyst_of_row r)"

section \<open>Which operations leave the counters alone\<close>

named_theorems alert_frames

lemma hyst_frameI: "evolves (same alert_states) m \<Longrightarrow> evolves (same (hyst_of ws fp)) m"
  by (simp add: evolves_def same_def hyst_of_def state_at_def)

lemma journal_alerts: "evolves (same beside_journal) m \<Longrightarrow> evolves (same alert_states) m"
  unfolding evolves_def same_def by (metis beside_journal_fields(10))

lemma audit_alerts [alert_frames]: "evolves (same alert_states) (audit w c)"
  by (rule journal_alerts [OF audit_journal])

lemma now_alerts [alert_frames]: "evolves (same alert_states) (timezone_now w)"
  by (rule journal_alerts [OF timezone_now_journal])

lemma publish_finding_alerts [alert_frames]: "evolves (same alert_states) (publish_finding row a)"
  by (simp add: publish_finding_def publish_def evolves_def same_def)

lemma save_finding_alerts [alert_frames]: "evolves (same alert_states) (save_finding row)"
  unfolding save_finding_def by (rule modify_frame) simp

lemma require_copy_alerts [alert_frames]: "evolves (same alert_states) (require_copy_values a b c)"
  by (auto simp: require_copy_values_def evolves_def same_def prog_defs)

lemma create_finding_alerts [alert_frames]: "evolves (same alert_states) (create_finding e ws fp flds now)"
  by (simp add: create_finding_def evolves_def same_def Let_def)

lemma refire_alerts [alert_frames]: "evolves (same alert_states) (refire w row e flds now)"
  unfolding refire_def Let_def by (intro frame.ev_rules alert_frames)

lemma finding_alerts [alert_frames]: "evolves (same alert_states) (finding w e fp ws flds)"
  unfolding finding_def by (intro frame.ev_rules alert_frames)

lemma resolve_refresh_alerts [alert_frames]: "evolves (same alert_states) (resolve_refresh w row)"
  unfolding resolve_refresh_def resolve_def transition_def Let_def by (intro frame.ev_rules alert_frames)

lemma file_alert_alerts [alert_frames]: "evolves (same alert_states) (file_alert w kind entity af)"
  unfolding file_alert_def by (intro frame.ev_rules alert_frames)

lemma channel_alerts [alert_frames]:
  "evolves (same alert_states) (publish_page w p)" "evolves (same alert_states) (send_mail w m)"
  "evolves (same alert_states) (log_delivery w row ch sev ok detail)"
proof -
  show "evolves (same alert_states) (publish_page w p)" "evolves (same alert_states) (send_mail w m)"
    by (simp_all add: publish_page_def send_mail_def evolves_def same_def)
  show "evolves (same alert_states) (log_delivery w row ch sev ok detail)"
    unfolding log_delivery_def by (intro frame.ev_rules alert_frames modify_frame) simp
qed

text \<open>Creating a row, and saving columns other than the counters and the open mark.\<close>

lemma state_key_new [simp]: "state_key (new_state ws fp) = (ws, fp)"
  by (simp add: state_key_def new_state_def)

lemma new_state_fields [simp]: "\<not> is_open (new_state ws fp)" "as_transitions (new_state ws fp) = []"
  by (simp_all add: is_open_def new_state_def)

lemma hyst_of_row_new: "hyst_of_row (new_state ws fp) = \<lparr>h_fail = 0, h_ok = 0, h_open = False\<rparr>"
  by (simp add: hyst_of_row_def new_state_def is_open_def)

lemma get_or_create_frame: "evolves (same (hyst_of ws fp)) (get_or_create_state ws' fp')"
  by (auto simp: evolves_def same_def get_or_create_state_def hyst_of_def state_at_def find_append hyst_of_row_new
      split: option.splits)

lemma get_or_create_found:
  assumes "get_or_create_state ws fp s = (r, t)"
  obtains st where "r = Inr st" "state_at t ws fp = Some st" "state_key st = (ws, fp)" "hyst_of ws fp s = hyst_of_row st"
    "findings t = findings s"
proof (cases "state_at s ws fp")
  case None
  then have "state_at t ws fp = Some (new_state ws fp)"
    using assms by (auto simp: get_or_create_state_def state_at_def find_append)
  with None assms that [of "new_state ws fp"] show thesis
    by (auto simp: get_or_create_state_def hyst_of_def hyst_of_row_new)
next
  case (Some st)
  moreover from Some have "state_key st = (ws, fp)" unfolding state_at_def using find_Some_mem by fastforce
  ultimately show thesis using assms that [of st] by (auto simp: get_or_create_state_def hyst_of_def)
qed

lemma state_at_save:
  assumes "\<And>r. state_key r = (ws', fp') \<Longrightarrow> state_key (f r) = (ws', fp')"
  shows "state_at (snd (save_state ws' fp' f s)) ws fp =
    map_option (\<lambda>r. if (ws, fp) = (ws', fp') then f r else r) (state_at s ws fp)"
proof -
  have "find (\<lambda>r. state_key r = (ws, fp)) (upd_rows (\<lambda>r. state_key r = (ws', fp')) f rows) =
    map_option (\<lambda>r. if (ws, fp) = (ws', fp') then f r else r) (find (\<lambda>r. state_key r = (ws, fp)) rows)" for rows
    unfolding upd_rows_def using assms by (induction rows) auto
  then show ?thesis by (simp add: state_at_def save_state_def modify_def)
qed

lemma save_state_frame:
  assumes "\<And>r. state_key (f r) = state_key r" "\<And>r. (ws, fp) = (ws', fp') \<Longrightarrow> hyst_of_row (f r) = hyst_of_row r"
  shows "evolves (same (hyst_of ws fp)) (save_state ws' fp' f)"
proof -
  have "hyst_of ws fp (snd (save_state ws' fp' f s)) = hyst_of ws fp s" for s
    using assms by (auto simp: hyst_of_def state_at_save split: option.splits)
  then show ?thesis by (simp add: evolves_def same_def)
qed


text \<open>The row of the push log keeps its own counters.\<close>

lemma record_push_frame: "evolves (same (hyst_of ws fp)) (record_push row now title c)"
proof -
  have "hyst_of ws fp (snd (record_push row now title c s)) = hyst_of ws fp s" for s
  proof -
    obtain r t where g: "get_or_create_state default_ws PUSH_LOG_FP s = (r, t)" by fastforce
    then obtain st where st: "r = Inr st" "state_at t default_ws PUSH_LOG_FP = Some st" "state_key st = (default_ws, PUSH_LOG_FP)"
      by (rule get_or_create_found)
    let ?f = "\<lambda>_. st\<lparr>as_transitions := as_transitions st @
         [Pushed now (f_fingerprint row) (f_workspace row) (f_severity row) False
            (case title of Some (c # cs) \<Rightarrow> c # cs | _ \<Rightarrow> f_title row) c], as_last_push_at := Some now\<rparr>"
    have key: "state_key (?f r) = (default_ws, PUSH_LOG_FP)" for r :: alert_state
      using st(3) by (simp add: state_key_def)
    have "record_push row now title c s = save_state default_ws PUSH_LOG_FP ?f t"
      using g st(1) by (simp add: record_push_def bnd_def)
    then have "hyst_of ws fp (snd (record_push row now title c s)) = hyst_of ws fp t"
      using st(2) by (auto simp: hyst_of_def state_at_save [where f = ?f, OF key] hyst_of_row_def is_open_def split: option.splits)
    also have "\<dots> = hyst_of ws fp s"
      using get_or_create_frame [of ws fp default_ws PUSH_LOG_FP] g by (rule frameD)
    finally show ?thesis .
  qed
  then show ?thesis by (simp add: evolves_def same_def)
qed

lemma stamp_frames:
  "evolves (same (hyst_of ws fp)) (save_state ws' fp' (\<lambda>r. r\<lparr>as_last_push_at := x\<rparr>))"
  "evolves (same (hyst_of ws fp)) (save_state ws' fp' (\<lambda>r. r\<lparr>as_acked_at := x\<rparr>))"
  by (rule save_state_frame, simp add: state_key_def, simp add: hyst_of_row_def is_open_def)+

lemmas keeps = alert_frames [THEN hyst_frameI] get_or_create_frame record_push_frame stamp_frames

lemma touch_frame: "evolves (same (hyst_of ws fp)) (touch_last_push row now)"
  unfolding touch_last_push_def by (intro frame.ev_rules keeps)

lemma release_clock_frame: "evolves (same (hyst_of ws fp)) (release_failed_push_clock row)"
  unfolding release_failed_push_clock_def by (intro frame.ev_rules keeps)

lemma email_frame:
  "(\<And>row e. evolves (same (hyst_of ws fp)) (report row e)) \<Longrightarrow> evolves (same (hyst_of ws fp)) (email_p1_with report w row u)"
  unfolding email_p1_with_def by (intro frame.ev_rules keeps)

lemma deliver_with_frame:
  "(\<And>row e. evolves (same (hyst_of ws fp)) (report row e)) \<Longrightarrow> evolves (same (hyst_of ws fp)) (deliver_with report w row now)"
  unfolding deliver_with_def by (intro frame.ev_rules keeps touch_frame release_clock_frame email_frame)

lemma maybe_deliver_frame:
  "(\<And>row e. evolves (same (hyst_of ws fp)) (report row e)) \<Longrightarrow> evolves (same (hyst_of ws fp)) (maybe_deliver_with report w p)"
  unfolding maybe_deliver_with_def by (intro frame.ev_rules keeps deliver_with_frame)

lemma annotate_frame: "evolves (same (hyst_of ws fp)) (annotate_delivery row now)"
  unfolding annotate_delivery_def by (intro frame.ev_rules)

lemma raise_nested_frame: "evolves (same (hyst_of ws fp)) (raise_nested w kind entity af)"
  unfolding raise_nested_def report_nested_def
  by (intro frame.ev_rules keeps annotate_frame maybe_deliver_frame)

lemma push_notice_frame: "evolves (same (hyst_of ws fp)) (push_notice row now)"
  unfolding push_notice_def by (intro frame.ev_rules keeps)

text \<open>
  The interface of a filing function: it opens and closes no alert but the storm. The storm breaker, the
  recovery notice and the flap housekeeping keep that promise for every filing function they are given; the
  engine uses them with two, the one inside the hook and the one outside.
\<close>

locale filing_layer =
  fixes R :: raiser
  assumes R_keeps: "(ws, fp) \<noteq> (default_ws, STORM_STATE_FP) \<Longrightarrow> evolves (same (hyst_of ws fp)) (R kind entity af)"
begin

lemma storm_keeps:
  assumes "(ws, fp) \<noteq> (default_ws, STORM_STATE_FP)"
  shows "evolves (same (hyst_of ws fp)) (storm_breaker_with R w now)"
proof -
  have save: "evolves (same (hyst_of ws fp)) (save_state default_ws STORM_STATE_FP f)"
    if "\<And>r. state_key r = (default_ws, STORM_STATE_FP) \<Longrightarrow> state_key (f r) = (default_ws, STORM_STATE_FP)" for f
    using assms state_at_save [where f = f, OF that] by (auto simp: evolves_def same_def hyst_of_def split: option.splits)
  have created: "evolves (same (hyst_of ws fp)) (bnd (get_or_create_state default_ws STORM_STATE_FP) k)"
    if "\<And>st. state_key st = (default_ws, STORM_STATE_FP) \<Longrightarrow> evolves (same (hyst_of ws fp)) (k st)" for k :: "alert_state \<Rightarrow> unit act"
  proof -
    have "hyst_of ws fp (snd (bnd (get_or_create_state default_ws STORM_STATE_FP) k s)) = hyst_of ws fp s" for s
    proof -
      obtain r t where g: "get_or_create_state default_ws STORM_STATE_FP s = (r, t)" by fastforce
      then obtain st where st: "r = Inr st" "state_key st = (default_ws, STORM_STATE_FP)" by (rule get_or_create_found)
      have "hyst_of ws fp (snd (k st t)) = hyst_of ws fp t" using that [OF st(2)] by (rule frame_snd)
      moreover have "hyst_of ws fp t = hyst_of ws fp s"
        using get_or_create_frame [of ws fp default_ws STORM_STATE_FP] g by (rule frameD)
      ultimately show ?thesis using g st(1) by (simp add: bnd_def)
    qed
    then show ?thesis by (simp add: evolves_def same_def)
  qed
  show ?thesis
    unfolding storm_breaker_with_def
    by (intro frame.ev_bnd frame.ev_gets created; intro frame.ev_rules keeps save push_notice_frame R_keeps [OF assms])
      (auto simp: state_key_def)
qed

lemma recovery_keeps:
  assumes "(ws, fp) \<noteq> (default_ws, STORM_STATE_FP)"
  shows "evolves (same (hyst_of ws fp)) (recovery_notice_with R w row now)"
  unfolding recovery_notice_with_def by (intro frame.ev_rules push_notice_frame storm_keeps assms)

lemma resolve_flap_keeps:
  assumes "(ws, fp) \<noteq> (default_ws, STORM_STATE_FP)"
  shows "evolves (same (hyst_of ws fp)) (maybe_resolve_flap_with R w fp' now ws')"
  unfolding maybe_resolve_flap_with_def by (intro frame.ev_rules keeps recovery_keeps assms)

end

interpretation nested: filing_layer "raise_nested w" for w
  by unfold_locales (rule raise_nested_frame)

lemma after_raise_frame:
  assumes "(ws, fp) \<noteq> (default_ws, STORM_STATE_FP)"
  shows "evolves (same (hyst_of ws fp)) (after_raise w row)"
  unfolding after_raise_def after_raise_body_def
  by (intro frame.ev_rules keeps annotate_frame nested.resolve_flap_keeps nested.storm_keeps assms)

lemma raise_alert_frame:
  assumes "(ws, fp) \<noteq> (default_ws, STORM_STATE_FP)"
  shows "evolves (same (hyst_of ws fp)) (raise_alert w kind entity af)"
  unfolding raise_alert_def report_failure_def
  by (intro frame.ev_rules keeps after_raise_frame maybe_deliver_frame assms)

interpretation engine: filing_layer "raise_alert w" for w
  by unfold_locales (rule raise_alert_frame)

lemma file_open_frame:
  assumes "(ws, fp) \<noteq> (default_ws, STORM_STATE_FP)"
  shows "evolves (same (hyst_of ws fp)) (file_open w fp' entity copy ws')"
  unfolding file_open_def maybe_file_partner_aggregate_def by (intro frame.ev_rules raise_alert_frame assms)

lemma flap_check_frame:
  assumes "(ws, fp) \<noteq> (default_ws, STORM_STATE_FP)"
  shows "evolves (same (hyst_of ws fp)) (flap_check w fp' ws' now)"
  unfolding flap_check_def by (intro frame.ev_rules raise_alert_frame assms)


section \<open>Observing a probe\<close>

text \<open>Counting a probe result does not change what holds an alert back.\<close>

lemma opening_held_cong:
  assumes "findings t = findings s" "sites t = sites s" "targets t = targets s"
    and "\<And>fp. fingerprint_open t fp = fingerprint_open s fp" "last_transition t ws fp = last_transition s ws fp"
  shows "opening_held t ws fp now = opening_held s ws fp now"
proof -
  have "target_by_pk t = target_by_pk s" "zone_suppression t = zone_suppression s" "fingerprint_open t = fingerprint_open s"
    "live_finding t = live_finding s"
    using assms by (simp_all add: fun_eq_iff target_by_pk_def zone_suppression_def live_finding_def finding_at_def)
  moreover have "first_site p t = first_site p s" "first_target q t = first_target q s" for p q
    using assms by (simp_all add: first_site_def first_target_def)
  ultimately show ?thesis
    unfolding opening_held_def flap_holds_def suppressed_by_def by (simp only: assms(5))
qed

lemma get_or_create_held:
  assumes "get_or_create_state ws fp s = (r, t)"
  shows "opening_held t ws fp now = opening_held s ws fp now"
proof (rule opening_held_cong)
  show "findings t = findings s" "sites t = sites s" "targets t = targets s"
    using assms by (auto simp: get_or_create_state_def split: option.splits)
  show "fingerprint_open t fp' = fingerprint_open s fp'" for fp'
    using assms by (auto simp: get_or_create_state_def fingerprint_open_def state_at_def find_append
        split: option.splits if_splits)
  show "last_transition t ws fp = last_transition s ws fp"
    using assms by (auto simp: get_or_create_state_def last_transition_def state_at_def find_append
        split: option.splits)
qed

lemma counting_held:
  assumes "\<And>r. state_key (f r) = state_key r" "\<And>r. is_open (f r) = is_open r" "\<And>r. as_transitions (f r) = as_transitions r"
  shows "opening_held (snd (save_state ws fp f s)) ws fp now = opening_held s ws fp now"
proof (rule opening_held_cong)
  show "findings (snd (save_state ws fp f s)) = findings s" "sites (snd (save_state ws fp f s)) = sites s"
    "targets (snd (save_state ws fp f s)) = targets s"
    by (simp_all add: save_state_def modify_def)
  note at = state_at_save [where f = f and ws' = ws and fp' = fp and s = s, unfolded assms(1)]
  show "fingerprint_open (snd (save_state ws fp f s)) fp' = fingerprint_open s fp'" for fp'
    using assms by (auto simp: fingerprint_open_def at split: option.splits)
  show "last_transition (snd (save_state ws fp f s)) ws fp = last_transition s ws fp"
    using assms by (auto simp: last_transition_def at split: option.splits)
qed

lemma state_at_counted:
  assumes "state_at s ws fp = Some st" "\<And>r. state_key (f r) = state_key r"
  shows "state_at (snd (save_state ws fp f s)) ws fp = Some (f st)"
  using assms state_at_save [where f = f and ws = ws and ws' = ws and fp = fp and fp' = fp and s = s] by simp

lemma hyst_of_saved:
  assumes "state_at s ws fp = Some st" "\<And>r. state_key r = (ws, fp) \<Longrightarrow> state_key (f r) = (ws, fp)"
  shows "hyst_of ws fp (snd (save_state ws fp f s)) = hyst_of_row (f st)"
  using assms by (simp add: hyst_of_def state_at_save)

lemma snd_andThen_save:
  "snd (andThen (save_state ws fp f) m s) = snd (m (snd (save_state ws fp f s)))"
  by (simp add: andThen_def bnd_def save_state_def modify_def)

lemma snd_bnd_ret: "(\<And>x t. snd (k x t) = t) \<Longrightarrow> snd (bnd m k s) = snd (m s)"
  by (simp add: bnd_def split: prod.splits sum.splits)

lemma close_alert_state:
  assumes "fp \<noteq> STORM_STATE_FP" "state_at s ws fp \<noteq> None" "state_key st = (ws, fp)"
  shows "hyst_of ws fp (snd (close_alert w st fp now ws s)) = (hyst_of_row st)\<lparr>h_open := False\<rparr>"
proof -
  let ?t = "snd (save_state ws fp (\<lambda>_. close_state st now) s)"
  have safe: "(ws, fp) \<noteq> (default_ws, STORM_STATE_FP)" using assms(1) by simp
  obtain m where m: "snd (close_alert w st fp now ws s) = snd (m ?t)" and frame: "evolves (same (hyst_of ws fp)) (m :: int act)"
  proof
    show "snd (close_alert w st fp now ws s) = snd ((case finding_at s ws fp of
        None \<Rightarrow> bnd (flap_check w fp ws now) (\<lambda>_. ret 0)
      | Some row \<Rightarrow> bnd (if f_state row \<noteq> Resolved then resolve_refresh w row else ret row) (\<lambda>row'.
          bnd (flap_check w fp ws now) (\<lambda>_. recovery_notice w row' now))) ?t)"
      by (simp add: close_alert_def bnd_gets snd_andThen_save)
    show "evolves (same (hyst_of ws fp)) (case finding_at s ws fp of
        None \<Rightarrow> bnd (flap_check w fp ws now) (\<lambda>_. ret 0)
      | Some row \<Rightarrow> bnd (if f_state row \<noteq> Resolved then resolve_refresh w row else ret row) (\<lambda>row'.
          bnd (flap_check w fp ws now) (\<lambda>_. recovery_notice w row' now)))"
      unfolding recovery_notice_def
      by (intro frame.ev_rules keeps flap_check_frame engine.recovery_keeps safe)
  qed
  have "hyst_of ws fp (snd (m ?t)) = hyst_of ws fp ?t" using frame by (rule frame_snd)
  also have "\<dots> = (hyst_of_row st)\<lparr>h_open := False\<rparr>"
    using assms(2,3) by (auto simp: hyst_of_saved close_state_def state_key_def hyst_of_row_def is_open_def)
  finally show ?thesis by (simp add: m)
qed

lemma open_alert_state:
  assumes "fp \<noteq> STORM_STATE_FP" "state_at s ws fp = Some st" "state_key st = (ws, fp)"
  shows "hyst_of ws fp (snd (open_alert w st fp now ws s)) =
    (hyst_of_row st)\<lparr>h_open := (is_open st \<or> \<not> opening_held s ws fp now)\<rparr>"
proof (cases "opening_held s ws fp now")
  case True
  then show ?thesis using assms(2)
    by (simp add: open_alert_def bnd_def gets_def ret_def hyst_of_def hyst_of_row_def)
next
  case False
  let ?t = "snd (save_state ws fp (\<lambda>_. open_state st now) s)"
  let ?m = "bnd (gets (\<lambda>s. open_copy s fp (entity_of fp))) (\<lambda>copy.
        bnd (file_open w fp (entity_of fp) copy ws) (\<lambda>p. ret (Some p)))"
  have "evolves (same (hyst_of ws fp)) ?m" using assms(1) by (intro frame.ev_rules file_open_frame) simp
  then have "hyst_of ws fp (snd (?m ?t)) = hyst_of ws fp ?t" by (rule frame_snd)
  moreover have "snd (open_alert w st fp now ws s) = snd (?m ?t)"
    using False by (simp add: open_alert_def bnd_gets snd_andThen_save)
  moreover have "hyst_of ws fp ?t = (hyst_of_row st)\<lparr>h_open := True\<rparr>"
    using assms(2,3) by (simp add: hyst_of_saved open_state_def state_key_def hyst_of_row_def is_open_def)
  ultimately show ?thesis using False by simp
qed

text \<open>After the housekeeping and with the row at hand, \<open>observe\<close> counts and then opens or closes.\<close>

lemma observe_ok:
  assumes "maybe_resolve_flap w fp now ws s = (Inr (), t)" "get_or_create_state ws fp t = (Inr st, u)"
  shows "snd (observe w fp True (Some ws) now s) = snd ((if is_open st \<and> Suc (as_consecutive_ok st) \<ge> CLOSE_AFTER
        then bnd (close_alert w (count_ok st) fp now ws) (\<lambda>n. ret (AlertClosed n)) else ret NoChange)
     (snd (save_state ws fp (\<lambda>r. r\<lparr>as_consecutive_ok := Suc (as_consecutive_ok st), as_consecutive_fail := 0\<rparr>) u)))"
  using assms by (simp add: observe_def andThen_def [of "maybe_resolve_flap w fp now ws"] bnd_def
      [of "maybe_resolve_flap w fp now ws"] bnd_def [of "get_or_create_state ws fp"] snd_andThen_save)

lemma observe_fail:
  assumes "maybe_resolve_flap w fp now ws s = (Inr (), t)" "get_or_create_state ws fp t = (Inr st, u)"
  shows "snd (observe w fp False (Some ws) now s) = snd ((if Suc (as_consecutive_fail st) \<ge> OPEN_AFTER \<and> \<not> is_open st
        then bnd (open_alert w (count_fail st) fp now ws) (\<lambda>p. case p of None \<Rightarrow> ret NoChange | Some q \<Rightarrow> ret (AlertOpened q))
        else ret NoChange)
     (snd (save_state ws fp (\<lambda>r. r\<lparr>as_consecutive_fail := Suc (as_consecutive_fail st), as_consecutive_ok := 0\<rparr>) u)))"
  using assms by (simp add: observe_def andThen_def [of "maybe_resolve_flap w fp now ws"] bnd_def
      [of "maybe_resolve_flap w fp now ws"] bnd_def [of "get_or_create_state ws fp"] snd_andThen_save)

lemma observe_step:
  assumes "fp \<noteq> STORM_STATE_FP" and flap: "maybe_resolve_flap w fp now ws s = (Inr (), t)"
  shows "hyst_of ws fp (snd (observe w fp ok (Some ws) now s)) = hyst_step ok (opening_held t ws fp now) (hyst_of ws fp s)"
proof -
  have "evolves (same (hyst_of ws fp)) (maybe_resolve_flap w fp now ws)"
    unfolding maybe_resolve_flap_def using assms(1) by (intro engine.resolve_flap_keeps) simp
  then have same: "hyst_of ws fp t = hyst_of ws fp s" using flap by (rule frameD)
  obtain r u where got: "get_or_create_state ws fp t = (r, u)" by fastforce
  then obtain st where st: "r = Inr st" "state_at u ws fp = Some st" "state_key st = (ws, fp)" "hyst_of ws fp t = hyst_of_row st"
    by (rule get_or_create_found)
  show ?thesis
  proof (cases ok)
    case True
    let ?v = "snd (save_state ws fp (\<lambda>r. r\<lparr>as_consecutive_ok := Suc (as_consecutive_ok st), as_consecutive_fail := 0\<rparr>) u)"
    have at: "state_at ?v ws fp = Some (count_ok st)" and key: "state_key (count_ok st) = (ws, fp)"
      using st(3) state_at_counted [OF st(2)] by (simp_all add: state_key_def count_ok_def)
    moreover have "hyst_of ws fp ?v = hyst_of_row (count_ok st)" by (simp add: hyst_of_def at)
    ultimately show ?thesis
      using True st(4) same observe_ok [OF flap got [unfolded st(1)]] close_alert_state [OF assms(1), of ?v ws "count_ok st" w now]
      by (auto simp: snd_bnd_ret ret_def hyst_step_def hyst_of_row_def count_ok_def is_open_def CLOSE_AFTER_def)
  next
    case False
    let ?v = "snd (save_state ws fp (\<lambda>r. r\<lparr>as_consecutive_fail := Suc (as_consecutive_fail st), as_consecutive_ok := 0\<rparr>) u)"
    have at: "state_at ?v ws fp = Some (count_fail st)" and key: "state_key (count_fail st) = (ws, fp)"
      using st(3) state_at_counted [OF st(2)] by (simp_all add: state_key_def count_fail_def)
    moreover have "hyst_of ws fp ?v = hyst_of_row (count_fail st)" by (simp add: hyst_of_def at)
    moreover have "opening_held ?v ws fp now = opening_held t ws fp now"
      using get_or_create_held [OF got] by (simp add: counting_held state_key_def is_open_def)
    ultimately show ?thesis
      using False st(4) same observe_fail [OF flap got [unfolded st(1)]] open_alert_state [OF assms(1), of ?v ws "count_fail st" w now]
      by (auto simp: snd_bnd_ret ret_def hyst_step_def hyst_of_row_def count_fail_def is_open_def OPEN_AFTER_def
          split: option.splits)
  qed
qed

text \<open>
  C9: The hysteresis of \<open>observe\<close>: once the flap housekeeping has run, observing a probe result changes the
  state of the alert exactly as the machine with two counters does, even when a later step raises: a
  success closes an open alert at the second in a row, a failure opens a closed one from the third in a row
  on unless a flap or an outage of the host or zone holds it back.
\<close>

theorem observe_refines_hysteresis:
  assumes "fp \<noteq> STORM_STATE_FP" "maybe_resolve_flap w fp now ws s = (Inr (), t)"
  shows "hyst_of ws fp (snd (observe w fp ok (Some ws) now s)) = hyst_step ok (opening_held t ws fp now) (hyst_of ws fp s)"
  using assms by (rule observe_step)

lemma resolve_flap_idle:
  "live_finding s ws (if is_flap_fp fp then fp else flap_fp fp) = None \<Longrightarrow> maybe_resolve_flap w fp now ws s = (Inr (), s)"
  by (simp add: maybe_resolve_flap_def maybe_resolve_flap_with_def Let_def bnd_gets ret_def)

lemma no_live_finding [simp]: "findings s = [] \<Longrightarrow> live_finding s ws fp = None"
  by (simp add: live_finding_def finding_at_def)

theorem observe_refines_hysteresis_witness:
  "''site-down:shop'' \<noteq> STORM_STATE_FP \<and> maybe_resolve_flap calm_world ''site-down:shop'' 0 1 empty_hub = (Inr (), empty_hub) \<and>
   hyst_of 1 ''site-down:shop'' (snd (observe calm_world ''site-down:shop'' False (Some 1) 0 empty_hub)) =
     \<lparr>h_fail = 1, h_ok = 0, h_open = False\<rparr>"
proof -
  have "maybe_resolve_flap calm_world ''site-down:shop'' 0 1 empty_hub = (Inr (), empty_hub)"
    by (rule resolve_flap_idle) simp
  moreover have "hyst_of 1 ''site-down:shop'' empty_hub = \<lparr>h_fail = 0, h_ok = 0, h_open = False\<rparr>"
    by (simp add: hyst_of_def state_at_def)
  ultimately show ?thesis
    using observe_refines_hysteresis [of "''site-down:shop''" calm_world 0 1 empty_hub empty_hub False]
    by (simp add: STORM_STATE_FP_def hyst_step_def)
qed


section \<open>From probes to alerts\<close>

text \<open>
  The states an alert goes through: probe results observed one after the other, and between them anything
  that leaves its counters alone (other alerts, pages, acknowledgements, sweeps).
\<close>

inductive probed :: "world \<Rightarrow> nat \<Rightarrow> string \<Rightarrow> hub \<Rightarrow> bool list \<Rightarrow> hub \<Rightarrow> bool" for w ws fp s where
  start: "probed w ws fp s [] s"
| probe: "probed w ws fp s h t \<Longrightarrow> maybe_resolve_flap w fp now ws t = (Inr (), u) \<Longrightarrow>
    probed w ws fp s (h @ [ok]) (snd (observe w fp ok (Some ws) now t))"
| other: "probed w ws fp s h t \<Longrightarrow> hyst_of ws fp u = hyst_of ws fp t \<Longrightarrow> probed w ws fp s h u"

definition outage :: "bool list \<Rightarrow> bool" where
  "outage h = (\<exists>before after. h = before @ [False, False, False] @ after \<and> \<not> sublist [True, True] after)"

definition streak :: "bool \<Rightarrow> bool list \<Rightarrow> nat" where
  "streak b h = length (takeWhile (\<lambda>x. x = b) (rev h))"

lemma streak_snoc [simp]: "streak b (h @ [x]) = (if x = b then Suc (streak b h) else 0)"
  by (simp add: streak_def)

lemma streak_Nil [simp]: "streak b [] = 0"
  by (simp add: streak_def)

lemma sublist_TT_snoc: "sublist [True, True] (h @ [x]) \<longleftrightarrow> sublist [True, True] h \<or> (x \<and> streak True h \<ge> 1)"
proof (cases h rule: rev_cases)
  case Nil
  then show ?thesis by (auto simp: sublist_def Cons_eq_append_conv)
next
  case (snoc ys y)
  have "sublist [True, True] (h @ [x]) \<longleftrightarrow> sublist [True, True] h \<or> suffix [True, True] (h @ [x])"
    by (metis sublist_snoc)
  then show ?thesis using snoc by (auto simp: suffix_def)
qed

lemma streak_append: "streak b ys \<le> streak b (xs @ ys)"
  by (induction ys rule: rev_induct) (simp_all add: append.assoc [symmetric] del: append_assoc)

lemma outage_success: "outage h \<Longrightarrow> streak True h = 0 \<Longrightarrow> outage (h @ [True])"
proof -
  assume "outage h" "streak True h = 0"
  then obtain before after where h: "h = before @ [False, False, False] @ after" "\<not> sublist [True, True] after"
    by (auto simp: outage_def)
  have "streak True after \<le> streak True h" using streak_append [of True after "before @ [False, False, False]"] h(1) by simp
  with \<open>streak True h = 0\<close> h(2) have "\<not> sublist [True, True] (after @ [True])" by (simp add: sublist_TT_snoc)
  with h(1) show ?thesis unfolding outage_def by (intro exI [of _ before] exI [of _ "after @ [True]"]) simp
qed

lemma outage_failure: "outage h \<Longrightarrow> outage (h @ [False])"
  unfolding outage_def by (metis append.assoc sublist_TT_snoc)

lemma outage_begins:
  assumes "streak False h \<ge> 2" shows "outage (h @ [False])"
proof -
  from assms obtain xs x where h: "h = xs @ [x]" by (cases h rule: rev_cases) auto
  with assms obtain ys y where xs: "xs = ys @ [y]" by (cases xs rule: rev_cases) (auto simp: streak_def split: if_splits)
  with h assms have "h @ [False] = ys @ [False, False, False] @ []"
    by (auto simp: streak_def split: if_splits)
  then show ?thesis unfolding outage_def by (metis sublist_Nil_right list.distinct(1))
qed

text \<open>The counters count the current streaks, and an open alert has an outage behind it.\<close>

lemma probed_counts:
  assumes "probed w ws fp s h t" "fp \<noteq> STORM_STATE_FP" "hyst_of ws fp s = \<lparr>h_fail = 0, h_ok = 0, h_open = False\<rparr>"
  shows "h_fail (hyst_of ws fp t) = streak False h \<and> h_ok (hyst_of ws fp t) = streak True h \<and>
    (h_open (hyst_of ws fp t) \<longrightarrow> outage h)"
  using assms
proof (induction rule: probed.induct)
  case start
  then show ?case by simp
next
  case (probe h t now u ok)
  note step = observe_step [OF probe.prems(1) probe.hyps(2), of ok]
  from probe.IH [OF probe.prems] show ?case
    unfolding step by (cases ok) (auto simp: hyst_step_def intro: outage_success outage_failure outage_begins)
next
  case (other h t u)
  then show ?case by simp
qed

text \<open>
  An alert that starts out unknown and is open after any history of probe results, with anything else
  the hub does in between, has an outage in that history: three failures in a row and no two successes in a
  row since.
\<close>

theorem open_alert_has_outage:
  assumes "probed w ws fp s h t" "fp \<noteq> STORM_STATE_FP" "state_at s ws fp = None" "h_open (hyst_of ws fp t)"
  shows "\<exists>before after. h = before @ [False, False, False] @ after \<and> \<not> sublist [True, True] after"
  using probed_counts [OF assms(1,2)] assms(3,4) by (simp add: hyst_of_def outage_def)

text \<open>Conversely, three failed probes of an alert that nothing holds back open it.\<close>

lemma early_failure:
  fixes w :: world and now :: time
  assumes "fp \<noteq> STORM_STATE_FP" "findings s = []" "h_fail (hyst_of ws fp s) < 2"
  defines "t \<equiv> snd (observe w fp False (Some ws) now s)"
  shows "findings t = []" "opening_held t ws fp now = opening_held s ws fp now"
    "hyst_of ws fp t = hyst_step False (opening_held s ws fp now) (hyst_of ws fp s)"
proof -
  have flap: "maybe_resolve_flap w fp now ws s = (Inr (), s)" using assms(2) by (simp add: resolve_flap_idle)
  obtain r u where got: "get_or_create_state ws fp s = (r, u)" by fastforce
  then obtain st where st: "r = Inr st" "hyst_of ws fp s = hyst_of_row st" "findings u = findings s"
    by (rule get_or_create_found)
  have t: "t = snd (save_state ws fp (\<lambda>r. r\<lparr>as_consecutive_fail := Suc (as_consecutive_fail st), as_consecutive_ok := 0\<rparr>) u)"
    using assms(3) st(2) observe_fail [OF flap got [unfolded st(1)]]
    by (simp add: t_def hyst_of_row_def OPEN_AFTER_def ret_def)
  show "findings t = []" using assms(2) st(3) by (simp add: t save_state_def modify_def)
  show "opening_held t ws fp now = opening_held s ws fp now"
    using get_or_create_held [OF got] by (simp add: t counting_held state_key_def is_open_def)
  show "hyst_of ws fp t = hyst_step False (opening_held s ws fp now) (hyst_of ws fp s)"
    unfolding t_def by (rule observe_step [OF assms(1) flap])
qed

lemma three_failures_open:
  assumes "fp \<noteq> STORM_STATE_FP" "findings s = []" "state_at s ws fp = None" "\<not> opening_held s ws fp now"
  obtains t where "probed w ws fp s [False, False, False] t" "h_open (hyst_of ws fp t)"
proof -
  let ?f = "\<lambda>s. snd (observe w fp False (Some ws) now s)"
  have fresh: "hyst_of ws fp s = \<lparr>h_fail = 0, h_ok = 0, h_open = False\<rparr>" using assms(3) by (simp add: hyst_of_def)
  note one = early_failure [OF assms(1,2), of ws w now, unfolded fresh hyst_step_def, simplified]
  note two = early_failure [OF assms(1) one(1), of ws w now, unfolded one(3) hyst_step_def, simplified]
  have idle: "maybe_resolve_flap w fp now ws t = (Inr (), t)" if "findings t = []" for t
    using that by (simp add: resolve_flap_idle)
  have "probed w ws fp s (([] @ [False]) @ [False]) (?f (?f s))"
    by (rule probed.probe [OF probed.probe [OF probed.start idle [OF assms(2)]] idle [OF one(1)]])
  then have "probed w ws fp s ((([] @ [False]) @ [False]) @ [False]) (?f (?f (?f s)))"
    by (rule probed.probe) (rule idle [OF two(1)])
  moreover have "h_open (hyst_of ws fp (?f (?f (?f s))))"
    unfolding observe_step [OF assms(1) idle [OF two(1)]] using assms(4) one two
    by (simp add: hyst_step_def)
  ultimately show thesis using that by simp
qed

theorem open_alert_has_outage_witness:
  "\<exists>t. probed calm_world 1 ''site-down:shop'' empty_hub [False, False, False] t \<and> h_open (hyst_of 1 ''site-down:shop'' t) \<and>
     (\<exists>before after. [False, False, False] = before @ [False, False, False] @ after \<and> \<not> sublist [True, True] after)"
proof -
  have fp: "''site-down:shop'' \<noteq> STORM_STATE_FP" by (simp add: STORM_STATE_FP_def)
  have none: "state_at empty_hub 1 ''site-down:shop'' = None" by (simp add: state_at_def)
  have "\<not> opening_held empty_hub 1 ''site-down:shop'' 0"
    by (simp add: opening_held_def flap_holds_def suppressed_by_def first_site_def first_target_def split: prod.splits)
  with fp none obtain t where t: "probed calm_world 1 ''site-down:shop'' empty_hub [False, False, False] t"
      "h_open (hyst_of 1 ''site-down:shop'' t)"
    using three_failures_open [of "''site-down:shop''" empty_hub 1 0 calm_world] by auto
  then show ?thesis using open_alert_has_outage [OF t(1) fp none t(2)] by blast
qed


section \<open>The severity of a filed alert\<close>

lemma refire_severity: "refire w row e flds now s = (Inr r, t) \<Longrightarrow> f_severity r = ff_severity flds"
  by (auto simp: refire_def Let_def andThen_def fst_bnd_Inr ret_def)

lemma finding_severity: "finding w e fp ws flds s = (Inr r, t) \<Longrightarrow> f_severity r = ff_severity flds"
  unfolding finding_def
  by (auto simp: throw_def andThen_def fst_bnd_Inr ret_def bnd_gets dest: refire_severity split: option.splits)
    (auto simp: try_except_def bnd_def atomically_def create_finding_def Let_def ret_def throw_def gets_def
      split: prod.splits sum.splits if_splits option.splits)

lemma file_alert_severity:
  "file_alert w kind entity af s = (Inr row, t) \<Longrightarrow> classify kind (af_details af) = Inr (f_severity row)"
  by (auto simp: file_alert_def bnd_gets throw_def dest!: finding_severity split: sum.splits if_splits)

text \<open>
  The alert about a failed mail is never paged, so the engine does not come back to the mail that failed:
  handing it to the pager, as \<open>raise_alert\<close> does with every filed row, does nothing.
\<close>

lemma failed_mail_not_paged:
  assumes "file_alert w ''pager-email-failed'' entity af s = (Inr row, t)" "pd_row p = row"
  shows "maybe_deliver_with report w p = ret ()"
  using file_alert_severity [OF assms(1)] assms(2) classify_engine_kinds(3) [of "af_details af"]
  by (simp add: maybe_deliver_with_def when_do_def)


section \<open>The recovery notice of a P1 alert\<close>

text \<open>The pushes the next grouped delivery would send.\<close>

definition pending_pushes :: "hub \<Rightarrow> int \<Rightarrow> time \<Rightarrow> (nat \<times> string) list" where
  "pending_pushes s window now = (case state_at s default_ws PUSH_LOG_FP of None \<Rightarrow> []
     | Some plog \<Rightarrow> List.map_filter (pending_p2 window now) (as_transitions plog))"

definition storm_open :: "hub \<Rightarrow> bool" where
  "storm_open s = fingerprint_open s STORM_STATE_FP"

lemma record_push_effect:
  assumes "record_push row now title c s = (r, t)"
  obtains e st where "r = Inr ()" "at_of e = now" "counts_for_storm e = c"
    "\<And>window later. f_severity row = P1 \<Longrightarrow> pending_p2 window later e = None"
    "state_at t default_ws PUSH_LOG_FP = Some st"
    "as_transitions st = (case state_at s default_ws PUSH_LOG_FP of None \<Rightarrow> [] | Some p \<Rightarrow> as_transitions p) @ [e]"
    "\<And>fp. fp \<noteq> PUSH_LOG_FP \<Longrightarrow> state_at t default_ws fp = state_at s default_ws fp"
    "pages t = pages s" "mails t = mails s" "deliveries t = deliveries s"
proof -
  let ?e = "Pushed now (f_fingerprint row) (f_workspace row) (f_severity row) False
            (case title of Some (c # cs) \<Rightarrow> c # cs | _ \<Rightarrow> f_title row) c"
  obtain q u where g: "get_or_create_state default_ws PUSH_LOG_FP s = (q, u)" by fastforce
  then obtain st where st: "q = Inr st" "state_at u default_ws PUSH_LOG_FP = Some st" "state_key st = (default_ws, PUSH_LOG_FP)"
    by (rule get_or_create_found)
  have old: "as_transitions st = (case state_at s default_ws PUSH_LOG_FP of None \<Rightarrow> [] | Some p \<Rightarrow> as_transitions p)"
    using g st(1) by (auto simp: get_or_create_state_def split: option.splits)
  have u: "pages u = pages s" "mails u = mails s" "deliveries u = deliveries s"
    "\<And>fp. fp \<noteq> PUSH_LOG_FP \<Longrightarrow> state_at u default_ws fp = state_at s default_ws fp"
    using g by (auto simp: get_or_create_state_def state_at_def find_append split: option.splits)
  let ?f = "\<lambda>_. st\<lparr>as_transitions := as_transitions st @ [?e], as_last_push_at := Some now\<rparr>"
  have key: "state_key (?f r) = (default_ws, PUSH_LOG_FP)" for r :: alert_state
    using st(3) by (simp add: state_key_def)
  have t: "r = Inr ()" "t = snd (save_state default_ws PUSH_LOG_FP ?f u)"
    using assms g st(1) by (auto simp: record_push_def bnd_def save_state_def modify_def)
  note at = state_at_save [where f = ?f, OF key]
  show thesis
  proof (rule that [of ?e "?f st"])
    show "pages t = pages s" "mails t = mails s" "deliveries t = deliveries s"
      using u by (simp_all add: t(2) save_state_def modify_def)
    show "state_at t default_ws PUSH_LOG_FP = Some (?f st)" unfolding t(2) at using st(2) by simp
    show "state_at t default_ws fp = state_at s default_ws fp" if "fp \<noteq> PUSH_LOG_FP" for fp
      unfolding t(2) at using that u(4) [OF that] by (cases "state_at s default_ws fp") simp_all
  qed (use t(1) old in simp_all)
qed

lemma storm_breaker_idle:
  assumes "length (recent_pushes s now) \<le> STORM_LIMIT" "\<not> storm_open s"
  obtains t where "storm_breaker w now s = (Inr (), t)" "pages t = pages s" "mails t = mails s" "deliveries t = deliveries s"
    "state_at t default_ws PUSH_LOG_FP = state_at s default_ws PUSH_LOG_FP"
proof -
  obtain q t where g: "get_or_create_state default_ws STORM_STATE_FP s = (q, t)" by fastforce
  then obtain st where st: "q = Inr st" "state_at t default_ws STORM_STATE_FP = Some st" by (rule get_or_create_found)
  have "\<not> is_open st"
    using g st(1) assms(2) by (auto simp: get_or_create_state_def storm_open_def fingerprint_open_def split: option.splits)
  then have "storm_breaker w now s = (Inr (), t)"
    using assms(1) g st(1) by (simp add: storm_breaker_def storm_breaker_with_def gets_def bnd_def ret_def)
  moreover have "pages t = pages s" "mails t = mails s" "deliveries t = deliveries s"
    "state_at t default_ws PUSH_LOG_FP = state_at s default_ws PUSH_LOG_FP"
    using g by (auto simp: get_or_create_state_def state_at_def find_append PUSH_LOG_FP_def STORM_STATE_FP_def split: option.splits)
  ultimately show thesis by (rule that)
qed

text \<open>
  The recovery notice of a P1 alert is only written into the push log: outside a storm it publishes no
  page, sends no mail, logs no delivery, and the entry it leaves is not among the pushes that any later
  grouped delivery sends.
\<close>

theorem p1_recovery_notice_unsent:
  assumes "f_severity row = P1" "\<not> storm_open s" "length (recent_pushes s now) < STORM_LIMIT"
  shows "\<exists>mins t. recovery_notice w row now s = (Inr mins, t) \<and> pages t = pages s \<and> mails t = mails s \<and>
    deliveries t = deliveries s \<and> (\<forall>window later. pending_pushes t window later = pending_pushes s window later)"
proof -
  let ?title = "\<lambda>m. Some (''UP after '' @ str_int m @ '' min'')"
  define m where "m = minutes_since (case Option.bind (state_at s (f_workspace row) (f_fingerprint row)) as_opened_at of
      Some t \<Rightarrow> t | None \<Rightarrow> f_first_seen row) now"
  let ?c = "f_fingerprint row \<noteq> STORM_FINDING_FP"
  obtain r t where rec: "record_push row now (?title m) ?c s = (r, t)" by fastforce
  then obtain e st where e: "r = Inr ()" "at_of e = now" "\<And>window later. pending_p2 window later e = None"
    and log: "state_at t default_ws PUSH_LOG_FP = Some st"
      "as_transitions st = (case state_at s default_ws PUSH_LOG_FP of None \<Rightarrow> [] | Some p \<Rightarrow> as_transitions p) @ [e]"
    and rest: "state_at t default_ws STORM_STATE_FP = state_at s default_ws STORM_STATE_FP"
      "pages t = pages s" "mails t = mails s" "deliveries t = deliveries s"
    using assms(1) by (rule_tac record_push_effect [OF rec]) (simp add: PUSH_LOG_FP_def STORM_STATE_FP_def)
  have pend: "pending_pushes t window later = pending_pushes s window later" for window later
    using log e(3) by (auto simp: pending_pushes_def map_filter_def split: option.splits)
  have push: "push_notice row now s = (Inr m, t)"
    using rec e(1) by (simp add: push_notice_def gets_def m_def andThen_def bnd_def ret_def)
  have "length (recent_pushes t now) \<le> Suc (length (recent_pushes s now))"
    using log by (auto simp: recent_pushes_def split: option.splits)
  with assms(3) have rate: "length (recent_pushes t now) \<le> STORM_LIMIT" by simp
  have quiet: "\<not> storm_open t" using assms(2) rest(1) by (simp add: storm_open_def fingerprint_open_def)
  obtain u where u: "storm_breaker w now t = (Inr (), u)" "pages u = pages t" "mails u = mails t" "deliveries u = deliveries t"
    "state_at u default_ws PUSH_LOG_FP = state_at t default_ws PUSH_LOG_FP"
    using rate quiet by (rule storm_breaker_idle)
  have "recovery_notice w row now s = (Inr m, if ?c then u else t)"
    using push u(1) by (simp add: recovery_notice_def recovery_notice_with_def storm_breaker_def bnd_def andThen_def when_do_def ret_def)
  moreover have "pending_pushes u window later = pending_pushes t window later" for window later
    using u(5) by (simp add: pending_pushes_def)
  ultimately show ?thesis using u rest pend by auto
qed

definition down_row :: finding_row where
  "down_row = \<lparr>f_pk = 1, f_workspace = 1, f_source_engine = ''monitor.antinoise'', f_severity = P1, f_entity = ''site:shop'',
     f_title = ''Site shop is down'', f_body = ''Three consecutive probes failed for shop.'', f_fix_action = ''Check docker ps.'',
     f_state = Resolved, f_first_seen = 0, f_last_seen = 0, f_fingerprint = ''site-down:shop'', f_accepted_reason = []\<rparr>"

theorem p1_recovery_notice_unsent_witness:
  "f_severity down_row = P1 \<and> \<not> storm_open empty_hub \<and> length (recent_pushes empty_hub 0) < STORM_LIMIT \<and>
   (\<exists>mins t. recovery_notice calm_world down_row 0 empty_hub = (Inr mins, t) \<and> pages t = [] \<and> mails t = [])"
proof -
  have "f_severity down_row = P1" "\<not> storm_open empty_hub" "length (recent_pushes empty_hub 0) < STORM_LIMIT"
    by (simp_all add: down_row_def storm_open_def fingerprint_open_def recent_pushes_def state_at_def STORM_LIMIT_def)
  with p1_recovery_notice_unsent [OF this, of calm_world] show ?thesis by auto
qed


section \<open>Outages of other workspaces\<close>

lemma closed_elsewhere:
  "\<forall>r\<in>set (alert_states s). as_workspace r \<noteq> default_ws \<Longrightarrow> \<not> fingerprint_open s fp"
  unfolding fingerprint_open_def state_at_def
  by (auto simp: state_key_def find_Some_iff split: option.splits)

text \<open>
  Alerts that are recorded in a workspace other than the default one, where \<open>observe\<close> puts them, are
  invisible to root-cause suppression and to the aggregate of a partner's sites: nothing is suppressed, and
  no number of open site alerts of the partner files the aggregate alert.
\<close>

theorem other_workspace_outages_unseen:
  assumes "\<forall>r\<in>set (alert_states s). as_workspace r \<noteq> default_ws"
  shows "suppressed_by s entity = None \<and> maybe_file_partner_aggregate w entity s = (Inr (), s)"
proof -
  note unseen = closed_elsewhere [OF assms]
  have "suppressed_by s entity = None"
    using unseen by (auto simp: suppressed_by_def zone_suppression_def split: prod.splits option.splits)
  moreover have "partner_sites_down s p = 0" for p
    using unseen by (auto simp: partner_sites_down_def filter_empty_conv split: option.splits)
  then have "maybe_file_partner_aggregate w entity s = (Inr (), s)"
    by (simp add: maybe_file_partner_aggregate_def gets_def bnd_def ret_def Let_def split: prod.splits option.splits)
  ultimately show ?thesis ..
qed

text \<open>A partner with two sites, both down, all of it in workspace 2.\<close>

definition partner_site_of :: "nat \<Rightarrow> string \<Rightarrow> site" where
  "partner_site_of pk name = \<lparr>s_pk = pk, s_workspace = 2, s_project = 1, s_name = name, s_domain = name, s_exposure = Public,
     s_environment = Production, s_deploy_strategy = BlueGreen, s_deploy_policy = PolicyAuto, s_deploy_window_cron = [],
     s_maintenance_until = None, s_reconcile_enabled = True, s_liveness_path = [], s_readiness_path = [],
     s_warmup_timeout_s = 30, s_config_stale = False, s_scale_ready = False, s_primary_target = None, s_dns_zone = None,
     s_proxied = False, s_edge_owner = HostCaddy, s_preview_of = None, s_preview_ref = []\<rparr>"

definition partner_outage :: hub where
  "partner_outage = empty_hub\<lparr>
     sites := [partner_site_of 1 ''a'', partner_site_of 2 ''b''],
     partners := [\<lparr>p_pk = 7, p_workspace = 2, p_slug = ''acme'', p_name = ''Acme'', p_pubkey_current = [], p_pubkey_previous = [],
       p_max_sites = 5, p_deploys_per_day = 5, p_domains = 5, p_destination_order = JArr [], p_suspended = False, p_webhook_url = []\<rparr>],
     partner_sites := [\<lparr>ps_partner = 7, ps_site = 1, ps_tenant_ref = ''t1''\<rparr>, \<lparr>ps_partner = 7, ps_site = 2, ps_tenant_ref = ''t2''\<rparr>],
     alert_states := [(new_state 2 ''site-down:a'')\<lparr>as_opened_at := Some 0\<rparr>, (new_state 2 ''site-down:b'')\<lparr>as_opened_at := Some 0\<rparr>]\<rparr>"

theorem other_workspace_outages_unseen_witness:
  "list_all is_open (alert_states partner_outage) \<and> length (partner_sites partner_outage) = 2 \<and>
   map as_workspace (alert_states partner_outage) = [2, 2] \<and>
   maybe_file_partner_aggregate calm_world ''site:b'' partner_outage = (Inr (), partner_outage)"
proof -
  have "\<forall>r\<in>set (alert_states partner_outage). as_workspace r \<noteq> default_ws"
    by (simp add: partner_outage_def new_state_def default_ws_def)
  moreover have "list_all is_open (alert_states partner_outage)" "length (partner_sites partner_outage) = 2"
    "map as_workspace (alert_states partner_outage) = [2, 2]"
    by (simp_all add: partner_outage_def new_state_def is_open_def)
  ultimately show ?thesis
    using other_workspace_outages_unseen [of partner_outage "''site:b''" calm_world] by blast
qed

end
