(* ===== verification/Scaling_Facts.thy ===== *)
theory Scaling_Facts
  imports Scaling Alert_Facts
begin

text \<open>
  What the scale-out evaluator guarantees: the streak over minute buckets is equivalent to a description of
  sustained pressure that does not mention buckets, and a site under attack or owned by a partner ends an
  evaluation without an open proposal.
\<close>

section \<open>The newest sample of a minute\<close>

definition latest_in :: "host_metric list \<Rightarrow> time \<Rightarrow> host_metric option" where
  "latest_in xs k = (let ys = filter (\<lambda>x. minute_of (m_ts x) = k) xs in
     if ys = [] then None else Some (last (filter (\<lambda>x. m_ts x = Max (set (map m_ts ys))) ys)))"

definition newer :: "host_metric \<Rightarrow> host_metric option \<Rightarrow> host_metric" where
  "newer x best = (case best of None \<Rightarrow> x | Some y \<Rightarrow> if m_ts x \<ge> m_ts y then x else y)"

lemma last_max_snoc:
  fixes f :: "'a \<Rightarrow> int" and x :: 'a
  assumes "ys \<noteq> []"
  defines "y \<equiv> last (filter (\<lambda>x. f x = Max (set (map f ys))) ys)"
  shows "f y = Max (set (map f ys))"
    "last (filter (\<lambda>z. f z = Max (set (map f (ys @ [x])))) (ys @ [x])) = (if f x \<ge> f y then x else y)"
proof -
  let ?M = "Max (set (map f ys))"
  have "?M \<in> set (map f ys)" using assms(1) by (intro Max_in) auto
  then have "filter (\<lambda>x. f x = ?M) ys \<noteq> []" by (auto simp: filter_empty_conv)
  then show y: "f y = ?M" unfolding y_def using last_in_set by fastforce
  have M: "Max (set (map f (ys @ [x]))) = max (f x) ?M"
    using assms(1) by (simp add: Max_insert)
  show "last (filter (\<lambda>z. f z = Max (set (map f (ys @ [x])))) (ys @ [x])) = (if f x \<ge> f y then x else y)"
  proof (cases "f x \<ge> f y")
    case True
    then show ?thesis unfolding M y by (simp add: max_def)
  next
    case False
    then show ?thesis unfolding M y by (simp add: max_def y_def)
  qed
qed

lemma latest_in_snoc:
  "latest_in (xs @ [x]) k = (if minute_of (m_ts x) = k then Some (newer x (latest_in xs k)) else latest_in xs k)"
  using last_max_snoc(2) [of "filter (\<lambda>x. minute_of (m_ts x) = k) xs" m_ts x]
  by (cases "filter (\<lambda>x. minute_of (m_ts x) = k) xs = []") (simp_all add: latest_in_def newer_def Let_def)

lemma latest_in_Nil [simp]: "latest_in [] k = None"
  by (simp add: latest_in_def)

lemma latest_in_None: "latest_in xs k = None \<longleftrightarrow> k \<notin> (\<lambda>x. minute_of (m_ts x)) ` set xs"
  by (auto simp: latest_in_def Let_def filter_empty_conv)

lemma latest_in_mem: "latest_in xs k = Some x \<Longrightarrow> x \<in> set xs"
proof (induction xs rule: rev_induct)
  case Nil
  then show ?case by (simp add: latest_in_def)
next
  case (snoc y ys)
  then show ?case by (auto simp: latest_in_snoc newer_def split: if_splits option.splits)
qed


section \<open>The buckets\<close>

definition buckets_of :: "host_metric list \<Rightarrow> (time \<times> host_metric) list" where
  "buckets_of xs = foldl (\<lambda>bs x. bucket_put x bs) [] xs"

lemma bucket_put_map: "map_of (bucket_put x bs) k =
    (if minute_of (m_ts x) = k then Some (newer x (map_of bs k)) else map_of bs k)"
  by (induction bs) (auto simp: newer_def)

lemma bucket_put_keys: "fst ` set (bucket_put x bs) = insert (minute_of (m_ts x)) (fst ` set bs)"
  unfolding dom_map_of_conv_image_fst [symmetric] by (auto simp: dom_def bucket_put_map)

lemma bucket_put_distinct: "distinct (map fst bs) \<Longrightarrow> distinct (map fst (bucket_put x bs))"
proof (induction bs)
  case (Cons b bs)
  then show ?case by (cases b) (auto simp: bucket_put_keys)
qed simp

lemma buckets_of_map: "map_of (buckets_of xs) = latest_in xs"
proof
  show "map_of (buckets_of xs) k = latest_in xs k" for k
    by (induction xs rule: rev_induct) (simp_all add: buckets_of_def latest_in_snoc bucket_put_map)
qed

lemma buckets_of_distinct: "distinct (map fst (buckets_of xs))"
  by (induction xs rule: rev_induct) (simp_all add: buckets_of_def bucket_put_distinct)

lemma minute_buckets_eq: "minute_buckets samples now = sort_key fst (buckets_of (filter (in_window now) samples))"
proof -
  have "foldl (\<lambda>bs x. if in_window now x then bucket_put x bs else bs) acc samples =
    foldl (\<lambda>bs x. bucket_put x bs) acc (filter (in_window now) samples)" for acc
    by (induction samples arbitrary: acc) auto
  then show ?thesis by (simp add: minute_buckets_def buckets_of_def)
qed


section \<open>The streak\<close>

text \<open>A strictly descending list of multiples of \<open>m\<close> begins with a run exactly when it contains the run.\<close>

lemma descending_run:
  fixes m :: int
  assumes "0 < m" "sorted_wrt (>) (x # xs)" "\<forall>y\<in>set (x # xs). m dvd y"
  shows "(\<forall>j<n. x - int j * m \<in> set (x # xs)) \<longleftrightarrow> take n (x # xs) = map (\<lambda>j. x - int j * m) [0..<n]"
  using assms(2,3)
proof (induction n arbitrary: x xs)
  case 0
  then show ?case by simp
next
  case (Suc n)
  have run: "map (\<lambda>j. x - int j * m) [0..<Suc n] = x # map (\<lambda>j. (x - m) - int j * m) [0..<n]" for n
    by (simp add: upt_conv_Cons map_Suc_upt [symmetric] algebra_simps del: upt_Suc)
  show ?case
  proof (cases n)
    case 0
    then show ?thesis by simp
  next
    case n: (Suc k)
    have below: "y \<le> x - m" if "y \<in> set xs" for y
    proof -
      have "y < x" "m dvd x - y" using that Suc.prems by auto
      then show ?thesis using zdvd_imp_le [of m "x - y"] by simp
    qed
    have left: "(\<forall>j<Suc n. x - int j * m \<in> set (x # xs)) \<longleftrightarrow> (\<forall>j<n. (x - m) - int j * m \<in> set xs)"
    proof -
      have "x - int (Suc j) * m \<noteq> x" for j using assms(1) by simp
      then show ?thesis by (auto simp: All_less_Suc2 algebra_simps)
    qed
    show ?thesis
    proof (cases xs)
      case Nil
      then show ?thesis unfolding left run using n by (auto simp: upt_conv_Cons)
    next
      case (Cons y ys)
      have IH: "(\<forall>j<n. y - int j * m \<in> set (y # ys)) \<longleftrightarrow> take n (y # ys) = map (\<lambda>j. y - int j * m) [0..<n]"
        using Suc.prems Cons by (intro Suc.IH) simp_all
      show ?thesis
      proof (cases "y = x - m")
        case True
        then show ?thesis unfolding left run using IH Cons by simp
      next
        case False
        then have "x - m \<notin> set xs" using below [of y] Suc.prems(1) Cons by fastforce
        then have "\<not> (\<forall>j<n. (x - m) - int j * m \<in> set xs)" using n by (auto intro!: exI [of _ 0])
        moreover have "take n xs \<noteq> map (\<lambda>j. (x - m) - int j * m) [0..<n]"
          using False n Cons by (simp add: upt_conv_Cons del: upt_Suc)
        ultimately show ?thesis unfolding left run by simp
      qed
    qed
  qed
qed

text \<open>
  The reference: the five minutes up to the newest one with a sample in the window all have a sample, the
  newest sample is fresh, and the latest samples of the five minutes are all over the same threshold.
\<close>

definition reference_axis :: "host_metric list \<Rightarrow> time \<Rightarrow> axis option" where
  "reference_axis samples now = (let ys = filter (in_window now) samples;
       top = Max (set (map (\<lambda>x. minute_of (m_ts x)) ys));
       five = map (\<lambda>j. latest_in ys (top - int j * minutes 1)) [0..<5] in
     if ys = [] \<or> None \<in> set five then None
     else if now - m_ts (the (hd five)) > seconds 120 then None
     else if list_all (\<lambda>x. ram_over (the x)) five then Some Ram
     else if list_all (\<lambda>x. load_over (the x)) five then Some Load
     else None)"

lemma minute_of_dvd: "minutes 1 dvd minute_of t"
  by (simp add: minute_of_def minus_mod_eq_mult_div)

lemma minutes_pos: "0 < minutes 1"
  by (simp add: time_defs)

lemma consecutive_five: "consecutive [a, b, c, d, e] \<longleftrightarrow>
    [e, d, c, b, a] = map (\<lambda>j. e - int j * minutes 1) [0..<5]"
  by (auto simp: upt_rec algebra_simps)

text \<open>The sorted buckets: their keys, newest first, and their samples.\<close>

lemma sorted_buckets:
  fixes ys :: "host_metric list"
  defines "S \<equiv> sort_key fst (buckets_of ys)"
  shows "sorted_wrt (>) (rev (map fst S))" "set (map fst S) = (\<lambda>x. minute_of (m_ts x)) ` set ys"
    "\<And>k x. (k, x) \<in> set S \<longleftrightarrow> latest_in ys k = Some x"
proof -
  have d: "distinct (map fst S)" using buckets_of_distinct [of ys] unfolding S_def
    by (metis distinct_map distinct_sort set_sort)
  have "sorted (map fst S)" by (simp add: S_def)
  with d have "sorted_wrt (<) (map fst S)" by (simp add: strict_sorted_iff)
  then show "sorted_wrt (>) (rev (map fst S))" by (simp add: sorted_wrt_rev)
  show pairs: "(k, x) \<in> set S \<longleftrightarrow> latest_in ys k = Some x" for k x
    using buckets_of_distinct [of ys] buckets_of_map [of ys] unfolding S_def by (metis map_of_eq_Some_iff set_sort)
  show "set (map fst S) = (\<lambda>x. minute_of (m_ts x)) ` set ys"
    using pairs latest_in_None [of ys] by (auto simp: image_iff) (metis fst_conv not_Some_eq)+
qed

text \<open>When the newest five buckets form a run, and what they hold then.\<close>

lemma trailing_run:
  fixes ys :: "host_metric list"
  defines "S \<equiv> sort_key fst (buckets_of ys)" and "newest \<equiv> Max (set (map (\<lambda>x. minute_of (m_ts x)) ys))"
  defines "five \<equiv> map (\<lambda>j. latest_in ys (newest - int j * minutes 1)) [0..<5]"
  assumes "ys \<noteq> []"
  shows "None \<notin> set five \<longleftrightarrow> 5 \<le> length S \<and> consecutive (map fst (drop (length S - 5) S))"
    "None \<notin> set five \<Longrightarrow> map Some (map snd (rev (drop (length S - 5) S))) = five"
proof -
  note S = sorted_buckets [where ys = ys, folded S_def]
  have "S \<noteq> []" using S(2) assms(4) by auto
  then obtain b bs where rS: "rev S = b # bs" by (cases "rev S") auto
  let ?r = "map fst (b # bs)"
  have r: "?r = rev (map fst S)" by (simp add: rS [symmetric] rev_map)
  have setr: "set ?r = (\<lambda>x. minute_of (m_ts x)) ` set ys" unfolding r using S(2) by simp
  have desc: "sorted_wrt (>) ?r" unfolding r by (rule S(1))
  have "Max (set ?r) = fst b" using desc by (intro Max_eqI) auto
  then have newest: "newest = fst b" by (simp add: newest_def setr [symmetric])
  have dvd: "\<forall>y\<in>set ?r. minutes 1 dvd y" unfolding setr by (auto simp: minute_of_dvd)
  have "None \<notin> set five \<longleftrightarrow> (\<forall>j<5. latest_in ys (fst b - int j * minutes 1) \<noteq> None)"
    by (auto simp: five_def newest image_iff) (metis atLeastLessThan_iff zero_le not_None_eq)
  also have "\<dots> \<longleftrightarrow> (\<forall>j<5. fst b - int j * minutes 1 \<in> set ?r)" unfolding setr by (simp add: latest_in_None)
  finally have run: "None \<notin> set five \<longleftrightarrow> take 5 ?r = map (\<lambda>j. fst b - int j * minutes 1) [0..<5]"
    using descending_run [OF minutes_pos, of "fst b" "map fst bs" 5] desc dvd by simp
  have tail: "drop (length S - 5) S = rev (take 5 (b # bs))" by (simp add: rev_take rS [symmetric])
  show "None \<notin> set five \<longleftrightarrow> 5 \<le> length S \<and> consecutive (map fst (drop (length S - 5) S))"
  proof (cases "5 \<le> length S")
    case True
    moreover have "length (b # bs) = length S" by (metis rS length_rev)
    ultimately obtain c d e f where take: "take 5 (b # bs) = [b, c, d, e, f]"
      by (cases bs; cases "tl bs"; cases "tl (tl bs)"; cases "tl (tl (tl bs))") auto
    then have "map fst (drop (length S - 5) S) = [fst f, fst e, fst d, fst c, fst b]" unfolding tail by simp
    then show ?thesis unfolding run consecutive_five [of _ _ _ _ "fst b", symmetric] take_map take using True
      by (simp add: consecutive_five del: consecutive.simps)
  next
    case False
    moreover have "length (b # bs) = length S" by (metis rS length_rev)
    ultimately have "length (take 5 ?r) \<noteq> 5" by simp
    then have "take 5 ?r \<noteq> map (\<lambda>j. fst b - int j * minutes 1) [0..<5]" by (metis length_map length_upt diff_zero)
    then show ?thesis unfolding run using False by simp
  qed
  show "map Some (map snd (rev (drop (length S - 5) S))) = five" if "None \<notin> set five"
  proof -
    have "map Some (map snd (take 5 (b # bs))) = map (\<lambda>p. latest_in ys (fst p)) (take 5 (b # bs))"
    proof -
      have "Some (snd p) = latest_in ys (fst p)" if "p \<in> set (take 5 (b # bs))" for p
        using in_set_takeD [OF that] S(3) [of "fst p" "snd p"] rS by (metis prod.collapse set_rev)
      then show ?thesis by simp
    qed
    also have "\<dots> = map (latest_in ys) (take 5 ?r)" by (simp add: take_map comp_def del: take_Suc_Cons)
    also have "\<dots> = five" using that [unfolded run] by (simp add: five_def newest comp_def)
    finally show ?thesis unfolding tail by simp
  qed
qed

text \<open>
  C40: The streak decision over minute buckets finds an overflow axis exactly when the description without
  buckets does: the newest sample in the window is at most two minutes old, the five minutes up to its own
  all have samples, and the last of the newest samples of each of the five exceeds the same threshold, memory
  before load.
\<close>

theorem pressure_matches_reference: "overflow_axis samples now = reference_axis samples now"
proof (cases "filter (in_window now) samples = []")
  case True
  then show ?thesis
    by (simp add: overflow_axis_def reference_axis_def minute_buckets_eq buckets_of_def CONSECUTIVE_MINUTES_def Let_def)
next
  case False
  let ?ys = "filter (in_window now) samples"
  let ?S = "sort_key fst (buckets_of ?ys)" and ?newest = "Max (set (map (\<lambda>x. minute_of (m_ts x)) ?ys))"
  let ?trail = "drop (length ?S - 5) ?S" and ?five = "map (\<lambda>j. latest_in ?ys (?newest - int j * minutes 1)) [0..<5]"
  note run = trailing_run [OF False]
  note defs = overflow_axis_def reference_axis_def minute_buckets_eq CONSECUTIVE_MINUTES_def MAX_SAMPLE_GAP_S_def
  show ?thesis
  proof (cases "None \<in> set ?five")
    case True
    with run(1) have "length ?S < 5 \<or> \<not> consecutive (map fst ?trail)" by linarith
    with True False show ?thesis unfolding defs Let_def by auto
  next
    case none: False
    with run(1) have len: "5 \<le> length ?S" and cons: "consecutive (map fst ?trail)" by blast+
    have five: "?five = map Some (map snd (rev ?trail))" using run(2) [OF none] by simp
    have "?S \<noteq> []" using len by (metis length_0_conv not_numeral_le_zero)
    then have "(fst (last ?S), snd (last ?S)) \<in> set ?S" using last_in_set by (metis prod.collapse)
    then have "snd (last ?S) \<in> set ?ys" using sorted_buckets(3) latest_in_mem by blast
    then have gap: "\<not> now - m_ts (snd (last ?S)) < 0" by (simp add: in_window_def)
    have trail: "?trail \<noteq> []" "last ?trail = last ?S" using len by (auto simp: last_drop)
    then have hd: "the (hd ?five) = snd (last ?S)" unfolding five by (simp add: hd_map hd_rev)
    have all: "list_all (\<lambda>x. p (the x)) ?five = list_all p (map snd ?trail)" for p
      unfolding five by (simp add: list_all_iff)
    show ?thesis unfolding defs Let_def using False none len cons gap by (simp only: hd all) simp
  qed
qed


section \<open>Retracting a proposal\<close>

definition retracted :: "finding_row \<Rightarrow> finding_row" where
  "retracted row = (if f_state row = Open \<or> f_state row = Acked then row\<lparr>f_state := Resolved\<rparr> else row)"

text \<open>Saving a row of the table under its key replaces exactly the entry of that key.\<close>

lemma finding_at_saved:
  assumes "findings_wf s" "finding_at s ws fp = Some row" "finding_key row' = finding_key row"
  shows "finding_at (s\<lparr>findings := upd_rows (\<lambda>r. f_pk r = f_pk row) (\<lambda>_. row') (findings s)\<rparr>) ws' fp' =
    (if (ws', fp') = (ws, fp) then Some row' else finding_at s ws' fp')"
proof -
  note row = finding_at_key [OF assms(2)]
  have key: "finding_key row = (ws, fp)" using row by (simp add: finding_key_def)
  have pk: "(f_pk r = f_pk row) = (finding_key r = (ws, fp))" if "r \<in> set (findings s)" for r
    using assms(1) row that by (auto simp: findings_wf_def distinct_map inj_on_def finding_key_def)
  have upd: "upd_rows (\<lambda>r. f_pk r = f_pk row) (\<lambda>_. row') (findings s) =
      upd_rows (\<lambda>r. finding_key r = (ws, fp)) (\<lambda>r. if finding_key r = (ws, fp) then row' else r) (findings s)"
    using pk by (auto simp: upd_rows_def)
  have "find (\<lambda>r. finding_key r = (ws, fp)) (findings s) = Some row" using assms(2) by (simp add: finding_at_def)
  then show ?thesis
    using key assms(3) by (auto simp: finding_at_def upd find_upd_rows_key option.map_ident)
qed

lemma retract_kind_effect:
  assumes "stream_wired s" "findings_wf s"
  obtains t where "retract_kind w site kind s = (Inr (), t)" "stream_wired t" "findings_wf t"
    "\<forall>ws fp. finding_at t ws fp = (if (ws, fp) = (s_workspace site, scale_fp kind site)
       then map_option retracted (finding_at s ws fp) else finding_at s ws fp)"
    "map finding_key (findings t) = map finding_key (findings s)" "pages t = pages s" "mails t = mails s" "calls t = calls s"
proof (cases "\<exists>row. finding_at s (s_workspace site) (scale_fp kind site) = Some row \<and> (f_state row = Open \<or> f_state row = Acked)")
  case False
  then have "retract_kind w site kind s = (Inr (), s)"
    by (auto simp: retract_kind_def gets_def bnd_def ret_def when_do_def split: option.splits)
  with False assms that [of s] show thesis by (auto simp: retracted_def map_option_case split: option.splits)
next
  case True
  then obtain row where row: "finding_at s (s_workspace site) (scale_fp kind site) = Some row" "f_state row = Open \<or> f_state row = Acked"
    by blast
  let ?row = "row\<lparr>f_state := Resolved\<rparr>"
  let ?s = "s\<lparr>findings := upd_rows (\<lambda>r. f_pk r = f_pk row) (\<lambda>_. ?row) (findings s)\<rparr>"
  have "Resolved \<in> set (allowed (f_state row))" using row(2) by auto
  from transition_ok [OF assms(1) this] obtain t where
    t: "resolve w row None SrcSystem s = (Inr ?row, t)" "announced 1 ?s t"
    unfolding resolve_def by blast
  have j: "beside_journal t = beside_journal ?s" using t(2) by (simp add: announced_def)
  have fs: "findings t = findings ?s" "stream_wired t = stream_wired ?s" "calls t = calls ?s"
    using beside_journal_fields [OF j] by simp_all
  have pm: "pages t = pages s" "mails t = mails s"
    using arg_cong [OF j, of pages] arg_cong [OF j, of mails] by (simp_all add: beside_journal_def)
  have key: "finding_key ?row = finding_key row" by (simp add: finding_key_def)
  have at: "finding_at t ws fp = finding_at ?s ws fp" for ws fp by (simp add: finding_at_def fs)
  have mem: "row \<in> set (findings s)" using finding_at_key [OF row(1)] by blast
  have wf: "findings_wf t"
    using saved_wf [OF assms(2), of row ?row] mem key fs by (auto simp: findings_wf_def known_row_def)
  have keys: "map finding_key (findings t) = map finding_key (findings s)"
    using upd_rows_pk_wf(2) [of "findings s" row ?row] assms(2) mem key fs by (simp add: findings_wf_def)
  have "retract_kind w site kind s = (Inr (), t)"
    using row t(1) by (simp add: retract_kind_def gets_def bnd_def ret_def when_do_def)
  moreover have "finding_at t ws fp = (if (ws, fp) = (s_workspace site, scale_fp kind site)
       then map_option retracted (finding_at s ws fp) else finding_at s ws fp)" for ws fp
    unfolding at finding_at_saved [OF assms(2) row(1) key] using row by (simp add: retracted_def)
  ultimately show thesis using that wf keys pm fs assms(1) by simp
qed

text \<open>
  A site whose zone has an engaged attack playbook, or that belongs to a partner, is never proposed for
  scaling: its evaluation ends without a result, files and pages nothing, runs no command, leaves every other
  finding alone, and withdraws an open or acknowledged proposal of the site, cheap or not.
\<close>

theorem attack_never_scales:
  assumes "refuse_if_attack s site \<noteq> None" "stream_wired s" "findings_wf s"
  shows "\<exists>t. evaluate_site w site now s = (Inr None, t) \<and>
    (\<forall>ws fp. finding_at t ws fp = (if ws = s_workspace site \<and> (fp = scale_fp CHEAP_KIND site \<or> fp = scale_fp KIND site)
       then map_option retracted (finding_at s ws fp) else finding_at s ws fp)) \<and>
    map finding_key (findings t) = map finding_key (findings s) \<and> pages t = pages s \<and> mails t = mails s \<and> calls t = calls s"
proof -
  obtain u where u: "retract_kind w site CHEAP_KIND s = (Inr (), u)" "stream_wired u" "findings_wf u"
    "\<forall>ws fp. finding_at u ws fp = (if (ws, fp) = (s_workspace site, scale_fp CHEAP_KIND site)
       then map_option retracted (finding_at s ws fp) else finding_at s ws fp)"
    "map finding_key (findings u) = map finding_key (findings s)" "pages u = pages s" "mails u = mails s" "calls u = calls s"
    by (rule retract_kind_effect [OF assms(2,3), where w = w and site = site and kind = CHEAP_KIND])
  obtain t where t: "retract_kind w site KIND u = (Inr (), t)" "stream_wired t" "findings_wf t"
    "\<forall>ws fp. finding_at t ws fp = (if (ws, fp) = (s_workspace site, scale_fp KIND site)
       then map_option retracted (finding_at u ws fp) else finding_at u ws fp)"
    "map finding_key (findings t) = map finding_key (findings u)" "pages t = pages u" "mails t = mails u" "calls t = calls u"
    by (rule retract_kind_effect [OF u(2,3), where w = w and site = site and kind = KIND])
  have "scale_fp CHEAP_KIND site \<noteq> scale_fp KIND site" by (simp add: scale_fp_def CHEAP_KIND_def KIND_def)
  moreover have "evaluate_site w site now s = (Inr None, t)"
    using assms(1) u(1) t(1) by (auto simp: evaluate_site_def retract_def gets_def bnd_def andThen_def ret_def)
  ultimately show ?thesis using u t by auto
qed

text \<open>A partner's site with an open proposal.\<close>

definition proposal_row :: finding_row where
  "proposal_row = down_row\<lparr>f_workspace := 2, f_severity := P2, f_state := Open, f_fingerprint := ''scale-out-proposal:1''\<rparr>"

theorem attack_never_scales_witness:
  "\<exists>s t. refuse_if_attack s (partner_site_of 1 ''a'') \<noteq> None \<and> stream_wired s \<and> findings_wf s \<and>
     finding_at s 2 ''scale-out-proposal:1'' = Some proposal_row \<and>
     evaluate_site calm_world (partner_site_of 1 ''a'') 0 s = (Inr None, t) \<and>
     finding_at t 2 ''scale-out-proposal:1'' = Some (proposal_row\<lparr>f_state := Resolved\<rparr>)"
proof -
  let ?s = "partner_outage\<lparr>findings := [proposal_row]\<rparr>" and ?site = "partner_site_of 1 ''a''"
  have fp: "scale_fp KIND ?site = ''scale-out-proposal:1''"
    by code_simp
  have ws: "s_workspace ?site = 2" by (simp add: partner_site_of_def)
  have pre: "refuse_if_attack ?s ?site \<noteq> None" "stream_wired ?s" "findings_wf ?s"
    by (simp_all add: refuse_if_attack_def engaged_finding_def refuse_if_partner_overflow_def partner_outage_def partner_site_of_def
        findings_wf_def)
  have at: "finding_at ?s 2 ''scale-out-proposal:1'' = Some proposal_row"
    by (simp add: finding_at_def finding_key_def proposal_row_def down_row_def)
  from attack_never_scales [OF pre, of calm_world 0] obtain t where
    "evaluate_site calm_world ?site 0 ?s = (Inr None, t)"
    "finding_at t 2 ''scale-out-proposal:1'' = map_option retracted (finding_at ?s 2 ''scale-out-proposal:1'')"
    using fp ws by auto
  then show ?thesis using pre at by (intro exI [of _ ?s] exI [of _ t]) (simp add: retracted_def proposal_row_def)
qed

end
