(* ===== verification/Uptime.thy ===== *)
theory Uptime
  imports Antinoise Cycle_Lock
begin

text \<open>
  \<open>monitor/uptime.py\<close>: the cycle that probes every site once over HTTP, records state changes and feeds the
  hysteresis. The HTTP seam is an argument: what the \<open>n\<close>-th probe of a cycle answers for an address and a host
  header.
\<close>

section \<open>Probe addresses\<close>

datatype http_answer = Status int | NoStatus | Unreachable string | ProbeFailed string
  \<comment> \<open>a status, no status, the class of an \<open>OSError\<close>, the class of any other exception\<close>

type_synonym http_get = "nat \<Rightarrow> string \<Rightarrow> string option \<Rightarrow> http_answer"

text \<open>The target is the one the query joined.\<close>

definition probe_url :: "site \<Rightarrow> target \<Rightarrow> string \<times> string option" where
  "probe_url site t = (let path = (if s_liveness_path site = [] then ''/healthz'' else s_liveness_path site) in
     if s_exposure site = MeshOnly
     then (''http://'' @ t_host t @ path, if s_domain site = [] then None else Some (s_domain site))
     else (''https://'' @ s_domain site @ path, None))"

definition probe_sites :: "hub \<Rightarrow> (site \<times> target) list" where
  "probe_sites s = List.map_filter (\<lambda>r. case Option.bind (s_primary_target r) (target_by_pk s) of
       Some t \<Rightarrow> if t_status t = TgReady then Some (r, t) else None
     | None \<Rightarrow> None) (sort_key s_pk (sites s))"


section \<open>The websocket metric\<close>

definition WS_TICK_KEYS :: "string list" where
  "WS_TICK_KEYS = [''last_tick_age_s'', ''last_tick_age'', ''tick_age_s'']"

definition WS_CONN_KEYS :: "string list" where
  "WS_CONN_KEYS = [''connections'', ''connection_count'', ''active_connections'']"

definition first_key :: "(string \<times> json) list list \<Rightarrow> string list \<Rightarrow> json" where
  "first_key pools keys = (case concat (map (\<lambda>pool. List.map_filter (map_of pool) keys) pools) of
     [] \<Rightarrow> JNull | v # _ \<Rightarrow> v)"

text \<open>Tick age and connection count, when the payload has either.\<close>

definition ws_card_metric :: "json option \<Rightarrow> (json \<times> json) option" where
  "ws_card_metric entry = (case entry of
     Some (JObj d) \<Rightarrow>
       (let pools = d # (case jget d ''checks'' of JObj c \<Rightarrow> [c] | _ \<Rightarrow> []);
            tick = first_key pools WS_TICK_KEYS; conns = first_key pools WS_CONN_KEYS in
        if tick = JNull \<and> conns = JNull then None else Some (tick, conns))
   | _ \<Rightarrow> None)"

text \<open>\<open>(x or {}).get(k)\<close>: raises on a value that is neither falsy nor a dict.\<close>

definition get_of :: "json \<Rightarrow> string \<Rightarrow> exn + json" where
  "get_of v k = (if \<not> truthy v then Inr JNull
     else case v of JObj d \<Rightarrow> Inr (jget d k) | _ \<Rightarrow> Inl (OtherError ''AttributeError''))"

definition collected_healthz_entry :: "site \<Rightarrow> target \<Rightarrow> exn + json option" where
  "collected_healthz_entry site t = (case get_of (t_collect_payload t) ''healthz'' of
     Inl e \<Rightarrow> Inl e
   | Inr healthz \<Rightarrow> (case get_of healthz ''checks'' of
       Inl e \<Rightarrow> Inl e
     | Inr checks \<Rightarrow>
         if \<not> truthy checks then Inr None
         else case checks of
           JObj d \<Rightarrow> Inr (map_option snd (find (\<lambda>(name, entry). is_obj entry \<and> prefix (''site-'' @ s_name site) name) (sort_key fst d)))
         | _ \<Rightarrow> Inl (OtherError ''AttributeError'')))"


section \<open>Recording a change\<close>

text \<open>The newest event of an entity: the latest instant, the highest key among equals.\<close>

definition newer_event :: "uptime_event \<Rightarrow> uptime_event \<Rightarrow> bool" where
  "newer_event a b = (ue_at a > ue_at b \<or> (ue_at a = ue_at b \<and> ue_pk a > ue_pk b))"

definition last_event :: "hub \<Rightarrow> string \<Rightarrow> string \<Rightarrow> uptime_event option" where
  "last_event s entity kind = foldl (\<lambda>best e. case best of None \<Rightarrow> Some e | Some b \<Rightarrow> if newer_event e b then Some e else Some b)
     None (filter (\<lambda>e. ue_entity e = entity \<and> ue_kind e = kind) (uptime_events s))"

definition record_transition :: "world \<Rightarrow> string \<Rightarrow> string \<Rightarrow> string \<Rightarrow> time option \<Rightarrow> bool act" where
  "record_transition w entity kind st moment = bnd (gets (\<lambda>s. last_event s entity kind)) (\<lambda>last.
     if (case last of Some e \<Rightarrow> ue_state e = st | None \<Rightarrow> False) then ret False
     else bnd (case moment of Some t \<Rightarrow> ret t | None \<Rightarrow> timezone_now w) (\<lambda>t.
       andThen (modify (\<lambda>s. s\<lparr>uptime_events := uptime_events s @ [\<lparr>ue_pk = next_pk (map ue_pk (uptime_events s)),
         ue_entity = entity, ue_kind = kind, ue_state = st, ue_at = t\<rparr>]\<rparr>)) (ret True)))"


section \<open>The cycle\<close>

datatype probe_row = ErrorRow string string
  | ProbeRow string bool "int option" string bool string "(json \<times> json) option"
    \<comment> \<open>entity, ok, status, state, transition, detail, websocket metric\<close>

definition PROBE_LOCK_ID :: string where "PROBE_LOCK_ID = ''probe-uptime-cycle''"
definition PROBE_HOLDER :: string where "PROBE_HOLDER = ''probe-uptime''"

definition answer_ok :: "http_answer \<Rightarrow> bool" where
  "answer_ok a = (case a of Status n \<Rightarrow> 200 \<le> n \<and> n < 400 | _ \<Rightarrow> False)"

text \<open>One completed probe: record, observe at the reading of the clock, and the row of the report.\<close>

definition finish_probe :: "world \<Rightarrow> time option \<Rightarrow> site \<Rightarrow> target \<Rightarrow> http_answer \<Rightarrow> probe_row act" where
  "finish_probe w now site t answer =
     (let entity = ''site:'' @ s_name site; ok = answer_ok answer; st = (if ok then ''up'' else ''down'') in
      bnd (record_transition w entity ''http'' st now) (\<lambda>changed.
      bnd (timezone_now w) (\<lambda>clock.
      andThen (observe w (''site-down:'' @ s_name site) ok (Some (s_workspace site)) clock)
      (case collected_healthz_entry site t of
         Inl e \<Rightarrow> throw e
       | Inr entry \<Rightarrow> ret (ProbeRow entity ok (case answer of Status n \<Rightarrow> Some n | _ \<Rightarrow> None) st changed
           (case answer of Unreachable d \<Rightarrow> d | _ \<Rightarrow> []) (ws_card_metric entry))))))"

definition probe_one :: "world \<Rightarrow> time option \<Rightarrow> site \<Rightarrow> target \<Rightarrow> http_answer \<Rightarrow> probe_row act" where
  "probe_one w now site t answer = (case answer of
     ProbeFailed name \<Rightarrow>
       bnd (audit w ((audit_args ''uptime-probe-error'' (Some (OSite site)))\<lparr>ac_severity := SevWarning,
         ac_detail := [(''error'', JStr name)]\<rparr>)) (\<lambda>_. ret (ErrorRow (''site:'' @ s_name site) name))
   | _ \<Rightarrow> finish_probe w now site t answer)"

fun probe_all :: "world \<Rightarrow> http_get \<Rightarrow> time option \<Rightarrow> nat \<Rightarrow> (site \<times> target) list \<Rightarrow> probe_row list act" where
  "probe_all w get now n [] = ret []"
| "probe_all w get now n ((site, t) # rest) =
     (let (url, host) = probe_url site t in
      bnd (probe_one w now site t (get n url host)) (\<lambda>row.
      bnd (probe_all w get now (Suc n) rest) (\<lambda>rows. ret (row # rows))))"

record cycle_report =
  cr_completed :: bool
  cr_skipped :: bool
  cr_errors :: nat
  cr_results :: "probe_row list"

fun is_error_row :: "probe_row \<Rightarrow> bool" where
  "is_error_row (ErrorRow _ _) = True"
| "is_error_row _ = False"

definition run_cycle :: "world \<Rightarrow> http_get \<Rightarrow> time option \<Rightarrow> cycle_report act" where
  "run_cycle w get now = bnd (gets probe_sites) (\<lambda>rows.
     bnd (probe_all w get now 0 rows) (\<lambda>results.
     let errors = length (filter is_error_row results) in
     ret \<lparr>cr_completed = (errors = 0), cr_skipped = False, cr_errors = errors, cr_results = results\<rparr>))"

definition acquire_probe_lock :: "world \<Rightarrow> operation_lock option act" where
  "acquire_probe_lock w = acquire_guard w PROBE_LOCK_ID PROBE_HOLDER ''uptime-cycle-lock-broken''"

definition skip_cycle :: "world \<Rightarrow> cycle_report act" where
  "skip_cycle w = bnd (audit w ((audit_args ''uptime-cycle-skipped'' None)\<lparr>ac_severity := SevWarning,
       ac_detail := [(''reason'', JStr ''cycle-lock-held'')]\<rparr>)) (\<lambda>_.
     ret \<lparr>cr_completed = False, cr_skipped = True, cr_errors = 0, cr_results = []\<rparr>)"

definition probe_cycle :: "world \<Rightarrow> http_get \<Rightarrow> time option \<Rightarrow> cycle_report act" where
  "probe_cycle w get now = bnd (acquire_probe_lock w) (\<lambda>got. case got of
     None \<Rightarrow> skip_cycle w
   | Some _ \<Rightarrow> try_finally (run_cycle w get now) (release_guard PROBE_LOCK_ID PROBE_HOLDER))"

end
