(* ===== verification/Cycle_Facts.thy ===== *)
theory Cycle_Facts
  imports Scaling_Facts Uptime
begin

text \<open>
  The two cycles as wholes. The alert engine writes its own tables and the journals only; so a cycle that runs it
  for every site gives back exactly the lock it took. The guard itself does not survive an overrun: a cycle
  that takes longer than the guard's age limit releases the lock of its successor.
\<close>

section \<open>What the alert engine writes\<close>

definition beside_engine :: "hub \<Rightarrow> hub" where
  "beside_engine s = s\<lparr>audits := [], chain_heads := [], ticks := 0, stream := [], findings := [], alert_states := [],
     deliveries := [], pages := [], mails := []\<rparr>"

named_theorems engine_frames

lemma journal_engine:
  assumes "evolves (same beside_journal) m"
  shows "evolves (same beside_engine) m"
proof -
  have "beside_engine s = beside_engine (beside_journal s)" for s
    by (simp add: beside_engine_def beside_journal_def)
  with assms show ?thesis unfolding evolves_def same_def by metis
qed

lemma basic_engine [engine_frames]:
  "evolves (same beside_engine) (audit w c)" "evolves (same beside_engine) (timezone_now w)"
  by (rule journal_engine [OF audit_journal], rule journal_engine [OF timezone_now_journal])

lemma queue_engine [engine_frames]:
  "evolves (same beside_engine) (publish_finding row a)" "evolves (same beside_engine) (save_finding row)"
  "evolves (same beside_engine) (require_copy_values x y z)" "evolves (same beside_engine) (create_finding e ws fp flds now)"
  by (auto simp: publish_finding_def publish_def save_finding_def require_copy_values_def create_finding_def beside_engine_def
      evolves_def same_def prog_defs Let_def)

lemma refire_engine [engine_frames]: "evolves (same beside_engine) (refire w row e flds now)"
  unfolding refire_def Let_def by (intro frame.ev_rules engine_frames)

lemma finding_engine [engine_frames]: "evolves (same beside_engine) (finding w e fp ws flds)"
  unfolding finding_def by (intro frame.ev_rules engine_frames)

lemma resolve_engine [engine_frames]:
  "evolves (same beside_engine) (resolve w row actor src)" "evolves (same beside_engine) (resolve_refresh w row)"
  unfolding resolve_refresh_def resolve_def transition_def Let_def by (intro frame.ev_rules engine_frames)+

lemma file_alert_engine [engine_frames]: "evolves (same beside_engine) (file_alert w kind entity af)"
  unfolding file_alert_def by (intro frame.ev_rules engine_frames)

lemma state_engine [engine_frames]:
  "evolves (same beside_engine) (get_or_create_state ws fp)" "evolves (same beside_engine) (save_state ws fp f)"
  by (auto simp: get_or_create_state_def save_state_def beside_engine_def evolves_def same_def modify_def split: option.splits)

lemma channel_engine [engine_frames]:
  "evolves (same beside_engine) (publish_page w p)" "evolves (same beside_engine) (send_mail w m)"
  "evolves (same beside_engine) (log_delivery w row ch sev ok detail)"
  by (auto simp: publish_page_def send_mail_def log_delivery_def beside_engine_def evolves_def same_def bnd_now modify_def)

lemma stamp_engine [engine_frames]:
  "evolves (same beside_engine) (record_push row now title c)" "evolves (same beside_engine) (touch_last_push row now)"
  "evolves (same beside_engine) (release_failed_push_clock row)" "evolves (same beside_engine) (annotate_delivery row now)"
  "evolves (same beside_engine) (push_notice row now)"
  unfolding record_push_def touch_last_push_def release_failed_push_clock_def annotate_delivery_def push_notice_def
  by (intro frame.ev_rules engine_frames)+

lemma deliver_engine [engine_frames]:
  "(\<And>row e. evolves (same beside_engine) (report row e)) \<Longrightarrow> evolves (same beside_engine) (maybe_deliver_with report w p)"
  unfolding maybe_deliver_with_def deliver_with_def email_p1_with_def by (intro frame.ev_rules engine_frames)

lemma raise_nested_engine [engine_frames]: "evolves (same beside_engine) (raise_nested w kind entity af)"
  unfolding raise_nested_def report_nested_def by (intro frame.ev_rules engine_frames)

lemma storm_engine [engine_frames]:
  "(\<And>kind entity af. evolves (same beside_engine) (R kind entity af)) \<Longrightarrow> evolves (same beside_engine) (storm_breaker_with R w now)"
  unfolding storm_breaker_with_def by (intro frame.ev_rules engine_frames)

lemma recovery_engine [engine_frames]:
  "(\<And>kind entity af. evolves (same beside_engine) (R kind entity af)) \<Longrightarrow> evolves (same beside_engine) (recovery_notice_with R w row now)"
  unfolding recovery_notice_with_def by (intro frame.ev_rules engine_frames)

lemma resolve_flap_engine [engine_frames]:
  "(\<And>kind entity af. evolves (same beside_engine) (R kind entity af)) \<Longrightarrow> evolves (same beside_engine) (maybe_resolve_flap_with R w fp now ws)"
  unfolding maybe_resolve_flap_with_def Let_def by (intro frame.ev_rules engine_frames)

lemma after_raise_engine [engine_frames]: "evolves (same beside_engine) (after_raise w row)"
  unfolding after_raise_def after_raise_body_def Let_def by (intro frame.ev_rules engine_frames)

lemma raise_alert_engine [engine_frames]: "evolves (same beside_engine) (raise_alert w kind entity af)"
  unfolding raise_alert_def report_failure_def by (intro frame.ev_rules engine_frames)

lemma observe_engine [engine_frames]: "evolves (same beside_engine) (observe w fp ok ws now)"
proof -
  have "evolves (same beside_engine) (file_open w fp entity copy ws')" for entity copy ws'
    unfolding file_open_def maybe_file_partner_aggregate_def Let_def by (intro frame.ev_rules engine_frames)
  moreover have "evolves (same beside_engine) (flap_check w fp ws' now)" for ws'
    unfolding flap_check_def by (intro frame.ev_rules engine_frames)
  moreover have "evolves (same beside_engine) (case p of None \<Rightarrow> ret NoChange | Some q \<Rightarrow> ret (AlertOpened q))" for p
    by (intro frame.ev_rules)
  ultimately show ?thesis
    unfolding observe_def open_alert_def close_alert_def maybe_resolve_flap_def recovery_notice_def
    by (intro frame.ev_rules engine_frames)
qed

lemma engine_field:
  assumes "\<And>s. f (beside_engine s) = f s" "evolves (same beside_engine) m"
  shows "evolves (same f) m"
  using assms unfolding evolves_def same_def by metis

lemma engine_locks: "evolves (same beside_engine) m \<Longrightarrow> evolves (same locks) m"
proof -
  assume m: "evolves (same beside_engine) m"
  have "locks (beside_engine s) = locks s" for s by (simp add: beside_engine_def)
  with m show ?thesis unfolding evolves_def same_def by metis
qed


section \<open>The work of the two cycles\<close>

lemma evaluate_site_engine [engine_frames]: "evolves (same beside_engine) (evaluate_site w site now)"
proof -
  have "evolves (same beside_engine) (retract w site)"
    unfolding retract_def retract_kind_def by (intro frame.ev_rules engine_frames)
  then show ?thesis
    unfolding evaluate_site_def evaluate_eligible_def file_cheap_def file_proposal_def Let_def
    by (intro frame.ev_rules engine_frames)
qed

lemma evaluate_one_engine [engine_frames]: "evolves (same beside_engine) (evaluate_one w clock site)"
  unfolding evaluate_one_def by (intro frame.ev_rules engine_frames)

text \<open>A probe writes the table of uptime events besides.\<close>

lemma record_transition_locks: "evolves (same locks) (record_transition w entity kind st moment)"
  unfolding record_transition_def
  by (intro frame.ev_rules modify_frame engine_locks [OF basic_engine(2)]) simp

lemma probe_one_locks: "evolves (same locks) (probe_one w now site t answer)"
proof -
  have "evolves (same locks) (finish_probe w now site t answer)"
    unfolding finish_probe_def Let_def
    by (intro frame.ev_rules record_transition_locks engine_locks [OF basic_engine(2)] engine_locks [OF observe_engine])
  moreover have "evolves (same locks) (bnd (audit w c) (\<lambda>_. ret x))" for c and x :: probe_row
    by (intro frame.ev_rules engine_locks [OF basic_engine(1)])
  ultimately show ?thesis unfolding probe_one_def by (cases answer) simp_all
qed

lemma probe_all_locks: "evolves (same locks) (probe_all w get now n rows)"
  by (induction rows arbitrary: n) (auto intro!: frame.ev_rules probe_one_locks split: prod.splits)

interpretation probing: cycle w PROBE_LOCK_ID PROBE_HOLDER "''uptime-cycle-lock-broken''" "skip_cycle w" "run_cycle w get now"
  for w get now
proof
  show "evolves (same locks) (skip_cycle w)"
    unfolding skip_cycle_def by (intro frame.ev_rules engine_locks [OF basic_engine(1)])
  show "evolves (same locks) (run_cycle w get now)"
    unfolding run_cycle_def Let_def by (intro frame.ev_rules probe_all_locks)
qed

definition skip_evaluation :: "world \<Rightarrow> unit act" where
  "skip_evaluation w = bnd (audit w ((audit_args ''scale-evaluate-skipped'' None)\<lparr>ac_severity := SevWarning,
     ac_detail := [(''reason'', JStr ''cycle-lock-held'')]\<rparr>)) (\<lambda>_. ret ())"

definition evaluation_body :: "world \<Rightarrow> unit act" where
  "evaluation_body w = bnd (timezone_now w) (\<lambda>clock.
     bnd (gets (\<lambda>s. sort_key s_pk (sites s))) (\<lambda>rows. for_each rows (evaluate_one w clock)))"

interpretation evaluating: cycle w CYCLE_LOCK_ID CYCLE_HOLDER "''scale-evaluate-lock-broken''" "skip_evaluation w" "evaluation_body w"
  for w
  by unfold_locales (unfold skip_evaluation_def evaluation_body_def, (intro engine_locks frame.ev_rules engine_frames)+)

lemma probe_cycle_guarded: "probe_cycle w get now =
    guarded w PROBE_LOCK_ID PROBE_HOLDER ''uptime-cycle-lock-broken'' (skip_cycle w) (run_cycle w get now)"
  by (simp add: probe_cycle_def guarded_def acquire_probe_lock_def)

text \<open>Reading the clock cannot raise, so it makes no difference on which side of the \<open>try\<close> it stands.\<close>

lemma evaluate_all_guarded: "evaluate_all w =
    guarded w CYCLE_LOCK_ID CYCLE_HOLDER ''scale-evaluate-lock-broken'' (skip_evaluation w) (evaluation_body w)"
proof -
  have "bnd (timezone_now w) (\<lambda>clock. try_finally (m clock) f) = try_finally (bnd (timezone_now w) m) f" for m :: "time \<Rightarrow> unit act" and f
    by (rule ext) (simp add: bnd_now try_finally_def)
  then show ?thesis
    by (simp add: evaluate_all_def guarded_def acquire_cycle_lock_def skip_evaluation_def evaluation_body_def cong: option.case_cong)
qed

text \<open>
  Both cycles give back exactly what they took. Whatever the probes answer and the evaluations do, raising
  included, afterwards every other lock is with the holder it had, and the lock of the cycle is free, unless
  it was taken when the cycle started and the cycle left the whole lock table as it was.
\<close>

theorem cycles_give_back_their_lock:
  assumes "lock_wf s" and "t = snd (probe_cycle w get now s) \<and> key = guard_key PROBE_LOCK_ID \<or>
    t = snd (evaluate_all w s) \<and> key = guard_key CYCLE_LOCK_ID"
  shows "lock_wf t \<and> (\<forall>k. k \<noteq> key \<longrightarrow> held t k = held s k) \<and>
    (held t key = None \<or> held s key \<noteq> None \<and> locks t = locks s)"
  using assms(2)
proof
  assume "t = snd (probe_cycle w get now s) \<and> key = guard_key PROBE_LOCK_ID"
  then show ?thesis using probing.run_balanced [OF assms(1)] by (simp add: probe_cycle_guarded)
next
  assume "t = snd (evaluate_all w s) \<and> key = guard_key CYCLE_LOCK_ID"
  then show ?thesis using evaluating.run_balanced [OF assms(1)] by (simp add: evaluate_all_guarded)
qed

definition other_lock :: operation_lock where
  "other_lock = \<lparr>l_workspace = 1, l_scope = ScopeSite, l_object_id = ''7'', l_kind = KindDeploy, l_holder = ''12'',
     l_acquired_at = 0, l_heartbeat_at = 0\<rparr>"

theorem cycles_give_back_their_lock_witness:
  "lock_wf (empty_hub\<lparr>locks := [other_lock]\<rparr>) \<and>
   held (snd (evaluate_all calm_world (empty_hub\<lparr>locks := [other_lock]\<rparr>))) (ScopeSite, ''7'', KindDeploy) = Some ''12'' \<and>
   held (snd (probe_cycle calm_world (\<lambda>_ _ _. Status 200) None (empty_hub\<lparr>locks := [other_lock]\<rparr>))) (guard_key PROBE_LOCK_ID) = None"
proof -
  let ?s = "empty_hub\<lparr>locks := [other_lock]\<rparr>"
  have wf: "lock_wf ?s" by (simp add: lock_wf_def)
  have before: "held ?s (ScopeSite, ''7'', KindDeploy) = Some ''12''" "held ?s (guard_key PROBE_LOCK_ID) = None"
    by (simp_all add: held_def lock_key_def other_lock_def guard_key_def)
  have ne: "(ScopeSite, ''7'', KindDeploy) \<noteq> guard_key CYCLE_LOCK_ID" by (simp add: guard_key_def)
  from cycles_give_back_their_lock [OF wf, of "snd (evaluate_all calm_world ?s)" calm_world undefined None "guard_key CYCLE_LOCK_ID"]
    cycles_give_back_their_lock [OF wf, of "snd (probe_cycle calm_world (\<lambda>_ _ _. Status 200) None ?s)" calm_world
      "\<lambda>_ _ _. Status 200" None "guard_key PROBE_LOCK_ID"]
  show ?thesis using wf before ne by auto
qed


section \<open>An overrun\<close>

text \<open>Taking over a stale guard.\<close>

lemma stale_guard_taken:
  assumes "lock_wf s" "l \<in> set (locks s)" "lock_key l = guard_key oid"
    "l_heartbeat_at l < w_clock w (ticks s + 2) - seconds CYCLE_LOCK_STALE_S"
  obtains b t where "acquire_guard w oid h a s = (Inr (Some b), t)" "lock_wf t" "held t (guard_key oid) = Some h"
  using assms(1)
proof (rule acquire_guard_cases [of s w oid h a])
  fix b t assume "acquire_guard w oid h a s = (Inr (Some b), t)" "lock_wf t" "held t = (held s)(guard_key oid := Some h)"
  then show thesis using that by simp
next
  assume "\<not> list_ex (\<lambda>l. lock_key l = guard_key oid \<and> l_heartbeat_at l < w_clock w (ticks s + 2) - seconds CYCLE_LOCK_STALE_S) (locks s)"
  with assms(2-4) show thesis by (auto simp: list_ex_iff)
qed

text \<open>
  The guard does not survive an overrun. When the lock of a probe cycle is older than the limit, the next
  cycle takes it over under the same holder name; the release with which the first cycle ends then frees the
  lock of the second, and a third cycle starts while the second still runs.
\<close>

theorem overrun_cycle_frees_successor:
  assumes "lock_wf s" "l \<in> set (locks s)" "lock_key l = guard_key PROBE_LOCK_ID"
    "l_heartbeat_at l < w_clock w (ticks s + 2) - seconds CYCLE_LOCK_STALE_S"
  shows "\<exists>second t u third v. acquire_probe_lock w s = (Inr (Some second), t) \<and> held t (guard_key PROBE_LOCK_ID) = Some PROBE_HOLDER \<and>
    release_guard PROBE_LOCK_ID PROBE_HOLDER t = (Inr (), u) \<and> acquire_probe_lock w u = (Inr (Some third), v)"
proof -
  obtain second t where t: "acquire_probe_lock w s = (Inr (Some second), t)" "lock_wf t" "held t (guard_key PROBE_LOCK_ID) = Some PROBE_HOLDER"
    unfolding acquire_probe_lock_def using assms by (rule stale_guard_taken)
  let ?u = "snd (release ScopeTarget PROBE_LOCK_ID KindCollect (Some PROBE_HOLDER) t)"
  have rel: "release_guard PROBE_LOCK_ID PROBE_HOLDER t = (Inr (), ?u)"
    by (simp add: release_guard_def release_def bnd_def ret_def Let_def)
  have free: "held ?u (guard_key PROBE_LOCK_ID) = None"
    using held_release [OF t(2), of ScopeTarget PROBE_LOCK_ID KindCollect "Some PROBE_HOLDER" "guard_key PROBE_LOCK_ID"] t(3)
    by (simp add: guard_key_def)
  have "lock_wf ?u" using t(2) by (rule release_wf)
  then obtain third v where "acquire_probe_lock w ?u = (Inr (Some third), v)"
    unfolding acquire_probe_lock_def
    by (rule acquire_guard_cases [of ?u w PROBE_LOCK_ID PROBE_HOLDER "''uptime-cycle-lock-broken''"]) (simp_all add: free)
  then show ?thesis using t rel by blast
qed

text \<open>A probe cycle that started at time zero and is still running after ten minutes.\<close>

definition overrun_hub :: hub where
  "overrun_hub = empty_hub\<lparr>ticks := 600, locks := [\<lparr>l_workspace = 1, l_scope = ScopeTarget, l_object_id = PROBE_LOCK_ID,
     l_kind = KindCollect, l_holder = PROBE_HOLDER, l_acquired_at = 0, l_heartbeat_at = 0\<rparr>]\<rparr>"

theorem overrun_cycle_frees_successor_witness:
  "held overrun_hub (guard_key PROBE_LOCK_ID) = Some PROBE_HOLDER \<and>
   (\<exists>second t u third v. acquire_probe_lock calm_world overrun_hub = (Inr (Some second), t) \<and>
     release_guard PROBE_LOCK_ID PROBE_HOLDER t = (Inr (), u) \<and> acquire_probe_lock calm_world u = (Inr (Some third), v))"
proof -
  let ?l = "hd (locks overrun_hub)"
  have "lock_wf overrun_hub" "?l \<in> set (locks overrun_hub)" "lock_key ?l = guard_key PROBE_LOCK_ID"
    "l_heartbeat_at ?l < w_clock calm_world (ticks overrun_hub + 2) - seconds CYCLE_LOCK_STALE_S"
    by (simp_all add: overrun_hub_def lock_wf_def lock_key_def guard_key_def calm_world_def seconds_def CYCLE_LOCK_STALE_S_def)
  moreover have "held overrun_hub (guard_key PROBE_LOCK_ID) = Some PROBE_HOLDER"
    by (simp add: overrun_hub_def held_def lock_key_def guard_key_def)
  ultimately show ?thesis using overrun_cycle_frees_successor [of overrun_hub ?l calm_world] by blast
qed

end
