(* ===== verification/Task_Envelope.thy ===== *)
theory Task_Envelope
  imports Cycle_Lock Pipeline_Facts
begin

text \<open>
  \<open>core/task_envelope.py\<close> and the task \<open>run_deploy\<close> of \<open>deploys/tasks.py\<close>: the signed envelope with which
  the web process hands a task to a worker. \<open>wrap\<close> signs a body with an HMAC, \<open>verify\<close> checks signature and
  time, \<open>reauthorize\<close> spends the nonce in the shared cache and compares task, resource and workspace.
  The HMAC and the random source are parameters; the cache stores a key until its expiry.
\<close>

section \<open>The clock, the cache and the digest comparison\<close>

definition unix_time :: "world \<Rightarrow> int act" where
  "unix_time w = bnd (timezone_now w) (\<lambda>now. ret (now div 1000000))"

definition token_hex :: "world \<Rightarrow> string act" where
  "token_hex w = (\<lambda>s. (Inr (w_token_hex w (ticks s)), s\<lparr>ticks := Suc (ticks s)\<rparr>))"

text \<open>\<open>cache.add\<close>: stores the key unless an entry for it has not expired yet.\<close>

definition cached :: "hub \<Rightarrow> string \<Rightarrow> time \<Rightarrow> bool" where
  "cached s key now = list_ex (\<lambda>(k, expiry). k = key \<and> now < expiry) (cache_entries s)"

definition cache_add :: "world \<Rightarrow> string \<Rightarrow> int \<Rightarrow> bool act" where
  "cache_add w key timeout = bnd (timezone_now w) (\<lambda>now. (\<lambda>s.
     if cached s key now then (Inr False, s)
     else (Inr True, s\<lparr>cache_entries := (key, now + seconds timeout) # filter (\<lambda>(k, _). k \<noteq> key) (cache_entries s)\<rparr>)))"

text \<open>\<open>hmac.compare_digest\<close> refuses operands that are no text, and text that is not ASCII.\<close>

definition is_ascii :: "string \<Rightarrow> bool" where
  "is_ascii x = list_all (\<lambda>c. of_char c < (128 :: nat)) x"

fun compare_digest :: "json \<Rightarrow> string \<Rightarrow> exn + bool" where
  "compare_digest (JStr a) b = (if is_ascii a \<and> is_ascii b then Inr (a = b)
     else Inl (TypeError ''comparing strings with non-ASCII characters is not supported''))"
| "compare_digest _ b = Inl (TypeError ''unsupported operand types'')"

definition raise_or :: "exn + 'a \<Rightarrow> 'a act" where
  "raise_or x = (case x of Inl e \<Rightarrow> throw e | Inr v \<Rightarrow> ret v)"


section \<open>Envelopes\<close>

type_synonym envelope = "(string \<times> json) list"

definition envelope_sig :: "world \<Rightarrow> envelope \<Rightarrow> string" where
  "envelope_sig w body = w_hmac w (w_task_secret w) (dumps_canonical (JObj body))"

definition envelope_body :: "string \<Rightarrow> json \<Rightarrow> string \<Rightarrow> json \<Rightarrow> string \<Rightarrow> int \<Rightarrow> int \<Rightarrow> string \<Rightarrow> envelope" where
  "envelope_body task workspace_id resource_type resource_id producer issued ttl nonce =
     [(''task'', JStr task), (''workspace_id'', workspace_id), (''resource_type'', JStr resource_type),
      (''resource_id'', JStr (py_str (or_else resource_id (JStr [])))), (''producer'', JStr producer),
      (''issued_at'', JInt issued), (''expires_at'', JInt (issued + ttl)), (''nonce'', JStr nonce)]"

definition wrap :: "world \<Rightarrow> string \<Rightarrow> json \<Rightarrow> string \<Rightarrow> json \<Rightarrow> string \<Rightarrow> int \<Rightarrow> envelope act" where
  "wrap w task workspace_id resource_type resource_id producer ttl =
     bnd (unix_time w) (\<lambda>issued.
     bnd (token_hex w) (\<lambda>nonce.
     let body = envelope_body task workspace_id resource_type resource_id producer issued ttl nonce in
     ret (jset body ''sig'' (JStr (envelope_sig w body)))))"

definition int_field :: "envelope \<Rightarrow> string \<Rightarrow> exn + int" where
  "int_field body k = py_int (or_else (jget body k) (JInt 0))"

definition verify :: "world \<Rightarrow> json \<Rightarrow> envelope act" where
  "verify w envelope = (case envelope of
     JObj fs \<Rightarrow>
       let sig = (if has_key fs ''sig'' then jget fs ''sig'' else JStr []); body = jdel fs ''sig'' in
       bnd (raise_or (compare_digest sig (envelope_sig w body))) (\<lambda>ok.
       if \<not> ok then throw (EnvelopeError ''tampered envelope'')
       else bnd (unix_time w) (\<lambda>now.
         bnd (raise_or (int_field body ''expires_at'')) (\<lambda>expires.
         if now > expires then throw (EnvelopeError ''expired envelope'')
         else bnd (raise_or (int_field body ''issued_at'')) (\<lambda>issued.
           if now < issued - 30 then throw (EnvelopeError ''expired envelope'')
           else ret body))))
   | _ \<Rightarrow> throw (EnvelopeError ''envelope missing''))"

definition reject_call :: "string \<Rightarrow> nat option \<Rightarrow> audit_call" where
  "reject_call reason ws = (audit_args ''task_envelope_rejected'' None)\<lparr>ac_source := SrcCelery,
     ac_severity := SevSecurity, ac_workspace := ws, ac_detail := [(''reason'', JStr reason)]\<rparr>"

definition reject :: "world \<Rightarrow> string \<Rightarrow> nat option \<Rightarrow> string \<Rightarrow> 'a act" where
  "reject w reason ws message = bnd (audit w (reject_call reason ws)) (\<lambda>_. throw (EnvelopeError message))"

definition verify_or_report :: "world \<Rightarrow> json \<Rightarrow> envelope act" where
  "verify_or_report w envelope = try_except (verify w envelope)
     (\<lambda>e. case e of EnvelopeError m \<Rightarrow> reject w m None m | _ \<Rightarrow> throw e)"

definition nonce_key :: "envelope \<Rightarrow> string" where
  "nonce_key body = ''task-envelope-nonce:'' @ py_str (jget body ''nonce'')"

text \<open>Neither a site nor a deployment has a column \<open>workspace_id\<close>; for the other objects it is what \<open>workspace_of\<close> gives.\<close>

definition check_claims :: "world \<Rightarrow> envelope \<Rightarrow> audit_obj option \<Rightarrow> string option \<Rightarrow> string option \<Rightarrow> envelope act" where
  "check_claims w body resource task resource_id =
     (if (case task of None \<Rightarrow> False | Some t \<Rightarrow> jget body ''task'' \<noteq> JStr t) then reject w ''task mismatch'' None ''task mismatch''
      else if (case resource_id of None \<Rightarrow> False | Some r \<Rightarrow> py_str (or_else (jget body ''resource_id'') (JStr [])) \<noteq> r)
      then reject w ''resource mismatch'' None ''resource mismatch''
      else case resource of None \<Rightarrow> ret body
      | Some ob \<Rightarrow> bnd (gets (\<lambda>s. workspace_of s ob)) (\<lambda>actual.
          if \<not> py_eq (opt_int actual) (jget body ''workspace_id'')
          then reject w ''workspace mismatch'' actual ''workspace mismatch''
          else ret body))"

definition reauthorize :: "world \<Rightarrow> json \<Rightarrow> audit_obj option \<Rightarrow> string option \<Rightarrow> string option \<Rightarrow> envelope act" where
  "reauthorize w envelope resource task resource_id =
     bnd (verify_or_report w envelope) (\<lambda>body.
     bnd (raise_or (int_field body ''expires_at'')) (\<lambda>expires.
     bnd (unix_time w) (\<lambda>now.
     bnd (cache_add w (nonce_key body) (max (expires - now) 1)) (\<lambda>fresh.
     if \<not> fresh then reject w ''replay'' None ''replayed envelope''
     else check_claims w body resource task resource_id))))"


section \<open>The deployment task\<close>

definition RUN_DEPLOY :: string where
  "RUN_DEPLOY = ''deploys.tasks.run_deploy''"

definition envelope_for_deploy :: "world \<Rightarrow> nat \<Rightarrow> envelope act" where
  "envelope_for_deploy w deployment_id =
     bnd (gets (\<lambda>s. Option.bind (deployment_by_pk s deployment_id) (\<lambda>dep. workspace_of s (ODeployment dep)))) (\<lambda>ws.
     case ws of None \<Rightarrow> throw DoesNotExist
     | Some x \<Rightarrow> wrap w RUN_DEPLOY (JInt (int x)) ''Deployment'' (JInt (int deployment_id)) ''hub'' 300)"

datatype task_result = Refused string | Executed exec_result

text \<open>The try block of the task: whether the envelope authorises it.\<close>

definition authorised :: "world \<Rightarrow> json \<Rightarrow> deployment \<Rightarrow> nat \<Rightarrow> bool act" where
  "authorised w env dep deployment_id = try_except
     (bnd (reauthorize w env (Some (ODeployment dep)) (Some RUN_DEPLOY) (Some (str_nat deployment_id))) (\<lambda>_. ret True))
     (\<lambda>e. case e of EnvelopeError _ \<Rightarrow> ret False | _ \<Rightarrow> throw e)"

definition run_deploy :: "world \<Rightarrow> ports \<Rightarrow> nat \<Rightarrow> json option \<Rightarrow> task_result act" where
  "run_deploy w P deployment_id envelope = (case envelope of
     None \<Rightarrow> ret (Refused ''envelope'')
   | Some env \<Rightarrow>
     bnd (gets (\<lambda>s. deployment_by_pk s deployment_id)) (\<lambda>found. case found of
       None \<Rightarrow> throw DoesNotExist
     | Some dep \<Rightarrow>
       bnd (authorised w env dep deployment_id) (\<lambda>ok.
       if \<not> ok then ret (Refused ''envelope'')
       else bnd (execute w P False deployment_id) (\<lambda>r. ret (Executed r)))))"


section \<open>Steps of the check\<close>

lemma bnd_unix: "bnd (unix_time w) k s = k (w_clock w (ticks s) div 1000000) (s\<lparr>ticks := Suc (ticks s)\<rparr>)"
  by (simp add: unix_time_def bnd_assoc bnd_now)

lemma bnd_cache_add: "bnd (cache_add w key n) k s = (if cached s key (w_clock w (ticks s))
    then k False (s\<lparr>ticks := Suc (ticks s)\<rparr>)
    else k True (s\<lparr>ticks := Suc (ticks s), cache_entries := (key, w_clock w (ticks s) + seconds n) #
      filter (\<lambda>(k, _). k \<noteq> key) (cache_entries s)\<rparr>))"
  by (simp add: cache_add_def bnd_assoc bnd_now) (simp add: bnd_def cached_def)

lemma bnd_raise_or: "bnd (raise_or x) k s = (case x of Inl e \<Rightarrow> (Inl e, s) | Inr v \<Rightarrow> k v s)"
  by (simp add: raise_or_def bnd_def throw_def ret_def split: sum.splits)

lemma fst_bnd_raise_or: "(bnd (raise_or x) k s = (Inr y, t)) = (\<exists>v. x = Inr v \<and> k v s = (Inr y, t))"
  by (auto simp: bnd_raise_or split: sum.splits)

lemma throw_not_Inr [simp]: "throw e s \<noteq> (Inr y, t)"
  by (simp add: throw_def)

text \<open>An envelope is accepted exactly when it is signed and the whole second lies in its period.\<close>

definition signed :: "world \<Rightarrow> json \<Rightarrow> bool" where
  "signed w env = (case env of JObj fs \<Rightarrow> jget fs ''sig'' = JStr (envelope_sig w (jdel fs ''sig'')) \<and>
       is_ascii (envelope_sig w (jdel fs ''sig'')) \<and> has_key fs ''sig'' \<or>
       \<not> has_key fs ''sig'' \<and> envelope_sig w (jdel fs ''sig'') = []
     | _ \<Rightarrow> False)"

lemma verify_InrD:
  assumes "verify w env s = (Inr body, t)"
  obtains fs expires issued where "env = JObj fs" "body = jdel fs ''sig''" "signed w env"
    "int_field body ''expires_at'' = Inr expires" "int_field body ''issued_at'' = Inr issued"
    "issued - 30 \<le> w_clock w (ticks s) div 1000000" "w_clock w (ticks s) div 1000000 \<le> expires"
    "t = s\<lparr>ticks := Suc (ticks s)\<rparr>"
proof (cases env)
  case (JObj fs)
  let ?sig = "if has_key fs ''sig'' then jget fs ''sig'' else JStr []"
  from assms JObj obtain expires issued where
    e: "compare_digest ?sig (envelope_sig w (jdel fs ''sig'')) = Inr True" "body = jdel fs ''sig''"
       "int_field body ''expires_at'' = Inr expires" "int_field body ''issued_at'' = Inr issued"
       "issued - 30 \<le> w_clock w (ticks s) div 1000000" "w_clock w (ticks s) div 1000000 \<le> expires"
       "t = s\<lparr>ticks := Suc (ticks s)\<rparr>"
    by (auto simp: verify_def Let_def bnd_unix fst_bnd_raise_or ret_def split: if_splits)
  have "signed w env"
    using e(1) JObj by (cases ?sig) (auto simp: signed_def split: if_splits)
  with e JObj show thesis by (intro that) auto
qed (use assms in \<open>auto simp: verify_def throw_def\<close>)

lemma reject_raises: "fst (reject w r ws m s) = Inl (EnvelopeError m)"
proof -
  have "\<exists>k. resolve_workspace s (ac_obj (reject_call r ws)) (ac_workspace (reject_call r ws)) (initial_scope (reject_call r ws)) = Inr k"
    by (cases ws) (simp_all add: resolve_workspace_def initial_scope_def reject_call_def audit_args_def)
  then obtain k where "resolve_workspace s (ac_obj (reject_call r ws)) (ac_workspace (reject_call r ws)) (initial_scope (reject_call r ws)) = Inr k" ..
  with write_event_effect [of w "reject_call r ws" "(final_scope (reject_call r ws) k, k)" s]
  obtain e t where "audit w (reject_call r ws) s = (Inr e, t)" by (auto simp: audit_def bnd_def gets_def)
  then show ?thesis by (simp add: reject_def bnd_def throw_def)
qed

lemma reject_not_Inr [simp]: "reject w r ws m s \<noteq> (Inr y, t)"
  by (metis fst_conv reject_raises sum.distinct(1))

lemma verify_or_report_Inr: "(verify_or_report w env s = (Inr body, t)) = (verify w env s = (Inr body, t))"
  by (cases "verify w env s") (auto simp: verify_or_report_def try_except_def split: sum.splits exn.splits)

lemma check_claims_InrD:
  assumes "check_claims w body resource task rid s = (Inr b, t)"
  shows "b = body \<and> t = s \<and> (\<forall>x. task = Some x \<longrightarrow> jget body ''task'' = JStr x) \<and>
    (\<forall>r. rid = Some r \<longrightarrow> py_str (or_else (jget body ''resource_id'') (JStr [])) = r) \<and>
    (\<forall>ob. resource = Some ob \<longrightarrow> py_eq (opt_int (workspace_of s ob)) (jget body ''workspace_id''))"
  using assms by (auto simp: check_claims_def ret_def bnd_gets split: if_splits option.splits)

lemma reauthorize_InrD:
  assumes "reauthorize w env resource task rid s = (Inr body, t)"
  obtains expires where "verify w env s = (Inr body, s\<lparr>ticks := Suc (ticks s)\<rparr>)" "int_field body ''expires_at'' = Inr expires"
    "\<not> cached s (nonce_key body) (w_clock w (ticks s + 2))"
    "t = s\<lparr>ticks := ticks s + 3, cache_entries := (nonce_key body, w_clock w (ticks s + 2) +
       seconds (max (expires - w_clock w (Suc (ticks s)) div 1000000) 1)) # filter (\<lambda>(k, _). k \<noteq> nonce_key body) (cache_entries s)\<rparr>"
    "\<And>x. task = Some x \<Longrightarrow> jget body ''task'' = JStr x"
    "\<And>r. rid = Some r \<Longrightarrow> py_str (or_else (jget body ''resource_id'') (JStr [])) = r"
    "\<And>ob. resource = Some ob \<Longrightarrow> py_eq (opt_int (workspace_of t ob)) (jget body ''workspace_id'')"
proof -
  from assms obtain b u where v: "verify w env s = (Inr b, u)" and rest:
    "bnd (raise_or (int_field b ''expires_at'')) (\<lambda>expires. bnd (unix_time w) (\<lambda>now.
       bnd (cache_add w (nonce_key b) (max (expires - now) 1)) (\<lambda>fresh.
       if \<not> fresh then reject w ''replay'' None ''replayed envelope'' else check_claims w b resource task rid))) u = (Inr body, t)"
    unfolding reauthorize_def fst_bnd_Inr verify_or_report_Inr by blast
  from v have u: "u = s\<lparr>ticks := Suc (ticks s)\<rparr>" by (rule verify_InrD)
  from rest obtain expires where e: "int_field b ''expires_at'' = Inr expires" and
    c: "\<not> cached s (nonce_key b) (w_clock w (ticks s + 2))"
      "check_claims w b resource task rid (s\<lparr>ticks := ticks s + 3, cache_entries := (nonce_key b, w_clock w (ticks s + 2) +
       seconds (max (expires - w_clock w (Suc (ticks s)) div 1000000) 1)) # filter (\<lambda>(k, _). k \<noteq> nonce_key b) (cache_entries s)\<rparr>) = (Inr body, t)"
    unfolding u by (auto simp: fst_bnd_raise_or bnd_unix bnd_cache_add cached_def numeral_3_eq_3 split: if_splits)
  from check_claims_InrD [OF c(2)] v u e c(1) show thesis by (intro that) auto
qed

lemma verify_again:
  assumes "verify w env s = (Inr body, t)"
  shows "verify w env u = (Inr body, u\<lparr>ticks := Suc (ticks u)\<rparr>) \<or> (\<exists>m v. verify w env u = (Inl (EnvelopeError m), v))"
proof -
  from assms obtain fs expires issued where v: "env = JObj fs" "body = jdel fs ''sig''" "signed w env"
    "int_field body ''expires_at'' = Inr expires" "int_field body ''issued_at'' = Inr issued"
    by (rule verify_InrD)
  let ?sig = "if has_key fs ''sig'' then jget fs ''sig'' else JStr []"
  have "compare_digest ?sig (envelope_sig w body) = Inr True"
    using v by (auto simp: signed_def is_ascii_def)
  with v show ?thesis by (auto simp: verify_def Let_def bnd_raise_or bnd_unix ret_def throw_def)
qed


section \<open>The nonce of an accepted envelope stays spent\<close>

text \<open>An entry for the key that lives until \<open>limit\<close> or longer.\<close>

definition spent :: "string \<Rightarrow> time \<Rightarrow> hub \<Rightarrow> bool" where
  "spent key limit s = (\<exists>expiry. (key, expiry) \<in> set (cache_entries s) \<and> limit \<le> expiry)"

lemma spent_cached: "spent key limit s \<Longrightarrow> now < limit \<Longrightarrow> cached s key now"
proof -
  assume "spent key limit s" "now < limit"
  then obtain expiry where "(key, expiry) \<in> set (cache_entries s)" "now < expiry" unfolding spent_def by auto
  then show ?thesis unfolding cached_def list_ex_iff by (intro bexI [of _ "(key, expiry)"]) auto
qed

lemma spent_cong: "cache_entries t = cache_entries s \<Longrightarrow> spent key limit t = spent key limit s"
  by (simp add: spent_def)

lemma cache_add_spent:
  assumes "spent key limit s" "0 \<le> n"
  shows "spent key limit (snd (cache_add w k n s))"
proof -
  have eq: "snd (cache_add w k n s) = (if cached s k (w_clock w (ticks s)) then s\<lparr>ticks := Suc (ticks s)\<rparr>
    else s\<lparr>ticks := Suc (ticks s), cache_entries := (k, w_clock w (ticks s) + seconds n) # filter (\<lambda>(k', _). k' \<noteq> k) (cache_entries s)\<rparr>)"
    by (simp add: cache_add_def bnd_now cached_def)
  show ?thesis
  proof (cases "k = key \<and> \<not> cached s k (w_clock w (ticks s))")
    case True
    with spent_cached [OF assms(1)] have "limit \<le> w_clock w (ticks s)" by force
    with assms(2) True show ?thesis unfolding eq spent_def by (auto simp: seconds_def)
  next
    case False
    with assms(1) show ?thesis unfolding eq spent_def by auto
  qed
qed

lemma cache_frames:
  "evolves (same cache_entries) (audit w c)" "evolves (same cache_entries) (unix_time w)" "evolves (same cache_entries) (timezone_now w)"
proof -
  show now: "evolves (same cache_entries) (timezone_now w)" by (rule timezone_now_frame) simp
  then show "evolves (same cache_entries) (unix_time w)" unfolding unix_time_def by (intro frame.ev_rules)
  have "cache_entries (beside_journal s) = cache_entries s" for s by (simp add: beside_journal_def)
  then show "evolves (same cache_entries) (audit w c)"
    using audit_journal [of w c] unfolding evolves_def same_def by metis
qed

lemma spent_evolution: "evolution (\<lambda>s t. spent key limit s \<longrightarrow> spent key limit t)"
  by unfold_locales auto

interpretation spending: evolution "\<lambda>s t. spent key limit s \<longrightarrow> spent key limit t" for key limit
  by (rule spent_evolution)

lemma same_cache_spent: "evolves (same cache_entries) m \<Longrightarrow> evolves (\<lambda>s t. spent key limit s \<longrightarrow> spent key limit t) m"
  unfolding evolves_def same_def by (metis spent_cong)

lemma reject_spent: "evolves (\<lambda>s t. spent key limit s \<longrightarrow> spent key limit t) (reject w r ws m)"
  unfolding reject_def by (intro spending.ev_rules same_cache_spent [OF cache_frames(1)])

lemma raise_or_spent: "evolves (\<lambda>s t. spent key limit s \<longrightarrow> spent key limit t) (raise_or x)"
  unfolding raise_or_def by (intro spending.ev_rules)

lemmas spent_rules = spending.ev_rules reject_spent raise_or_spent same_cache_spent [OF cache_frames(2)]

lemma verify_spent: "evolves (\<lambda>s t. spent key limit s \<longrightarrow> spent key limit t) (verify_or_report w env)"
proof -
  have "evolves (\<lambda>s t. spent key limit s \<longrightarrow> spent key limit t) (verify w env)"
    unfolding verify_def Let_def by (cases env) (auto intro!: spent_rules)
  then show ?thesis unfolding verify_or_report_def
    by (intro spending.ev_try_except) (auto split: exn.splits intro!: spent_rules)
qed

lemma reauthorize_keeps_spent: "evolves (\<lambda>s t. spent key limit s \<longrightarrow> spent key limit t) (reauthorize w env resource task rid)"
proof -
  have "evolves (\<lambda>s t. spent key limit s \<longrightarrow> spent key limit t) (cache_add w k (max n 1))" for k n
    using cache_add_spent unfolding evolves_def by (metis max.cobounded2 zero_le_one order_trans)
  then show ?thesis unfolding reauthorize_def check_claims_def by (intro spent_rules verify_spent)
qed

record presentation =
  pn_envelope :: json
  pn_resource :: "audit_obj option"
  pn_task :: "string option"
  pn_resource_id :: "string option"

definition present :: "world \<Rightarrow> presentation \<Rightarrow> envelope act" where
  "present w p = reauthorize w (pn_envelope p) (pn_resource p) (pn_task p) (pn_resource_id p)"

fun presented :: "world \<Rightarrow> presentation list \<Rightarrow> hub \<Rightarrow> hub" where
  "presented w [] s = s"
| "presented w (p # ps) s = presented w ps (snd (present w p s))"

lemma presented_spent: "spent key limit s \<Longrightarrow> spent key limit (presented w ps s)"
  by (induction ps arbitrary: s) (use reauthorize_keeps_spent in \<open>auto simp: evolves_def present_def\<close>)

lemma accepted_spends:
  assumes "mono (w_clock w)" "reauthorize w env resource task rid s = (Inr body, t)" "int_field body ''expires_at'' = Inr expires"
  shows "spent (nonce_key body) (seconds expires) t"
proof -
  from assms(2) obtain e where "int_field body ''expires_at'' = Inr e" and t: "t = s\<lparr>ticks := ticks s + 3, cache_entries :=
      (nonce_key body, w_clock w (ticks s + 2) + seconds (max (e - w_clock w (Suc (ticks s)) div 1000000) 1)) #
       filter (\<lambda>(k, _). k \<noteq> nonce_key body) (cache_entries s)\<rparr>"
    by (rule reauthorize_InrD)
  with assms(3) have e: "e = expires" by simp
  have "w_clock w (Suc (ticks s)) \<le> w_clock w (ticks s + 2)" using assms(1) by (rule monoD) simp
  moreover have "w_clock w (Suc (ticks s)) div 1000000 * 1000000 \<le> w_clock w (Suc (ticks s))" by simp
  ultimately have "seconds expires \<le> w_clock w (ticks s + 2) + seconds (max (e - w_clock w (Suc (ticks s)) div 1000000) 1)"
    by (simp add: seconds_def e max_def)
  then show ?thesis by (auto simp: spent_def t)
qed

lemma replay_rejected:
  assumes "verify w env s = (Inr body, s')" "spent (nonce_key body) (seconds expires) u"
    "int_field body ''expires_at'' = Inr expires" "w_clock w (ticks u + 2) < seconds expires"
  shows "\<exists>m. fst (reauthorize w env resource task rid u) = Inl (EnvelopeError m)"
  using verify_again [OF assms(1), of u]
proof
  assume "\<exists>m v. verify w env u = (Inl (EnvelopeError m), v)"
  then obtain m v where "verify w env u = (Inl (EnvelopeError m), v)" by blast
  then have "fst (verify_or_report w env u) = Inl (EnvelopeError m)"
    by (simp add: verify_or_report_def try_except_def reject_raises)
  then show ?thesis by (auto simp: reauthorize_def bnd_def split: prod.splits sum.splits)
next
  assume v: "verify w env u = (Inr body, u\<lparr>ticks := Suc (ticks u)\<rparr>)"
  have "cached u (nonce_key body) (w_clock w (ticks u + 2))" using assms(2,4) by (rule spent_cached)
  moreover from v have "verify_or_report w env u = (Inr body, u\<lparr>ticks := Suc (ticks u)\<rparr>)" by (simp add: verify_or_report_Inr)
  then have "reauthorize w env resource task rid u = bnd (raise_or (int_field body ''expires_at'')) (\<lambda>expires. bnd (unix_time w) (\<lambda>now.
       bnd (cache_add w (nonce_key body) (max (expires - now) 1)) (\<lambda>fresh.
       if \<not> fresh then reject w ''replay'' None ''replayed envelope'' else check_claims w body resource task rid)))
       (u\<lparr>ticks := Suc (ticks u)\<rparr>)"
    by (simp add: reauthorize_def bnd_def)
  ultimately show ?thesis by (simp add: assms(3) bnd_raise_or bnd_unix bnd_cache_add cached_def reject_raises)
qed


section \<open>Envelopes that \<open>wrap\<close> made\<close>

lemma jdel_jset: "\<not> has_key d k \<Longrightarrow> jdel (jset d k v) k = d"
  by (induction d) (auto simp: jdel_def has_key_def)

lemma body_has_no_sig: "\<not> has_key (envelope_body task ws rt rid pr issued ttl nonce) ''sig''"
  by (simp add: envelope_body_def has_key_def)

lemma wrap_result:
  "wrap w task ws rt rid pr ttl s =
     (let body = envelope_body task ws rt rid pr (w_clock w (ticks s) div 1000000) ttl (w_token_hex w (Suc (ticks s)))
      in (Inr (jset body ''sig'' (JStr (envelope_sig w body))), s\<lparr>ticks := ticks s + 2\<rparr>))"
  by (simp add: wrap_def bnd_unix) (simp add: token_hex_def bnd_def ret_def Let_def)

lemma verify_wrapped:
  assumes "body = envelope_body task ws rt rid pr issued ttl nonce" "is_ascii (envelope_sig w body)"
    "issued - 30 \<le> w_clock w (ticks u) div 1000000" "w_clock w (ticks u) div 1000000 \<le> issued + ttl"
  shows "verify w (JObj (jset body ''sig'' (JStr (envelope_sig w body)))) u = (Inr body, u\<lparr>ticks := Suc (ticks u)\<rparr>)"
proof -
  have "int_field body ''expires_at'' = Inr (issued + ttl)" "int_field body ''issued_at'' = Inr issued"
    by (simp_all add: assms(1) envelope_body_def int_field_def jget_def or_else_def)
  moreover have "jdel (jset body ''sig'' (JStr (envelope_sig w body))) ''sig'' = body"
    unfolding assms(1) by (rule jdel_jset [OF body_has_no_sig])
  ultimately show ?thesis using assms(2-4)
    by (simp add: verify_def bnd_raise_or bnd_unix ret_def)
qed

text \<open>What \<open>reauthorize\<close> does with a body that verifies and has a fresh nonce.\<close>

lemma reauthorize_fresh:
  assumes "verify w env u = (Inr body, u\<lparr>ticks := Suc (ticks u)\<rparr>)" "int_field body ''expires_at'' = Inr expires"
    "\<not> cached u (nonce_key body) (w_clock w (ticks u + 2))"
  shows "reauthorize w env resource task rid u = check_claims w body resource task rid
    (u\<lparr>ticks := ticks u + 3, cache_entries := (nonce_key body, w_clock w (ticks u + 2) +
       seconds (max (expires - w_clock w (Suc (ticks u)) div 1000000) 1)) # filter (\<lambda>(k, _). k \<noteq> nonce_key body) (cache_entries u)\<rparr>)"
proof -
  have "verify_or_report w env u = (Inr body, u\<lparr>ticks := Suc (ticks u)\<rparr>)" using assms(1) by (simp add: verify_or_report_Inr)
  with assms(2,3) show ?thesis
    by (simp add: reauthorize_def bnd_def [of "verify_or_report w env"] bnd_raise_or bnd_unix bnd_cache_add cached_def numeral_3_eq_3)
qed

lemma deployment_workspace_cong:
  "manifests u = manifests s \<Longrightarrow> sites u = sites s \<Longrightarrow> workspace_of u (ODeployment dep) = workspace_of s (ODeployment dep)"
  by (simp add: deployment_site_def manifest_site_def manifest_by_pk_def site_by_pk_def)

lemma py_eq_refl [simp]: "py_eq a a"
  by (simp add: py_eq_def)

lemma py_str_pk: "py_str (or_else (JStr (py_str (or_else (JInt (int d)) (JStr [])))) (JStr [])) = (if d = 0 then [] else str_nat d)"
  by (simp add: or_else_def str_int_def)


section \<open>Properties\<close>

text \<open>
  C34: The round trip of a deployment task. The envelope that \<open>envelope_for_deploy\<close> signs for a deployment is
  accepted by the worker that runs the task for that deployment within the envelope's five minutes (and up
  to thirty seconds before its issue, for a clock that lags), if its nonce has not been spent: the worker then
  executes the deployment, having changed nothing but the clock reading and the cache.
\<close>

theorem honest_task_runs:
  assumes ascii: "\<forall>k m. is_ascii (w_hmac w k m)" and env: "envelope_for_deploy w d s = (Inr env, t)" and "d \<noteq> 0"
    and rows: "deployments u = deployments s" "manifests u = manifests s" "sites u = sites s"
    and early: "w_clock w (ticks s) div 1000000 - 30 \<le> w_clock w (ticks u) div 1000000"
    and late: "w_clock w (ticks u) div 1000000 \<le> w_clock w (ticks s) div 1000000 + 300"
    and fresh: "\<not> cached u (''task-envelope-nonce:'' @ w_token_hex w (Suc (ticks s))) (w_clock w (ticks u + 2))"
  shows "\<exists>v. run_deploy w P d (Some (JObj env)) u = bnd (execute w P False d) (\<lambda>r. ret (Executed r)) v \<and>
    v\<lparr>ticks := 0, cache_entries := []\<rparr> = u\<lparr>ticks := 0, cache_entries := []\<rparr>"
proof -
  from env obtain dep x where dep: "deployment_by_pk s d = Some dep" "workspace_of s (ODeployment dep) = Some x"
    and wr: "wrap w RUN_DEPLOY (JInt (int x)) ''Deployment'' (JInt (int d)) ''hub'' 300 s = (Inr env, t)"
    unfolding envelope_for_deploy_def bnd_gets
    by (auto simp: throw_def split: option.splits bind_splits simp del: workspace_of.simps)
  define body where "body = envelope_body RUN_DEPLOY (JInt (int x)) ''Deployment'' (JInt (int d)) ''hub''
    (w_clock w (ticks s) div 1000000) 300 (w_token_hex w (Suc (ticks s)))"
  from wr have e: "env = jset body ''sig'' (JStr (envelope_sig w body))" by (simp add: wrap_result Let_def body_def)
  have f: "int_field body ''expires_at'' = Inr (w_clock w (ticks s) div 1000000 + 300)"
    "nonce_key body = ''task-envelope-nonce:'' @ w_token_hex w (Suc (ticks s))"
    "jget body ''task'' = JStr RUN_DEPLOY" "jget body ''workspace_id'' = JInt (int x)"
    "jget body ''resource_id'' = JStr (py_str (or_else (JInt (int d)) (JStr [])))"
    by (simp_all add: body_def envelope_body_def int_field_def jget_def or_else_def nonce_key_def)
  have ver: "verify w (JObj env) u = (Inr body, u\<lparr>ticks := Suc (ticks u)\<rparr>)"
    unfolding e using body_def by (rule verify_wrapped) (use ascii early late in \<open>simp_all add: envelope_sig_def\<close>)
  define v where "v = u\<lparr>ticks := ticks u + 3, cache_entries := (nonce_key body, w_clock w (ticks u + 2) +
       seconds (max (w_clock w (ticks s) div 1000000 + 300 - w_clock w (Suc (ticks u)) div 1000000) 1)) #
       filter (\<lambda>(k, _). k \<noteq> nonce_key body) (cache_entries u)\<rparr>"
  have ws: "workspace_of v (ODeployment dep) = Some x"
    using deployment_workspace_cong [of v s dep] rows dep(2) by (simp add: v_def)
  have "reauthorize w (JObj env) (Some (ODeployment dep)) (Some RUN_DEPLOY) (Some (str_nat d)) u =
      check_claims w body (Some (ODeployment dep)) (Some RUN_DEPLOY) (Some (str_nat d)) v"
    unfolding v_def using fresh by (intro reauthorize_fresh ver f(1)) (simp add: f(2))
  also have "\<dots> = (Inr body, v)"
    using ws \<open>d \<noteq> 0\<close> by (simp add: check_claims_def f py_str_pk bnd_gets opt_int_def ret_def del: workspace_of.simps)
  finally have "authorised w (JObj env) dep d u = (Inr True, v)"
    by (simp add: authorised_def try_except_def bnd_def ret_def)
  then have "run_deploy w P d (Some (JObj env)) u = bnd (execute w P False d) (\<lambda>r. ret (Executed r)) v"
    using dep(1) rows(1) by (simp add: run_deploy_def bnd_gets deployment_by_pk_def bnd_Inr)
  moreover have "v\<lparr>ticks := 0, cache_entries := []\<rparr> = u\<lparr>ticks := 0, cache_entries := []\<rparr>" by (simp add: v_def)
  ultimately show ?thesis by blast
qed


lemma calm_ascii: "is_ascii (w_hmac calm_world k m)"
proof -
  have "hex_char n \<in> set ''0123456789abcdef''" for n
    unfolding hex_char_def by (rule nth_mem) (simp add: nat_less_iff)
  moreover have "\<forall>c\<in>set ''0123456789abcdef''. of_char c < (128 :: nat)" by simp
  ultimately have "of_char (hex_char n) < (128 :: nat)" for n by blast
  then show ?thesis by (simp add: calm_world_def checksum_digest_def is_ascii_def Let_def list_all_iff)
qed

lemma calm_clock: "w_clock calm_world n = int n * 1000000"
  by (simp add: calm_world_def seconds_def)

lemma sample_envelope: "\<exists>env. envelope_for_deploy calm_world 5 sample_hub = (Inr env, sample_hub\<lparr>ticks := 2\<rparr>)"
  by (simp add: envelope_for_deploy_def bnd_gets sample_hub_def deployment_by_pk_def queued_def deployment_site_def manifest_site_def
      manifest_by_pk_def sample_manifest_def site_by_pk_def sample_site_def wrap_result Let_def)

theorem honest_task_runs_witness:
  "\<exists>env v. run_deploy calm_world quiet_ports 5 (Some (JObj env)) (sample_hub\<lparr>ticks := 2\<rparr>) =
     bnd (execute calm_world quiet_ports False 5) (\<lambda>r. ret (Executed r)) v"
proof -
  obtain env where e: "envelope_for_deploy calm_world 5 sample_hub = (Inr env, sample_hub\<lparr>ticks := 2\<rparr>)" using sample_envelope ..
  have "ticks sample_hub = 0" "cache_entries sample_hub = []" by (simp_all add: sample_hub_def)
  then show ?thesis
    using honest_task_runs [of calm_world, OF _ e, of "sample_hub\<lparr>ticks := 2\<rparr>" quiet_ports] calm_ascii
    by (simp add: cached_def calm_world_def seconds_def) blast
qed

text \<open>
  No task without a signature. A deployment task whose envelope does not carry the HMAC of its own body
  (whatever else it is: forged, altered in any field, stripped of its signature, or no dictionary at all)
  never executes, and it leaves every table but the audit trail as it was.
\<close>

theorem unsigned_task_changes_nothing:
  assumes "\<not> signed w env"
  shows "beside_journal (snd (run_deploy w P d (Some env) s)) = beside_journal s \<and>
    (\<forall>r. fst (run_deploy w P d (Some env) s) \<noteq> Inr (Executed r))"
proof (cases "deployment_by_pk s d")
  case None
  then show ?thesis by (simp add: run_deploy_def bnd_gets throw_def)
next
  case (Some dep)
  obtain q t where q: "authorised w env dep d s = (q, t)" by fastforce
  have no: "verify w env s' \<noteq> (Inr body, u)" for s' body u
    using assms verify_InrD [of w env s' body u] by metis
  have "q \<noteq> Inr True"
  proof
    assume "q = Inr True"
    with q obtain body u where "reauthorize w env (Some (ODeployment dep)) (Some RUN_DEPLOY) (Some (str_nat d)) s = (Inr body, u)"
      by (auto simp: authorised_def try_except_def ret_def throw_def bnd_def split: prod.splits sum.splits exn.splits)
    then show False using no by (blast elim: reauthorize_InrD)
  qed
  then have r: "run_deploy w P d (Some env) s = (map_sum id (\<lambda>_. Refused ''envelope'') q, t)"
    using Some q by (cases q) (simp_all add: run_deploy_def bnd_gets, simp_all add: bnd_def ret_def)
  have "beside_journal t = beside_journal s"
  proof -
    have ver: "evolves (same beside_journal) (verify w env)"
      unfolding verify_def Let_def unix_time_def raise_or_def
      by (cases env) (auto intro!: frame.ev_rules timezone_now_journal)
    have "evolves (same beside_journal) (verify_or_report w env)"
      unfolding verify_or_report_def reject_def
      by (intro frame.ev_try_except ver) (auto split: exn.splits intro!: frame.ev_rules audit_journal)
    moreover obtain x u where xu: "verify_or_report w env s = (Inl x, u)"
      using no [of s] verify_or_report_Inr [of w env s] by (metis old.sum.exhaust surj_pair)
    ultimately have "beside_journal u = beside_journal s" by (rule frameD)
    moreover from q xu have "t = u"
      by (auto simp: authorised_def reauthorize_def try_except_def bnd_def ret_def throw_def split: exn.splits)
    ultimately show ?thesis by simp
  qed
  then show ?thesis by (cases q) (simp_all add: r)
qed

theorem unsigned_task_changes_nothing_witness:
  "fst (run_deploy calm_world quiet_ports 5 (Some (JArr [])) sample_hub) \<noteq> Inr (Executed NotStarted)"
  using unsigned_task_changes_nothing [of calm_world "JArr []" quiet_ports 5 sample_hub] by (simp add: signed_def)

text \<open>
  C12: An envelope works once. Once \<open>reauthorize\<close> has accepted an envelope, every later presentation of it,
  for whatever task and resource and after any further presentations of this or other envelopes, is
  refused as long as the clock has not reached the second in which the envelope expires.
\<close>

theorem envelope_single_use:
  assumes "mono (w_clock w)" "present w p s = (Inr body, t)" "int_field body ''expires_at'' = Inr expires"
    "pn_envelope q = pn_envelope p" "w_clock w (ticks (presented w ps t) + 2) < seconds expires"
  shows "\<exists>m. fst (present w q (presented w ps t)) = Inl (EnvelopeError m)"
proof -
  have "spent (nonce_key body) (seconds expires) (presented w ps t)"
    using assms(1-3) by (intro presented_spent) (auto intro: accepted_spends simp: present_def)
  moreover from assms(2) have "verify w (pn_envelope p) s = (Inr body, s\<lparr>ticks := Suc (ticks s)\<rparr>)"
    unfolding present_def by (rule reauthorize_InrD)
  ultimately show ?thesis using assms(3-5) unfolding present_def assms(4) by (intro replay_rejected)
qed


text \<open>A wrapped body is accepted whenever it is presented in time, for no resource in particular, and is not cached.\<close>

definition sample_body :: envelope where
  "sample_body = envelope_body RUN_DEPLOY (JInt 1) ''Deployment'' (JInt 5) ''hub'' 0 300 ''5''"

definition sample_signed :: "world \<Rightarrow> presentation" where
  "sample_signed w = \<lparr>pn_envelope = JObj (jset sample_body ''sig'' (JStr (envelope_sig w sample_body))),
     pn_resource = None, pn_task = None, pn_resource_id = None\<rparr>"

lemma sample_fields: "int_field sample_body ''expires_at'' = Inr 300" "nonce_key sample_body = ''task-envelope-nonce:5''"
  by (simp_all add: sample_body_def envelope_body_def int_field_def jget_def or_else_def nonce_key_def)

lemma present_sample:
  assumes "is_ascii (envelope_sig w sample_body)" "0 \<le> w_clock w (ticks u)" "w_clock w (ticks u) div 1000000 \<le> 300"
    "\<not> cached u ''task-envelope-nonce:5'' (w_clock w (ticks u + 2))"
  shows "present w (sample_signed w) u = (Inr sample_body, u\<lparr>ticks := ticks u + 3, cache_entries :=
     (''task-envelope-nonce:5'', w_clock w (ticks u + 2) + seconds (max (300 - w_clock w (Suc (ticks u)) div 1000000) 1)) #
      filter (\<lambda>(k, _). k \<noteq> ''task-envelope-nonce:5'') (cache_entries u)\<rparr>)"
proof -
  have "verify w (JObj (jset sample_body ''sig'' (JStr (envelope_sig w sample_body)))) u = (Inr sample_body, u\<lparr>ticks := Suc (ticks u)\<rparr>)"
    by (rule verify_wrapped [OF sample_body_def]) (use assms in simp_all)
  from reauthorize_fresh [OF this sample_fields(1)] assms(4) show ?thesis
    by (simp add: present_def sample_signed_def sample_fields check_claims_def ret_def)
qed

theorem envelope_single_use_witness:
  "\<exists>m. fst (present calm_world (sample_signed calm_world)
     (presented calm_world [] (snd (present calm_world (sample_signed calm_world) empty_hub)))) = Inl (EnvelopeError m)"
proof -
  have "is_ascii (envelope_sig calm_world sample_body)" unfolding envelope_sig_def by (rule calm_ascii)
  from present_sample [OF this, of empty_hub] obtain t where
    "present calm_world (sample_signed calm_world) empty_hub = (Inr sample_body, t)" "ticks t = 3"
    by (simp add: calm_clock cached_def)
  moreover have "mono (w_clock calm_world)" by (auto simp: mono_def calm_clock)
  ultimately show ?thesis
    using envelope_single_use [of calm_world "sample_signed calm_world" empty_hub sample_body t 300 "sample_signed calm_world" "[]"]
    by (simp add: sample_fields calm_clock seconds_def)
qed

text \<open>
  In the second in which an envelope expires it can be used again. The cache entry of an envelope accepted at the
  full second of its issue expires with that second, while \<open>verify\<close> compares truncated seconds and accepts
  the envelope for the rest of it: here at the instants 0 and 300.5.
\<close>

definition late_clock :: "nat \<Rightarrow> time" where
  "late_clock n = (if n < 3 then 0 else 300500000)"

lemma replay_in_last_second:
  defines "w \<equiv> calm_world\<lparr>w_clock := late_clock\<rparr>"
  shows "fst (present w (sample_signed w) empty_hub) = Inr sample_body \<and>
    fst (present w (sample_signed w) (snd (present w (sample_signed w) empty_hub))) = Inr sample_body"
proof -
  have w: "is_ascii (envelope_sig w sample_body)" "w_clock w = late_clock"
    using calm_ascii by (simp_all add: w_def envelope_sig_def)
  have "present w (sample_signed w) empty_hub = (Inr sample_body, empty_hub\<lparr>ticks := 3, cache_entries := [(''task-envelope-nonce:5'', seconds 300)]\<rparr>)"
    by (subst present_sample) (simp_all add: w late_clock_def cached_def)
  then show ?thesis
    by (simp, subst present_sample) (simp_all add: w late_clock_def cached_def seconds_def)
qed

text \<open>
  A signature that is not ASCII text makes the comparison raise a \<open>TypeError\<close>, which is no \<open>EnvelopeError\<close>:
  the forged envelope is refused, but no security event is written and the task ends with an exception.
\<close>

lemma odd_signature_unreported:
  "run_deploy w P 5 (Some (JObj [(''sig'', JStr [char_of (233 :: nat)])])) sample_hub =
    (Inl (TypeError ''comparing strings with non-ASCII characters is not supported''), sample_hub)"
proof -
  have "\<not> is_ascii [char_of (233 :: nat)]" by (simp add: is_ascii_def)
  then have "verify w (JObj [(''sig'', JStr [char_of (233 :: nat)])]) sample_hub =
      (Inl (TypeError ''comparing strings with non-ASCII characters is not supported''), sample_hub)"
    by (simp add: verify_def Let_def has_key_def jget_def bnd_raise_or)
  then show ?thesis
    by (simp add: run_deploy_def bnd_gets, simp add: sample_hub_def deployment_by_pk_def queued_def authorised_def
        reauthorize_def verify_or_report_def try_except_def bnd_def throw_def)
qed

end
