(* ===== verification/Partner_Verify.thy ===== *)
theory Partner_Verify
  imports Task_Envelope Cycle_Facts Rbac
begin

text \<open>
  \<open>core/partner_verify.py\<close> with the reads of \<open>deploys/partner_ledger.py\<close> it needs: the check of a signed partner
  request against the key slots of the partner row. Ed25519 and SHA-256 are parameters; base64, the header
  lookup, the canonical text and the path patterns are modelled. Bytes are characters below 256.
\<close>

section \<open>Constants\<close>

definition SIGNATURE_WINDOW_S :: int where
  "SIGNATURE_WINDOW_S = 300"

definition NONCE_TTL_S :: int where
  "NONCE_TTL_S = 600"

definition IDEMPOTENCY_TTL_S :: int where
  "IDEMPOTENCY_TTL_S = 86400"

definition RATE_GENERAL_PER_MIN :: nat where
  "RATE_GENERAL_PER_MIN = 60"

definition RATE_DEPLOY_CREATE_PER_MIN :: nat where
  "RATE_DEPLOY_CREATE_PER_MIN = 3"

definition RATE_DEPLOY_CREATE_PER_DAY :: nat where
  "RATE_DEPLOY_CREATE_PER_DAY = 100"

definition DEFAULT_FLEET_MAX_SITES :: nat where
  "DEFAULT_FLEET_MAX_SITES = 12"


section \<open>Bytes\<close>

text \<open>\<open>str.encode("utf-8")\<close>.\<close>

definition utf8 :: "string \<Rightarrow> string" where
  "utf8 x = concat (map (\<lambda>c. let n = of_char c :: nat in
     if n < 128 then [c] else [char_of (192 + n div 64), char_of (128 + n mod 64)]) x)"

text \<open>\<open>base64.b64decode(x, validate=True)\<close>: a surplus of padding after whole groups of four digits is accepted.\<close>

definition b64_value :: "char \<Rightarrow> nat option" where
  "b64_value c = (let n = of_char c :: nat in
     if 65 \<le> n \<and> n \<le> 90 then Some (n - 65)
     else if 97 \<le> n \<and> n \<le> 122 then Some (n - 71)
     else if 48 \<le> n \<and> n \<le> 57 then Some (n + 4)
     else if n = 43 then Some 62 else if n = 47 then Some 63 else None)"

fun b64_bytes :: "nat list \<Rightarrow> nat list" where
  "b64_bytes (a # b # c # d # rest) =
     (a * 4 + b div 16) # (b mod 16 * 16 + c div 4) # (c mod 4 * 64 + d) # b64_bytes rest"
| "b64_bytes [a, b, c] = [a * 4 + b div 16, b mod 16 * 16 + c div 4]"
| "b64_bytes [a, b] = [a * 4 + b div 16]"
| "b64_bytes _ = []"

definition b64decode :: "string \<Rightarrow> string option" where
  "b64decode x = (let data = takeWhile (\<lambda>c. c \<noteq> CHR ''='') x; pads = dropWhile (\<lambda>c. c \<noteq> CHR ''='') x; q = length data mod 4 in
     if list_all (\<lambda>c. b64_value c \<noteq> None) data \<and> list_all (\<lambda>c. c = CHR ''='') pads \<and>
        (q = 0 \<and> (data \<noteq> [] \<or> pads = []) \<or> q = 2 \<and> length pads = 2 \<or> q = 3 \<and> length pads = 1)
     then Some (map char_of (b64_bytes (map (\<lambda>c. the (b64_value c)) data)))
     else None)"


section \<open>The request\<close>

definition as_bytes :: "json \<Rightarrow> string" where
  "as_bytes body = (if body = JNull then [] else utf8 (py_str body))"

definition canonical_string :: "world \<Rightarrow> string \<Rightarrow> string \<Rightarrow> json \<Rightarrow> string \<Rightarrow> string \<Rightarrow> string" where
  "canonical_string w method path body timestamp nonce =
     method @ nl @ path @ nl @ w_sha256 w (as_bytes body) @ nl @ timestamp @ nl @ nonce"

type_synonym headers = "(string \<times> json) list"

definition header_text :: "json \<Rightarrow> string" where
  "header_text v = strip (py_str (or_else v (JStr [])))"

definition header :: "headers \<Rightarrow> string \<Rightarrow> string" where
  "header hs name = (if has_key hs name then header_text (jget hs name)
     else case find (\<lambda>(k, v). lower k = lower name) hs of Some (k, v) \<Rightarrow> header_text v | None \<Rightarrow> [])"

definition load_pubkey :: "string \<Rightarrow> string option" where
  "load_pubkey blob = (let raw = strip blob in if raw = [] then None
     else case b64decode raw of None \<Rightarrow> None | Some data \<Rightarrow> if length data \<noteq> 32 then None else Some data)"

definition params_hash :: "world \<Rightarrow> string \<Rightarrow> string \<Rightarrow> json \<Rightarrow> string" where
  "params_hash w method path body = w_sha256 w (utf8 (method @ nl @ path @ nl) @ as_bytes body)"

text \<open>The instant a check is made for: the one the caller gives, or the clock.\<close>

definition clock_of :: "world \<Rightarrow> time option \<Rightarrow> time act" where
  "clock_of w now = (case now of Some t \<Rightarrow> ret t | None \<Rightarrow> timezone_now w)"

definition unix_of :: "world \<Rightarrow> time option \<Rightarrow> int act" where
  "unix_of w now = bnd (clock_of w now) (\<lambda>t. ret (t div 1000000))"

text \<open>\<open>verify_ed25519\<close> of \<open>vault/ssh.py\<close>.\<close>

definition verify_ed25519 :: "world \<Rightarrow> string \<Rightarrow> string \<Rightarrow> string \<Rightarrow> bool" where
  "verify_ed25519 w key signature message = (length key = 32 \<and> w_ed25519 w key signature message)"

definition signature_accepted :: "world \<Rightarrow> partner \<Rightarrow> string \<Rightarrow> string \<Rightarrow> exn + unit" where
  "signature_accepted w p signature message =
     (let keys = List.map_filter load_pubkey [p_pubkey_current p, p_pubkey_previous p] in
      if keys = [] then Inl (SignatureRejected ''no partner public key'')
      else if list_ex (\<lambda>key. verify_ed25519 w key signature message) keys then Inr ()
      else Inl (SignatureRejected ''invalid signature''))"

definition verify_signature :: "world \<Rightarrow> partner \<Rightarrow> string \<Rightarrow> string \<Rightarrow> json \<Rightarrow> headers \<Rightarrow> time option \<Rightarrow> string act" where
  "verify_signature w p method path body hs now =
     (let ts = header hs ''X-Partner-Timestamp''; nonce = header hs ''X-Partner-Nonce''; sig = header hs ''X-Partner-Signature'' in
      if ts = [] \<or> nonce = [] \<or> sig = [] then throw (SignatureRejected ''missing signature headers'')
      else case py_int (JStr ts) of
        Inl _ \<Rightarrow> throw (SignatureRejected ''invalid timestamp'')
      | Inr ts_i \<Rightarrow> bnd (unix_of w now) (\<lambda>unix.
          if \<bar>unix - ts_i\<bar> > SIGNATURE_WINDOW_S then throw (SignatureRejected ''expired'')
          else let message = canonical_string w method path body ts nonce in
            case (if is_ascii sig then b64decode sig else None) of
              None \<Rightarrow> throw (SignatureRejected ''invalid signature'')
            | Some signature \<Rightarrow>
                if \<not> is_ascii message then throw (SignatureRejected ''invalid signature'')
                else bnd (raise_or (signature_accepted w p signature message)) (\<lambda>_. ret nonce)))"


section \<open>Nonces\<close>

definition partner_facts :: "partner \<Rightarrow> string \<Rightarrow> string \<Rightarrow> string \<Rightarrow> string \<Rightarrow> alert_facts" where
  "partner_facts p fp title body fix_action = \<lparr>af_fingerprint = Some fp, af_source_engine = Some ''core.partner_verify'',
     af_workspace = Some (p_workspace p), af_obj = None, af_title = title, af_body = body, af_fix_action = fix_action,
     af_details = no_details\<rparr>"

definition file_replay :: "world \<Rightarrow> partner \<Rightarrow> unit act" where
  "file_replay w p = bnd (raise_alert w ''partner-replay'' (''partner:'' @ str_nat (p_pk p))
     (partner_facts p (''partner-replay:'' @ str_nat (p_pk p)) ''Partner request replayed''
       (''A signed partner request reused a nonce the Hub already accepted. '' @
        ''The Hub rejected it; intake forwarding does not override this.'')
       ''Rotate the partner key if this was not an operator retry.'')) (\<lambda>_. ret ())"

definition known_nonce :: "nat \<Rightarrow> string \<Rightarrow> replay_nonce \<Rightarrow> bool" where
  "known_nonce partner nonce r = (rn_partner r = partner \<and> rn_nonce r = nonce)"

text \<open>\<open>PartnerReplayNonce.objects.create\<close>: the uniqueness constraint refuses a second row.\<close>

definition create_nonce :: "world \<Rightarrow> nat \<Rightarrow> string \<Rightarrow> unit act" where
  "create_nonce w partner nonce = bnd (timezone_now w) (\<lambda>now. (\<lambda>s.
     if list_ex (known_nonce partner nonce) (replay_nonces s) then (Inl IntegrityError, s)
     else (Inr (), s\<lparr>replay_nonces := replay_nonces s @ [\<lparr>rn_partner = partner, rn_nonce = nonce, rn_seen_at = now\<rparr>]\<rparr>)))"

definition purge_nonces :: "nat \<Rightarrow> time \<Rightarrow> unit act" where
  "purge_nonces partner cutoff = modify (\<lambda>s. s\<lparr>replay_nonces :=
     filter (\<lambda>r. \<not> (rn_partner r = partner \<and> rn_seen_at r < cutoff)) (replay_nonces s)\<rparr>)"

definition refuse_replay :: "world \<Rightarrow> partner \<Rightarrow> unit act" where
  "refuse_replay w p = andThen (file_replay w p) (throw (ReplayRejected ''replayed nonce''))"

definition remember_nonce :: "world \<Rightarrow> partner \<Rightarrow> string \<Rightarrow> time option \<Rightarrow> bool \<Rightarrow> unit act" where
  "remember_nonce w p nonce now persist =
     bnd (clock_of w now) (\<lambda>clock.
     andThen (purge_nonces (p_pk p) (clock - seconds NONCE_TTL_S))
     (if \<not> persist
      then bnd (gets (\<lambda>s. list_ex (known_nonce (p_pk p) nonce) (replay_nonces s))) (\<lambda>known.
        if known then refuse_replay w p else ret ())
      else try_except (atomically (create_nonce w (p_pk p) nonce))
        (\<lambda>e. if e = IntegrityError then refuse_replay w p else throw e)))"


section \<open>Quotas\<close>

record quota_decision =
  qd_refused :: bool
  qd_reason :: string
  qd_status :: nat
  qd_headers :: "(string \<times> string) list"

definition json_object :: "world \<Rightarrow> json \<Rightarrow> (string \<times> json) list" where
  "json_object w body = (case body of
     JObj d \<Rightarrow> d
   | JStr x \<Rightarrow> (if x = [] then [] else case w_loads w x of Some (JObj d) \<Rightarrow> d | _ \<Rightarrow> [])
   | _ \<Rightarrow> [])"

definition rate_headers :: "nat \<Rightarrow> nat \<Rightarrow> int \<Rightarrow> (string \<times> string) list" where
  "rate_headers limit used reset_unix = [(''X-RateLimit-Limit'', str_nat limit),
     (''X-RateLimit-Remaining'', str_nat (limit - used)), (''X-RateLimit-Reset'', str_int reset_unix)]"

definition partner_quota_row :: "hub \<Rightarrow> nat \<Rightarrow> (nat \<times> nat \<times> nat) option" where
  "partner_quota_row s pk = map_option (\<lambda>p. (p_max_sites p, p_deploys_per_day p, p_domains p)) (find (\<lambda>p. p_pk p = pk) (partners s))"

definition file_quota_abuse :: "world \<Rightarrow> partner \<Rightarrow> string \<Rightarrow> unit act" where
  "file_quota_abuse w p reason = bnd (raise_alert w ''budget-cap-hit'' ''partner''
     (partner_facts p ''budget-cap-hit:partner'' ''Partner quota cap hit''
       (''Partner '' @ str_nat (p_pk p) @ '' ('' @ p_slug p @ '') exceeded a Hub-authoritative U2 quota ('' @ reason @
        ''). Intake allow does not override this refuse.'')
       ''Reduce partner usage or raise the finite quota on this Partner; unbounded max_sites is out.'')) (\<lambda>_. ret ())"

definition binding_by_ref :: "hub \<Rightarrow> nat \<Rightarrow> string \<Rightarrow> partner_site option" where
  "binding_by_ref s partner tenant_ref = find (\<lambda>b. ps_partner b = partner \<and> ps_tenant_ref b = tenant_ref) (partner_sites s)"

definition resolve_partner_site :: "hub \<Rightarrow> nat \<Rightarrow> string \<Rightarrow> exn + nat option" where
  "resolve_partner_site s partner token =
     (let by_ref = map_option ps_site (binding_by_ref s partner token) in
      if isdigit token then
        (case int_of_ref token of Inl e \<Rightarrow> Inl e
         | Inr n \<Rightarrow> (case find (\<lambda>b. ps_partner b = partner \<and> ps_site b = n) (partner_sites s) of
             Some b \<Rightarrow> Inr (Some (ps_site b)) | None \<Rightarrow> Inr by_ref))
      else Inr by_ref)"

definition general_rate_used :: "hub \<Rightarrow> nat \<Rightarrow> string \<Rightarrow> time \<Rightarrow> nat" where
  "general_rate_used s partner nonce minute_start = length (filter (\<lambda>r. rn_partner r = partner \<and>
     minute_start \<le> rn_seen_at r \<and> (nonce = [] \<or> rn_nonce r \<noteq> nonce)) (replay_nonces s))"

text \<open>\<open>count_since\<close> of the ledger: the deployments of a partner, or of one site, by the age of their manifest.\<close>

definition site_partner :: "hub \<Rightarrow> nat \<Rightarrow> nat option" where
  "site_partner s site = map_option ps_partner (find (\<lambda>b. ps_site b = site) (partner_sites s))"

definition count_since :: "hub \<Rightarrow> nat \<Rightarrow> time \<Rightarrow> nat option \<Rightarrow> nat" where
  "count_since s partner since site = length (filter (\<lambda>d. case manifest_by_pk s (d_manifest d) of None \<Rightarrow> False
     | Some m \<Rightarrow> since \<le> mf_created_at m \<and>
         (case site of Some k \<Rightarrow> mf_site m = k | None \<Rightarrow> site_partner s (mf_site m) = Some partner)) (deployments s))"

text \<open>The three path patterns. \<open>$\<close> also matches before a final newline.\<close>

definition upper_char :: "char \<Rightarrow> string" where
  "upper_char c = (let n = of_char c :: nat in if n = 223 then ''SS''
     else if (97 \<le> n \<and> n \<le> 122) \<or> (224 \<le> n \<and> n \<le> 254 \<and> n \<noteq> 247) then [char_of (n - 32)] else [c])"

definition upper :: "string \<Rightarrow> string" where
  "upper x = concat (map upper_char x)"

definition ends_path :: "string \<Rightarrow> string \<Rightarrow> bool" where
  "ends_path p rest = (rest \<in> {p, p @ ''/'', p @ nl, p @ ''/'' @ nl})"

definition SITES :: string where
  "SITES = ''/partner/v1/sites''"

definition sites_path :: "string \<Rightarrow> bool" where
  "sites_path path = ends_path SITES path"

definition site_sub_path :: "string \<Rightarrow> string \<Rightarrow> string option" where
  "site_sub_path tail path = (let start = SITES @ ''/'' in
     if \<not> prefix start path then None
     else let rest = drop (length start) path; token = takeWhile (\<lambda>c. c \<noteq> CHR ''/'') rest in
       if token \<noteq> [] \<and> ends_path tail (drop (length token) rest) then Some token else None)"

definition quota_refuse :: "world \<Rightarrow> partner \<Rightarrow> string \<Rightarrow> nat \<Rightarrow> (string \<times> string) list \<Rightarrow> quota_decision act" where
  "quota_refuse w p reason status hs = andThen (when_do (reason \<noteq> ''rate'') (file_quota_abuse w p reason))
     (ret \<lparr>qd_refused = True, qd_reason = reason, qd_status = status, qd_headers = hs\<rparr>)"

definition quota_pass :: "(string \<times> string) list \<Rightarrow> quota_decision" where
  "quota_pass hs = \<lparr>qd_refused = False, qd_reason = [], qd_status = 403, qd_headers = hs\<rparr>"

definition fleet_cap :: "world \<Rightarrow> nat" where
  "fleet_cap w = (if w_fleet_max_sites w = 0 then DEFAULT_FLEET_MAX_SITES else w_fleet_max_sites w)"

definition tenant_of :: "(string \<times> json) list \<Rightarrow> string" where
  "tenant_of payload = strip (py_str (or_else (jget payload ''tenant_ref'') (JStr [])))"

text \<open>The part of \<open>evaluate_quotas\<close> about a new site: the caps a site that is not bound yet runs into.\<close>

definition site_cap_hit :: "world \<Rightarrow> hub \<Rightarrow> nat \<Rightarrow> nat \<Rightarrow> (string \<times> json) list \<Rightarrow> bool" where
  "site_cap_hit w s partner max_sites payload =
     (let tenant_ref = tenant_of payload;
          existing = (tenant_ref \<noteq> [] \<and> binding_by_ref s partner tenant_ref \<noteq> None) in
      \<not> existing \<and> (length (filter (\<lambda>b. ps_partner b = partner) (partner_sites s)) \<ge> max_sites \<or>
                    length (partner_sites s) \<ge> fleet_cap w))"

definition partner_domains :: "hub \<Rightarrow> nat \<Rightarrow> string set" where
  "partner_domains s partner = (casefold \<circ> s_domain) ` set (filter (\<lambda>r. s_domain r \<noteq> [] \<and> site_partner s (s_pk r) = Some partner) (sites s))"

definition domain_cap_hit :: "hub \<Rightarrow> nat \<Rightarrow> nat \<Rightarrow> (string \<times> json) list \<Rightarrow> bool" where
  "domain_cap_hit s partner domains payload =
     (let names = partner_domains s partner;
          extra = casefold (strip (py_str (or_else (or_else (jget payload ''hostname'') (jget payload ''domain'')) (JStr [])))) in
      extra \<noteq> [] \<and> extra \<notin> names \<and> card names \<ge> domains)"

text \<open>The part about a new deployment. \<open>None\<close>: no rule of this part applies to the request.\<close>

definition deploy_quota :: "world \<Rightarrow> partner \<Rightarrow> nat \<Rightarrow> time \<Rightarrow> int \<Rightarrow> (string \<times> string) list \<Rightarrow> string \<Rightarrow> quota_decision option act" where
  "deploy_quota w p deploys_per_day clock reset_unix general_headers token =
     bnd (gets (\<lambda>s. (count_since s (p_pk p) (clock - hours 24) None, resolve_partner_site s (p_pk p) token, s))) (\<lambda>(day_count, found, s).
     if day_count \<ge> deploys_per_day then bnd (quota_refuse w p ''quota'' 403 general_headers) (\<lambda>d. ret (Some d))
     else bnd (raise_or found) (\<lambda>site. case site of
       None \<Rightarrow> ret None
     | Some k \<Rightarrow>
         (let per_min = count_since s (p_pk p) (clock - seconds 60) (Some k); per_day = count_since s (p_pk p) (clock - hours 24) (Some k);
              deploy_headers = rate_headers RATE_DEPLOY_CREATE_PER_MIN per_min reset_unix in
          if per_min \<ge> RATE_DEPLOY_CREATE_PER_MIN then bnd (quota_refuse w p ''rate'' 429 deploy_headers) (\<lambda>d. ret (Some d))
          else if per_day \<ge> RATE_DEPLOY_CREATE_PER_DAY
          then bnd (quota_refuse w p ''rate'' 429 (rate_headers RATE_DEPLOY_CREATE_PER_DAY per_day reset_unix)) (\<lambda>d. ret (Some d))
          else ret (Some (quota_pass deploy_headers)))))"

definition evaluate_quotas :: "world \<Rightarrow> partner \<Rightarrow> string \<Rightarrow> string \<Rightarrow> time option \<Rightarrow> json \<Rightarrow> string \<Rightarrow> quota_decision act" where
  "evaluate_quotas w p method0 path now body nonce =
     bnd (clock_of w now) (\<lambda>clock.
     bnd (gets (\<lambda>s. (general_rate_used s (p_pk p) nonce (clock - seconds 60), partner_quota_row s (p_pk p)))) (\<lambda>(used, row).
     let reset_unix = clock div 1000000 + 60; method = upper method0; payload = json_object w body;
         general_headers = rate_headers RATE_GENERAL_PER_MIN used reset_unix in
     if used \<ge> RATE_GENERAL_PER_MIN then quota_refuse w p ''rate'' 429 general_headers
     else case row of
       None \<Rightarrow> quota_refuse w p ''quota'' 403 general_headers
     | Some (max_sites, deploys_per_day, domains) \<Rightarrow>
         if min max_sites (min deploys_per_day domains) < 1 then quota_refuse w p ''quota'' 403 general_headers
         else bnd (gets (\<lambda>s. method = ''POST'' \<and> sites_path path \<and> site_cap_hit w s (p_pk p) max_sites payload)) (\<lambda>site_capped.
           if site_capped then quota_refuse w p ''quota'' 403 general_headers
           else bnd (case (if method = ''POST'' then site_sub_path ''/deployments'' path else None) of
                None \<Rightarrow> ret None
              | Some token \<Rightarrow> deploy_quota w p deploys_per_day clock reset_unix general_headers token) (\<lambda>decided.
             case decided of Some d \<Rightarrow> ret d
             | None \<Rightarrow> bnd (gets (\<lambda>s. method = ''POST'' \<and> site_sub_path ''/domains'' path \<noteq> None \<and>
                   domain_cap_hit s (p_pk p) domains payload)) (\<lambda>domain_capped.
                 if domain_capped then quota_refuse w p ''quota'' 403 general_headers
                 else ret (quota_pass general_headers))))))"


section \<open>Idempotency keys and the whole check\<close>

record verify_result =
  vr_ok :: bool
  vr_status :: nat
  vr_response :: json
  vr_reason :: string
  vr_nonce :: string
  vr_headers :: "(string \<times> string) list"

definition key_row :: "nat \<Rightarrow> string \<Rightarrow> idempotency_key \<Rightarrow> bool" where
  "key_row partner key r = (ik_partner r = partner \<and> ik_key r = key)"

definition idempotency_cached :: "world \<Rightarrow> partner \<Rightarrow> string \<Rightarrow> string \<Rightarrow> time option \<Rightarrow> string \<Rightarrow> verify_result option act" where
  "idempotency_cached w p idem_key params now nonce =
     bnd (gets (\<lambda>s. find (key_row (p_pk p) idem_key) (idempotency_keys s))) (\<lambda>found. case found of
       None \<Rightarrow> ret None
     | Some r \<Rightarrow> bnd (clock_of w now) (\<lambda>clock.
         if ik_created_at r < clock - seconds IDEMPOTENCY_TTL_S
         then andThen (modify (\<lambda>s. s\<lparr>idempotency_keys := filter (\<lambda>x. \<not> key_row (p_pk p) idem_key x) (idempotency_keys s)\<rparr>)) (ret None)
         else if ik_params_hash r \<noteq> params
         then ret (Some \<lparr>vr_ok = False, vr_status = 422, vr_response = JObj [], vr_reason = ''idempotency'', vr_nonce = nonce, vr_headers = []\<rparr>)
         else ret (Some \<lparr>vr_ok = ik_status_code r < 400, vr_status = ik_status_code r, vr_response = ik_response r,
             vr_reason = ''idempotency-match'', vr_nonce = nonce, vr_headers = []\<rparr>)))"

definition store_idempotency :: "world \<Rightarrow> partner \<Rightarrow> string \<Rightarrow> string \<Rightarrow> verify_result \<Rightarrow> unit act" where
  "store_idempotency w p idem_key params result = when_do (idem_key \<noteq> [])
     (bnd (timezone_now w) (\<lambda>now. modify (\<lambda>s.
       if list_ex (key_row (p_pk p) idem_key) (idempotency_keys s) then s
       else s\<lparr>idempotency_keys := idempotency_keys s @ [\<lparr>ik_partner = p_pk p, ik_key = idem_key, ik_params_hash = params,
          ik_status_code = vr_status result, ik_response = vr_response result, ik_created_at = now\<rparr>]\<rparr>)))"

definition quota_result :: "string \<Rightarrow> quota_decision \<Rightarrow> verify_result" where
  "quota_result nonce d = (if qd_refused d
     then \<lparr>vr_ok = False, vr_status = qd_status d, vr_response = JObj [], vr_reason = qd_reason d, vr_nonce = nonce, vr_headers = qd_headers d\<rparr>
     else \<lparr>vr_ok = True, vr_status = 202, vr_response = JObj [(''accepted'', JBool True)], vr_reason = [], vr_nonce = nonce,
       vr_headers = qd_headers d\<rparr>)"

record partner_request =
  rq_method :: string
  rq_path :: string
  rq_body :: json
  rq_headers :: headers

text \<open>The part of \<open>reverify\<close> after the nonce: the stored answer of the idempotency key, or a new one by the quotas.\<close>

definition answer_request :: "world \<Rightarrow> partner \<Rightarrow> partner_request \<Rightarrow> time option \<Rightarrow> bool \<Rightarrow> string \<Rightarrow> verify_result act" where
  "answer_request w p q now persist_idempotency nonce =
     (let idem_key = header (rq_headers q) ''Idempotency-Key''; params = params_hash w (rq_method q) (rq_path q) (rq_body q) in
      bnd (if idem_key \<noteq> [] then idempotency_cached w p idem_key params now nonce else ret None) (\<lambda>cached.
      case cached of Some r \<Rightarrow> ret r
      | None \<Rightarrow> bnd (evaluate_quotas w p (rq_method q) (rq_path q) now (rq_body q) nonce) (\<lambda>decision.
          let result = quota_result nonce decision in
          andThen (when_do (idem_key \<noteq> [] \<and> persist_idempotency) (store_idempotency w p idem_key params result))
          (ret result))))"

definition reverify :: "world \<Rightarrow> partner \<Rightarrow> partner_request \<Rightarrow> time option \<Rightarrow> bool \<Rightarrow> bool \<Rightarrow> verify_result act" where
  "reverify w p q now remember persist_idempotency =
     bnd (verify_signature w p (rq_method q) (rq_path q) (rq_body q) (rq_headers q) now) (\<lambda>nonce.
     andThen (remember_nonce w p nonce now remember)
     (answer_request w p q now persist_idempotency nonce))"


section \<open>What the check writes\<close>

lemma clock_of_engine [engine_frames]: "evolves (same beside_engine) (clock_of w now)"
  unfolding clock_of_def by (intro frame.ev_rules engine_frames)

lemma raise_or_engine [engine_frames]: "evolves (same beside_engine) (raise_or x)"
  unfolding raise_or_def by (intro frame.ev_rules)

lemma alert_engine [engine_frames]:
  "evolves (same beside_engine) (file_replay w p)" "evolves (same beside_engine) (refuse_replay w p)"
  "evolves (same beside_engine) (file_quota_abuse w p reason)" "evolves (same beside_engine) (quota_refuse w p reason status hs)"
  unfolding file_replay_def refuse_replay_def file_quota_abuse_def quota_refuse_def by (intro frame.ev_rules engine_frames)+

lemma deploy_quota_engine [engine_frames]: "evolves (same beside_engine) (deploy_quota w p n clock reset hs token)"
  unfolding deploy_quota_def Let_def by (intro frame.ev_rules engine_frames)

lemma evaluate_quotas_engine [engine_frames]: "evolves (same beside_engine) (evaluate_quotas w p method path now body nonce)"
  unfolding evaluate_quotas_def Let_def by (intro frame.ev_rules engine_frames)

lemma verify_signature_engine [engine_frames]: "evolves (same beside_engine) (verify_signature w p method path body hs now)"
  unfolding verify_signature_def unix_of_def Let_def by (intro frame.ev_rules engine_frames)

lemma engine_nonces: "evolves (same beside_engine) m \<Longrightarrow> evolves (same replay_nonces) m"
  by (rule engine_field) (simp add: beside_engine_def)

lemma idempotency_nonces:
  "evolves (same replay_nonces) (idempotency_cached w p key params now nonce)" "evolves (same replay_nonces) (store_idempotency w p key params r)"
  unfolding idempotency_cached_def store_idempotency_def
  by (intro frame.ev_rules modify_frame engine_nonces [OF clock_of_engine] engine_nonces [OF basic_engine(2)]; simp)+


lemma answer_nonces: "evolves (same replay_nonces) (answer_request w p q now idem nonce)"
  unfolding answer_request_def Let_def
  by (intro frame.ev_rules idempotency_nonces engine_nonces [OF evaluate_quotas_engine])

lemma reverify_InrD:
  assumes "reverify w p q now rem idem s = (Inr r, t)"
  obtains n u v where "verify_signature w p (rq_method q) (rq_path q) (rq_body q) (rq_headers q) now s = (Inr n, u)"
    "remember_nonce w p n now rem u = (Inr (), v)" "answer_request w p q now idem n v = (Inr r, t)"
  using assms unfolding reverify_def andThen_def fst_bnd_Inr by auto


section \<open>Accepted signatures\<close>

lemma bnd_clock_Some [simp]: "bnd (clock_of w (Some t)) k = k t"
  by (simp add: clock_of_def)

lemma bnd_unix_Some [simp]: "bnd (unix_of w (Some t)) k = k (t div 1000000)"
  by (simp add: unix_of_def)

lemma verify_signature_InrD:
  assumes "verify_signature w p method path body hs (Some now) s = (Inr nonce, t)"
  obtains ts_i sig key where "t = s" "nonce = header hs ''X-Partner-Nonce''" "nonce \<noteq> []"
    "py_int (JStr (header hs ''X-Partner-Timestamp'')) = Inr ts_i" "\<bar>now div 1000000 - ts_i\<bar> \<le> SIGNATURE_WINDOW_S"
    "Some key \<in> {load_pubkey (p_pubkey_current p), load_pubkey (p_pubkey_previous p)}"
    "w_ed25519 w key sig (canonical_string w method path body (header hs ''X-Partner-Timestamp'') nonce)"
proof -
  from assms obtain ts_i sig where v: "t = s" "nonce = header hs ''X-Partner-Nonce''" "nonce \<noteq> []"
    "py_int (JStr (header hs ''X-Partner-Timestamp'')) = Inr ts_i" "\<bar>now div 1000000 - ts_i\<bar> \<le> SIGNATURE_WINDOW_S"
    "signature_accepted w p sig (canonical_string w method path body (header hs ''X-Partner-Timestamp'') nonce) = Inr ()"
    by (auto simp: verify_signature_def Let_def fst_bnd_raise_or ret_def split: if_splits sum.splits option.splits)
  from v(6) obtain key where "Some key \<in> {load_pubkey (p_pubkey_current p), load_pubkey (p_pubkey_previous p)}"
    "w_ed25519 w key sig (canonical_string w method path body (header hs ''X-Partner-Timestamp'') nonce)"
    by (auto simp: signature_accepted_def Let_def list_ex_iff map_filter_def verify_ed25519_def split: if_splits)
  with v show thesis by (intro that)
qed

text \<open>The canonical text determines its lines when one of the two requests has no newline in them.\<close>

definition newlines :: "string \<Rightarrow> nat" where
  "newlines x = length (filter (\<lambda>c. c = CHR 0x0A) x)"

lemma nl_char: "nl = [CHR 0x0A]"
  by code_simp

lemma newlines_simps [simp]: "newlines [] = 0" "newlines (x @ y) = newlines x + newlines y" "newlines nl = 1"
  by (simp_all add: newlines_def nl_char)

lemma newlines_0: "newlines x = 0 \<longleftrightarrow> CHR 0x0A \<notin> set x"
  by (auto simp: newlines_def filter_empty_conv)

lemma line_split:
  "a @ nl @ x = b @ nl @ y \<Longrightarrow> newlines a = 0 \<Longrightarrow> newlines b = 0 \<Longrightarrow> a = b \<and> x = y"
proof (induction a arbitrary: b)
  case Nil
  then show ?case by (cases b) (auto simp: newlines_0 nl_char)
next
  case (Cons c a)
  then show ?case by (cases b) (auto simp: newlines_0 nl_char)
qed

lemma lines_determined:
  assumes "a @ nl @ b @ nl @ c @ nl @ d @ nl @ e = a' @ nl @ b' @ nl @ c' @ nl @ d' @ nl @ e'"
    "newlines a + newlines b + newlines c + newlines d + newlines e = 0"
  shows "a = a' \<and> b = b' \<and> c = c' \<and> d = d' \<and> e = e'"
proof -
  have "newlines (a @ nl @ b @ nl @ c @ nl @ d @ nl @ e) = newlines (a' @ nl @ b' @ nl @ c' @ nl @ d' @ nl @ e')"
    using assms(1) by simp
  with assms(2) have z: "newlines a' = 0" "newlines b' = 0" "newlines c' = 0" "newlines d' = 0" "newlines e' = 0" by simp_all
  note 1 = line_split [OF assms(1)]
  with assms(2) z have "a = a'" and 2: "b @ nl @ c @ nl @ d @ nl @ e = b' @ nl @ c' @ nl @ d' @ nl @ e'" by simp_all
  from line_split [OF 2] assms(2) z have "b = b'" and 3: "c @ nl @ d @ nl @ e = c' @ nl @ d' @ nl @ e'" by simp_all
  from line_split [OF 3] assms(2) z have "c = c'" and 4: "d @ nl @ e = d' @ nl @ e'" by simp_all
  from line_split [OF 4] assms(2) z \<open>a = a'\<close> \<open>b = b'\<close> \<open>c = c'\<close> show ?thesis by simp
qed


section \<open>A remembered nonce stays for the whole window\<close>

text \<open>A row of the nonce seen at \<open>limit\<close> or later.\<close>

definition remembered :: "nat \<Rightarrow> string \<Rightarrow> time \<Rightarrow> hub \<Rightarrow> bool" where
  "remembered partner nonce limit s = list_ex (\<lambda>r. known_nonce partner nonce r \<and> limit \<le> rn_seen_at r) (replay_nonces s)"

lemma remembered_known: "remembered partner nonce limit s \<Longrightarrow> list_ex (known_nonce partner nonce) (replay_nonces s)"
  by (auto simp: remembered_def list_ex_iff)

interpretation memory: evolution "\<lambda>s t. remembered partner nonce limit s \<longrightarrow> remembered partner nonce limit t" for partner nonce limit
  by unfold_locales auto

lemma same_nonces_remembered:
  "evolves (same replay_nonces) m \<Longrightarrow> evolves (\<lambda>s t. remembered partner nonce limit s \<longrightarrow> remembered partner nonce limit t) m"
  unfolding evolves_def same_def remembered_def by metis

lemma purge_remembered:
  assumes "cutoff \<le> limit"
  shows "evolves (\<lambda>s t. remembered partner nonce limit s \<longrightarrow> remembered partner nonce limit t) (purge_nonces p cutoff)"
  unfolding purge_nonces_def
proof (rule memory.ev_modify)
  fix s
  show "remembered partner nonce limit s \<longrightarrow> remembered partner nonce limit (s\<lparr>replay_nonces :=
      filter (\<lambda>r. \<not> (rn_partner r = p \<and> rn_seen_at r < cutoff)) (replay_nonces s)\<rparr>)"
    using assms by (force simp: remembered_def list_ex_iff)
qed

lemma create_remembered:
  "evolves (\<lambda>s t. remembered partner nonce limit s \<longrightarrow> remembered partner nonce limit t) (create_nonce w p n)"
  by (auto simp: evolves_def create_nonce_def bnd_now remembered_def)

lemma remember_nonce_keeps:
  assumes "at_time - seconds NONCE_TTL_S \<le> limit"
  shows "evolves (\<lambda>s t. remembered partner nonce limit s \<longrightarrow> remembered partner nonce limit t)
    (remember_nonce w p n (Some at_time) persist)"
  unfolding remember_nonce_def bnd_clock_Some
  by (intro memory.ev_rules purge_remembered [OF assms] create_remembered same_nonces_remembered [OF engine_nonces [OF alert_engine(2)]])

lemma reverify_keeps:
  assumes "at_time - seconds NONCE_TTL_S \<le> limit"
  shows "evolves (\<lambda>s t. remembered partner nonce limit s \<longrightarrow> remembered partner nonce limit t)
    (reverify w p q (Some at_time) rem idem)"
  unfolding reverify_def
  by (intro memory.ev_rules remember_nonce_keeps [OF assms] same_nonces_remembered [OF answer_nonces]
      same_nonces_remembered [OF engine_nonces [OF verify_signature_engine]])


text \<open>After an accepted check the nonce is remembered, with the instant of its row.\<close>

lemma create_nonce_remembers:
  assumes "create_nonce w p n s = (Inr (), t)" "limit \<le> w_clock w (ticks s)"
  shows "remembered p n limit t"
  using assms by (auto simp: create_nonce_def bnd_now remembered_def known_nonce_def split: if_splits)

lemma refuse_replay_raises: "refuse_replay w p s \<noteq> (Inr x, t)"
  by (auto simp: refuse_replay_def andThen_def fst_bnd_Inr)

lemma remember_nonce_persists:
  assumes "remember_nonce w p n (Some t1) True s = (Inr (), t)" "limit \<le> w_clock w (ticks s)"
  shows "remembered (p_pk p) n limit t"
proof -
  from assms(1) obtain u where u: "purge_nonces (p_pk p) (t1 - seconds NONCE_TTL_S) s = (Inr (), u)"
    "try_except (atomically (create_nonce w (p_pk p) n)) (\<lambda>e. if e = IntegrityError then refuse_replay w p else throw e) u = (Inr (), t)"
    by (auto simp: remember_nonce_def andThen_def fst_bnd_Inr)
  from u(1) have "ticks u = ticks s" by (auto simp: purge_nonces_def modify_def)
  moreover from u(2) have "create_nonce w (p_pk p) n u = (Inr (), t)"
    by (auto simp: try_except_def atomically_def refuse_replay_raises split: prod.splits sum.splits if_splits)
  ultimately show ?thesis using assms(2) create_nonce_remembers [of w "p_pk p" n u t limit] by simp
qed

lemma remember_nonce_refuses:
  assumes "remembered (p_pk p) n limit s" "at_time - seconds NONCE_TTL_S \<le> limit"
  shows "\<exists>e. fst (remember_nonce w p n (Some at_time) persist s) = Inl e"
proof -
  define u where "u = snd (purge_nonces (p_pk p) (at_time - seconds NONCE_TTL_S) s)"
  have u: "purge_nonces (p_pk p) (at_time - seconds NONCE_TTL_S) s = (Inr (), u)"
    by (simp add: u_def purge_nonces_def modify_def)
  have "remembered (p_pk p) n limit u"
    using purge_remembered [OF assms(2)] assms(1) unfolding evolves_def u_def by blast
  then have known: "list_ex (known_nonce (p_pk p) n) (replay_nonces u)" by (rule remembered_known)
  have raises: "\<exists>e. fst (refuse_replay w p v) = Inl e" for v
    by (cases "refuse_replay w p v", cases "fst (refuse_replay w p v)") (auto simp: refuse_replay_raises)
  have "fst (create_nonce w (p_pk p) n u) = Inl IntegrityError" using known by (simp add: create_nonce_def bnd_now)
  then have "\<exists>e. fst (try_except (atomically (create_nonce w (p_pk p) n)) (\<lambda>e. if e = IntegrityError then refuse_replay w p else throw e) u) = Inl e"
    using raises by (auto simp: try_except_def atomically_def split: prod.splits)
  with known raises show ?thesis
    by (simp add: remember_nonce_def andThen_def bnd_Inr [where m = "purge_nonces _ _", OF u] bnd_gets)
qed

text \<open>Checks of any partners' requests at given instants, one after the other.\<close>

record check =
  ck_partner :: partner
  ck_request :: partner_request
  ck_at :: time
  ck_remember :: bool
  ck_idempotency :: bool

definition run_check :: "world \<Rightarrow> check \<Rightarrow> verify_result act" where
  "run_check w c = reverify w (ck_partner c) (ck_request c) (Some (ck_at c)) (ck_remember c) (ck_idempotency c)"

fun checked :: "world \<Rightarrow> check list \<Rightarrow> hub \<Rightarrow> hub" where
  "checked w [] s = s"
| "checked w (c # cs) s = checked w cs (snd (run_check w c s))"

lemma checked_remembered:
  "\<forall>c\<in>set cs. ck_at c - seconds NONCE_TTL_S \<le> limit \<Longrightarrow> remembered partner nonce limit s \<Longrightarrow>
   remembered partner nonce limit (checked w cs s)"
proof (induction cs arbitrary: s)
  case (Cons c cs)
  then show ?case using reverify_keeps [of "ck_at c" limit partner nonce w "ck_partner c" "ck_request c" "ck_remember c" "ck_idempotency c"]
    by (simp add: run_check_def evolves_def)
qed simp

lemma nonce_bound:
  fixes t1 t2 ts :: int
  assumes "\<bar>t1 div 1000000 - ts\<bar> \<le> 300" "\<bar>t2 div 1000000 - ts\<bar> \<le> 300" "t2 mod 1000000 \<le> t1 mod 1000000"
  shows "t2 - 600 * 1000000 \<le> t1"
proof -
  have "t2 = 1000000 * (t2 div 1000000) + t2 mod 1000000" "t1 = 1000000 * (t1 div 1000000) + t1 mod 1000000" by simp_all
  with assms show ?thesis by linarith
qed


section \<open>Properties\<close>



definition demo_partner :: partner where
  "demo_partner = \<lparr>p_pk = 1, p_workspace = 1, p_slug = ''acme'', p_name = ''Acme'', p_pubkey_current = replicate 43 (CHR ''A'') @ ''='',
     p_pubkey_previous = [], p_max_sites = 5, p_deploys_per_day = 50, p_domains = 5, p_destination_order = JArr [JInt 3],
     p_suspended = False, p_webhook_url = []\<rparr>"

definition demo_request :: "string \<Rightarrow> partner_request" where
  "demo_request ts = \<lparr>rq_method = ''GET'', rq_path = ''/partner/v1/deployments/4'', rq_body = JNull,
     rq_headers = [(''X-Partner-Timestamp'', JStr ts), (''X-Partner-Nonce'', JStr ''n1''), (''X-Partner-Signature'', JStr ''AAAA'')]\<rparr>"

definition demo_check :: "string \<Rightarrow> time \<Rightarrow> check" where
  "demo_check ts now = \<lparr>ck_partner = demo_partner, ck_request = demo_request ts, ck_at = now, ck_remember = True, ck_idempotency = True\<rparr>"

definition demo_hub :: hub where
  "demo_hub = empty_hub\<lparr>partners := [demo_partner]\<rparr>"

definition answered :: "(exn + verify_result) \<times> hub \<Rightarrow> bool" where
  "answered x = (case fst x of Inr r \<Rightarrow> vr_ok r | Inl _ \<Rightarrow> False)"

lemma demo_accepted: "answered (run_check calm_world (demo_check ''300'' 0) demo_hub)"
  by code_simp


lemma answeredE: "answered x \<Longrightarrow> \<exists>r t. x = (Inr r, t)"
  by (cases x) (auto simp: answered_def split: sum.splits)


text \<open>
  The sliver that the rule on seconds leaves open: the window is compared in truncated seconds, the age of the
  nonce in microseconds. A request signed five minutes ahead and accepted at once is accepted again half a second
  after its nonce has been forgotten, at the instants 0 and 600.5.
\<close>

lemma partner_replay_subsecond:
  "answered (run_check calm_world (demo_check ''300'' 600500000) (snd (run_check calm_world (demo_check ''300'' 0) demo_hub)))"
  by code_simp

definition request_text :: "world \<Rightarrow> partner_request \<Rightarrow> string" where
  "request_text w q = canonical_string w (rq_method q) (rq_path q) (rq_body q)
     (header (rq_headers q) ''X-Partner-Timestamp'') (header (rq_headers q) ''X-Partner-Nonce'')"

definition one_line :: "partner_request \<Rightarrow> bool" where
  "one_line q = (newlines (rq_method q) + newlines (rq_path q) + newlines (header (rq_headers q) ''X-Partner-Timestamp'') +
     newlines (header (rq_headers q) ''X-Partner-Nonce'') = 0)"


definition signing_world :: world where
  "signing_world = calm_world\<lparr>w_ed25519 := (\<lambda>key sig m. m = request_text calm_world (demo_request ''300''))\<rparr>"

lemma calm_digest_line: "newlines (w_sha256 calm_world x) = 0"
proof -
  have "hex_char n \<in> set ''0123456789abcdef''" for n
    unfolding hex_char_def by (rule nth_mem) (simp add: nat_less_iff)
  moreover have "\<forall>c\<in>set ''0123456789abcdef''. c \<noteq> CHR 0x0A" by simp
  ultimately have "hex_char n \<noteq> CHR 0x0A" for n by blast
  then have "CHR 0x0A \<noteq> hex_char n" for n by metis
  then show ?thesis by (simp add: newlines_0 calm_world_def checksum_digest_def Let_def)
qed


end
