(* ===== verification/Partner_Jobs.thy ===== *)
theory Partner_Jobs
  imports Partner_Verify
begin

text \<open>
  \<open>core/partner_jobs.py\<close>, the ledger of \<open>deploys/partner_ledger.py\<close> and the pinned template of
  \<open>core/partner_templates.py\<close>: turning a verified partner job into a site, its binding to the partner, a manifest and a
  queued deployment. The refusals come first, in the order of the code; the rows are created only when all of
  them pass. The registry argument, which only the test double fills, is left out.
\<close>

section \<open>The switch and the template\<close>

text \<open>\<open>PartnerApiFlag.is_on\<close> and \<open>set_on\<close>; the setting is the fallback for a missing row.\<close>

definition partner_api_on :: "world \<Rightarrow> hub \<Rightarrow> bool" where
  "partner_api_on w s = (case api_flag s of Some b \<Rightarrow> b | None \<Rightarrow> w_partner_api w)"

definition set_partner_api :: "bool \<Rightarrow> unit act" where
  "set_partner_api b = modify (\<lambda>s. s\<lparr>api_flag := Some b\<rparr>)"

definition TEMPLATE_REF :: string where
  "TEMPLATE_REF = ''partner-t1-static''"

definition load_pinned_digest :: "world \<Rightarrow> string" where
  "load_pinned_digest w = strip (w_template_digest w)"

type_synonym fields = "(string \<times> json) list"


section \<open>Lookups in the name of a partner\<close>

definition partner_sites_qs :: "hub \<Rightarrow> partner \<Rightarrow> site list" where
  "partner_sites_qs s p = filter (\<lambda>r. site_partner s (s_pk r) = Some (p_pk p)) (sites s)"

definition get_partner_site :: "partner \<Rightarrow> nat \<Rightarrow> partner_site act" where
  "get_partner_site p site_id = bnd (gets (\<lambda>s. find (\<lambda>b. ps_partner b = p_pk p \<and> ps_site b = site_id) (partner_sites s))) (\<lambda>found.
     case found of None \<Rightarrow> throw PartnerNotFound | Some b \<Rightarrow> ret b)"

definition owned_deployment :: "hub \<Rightarrow> partner \<Rightarrow> deployment \<Rightarrow> bool" where
  "owned_deployment s p d = (Option.bind (deployment_site s d) (site_partner s) = Some (p_pk p))"

definition get_partner_deployment :: "partner \<Rightarrow> nat \<Rightarrow> deployment act" where
  "get_partner_deployment p deployment_id =
     bnd (gets (\<lambda>s. find (\<lambda>d. d_pk d = deployment_id \<and> owned_deployment s p d) (deployments s))) (\<lambda>found.
     case found of None \<Rightarrow> throw PartnerNotFound | Some d \<Rightarrow> ret d)"

definition refuse_scheduled_job :: "site \<Rightarrow> unit act" where
  "refuse_scheduled_job site = bnd (gets (\<lambda>s. list_ex (\<lambda>b. ps_site b = s_pk site) (partner_sites s))) (\<lambda>bound.
     if bound then throw (PartnerRefuse ''scheduled-job'') else ret ())"


section \<open>Refusals\<close>

definition payload_of :: "world \<Rightarrow> fields \<Rightarrow> fields" where
  "payload_of w job = (case jget job ''body'' of
     JStr x \<Rightarrow> (if strip x = [] then [] else case w_loads w x of Some (JObj d) \<Rightarrow> d | _ \<Rightarrow> [])
   | _ \<Rightarrow> [])"

definition SOURCE_REASONS :: "(string \<times> string) list" where
  "SOURCE_REASONS = [(''dockerfile'', ''dockerfile''), (''Dockerfile'', ''dockerfile''), (''dockerfile_content'', ''dockerfile''),
     (''docker_file'', ''dockerfile''), (''build'', ''build''), (''build_context'', ''build''), (''jobs_image'', ''jobs_image''),
     (''git_url'', ''git-source''), (''git_source'', ''git-source''), (''source_git'', ''git-source'')]"

text \<open>\<open>value in (None, "", False)\<close>: \<open>0 == False\<close> in Python.\<close>

definition blank_value :: "json \<Rightarrow> bool" where
  "blank_value v = (v \<in> {JNull, JStr [], JBool False, JInt 0})"

definition source_refusal :: "fields \<Rightarrow> string option" where
  "source_refusal payload =
     (if lower (strip (py_str (or_else (jget payload ''source_kind'') (JStr [])))) = ''git'' then Some ''git-source''
      else map_option snd (find (\<lambda>(key, reason). has_key payload key \<and> \<not> blank_value (jget payload key)) SOURCE_REASONS))"

definition template_ok :: "world \<Rightarrow> fields \<Rightarrow> bool" where
  "template_ok w payload = (let pin = load_pinned_digest w in
     jget payload ''template_ref'' \<in> {JNull, JStr [], JStr TEMPLATE_REF} \<and>
     jget payload ''image'' \<in> {JNull, JStr [], JStr TEMPLATE_REF, JStr (TEMPLATE_REF @ ''@'' @ pin)} \<and>
     jget payload ''image_digest'' \<in> {JNull, JStr [], JStr pin})"

fun int_list :: "json list \<Rightarrow> exn + int list" where
  "int_list [] = Inr []"
| "int_list (x # xs) = (case py_int x of Inl e \<Rightarrow> Inl e | Inr i \<Rightarrow> map_sum id (\<lambda>is. i # is) (int_list xs))"

definition destination_pks :: "partner \<Rightarrow> exn + int list" where
  "destination_pks p = (if truthy (p_destination_order p)
     then case py_list (p_destination_order p) of Inl e \<Rightarrow> Inl e | Inr xs \<Rightarrow> int_list xs else Inr [])"

definition ranked_target :: "int list \<Rightarrow> int \<Rightarrow> target act" where
  "ranked_target order pk = bnd (gets (\<lambda>s. find (\<lambda>t. int (t_pk t) = pk) (targets s))) (\<lambda>found. case found of
     None \<Rightarrow> throw (PartnerRefuse ''destination-missing'')
   | Some t \<Rightarrow> if int (t_pk t) \<notin> set order then throw (PartnerRefuse ''destination-not-ranked'') else ret t)"

definition destination :: "partner \<Rightarrow> fields \<Rightarrow> target act" where
  "destination p payload = bnd (raise_or (destination_pks p)) (\<lambda>order. case order of
     [] \<Rightarrow> throw (PartnerRefuse ''empty-destination-order'')
   | first # _ \<Rightarrow>
       (let specified = or_else (jget payload ''target_id'') (jget payload ''target_pk'') in
        bnd (if specified = JNull then ret first else raise_or (py_int specified)) (\<lambda>pk.
        if specified \<noteq> JNull \<and> pk \<notin> set order then throw (PartnerRefuse ''destination-not-ranked'')
        else ranked_target order pk)))"

definition refuse_hub_host :: "world \<Rightarrow> target \<Rightarrow> unit act" where
  "refuse_hub_host w t = (if w_hub_hostname w \<noteq> [] \<and> casefold (t_host t) = w_hub_hostname w
     then throw (PartnerRefuse ''hub-host'') else ret ())"

definition hosted_site_ids :: "hub \<Rightarrow> target \<Rightarrow> nat list" where
  "hosted_site_ids s t = map s_pk (filter (\<lambda>r. s_primary_target r = Some (t_pk t)) (sites s)) @
     map i_site (filter (\<lambda>i. i_target i = t_pk t) (instances s))"

definition partnered :: "hub \<Rightarrow> nat \<Rightarrow> bool" where
  "partnered s site_id = list_ex (\<lambda>b. ps_site b = site_id) (partner_sites s)"

definition refuse_cohost :: "target \<Rightarrow> unit act" where
  "refuse_cohost t = bnd (gets (\<lambda>s. list_all (partnered s) (hosted_site_ids s t))) (\<lambda>ok.
     if ok then ret () else throw (PartnerRefuse ''non-partner-cohost''))"

definition require_tunnel :: "world \<Rightarrow> target \<Rightarrow> unit act" where
  "require_tunnel w t = (if t_kind t \<noteq> Ssh then ret ()
     else if truthy (t_collect_payload t) \<and> \<not> is_obj (t_collect_payload t) then throw (OtherError ''AttributeError'')
     else if jget (obj_fields (t_collect_payload t)) ''tunnel'' = JBool True then ret ()
     else bnd (finding w ''core.partner_jobs'' (''partner-tunnel-required:'' @ str_nat (t_pk t)) (Some (z_workspace (t_zone t)))
         \<lparr>ff_severity = P2, ff_entity = ''target:'' @ str_nat (t_pk t), ff_title = ''Own-server partner destination requires a tunnel'',
          ff_body = ''This partner-tier target is kind=ssh and collect_payload.tunnel is not true. Partner sites refuse until '' @
            ''Tunnel mode is on so the operator IP is not the origin for someone else's content.'',
          ff_fix_action = ''Set collect_payload.tunnel true on this target, then retry.''\<rparr>) (\<lambda>_.
       throw (PartnerRefuse ''tunnel-required'')))"

text \<open>\<open>(x or y or "").strip()\<close>: a truthy value that is no text has no method \<open>strip\<close>.\<close>

definition stripped_field :: "json \<Rightarrow> exn + string" where
  "stripped_field v = (case or_else v (JStr []) of JStr x \<Rightarrow> Inr (strip x) | _ \<Rightarrow> Inl (OtherError ''AttributeError''))"

definition domain_of :: "fields \<Rightarrow> exn + string" where
  "domain_of payload = (case stripped_field (or_else (jget payload ''domain'') (jget payload ''hostname'')) of
     Inl e \<Rightarrow> Inl e
   | Inr explicit \<Rightarrow> if explicit \<noteq> [] then Inr (casefold explicit)
       else (case stripped_field (or_else (jget payload ''subdomain'') (jget payload ''tenant_ref'')) of
         Inl e \<Rightarrow> Inl e
       | Inr sub \<Rightarrow> if sub = [] then Inr [] else Inr (sub @ ''.apps.invalid'')))"

definition overlaps :: "string \<Rightarrow> string \<Rightarrow> bool" where
  "overlaps needle other = (other \<noteq> [] \<and> (other = needle \<or> suffix (''.'' @ other) needle \<or> suffix (''.'' @ needle) other))"

definition refuse_partner_base :: "string \<Rightarrow> unit act" where
  "refuse_partner_base domain = (if domain = [] then ret ()
     else bnd (gets (\<lambda>s. list_ex (\<lambda>r. \<not> partnered s (s_pk r) \<and> overlaps (casefold domain) (casefold (s_domain r))) (sites s))) (\<lambda>hit.
       if hit then throw (PartnerRefuse ''partner-base'') else ret ()))"


section \<open>Rows\<close>

record materialized =
  mz_site :: nat
  mz_binding :: partner_site
  mz_manifest :: manifest
  mz_deployment :: deployment

definition find_by_job_id :: "hub \<Rightarrow> partner \<Rightarrow> json \<Rightarrow> (deployment \<times> manifest) option" where
  "find_by_job_id s p job_id = (if \<not> truthy job_id then None
     else Option.bind (find (\<lambda>d. owned_deployment s p d \<and> (case manifest_by_pk s (d_manifest d) of None \<Rightarrow> False
         | Some m \<Rightarrow> py_eq (jget (obj_fields (mf_body m)) ''partner_job_id'') job_id)) (deployments s))
       (\<lambda>d. map_option (Pair d) (manifest_by_pk s (d_manifest d))))"

definition existing_deployment :: "hub \<Rightarrow> partner \<Rightarrow> json \<Rightarrow> materialized option" where
  "existing_deployment s p job_id = Option.bind (find_by_job_id s p job_id) (\<lambda>(d, m).
     map_option (\<lambda>b. \<lparr>mz_site = mf_site m, mz_binding = b, mz_manifest = m, mz_deployment = d\<rparr>)
       (find (\<lambda>b. ps_site b = mf_site m) (partner_sites s)))"

definition probe_only :: "world \<Rightarrow> bool \<Rightarrow> string \<Rightarrow> unit act" where
  "probe_only w transport digest = when_do transport
     (bnd (transport_probe w [''docker'', ''image'', ''inspect'', digest]) (\<lambda>_. ret ()))"

definition require_quota :: "world \<Rightarrow> partner \<Rightarrow> string \<Rightarrow> string \<Rightarrow> time option \<Rightarrow> json \<Rightarrow> unit act" where
  "require_quota w p method path now body = bnd (evaluate_quotas w p method path now body []) (\<lambda>decision.
     if qd_refused decision then throw (PartnerRefuse (if qd_reason decision = [] then ''quota'' else qd_reason decision)) else ret ())"

text \<open>\<open>Project.objects.create\<close>: the slug is unique in its workspace.\<close>

definition create_project :: "world \<Rightarrow> nat \<Rightarrow> string \<Rightarrow> nat act" where
  "create_project w ws slug = (\<lambda>s. let pk = next_pk (map pj_pk (projects s)) in
     if list_ex (\<lambda>j. pj_workspace j = ws \<and> pj_slug j = slug) (projects s) then (Inl IntegrityError, s)
     else (Inr pk, s\<lparr>projects := projects s @ [\<lparr>pj_pk = pk, pj_workspace = ws, pj_name = slug, pj_slug = slug,
        pj_source_kind = FromLocalPath, pj_git_url = [], pj_git_ref = ''main'', pj_local_path = w_template_dir w\<rparr>]\<rparr>))"

definition new_site :: "nat \<Rightarrow> nat \<Rightarrow> nat \<Rightarrow> string \<Rightarrow> string \<Rightarrow> nat \<Rightarrow> site" where
  "new_site pk ws project name domain target = \<lparr>s_pk = pk, s_workspace = ws, s_project = project, s_name = name, s_domain = domain,
     s_exposure = MeshOnly, s_environment = Production, s_deploy_strategy = BlueGreen, s_deploy_policy = PolicyAuto,
     s_deploy_window_cron = [], s_maintenance_until = None, s_reconcile_enabled = True, s_liveness_path = ''/healthz'',
     s_readiness_path = ''/healthz.ready'', s_warmup_timeout_s = 60, s_config_stale = False, s_scale_ready = False,
     s_primary_target = Some target, s_dns_zone = None, s_proxied = True, s_edge_owner = HostCaddy, s_preview_of = None, s_preview_ref = []\<rparr>"

definition create_site :: "nat \<Rightarrow> nat \<Rightarrow> string \<Rightarrow> string \<Rightarrow> nat \<Rightarrow> nat act" where
  "create_site ws project name domain target = (\<lambda>s. let pk = next_pk (map s_pk (sites s)) in
     (Inr pk, s\<lparr>sites := sites s @ [new_site pk ws project name domain target]\<rparr>))"

definition create_binding :: "nat \<Rightarrow> nat \<Rightarrow> string \<Rightarrow> partner_site act" where
  "create_binding partner site tenant_ref = (\<lambda>s.
     if list_ex (\<lambda>b. ps_site b = site \<or> ps_partner b = partner \<and> ps_tenant_ref b = tenant_ref) (partner_sites s)
     then (Inl IntegrityError, s)
     else let b = \<lparr>ps_partner = partner, ps_site = site, ps_tenant_ref = tenant_ref\<rparr> in
       (Inr b, s\<lparr>partner_sites := partner_sites s @ [b]\<rparr>))"

definition create_queued :: "world \<Rightarrow> nat \<Rightarrow> json \<Rightarrow> (manifest \<times> deployment) act" where
  "create_queued w site body = bnd (timezone_now w) (\<lambda>now. (\<lambda>s.
     let version = Suc (foldr max (map mf_version (filter (\<lambda>m. mf_site m = site) (manifests s))) 0);
         m = \<lparr>mf_pk = next_pk (map mf_pk (manifests s)), mf_site = site, mf_version = version, mf_schema_version = 1, mf_body = body,
              mf_scan_report_hash = [], mf_scanned_at = None, mf_created_at = now\<rparr>;
         d = \<lparr>d_pk = next_pk (map d_pk (deployments s)), d_manifest = mf_pk m, d_status = Queued, d_last_heartbeat = None, d_rollback_of = None\<rparr>
     in (Inr (m, d), s\<lparr>manifests := manifests s @ [m], deployments := deployments s @ [d]\<rparr>)))"

definition tenant_or_default :: "fields \<Rightarrow> string" where
  "tenant_or_default payload = (if tenant_of payload = [] then ''default'' else tenant_of payload)"

definition partner_slug :: "partner \<Rightarrow> string \<Rightarrow> string" where
  "partner_slug p tenant_ref = take 128 (''p-'' @ p_slug p @ ''-'' @ tenant_ref)"

definition bind_site :: "world \<Rightarrow> partner \<Rightarrow> string \<Rightarrow> target \<Rightarrow> string \<Rightarrow> partner_site act" where
  "bind_site w p tenant_ref t domain =
     bnd (create_project w (p_workspace p) (partner_slug p tenant_ref)) (\<lambda>project.
     bnd (create_site (p_workspace p) project (partner_slug p tenant_ref) domain (t_pk t)) (\<lambda>site.
     create_binding (p_pk p) site tenant_ref))"

definition manifest_of_job :: "string \<Rightarrow> json \<Rightarrow> json" where
  "manifest_of_job digest job_id = JObj [(''schema_version'', JInt 1), (''runtime'', JStr ''static''), (''image_digest'', JStr digest),
     (''template_ref'', JStr TEMPLATE_REF), (''partner_job_id'', job_id), (''ship_mode'', JStr ''load'')]"

definition create_rows :: "world \<Rightarrow> partner \<Rightarrow> fields \<Rightarrow> fields \<Rightarrow> target \<Rightarrow> string \<Rightarrow> string \<Rightarrow> time option \<Rightarrow> materialized act" where
  "create_rows w p job payload t domain digest now =
     (let tenant_ref = tenant_or_default payload; body = or_else (jget job ''body'') (JObj payload) in
      bnd (gets (\<lambda>s. binding_by_ref s (p_pk p) tenant_ref)) (\<lambda>binding.
      andThen (when_do (binding = None) (require_quota w p ''POST'' SITES now body))
      (andThen (require_quota w p ''POST'' (SITES @ ''/'' @ (case binding of None \<Rightarrow> tenant_ref | Some b \<Rightarrow> str_nat (ps_site b)) @ ''/deployments'') now body)
      (bnd (case binding of Some b \<Rightarrow> ret b | None \<Rightarrow> bind_site w p tenant_ref t domain) (\<lambda>b.
       bnd (create_queued w (ps_site b) (manifest_of_job digest (jget job ''id''))) (\<lambda>(m, d).
       ret \<lparr>mz_site = ps_site b, mz_binding = b, mz_manifest = m, mz_deployment = d\<rparr>))))))"

definition ship_template :: "world \<Rightarrow> bool \<Rightarrow> string \<Rightarrow> target \<Rightarrow> unit act" where
  "ship_template w transport digest t = when_do transport
     (bnd (transport_probe w [''docker'', ''image'', ''inspect'', digest]) (\<lambda>inspect.
      if result_ok inspect \<and> sublist digest (stdout inspect) then ret ()
      else let remote = hub_join [''partner-templates'', TEMPLATE_REF @ ''.tar''] (if t_ssh_user t = [] then DEFAULT_USER else t_ssh_user t) in
        andThen (transport_put w (w_template_archive w) remote default_mode)
        (bnd (transport_run w [''docker'', ''load'', ''-i'', remote]) (\<lambda>_. ret ()))))"

text \<open>The checks of \<open>materialize\<close>, in order; they give the destination and the domain.\<close>

definition admit :: "world \<Rightarrow> partner \<Rightarrow> fields \<Rightarrow> (target \<times> string) act" where
  "admit w p payload = (case source_refusal payload of Some reason \<Rightarrow> throw (PartnerRefuse reason)
   | None \<Rightarrow>
     if \<not> template_ok w payload then throw (PartnerRefuse ''unconstrained-image'')
     else bnd (destination p payload) (\<lambda>t.
       andThen (refuse_hub_host w t)
       (andThen (refuse_cohost t)
       (andThen (require_tunnel w t)
       (bnd (raise_or (domain_of payload)) (\<lambda>domain.
        andThen (refuse_partner_base domain) (ret (t, domain))))))))"

definition materialize :: "world \<Rightarrow> partner \<Rightarrow> fields \<Rightarrow> bool \<Rightarrow> time option \<Rightarrow> materialized option act" where
  "materialize w p job transport now =
     bnd (gets (partner_api_on w)) (\<lambda>on.
     if \<not> on then ret None
     else if p_suspended p then throw (PartnerRefuse ''suspended'')
     else let payload = payload_of w job; digest = load_pinned_digest w in
       bnd (admit w p payload) (\<lambda>(t, domain).
       bnd (gets (\<lambda>s. existing_deployment s p (jget job ''id''))) (\<lambda>existing. case existing of
         Some m \<Rightarrow> andThen (probe_only w transport digest) (ret (Some m))
       | None \<Rightarrow>
           andThen (require_quota w p (py_str (or_else (jget job ''method'') (JStr ''POST''))) (py_str (or_else (jget job ''path'') (JStr SITES)))
               now (or_else (jget job ''body'') (JObj payload)))
           (bnd (create_rows w p job payload t domain digest now) (\<lambda>m.
            andThen (ship_template w transport digest t) (ret (Some m)))))))"


section \<open>What admission and creation do\<close>

lemma admit_frames [engine_frames]:
  "evolves (same beside_engine) (destination p payload)" "evolves (same beside_engine) (refuse_hub_host w t)"
  "evolves (same beside_engine) (refuse_cohost t)" "evolves (same beside_engine) (require_tunnel w t)"
  "evolves (same beside_engine) (refuse_partner_base domain)" "evolves (same beside_engine) (require_quota w p method path now body)"
  unfolding destination_def ranked_target_def refuse_hub_host_def refuse_cohost_def require_tunnel_def refuse_partner_base_def require_quota_def Let_def
  by (intro frame.ev_rules engine_frames)+

lemma admit_engine [engine_frames]: "evolves (same beside_engine) (admit w p payload)"
  unfolding admit_def by (intro frame.ev_rules engine_frames)

text \<open>The tables in which a job leaves rows.\<close>

definition partner_rows :: "hub \<Rightarrow> site list \<times> partner_site list \<times> manifest list \<times> deployment list \<times> project list \<times> target list \<times> site_instance list \<times> partner list" where
  "partner_rows s = (sites s, partner_sites s, manifests s, deployments s, projects s, targets s, instances s, partners s)"

lemma engine_rows: "evolves (same beside_engine) m \<Longrightarrow> evolves (same partner_rows) m"
  by (rule engine_field) (simp_all add: beside_engine_def partner_rows_def)

lemma shell_rows: "evolves (same partner_rows) (transport_probe w argv)" "evolves (same partner_rows) (transport_run w argv)"
  "evolves (same partner_rows) (transport_put w c r m)"
  unfolding transport_probe_def transport_run_def transport_put_def
  by (intro frame.ev_rules shell_call_frame; simp add: partner_rows_def)+

lemma ship_rows: "evolves (same partner_rows) (ship_template w transport digest t)" "evolves (same partner_rows) (probe_only w transport digest)"
  unfolding ship_template_def probe_only_def Let_def by (intro frame.ev_rules shell_rows)+

definition isolated :: "hub \<Rightarrow> nat \<Rightarrow> bool" where
  "isolated s t = ((\<forall>r\<in>set (sites s). s_primary_target r = Some t \<longrightarrow> partnered s (s_pk r)) \<and>
     (\<forall>i\<in>set (instances s). i_target i = t \<longrightarrow> partnered s (i_site i)))"

lemma isolated_hosted: "list_all (partnered s) (hosted_site_ids s t) \<longleftrightarrow> isolated s (t_pk t)"
  by (auto simp: hosted_site_ids_def isolated_def list_all_iff)

definition tunnelled :: "target \<Rightarrow> bool" where
  "tunnelled t = (t_kind t = Ssh \<longrightarrow> jget (obj_fields (t_collect_payload t)) ''tunnel'' = JBool True)"

definition clear_of_hub_sites :: "hub \<Rightarrow> string \<Rightarrow> bool" where
  "clear_of_hub_sites s domain = (domain = [] \<or>
     (\<forall>r\<in>set (sites s). \<not> partnered s (s_pk r) \<longrightarrow> \<not> overlaps (casefold domain) (casefold (s_domain r))))"

lemma rows_cong:
  assumes "partner_rows t = partner_rows s"
  shows "isolated t = isolated s" "partnered t = partnered s" "clear_of_hub_sites t = clear_of_hub_sites s"
    "sites t = sites s" "targets t = targets s" "partner_sites t = partner_sites s" "manifests t = manifests s"
    "deployments t = deployments s" "projects t = projects s" "instances t = instances s" "partners t = partners s"
  using assms by (auto simp: partner_rows_def isolated_def partnered_def clear_of_hub_sites_def fun_eq_iff)

lemma raise_or_Inr: "(raise_or x s = (Inr v, t)) = (x = Inr v \<and> t = s)"
  by (auto simp: raise_or_def throw_def ret_def split: sum.splits)

lemma ranked_target_Inr:
  "ranked_target order pk s = (Inr t, u) \<Longrightarrow> u = s \<and> t \<in> set (targets s) \<and> int (t_pk t) \<in> set order"
  by (auto simp: ranked_target_def bnd_gets ret_def dest: find_Some_mem split: option.splits if_splits)

lemma destination_InrD:
  assumes "destination p payload s = (Inr t, u)"
  obtains order where "destination_pks p = Inr order" "int (t_pk t) \<in> set order" "t \<in> set (targets s)" "u = s"
proof -
  from assms obtain order where o: "destination_pks p = Inr order"
    unfolding destination_def fst_bnd_raise_or by blast
  with assms obtain first rest where "order = first # rest" by (cases order) (auto simp: destination_def fst_bnd_raise_or)
  with assms o obtain pk v where "ranked_target order pk v = (Inr t, u)" "v = s"
    by (auto simp: destination_def bnd_raise_or Let_def fst_bnd_Inr raise_or_Inr ret_def split: if_splits)
  with o that show thesis using ranked_target_Inr by blast
qed

lemma require_tunnel_Inr: "require_tunnel w t s = (Inr x, u) \<Longrightarrow> tunnelled t"
  by (auto simp: require_tunnel_def tunnelled_def fst_bnd_Inr split: if_splits)

lemma refuse_partner_base_Inr:
  assumes "refuse_partner_base domain s = (Inr (), u)"
  shows "clear_of_hub_sites s domain"
proof (cases "domain = []")
  case False
  with assms have "\<not> list_ex (\<lambda>r. \<not> partnered s (s_pk r) \<and> overlaps (casefold domain) (casefold (s_domain r))) (sites s)"
    by (simp add: refuse_partner_base_def bnd_gets split: if_splits)
  then show ?thesis unfolding clear_of_hub_sites_def list_ex_iff by blast
qed (simp add: clear_of_hub_sites_def)

lemma admit_Inr_steps:
  assumes "admit w p payload s = (Inr (t, domain), u)"
  obtains u1 u2 u3 u4 where "destination p payload s = (Inr t, u1)" "refuse_hub_host w t u1 = (Inr (), u2)"
    "refuse_cohost t u2 = (Inr (), u3)" "require_tunnel w t u3 = (Inr (), u4)" "refuse_partner_base domain u4 = (Inr (), u)"
proof -
  from assms have "source_refusal payload = None" "template_ok w payload"
    by (auto simp: admit_def split: option.splits if_splits)
  with assms have "bnd (destination p payload) (\<lambda>t. andThen (refuse_hub_host w t) (andThen (refuse_cohost t) (andThen (require_tunnel w t)
      (bnd (raise_or (domain_of payload)) (\<lambda>domain. andThen (refuse_partner_base domain) (ret (t, domain))))))) s = (Inr (t, domain), u)"
    by (simp add: admit_def)
  then show thesis unfolding andThen_def fst_bnd_Inr raise_or_Inr ret_def prod.inject sum.inject
    by (elim exE conjE) (auto intro: that)
qed

lemma admit_InrD:
  assumes "admit w p payload s = (Inr (t, domain), u)"
  obtains order where "destination_pks p = Inr order" "int (t_pk t) \<in> set order" "t \<in> set (targets s)"
    "w_hub_hostname w = [] \<or> casefold (t_host t) \<noteq> w_hub_hostname w" "isolated s (t_pk t)" "tunnelled t" "clear_of_hub_sites s domain"
    "source_refusal payload = None" "template_ok w payload"
proof -
  from assms have pre: "source_refusal payload = None" "template_ok w payload"
    by (auto simp: admit_def split: option.splits if_splits)
  from assms obtain u1 u2 u3 u4 where
    d: "destination p payload s = (Inr t, u1)" and h: "refuse_hub_host w t u1 = (Inr (), u2)" and c: "refuse_cohost t u2 = (Inr (), u3)" and
    t: "require_tunnel w t u3 = (Inr (), u4)" and b: "refuse_partner_base domain u4 = (Inr (), u)"
    by (rule admit_Inr_steps)
  obtain order where o: "destination_pks p = Inr order" "int (t_pk t) \<in> set order" "t \<in> set (targets s)" "u1 = s"
    using d by (rule destination_InrD)
  have hh: "w_hub_hostname w = [] \<or> casefold (t_host t) \<noteq> w_hub_hostname w" "u2 = s"
    using h o(4) by (auto simp: refuse_hub_host_def ret_def split: if_splits)
  have cc: "isolated s (t_pk t)" "u3 = s"
    using c hh(2) by (auto simp: refuse_cohost_def bnd_gets isolated_hosted ret_def split: if_splits)
  have "partner_rows u4 = partner_rows s"
    using frameD [OF engine_rows [OF admit_frames(4)] t] cc(2) by simp
  moreover have "clear_of_hub_sites u4 domain"
    using b by (rule refuse_partner_base_Inr)
  ultimately have "clear_of_hub_sites s domain" using rows_cong(3) by metis
  with o hh cc require_tunnel_Inr [OF t] pre show thesis by (intro that)
qed


lemma existing_cong:
  assumes "partner_rows u = partner_rows s"
  shows "existing_deployment u p jid = existing_deployment s p jid"
proof -
  have "site_partner u = site_partner s" "manifest_by_pk u = manifest_by_pk s"
    using assms by (simp_all add: partner_rows_def site_partner_def manifest_by_pk_def fun_eq_iff)
  with assms show ?thesis
    by (simp add: existing_deployment_def find_by_job_id_def owned_deployment_def deployment_site_def manifest_site_def partner_rows_def)
qed

lemma bind_site_InrD:
  assumes "bind_site w p tenant_ref t domain s = (Inr b, u)"
  obtains pk project where "pk = next_pk (map s_pk (sites s))" "b = \<lparr>ps_partner = p_pk p, ps_site = pk, ps_tenant_ref = tenant_ref\<rparr>"
    "u = s\<lparr>projects := projects s @ [project], sites := sites s @ [new_site pk (p_workspace p) (pj_pk project) (partner_slug p tenant_ref) domain (t_pk t)],
       partner_sites := partner_sites s @ [b]\<rparr>"
    "\<not> list_ex (\<lambda>j. pj_workspace j = p_workspace p \<and> pj_slug j = partner_slug p tenant_ref) (projects s)"
    "pj_workspace project = p_workspace p" "pj_slug project = partner_slug p tenant_ref"
    "\<not> list_ex (\<lambda>b. ps_site b = pk \<or> ps_partner b = p_pk p \<and> ps_tenant_ref b = tenant_ref) (partner_sites s)"
proof -
  from assms obtain project u1 pk u2 where j: "create_project w (p_workspace p) (partner_slug p tenant_ref) s = (Inr project, u1)"
    and r: "create_site (p_workspace p) project (partner_slug p tenant_ref) domain (t_pk t) u1 = (Inr pk, u2)"
    and b: "create_binding (p_pk p) pk tenant_ref u2 = (Inr b, u)"
    unfolding bind_site_def fst_bnd_Inr by blast
  from j obtain row where row: "\<not> list_ex (\<lambda>j. pj_workspace j = p_workspace p \<and> pj_slug j = partner_slug p tenant_ref) (projects s)"
    "u1 = s\<lparr>projects := projects s @ [row]\<rparr>" "pj_pk row = project" "pj_workspace row = p_workspace p" "pj_slug row = partner_slug p tenant_ref"
    by (auto simp: create_project_def Let_def split: if_splits)
  from r have pk: "pk = next_pk (map s_pk (sites s))"
    "u2 = u1\<lparr>sites := sites s @ [new_site pk (p_workspace p) project (partner_slug p tenant_ref) domain (t_pk t)]\<rparr>"
    by (auto simp: create_site_def Let_def row(2))
  from b have "\<not> list_ex (\<lambda>b. ps_site b = pk \<or> ps_partner b = p_pk p \<and> ps_tenant_ref b = tenant_ref) (partner_sites s)"
    "b = \<lparr>ps_partner = p_pk p, ps_site = pk, ps_tenant_ref = tenant_ref\<rparr>" "u = u2\<lparr>partner_sites := partner_sites s @ [b]\<rparr>"
    by (auto simp: create_binding_def Let_def pk(2) row(2) split: if_splits)
  with row pk show thesis by (intro that [of pk row]) simp_all
qed

lemma create_queued_eq:
  "create_queued w site body s =
     (let m = \<lparr>mf_pk = next_pk (map mf_pk (manifests s)), mf_site = site,
          mf_version = Suc (foldr max (map mf_version (filter (\<lambda>m. mf_site m = site) (manifests s))) 0), mf_schema_version = 1, mf_body = body,
          mf_scan_report_hash = [], mf_scanned_at = None, mf_created_at = w_clock w (ticks s)\<rparr>;
        d = \<lparr>d_pk = next_pk (map d_pk (deployments s)), d_manifest = mf_pk m, d_status = Queued, d_last_heartbeat = None, d_rollback_of = None\<rparr>
      in (Inr (m, d), s\<lparr>ticks := Suc (ticks s), manifests := manifests s @ [m], deployments := deployments s @ [d]\<rparr>))"
  by (simp add: create_queued_def bnd_now Let_def)

lemma create_rows_InrD:
  assumes "create_rows w p job payload t domain digest now s = (Inr m, u)"
  obtains (bound) v where "binding_by_ref s (p_pk p) (tenant_or_default payload) = Some (mz_binding m)" "partner_rows v = partner_rows s"
      "create_queued w (ps_site (mz_binding m)) (manifest_of_job digest (jget job ''id'')) v = (Inr (mz_manifest m, mz_deployment m), u)"
      "mz_site m = ps_site (mz_binding m)"
    | (fresh) v0 v v' where "binding_by_ref s (p_pk p) (tenant_or_default payload) = None"
      "require_quota w p ''POST'' SITES now (or_else (jget job ''body'') (JObj payload)) s = (Inr (), v0)" "partner_rows v = partner_rows s"
      "bind_site w p (tenant_or_default payload) t domain v = (Inr (mz_binding m), v')"
      "create_queued w (ps_site (mz_binding m)) (manifest_of_job digest (jget job ''id'')) v' = (Inr (mz_manifest m, mz_deployment m), u)"
      "mz_site m = ps_site (mz_binding m)"
proof (cases "binding_by_ref s (p_pk p) (tenant_or_default payload)")
  case None
  from assms obtain v0 v v' where 
    "require_quota w p ''POST'' SITES now (or_else (jget job ''body'') (JObj payload)) s = (Inr (), v0)"
    "require_quota w p ''POST'' (SITES @ ''/'' @ tenant_or_default payload @ ''/deployments'') now (or_else (jget job ''body'') (JObj payload)) v0 = (Inr (), v)"
    "bind_site w p (tenant_or_default payload) t domain v = (Inr (mz_binding m), v')"
    "create_queued w (ps_site (mz_binding m)) (manifest_of_job digest (jget job ''id'')) v' = (Inr (mz_manifest m, mz_deployment m), u)"
    "mz_site m = ps_site (mz_binding m)"
    unfolding create_rows_def Let_def bnd_gets None by (auto simp: andThen_def when_do_def fst_bnd_Inr ret_def)
  moreover from this(1,2) have "partner_rows v = partner_rows s"
    using frameD [OF engine_rows [OF admit_frames(6)]] by metis
  ultimately show thesis using None by (intro fresh)
next
  case (Some b)
  from assms obtain v where 
    "require_quota w p ''POST'' (SITES @ ''/'' @ str_nat (ps_site b) @ ''/deployments'') now (or_else (jget job ''body'') (JObj payload)) s = (Inr (), v)"
    "mz_binding m = b"
    "create_queued w (ps_site (mz_binding m)) (manifest_of_job digest (jget job ''id'')) v = (Inr (mz_manifest m, mz_deployment m), u)"
    "mz_site m = ps_site (mz_binding m)"
    unfolding create_rows_def Let_def bnd_gets Some by (auto simp: andThen_def when_do_def fst_bnd_Inr ret_def)
  moreover from this(1) have "partner_rows v = partner_rows s"
    using frameD [OF engine_rows [OF admit_frames(6)]] by metis
  ultimately show thesis using Some by (intro bound) simp_all
qed

lemma materialize_InrD:
  assumes "materialize w p job transport now s = (Inr (Some m), t)"
  obtains (old) tgt domain u where "admit w p (payload_of w job) s = (Inr (tgt, domain), u)"
      "existing_deployment s p (jget job ''id'') = Some m" "partner_rows t = partner_rows s"
    | (created) tgt domain u v x where "admit w p (payload_of w job) s = (Inr (tgt, domain), u)" "existing_deployment s p (jget job ''id'') = None"
      "partner_rows v = partner_rows s" "create_rows w p job (payload_of w job) tgt domain (load_pinned_digest w) now v = (Inr m, x)"
      "partner_rows t = partner_rows x"
proof -
  have on: "partner_api_on w s" "\<not> p_suspended p"
    using assms by (auto simp: materialize_def bnd_gets ret_def split: if_splits)
  obtain tgt domain u where adm: "admit w p (payload_of w job) s = (Inr (tgt, domain), u)"
    and rest: "(case existing_deployment u p (jget job ''id'') of
         Some m \<Rightarrow> andThen (probe_only w transport (load_pinned_digest w)) (ret (Some m))
       | None \<Rightarrow>
           andThen (require_quota w p (py_str (or_else (jget job ''method'') (JStr ''POST''))) (py_str (or_else (jget job ''path'') (JStr SITES)))
               now (or_else (jget job ''body'') (JObj (payload_of w job))))
           (bnd (create_rows w p job (payload_of w job) tgt domain (load_pinned_digest w) now) (\<lambda>m.
            andThen (ship_template w transport (load_pinned_digest w) tgt) (ret (Some m))))) u = (Inr (Some m), t)"
    using assms on unfolding materialize_def bnd_gets Let_def by (auto simp: fst_bnd_Inr bnd_gets)
  have u: "partner_rows u = partner_rows s" using frameD [OF engine_rows [OF admit_engine] adm] .
  then have ex: "existing_deployment u p jid = existing_deployment s p jid" for jid by (rule existing_cong)
  show thesis
  proof (cases "existing_deployment s p (jget job ''id'')")
    case (Some m')
    with rest have "andThen (probe_only w transport (load_pinned_digest w)) (ret (Some m')) u = (Inr (Some m), t)" by (simp add: ex)
    then have "m' = m" "probe_only w transport (load_pinned_digest w) u = (Inr (), t)" by (auto simp: andThen_def fst_bnd_Inr ret_def)
    with frameD [OF ship_rows(2)] u Some adm show thesis by (intro old) auto
  next
    case None
    with rest obtain v x y where v: "require_quota w p (py_str (or_else (jget job ''method'') (JStr ''POST''))) (py_str (or_else (jget job ''path'') (JStr SITES)))
               now (or_else (jget job ''body'') (JObj (payload_of w job))) u = (Inr y, v)"
      and x: "create_rows w p job (payload_of w job) tgt domain (load_pinned_digest w) now v = (Inr m, x)"
      and t: "ship_template w transport (load_pinned_digest w) tgt x = (Inr (), t)"
      by (auto simp: ex andThen_def fst_bnd_Inr ret_def)
    have "partner_rows v = partner_rows s" using frameD [OF engine_rows [OF admit_frames(6)] v] u by simp
    moreover have "partner_rows t = partner_rows x" using frameD [OF ship_rows(1) t] .
    ultimately show thesis using adm None x by (intro created)
  qed
qed


section \<open>The constraints of the tables\<close>

definition partner_wf :: "hub \<Rightarrow> bool" where
  "partner_wf s = (distinct (map s_pk (sites s)) \<and> distinct (map ps_site (partner_sites s)) \<and>
     distinct (map (\<lambda>b. (ps_partner b, ps_tenant_ref b)) (partner_sites s)) \<and> (\<forall>b\<in>set (partner_sites s). ps_site b \<in> s_pk ` set (sites s)) \<and>
     distinct (map mf_pk (manifests s)) \<and> distinct (map (\<lambda>m. (mf_site m, mf_version m)) (manifests s)) \<and>
     (\<forall>m\<in>set (manifests s). mf_site m \<in> s_pk ` set (sites s)) \<and> distinct (map d_pk (deployments s)) \<and>
     (\<forall>d\<in>set (deployments s). d_manifest d \<in> mf_pk ` set (manifests s)) \<and> distinct (map (\<lambda>j. (pj_workspace j, pj_slug j)) (projects s)) \<and>
     distinct (map (\<lambda>r. (rn_partner r, rn_nonce r)) (replay_nonces s)))"

lemma partner_wf_cong: "partner_rows t = partner_rows s \<Longrightarrow> replay_nonces t = replay_nonces s \<Longrightarrow> partner_wf t = partner_wf s"
  by (simp add: partner_wf_def partner_rows_def)

lemma fresh_pk: "next_pk (map f xs) \<notin> f ` set xs"
  using next_pk_fresh [of "map f xs"] by simp

lemma version_fresh: "Suc (foldr max (map mf_version (filter (\<lambda>m. mf_site m = k) ms)) 0) \<notin> mf_version ` {m \<in> set ms. mf_site m = k}"
  using fresh_pk [of mf_version "filter (\<lambda>m. mf_site m = k) ms"] by (simp add: next_pk_def)

lemma create_queued_wf:
  assumes "partner_wf s" "site \<in> s_pk ` set (sites s)"
  shows "partner_wf (snd (create_queued w site body s))"
proof -
  have "next_pk (map mf_pk (manifests s)) \<notin> mf_pk ` set (manifests s)" "next_pk (map d_pk (deployments s)) \<notin> d_pk ` set (deployments s)"
    by (rule fresh_pk)+
  moreover have "(site, Suc (foldr max (map mf_version (filter (\<lambda>m. mf_site m = site) (manifests s))) 0)) \<notin> (\<lambda>m. (mf_site m, mf_version m)) ` set (manifests s)"
    using version_fresh [of site "manifests s"] by blast
  ultimately show ?thesis using assms by (auto simp: create_queued_eq partner_wf_def Let_def)
qed

lemma bind_site_wf:
  assumes "partner_wf s"
  shows "partner_wf (snd (bind_site w p tenant_ref t domain s))"
proof -
  let ?pk = "next_pk (map s_pk (sites s))"
  have pk: "?pk \<notin> s_pk ` set (sites s)" by (rule fresh_pk)
  then have "?pk \<notin> ps_site ` set (partner_sites s)" using assms by (auto simp: partner_wf_def)
  with pk assms show ?thesis
    by (auto simp: bind_site_def bnd_def create_project_def create_site_def create_binding_def Let_def partner_wf_def new_site_def list_ex_iff image_iff)
qed

lemma bind_site_site:
  assumes "bind_site w p tenant_ref t domain s = (Inr b, u)"
  shows "ps_site b \<in> s_pk ` set (sites u)"
  using assms by (rule bind_site_InrD) (simp add: new_site_def)

lemma binding_site: "partner_wf s \<Longrightarrow> binding_by_ref s k r = Some b \<Longrightarrow> ps_site b \<in> s_pk ` set (sites s)"
  by (auto simp: binding_by_ref_def partner_wf_def dest!: find_Some_mem)

text \<open>Keeping a predicate of the state through a program.\<close>

lemma keep_bnd:
  "P (snd (m s)) \<Longrightarrow> (\<And>x t. m s = (Inr x, t) \<Longrightarrow> P t \<Longrightarrow> P (snd (k x t))) \<Longrightarrow> P (snd (bnd m k s))"
  by (cases "m s", cases "fst (m s)") (auto simp: bnd_def)

lemma keep_andThen:
  "P (snd (m s)) \<Longrightarrow> (\<And>x t. m s = (Inr x, t) \<Longrightarrow> P t \<Longrightarrow> P (snd (n t))) \<Longrightarrow> P (snd (andThen m n s))"
  unfolding andThen_def by (rule keep_bnd)

lemma engine_wf: "evolves (same beside_engine) m \<Longrightarrow> partner_wf (snd (m s)) = partner_wf s"
  by (intro partner_wf_cong frame_snd engine_rows engine_nonces)

lemma ship_nonces: "evolves (same replay_nonces) (ship_template w transport digest t)" "evolves (same replay_nonces) (probe_only w transport digest)"
  unfolding ship_template_def probe_only_def Let_def transport_probe_def transport_run_def transport_put_def
  by (intro frame.ev_rules shell_call_frame; simp)+

lemma ship_wf: "partner_wf (snd (ship_template w transport digest t s)) = partner_wf s" "partner_wf (snd (probe_only w transport digest s)) = partner_wf s"
  by (intro partner_wf_cong frame_snd ship_rows ship_nonces)+

lemma quota_wf: "partner_wf (snd (require_quota w p method path now body s)) = partner_wf s"
  by (rule engine_wf [OF admit_frames(6)])

lemma queue_wf:
  assumes "partner_wf u" "site \<in> s_pk ` set (sites u)"
  shows "partner_wf (snd (bnd (create_queued w site body) (\<lambda>(m, d). ret (f m d)) u))"
  by (rule keep_bnd) (auto simp: create_queued_wf [OF assms] ret_def split_beta)

lemma bind_queue_wf:
  assumes "partner_wf u"
  shows "partner_wf (snd (bnd (bind_site w p tenant_ref t domain) (\<lambda>b. bnd (create_queued w (ps_site b) body) (\<lambda>(m, d). ret (f b m d))) u))"
  by (rule keep_bnd) (auto intro: bind_site_wf assms queue_wf bind_site_site)

lemma create_rows_wf:
  assumes wf: "partner_wf s"
  shows "partner_wf (snd (create_rows w p job payload t domain digest now s))"
proof (cases "binding_by_ref s (p_pk p) (tenant_or_default payload)")
  case None
  show ?thesis
    unfolding create_rows_def Let_def bnd_gets None when_do_def if_P [OF refl] option.case
  proof (rule keep_andThen, goal_cases)
    case 1 show ?case by (simp add: quota_wf wf)
  next
    case (2 x u) show ?case
    proof (rule keep_andThen, goal_cases)
      case 1 show ?case by (simp add: quota_wf 2)
    next
      case (2 y v) then show ?case by (intro bind_queue_wf)
    qed
  qed
next
  case (Some b)
  then have site: "ps_site b \<in> s_pk ` set (sites s)" by (rule binding_site [OF wf])
  show ?thesis
    unfolding create_rows_def Let_def bnd_gets Some when_do_def option.case
  proof (simp add: andThen_def [of "ret ()"], rule keep_andThen, goal_cases)
    case 1 show ?case by (simp add: quota_wf wf)
  next
    case (2 x u)
    then have "sites u = sites s" using frameD [OF engine_rows [OF admit_frames(6)]] by (fastforce simp: partner_rows_def)
    with 2 site show ?case by (intro queue_wf) simp_all
  qed
qed

lemma ship_ret_wf: "partner_wf u \<Longrightarrow> partner_wf (snd (andThen (ship_template w transport digest t) (ret y) u))"
  "partner_wf u \<Longrightarrow> partner_wf (snd (andThen (probe_only w transport digest) (ret y) u))"
  by (rule keep_andThen; simp add: ship_wf ret_def)+

lemma materialize_wf:
  assumes wf: "partner_wf s"
  shows "partner_wf (snd (materialize w p job transport now s))"
proof -
  have create: "partner_wf (snd (andThen (require_quota w p meth path now body) (bnd (create_rows w p job payload tgt domain digest now) (\<lambda>m.
      andThen (ship_template w transport digest tgt) (ret (Some m)))) u))" if "partner_wf u" for meth path body payload tgt domain digest u
  proof (rule keep_andThen, goal_cases)
    case 1 show ?case by (simp add: quota_wf that)
  next
    case (2 x v) show ?case
    proof (rule keep_bnd, goal_cases)
      case 1 show ?case by (rule create_rows_wf [OF 2(2)])
    next
      case (2 m x) from 2(2) show ?case by (rule ship_ret_wf)
    qed
  qed
  show ?thesis
    unfolding materialize_def bnd_gets Let_def
  proof (simp add: ret_def throw_def wf split: if_splits, intro impI, rule keep_bnd, goal_cases)
    case 1 show ?case by (simp add: engine_wf [OF admit_engine] wf)
  next
    case (2 x u) then show ?case
      using create by (simp add: split_beta bnd_gets ship_ret_wf(2) split: option.split)
  qed
qed


section \<open>Quotas bound the bindings\<close>

definition bindings_of :: "hub \<Rightarrow> nat \<Rightarrow> nat" where
  "bindings_of s partner = length (filter (\<lambda>b. ps_partner b = partner) (partner_sites s))"

lemma quota_refuse_Inr: "quota_refuse w p reason status hs s = (Inr d, t) \<Longrightarrow> qd_refused d"
  by (auto simp: quota_refuse_def andThen_def fst_bnd_Inr ret_def)

lemma sites_path_SITES [simp]: "sites_path SITES"
  by (simp add: sites_path_def ends_path_def)

lemma upper_POST [simp]: "upper ''POST'' = ''POST''"
  by code_simp

lemma evaluate_quotas_row:
  assumes "evaluate_quotas w p method path now body nonce s = (Inr d, t)" "\<not> qd_refused d"
  obtains q where "find (\<lambda>q. p_pk q = p_pk p) (partners s) = Some q"
    "\<not> (upper method = ''POST'' \<and> sites_path path \<and> site_cap_hit w s (p_pk p) (p_max_sites q) (json_object w body))"
proof -
  from assms(1) obtain clock u where c: "clock_of w now s = (Inr clock, u)" unfolding evaluate_quotas_def fst_bnd_Inr by blast
  have u: "partners u = partners s" "partner_sites u = partner_sites s"
    using frameD [OF engine_rows [OF clock_of_engine] c] by (simp_all add: partner_rows_def)
  then have cap: "site_cap_hit w u = site_cap_hit w s" by (simp add: site_cap_hit_def binding_by_ref_def fun_eq_iff)
  note step = bnd_Inr [where m = "clock_of w now" and s = s, OF c]
  show thesis
  proof (cases "find (\<lambda>q. p_pk q = p_pk p) (partners s)")
    case None
    with assms c show thesis
      by (auto simp: evaluate_quotas_def step bnd_gets partner_quota_row_def u Let_def dest: quota_refuse_Inr split: if_splits)
  next
    case (Some q)
    moreover have "\<not> (upper method = ''POST'' \<and> sites_path path \<and> site_cap_hit w s (p_pk p) (p_max_sites q) (json_object w body))"
    proof
      assume "upper method = ''POST'' \<and> sites_path path \<and> site_cap_hit w s (p_pk p) (p_max_sites q) (json_object w body)"
      with assms c Some show False
        by (auto simp: evaluate_quotas_def step bnd_gets partner_quota_row_def u cap Let_def dest: quota_refuse_Inr split: if_splits)
    qed
    ultimately show thesis by (rule that)
  qed
qed

lemma require_quota_Inr:
  assumes "require_quota w p method path now body s = (Inr (), t)"
  shows "\<exists>d u. evaluate_quotas w p method path now body [] s = (Inr d, u) \<and> \<not> qd_refused d"
  using assms by (auto simp: require_quota_def fst_bnd_Inr split: if_splits)

text \<open>\<open>json.loads\<close> of blank text raises.\<close>

definition reads_json :: "world \<Rightarrow> bool" where
  "reads_json w = (\<forall>x. strip x = [] \<longrightarrow> w_loads w x = None)"

lemma json_object_body:
  assumes "reads_json w" "jget job ''body'' \<in> {JNull} \<union> range JStr"
  shows "json_object w (or_else (jget job ''body'') (JObj (payload_of w job))) = payload_of w job"
  using assms by (auto simp: json_object_def payload_of_def or_else_def reads_json_def)

lemma no_binding_for_tenant: "binding_by_ref s k (tenant_or_default payload) = None \<Longrightarrow> tenant_of payload \<noteq> [] \<Longrightarrow> binding_by_ref s k (tenant_of payload) = None"
  by (simp add: tenant_or_default_def)


section \<open>Ownership of the rows of a job\<close>

lemma find_distinct: "distinct (map f xs) \<Longrightarrow> x \<in> set xs \<Longrightarrow> find (\<lambda>y. f y = f x) xs = Some x"
  by (induction xs) (auto simp: image_iff)

lemma site_partner_bound:
  assumes "distinct (map ps_site (partner_sites s))" "b \<in> set (partner_sites s)"
  shows "site_partner s (ps_site b) = Some (ps_partner b)"
  using assms find_distinct [of ps_site "partner_sites s" b] by (simp add: site_partner_def)

lemma site_partner_new: "\<not> partnered s k \<Longrightarrow> partner_sites t = partner_sites s @ [b] \<Longrightarrow> ps_site b = k \<Longrightarrow> site_partner t k = Some (ps_partner b)"
  by (auto simp: site_partner_def find_append partnered_def list_ex_iff find_None_iff split: option.splits dest!: find_Some_mem)

lemma existing_iff:
  "existing_deployment s p jid \<noteq> None \<longleftrightarrow> truthy jid \<and> (\<exists>d\<in>set (deployments s). owned_deployment s p d \<and>
     (\<exists>m. manifest_by_pk s (d_manifest d) = Some m \<and> py_eq (jget (obj_fields (mf_body m)) ''partner_job_id'') jid))"
proof -
  let ?P = "\<lambda>d. owned_deployment s p d \<and> (case manifest_by_pk s (d_manifest d) of None \<Rightarrow> False
         | Some m \<Rightarrow> py_eq (jget (obj_fields (mf_body m)) ''partner_job_id'') jid)"
  have all: "existing_deployment s p jid \<noteq> None \<longleftrightarrow> truthy jid \<and> find ?P (deployments s) \<noteq> None"
  proof (cases "find ?P (deployments s)")
    case (Some d)
    then have "?P d" using find_Some_mem by fastforce
    then obtain m where m: "manifest_by_pk s (d_manifest d) = Some m" "site_partner s (mf_site m) = Some (p_pk p)"
      by (auto simp: owned_deployment_def deployment_site_def manifest_site_def split: option.splits)
    then have "find (\<lambda>b. ps_site b = mf_site m) (partner_sites s) \<noteq> None" by (auto simp: site_partner_def)
    with Some m(1) show ?thesis by (auto simp: existing_deployment_def find_by_job_id_def)
  qed (auto simp: existing_deployment_def find_by_job_id_def)
  then show ?thesis by (auto simp: find_None_iff split: option.splits)
qed

lemma existing_same_pk: "p_pk p' = p_pk p \<Longrightarrow> existing_deployment s p' jid = existing_deployment s p jid"
  by (simp add: existing_deployment_def find_by_job_id_def owned_deployment_def)

lemma existing_mz:
  assumes "existing_deployment s p jid = Some m"
  shows "site_partner s (mz_site m) = Some (p_pk p)"
proof -
  from assms obtain d mf where f: "find_by_job_id s p jid = Some (d, mf)" and site: "mz_site m = mf_site mf"
    by (auto simp: existing_deployment_def bind_eq_Some_conv)
  then have "owned_deployment s p d" "manifest_by_pk s (d_manifest d) = Some mf"
    by (auto simp: find_by_job_id_def bind_eq_Some_conv dest!: find_Some_mem split: if_splits)
  with site show ?thesis by (simp add: owned_deployment_def deployment_site_def manifest_site_def)
qed

lemma materialize_existing_rows:
  assumes "existing_deployment s p (jget job ''id'') \<noteq> None"
  shows "partner_rows (snd (materialize w p job transport now s)) = partner_rows s"
proof -
  obtain m where m: "existing_deployment s p (jget job ''id'') = Some m" using assms by blast
  have adm: "partner_rows (snd (admit w p payload s)) = partner_rows s" for payload
    by (rule frame_snd [OF engine_rows [OF admit_engine]])
  show ?thesis
  proof (cases "partner_api_on w s \<and> \<not> p_suspended p")
    case True
    then show ?thesis
      unfolding materialize_def bnd_gets Let_def
    proof (simp, intro keep_bnd [where P = "\<lambda>t. partner_rows t = partner_rows s"] adm, goal_cases)
      case (1 x u)
      with m have "existing_deployment u p (jget job ''id'') = Some m" using existing_cong by metis
      with 1 frame_snd [OF ship_rows(2), of w transport "load_pinned_digest w" u] show ?case
        by (auto simp: split_beta bnd_gets intro!: keep_andThen [where P = "\<lambda>t. partner_rows t = partner_rows s"] simp: ret_def)
    qed
  qed (auto simp: materialize_def bnd_gets ret_def throw_def)
qed

text \<open>After a job has been materialized its deployment is found under the job's id, and its site is the partner's.\<close>

lemma create_queued_InrD:
  assumes "create_queued w site body y = (Inr (mf, d), t)"
  shows "deployments t = deployments y @ [d] \<and> manifest_by_pk t (d_manifest d) = Some mf \<and>
    mf_site mf = site \<and> mf_body mf = body \<and> partner_sites t = partner_sites y"
proof -
  have "find (\<lambda>r. mf_pk r = next_pk (map mf_pk (manifests y))) (manifests y) = None"
    using fresh_pk [of mf_pk "manifests y"] by (force simp: find_None_iff)
  with assms show ?thesis by (auto simp: create_queued_eq Let_def manifest_by_pk_def find_append)
qed

lemma created_rows:
  assumes wf: "distinct (map ps_site (partner_sites s))" and m: "create_rows w p job payload tgt domain digest now s = (Inr m, t)"
  shows "site_partner t (mz_site m) = Some (p_pk p) \<and> deployments t = deployments s @ [mz_deployment m] \<and>
    manifest_by_pk t (d_manifest (mz_deployment m)) = Some (mz_manifest m) \<and> mf_site (mz_manifest m) = mz_site m \<and>
    mf_body (mz_manifest m) = manifest_of_job digest (jget job ''id'')"
proof -
  note queued = create_queued_InrD
  from m show ?thesis
  proof (cases rule: create_rows_InrD)
    case (bound v)
    then have "mz_binding m \<in> set (partner_sites s)" "ps_partner (mz_binding m) = p_pk p"
      by (auto simp: binding_by_ref_def dest!: find_Some_mem)
    with site_partner_bound [OF wf, of "mz_binding m"] queued [OF bound(3)] bound(2,4) show ?thesis by (simp add: site_partner_def partner_rows_def)
  next
    case (fresh v0 v v')
    from fresh(4) obtain pk where b: "pk = next_pk (map s_pk (sites v))" "mz_binding m = \<lparr>ps_partner = p_pk p, ps_site = pk, ps_tenant_ref = tenant_or_default payload\<rparr>"
      "partner_sites v' = partner_sites v @ [mz_binding m]" "deployments v' = deployments v"
      "\<not> list_ex (\<lambda>b. ps_site b = pk \<or> ps_partner b = p_pk p \<and> ps_tenant_ref b = tenant_or_default payload) (partner_sites v)"
      by (rule bind_site_InrD) simp
    then have "\<not> partnered v pk" by (auto simp: partnered_def list_ex_iff)
    from site_partner_new [OF this, of t] queued [OF fresh(5)] b fresh(3,6) show ?thesis by (simp add: partner_rows_def)
  qed
qed

lemma created_owned:
  assumes wf: "partner_wf s" and c: "partner_rows v = partner_rows s"
    "create_rows w p job payload tgt domain digest now v = (Inr m, x)" "partner_rows t = partner_rows x"
  shows "site_partner t (mz_site m) = Some (p_pk p)" "deployments t = deployments s @ [mz_deployment m]"
    "manifest_by_pk t (d_manifest (mz_deployment m)) = Some (mz_manifest m)" "mf_site (mz_manifest m) = mz_site m"
    "mf_body (mz_manifest m) = manifest_of_job digest (jget job ''id'')" "owned_deployment t p (mz_deployment m)"
proof -
  have "distinct (map ps_site (partner_sites v))" using wf c(1) by (simp add: partner_wf_def partner_rows_def)
  from created_rows [OF this c(2)] c(1,3) show
    "site_partner t (mz_site m) = Some (p_pk p)" "deployments t = deployments s @ [mz_deployment m]"
    "manifest_by_pk t (d_manifest (mz_deployment m)) = Some (mz_manifest m)" "mf_site (mz_manifest m) = mz_site m"
    "mf_body (mz_manifest m) = manifest_of_job digest (jget job ''id'')"
    by (simp_all add: partner_rows_def site_partner_def manifest_by_pk_def)
  then show "owned_deployment t p (mz_deployment m)"
    by (simp add: owned_deployment_def deployment_site_def manifest_site_def)
qed

lemma materialized_found:
  assumes wf: "partner_wf s" and m: "materialize w p job transport now s = (Inr (Some m), t)" and jid: "truthy (jget job ''id'')"
  shows "existing_deployment t p (jget job ''id'') \<noteq> None"
  using m
proof (cases rule: materialize_InrD)
  case old
  then show ?thesis using existing_cong by (metis option.distinct(1))
next
  case (created tgt domain u v x)
  note own = created_owned [OF wf created(3-5)]
  have "jget (obj_fields (mf_body (mz_manifest m))) ''partner_job_id'' = jget job ''id''"
    by (simp add: own(5) manifest_of_job_def jget_def)
  with own jid show ?thesis unfolding existing_iff by (intro conjI bexI [of _ "mz_deployment m"]) auto
qed


section \<open>Properties\<close>

text \<open>
  C11: Partner quotas bound what a partner can own. When a job (whose body is text, as the intake stores it) makes the
  hub bind another site to a partner, then afterwards the partner has at most as many sites as its row allows and the
  fleet at most as many partner sites as the cap allows, whatever path and method the job claims.
\<close>

theorem partner_site_quota:
  assumes "reads_json w" "jget job ''body'' \<in> {JNull} \<union> range JStr"
    and m: "materialize w p job transport now s = (Inr (Some m), t)" and new: "partner_sites t \<noteq> partner_sites s"
  shows "\<exists>q. find (\<lambda>q. p_pk q = p_pk p) (partners s) = Some q \<and> bindings_of t (p_pk p) \<le> p_max_sites q \<and>
    length (partner_sites t) \<le> fleet_cap w"
  using m
proof (cases rule: materialize_InrD)
  case old
  with new show ?thesis by (simp add: partner_rows_def)
next
  case (created tgt domain u v x)
  from created(4) show ?thesis
  proof (cases rule: create_rows_InrD)
    case (bound y)
    with created new show ?thesis by (auto simp: create_queued_eq Let_def partner_rows_def)
  next
    case (fresh v0 y y')
    from require_quota_Inr [OF fresh(2)] obtain d z where
      "evaluate_quotas w p ''POST'' SITES now (or_else (jget job ''body'') (JObj (payload_of w job))) [] v = (Inr d, z)" "\<not> qd_refused d" by blast
    then obtain q where q: "find (\<lambda>q. p_pk q = p_pk p) (partners v) = Some q"
      "\<not> site_cap_hit w v (p_pk p) (p_max_sites q) (json_object w (or_else (jget job ''body'') (JObj (payload_of w job))))"
      by (rule evaluate_quotas_row) simp
    then have "length (filter (\<lambda>b. ps_partner b = p_pk p) (partner_sites v)) < p_max_sites q" "length (partner_sites v) < fleet_cap w"
      using fresh(1) by (auto simp: json_object_body [OF assms(1,2)] site_cap_hit_def Let_def dest: no_binding_for_tenant)
    moreover from fresh(4) obtain b where "partner_sites y' = partner_sites y @ [b]" "ps_partner b = p_pk p" by (auto elim: bind_site_InrD)
    moreover from fresh(5) have "partner_sites x = partner_sites y'" by (auto simp: create_queued_eq Let_def)
    moreover have "partner_sites y = partner_sites v" "partner_sites t = partner_sites x" "partners v = partners s"
      using fresh(3) created(3,5) by (simp_all add: partner_rows_def)
    ultimately show ?thesis using q(1) by (auto simp: bindings_of_def)
  qed
qed


text \<open>
  C4: Partner sites are isolated. Whatever a job asks for, the deployment it leads to is of a site bound to the partner
  who signed it. If a deployment was created it runs the pinned template digest. If a site was created for it,
  the site is private to the mesh and its target is one the partner is ranked for, is not the hub's own host, carries
  partner sites only (also afterwards), has a tunnel if it is an own server, and the site's domain neither contains nor
  extends the domain of a site that is not a partner's.
\<close>

theorem materialize_isolates:
  assumes wf: "partner_wf s" and m: "materialize w p job transport now s = (Inr (Some m), t)"
  shows "site_partner t (mz_site m) = Some (p_pk p) \<and>
    (deployments t \<noteq> deployments s \<longrightarrow> deployments t = deployments s @ [mz_deployment m] \<and>
       manifest_by_pk t (d_manifest (mz_deployment m)) = Some (mz_manifest m) \<and> mf_site (mz_manifest m) = mz_site m \<and>
       jget (obj_fields (mf_body (mz_manifest m))) ''image_digest'' = JStr (load_pinned_digest w)) \<and>
    (sites t \<noteq> sites s \<longrightarrow> (\<exists>r tgt order. sites t = sites s @ [r] \<and> s_pk r = mz_site m \<and> s_exposure r = MeshOnly \<and>
       s_primary_target r = Some (t_pk tgt) \<and> tgt \<in> set (targets s) \<and> destination_pks p = Inr order \<and> int (t_pk tgt) \<in> set order \<and>
       (w_hub_hostname w = [] \<or> casefold (t_host tgt) \<noteq> w_hub_hostname w) \<and> tunnelled tgt \<and>
       isolated t (t_pk tgt) \<and> clear_of_hub_sites t (s_domain r)))"
  using m
proof (cases rule: materialize_InrD)
  case old
  then have "site_partner s (mz_site m) = Some (p_pk p)" by (intro existing_mz)
  with old show ?thesis by (simp add: partner_rows_def site_partner_def)
next
  case (created tgt domain u v x)
  note own = created_owned [OF wf created(3-5)]
  have "jget (obj_fields (mf_body (mz_manifest m))) ''image_digest'' = JStr (load_pinned_digest w)"
    by (simp add: own(5) manifest_of_job_def jget_def)
  moreover have "\<exists>r tgt order. sites t = sites s @ [r] \<and> s_pk r = mz_site m \<and> s_exposure r = MeshOnly \<and>
       s_primary_target r = Some (t_pk tgt) \<and> tgt \<in> set (targets s) \<and> destination_pks p = Inr order \<and> int (t_pk tgt) \<in> set order \<and>
       (w_hub_hostname w = [] \<or> casefold (t_host tgt) \<noteq> w_hub_hostname w) \<and> tunnelled tgt \<and>
       isolated t (t_pk tgt) \<and> clear_of_hub_sites t (s_domain r)" if new: "sites t \<noteq> sites s"
    using created(4)
  proof (cases rule: create_rows_InrD)
    case (bound y)
    with created new show ?thesis by (auto simp: create_queued_eq Let_def partner_rows_def)
  next
    case (fresh v0 y y')
    from fresh(4) obtain pk project where b: "mz_binding m = \<lparr>ps_partner = p_pk p, ps_site = pk, ps_tenant_ref = tenant_or_default (payload_of w job)\<rparr>"
      "y' = y\<lparr>projects := projects y @ [project], sites := sites y @ [new_site pk (p_workspace p) (pj_pk project) (partner_slug p (tenant_or_default (payload_of w job))) domain (t_pk tgt)],
         partner_sites := partner_sites y @ [mz_binding m]\<rparr>" by (rule bind_site_InrD) simp
    let ?r = "new_site pk (p_workspace p) (pj_pk project) (partner_slug p (tenant_or_default (payload_of w job))) domain (t_pk tgt)"
    have rows: "sites t = sites s @ [?r]" "partner_sites t = partner_sites s @ [mz_binding m]" "instances t = instances s"
      using b(2) fresh(3,5) created(3,5) by (auto simp: create_queued_eq Let_def partner_rows_def)
    then have more: "partnered t k \<longleftrightarrow> partnered s k \<or> k = pk" for k by (auto simp: partnered_def b(1))
    from created(1) obtain order where a: "destination_pks p = Inr order" "int (t_pk tgt) \<in> set order" "tgt \<in> set (targets s)"
      "w_hub_hostname w = [] \<or> casefold (t_host tgt) \<noteq> w_hub_hostname w" "isolated s (t_pk tgt)" "tunnelled tgt" "clear_of_hub_sites s domain"
      by (rule admit_InrD)
    have "isolated t (t_pk tgt)" using a(5) by (auto simp: isolated_def rows more new_site_def)
    moreover have "clear_of_hub_sites t domain" using a(7) by (auto simp: clear_of_hub_sites_def rows more new_site_def)
    ultimately show ?thesis using a(1-4,6) rows(1) fresh(6) by (intro exI [of _ ?r] exI [of _ tgt] exI [of _ order]) (simp add: new_site_def b(1))
  qed
  ultimately show ?thesis using own(1-4) by blast
qed

text \<open>
  A job is materialized once. When a job with an id has led to a deployment, then presenting it again for the same
  partner, with whatever body, path and destination, creates no site, binding, manifest, deployment or project and changes
  none, whether it is accepted or refused: an acknowledgement that was lost does not deploy twice.
\<close>

theorem job_materialized_once:
  assumes "partner_wf s" "materialize w p job transport now s = (Inr (Some m), t)" "truthy (jget job ''id'')"
    and "partner_rows u = partner_rows t" "p_pk p' = p_pk p" "jget job' ''id'' = jget job ''id''"
  shows "partner_rows (snd (materialize w' p' job' transport' now' u)) = partner_rows u"
proof (rule materialize_existing_rows)
  show "existing_deployment u p' (jget job' ''id'') \<noteq> None"
    using materialized_found [OF assms(1-3)] existing_cong [OF assms(4)] existing_same_pk [OF assms(5)] assms(6) by simp
qed


text \<open>A job of the demonstration partner: a text body naming a tenant, for a tunnelled own server.\<close>

definition tunnel_target :: target where
  "tunnel_target = sample_target\<lparr>t_collect_payload := JObj [(''tunnel'', JBool True)]\<rparr>"

definition job_world :: world where
  "job_world = calm_world\<lparr>w_loads := (\<lambda>x. if x = ''body'' then Some (JObj [(''tenant_ref'', JStr ''blue'')]) else None)\<rparr>"

definition job_hub :: hub where
  "job_hub = empty_hub\<lparr>partners := [demo_partner], targets := [tunnel_target]\<rparr>"

definition demo_job :: fields where
  "demo_job = [(''id'', JStr ''j1''), (''body'', JStr ''body'')]"

definition made :: "(exn + materialized option) \<times> hub \<Rightarrow> bool" where
  "made x = (case fst x of Inr (Some m) \<Rightarrow> partner_sites (snd x) \<noteq> [] | _ \<Rightarrow> False)"

lemma demo_job_made: "made (materialize job_world demo_partner demo_job False None job_hub)"
  by code_simp

lemma madeE: "made x \<Longrightarrow> \<exists>m t. x = (Inr (Some m), t) \<and> partner_sites t \<noteq> []"
  by (cases x) (auto simp: made_def split: sum.splits option.splits)

lemma job_hub_wf: "partner_wf job_hub"
  by (simp add: partner_wf_def job_hub_def)

lemma job_reads: "reads_json job_world"
proof -
  have "strip ''body'' \<noteq> []" by code_simp
  then show ?thesis by (auto simp: reads_json_def job_world_def)
qed

theorem partner_site_quota_witness:
  "\<exists>m t. materialize job_world demo_partner demo_job False None job_hub = (Inr (Some m), t) \<and> bindings_of t 1 \<le> 5"
proof -
  obtain m t where m: "materialize job_world demo_partner demo_job False None job_hub = (Inr (Some m), t)" "partner_sites t \<noteq> []"
    using madeE [OF demo_job_made] by blast
  then have "\<exists>q. find (\<lambda>q. p_pk q = p_pk demo_partner) (partners job_hub) = Some q \<and> bindings_of t (p_pk demo_partner) \<le> p_max_sites q \<and>
      length (partner_sites t) \<le> fleet_cap job_world"
    by (intro partner_site_quota [OF job_reads _ m(1)]) (simp_all add: demo_job_def jget_def job_hub_def)
  with m(1) show ?thesis by (auto simp: job_hub_def demo_partner_def)
qed

theorem materialize_isolates_witness:
  "\<exists>m t. materialize job_world demo_partner demo_job False None job_hub = (Inr (Some m), t) \<and> site_partner t (mz_site m) = Some 1"
proof -
  obtain m t where m: "materialize job_world demo_partner demo_job False None job_hub = (Inr (Some m), t)"
    using madeE [OF demo_job_made] by blast
  with materialize_isolates [OF job_hub_wf m] show ?thesis by (auto simp: demo_partner_def)
qed

theorem job_materialized_once_witness:
  "\<exists>m t. materialize job_world demo_partner demo_job False None job_hub = (Inr (Some m), t) \<and>
     partner_rows (snd (materialize job_world demo_partner demo_job False None t)) = partner_rows t"
proof -
  obtain m t where m: "materialize job_world demo_partner demo_job False None job_hub = (Inr (Some m), t)"
    using madeE [OF demo_job_made] by blast
  with job_materialized_once [OF job_hub_wf m, of t demo_partner demo_job job_world False None] show ?thesis
    by (simp add: demo_job_def jget_def)
qed

text \<open>
  The limit does not hold for a job whose body is a dictionary instead of text. \<open>_payload\<close> ignores such a body and
  binds the tenant \<open>default\<close>, while \<open>evaluate_quotas\<close> reads it and takes the tenant it names for the one that is bound
  already. Here a partner that may have one site and has it gets a second one.
\<close>

definition full_partner :: partner where
  "full_partner = demo_partner\<lparr>p_max_sites := 1\<rparr>"

definition full_hub :: hub where
  "full_hub = job_hub\<lparr>partners := [full_partner], sites := [new_site 1 1 1 ''p-acme-blue'' [] 3],
     partner_sites := [\<lparr>ps_partner = 1, ps_site = 1, ps_tenant_ref = ''blue''\<rparr>]\<rparr>"

lemma dict_body_exceeds_quota:
  "bindings_of (snd (materialize calm_world full_partner [(''id'', JStr ''j2''), (''body'', JObj [(''tenant_ref'', JStr ''blue'')])] False None full_hub)) 1 = 2"
  by code_simp

end
