(* ===== verification/Git_Poll.thy ===== *)
theory Git_Poll
  imports Task_Envelope
begin

text \<open>
  \<open>deploys/poller.py\<close>: the poll of the git heads of all sites, the cron windows, and the wake-up by a pushed
  head. \<open>git ls-remote\<close> and the URL validator of \<open>core/validators.py\<close> are parameters. A task that is handed to the
  broker is appended to the task queue with its signed envelope.
\<close>

section \<open>Cron windows\<close>

text \<open>A field is a comma list of \<open>*\<close>, \<open>*/n\<close>, \<open>a-b\<close> and \<open>n\<close>. \<open>None\<close>: a number is malformed.\<close>

definition int_text :: "string \<Rightarrow> int option" where
  "int_text x = (case py_int (JStr x) of Inr i \<Rightarrow> Some i | Inl _ \<Rightarrow> None)"

definition cron_part :: "string \<Rightarrow> int \<Rightarrow> bool option" where
  "cron_part part v =
     (if part = ''*'' then Some True
      else if prefix ''*/'' part then map_option (\<lambda>step. step > 0 \<and> v mod step = 0) (int_text (drop 2 part))
      else if CHR ''-'' \<in> set part then
        (let (start, stop) = partition_char (CHR ''-'') part in
         Option.bind (int_text start) (\<lambda>a. if \<not> a \<le> v then Some False else map_option (\<lambda>b. v \<le> b) (int_text stop)))
      else map_option (\<lambda>n. n = v) (int_text part))"

fun cron_parts :: "string list \<Rightarrow> int \<Rightarrow> bool" where
  "cron_parts [] v = False"
| "cron_parts (part # parts) v = (case cron_part part v of None \<Rightarrow> False | Some hit \<Rightarrow> hit \<or> cron_parts parts v)"

definition cron_field :: "string \<Rightarrow> int \<Rightarrow> bool" where
  "cron_field spec v = cron_parts (split_char (CHR '','') spec) v"

text \<open>\<open>str.split()\<close>: the runs of characters that are no white space.\<close>

fun words :: "string \<Rightarrow> string list" where
  "words [] = []"
| "words (c # cs) = (if is_space c then words cs else
     (case cs of [] \<Rightarrow> [[c]] | d # _ \<Rightarrow> if is_space d then [c] # words cs
        else case words cs of [] \<Rightarrow> [[c]] | x # xs \<Rightarrow> (c # x) # xs))"

text \<open>Minute, hour, day, month and weekday (Sunday is 0) of an instant in UTC.\<close>

definition cron_in_window :: "string \<Rightarrow> time \<Rightarrow> bool" where
  "cron_in_window cron now = (case words cron of
     [minute, hour, day, month, weekday] \<Rightarrow>
       (let days = now div 86400000000; sec = now mod 86400000000 div 1000000; (y, m, d) = civil days in
        cron_field minute (sec div 60 mod 60) \<and> cron_field hour (sec div 3600) \<and> cron_field day d \<and> cron_field month m \<and>
        cron_field weekday ((days + 4) mod 7))
   | _ \<Rightarrow> False)"


section \<open>Heads and manifests\<close>

definition body_sha :: "manifest \<Rightarrow> json" where
  "body_sha m = jget (obj_fields (mf_body m)) ''git_sha''"

definition latest_by :: "('a \<Rightarrow> nat) \<Rightarrow> 'a list \<Rightarrow> 'a option" where
  "latest_by f xs = foldl (\<lambda>best x. case best of None \<Rightarrow> Some x | Some y \<Rightarrow> if f x > f y then Some x else Some y) None xs"

definition last_deployed_sha :: "hub \<Rightarrow> nat \<Rightarrow> json" where
  "last_deployed_sha s site =
     (case latest_by d_pk (filter (\<lambda>d. deployment_site s d = Some site \<and> d_status d = Succeeded) (deployments s)) of
        None \<Rightarrow> JStr []
      | Some d \<Rightarrow> (case manifest_by_pk s (d_manifest d) of None \<Rightarrow> JStr [] | Some m \<Rightarrow> or_else (body_sha m) (JStr [])))"

definition latest_manifest :: "hub \<Rightarrow> nat \<Rightarrow> manifest option" where
  "latest_manifest s site = latest_by mf_version (filter (\<lambda>m. mf_site m = site) (manifests s))"

definition enqueue :: "world \<Rightarrow> nat \<Rightarrow> string \<Rightarrow> manifest \<Rightarrow> deployment act" where
  "enqueue w site sha latest = bnd (timezone_now w) (\<lambda>now. (\<lambda>s.
     let m = \<lparr>mf_pk = next_pk (map mf_pk (manifests s)), mf_site = site, mf_version = mf_version latest + 1,
           mf_schema_version = mf_schema_version latest, mf_body = JObj (jset (obj_fields (mf_body latest)) ''git_sha'' (JStr sha)),
           mf_scan_report_hash = mf_scan_report_hash latest, mf_scanned_at = mf_scanned_at latest, mf_created_at = now\<rparr>;
         d = \<lparr>d_pk = next_pk (map d_pk (deployments s)), d_manifest = mf_pk m, d_status = Queued, d_last_heartbeat = None, d_rollback_of = None\<rparr>
     in (Inr d, s\<lparr>manifests := manifests s @ [m], deployments := deployments s @ [d]\<rparr>)))"

definition queued_for_sha :: "hub \<Rightarrow> nat \<Rightarrow> string \<Rightarrow> deployment option" where
  "queued_for_sha s site sha = find (\<lambda>d. deployment_site s d = Some site \<and> d_status d = Queued \<and>
     (case manifest_by_pk s (d_manifest d) of None \<Rightarrow> False | Some m \<Rightarrow> body_sha m = JStr sha)) (deployments s)"

definition enqueue_run_deploy :: "world \<Rightarrow> nat \<Rightarrow> unit act" where
  "enqueue_run_deploy w d = bnd (envelope_for_deploy w d) (\<lambda>env. modify (\<lambda>s. s\<lparr>task_queue := task_queue s @ [(d, env)]\<rparr>))"

definition is_waiting :: "hub \<Rightarrow> nat \<Rightarrow> bool" where
  "is_waiting s d = list_ex (\<lambda>e. ae_action e = ''deploy-waiting'' \<and> ae_object_type e = ''Deployment'' \<and> ae_object_id e = str_nat d) (audits s)"

definition promote_waiting :: "world \<Rightarrow> site \<Rightarrow> string \<Rightarrow> time \<Rightarrow> unit act" where
  "promote_waiting w site sha now =
     (if s_deploy_policy site \<noteq> PolicyWindowed \<or> \<not> cron_in_window (s_deploy_window_cron site) now then ret ()
      else bnd (gets (\<lambda>s. Option.bind (queued_for_sha s (s_pk site) sha)
          (\<lambda>d. if d_last_heartbeat d \<noteq> None \<or> \<not> is_waiting s (d_pk d) then None else Some d))) (\<lambda>found. case found of
        None \<Rightarrow> ret ()
      | Some d \<Rightarrow> andThen (modify (\<lambda>s. s\<lparr>deployments := upd_rows (\<lambda>r. d_pk r = d_pk d \<and> d_status r = Queued)
            (\<lambda>r. r\<lparr>d_last_heartbeat := Some now\<rparr>) (deployments s)\<rparr>))
          (enqueue_run_deploy w (d_pk d))))"


section \<open>The poll\<close>

definition audit_celery :: "world \<Rightarrow> string \<Rightarrow> audit_obj option \<Rightarrow> audit_severity \<Rightarrow> (string \<times> json) list \<Rightarrow> unit act" where
  "audit_celery w action obj severity detail = bnd (audit w ((audit_args action obj)\<lparr>ac_source := SrcCelery,
     ac_severity := severity, ac_detail := detail\<rparr>)) (\<lambda>_. ret ())"

text \<open>What is done about a head that is neither deployed nor the one of the latest manifest.\<close>

definition deploy_head :: "world \<Rightarrow> site \<Rightarrow> string \<Rightarrow> manifest \<Rightarrow> time \<Rightarrow> unit act" where
  "deploy_head w site sha latest now =
     (if s_deploy_policy site = PolicyConfirm
      then audit_celery w ''deploy-confirm-required'' (Some (OSite site)) SevInfo [(''git_sha'', JStr sha)]
      else bnd (enqueue w (s_pk site) sha latest) (\<lambda>d.
        if s_deploy_policy site = PolicyWindowed \<and> \<not> cron_in_window (s_deploy_window_cron site) now
        then audit_celery w ''deploy-waiting'' (Some (ODeployment d)) SevInfo [(''git_sha'', JStr sha)]
        else enqueue_run_deploy w (d_pk d)))"

type_synonym remote = "string \<Rightarrow> string \<Rightarrow> string"

definition poll_site :: "world \<Rightarrow> remote \<Rightarrow> bool \<Rightarrow> time \<Rightarrow> project \<Rightarrow> site \<Rightarrow> unit act" where
  "poll_site w ls_remote resolving now project site = (case w_git_url_refused w (pj_git_url project) resolving of
     Some code \<Rightarrow> audit_celery w ''git-url-blocked'' (Some (OSite site)) SevInfo
       [(''code'', JStr (if code = [] then ''invalid'' else code))]
   | None \<Rightarrow>
     (let sha = ls_remote (pj_git_url project) (pj_git_ref project) in
      if sha = [] then ret ()
      else bnd (gets (\<lambda>s. (latest_manifest s (s_pk site), last_deployed_sha s (s_pk site)))) (\<lambda>(found, deployed). case found of
        None \<Rightarrow> ret ()
      | Some latest \<Rightarrow>
          if JStr sha = deployed then ret ()
          else if JStr sha = or_else (body_sha latest) (JStr []) then promote_waiting w site sha now
          else deploy_head w site sha latest now)))"

definition polled_sites :: "hub \<Rightarrow> (project \<times> site) list" where
  "polled_sites s = List.map_filter (\<lambda>r. case find (\<lambda>j. pj_pk j = s_project r) (projects s) of
     None \<Rightarrow> None | Some j \<Rightarrow> if pj_git_url j = [] then None else Some (j, r)) (sites s)"

definition poll_git :: "world \<Rightarrow> remote \<Rightarrow> bool \<Rightarrow> time \<Rightarrow> unit act" where
  "poll_git w ls_remote resolving now = bnd (gets polled_sites) (\<lambda>rows.
     for_each rows (\<lambda>(j, r). poll_site w ls_remote resolving now j r))"

text \<open>The body of the Beat task: the real remote, with the URLs resolved.\<close>

definition poll_all_heads :: "world \<Rightarrow> unit act" where
  "poll_all_heads w = bnd (timezone_now w) (\<lambda>now. poll_git w (w_ls_remote w) True now)"

text \<open>A pushed head only wakes the poller: the head is read from the remote, for the pushed URL and ref alone.\<close>

definition hinted :: "world \<Rightarrow> string \<Rightarrow> json \<Rightarrow> remote" where
  "hinted w hint_url hint_ref url ref = (if url = hint_url \<and> JStr ref = hint_ref then w_ls_remote w url ref else [])"

definition enqueue_git_push :: "world \<Rightarrow> string \<Rightarrow> json \<Rightarrow> time \<Rightarrow> string option act" where
  "enqueue_git_push w git_url ref now = (case w_git_url_refused w git_url False of
     Some code \<Rightarrow> ret (Some code)
   | None \<Rightarrow> andThen (poll_git w (hinted w git_url ref) False now) (ret None))"


section \<open>What a poll adds\<close>

text \<open>A manifest that a poll may add: the head of the remote for a polled site that deploys without confirmation.\<close>

definition is_head :: "world \<Rightarrow> remote \<Rightarrow> bool \<Rightarrow> (project \<times> site) list \<Rightarrow> manifest \<Rightarrow> bool" where
  "is_head w ls_remote resolving rows m = list_ex (\<lambda>(j, r). mf_site m = s_pk r \<and> s_deploy_policy r \<noteq> PolicyConfirm \<and>
     w_git_url_refused w (pj_git_url j) resolving = None \<and> ls_remote (pj_git_url j) (pj_git_ref j) \<noteq> [] \<and>
     body_sha m = JStr (ls_remote (pj_git_url j) (pj_git_ref j))) rows"

definition adds_heads :: "(manifest \<Rightarrow> bool) \<Rightarrow> hub \<Rightarrow> hub \<Rightarrow> bool" where
  "adds_heads ok s t = (\<exists>new. manifests t = manifests s @ new \<and> list_all ok new)"

interpretation adding: evolution "adds_heads ok" for ok
proof
  show "adds_heads ok s s" for s by (simp add: adds_heads_def)
  show "adds_heads ok s u" if "adds_heads ok s t" "adds_heads ok t u" for s t u
    using that by (fastforce simp: adds_heads_def)
qed

lemma same_manifests_adds: "evolves (same manifests) m \<Longrightarrow> evolves (adds_heads ok) m"
  by (simp add: evolves_def same_def adds_heads_def)

lemma poll_frames:
  "evolves (same manifests) (audit_celery w action obj sev detail)" "evolves (same manifests) (enqueue_run_deploy w d)"
  "evolves (same manifests) (promote_waiting w site sha now)"
proof -
  have "manifests (beside_journal s) = manifests s" for s by (simp add: beside_journal_def)
  then have au: "evolves (same manifests) (audit w c)" for c
    using audit_journal [of w c] unfolding evolves_def same_def by metis
  show "evolves (same manifests) (audit_celery w action obj sev detail)"
    unfolding audit_celery_def by (intro frame.ev_rules au)
  have "evolves (same manifests) (unix_time w)" "evolves (same manifests) (token_hex w)"
    unfolding unix_time_def by (auto simp: evolves_def same_def token_hex_def bnd_now ret_def)
  then show q: "evolves (same manifests) (enqueue_run_deploy w d)" for d
    unfolding enqueue_run_deploy_def envelope_for_deploy_def wrap_def Let_def by (intro frame.ev_rules modify_frame) simp_all
  show "evolves (same manifests) (promote_waiting w site sha now)"
    unfolding promote_waiting_def by (intro frame.ev_rules modify_frame q) simp_all
qed

lemma enqueue_adds:
  assumes "\<And>m. mf_site m = site \<Longrightarrow> body_sha m = JStr sha \<Longrightarrow> ok m"
  shows "evolves (adds_heads ok) (enqueue w site sha latest)"
  by (auto simp: evolves_def enqueue_def bnd_now adds_heads_def Let_def body_sha_def intro!: assms)

lemma poll_site_adds:
  assumes "(j, r) \<in> set rows"
  shows "evolves (adds_heads (is_head w ls_remote resolving rows)) (poll_site w ls_remote resolving now j r)"
proof (cases "w_git_url_refused w (pj_git_url j) resolving = None \<and> ls_remote (pj_git_url j) (pj_git_ref j) \<noteq> []")
  case True
  let ?sha = "ls_remote (pj_git_url j) (pj_git_ref j)" and ?ok = "is_head w ls_remote resolving rows"
  have "evolves (adds_heads ?ok) (deploy_head w r ?sha latest now)" for latest
  proof (cases "s_deploy_policy r = PolicyConfirm")
    case False
    with assms True have "?ok m" if "mf_site m = s_pk r" "body_sha m = JStr ?sha" for m
      using that unfolding is_head_def list_ex_iff by (intro bexI [of _ "(j, r)"]) auto
    then show ?thesis unfolding deploy_head_def
      by (intro adding.ev_rules enqueue_adds same_manifests_adds [OF poll_frames(1)] same_manifests_adds [OF poll_frames(2)])
  qed (simp add: deploy_head_def same_manifests_adds [OF poll_frames(1)])
  with True show ?thesis
    by (auto simp: poll_site_def Let_def intro!: adding.ev_rules same_manifests_adds [OF poll_frames(3)])
qed (auto simp: poll_site_def Let_def split: option.splits intro!: adding.ev_rules same_manifests_adds [OF poll_frames(1)])

lemma poll_git_adds: "adds_heads (is_head w ls_remote resolving (polled_sites s)) s (snd (poll_git w ls_remote resolving now s))"
proof -
  have "evolves (adds_heads (is_head w ls_remote resolving (polled_sites s)))
      (for_each (polled_sites s) (\<lambda>(j, r). poll_site w ls_remote resolving now j r))"
    by (rule adding.ev_for_each) (auto simp: poll_site_adds split_beta)
  then show ?thesis by (simp add: poll_git_def bnd_gets evolves_def)
qed


section \<open>Properties\<close>

text \<open>
  A push only wakes the poller. Whatever URL, ref and commit a pushed item names, every manifest that handling it
  creates is for a site whose project has exactly that URL and ref, records the head that the remote itself reports (never the
  pushed commit), and is not for a site that waits for confirmation; nothing is created for a URL the validator refuses.
\<close>

theorem push_only_wakes_poller:
  "\<exists>new. manifests (snd (enqueue_git_push w url ref now s)) = manifests s @ new \<and>
     list_all (\<lambda>m. w_git_url_refused w url False = None \<and>
       list_ex (\<lambda>(j, r). mf_site m = s_pk r \<and> pj_git_url j = url \<and> JStr (pj_git_ref j) = ref \<and> s_deploy_policy r \<noteq> PolicyConfirm \<and>
         w_ls_remote w url (pj_git_ref j) \<noteq> [] \<and> body_sha m = JStr (w_ls_remote w url (pj_git_ref j))) (polled_sites s)) new"
proof (cases "w_git_url_refused w url False")
  case None
  have "snd (enqueue_git_push w url ref now s) = snd (poll_git w (hinted w url ref) False now s)"
    using None by (auto simp: enqueue_git_push_def andThen_def bnd_def ret_def split: prod.splits sum.splits)
  with poll_git_adds [of w "hinted w url ref" False s now] obtain new where
    "manifests (snd (enqueue_git_push w url ref now s)) = manifests s @ new" "list_all (is_head w (hinted w url ref) False (polled_sites s)) new"
    by (auto simp: adds_heads_def)
  moreover have "list_all (\<lambda>m. w_git_url_refused w url False = None \<and>
       list_ex (\<lambda>(j, r). mf_site m = s_pk r \<and> pj_git_url j = url \<and> JStr (pj_git_ref j) = ref \<and> s_deploy_policy r \<noteq> PolicyConfirm \<and>
         w_ls_remote w url (pj_git_ref j) \<noteq> [] \<and> body_sha m = JStr (w_ls_remote w url (pj_git_ref j))) (polled_sites s)) new"
    using calculation(2) None by (fastforce simp: list_all_iff is_head_def list_ex_iff hinted_def split: if_splits)
  ultimately show ?thesis by blast
qed (simp add: enqueue_git_push_def ret_def)

text \<open>
  A window with both a day of the month and a weekday asks for both at once, where cron takes either: the first of January
  1970, a Thursday, is outside the window of the first of the month and Mondays.
\<close>

lemma day_and_weekday_both: "\<not> cron_in_window ''0 0 1 * 1'' 0 \<and> cron_in_window ''0 0 1 * *'' 0 \<and> cron_in_window ''*/5 0-3 1 1 4,5'' 0"
  by code_simp

end
