(* ===== verification/Intake_Poll.thy ===== *)
theory Intake_Poll
  imports Partner_Jobs Git_Poll
begin

text \<open>
  \<open>monitor/intake_poll.py\<close>: the Beat body that fetches the outbox of the intake process, handles pushed git heads first,
  binds partner jobs to the partner whose key verifies them, materializes and acknowledges them, and keeps the run record
  with its alerts. The HTTP client is a parameter: the answer to a call is any function of the calls made so far.
  The jitter before a poll is left out.
\<close>

section \<open>The client\<close>

definition BATCH_CAP :: nat where
  "BATCH_CAP = 20"

definition FAIL_N :: nat where
  "FAIL_N = 3"

definition UNREACHABLE_AFTER :: int where
  "UNREACHABLE_AFTER = minutes 5"

definition TYPE_GIT_PUSH :: string where
  "TYPE_GIT_PUSH = ''git-push''"

definition TYPE_PARTNER_JOB :: string where
  "TYPE_PARTNER_JOB = ''partner-job''"

text \<open>\<open>urlparse\<close>: scheme and network location; a bracketed address literal is taken as it is.\<close>

definition is_alpha :: "char \<Rightarrow> bool" where
  "is_alpha c = (let n = of_char c :: nat in (65 \<le> n \<and> n \<le> 90) \<or> (97 \<le> n \<and> n \<le> 122))"

definition url_parts :: "string \<Rightarrow> string \<times> string" where
  "url_parts raw = (let url = filter (\<lambda>c. of_char c \<notin> {9, 10, 13 :: nat}) (dropWhile (\<lambda>c. of_char c \<le> (32 :: nat)) raw);
       (before, after) = partition_char (CHR '':'') url;
       named = (CHR '':'' \<in> set url \<and> before \<noteq> [] \<and> is_alpha (hd before) \<and>
         list_all (\<lambda>c. is_alpha c \<or> is_digit c \<or> c \<in> {CHR ''+'', CHR ''-'', CHR ''.''}) before);
       rest = (if named then after else url) in
     (if named then lower before else [],
      if prefix ''//'' rest then takeWhile (\<lambda>c. c \<notin> {CHR ''/'', CHR ''?'', CHR ''#''}) (drop 2 rest) else []))"

definition intake_client_for :: "world \<Rightarrow> string \<Rightarrow> unit act" where
  "intake_client_for w url = (let raw = strip url; (scheme, netloc) = url_parts raw in
     if raw = [] then throw (IntakeClientError ''INTAKE_URL is empty'')
     else if scheme \<notin> {''http'', ''https''} \<or> netloc = [] then throw (IntakeClientError ''INTAKE_URL is not an http(s) URL'')
     else if scheme \<noteq> ''https'' \<and> \<not> w_debug w then throw (IntakeClientError ''INTAKE_URL must be https in production'')
     else if w_intake_token w = [] \<and> \<not> w_debug w then throw (IntakeClientError ''INTAKE_SERVICE_TOKEN is required in production'')
     else ret ())"

definition intake_fetch :: "world \<Rightarrow> json list act" where
  "intake_fetch w = (\<lambda>s. let cs = intake_calls s @ [IntakeFetch] in (w_intake w cs, s\<lparr>intake_calls := cs\<rparr>))"

definition client_ack :: "world \<Rightarrow> json \<Rightarrow> unit act" where
  "client_ack w job_id = (\<lambda>s. let cs = intake_calls s @ [IntakeAck job_id] in
     (case w_intake w cs of Inl e \<Rightarrow> Inl e | Inr _ \<Rightarrow> Inr (), s\<lparr>intake_calls := cs\<rparr>))"

definition ack_job :: "world \<Rightarrow> json \<Rightarrow> bool act" where
  "ack_job w job_id = (if job_id = JNull then ret False
     else try_except (andThen (client_ack w job_id) (ret True))
       (\<lambda>e. case e of IntakeClientError _ \<Rightarrow> ret False | _ \<Rightarrow> throw e))"


section \<open>One item\<close>

definition item_authenticated :: "world \<Rightarrow> fields \<Rightarrow> exn + bool" where
  "item_authenticated w job = (if w_intake_token w = [] then Inr (w_debug w)
     else compare_digest (JStr (py_str (or_else (jget job ''hub_sig'') (JStr []))))
       (w_hmac w (utf8 (w_intake_token w)) (utf8 (py_str (or_else (jget job ''id'') (JStr []))))))"

definition request_of :: "fields \<Rightarrow> headers \<Rightarrow> partner_request" where
  "request_of job hs = \<lparr>rq_method = py_str (or_else (jget job ''method'') (JStr ''POST'')), rq_path = py_str (or_else (jget job ''path'') (JStr [])),
     rq_body = or_else (jget job ''body'') (JStr []), rq_headers = hs\<rparr>"

text \<open>The headers of a job; a truthy value that is no dictionary has none of the methods used on it.\<close>

definition job_headers :: "fields \<Rightarrow> exn + headers" where
  "job_headers job = (case or_else (jget job ''headers'') (JObj []) of JObj hs \<Rightarrow> Inr hs | _ \<Rightarrow> Inl (OtherError ''AttributeError''))"

fun try_partners :: "world \<Rightarrow> partner_request \<Rightarrow> time \<Rightarrow> partner list \<Rightarrow> (partner \<times> verify_result) option act" where
  "try_partners w q now [] = ret None"
| "try_partners w q now (p # ps) =
     (if p_suspended p \<or> p_pubkey_current p = [] \<and> p_pubkey_previous p = [] then try_partners w q now ps
      else bnd (try_except (bnd (reverify w p q (Some now) False False) (\<lambda>r. ret (Some r)))
             (\<lambda>e. case e of SignatureRejected _ \<Rightarrow> ret None | _ \<Rightarrow> throw e)) (\<lambda>found.
        case found of Some r \<Rightarrow> ret (Some (p, r)) | None \<Rightarrow> try_partners w q now ps))"

definition partner_for :: "world \<Rightarrow> fields \<Rightarrow> time \<Rightarrow> (partner \<times> verify_result) option act" where
  "partner_for w job now = bnd (raise_or (job_headers job)) (\<lambda>hs.
     if header hs ''X-Partner-Signature'' = [] then ret None
     else bnd (gets (\<lambda>s. sort_key p_pk (partners s))) (\<lambda>ps. try_partners w (request_of job hs) now ps))"

definition persist_accepted_nonce :: "world \<Rightarrow> partner \<Rightarrow> verify_result \<Rightarrow> time \<Rightarrow> unit act" where
  "persist_accepted_nonce w p r now = (if vr_nonce r = [] then ret ()
     else try_except (remember_nonce w p (vr_nonce r) (Some now) True)
       (\<lambda>e. case e of ReplayRejected _ \<Rightarrow> ret () | _ \<Rightarrow> throw e))"

definition persist_accepted_idempotency :: "world \<Rightarrow> partner \<Rightarrow> fields \<Rightarrow> verify_result \<Rightarrow> unit act" where
  "persist_accepted_idempotency w p job r = bnd (raise_or (job_headers job)) (\<lambda>hs.
     let q = request_of job hs; idem_key = header hs ''Idempotency-Key'' in
     when_do (idem_key \<noteq> []) (store_idempotency w p idem_key (params_hash w (rq_method q) (rq_path q) (rq_body q)) r))"

definition handle_git_push :: "world \<Rightarrow> fields \<Rightarrow> time \<Rightarrow> bool act" where
  "handle_git_push w job now = bnd (case or_else (jget job ''git_url'') (JStr []) of
       JStr url \<Rightarrow> enqueue_git_push w url (or_else (jget job ''ref'') (JStr [])) now
     | _ \<Rightarrow> ret (Some ''required'')) (\<lambda>refused. case refused of
       Some code \<Rightarrow> andThen (audit_celery w ''git-url-blocked'' None SevInfo [(''code'', JStr (if code = [] then ''invalid'' else code))]) (ret False)
     | None \<Rightarrow> ret True)"

fun type_name :: "json \<Rightarrow> string" where
  "type_name JNull = ''NoneType''"
| "type_name (JBool _) = ''bool''"
| "type_name (JInt _) = ''int''"
| "type_name (JStr _) = ''str''"
| "type_name (JArr _) = ''list''"
| "type_name (JObj _) = ''dict''"

text \<open>What is left to do for an item after the counter has been moved.\<close>

datatype item_step = Settled | PushHandled json bool | JobAccepted fields partner verify_result

definition inspect_item :: "world \<Rightarrow> bool \<Rightarrow> time \<Rightarrow> json \<Rightarrow> item_step act" where
  "inspect_item w enabled now item = (case item of
     JObj job \<Rightarrow>
       (let job_id = jget job ''id''; job_type = or_else (jget job ''type'') (JStr TYPE_PARTNER_JOB) in
        if job_type = JStr TYPE_GIT_PUSH then
          bnd (raise_or (item_authenticated w job)) (\<lambda>ok.
          if \<not> ok then andThen (audit_celery w ''outbox-item-refused'' None SevSecurity [(''type'', JStr TYPE_GIT_PUSH),
              (''job_id'', JStr (py_str (or_else job_id (JStr [])))), (''reason'', JStr ''unauthenticated'')]) (ret Settled)
          else bnd (handle_git_push w job now) (\<lambda>done. ret (PushHandled job_id done)))
        else if job_type \<noteq> JStr TYPE_PARTNER_JOB then
          andThen (audit_celery w ''outbox-type-refused'' None SevWarning [(''type'', JStr (py_str (or_else (jget job ''type'') (JStr [])))),
              (''job_id'', JStr (py_str (or_else job_id (JStr []))))])
            (bnd (ack_job w job_id) (\<lambda>_. ret Settled))
        else if \<not> enabled then ret Settled
        else bnd (partner_for w job now) (\<lambda>found. case found of
          Some (p, r) \<Rightarrow> ret (if vr_ok r then JobAccepted job p r else Settled)
        | None \<Rightarrow> ret Settled))
   | _ \<Rightarrow> andThen (audit_celery w ''outbox-item-refused'' None SevWarning [(''type'', JStr (type_name item))]) (ret Settled))"

fun count_of :: "item_step \<Rightarrow> nat" where
  "count_of Settled = 0"
| "count_of (PushHandled _ done) = (if done then 1 else 0)"
| "count_of (JobAccepted _ _ _) = 1"

fun finish_item :: "world \<Rightarrow> time \<Rightarrow> item_step \<Rightarrow> unit act" where
  "finish_item w now Settled = ret ()"
| "finish_item w now (PushHandled job_id _) = bnd (ack_job w job_id) (\<lambda>_. ret ())"
| "finish_item w now (JobAccepted job p r) =
     bnd (materialize w p job False None) (\<lambda>created. case created of
       None \<Rightarrow> ret ()
     | Some _ \<Rightarrow> bnd (ack_job w (jget job ''id'')) (\<lambda>acked.
         if acked then andThen (persist_accepted_nonce w p r now) (persist_accepted_idempotency w p job r) else ret ()))"

definition attempt_item :: "('s, 'a) prog \<Rightarrow> ('s, exn + 'a) prog" where
  "attempt_item m = (\<lambda>s. case m s of (r, t) \<Rightarrow> (Inr r, t))"

definition on_item_error :: "world \<Rightarrow> json \<Rightarrow> exn \<Rightarrow> unit act" where
  "on_item_error w item e = (case e of
     ReplayRejected _ \<Rightarrow> (case item of JObj job \<Rightarrow> bnd (ack_job w (jget job ''id'')) (\<lambda>_. ret ()) | _ \<Rightarrow> ret ())
   | SignatureRejected _ \<Rightarrow> ret ()
   | PartnerRefuse _ \<Rightarrow> ret ()
   | PartnerNotFound \<Rightarrow> ret ()
   | _ \<Rightarrow> audit_celery w ''outbox-item-refused'' None SevWarning [])"

definition process_item :: "world \<Rightarrow> bool \<Rightarrow> time \<Rightarrow> json \<Rightarrow> nat act" where
  "process_item w enabled now item = bnd (attempt_item (inspect_item w enabled now item)) (\<lambda>r. case r of
     Inl e \<Rightarrow> andThen (on_item_error w item e) (ret 0)
   | Inr step \<Rightarrow> bnd (attempt_item (finish_item w now step)) (\<lambda>r'. case r' of
       Inl e \<Rightarrow> andThen (on_item_error w item e) (ret (count_of step))
     | Inr _ \<Rightarrow> ret (count_of step)))"


section \<open>The batch and the run record\<close>

definition is_push :: "json \<Rightarrow> bool" where
  "is_push item = (case item of JObj job \<Rightarrow> or_else (jget job ''type'') (JStr []) = JStr TYPE_GIT_PUSH | _ \<Rightarrow> False)"

definition iter_jobs_git_first :: "json list \<Rightarrow> json list" where
  "iter_jobs_git_first items = filter is_push items @ filter (\<lambda>x. \<not> is_push x) items"

fun process_items :: "world \<Rightarrow> bool \<Rightarrow> time \<Rightarrow> json list \<Rightarrow> nat act" where
  "process_items w enabled now [] = ret 0"
| "process_items w enabled now (item # items) =
     bnd (process_item w enabled now item) (\<lambda>k. bnd (process_items w enabled now items) (\<lambda>n. ret (k + n)))"

definition process :: "world \<Rightarrow> json list \<Rightarrow> time \<Rightarrow> nat act" where
  "process w items now = bnd (gets (partner_api_on w)) (\<lambda>enabled. process_items w enabled now (iter_jobs_git_first items))"

definition latest_poll :: "hub \<Rightarrow> poll_run option" where
  "latest_poll s = latest_by pr_pk (poll_runs s)"

definition upsert_run :: "check_status \<Rightarrow> (poll_run \<Rightarrow> poll_run) \<Rightarrow> time \<Rightarrow> unit act" where
  "upsert_run status set_results now = modify (\<lambda>s. case latest_poll s of
     None \<Rightarrow> s\<lparr>poll_runs := poll_runs s @ [set_results \<lparr>pr_pk = next_pk (map pr_pk (poll_runs s)), pr_status = status, pr_started = now,
       pr_finished = now, pr_consecutive_failures = 0, pr_last_success_at = None, pr_first_failure_at = None, pr_n = None\<rparr>]\<rparr>
   | Some row \<Rightarrow> s\<lparr>poll_runs := upd_rows (\<lambda>r. pr_pk r = pr_pk row) (\<lambda>r. set_results (r\<lparr>pr_status := status, pr_finished := now\<rparr>)) (poll_runs s)\<rparr>)"

definition failure_results :: "nat \<Rightarrow> time option \<Rightarrow> time option \<Rightarrow> poll_run \<Rightarrow> poll_run" where
  "failure_results n success first r = r\<lparr>pr_consecutive_failures := n, pr_last_success_at := success, pr_first_failure_at := first, pr_n := None\<rparr>"

definition success_results :: "time \<Rightarrow> nat \<Rightarrow> poll_run \<Rightarrow> poll_run" where
  "success_results now n r = r\<lparr>pr_consecutive_failures := 0, pr_last_success_at := Some now, pr_first_failure_at := None, pr_n := Some n\<rparr>"

definition poll_facts :: "string \<Rightarrow> string \<Rightarrow> string \<Rightarrow> string \<Rightarrow> alert_facts" where
  "poll_facts fp title body fix_action = \<lparr>af_fingerprint = Some fp, af_source_engine = Some ''monitor.intake_poll'', af_workspace = Some default_ws,
     af_obj = None, af_title = title, af_body = body, af_fix_action = fix_action, af_details = no_details\<rparr>"

datatype poll_status = PollSkipped | PollFailed | PollSucceeded nat

definition aged :: "time \<Rightarrow> time option \<Rightarrow> bool" where
  "aged now stamp = (case stamp of None \<Rightarrow> False | Some t \<Rightarrow> now - t \<ge> UNREACHABLE_AFTER)"

definition record_failure :: "world \<Rightarrow> time \<Rightarrow> poll_status act" where
  "record_failure w now = bnd (gets latest_poll) (\<lambda>latest.
     let n = Suc (case latest of None \<Rightarrow> 0 | Some r \<Rightarrow> pr_consecutive_failures r);
         success = Option.bind latest pr_last_success_at;
         first0 = Option.bind latest pr_first_failure_at;
         first = (if success = None \<and> first0 = None then Some now else first0) in
     andThen (upsert_run ChkFailed (failure_results n success first) now)
     (andThen (when_do (n \<ge> FAIL_N) (bnd (raise_alert w ''hub-outbox-poll-failing'' ''intake'' (poll_facts ''hub-outbox-poll-failing''
         ''Hub outbox poll failing'' (''The Hub could not fetch the partner intake outbox for '' @ str_nat n @ '' consecutive cycles.'')
         ''Check INTAKE_URL and the intake process.'')) (\<lambda>_. ret ())))
     (andThen (when_do (aged now success \<or> success = None \<and> aged now first)
         (bnd (raise_alert w ''partner-intake-unreachable'' ''intake'' (poll_facts ''partner-intake-unreachable'' ''Partner intake unreachable''
           ''No successful Hub poll of the partner intake outbox for more than 5 minutes.''
           ''Restore the intake process and confirm INTAKE_URL.'')) (\<lambda>_. ret ())))
     (ret PollFailed))))"

definition record_success :: "time \<Rightarrow> nat \<Rightarrow> poll_status act" where
  "record_success now n = andThen (upsert_run ChkSucceeded (success_results now n) now) (ret (PollSucceeded n))"

definition poll_intake :: "world \<Rightarrow> poll_status act" where
  "poll_intake w = bnd (timezone_now w) (\<lambda>clock.
     if strip (w_intake_url w) = [] then ret PollSkipped
     else bnd (attempt_item (andThen (intake_client_for w (strip (w_intake_url w))) (intake_fetch w))) (\<lambda>fetched. case fetched of
       Inl _ \<Rightarrow> record_failure w clock
     | Inr items \<Rightarrow> bnd (process w (take BATCH_CAP items) clock) (\<lambda>n. record_success clock n)))"

end
