(* ===== verification/Intake_Facts.thy ===== *)
theory Intake_Facts
  imports Intake_Poll
begin

text \<open>
  What a poll of the intake keeps and does: the constraints of the tables through every item, push and failure;
  that a batch is worked off whatever its items are; the run record; and that rows need a signature the hub has checked.
\<close>

section \<open>The tables under a poll\<close>

lemma latest_by_max:
  assumes "latest_by f xs = Some y"
  shows "y \<in> set xs \<and> (\<forall>x\<in>set xs. f x \<le> f y)"
proof -
  let ?g = "\<lambda>best x. case best of None \<Rightarrow> Some x | Some y \<Rightarrow> if f x > f y then Some x else Some y"
  have step: "foldl ?g (Some z) xs = Some y \<Longrightarrow> (y = z \<or> y \<in> set xs) \<and> f z \<le> f y \<and> (\<forall>x\<in>set xs. f x \<le> f y)" for z xs
  proof (induction xs arbitrary: z)
    case (Cons x xs)
    from Cons.prems Cons.IH [of x] Cons.IH [of z] show ?case by (cases "f x > f z") auto
  qed simp
  from assms show ?thesis
    by (cases xs) (auto simp: latest_by_def dest: step)
qed

lemma enqueue_wf:
  assumes wf: "partner_wf s" and site: "site \<in> s_pk ` set (sites s)" and latest: "latest_manifest s site = Some m"
  shows "partner_wf (snd (enqueue w site sha m s))"
proof -
  have "next_pk (map mf_pk (manifests s)) \<notin> mf_pk ` set (manifests s)" "next_pk (map d_pk (deployments s)) \<notin> d_pk ` set (deployments s)"
    by (rule fresh_pk)+
  moreover have "(site, Suc (mf_version m)) \<notin> (\<lambda>m. (mf_site m, mf_version m)) ` set (manifests s)"
    using latest_by_max [OF latest [unfolded latest_manifest_def]] by fastforce
  ultimately show ?thesis using wf site by (auto simp: enqueue_def bnd_now partner_wf_def Let_def)
qed

lemma audit_celery_engine: "evolves (same beside_engine) (audit_celery w action obj sev detail)"
  unfolding audit_celery_def by (intro frame.ev_rules basic_engine)

lemma queue_rows:
  "evolves (same partner_rows) (enqueue_run_deploy w d)" "evolves (same replay_nonces) (enqueue_run_deploy w d)"
  unfolding enqueue_run_deploy_def envelope_for_deploy_def wrap_def Let_def
  by (intro frame.ev_rules modify_frame; auto simp: partner_rows_def evolves_def same_def bnd_now ret_def unix_time_def token_hex_def)+

lemma queue_run_wf: "partner_wf (snd (enqueue_run_deploy w d s)) = partner_wf s"
  by (intro partner_wf_cong frame_snd queue_rows)

definition keeps_wf :: "hub \<Rightarrow> hub \<Rightarrow> bool" where
  "keeps_wf s t = (partner_wf s \<longrightarrow> partner_wf t)"

interpretation tables: evolution keeps_wf
  by unfold_locales (auto simp: keeps_wf_def)

lemma engine_tables: "evolves (same beside_engine) m \<Longrightarrow> evolves keeps_wf m"
  by (simp add: evolves_def keeps_wf_def engine_wf [unfolded evolves_def])

lemma celery_tables: "evolves keeps_wf (audit_celery w action obj sev detail)"
  by (rule engine_tables [OF audit_celery_engine])

lemma queue_tables: "evolves keeps_wf (enqueue_run_deploy w d)"
  by (simp add: evolves_def keeps_wf_def queue_run_wf)

lemma promote_tables: "evolves keeps_wf (promote_waiting w site sha now)"
  unfolding promote_waiting_def
  by (intro tables.ev_rules tables.ev_modify queue_tables)
    (auto simp: keeps_wf_def partner_wf_def map_upd_rows_same set_upd_rows)

lemma evolves_wf: "evolves keeps_wf m \<Longrightarrow> partner_wf s \<Longrightarrow> partner_wf (snd (m s))"
  by (simp add: evolves_def keeps_wf_def)

lemma deploy_head_wf:
  assumes wf: "partner_wf s" and site: "s_pk r \<in> s_pk ` set (sites s)" and latest: "latest_manifest s (s_pk r) = Some m"
  shows "partner_wf (snd (deploy_head w r sha m now s))"
proof (cases "s_deploy_policy r = PolicyConfirm")
  case True then show ?thesis by (simp add: deploy_head_def evolves_wf [OF celery_tables wf])
next
  case False
  show ?thesis
    unfolding deploy_head_def if_not_P [OF False]
    by (rule keep_bnd [where P = partner_wf]) (simp_all add: enqueue_wf [OF wf site latest] evolves_wf celery_tables queue_tables)
qed

lemma poll_site_wf:
  assumes wf: "partner_wf s" and site: "s_pk r \<in> s_pk ` set (sites s)"
  shows "partner_wf (snd (poll_site w ls_remote resolving now j r s))"
proof (cases "w_git_url_refused w (pj_git_url j) resolving")
  case None
  then show ?thesis
    by (cases "latest_manifest s (s_pk r)")
      (simp_all add: poll_site_def Let_def wf bnd_gets ret_def deploy_head_wf [OF wf site] evolves_wf [OF promote_tables wf])
qed (simp add: poll_site_def evolves_wf [OF celery_tables wf])

lemma poll_site_sites: "evolves (same sites) (poll_site w ls_remote resolving now j r)"
proof -
  have q: "evolves (same sites) (enqueue_run_deploy w d)" for d
    using queue_rows(1) [of w d] by (simp add: evolves_def same_def partner_rows_def)
  have a: "evolves (same sites) (audit_celery w action obj sev detail)" for action obj sev detail
    by (rule engine_field [OF _ audit_celery_engine]) (simp add: beside_engine_def)
  have "evolves (same sites) (enqueue w site sha latest)" for site sha latest
    by (simp add: evolves_def same_def enqueue_def bnd_now Let_def)
  then show ?thesis
    unfolding poll_site_def deploy_head_def promote_waiting_def Let_def
    by (intro frame.ev_rules modify_frame q a; simp)
qed

lemma poll_git_wf:
  assumes "partner_wf s"
  shows "partner_wf (snd (poll_git w ls_remote resolving now s))"
proof -
  have rows: "\<forall>(j, r)\<in>set (polled_sites s). s_pk r \<in> s_pk ` set (sites s)"
    by (auto simp: polled_sites_def map_filter_def split: option.splits if_splits)
  have "partner_wf (snd (for_each rs (\<lambda>(j, r). poll_site w ls_remote resolving now j r) t))"
    if "partner_wf t" "\<forall>(j, r)\<in>set rs. s_pk r \<in> s_pk ` set (sites t)" for rs t
    using that
  proof (induction rs arbitrary: t)
    case (Cons jr rs)
    obtain j r where jr: "jr = (j, r)" by fastforce
    have one: "partner_wf (snd (poll_site w ls_remote resolving now j r t))" using Cons.prems by (intro poll_site_wf) (auto simp: jr)
    show ?case unfolding for_each.simps jr prod.case
    proof (rule keep_andThen [where P = partner_wf and m = "poll_site w ls_remote resolving now j r" and s = t, OF one])
      fix x u assume "poll_site w ls_remote resolving now j r t = (Inr x, u)" "partner_wf u"
      then show "partner_wf (snd (for_each rs (\<lambda>(j, r). poll_site w ls_remote resolving now j r) u))"
        using Cons.prems frameD [OF poll_site_sites] by (intro Cons.IH) auto
    qed
  qed (simp add: ret_def)
  from this [OF assms rows] show ?thesis by (simp add: poll_git_def bnd_gets)
qed

section \<open>The tables under a batch\<close>

lemma ev_json:
  "evolves R a \<Longrightarrow> (\<And>x. evolves R (b x)) \<Longrightarrow> (\<And>x. evolves R (c x)) \<Longrightarrow> (\<And>x. evolves R (d x)) \<Longrightarrow> (\<And>x. evolves R (e x)) \<Longrightarrow>
    (\<And>x. evolves R (f x)) \<Longrightarrow> evolves R (case j of JNull \<Rightarrow> a | JBool x \<Rightarrow> b x | JInt x \<Rightarrow> c x | JStr x \<Rightarrow> d x | JArr x \<Rightarrow> e x | JObj x \<Rightarrow> f x)"
  by (simp split: json.split)

lemma ack_tables: "evolves keeps_wf (ack_job w job_id)"
proof -
  have "evolves keeps_wf (client_ack w job_id)"
    by (simp add: evolves_def client_ack_def Let_def keeps_wf_def partner_wf_def)
  then show ?thesis unfolding ack_job_def by (intro tables.ev_rules) (auto split: exn.split intro: tables.ev_rules)
qed

lemma remember_tables: "evolves keeps_wf (remember_nonce w p nonce now persist)"
proof -
  have "evolves keeps_wf (purge_nonces k cutoff)" for k cutoff
    unfolding purge_nonces_def by (intro tables.ev_modify) (auto simp: keeps_wf_def partner_wf_def intro: distinct_map_filter)
  moreover have "evolves keeps_wf (create_nonce w k nonce)" for k
    by (auto simp: evolves_def create_nonce_def bnd_now keeps_wf_def partner_wf_def list_ex_iff known_nonce_def)
  ultimately show ?thesis
    unfolding remember_nonce_def by (intro tables.ev_rules engine_tables [OF alert_engine(2)] engine_tables [OF clock_of_engine])
qed

lemma idempotency_tables:
  "evolves keeps_wf (idempotency_cached w p key params now nonce)" "evolves keeps_wf (store_idempotency w p key params r)"
  unfolding idempotency_cached_def store_idempotency_def
  by (intro tables.ev_rules tables.ev_modify engine_tables [OF clock_of_engine] engine_tables [OF basic_engine(2)];
      simp add: keeps_wf_def partner_wf_def)+

lemma reverify_tables: "evolves keeps_wf (reverify w p q now remember idem)"
  unfolding reverify_def answer_request_def Let_def
  by (intro tables.ev_rules remember_tables idempotency_tables engine_tables [OF evaluate_quotas_engine] engine_tables [OF verify_signature_engine])

lemma try_partners_tables: "evolves keeps_wf (try_partners w q now ps)"
  by (induction ps) (auto intro!: tables.ev_rules reverify_tables split: exn.splits)

lemma attempt_ev: "evolves R m \<Longrightarrow> evolves R (attempt_item m)"
  by (auto simp: evolves_def attempt_item_def split: prod.splits) (metis snd_conv)

lemma push_tables: "evolves keeps_wf (handle_git_push w job now)"
proof -
  have "evolves keeps_wf (poll_git w ls_remote resolving now)" for ls_remote resolving
    by (simp add: evolves_def keeps_wf_def poll_git_wf)
  then show ?thesis unfolding handle_git_push_def enqueue_git_push_def by (intro tables.ev_rules ev_json celery_tables)
qed

lemma raise_or_tables: "evolves keeps_wf (raise_or x)"
  by (rule engine_tables [OF raise_or_engine])

lemma inspect_tables: "evolves keeps_wf (inspect_item w enabled now item)"
  unfolding inspect_item_def partner_for_def Let_def
  by (intro tables.ev_rules ev_json celery_tables ack_tables push_tables raise_or_tables try_partners_tables)

lemma finish_tables: "evolves keeps_wf (finish_item w now step)"
proof (cases step)
  case (JobAccepted job p r)
  have "evolves keeps_wf (materialize w p job False None)"
    by (simp add: evolves_def keeps_wf_def materialize_wf)
  then show ?thesis
    by (auto simp: JobAccepted persist_accepted_nonce_def persist_accepted_idempotency_def Let_def split: exn.split
        intro!: tables.ev_rules ack_tables remember_tables idempotency_tables raise_or_tables)
qed (auto intro!: tables.ev_rules ack_tables)

lemma process_item_tables: "evolves keeps_wf (process_item w enabled now item)"
  unfolding process_item_def on_item_error_def
  by (intro tables.ev_rules attempt_ev inspect_tables finish_tables)
    (auto split: exn.split intro!: tables.ev_rules ev_json celery_tables ack_tables)

lemma process_tables: "evolves keeps_wf (process w items now)"
proof -
  have "evolves keeps_wf (process_items w enabled now its)" for enabled its
    by (induction its) (auto intro!: tables.ev_rules process_item_tables)
  then show ?thesis unfolding process_def by (intro tables.ev_rules)
qed

lemma upsert_tables: "evolves keeps_wf (upsert_run status f now)"
  unfolding upsert_run_def by (intro tables.ev_modify) (simp add: keeps_wf_def partner_wf_def split: option.split)

lemma poll_intake_tables: "evolves keeps_wf (poll_intake w)"
proof -
  have "evolves keeps_wf (intake_client_for w url)" for url
    unfolding intake_client_for_def Let_def by (intro tables.ev_rules)
  moreover have "evolves keeps_wf (intake_fetch w)"
    by (simp add: evolves_def intake_fetch_def Let_def keeps_wf_def partner_wf_def)
  ultimately show ?thesis
    unfolding poll_intake_def record_failure_def record_success_def Let_def
    by (intro tables.ev_rules attempt_ev process_tables upsert_tables engine_tables [OF raise_alert_engine] engine_tables [OF basic_engine(2)])
qed


section \<open>A batch is worked off\<close>

definition completes :: "('s, 'a) prog \<Rightarrow> bool" where
  "completes m = (\<forall>s. \<exists>x t. m s = (Inr x, t))"

lemma completes_ret: "completes (ret x)"
  by (simp add: completes_def ret_def)

lemma completes_gets: "completes (gets f)"
  by (simp add: completes_def gets_def)

lemma completes_modify: "completes (modify f)"
  by (simp add: completes_def modify_def)

lemma completes_bnd: "completes m \<Longrightarrow> (\<And>x. completes (k x)) \<Longrightarrow> completes (bnd m k)"
  unfolding completes_def bnd_def by (metis (no_types, lifting) case_prod_conv sum.case(2))

lemma completes_attempt: "completes (attempt_item m)"
  by (auto simp: completes_def attempt_item_def split: prod.split)

lemmas completes_rules = completes_ret completes_gets completes_modify completes_bnd completes_bnd [folded andThen_def] completes_attempt

lemma completes_audit: "completes (audit_celery w action None sev detail)"
  unfolding audit_celery_def
proof (rule completes_bnd)
  show "completes (audit w (audit_args action None\<lparr>ac_source := SrcCelery, ac_severity := sev, ac_detail := detail\<rparr>))"
    unfolding completes_def
  proof
    fix s show "\<exists>x t. audit w (audit_args action None\<lparr>ac_source := SrcCelery, ac_severity := sev, ac_detail := detail\<rparr>) s = (Inr x, t)"
      by (rule audit_system_ok [of "audit_args action None\<lparr>ac_source := SrcCelery, ac_severity := sev, ac_detail := detail\<rparr>" w s])
        (auto simp: audit_args_def)
  qed
qed (rule completes_ret)

text \<open>The errors of the client are its own: \<open>HttpIntakeClient\<close> turns what the transport raises into \<open>IntakeClientError\<close>.\<close>

definition client_errors :: "world \<Rightarrow> bool" where
  "client_errors w = (\<forall>cs. case w_intake w cs of Inl (IntakeClientError _) \<Rightarrow> True | Inl _ \<Rightarrow> False | Inr _ \<Rightarrow> True)"

lemma completes_ack:
  assumes "client_errors w"
  shows "completes (ack_job w job_id)"
proof -
  have "\<exists>x t. ack_job w job_id s = (Inr x, t)" for s
    using assms [unfolded client_errors_def, rule_format, of "intake_calls s @ [IntakeAck job_id]"]
    by (auto simp: ack_job_def client_ack_def try_except_def andThen_def bnd_def ret_def throw_def Let_def split: sum.splits exn.splits)
  then show ?thesis by (simp add: completes_def)
qed

lemma completes_item_error:
  assumes "client_errors w"
  shows "completes (on_item_error w item e)"
  unfolding on_item_error_def
  by (auto split: exn.split json.split intro!: completes_rules completes_audit completes_ack [OF assms])

lemma process_item_count:
  assumes "client_errors w"
  shows "\<exists>n t. process_item w enabled now item s = (Inr n, t) \<and> n \<le> 1"
proof -
  have err: "\<exists>t. andThen (on_item_error w item e) (ret k) u = (Inr k, t)" for e u and k :: nat
    using completes_item_error [OF assms, of item e] unfolding completes_def by (metis andThen_def bnd_Inr ret_def)
  have one: "count_of step \<le> 1" for step by (cases step) auto
  obtain r u where r: "inspect_item w enabled now item s = (r, u)" by fastforce
  show ?thesis
  proof (cases r)
    case (Inl e) with err [of e 0 u] r show ?thesis by (auto simp: process_item_def attempt_item_def bnd_def)
  next
    case (Inr step)
    obtain r' v where r': "finish_item w now step u = (r', v)" by fastforce
    have "\<exists>t. process_item w enabled now item s = (Inr (count_of step), t)"
      using r r' Inr err [of _ "count_of step" v] by (cases r') (simp_all add: process_item_def attempt_item_def bnd_def ret_def)
    with one [of step] show ?thesis by blast
  qed
qed

lemma process_items_count:
  assumes "client_errors w"
  shows "\<exists>n t. process_items w enabled now items s = (Inr n, t) \<and> n \<le> length items"
proof (induction items arbitrary: s)
  case (Cons item items)
  obtain k u where k: "process_item w enabled now item s = (Inr k, u)" "k \<le> 1"
    using process_item_count [OF assms] by blast
  obtain n t where n: "process_items w enabled now items u = (Inr n, t)" "n \<le> length items"
    using Cons.IH by blast
  show ?case using k n by (auto simp: bnd_def ret_def)
qed (simp add: ret_def)

lemma length_git_first: "length (iter_jobs_git_first items) = length items"
  by (simp add: iter_jobs_git_first_def sum_length_filter_compl)

lemma process_count:
  assumes "client_errors w"
  shows "\<exists>n t. process w items now s = (Inr n, t) \<and> n \<le> length items"
  using process_items_count [OF assms, of "partner_api_on w s" now "iter_jobs_git_first items" s]
  unfolding process_def bnd_gets length_git_first .


section \<open>The run record\<close>

lemma latest_by_map:
  assumes "\<And>x. f (g x) = f x"
  shows "latest_by f (map g xs) = map_option g (latest_by f xs)"
proof -
  let ?h = "\<lambda>best x. case best of None \<Rightarrow> Some x | Some y \<Rightarrow> if f x > f y then Some x else Some y"
  have "foldl ?h (map_option g b) (map g xs) = map_option g (foldl ?h b xs)" for b
  proof (induction xs arbitrary: b)
    case (Cons x xs)
    have "?h (map_option g b) (g x) = map_option g (?h b x)" using assms by (cases b) auto
    then show ?case using Cons.IH [of "?h b x"] by (simp only: list.map foldl.simps)
  qed simp
  from this [of None] show ?thesis by (simp add: latest_by_def)
qed

lemma latest_by_None: "latest_by f xs = None \<Longrightarrow> xs = []"
proof -
  let ?h = "\<lambda>best x. case best of None \<Rightarrow> Some x | Some y \<Rightarrow> if f x > f y then Some x else Some y"
  have "foldl ?h (Some z) xs \<noteq> None" for z xs by (induction xs arbitrary: z) auto
  then show "latest_by f xs = None \<Longrightarrow> xs = []" by (cases xs) (auto simp: latest_by_def)
qed

lemma upsert_latest:
  assumes "\<And>r. pr_pk (f r) = pr_pk r" "upsert_run status f now s = (x, t)"
  shows "\<exists>r. latest_poll t = Some (f (r\<lparr>pr_status := status, pr_finished := now\<rparr>))"
proof (cases "latest_poll s")
  case None
  with latest_by_None have "poll_runs s = []" by (auto simp: latest_poll_def)
  with None assms(2) show ?thesis by (auto simp: upsert_run_def modify_def latest_poll_def latest_by_def) (metis (no_types, lifting) poll_run.surjective poll_run.update_convs)
next
  case (Some row)
  let ?g = "\<lambda>r. if pr_pk r = pr_pk row then f (r\<lparr>pr_status := status, pr_finished := now\<rparr>) else r"
  have "latest_by pr_pk (map ?g (poll_runs s)) = map_option ?g (latest_by pr_pk (poll_runs s))"
    by (rule latest_by_map) (simp add: assms(1))
  with assms(2) Some have "latest_poll t = Some (?g row)"
    by (auto simp: upsert_run_def modify_def latest_poll_def upd_rows_def)
  then show ?thesis by auto
qed

lemma client_for_state: "intake_client_for w url t = (fst (intake_client_for w url s), t)"
  by (simp add: intake_client_for_def ret_def throw_def Let_def split_beta)

lemma record_success_latest:
  "\<exists>t r. record_success now n s = (Inr (PollSucceeded n), t) \<and> latest_poll t = Some r \<and> pr_status r = ChkSucceeded \<and>
     pr_consecutive_failures r = 0 \<and> pr_n r = Some n"
proof -
  obtain t where t: "upsert_run ChkSucceeded (success_results now n) now s = (Inr (), t)" by (simp add: upsert_run_def modify_def)
  with upsert_latest [of "success_results now n", OF _ t] show ?thesis
    by (auto simp: record_success_def andThen_def bnd_def ret_def success_results_def)
qed

lemma record_failure_latest:
  "\<exists>r. latest_poll (snd (record_failure w now s)) = Some r \<and> pr_status r = ChkFailed \<and>
     pr_consecutive_failures r = Suc (case latest_poll s of None \<Rightarrow> 0 | Some r \<Rightarrow> pr_consecutive_failures r)"
proof -
  define n where "n = Suc (case latest_poll s of None \<Rightarrow> 0 | Some r \<Rightarrow> pr_consecutive_failures r)"
  have alarm: "evolves (same poll_runs) (raise_alert w kind entity af)" for kind entity af
    by (rule engine_field [OF _ raise_alert_engine]) (simp add: beside_engine_def)
  have upsert: "\<exists>u r. upsert_run ChkFailed (failure_results n a b) now s = (Inr (), u) \<and> latest_poll u = Some r \<and>
      pr_status r = ChkFailed \<and> pr_consecutive_failures r = n" for a b
  proof -
    obtain u where u: "upsert_run ChkFailed (failure_results n a b) now s = (Inr (), u)" by (simp add: upsert_run_def modify_def)
    with upsert_latest [of "failure_results n a b", OF _ u] show ?thesis by (auto simp: failure_results_def)
  qed
  have "\<exists>a b rest. record_failure w now s = andThen (upsert_run ChkFailed (failure_results n a b) now) rest s \<and> evolves (same poll_runs) rest"
    unfolding record_failure_def bnd_gets Let_def n_def [symmetric]
    by (intro exI conjI, rule refl) (intro frame.ev_rules alarm)
  then obtain a b rest where rest: "record_failure w now s = andThen (upsert_run ChkFailed (failure_results n a b) now) rest s"
    "evolves (same poll_runs) rest" by blast
  obtain u r where u: "upsert_run ChkFailed (failure_results n a b) now s = (Inr (), u)" "latest_poll u = Some r"
    "pr_status r = ChkFailed" "pr_consecutive_failures r = n" using upsert by blast
  have "snd (record_failure w now s) = snd (rest u)" by (simp add: rest(1) andThen_def bnd_def u(1))
  with u(2) frame_snd [OF rest(2), of u] have "latest_poll (snd (record_failure w now s)) = Some r" by (simp add: latest_poll_def)
  with u(3, 4) show ?thesis by (simp add: n_def)
qed


section \<open>Rows and signatures\<close>

lemma celery_rows: "evolves (same partner_rows) (audit_celery w action obj sev detail)"
  by (rule engine_rows [OF audit_celery_engine])

lemma ack_rows: "evolves (same partner_rows) (ack_job w job_id)"
proof -
  have "evolves (same partner_rows) (client_ack w job_id)"
    by (simp add: evolves_def same_def client_ack_def Let_def partner_rows_def)
  then show ?thesis unfolding ack_job_def by (intro frame.ev_rules) (auto split: exn.split intro: frame.ev_rules)
qed

lemma reverify_rows: "evolves (same partner_rows) (reverify w p q now remember idem)"
proof -
  have "evolves (same partner_rows) (idempotency_cached w p key params now nonce)" "evolves (same partner_rows) (store_idempotency w p key params r)"
    for key params nonce r
    unfolding idempotency_cached_def store_idempotency_def
    by (intro frame.ev_rules modify_frame engine_rows [OF clock_of_engine] engine_rows [OF basic_engine(2)]; simp add: partner_rows_def)+
  moreover have "evolves (same partner_rows) (remember_nonce w p nonce now remember)" for nonce
    unfolding remember_nonce_def purge_nonces_def
    by (intro frame.ev_rules modify_frame engine_rows [OF alert_engine(2)] engine_rows [OF clock_of_engine])
      (auto simp: partner_rows_def create_nonce_def evolves_def same_def bnd_now)
  ultimately show ?thesis
    unfolding reverify_def answer_request_def Let_def
    by (intro frame.ev_rules engine_rows [OF evaluate_quotas_engine] engine_rows [OF verify_signature_engine])
qed

lemma try_partners_rows: "evolves (same partner_rows) (try_partners w q now ps)"
  by (induction ps) (auto intro!: frame.ev_rules reverify_rows split: exn.splits)

lemma try_partners_found:
  "try_partners w q now ps s = (Inr (Some (p, r)), t) \<Longrightarrow>
     p \<in> set ps \<and> \<not> p_suspended p \<and> (\<exists>u v. reverify w p q (Some now) False False u = (Inr r, v))"
proof (induction ps arbitrary: s)
  case (Cons p' ps)
  show ?case
  proof (cases "p_suspended p' \<or> p_pubkey_current p' = [] \<and> p_pubkey_previous p' = []")
    case True with Cons show ?thesis by auto
  next
    case False
    obtain x v where v: "reverify w p' q (Some now) False False s = (x, v)" by fastforce
    show ?thesis
    proof (cases x)
      case (Inr r')
      with Cons.prems False v show ?thesis by (auto simp: try_except_def bnd_def ret_def)
    next
      case (Inl e)
      with Cons.prems False v have "try_partners w q now ps v = (Inr (Some (p, r)), t)"
        by (auto simp: try_except_def bnd_def ret_def throw_def split: exn.splits)
      from Cons.IH [OF this] show ?thesis by auto
    qed
  qed
qed (simp add: ret_def)

lemma inspect_accepted:
  assumes "inspect_item w enabled now (JObj job) s = (Inr (JobAccepted job' p r), t)"
  obtains hs u v where "enabled" "job' = job" "job_headers job = Inr hs" "p \<in> set (partners s)" "\<not> p_suspended p"
    "reverify w p (request_of job hs) (Some now) False False u = (Inr r, v)"
proof -
  have not_push: "or_else (jget job ''type'') (JStr TYPE_PARTNER_JOB) \<noteq> JStr TYPE_GIT_PUSH"
    using assms by (auto simp: inspect_item_def Let_def fst_bnd_Inr ret_def andThen_def split: if_splits)
  have ty: "or_else (jget job ''type'') (JStr TYPE_PARTNER_JOB) = JStr TYPE_PARTNER_JOB"
    using assms not_push by (auto simp: inspect_item_def Let_def fst_bnd_Inr ret_def andThen_def split: if_splits)
  have en: "enabled" using assms ty not_push by (auto simp: inspect_item_def Let_def ret_def split: if_splits)
  from assms ty not_push en obtain u where u: "partner_for w job now s = (Inr (Some (p, r)), u)" "job' = job"
    by (auto simp: inspect_item_def Let_def fst_bnd_Inr ret_def split: option.splits prod.splits if_splits)
  then obtain hs where hs: "job_headers job = Inr hs" "try_partners w (request_of job hs) now (sort_key p_pk (partners s)) s = (Inr (Some (p, r)), u)"
    by (auto simp: partner_for_def fst_bnd_raise_or bnd_gets ret_def split: if_splits)
  from try_partners_found [OF hs(2)] en u(2) hs(1) show thesis by (auto intro: that)
qed

lemma item_error_rows: "evolves (same partner_rows) (on_item_error w item e)"
  unfolding on_item_error_def by (auto split: exn.split json.split intro!: frame.ev_rules celery_rows ack_rows)

lemma partner_item_rows:
  assumes "or_else (jget job ''type'') (JStr TYPE_PARTNER_JOB) \<noteq> JStr TYPE_GIT_PUSH"
  shows "evolves (same partner_rows) (inspect_item w enabled now (JObj job))"
  using assms unfolding inspect_item_def partner_for_def Let_def
  by (auto intro!: frame.ev_rules celery_rows ack_rows try_partners_rows engine_rows [OF raise_or_engine])

lemma settled_rows: "(\<nexists>job p r. step = JobAccepted job p r) \<Longrightarrow> evolves (same partner_rows) (finish_item w now step)"
  by (cases step) (auto intro!: frame.ev_rules ack_rows)

lemma rows_changed_accepted:
  assumes insp: "evolves (same partner_rows) (inspect_item w enabled now (JObj job))"
    and changed: "partner_rows (snd (process_item w enabled now (JObj job) s)) \<noteq> partner_rows s"
  obtains job' p r t where "inspect_item w enabled now (JObj job) s = (Inr (JobAccepted job' p r), t)"
proof -
  obtain x u where x: "inspect_item w enabled now (JObj job) s = (x, u)" by fastforce
  have same: "partner_rows u = partner_rows s" using frameD [OF insp x] .
  have err: "partner_rows (snd (andThen (on_item_error w (JObj job) e) (ret k) v)) = partner_rows v" for e v and k :: nat
    by (rule frame_snd) (intro frame.ev_rules item_error_rows)
  have "\<exists>job' p r. x = Inr (JobAccepted job' p r)"
  proof (rule ccontr)
    assume none: "\<not> ?thesis"
    have "partner_rows (snd (process_item w enabled now (JObj job) s)) = partner_rows s"
    proof (cases x)
      case (Inl e) then show ?thesis by (simp add: process_item_def attempt_item_def bnd_def x err same)
    next
      case (Inr step)
      with none have keep: "evolves (same partner_rows) (finish_item w now step)" by (intro settled_rows) auto
      obtain y v where y: "finish_item w now step u = (y, v)" by fastforce
      with frameD [OF keep y] show ?thesis
        by (cases y) (simp_all add: process_item_def attempt_item_def bnd_def ret_def [of "count_of step"] x Inr same err [unfolded ret_def])
    qed
    with changed show False by simp
  qed
  with x show thesis using that by blast
qed

lemma unauthenticated_push_rows:
  assumes ty: "or_else (jget job ''type'') (JStr TYPE_PARTNER_JOB) = JStr TYPE_GIT_PUSH" and no: "item_authenticated w job \<noteq> Inr True"
  shows "partner_rows (snd (process_item w enabled now (JObj job) s)) = partner_rows s"
proof (rule ccontr)
  assume changed: "\<not> ?thesis"
  have insp: "inspect_item w enabled now (JObj job) = bnd (raise_or (item_authenticated w job)) (\<lambda>_.
      andThen (audit_celery w ''outbox-item-refused'' None SevSecurity [(''type'', JStr TYPE_GIT_PUSH),
        (''job_id'', JStr (py_str (or_else (jget job ''id'') (JStr [])))), (''reason'', JStr ''unauthenticated'')]) (ret Settled))"
    using ty no by (cases "item_authenticated w job") (simp_all add: inspect_item_def Let_def raise_or_def bnd_def throw_def ret_def)
  have "evolves (same partner_rows) (inspect_item w enabled now (JObj job))"
    unfolding insp by (intro frame.ev_rules celery_rows engine_rows [OF raise_or_engine])
  then obtain job' p r t where "inspect_item w enabled now (JObj job) s = (Inr (JobAccepted job' p r), t)"
    using rows_changed_accepted changed by blast
  then show False by (simp add: insp fst_bnd_Inr andThen_def ret_def)
qed

lemma accepted_key:
  assumes "reverify w p (request_of job hs) (Some now) rem idem u = (Inr r, v)"
  shows "\<exists>ts_i key sig. Some key \<in> {load_pubkey (p_pubkey_current p), load_pubkey (p_pubkey_previous p)} \<and>
     py_int (JStr (header hs ''X-Partner-Timestamp'')) = Inr ts_i \<and> \<bar>now div 1000000 - ts_i\<bar> \<le> SIGNATURE_WINDOW_S \<and>
     w_ed25519 w key sig (canonical_string w (rq_method (request_of job hs)) (rq_path (request_of job hs)) (rq_body (request_of job hs))
       (header hs ''X-Partner-Timestamp'') (header hs ''X-Partner-Nonce''))"
proof -
  have hs: "rq_headers (request_of job hs) = hs" by (simp add: request_of_def)
  obtain n x where "verify_signature w p (rq_method (request_of job hs)) (rq_path (request_of job hs)) (rq_body (request_of job hs)) hs
      (Some now) u = (Inr n, x)"
    using reverify_InrD [OF assms] unfolding hs by metis
  then show ?thesis by (rule verify_signature_InrD) blast
qed


section \<open>Properties\<close>


text \<open>
  A batch is worked off and the run recorded. When the client raises nothing but its own errors, no item of a fetched
  batch stops the batch: the poll succeeds, counts no more than the items it took (twenty at most), and its record
  says success with the failures reset. A poll that could not fetch records one more consecutive failure than the record before.
\<close>

theorem poll_outcome_recorded:
  assumes "client_errors w" "strip (w_intake_url w) \<noteq> []"
  shows "case (fst (intake_client_for w (strip (w_intake_url w)) s), w_intake w (intake_calls s @ [IntakeFetch])) of
      (Inr _, Inr items) \<Rightarrow> \<exists>n t r. poll_intake w s = (Inr (PollSucceeded n), t) \<and> n \<le> min BATCH_CAP (length items) \<and>
        latest_poll t = Some r \<and> pr_status r = ChkSucceeded \<and> pr_consecutive_failures r = 0 \<and> pr_n r = Some n
    | _ \<Rightarrow> \<exists>r. latest_poll (snd (poll_intake w s)) = Some r \<and> pr_status r = ChkFailed \<and>
        pr_consecutive_failures r = Suc (case latest_poll s of None \<Rightarrow> 0 | Some r \<Rightarrow> pr_consecutive_failures r)"
proof -
  obtain now u where u: "timezone_now w s = (Inr now, u)" "intake_calls u = intake_calls s" "poll_runs u = poll_runs s"
    by (simp add: timezone_now_def)
  let ?url = "strip (w_intake_url w)"
  let ?v = "u\<lparr>intake_calls := intake_calls s @ [IntakeFetch]\<rparr>"
  have fetch: "poll_intake w s = (case fst (intake_client_for w ?url s) of
      Inl _ \<Rightarrow> record_failure w now u
    | Inr _ \<Rightarrow> (case w_intake w (intake_calls s @ [IntakeFetch]) of Inl _ \<Rightarrow> record_failure w now ?v
      | Inr items \<Rightarrow> bnd (process w (take BATCH_CAP items) now) (\<lambda>n. record_success now n) ?v))"
    using assms(2) u client_for_state [of w ?url u s]
    by (simp add: poll_intake_def attempt_item_def andThen_def bnd_def intake_fetch_def Let_def split: sum.split)
  have latest: "latest_poll u = latest_poll s" "latest_poll ?v = latest_poll s" by (simp_all add: latest_poll_def u(3))
  have ok: "\<exists>n t r. poll_intake w s = (Inr (PollSucceeded n), t) \<and> n \<le> min BATCH_CAP (length items) \<and>
        latest_poll t = Some r \<and> pr_status r = ChkSucceeded \<and> pr_consecutive_failures r = 0 \<and> pr_n r = Some n"
    if "fst (intake_client_for w ?url s) = Inr x" "w_intake w (intake_calls s @ [IntakeFetch]) = Inr items" for x items
  proof -
    obtain n t where n: "process w (take BATCH_CAP items) now ?v = (Inr n, t)" "n \<le> length (take BATCH_CAP items)"
      using process_count [OF assms(1)] by blast
    with record_success_latest [of now n t] show ?thesis by (auto simp: fetch that bnd_def min.commute)
  qed
  show ?thesis
  proof (cases "fst (intake_client_for w ?url s)")
    case (Inl e) with record_failure_latest [of w now u] show ?thesis by (simp add: fetch latest)
  next
    case (Inr x)
    show ?thesis
    proof (cases "w_intake w (intake_calls s @ [IntakeFetch])")
      case (Inl e) with Inr record_failure_latest [of w now ?v] show ?thesis by (simp add: fetch latest)
    next
      case items: (Inr items) from ok [OF Inr items] show ?thesis by (simp only: Inr items prod.case sum.case)
    qed
  qed
qed

text \<open>
  C28: Rows come from signatures. An item of the outbox changes a site, a binding, a project, a manifest or a deployment only
  if it is a push that carries the keyed digest of its id under the service token (in debug mode no token is needed), or if
  the partner API is on and the hub itself has checked the item's request, as it came out of the outbox, under a key of
  a partner it knows and has not suspended, with a timestamp within the window: what the intake forwards is never trusted.
\<close>

theorem rows_need_signature:
  assumes changed: "partner_rows (snd (process_item w enabled now (JObj job) s)) \<noteq> partner_rows s"
  shows "if or_else (jget job ''type'') (JStr TYPE_PARTNER_JOB) = JStr TYPE_GIT_PUSH then item_authenticated w job = Inr True
    else enabled \<and> (\<exists>p hs ts_i key sig. p \<in> set (partners s) \<and> \<not> p_suspended p \<and> job_headers job = Inr hs \<and>
     Some key \<in> {load_pubkey (p_pubkey_current p), load_pubkey (p_pubkey_previous p)} \<and>
     py_int (JStr (header hs ''X-Partner-Timestamp'')) = Inr ts_i \<and> \<bar>now div 1000000 - ts_i\<bar> \<le> SIGNATURE_WINDOW_S \<and>
     w_ed25519 w key sig (canonical_string w (rq_method (request_of job hs)) (rq_path (request_of job hs)) (rq_body (request_of job hs))
       (header hs ''X-Partner-Timestamp'') (header hs ''X-Partner-Nonce'')))"
proof (cases "or_else (jget job ''type'') (JStr TYPE_PARTNER_JOB) = JStr TYPE_GIT_PUSH")
  case True
  then show ?thesis using changed unauthenticated_push_rows [OF True] by fastforce
next
  case False
  obtain job' p r t where "inspect_item w enabled now (JObj job) s = (Inr (JobAccepted job' p r), t)"
    using rows_changed_accepted [OF partner_item_rows [OF False] changed] .
  then obtain hs u v where acc: "enabled" "job_headers job = Inr hs" "p \<in> set (partners s)" "\<not> p_suspended p"
    "reverify w p (request_of job hs) (Some now) False False u = (Inr r, v)" by (rule inspect_accepted)
  show ?thesis unfolding if_not_P [OF False] using acc(1-4) accepted_key [OF acc(5)] by blast
qed


section \<open>Witnesses\<close>


definition outbox_world :: world where
  "outbox_world = job_world\<lparr>w_intake_url := ''https://intake'', w_intake_token := ''t'', w_intake := (\<lambda>cs. Inr [JInt 7])\<rparr>"

theorem poll_outcome_recorded_witness:
  "\<exists>n t r. poll_intake outbox_world job_hub = (Inr (PollSucceeded n), t) \<and> n \<le> 1 \<and> latest_poll t = Some r \<and> pr_consecutive_failures r = 0"
proof -
  have "client_errors outbox_world" by (simp add: client_errors_def outbox_world_def)
  moreover have "strip (w_intake_url outbox_world) \<noteq> []" by code_simp
  moreover have "fst (intake_client_for outbox_world (strip (w_intake_url outbox_world)) job_hub) = Inr ()" by code_simp
  moreover have "w_intake outbox_world cs = Inr [JInt 7]" for cs by (simp add: outbox_world_def)
  ultimately show ?thesis using poll_outcome_recorded [of outbox_world job_hub] by auto
qed

definition signed_job :: fields where
  "signed_job = demo_job @ [(''path'', JStr SITES), (''headers'', JObj (rq_headers (demo_request ''300'')))]"

lemma signed_job_made: "partner_sites (snd (process_item job_world True 0 (JObj signed_job) job_hub)) \<noteq> []"
  by code_simp

theorem rows_need_signature_witness:
  "partner_rows (snd (process_item job_world True 0 (JObj signed_job) job_hub)) \<noteq> partner_rows job_hub \<and>
    (\<exists>p key sig m. p \<in> set (partners job_hub) \<and> \<not> p_suspended p \<and>
       Some key \<in> {load_pubkey (p_pubkey_current p), load_pubkey (p_pubkey_previous p)} \<and> w_ed25519 job_world key sig m)"
proof -
  have changed: "partner_rows (snd (process_item job_world True 0 (JObj signed_job) job_hub)) \<noteq> partner_rows job_hub"
    using signed_job_made by (auto simp: partner_rows_def job_hub_def)
  have ty: "or_else (jget signed_job ''type'') (JStr TYPE_PARTNER_JOB) \<noteq> JStr TYPE_GIT_PUSH" by code_simp
  from rows_need_signature [OF changed, unfolded if_not_P [OF ty]] changed show ?thesis by blast
qed

text \<open>
  The guarantee needs the condition on the client: the acknowledgement of a replayed job is sent from an exception handler, and
  \<open>HttpIntakeClient.ack\<close> passes on what is neither an \<open>OSError\<close> nor a \<open>URLError\<close> (a malformed status line is neither).
  Such an error ends the batch and the poll, with no record of the run.
\<close>

lemma ack_error_ends_batch:
  assumes "inspect_item w enabled now (JObj job) s = (Inl (ReplayRejected m), t)" "jget job ''id'' \<noteq> JNull"
    "w_intake w (intake_calls t @ [IntakeAck (jget job ''id'')]) = Inl (OtherError x)"
  shows "fst (process_items w enabled now (JObj job # items) s) = Inl (OtherError x)"
  using assms by (simp add: process_item_def attempt_item_def bnd_def on_item_error_def andThen_def ack_job_def try_except_def
      client_ack_def Let_def throw_def)

end
