(* ===== verification/Overflow.thy ===== *)
theory Overflow
  imports Git_Poll Scaling_Facts Cycle_Facts Reconcile_Facts
begin

text \<open>
  \<open>deploys/overflow.py\<close>, \<open>terminate_aws_target\<close> of \<open>provision/aws_enroll.py\<close> and \<open>monitor/overflow_reaper.py\<close>: a copy of a site's
  live image on a rented machine, joining it to the site's DNS records, and scaling in again: unjoin, terminate, settle the
  rows. The cloud provider is a parameter: whether a call raises is any function of the calls made so far. The function
  that starts or stops a tunnel replica is an argument, as in the code.
\<close>

section \<open>Gates\<close>

definition FIX_ACTION :: string where
  "FIX_ACTION = ''Ack is not launch. Propose-mode does not launch.''"

definition TUNNEL_UNCONFIGURED :: string where
  "TUNNEL_UNCONFIGURED = ''tunnel replica is not configured''"

definition LOCK_BUSY :: string where
  "LOCK_BUSY = ''could not acquire deploy lock''"

definition NEED_ORIGIN :: string where
  "NEED_ORIGIN = ''overflow join needs origin IPv4s or a tunnel-mode home''"

definition UNJOIN_FAIL :: string where
  "UNJOIN_FAIL = ''could not unjoin overflow origin''"

definition refusal_text :: "site \<Rightarrow> refusal \<Rightarrow> string" where
  "refusal_text site r = ''refusing to scale '' @ s_name site @ (case r of
     AttackRefuse row \<Rightarrow> '': attack playbook engaged ('' @ f_fingerprint row @ '')''
   | PartnerOverflowRefuse \<Rightarrow> '': partner overflow is out'')"

definition refuse_with :: "site \<Rightarrow> refusal option \<Rightarrow> unit act" where
  "refuse_with site refused = (case refused of None \<Rightarrow> ret () | Some r \<Rightarrow> throw (OverflowDeployError (refusal_text site r)))"

text \<open>The gate on the proposal, the same in both operations that add a copy.\<close>

definition proposal_accepted :: "hub \<Rightarrow> site \<Rightarrow> bool" where
  "proposal_accepted s site = (case finding_at s (s_workspace site) (scale_fp KIND site) of
     None \<Rightarrow> False | Some row \<Rightarrow> f_state row = Accepted)"

definition overflow_gate :: "site \<Rightarrow> unit act" where
  "overflow_gate site = andThen (bnd (gets (\<lambda>s. refuse_if_attack s site)) (refuse_with site))
     (bnd (gets (\<lambda>s. proposal_accepted s site)) (\<lambda>ok. if ok then ret () else throw (OverflowDeployError FIX_ACTION)))"

definition overflow_target :: "site \<Rightarrow> target \<Rightarrow> bool" where
  "overflow_target site t = (t_kind t = AwsEc2 \<and> t_lifecycle t = Ephemeral \<and> t_status t = TgReady \<and> Some (t_pk t) \<noteq> s_primary_target site)"

definition require_overflow_target :: "site \<Rightarrow> target \<Rightarrow> unit act" where
  "require_overflow_target site t = (if overflow_target site t then ret ()
     else throw (OverflowDeployError ''overflow target must be a ready ephemeral aws_ec2 that is not the site primary''))"

text \<open>Work under a deploy lock: refused when the lock is taken, and the lock given back in \<open>finally\<close>.\<close>

definition under_lock :: "world \<Rightarrow> lock_scope \<Rightarrow> string \<Rightarrow> string \<Rightarrow> 'a act \<Rightarrow> 'a act" where
  "under_lock w scope oid holder work = bnd (acquire w scope oid KindDeploy holder) (\<lambda>lock.
     if lock = None then throw (OverflowDeployError LOCK_BUSY)
     else try_finally work (bnd (release scope oid KindDeploy (Some holder)) (\<lambda>_. ret ())))"

definition tunnel_home :: "hub \<Rightarrow> site \<Rightarrow> exn + bool" where
  "tunnel_home s site = (case Option.bind (s_primary_target site) (target_by_pk s) of
     None \<Rightarrow> Inr False
   | Some t \<Rightarrow> if t_kind t \<noteq> Ssh then Inr False
       else if truthy (t_collect_payload t) \<and> \<not> is_obj (t_collect_payload t) then Inl (OtherError ''AttributeError'')
       else Inr (jget (obj_fields (t_collect_payload t)) ''tunnel'' = JBool True))"


section \<open>A copy of the live image\<close>

definition live_image_tag :: "hub \<Rightarrow> site \<Rightarrow> string option" where
  "live_image_tag s site = (case List.map_filter (stored_image_tag s)
       (rev (sort_key d_pk (filter (\<lambda>d. deployment_site s d = Some (s_pk site) \<and> d_status d = Succeeded) (deployments s)))) of
     [] \<Rightarrow> None | tag # _ \<Rightarrow> Some tag)"

definition create_deployment :: "manifest \<Rightarrow> deployment act" where
  "create_deployment m = (\<lambda>s. let d = \<lparr>d_pk = next_pk (map d_pk (deployments s)), d_manifest = mf_pk m, d_status = Queued,
       d_last_heartbeat = None, d_rollback_of = None\<rparr> in (Inr d, s\<lparr>deployments := deployments s @ [d]\<rparr>))"

definition skip_build_and_dns :: "nat \<Rightarrow> unit act" where
  "skip_build_and_dns d = modify (\<lambda>s. s\<lparr>dsteps := upd_rows (\<lambda>r. st_deployment r = d \<and> st_name r \<in> {Build, Dns})
     (\<lambda>r. r\<lparr>st_status := StSkipped\<rparr>) (dsteps s)\<rparr>)"

text \<open>\<open>SiteInstance.objects.create\<close>: one instance per port of a target, and a port in the range of the check constraint.\<close>

definition create_instance :: "nat \<Rightarrow> nat \<Rightarrow> string \<Rightarrow> int \<Rightarrow> unit act" where
  "create_instance site target tag port = (\<lambda>s.
     if port < 20000 \<or> port > 29999 \<or> list_ex (\<lambda>i. i_target i = target \<and> int (i_internal_port i) = port) (instances s)
     then (Inl IntegrityError, s)
     else (Inr (), s\<lparr>instances := instances s @ [\<lparr>i_pk = next_pk (map i_pk (instances s)), i_site = site, i_target = target,
       i_desired_image_tag = tag, i_desired_state = WantRunning, i_observed_state = ObsRunning, i_observed_at = None,
       i_last_reconciled_at = None, i_consecutive_failures = 0, i_internal_port = nat port\<rparr>]\<rparr>))"

definition body_port :: "manifest \<Rightarrow> exn + int" where
  "body_port m = (if truthy (mf_body m) \<and> \<not> is_obj (mf_body m) then Inl (OtherError ''AttributeError'')
     else py_int (or_else (jget (obj_fields (mf_body m)) ''internal_port'') (JInt 20000)))"

definition run_copy :: "world \<Rightarrow> ports \<Rightarrow> bool \<Rightarrow> site \<Rightarrow> target \<Rightarrow> string \<Rightarrow> manifest \<Rightarrow> nat act" where
  "run_copy w P injected site t pinned m = bnd (create_deployment m) (\<lambda>d.
     andThen (persist_steps (d_pk d))
     (andThen (skip_build_and_dns (d_pk d))
     (bnd (begin_deploy w d (Some (t_pk t))) (\<lambda>started.
      if \<not> started then andThen (set_status (d_pk d) Failed) (throw (OverflowDeployError LOCK_BUSY))
      else bnd (execute w P injected (d_pk d)) (\<lambda>_.
        bnd (current_status (d_pk d)) (\<lambda>st.
        if st \<noteq> Succeeded then throw (OverflowDeployError ''overflow deploy did not succeed'')
        else bnd (raise_or (body_port m)) (\<lambda>port.
          andThen (create_instance (s_pk site) (t_pk t) pinned port) (ret (d_pk d)))))))))"

definition deploy_overflow_copy :: "world \<Rightarrow> ports \<Rightarrow> bool \<Rightarrow> site \<Rightarrow> target \<Rightarrow> nat act" where
  "deploy_overflow_copy w P injected site t =
     andThen (overflow_gate site)
     (andThen (require_overflow_target site t)
     (bnd (timezone_now w) (\<lambda>now.
      bnd (gets (\<lambda>s. pick_overflow_home w s site now)) (\<lambda>home.
      bnd (raise_or home) (\<lambda>(picked, _).
      if picked \<noteq> None then throw (OverflowDeployError ''idle registered machine exists; do not rent'')
      else bnd (gets (\<lambda>s. (live_image_tag s site, latest_manifest s (s_pk site)))) (\<lambda>found. case found of
        (Some pinned, Some m) \<Rightarrow> run_copy w P injected site t pinned m
      | _ \<Rightarrow> throw (OverflowDeployError ''no succeeded image_tag artifact to pin'')))))))"


section \<open>Joining traffic\<close>

definition dns_desired :: "site \<Rightarrow> string list \<Rightarrow> desired" where
  "dns_desired site vals = \<lparr>ds_site = Some site, ds_target = None, ds_site_slug = [], ds_deployment_id = 0, ds_body = [], ds_git_sha = [],
     ds_source_dir = [], ds_image_tag = None, ds_heartbeat = None, ds_old_container = None, ds_zone = [], ds_dns_zone = s_dns_zone site,
     ds_domain = s_domain site, ds_dns_values = vals, ds_dns_proxied = s_proxied site, ds_internal_port = 0, ds_docker_run_extra = JNull,
     ds_env_names = [], ds_firewall_argv = [], ds_upstream = JNull, ds_dockerfile = None, ds_caddy_route = JNull, ds_dns_set = JNull,
     ds_env_mapping = [], ds_env_file = None, ds_tls_files = None, ds_step = None\<rparr>"

text \<open>The provider is constructed from the zone of the site unless the caller passes one.\<close>

definition dns_for :: "ports \<Rightarrow> bool \<Rightarrow> site \<Rightarrow> string \<Rightarrow> unit act" where
  "dns_for P given site refused = (if given then ret ()
     else case s_dns_zone site of
       None \<Rightarrow> throw (OverflowDeployError refused)
     | Some z \<Rightarrow> try_except (pt_dns_provider_for P z)
         (\<lambda>e. if e = OtherError ''ScopeError'' then throw (OverflowDeployError refused) else throw e))"

datatype joined = JoinedTunnel | JoinedDns "string list"

definition primary_ipv4 :: "hub \<Rightarrow> site \<Rightarrow> string option" where
  "primary_ipv4 s site = joinable_ipv4 (case Option.bind (s_primary_target site) (target_by_pk s) of None \<Rightarrow> [] | Some t \<Rightarrow> t_host t)"

definition join_dns :: "world \<Rightarrow> ports \<Rightarrow> bool \<Rightarrow> site \<Rightarrow> target \<Rightarrow> joined act" where
  "join_dns w P given site t = bnd (gets (\<lambda>s. primary_ipv4 s site)) (\<lambda>primary. case (primary, joinable_ipv4 (t_host t)) of
     (Some p, Some q) \<Rightarrow>
       if p = q then throw (OverflowDeployError ''overflow origin IPv4 matches primary'')
       else if s_exposure site \<noteq> Public then throw (OverflowDeployError NEED_ORIGIN)
       else andThen (dns_for P given site ''could not construct dns provider'')
         (andThen (ensure_dns w (dns_desired site [p, q])) (ret (JoinedDns [p, q])))
   | _ \<Rightarrow> throw (OverflowDeployError NEED_ORIGIN))"

definition join_under_lock :: "world \<Rightarrow> ports \<Rightarrow> bool \<Rightarrow> unit act option \<Rightarrow> site \<Rightarrow> target \<Rightarrow> joined act" where
  "join_under_lock w P given replica site t = bnd (gets (\<lambda>s. tunnel_home s site)) (\<lambda>home. bnd (raise_or home) (\<lambda>tunnel.
     if tunnel then andThen (case replica of Some m \<Rightarrow> m | None \<Rightarrow> throw (OverflowDeployError TUNNEL_UNCONFIGURED)) (ret JoinedTunnel)
     else join_dns w P given site t))"

definition copy_running :: "hub \<Rightarrow> site \<Rightarrow> target \<Rightarrow> bool" where
  "copy_running s site t = (case find (\<lambda>i. i_site i = s_pk site \<and> i_target i = t_pk t) (instances s) of
     None \<Rightarrow> False | Some i \<Rightarrow> i_observed_state i = ObsRunning)"

definition join_overflow_traffic :: "world \<Rightarrow> ports \<Rightarrow> bool \<Rightarrow> unit act option \<Rightarrow> site \<Rightarrow> target \<Rightarrow> joined act" where
  "join_overflow_traffic w P given replica site t =
     andThen (overflow_gate site)
     (if s_exposure site = MeshOnly then throw (OverflowDeployError NEED_ORIGIN)
      else andThen (require_overflow_target site t)
       (bnd (gets (\<lambda>s. copy_running s site t)) (\<lambda>running.
        if \<not> running then throw (OverflowDeployError ''overflow copy is not running'')
        else under_lock w ScopeSite (str_nat (s_pk site)) (''overflow-join:'' @ str_nat (s_pk site)) (join_under_lock w P given replica site t))))"


section \<open>Scaling in\<close>

definition save_target :: "nat \<Rightarrow> (target \<Rightarrow> target) \<Rightarrow> unit act" where
  "save_target pk f = modify (\<lambda>s. s\<lparr>targets := upd_rows (\<lambda>r. t_pk r = pk) f (targets s)\<rparr>)"

definition terminate_instance :: "world \<Rightarrow> string option \<Rightarrow> unit act" where
  "terminate_instance w ref = (\<lambda>s. let cs = cloud_calls s @ [TerminateInstance ref] in
     (case w_cloud w cs of None \<Rightarrow> Inr () | Some e \<Rightarrow> Inl e, s\<lparr>cloud_calls := cs\<rparr>))"

definition file_terminate_failed :: "world \<Rightarrow> target \<Rightarrow> unit act" where
  "file_terminate_failed w t = bnd (raise_alert w ''aws-terminate-failed'' (''aws:'' @ str_nat (t_pk t))
     \<lparr>af_fingerprint = Some (''aws-terminate:'' @ str_nat (t_pk t)), af_source_engine = Some ''provision.aws_enroll'', af_workspace = Some (z_workspace (t_zone t)),
      af_obj = None, af_title = ''EC2 terminate failed for '' @ t_host t,
      af_body = ''terminate_instance refused for target '' @ str_nat (t_pk t) @ ''; the Target row is kept so the operator can retry.'',
      af_fix_action = ''Inspect the provider and retry Terminate target.'', af_details = no_details\<rparr>) (\<lambda>_. ret ())"

definition terminate_aws_target :: "world \<Rightarrow> target \<Rightarrow> unit act" where
  "terminate_aws_target w t =
     (if t_kind t \<noteq> AwsEc2 then throw (TerminateError ''instance.terminate is the AWS call'')
      else if t_status t = TgDecommissioned then ret ()
      else andThen (try_except (terminate_instance w (t_provider_ref t)) (\<lambda>_.
          andThen (file_terminate_failed w t)
          (andThen (save_target (t_pk t) (\<lambda>r. r\<lparr>t_status := TgError\<rparr>)) (throw (TerminateError ''terminate_instance failed'')))))
        (save_target (t_pk t) (\<lambda>r. r\<lparr>t_status := TgDecommissioned\<rparr>)))"

datatype unjoined = UnjoinedNone | UnjoinedTunnel | UnjoinedDns

definition address_row :: "hub \<Rightarrow> site \<Rightarrow> dns_record option" where
  "address_row s site = find (\<lambda>r. r_site r = s_pk site \<and> r_name r = s_domain site \<and> r_rtype r = ''A'') (dns_records s)"

definition address_parts :: "hub \<Rightarrow> site \<Rightarrow> string list" where
  "address_parts s site = (case address_row s site of None \<Rightarrow> []
     | Some r \<Rightarrow> filter (\<lambda>p. p \<noteq> []) (map strip (split_char (CHR '','') (r_value r))))"

definition unjoin_values :: "hub \<Rightarrow> site \<Rightarrow> string \<Rightarrow> string list option" where
  "unjoin_values s site host = (case List.map_filter joinable_ipv4 (filter (\<lambda>p. p \<noteq> host) (address_parts s site)) of
     [] \<Rightarrow> map_option (\<lambda>pip. [pip]) (primary_ipv4 s site)
   | xs \<Rightarrow> Some xs)"

definition unjoin_dns :: "world \<Rightarrow> ports \<Rightarrow> bool \<Rightarrow> site \<Rightarrow> string \<Rightarrow> unjoined act" where
  "unjoin_dns w P given site host = bnd (gets (\<lambda>s. unjoin_values s site host)) (\<lambda>vals. case vals of
     None \<Rightarrow> throw (OverflowDeployError UNJOIN_FAIL)
   | Some xs \<Rightarrow> andThen (dns_for P given site UNJOIN_FAIL)
       (andThen (try_except (ensure_dns w (dns_desired site xs)) (\<lambda>e. case e of
          OverflowDeployError _ \<Rightarrow> throw e | _ \<Rightarrow> throw (OverflowDeployError UNJOIN_FAIL))) (ret UnjoinedDns)))"

definition unjoin :: "world \<Rightarrow> ports \<Rightarrow> bool \<Rightarrow> unit act option \<Rightarrow> site \<Rightarrow> target \<Rightarrow> unjoined act" where
  "unjoin w P given replica site t = bnd (gets (\<lambda>s. tunnel_home s site)) (\<lambda>home. bnd (raise_or home) (\<lambda>tunnel.
     if tunnel then andThen (case replica of Some m \<Rightarrow> m | None \<Rightarrow> ret ()) (ret UnjoinedTunnel)
     else if s_exposure site = MeshOnly then ret UnjoinedNone
     else let host = strip (t_host t) in
       bnd (gets (\<lambda>s. host \<noteq> [] \<and> host \<in> set (address_parts s site))) (\<lambda>listed.
       if listed then unjoin_dns w P given site host else ret UnjoinedNone)))"

definition settle_instance :: "site \<Rightarrow> target \<Rightarrow> unit act" where
  "settle_instance site t = modify (\<lambda>s. case find (\<lambda>i. i_site i = s_pk site \<and> i_target i = t_pk t) (instances s) of
     None \<Rightarrow> s
   | Some i \<Rightarrow> s\<lparr>instances := upd_rows (\<lambda>r. i_pk r = i_pk i) (\<lambda>r. r\<lparr>i_desired_state := WantAbsent, i_observed_state := ObsAbsent\<rparr>) (instances s)\<rparr>)"

definition settle_proposal :: "world \<Rightarrow> site \<Rightarrow> unit act" where
  "settle_proposal w site = bnd (gets (\<lambda>s. finding_at s (s_workspace site) (scale_fp KIND site))) (\<lambda>found. case found of
     None \<Rightarrow> ret ()
   | Some row \<Rightarrow> when_do (f_state row \<in> {Open, Acked, Accepted}) (bnd (resolve w row None SrcSystem) (\<lambda>_. ret ())))"

definition scale_in_work :: "world \<Rightarrow> ports \<Rightarrow> bool \<Rightarrow> unit act option \<Rightarrow> site \<Rightarrow> target \<Rightarrow> unjoined act" where
  "scale_in_work w P given replica site t = bnd (unjoin w P given replica site t) (\<lambda>how.
     andThen (when_do (t_status t \<noteq> TgDecommissioned) (try_except (terminate_aws_target w t) (\<lambda>e. case e of
         TerminateError _ \<Rightarrow> throw (OverflowDeployError ''overflow terminate failed'') | _ \<Rightarrow> throw e)))
     (andThen (settle_instance site t) (andThen (settle_proposal w site) (ret how))))"

text \<open>
  The code releases the target's lock in the outer \<open>finally\<close> when it was taken, before the site's; releasing never
  raises, so the two nested blocks do the same.
\<close>

definition scale_in_overflow :: "world \<Rightarrow> ports \<Rightarrow> bool \<Rightarrow> unit act option \<Rightarrow> site \<Rightarrow> target \<Rightarrow> unjoined act" where
  "scale_in_overflow w P given replica site t =
     andThen (bnd (gets (\<lambda>s. refuse_if_partner_overflow s site)) (refuse_with site))
     (if t_kind t \<noteq> AwsEc2 \<or> t_lifecycle t \<noteq> Ephemeral \<or> Some (t_pk t) = s_primary_target site
      then throw (OverflowDeployError ''overflow target must be an ephemeral aws_ec2 that is not the site primary'')
      else let holder = ''overflow-scale-in:'' @ str_nat (s_pk site) in
        under_lock w ScopeSite (str_nat (s_pk site)) holder
          (under_lock w ScopeTarget (str_nat (t_pk t)) holder (scale_in_work w P given replica site t)))"


section \<open>Forgotten copies\<close>

definition STALE_S :: int where
  "STALE_S = 86400"

definition birth_of :: "hub \<Rightarrow> target \<Rightarrow> audit_event option" where
  "birth_of s t = (case sort_key ae_ts (filter (\<lambda>e. ae_action e = ''instance.create'' \<and> ae_object_type e = ''Target'' \<and>
     ae_object_id e = str_nat (t_pk t)) (audits s)) of [] \<Rightarrow> None | e # _ \<Rightarrow> Some e)"

definition forgotten :: "hub \<Rightarrow> time \<Rightarrow> target \<Rightarrow> bool" where
  "forgotten s now t = (t_kind t = AwsEc2 \<and> t_lifecycle t = Ephemeral \<and> t_status t \<in> {TgReady, TgError, TgPending} \<and>
     \<not> list_ex (\<lambda>r. s_primary_target r = Some (t_pk t)) (sites s) \<and>
     (case birth_of s t of None \<Rightarrow> (case t_provider_ref t of None \<Rightarrow> False | Some ref \<Rightarrow> strip ref \<noteq> [])
      | Some e \<Rightarrow> now - ae_ts e \<ge> seconds STALE_S))"

definition forgotten_body :: "hub \<Rightarrow> target \<Rightarrow> string" where
  "forgotten_body s t = (let inst = find (\<lambda>i. i_target i = t_pk t) (instances s);
       domain = (case Option.bind inst (\<lambda>i. site_by_pk s (i_site i)) of None \<Rightarrow> [] | Some r \<Rightarrow> if s_domain r = [] then s_name r else s_domain r) in
     t_host t @ '' has been ephemeral more than 24 hours. propose-mode does not launch. Ack does not stop billing.'' @
     (if domain = [] then [] else '' Scale in overflow on site '' @ domain @ ''.''))"

definition flag_forgotten :: "world \<Rightarrow> target \<Rightarrow> unit act" where
  "flag_forgotten w t = bnd (gets (\<lambda>s. forgotten_body s t)) (\<lambda>body.
     bnd (raise_alert w ''ephemeral-overflow-orphan'' (''target:'' @ t_host t)
       \<lparr>af_fingerprint = Some (''ephemeral-overflow-orphan:'' @ str_nat (t_pk t)), af_source_engine = None, af_workspace = Some (z_workspace (t_zone t)),
        af_obj = None, af_title = ''Forgotten ephemeral overflow (past 24 hours)'', af_body = body,
        af_fix_action = ''Scale in overflow to stop billing.'', af_details = no_details\<rparr>) (\<lambda>_. ret ()))"

definition reap_stale_ephemerals :: "world \<Rightarrow> unit act" where
  "reap_stale_ephemerals w = bnd (timezone_now w) (\<lambda>now.
     bnd (gets targets) (\<lambda>ts. for_each ts (\<lambda>t. bnd (gets (\<lambda>s. forgotten s now t)) (\<lambda>hit.
       when_do hit (flag_forgotten w t)))))"

end
