(* ===== verification/Overflow_Facts.thy ===== *)
theory Overflow_Facts
  imports Overflow
begin

text \<open>
  What the overflow operations guarantee: the gate in front of them, the locks they give back, that an address is
  withdrawn before its machine is terminated, and that joined addresses are what later deployments publish.
\<close>

section \<open>Locks\<close>

definition keeps_locks :: "hub \<Rightarrow> hub \<Rightarrow> bool" where
  "keeps_locks s t = (lock_wf s \<longrightarrow> lock_wf t \<and> held t = held s)"

interpretation balance: evolution keeps_locks
  by unfold_locales (auto simp: keeps_locks_def)

lemma same_locks_keeps: "evolves (same locks) m \<Longrightarrow> evolves keeps_locks m"
  unfolding evolves_def same_def keeps_locks_def using held_cong lock_wf_cong by metis

lemma engine_keeps: "evolves (same beside_engine) m \<Longrightarrow> evolves keeps_locks m"
  by (intro same_locks_keeps engine_locks)

lemma core_keeps:
  assumes "evolves (same core_state) m"
  shows "evolves keeps_locks m"
  using core_step_core [OF assms, of 0 0] step_core_locks unfolding evolves_def same_def keeps_locks_def by blast

lemma under_lock_keeps:
  assumes "evolves keeps_locks work"
  shows "evolves keeps_locks (under_lock w scope oid holder work)"
proof -
  have "lock_wf (snd (under_lock w scope oid holder work s)) \<and> held (snd (under_lock w scope oid holder work s)) = held s" if wf: "lock_wf s" for s
  proof (cases "held s (scope, oid, KindDeploy)")
    case None
    obtain l u where u: "acquire w scope oid KindDeploy holder s = (Inr (Some l), u)" using None by (simp add: acquire_free Let_def)
    have uw: "lock_wf u" using acquire_wf [OF wf, of w scope oid KindDeploy holder] by (simp add: u)
    have uh: "held u k = (if k = (scope, oid, KindDeploy) then Some holder else held s k)" for k
      using held_acquire [of w scope oid KindDeploy holder s k] None by (auto simp: u)
    obtain r v where v: "work u = (r, v)" by fastforce
    have "keeps_locks u v" using assms v by (rule balance.evolvesD)
    then have vw: "lock_wf v" "held v = held u" using uw by (simp_all add: keeps_locks_def)
    let ?t = "snd (release scope oid KindDeploy (Some holder) v)"
    have fin: "snd (under_lock w scope oid holder work s) = ?t"
      by (simp add: under_lock_def bnd_def u v try_finally_def ret_def release_def Let_def split: sum.splits)
    have "held ?t k = held s k" for k
      using held_release [OF vw(1), of scope oid KindDeploy "Some holder" k] vw(2) uh None by auto
    then show ?thesis using release_wf [OF vw(1)] by (auto simp: fin)
  next
    case (Some h)
    then have "snd (under_lock w scope oid holder work s) = s\<lparr>ticks := ticks s + 2\<rparr>"
      by (simp add: under_lock_def bnd_def acquire_held throw_def)
    then show ?thesis using wf held_cong [of "s\<lparr>ticks := ticks s + 2\<rparr>" s] by (simp add: lock_wf_def)
  qed
  then show ?thesis by (simp add: evolves_def keeps_locks_def)
qed

lemma ensure_dns_keeps: "evolves keeps_locks (ensure_dns w x)"
  using ensure_dns_cores [of 0 0 w x] step_core_locks unfolding evolves_def same_def keeps_locks_def by blast

lemma raise_or_keeps: "evolves keeps_locks (raise_or x)"
  unfolding raise_or_def by (intro balance.ev_rules)

definition replica_keeps :: "unit act option \<Rightarrow> bool" where
  "replica_keeps replica = (case replica of None \<Rightarrow> True | Some m \<Rightarrow> evolves (same core_state) m)"

lemma dns_for_keeps: "ports_keep P \<Longrightarrow> evolves keeps_locks (dns_for P given site refused)"
  unfolding dns_for_def ports_keep_def by (intro balance.ev_rules core_keeps) auto

lemma join_keeps:
  assumes "ports_keep P" "replica_keeps replica"
  shows "evolves keeps_locks (join_under_lock w P given replica site t)"
  using assms(2) unfolding join_under_lock_def join_dns_def replica_keeps_def
  by (intro balance.ev_rules raise_or_keeps dns_for_keeps [OF assms(1)] ensure_dns_keeps) (auto intro: core_keeps balance.ev_rules split: option.splits)

lemma terminate_keeps: "evolves keeps_locks (terminate_aws_target w t)"
proof -
  have "evolves (same locks) (terminate_instance w ref)" for ref
    by (simp add: evolves_def same_def terminate_instance_def Let_def)
  moreover have "evolves (same locks) (save_target k f)" for k f
    unfolding save_target_def by (intro modify_frame) simp
  moreover have "evolves (same locks) (file_terminate_failed w t)"
    unfolding file_terminate_failed_def by (intro frame.ev_rules engine_locks [OF raise_alert_engine])
  ultimately show ?thesis unfolding terminate_aws_target_def by (intro same_locks_keeps frame.ev_rules)
qed

lemma unjoin_keeps:
  assumes "ports_keep P" "replica_keeps replica"
  shows "evolves keeps_locks (unjoin w P given replica site t)"
  using assms(2) unfolding unjoin_def unjoin_dns_def replica_keeps_def Let_def
  by (intro balance.ev_rules raise_or_keeps dns_for_keeps [OF assms(1)] ensure_dns_keeps)
    (auto intro: core_keeps balance.ev_rules split: option.splits exn.splits)

lemma scale_in_work_keeps:
  assumes "ports_keep P" "replica_keeps replica"
  shows "evolves keeps_locks (scale_in_work w P given replica site t)"
proof -
  have "evolves keeps_locks (settle_instance site t)"
    unfolding settle_instance_def by (intro same_locks_keeps modify_frame) (simp split: option.split)
  moreover have "evolves keeps_locks (settle_proposal w site)"
    unfolding settle_proposal_def by (intro balance.ev_rules engine_keeps [OF resolve_engine(1)])
  ultimately show ?thesis unfolding scale_in_work_def
    by (intro balance.ev_rules unjoin_keeps [OF assms] terminate_keeps) (auto intro: balance.ev_rules split: exn.splits)
qed

lemma refuse_keeps: "evolves keeps_locks (refuse_with site r)"
  unfolding refuse_with_def by (intro balance.ev_rules)

lemma overflow_keeps:
  assumes "ports_keep P" "replica_keeps replica"
  shows "evolves keeps_locks (join_overflow_traffic w P given replica site t)" "evolves keeps_locks (scale_in_overflow w P given replica site t)"
  unfolding join_overflow_traffic_def scale_in_overflow_def overflow_gate_def require_overflow_target_def Let_def
  by (intro balance.ev_rules refuse_keeps under_lock_keeps join_keeps [OF assms] scale_in_work_keeps [OF assms])+



section \<open>The record of a site's addresses\<close>

definition beside_locks :: "hub \<Rightarrow> hub" where
  "beside_locks s = s\<lparr>locks := [], ticks := 0\<rparr>"

lemma acquire_beside: "beside_locks (snd (acquire w scope oid kind h s)) = beside_locks s"
  by (cases "held s (scope, oid, kind)") (simp_all add: acquire_free acquire_held beside_locks_def Let_def)

lemma under_lock_cases:
  assumes "under_lock w scope oid holder work s = (x, t)"
  obtains (busy) "x = Inl (OverflowDeployError LOCK_BUSY)" "beside_locks t = beside_locks s"
  | (ran) u v where "beside_locks u = beside_locks s" "work u = (x, v)" "beside_locks t = beside_locks v"
proof -
  obtain r u where r: "acquire w scope oid KindDeploy holder s = (Inr r, u)" using acquire_never_raises [of w scope oid KindDeploy holder s] by blast
  have bu: "beside_locks u = beside_locks s" using acquire_beside [of w scope oid KindDeploy holder s] by (simp add: r)
  show thesis
  proof (cases r)
    case None
    with assms r bu show thesis by (intro busy) (auto simp: under_lock_def bnd_def throw_def)
  next
    case (Some l)
    obtain y v where v: "work u = (y, v)" by fastforce
    have "beside_locks (snd (release scope oid KindDeploy (Some holder) v)) = beside_locks v"
      by (simp add: release_def beside_locks_def Let_def)
    with assms r Some v have "x = y" "beside_locks t = beside_locks v"
      by (auto simp: under_lock_def bnd_def try_finally_def ret_def release_def Let_def split: sum.splits)
    with bu v show thesis by (intro ran) auto
  qed
qed

lemma beside_fields:
  assumes "beside_locks t = beside_locks s"
  shows "dns_records t = dns_records s" "cloud_calls t = cloud_calls s" "targets t = targets s" "sites t = sites s"
proof -
  have "dns_records (beside_locks t) = dns_records (beside_locks s)" "cloud_calls (beside_locks t) = cloud_calls (beside_locks s)"
    "targets (beside_locks t) = targets (beside_locks s)" "sites (beside_locks t) = sites (beside_locks s)" using assms by simp_all
  then show "dns_records t = dns_records s" "cloud_calls t = cloud_calls s" "targets t = targets s" "sites t = sites s"
    by (simp_all add: beside_locks_def)
qed

lemma wanted_record:
  assumes "vals \<noteq> []"
  shows "desired_dns_records w (dns_desired site vals) = [JObj [(''name'', JStr (s_domain site)), (''rtype'', JStr ''A''),
     (''values'', JArr (map JStr vals)), (''proxied'', JBool (s_proxied site))]]"
  using assms by (simp add: desired_dns_records_def dns_desired_def overlay_json_def)

lemma wanted_fields:
  "dns_fields (JObj [(''name'', JStr (s_domain site)), (''rtype'', JStr ''A''), (''values'', JArr (map JStr vals)), (''proxied'', JBool (s_proxied site))])
    = ret (s_domain site, ''A'', vals, s_proxied site)"
  by (simp add: dns_fields_def has_key_def jget_def argv_of_def of_sum_def bnd_def ret_def comp_def)

lemma upsert_row:
  assumes "upsert_dns_row k name rtype v s = (Inr (), t)"
  shows "\<exists>r. find (\<lambda>r. r_site r = k \<and> r_name r = name \<and> r_rtype r = rtype) (dns_records t) = Some r \<and> r_value r = v"
proof -
  let ?hit = "\<lambda>r. r_site r = k \<and> r_name r = name \<and> r_rtype r = rtype"
  show ?thesis
  proof (cases "\<exists>r\<in>set (dns_records s). ?hit r")
    case True
    then obtain r where r: "find ?hit (dns_records s) = Some r" by (cases "find ?hit (dns_records s)") (auto simp: find_None_iff)
    then have "?hit r" by (auto simp: find_Some_iff)
    moreover have "find ?hit (upd_rows ?hit (\<lambda>r. r\<lparr>r_value := v\<rparr>) (dns_records s)) =
        map_option (\<lambda>r. if ?hit r then r\<lparr>r_value := v\<rparr> else r) (find ?hit (dns_records s))"
      by (rule find_upd_rows) simp
    moreover have "dns_records t = upd_rows ?hit (\<lambda>r. r\<lparr>r_value := v\<rparr>) (dns_records s)"
      using assms True by (auto simp: upsert_dns_row_def modify_def Let_def)
    ultimately show ?thesis using r by simp
  next
    case False
    then have "find ?hit (dns_records s) = None" by (simp add: find_None_iff)
    with assms False show ?thesis by (auto simp: upsert_dns_row_def modify_def Let_def find_append)
  qed
qed


lemma ensure_dns_row:
  assumes ok: "ensure_dns w (dns_desired site vals) s = (Inr x, t)" and pk: "s_pk site \<noteq> 0" and public: "s_exposure site = Public" and "vals \<noteq> []"
  shows "\<exists>r. address_row t site = Some r \<and> r_value r = join '','' vals"
proof -
  have "\<not> mesh_only (dns_desired site vals)"
    by (simp add: mesh_only_def exposure_of_def dns_desired_def public exposure_text_def jget_def)
  then obtain u where "persist_dns_rows (dns_desired site vals) (desired_dns_records w (dns_desired site vals)) u = (Inr (), t)"
    using ok by (auto simp: ensure_dns_def Let_def fst_bnd_Inr andThen_def ret_def)
  moreover have "ds_site (dns_desired site vals) = Some site" by (simp add: dns_desired_def)
  ultimately have "upsert_dns_row (s_pk site) (s_domain site) ''A'' (join '','' vals) u = (Inr (), t)"
    by (simp add: wanted_record [OF assms(4)] persist_dns_rows_def pk wanted_fields ret_def andThen_def bnd_def split: prod.splits sum.splits)
  from upsert_row [OF this] show ?thesis by (simp add: address_row_def)
qed

lemma parts_joined:
  assumes "address_row t site = Some r" "r_value r = join '','' (map str_ipv4 addrs)" "addrs \<noteq> []"
  shows "address_parts t site = map str_ipv4 addrs"
  using assms by (simp add: address_parts_def split_join_commas strip_str_ipv4 str_ipv4_nonempty comp_def)

lemma joinable_addr: "joinable_ipv4 x = Some y \<Longrightarrow> \<exists>a. y = str_ipv4 a \<and> \<not> is_loopback a \<and> \<not> is_link_local a"
  by (auto simp: joinable_ipv4_def split: option.splits if_splits)

lemma unjoin_values_spec:
  assumes "unjoin_values s site host = Some xs"
  shows "xs \<noteq> []" "\<exists>addrs. xs = map str_ipv4 addrs" "host \<in> set xs \<longrightarrow> primary_ipv4 s site = Some host"
proof -
  let ?ys = "List.map_filter joinable_ipv4 (filter (\<lambda>p. p \<noteq> host) (address_parts s site))"
  have addrs: "\<exists>a. x = str_ipv4 a" if "x \<in> set ?ys" for x
    using that joinable_addr by (auto simp: map_filter_def) (metis option.collapse)
  have prim: "\<exists>a. x = str_ipv4 a" if "primary_ipv4 s site = Some x" for x
    using that joinable_addr unfolding primary_ipv4_def by blast
  have xs: "xs = ?ys \<and> ?ys \<noteq> [] \<or> (\<exists>p. ?ys = [] \<and> primary_ipv4 s site = Some p \<and> xs = [p])"
    using assms by (cases ?ys) (auto simp: unjoin_values_def)
  then have "\<forall>x\<in>set xs. \<exists>a. x = str_ipv4 a" using addrs prim by auto
  then show "\<exists>addrs. xs = map str_ipv4 addrs" by (metis ex_map_conv)
  show "xs \<noteq> []" using xs by auto
  have "host \<notin> set ?ys"
  proof
    assume "host \<in> set ?ys"
    then obtain p where p: "p \<in> set (address_parts s site)" "p \<noteq> host" "joinable_ipv4 p = Some host"
      by (auto simp: map_filter_def)
    have "strip p = p" using p(1) strip_idem by (auto simp: address_parts_def split: option.splits)
    with joinable_ipv4_spelling [OF p(3)] p(2) show False by simp
  qed
  then show "host \<in> set xs \<longrightarrow> primary_ipv4 s site = Some host"
    using xs by auto
qed


text \<open>Constructing a provider writes nothing but the finding of a refusal, with its audit and stream entries.\<close>

definition provider_reads :: "ports \<Rightarrow> bool" where
  "provider_reads P = (\<forall>z. evolves (same beside_engine) (pt_dns_provider_for P z))"

lemma dns_for_engine:
  assumes "provider_reads P"
  shows "evolves (same beside_engine) (dns_for P given site refused)"
  using assms unfolding dns_for_def provider_reads_def by (intro frame.ev_rules) auto

lemma dns_for_targets: "provider_reads P \<Longrightarrow> evolves (same (\<lambda>s. (targets s, cloud_calls s))) (dns_for P given site refused)"
  by (rule engine_field [OF _ dns_for_engine]) (simp_all add: beside_engine_def)

definition withdrawn :: "hub \<Rightarrow> site \<Rightarrow> string \<Rightarrow> bool" where
  "withdrawn t site host = (host \<in> set (address_parts t site) \<longrightarrow> primary_ipv4 t site = Some host)"

definition address_view :: "hub \<Rightarrow> dns_record list \<times> (nat \<times> string) list" where
  "address_view s = (dns_records s, map (\<lambda>t. (t_pk t, t_host t)) (targets s))"

lemma host_by_pk: "map_option t_host (find (\<lambda>t. t_pk t = k) ts) = map_option snd (find (\<lambda>p. fst p = k) (map (\<lambda>t. (t_pk t, t_host t)) ts))"
  by (induction ts) auto

lemma primary_host: "primary_ipv4 s site = joinable_ipv4 (case Option.bind (s_primary_target site) (\<lambda>k. map_option t_host (target_by_pk s k)) of
    None \<Rightarrow> [] | Some h \<Rightarrow> h)"
  by (cases "s_primary_target site") (simp_all add: primary_ipv4_def split: option.split)

lemma withdrawn_cong:
  assumes "address_view t = address_view s"
  shows "withdrawn t site host = withdrawn s site host"
proof -
  have rows: "dns_records t = dns_records s" "map (\<lambda>t. (t_pk t, t_host t)) (targets t) = map (\<lambda>t. (t_pk t, t_host t)) (targets s)"
    using assms by (simp_all add: address_view_def)
  then have "primary_ipv4 t site = primary_ipv4 s site" by (simp add: primary_host target_by_pk_def host_by_pk)
  with rows(1) show ?thesis by (simp add: withdrawn_def address_parts_def address_row_def)
qed

lemma rethrow_Inr: "try_except m h s = (Inr x, t) \<Longrightarrow> \<forall>e u x t. h e u \<noteq> (Inr x, t) \<Longrightarrow> m s = (Inr x, t)"
  by (auto simp: try_except_def split: prod.splits sum.splits)

lemma ensure_dns_targets: "evolves (same (\<lambda>s. (targets s, cloud_calls s))) (ensure_dns w x)"
proof -
  have "evolves (same (\<lambda>s. (targets s, cloud_calls s))) (dns_list_records w z)" for z
    by (simp add: evolves_def same_def dns_list_records_def Let_def)
  moreover have "evolves (same (\<lambda>s. (targets s, cloud_calls s))) (dns_upsert_record w z n r v p)" for z n r v p
    by (simp add: evolves_def same_def dns_upsert_record_def Let_def)
  moreover have "evolves (same (\<lambda>s. (targets s, cloud_calls s))) (upsert_dns_row k n r v)" for k n r v
    unfolding upsert_dns_row_def by (intro modify_frame) (simp add: Let_def)
  moreover have "evolves (same (\<lambda>s. (targets s, cloud_calls s))) (dns_fields rec)" for rec
    by (auto simp: dns_fields_def argv_of_def of_sum_def intro!: frame.ev_rules split: json.splits)
  ultimately show ?thesis
    unfolding ensure_dns_def persist_dns_rows_def Let_def by (intro frame.ev_rules)
qed

lemma unjoin_dns_withdraws:
  assumes run: "unjoin_dns w P given site host s = (Inr how, t)" and P: "provider_reads P" and pk: "s_pk site \<noteq> 0" and public: "s_exposure site = Public"
  shows "withdrawn t site host"
proof -
  obtain xs u x where xs: "unjoin_values s site host = Some xs" and u: "dns_for P given site UNJOIN_FAIL s = (Inr (), u)"
    and dns: "try_except (ensure_dns w (dns_desired site xs)) (\<lambda>e. case e of
          OverflowDeployError _ \<Rightarrow> throw e | _ \<Rightarrow> throw (OverflowDeployError UNJOIN_FAIL)) u = (Inr x, t)"
    using run by (auto simp: unjoin_dns_def bnd_gets fst_bnd_Inr andThen_def throw_def ret_def split: option.splits)
  have tu: "targets u = targets s" using frameD [OF dns_for_targets [OF P] u] by simp
  have ens: "ensure_dns w (dns_desired site xs) u = (Inr x, t)"
    using rethrow_Inr [OF dns] by (auto simp: throw_def split: exn.splits)
  obtain addrs where addrs: "xs = map str_ipv4 addrs" using unjoin_values_spec(2) [OF xs] by blast
  obtain r where r: "address_row t site = Some r" "r_value r = join '','' xs"
    using ensure_dns_row [OF ens pk public unjoin_values_spec(1) [OF xs]] by blast
  have "address_parts t site = xs"
    using parts_joined [OF r(1) r(2) [unfolded addrs]] unjoin_values_spec(1) [OF xs] by (simp add: addrs)
  moreover have "targets t = targets s" using frameD [OF ensure_dns_targets ens] tu by simp
  moreover from this have "target_by_pk t = target_by_pk s" by (intro ext) (simp add: target_by_pk_def)
  ultimately show ?thesis
    using unjoin_values_spec(3) [OF xs] by (simp add: withdrawn_def primary_ipv4_def)
qed

lemma unjoin_withdraws:
  assumes run: "unjoin w P given replica site t s = (Inr how, u)" and P: "provider_reads P" and pk: "s_pk site \<noteq> 0"
    and public: "s_exposure site = Public" and home: "tunnel_home s site = Inr False"
  shows "strip (t_host t) \<noteq> [] \<longrightarrow> withdrawn u site (strip (t_host t))"
proof (cases "strip (t_host t) \<noteq> [] \<and> strip (t_host t) \<in> set (address_parts s site)")
  case True
  with run home public have "unjoin_dns w P given site (strip (t_host t)) s = (Inr how, u)"
    by (auto simp: unjoin_def bnd_gets fst_bnd_raise_or Let_def)
  from unjoin_dns_withdraws [OF this P pk public] show ?thesis ..
next
  case False
  with run home public have "u = s"
    by (auto simp: unjoin_def bnd_gets fst_bnd_raise_or Let_def ret_def)
  with False show ?thesis by (auto simp: withdrawn_def)
qed


lemma unjoin_cloud:
  assumes "unjoin w P given replica site t s = (x, u)" "provider_reads P" "tunnel_home s site = Inr False"
  shows "cloud_calls u = cloud_calls s"
proof -
  let ?f = "\<lambda>s. cloud_calls s"
  have "evolves (same ?f) (dns_for P given site r)" for r
    using dns_for_targets [OF assms(2), of given site r] by (simp add: evolves_def same_def)
  moreover have "evolves (same ?f) (ensure_dns w d)" for d
    using ensure_dns_targets [of w d] by (simp add: evolves_def same_def)
  ultimately have "evolves (same ?f) (unjoin_dns w P given site host)" for host
    unfolding unjoin_dns_def by (intro frame.ev_rules) (auto intro: frame.ev_rules split: exn.splits)
  then have "cloud_calls (snd (unjoin_dns w P given site host s)) = cloud_calls s" for host by (rule frame_snd)
  from this [of "strip (t_host t)"] assms(1,3) show ?thesis
    by (auto simp: unjoin_def bnd_gets raise_or_def ret_def bnd_def [of "\<lambda>s. (Inr _, s)"] Let_def split: if_splits)
qed

lemma settle_view:
  "evolves (same address_view) (terminate_aws_target w t)" "evolves (same address_view) (settle_instance site t)"
  "evolves (same address_view) (settle_proposal w site)"
proof -
  have "evolves (same address_view) (file_terminate_failed w t)"
    unfolding file_terminate_failed_def by (intro frame.ev_rules engine_field [OF _ raise_alert_engine]) (simp add: address_view_def beside_engine_def)
  moreover have "evolves (same address_view) (save_target k (\<lambda>r. r\<lparr>t_status := st\<rparr>))" for k st
    unfolding save_target_def by (intro modify_frame) (simp add: address_view_def map_upd_rows_same)
  moreover have "evolves (same address_view) (terminate_instance w ref)" for ref
    by (simp add: evolves_def same_def terminate_instance_def Let_def address_view_def)
  ultimately show "evolves (same address_view) (terminate_aws_target w t)"
    unfolding terminate_aws_target_def by (intro frame.ev_rules)
  show "evolves (same address_view) (settle_instance site t)"
    unfolding settle_instance_def by (intro modify_frame) (simp add: address_view_def split: option.split)
  show "evolves (same address_view) (settle_proposal w site)"
    unfolding settle_proposal_def by (intro frame.ev_rules engine_field [OF _ resolve_engine(1)]) (simp add: address_view_def beside_engine_def)
qed

lemma scale_in_work_withdraws:
  assumes "provider_reads P" "s_pk site \<noteq> 0" "s_exposure site = Public" "tunnel_home s site = Inr False" "strip (t_host t) \<noteq> []"
    and called: "cloud_calls (snd (scale_in_work w P given replica site t s)) \<noteq> cloud_calls s"
  shows "withdrawn (snd (scale_in_work w P given replica site t s)) site (strip (t_host t))"
proof -
  obtain x u where u: "unjoin w P given replica site t s = (x, u)" by fastforce
  have cu: "cloud_calls u = cloud_calls s" using unjoin_cloud [OF u assms(1,4)] .
  show ?thesis
  proof (cases x)
    case (Inl e)
    with called u cu show ?thesis by (simp add: scale_in_work_def bnd_def)
  next
    case (Inr how)
    let ?rest = "andThen (when_do (t_status t \<noteq> TgDecommissioned) (try_except (terminate_aws_target w t) (\<lambda>e. case e of
         TerminateError _ \<Rightarrow> throw (OverflowDeployError ''overflow terminate failed'') | _ \<Rightarrow> throw e)))
       (andThen (settle_instance site t) (andThen (settle_proposal w site) (ret how)))"
    have "withdrawn u site (strip (t_host t))"
      using unjoin_withdraws [OF u [unfolded Inr] assms(1-4)] assms(5) by blast
    moreover have "evolves (same address_view) ?rest"
      by (intro frame.ev_rules settle_view) (auto intro: frame.ev_rules split: exn.splits)
    then have "withdrawn (snd (?rest u)) site (strip (t_host t)) = withdrawn u site (strip (t_host t))" by (intro withdrawn_cong frame_snd)
    moreover have "snd (scale_in_work w P given replica site t s) = snd (?rest u)"
      by (simp only: scale_in_work_def bnd_def [of "unjoin w P given replica site t"] u Inr prod.case sum.case)
    ultimately show ?thesis by simp
  qed
qed

lemma under_lock_snd:
  obtains "beside_locks (snd (under_lock w scope oid holder work s)) = beside_locks s"
  | u where "beside_locks u = beside_locks s" "beside_locks (snd (under_lock w scope oid holder work s)) = beside_locks (snd (work u))"
proof -
  obtain x t where "under_lock w scope oid holder work s = (x, t)" by fastforce
  then show thesis by (cases rule: under_lock_cases) (use that \<open>under_lock w scope oid holder work s = (x, t)\<close> in auto)
qed

lemma beside_view: "beside_locks t = beside_locks s \<Longrightarrow> address_view t = address_view s"
  using beside_fields(1,3) [of t s] by (simp add: address_view_def)

lemma beside_home: "beside_locks t = beside_locks s \<Longrightarrow> tunnel_home t site = tunnel_home s site"
proof -
  assume "beside_locks t = beside_locks s"
  from beside_fields(3) [OF this] have "target_by_pk t = target_by_pk s" by (intro ext) (simp add: target_by_pk_def)
  then show ?thesis by (simp add: tunnel_home_def)
qed

lemma refuse_gate:
  "andThen (bnd (gets f) (refuse_with site)) k s = (case f s of None \<Rightarrow> k s | Some r \<Rightarrow> (Inl (OverflowDeployError (refusal_text site r)), s))"
  by (simp add: andThen_def bnd_def gets_def refuse_with_def ret_def throw_def split: option.split)

lemma overflow_gate_cases:
  "andThen (overflow_gate site) k s = (case refuse_if_attack s site of
     Some r \<Rightarrow> (Inl (OverflowDeployError (refusal_text site r)), s)
   | None \<Rightarrow> if proposal_accepted s site then k s else (Inl (OverflowDeployError FIX_ACTION), s))"
  by (simp add: overflow_gate_def andThen_def bnd_def gets_def refuse_with_def ret_def throw_def split: option.split)

lemma target_gate: "andThen (require_overflow_target site t) k s = (if overflow_target site t then k s
    else (Inl (OverflowDeployError ''overflow target must be a ready ephemeral aws_ec2 that is not the site primary''), s))"
  by (simp add: require_overflow_target_def andThen_def bnd_def ret_def throw_def)

lemma scale_in_withdraws:
  assumes P: "provider_reads P" "s_pk site \<noteq> 0" "s_exposure site = Public" and home: "tunnel_home s site = Inr False" and host: "strip (t_host t) \<noteq> []"
    and called: "cloud_calls (snd (scale_in_overflow w P given replica site t s)) \<noteq> cloud_calls s"
  shows "withdrawn (snd (scale_in_overflow w P given replica site t s)) site (strip (t_host t))"
proof -
  let ?holder = "''overflow-scale-in:'' @ str_nat (s_pk site)" and ?work = "scale_in_work w P given replica site t"
  let ?inner = "under_lock w ScopeTarget (str_nat (t_pk t)) ?holder ?work"
  let ?run = "under_lock w ScopeSite (str_nat (s_pk site)) ?holder ?inner"
  have run: "snd (scale_in_overflow w P given replica site t s) = snd (?run s)"
    using called unfolding scale_in_overflow_def refuse_gate Let_def
    by (cases "refuse_if_partner_overflow s site";
        cases "t_kind t \<noteq> AwsEc2 \<or> t_lifecycle t \<noteq> Ephemeral \<or> Some (t_pk t) = s_primary_target site") (simp_all add: throw_def)
  obtain u where u: "beside_locks u = beside_locks s" "beside_locks (snd (?run s)) = beside_locks (snd (?inner u))"
    using under_lock_snd [of w ScopeSite "str_nat (s_pk site)" ?holder ?inner s] called beside_fields(2) run by metis
  obtain v where v: "beside_locks v = beside_locks u" "beside_locks (snd (?inner u)) = beside_locks (snd (?work v))"
    using under_lock_snd [of w ScopeTarget "str_nat (t_pk t)" ?holder ?work u] called u run beside_fields(2) by metis
  have last: "beside_locks (snd (?run s)) = beside_locks (snd (?work v))" "beside_locks v = beside_locks s" using u v by simp_all
  have "cloud_calls (snd (?work v)) \<noteq> cloud_calls v"
    using called run beside_fields(2) [OF last(1)] beside_fields(2) [OF last(2)] by simp
  with scale_in_work_withdraws [OF P _ host] have "withdrawn (snd (?work v)) site (strip (t_host t))"
    using home beside_home [OF last(2)] by simp
  then show ?thesis using withdrawn_cong [OF beside_view [OF last(1)]] by (simp add: run)
qed


lemma joined_row:
  assumes "ensure_dns w (dns_desired site [p, q]) s = (Inr x, t)" "s_pk site \<noteq> 0" "s_exposure site = Public" "s_domain site \<noteq> []"
    "joinable_ipv4 h = Some p" "joinable_ipv4 h' = Some q"
  shows "joined_dns_values t site = Some [p, q]"
proof -
  obtain r where r: "address_row t site = Some r" "r_value r = join '','' [p, q]" using ensure_dns_row [OF assms(1-3)] by auto
  obtain a b where ab: "p = str_ipv4 a" "q = str_ipv4 b" "\<forall>c\<in>set [a, b]. \<not> is_loopback c \<and> \<not> is_link_local c"
    using joinable_addr [OF assms(5)] joinable_addr [OF assms(6)] by auto
  have "joined_values (join '','' [p, q]) = Some [p, q]" using joined_values_join [of "[a, b]"] ab by simp
  with r assms(2,4) show ?thesis by (simp add: joined_dns_values_def address_row_def)
qed

lemma join_dns_published:
  assumes "join_dns w P given site t s = (Inr (JoinedDns vals), u)" "provider_reads P" "s_pk site \<noteq> 0" "s_domain site \<noteq> []"
  shows "\<exists>p q. vals = [p, q] \<and> p \<noteq> q \<and> primary_ipv4 s site = Some p \<and> joinable_ipv4 (t_host t) = Some q \<and> s_exposure site = Public \<and>
    joined_dns_values u site = Some vals"
proof -
  obtain p q where pq: "primary_ipv4 s site = Some p" "joinable_ipv4 (t_host t) = Some q" "p \<noteq> q" "s_exposure site = Public"
    and rest: "andThen (dns_for P given site ''could not construct dns provider'') (andThen (ensure_dns w (dns_desired site [p, q]))
      (ret (JoinedDns [p, q]))) s = (Inr (JoinedDns vals), u)"
    using assms(1) by (auto simp: join_dns_def bnd_gets throw_def split: option.splits if_splits)
  obtain v x where v: "dns_for P given site ''could not construct dns provider'' s = (Inr (), v)"
    "ensure_dns w (dns_desired site [p, q]) v = (Inr x, u)" "vals = [p, q]"
    using rest by (auto simp: andThen_def fst_bnd_Inr ret_def)
  from joined_row [OF v(2) assms(3) pq(4) assms(4) _ pq(2)] pq v(3) show ?thesis by (auto simp: primary_ipv4_def)
qed



section \<open>Properties\<close>

text \<open>
  No copy without acceptance. While the attack playbook is engaged for the site's zone, for a site of a partner, and
  until the operator has accepted the scale-out proposal, deploying a copy and joining one to the traffic both refuse with an
  overflow error and leave everything as it was: no deployment, no lock, no finding, no DNS call.
\<close>

theorem overflow_needs_acceptance:
  assumes "refuse_if_attack s site \<noteq> None \<or> \<not> proposal_accepted s site"
  shows "(\<exists>e. deploy_overflow_copy w P injected site t s = (Inl (OverflowDeployError e), s)) \<and>
    (\<exists>e. join_overflow_traffic w P given replica site t s = (Inl (OverflowDeployError e), s))"
  using assms unfolding deploy_overflow_copy_def join_overflow_traffic_def overflow_gate_cases by (cases "refuse_if_attack s site") auto

text \<open>
  The locks of joining and scaling in. Whatever joining a copy or scaling it in does, returning or raising at any point,
  every deploy lock is afterwards with whoever held it before: the operations give back what they took and free
  nobody else's lock.
\<close>

theorem overflow_gives_back_locks:
  assumes "lock_wf s" "ports_keep P" "replica_keeps replica"
  shows "held (snd (join_overflow_traffic w P given replica site t s)) = held s \<and>
    held (snd (scale_in_overflow w P given replica site t s)) = held s"
  using overflow_keeps [OF assms(2,3), of w given site t] assms(1) by (simp add: evolves_def keeps_locks_def)

text \<open>
  C10: Withdrawn before terminated. If scaling in has asked the cloud provider to terminate the machine of a public site's copy,
  then the record of the site's addresses no longer lists the machine's address, unless it is also the address of the
  site's own primary machine; when the address cannot be withdrawn, nothing is terminated.
\<close>

theorem scale_in_withdraws_first:
  assumes "provider_reads P" "s_pk site \<noteq> 0" "s_exposure site = Public" "tunnel_home s site = Inr False" "strip (t_host t) \<noteq> []"
    and "scale_in_overflow w P given replica site t s = (r, u)" "cloud_calls u \<noteq> cloud_calls s"
  shows "strip (t_host t) \<notin> set (address_parts u site) \<or> primary_ipv4 u site = Some (strip (t_host t))"
  using scale_in_withdraws [OF assms(1-5), of w given replica] assms(6,7) by (auto simp: withdrawn_def)

text \<open>
  A joined copy stays published. When joining reports the addresses it has published, these are the primary's and the
  copy's, distinct and both public, and they are exactly what the next deployment of the site will find as the joined addresses
  and publish again.
\<close>

theorem joined_copy_stays_published:
  assumes "join_overflow_traffic w P given replica site t s = (Inr (JoinedDns vals), u)" "provider_reads P" "s_pk site \<noteq> 0" "s_domain site \<noteq> []"
  shows "\<exists>p q. vals = [p, q] \<and> p \<noteq> q \<and> primary_ipv4 s site = Some p \<and> joinable_ipv4 (t_host t) = Some q \<and>
    joined_dns_values u site = Some [p, q]"
proof -
  let ?work = "join_under_lock w P given replica site t"
  let ?run = "under_lock w ScopeSite (str_nat (s_pk site)) (''overflow-join:'' @ str_nat (s_pk site)) ?work"
  have "?run s = (Inr (JoinedDns vals), u)"
    using assms(1) unfolding join_overflow_traffic_def overflow_gate_cases
    by (simp add: target_gate bnd_gets throw_def split: option.splits if_splits)
  then obtain v x where v: "beside_locks v = beside_locks s" "?work v = (Inr (JoinedDns vals), x)" "beside_locks u = beside_locks x"
    by (cases rule: under_lock_cases) auto
  have "join_dns w P given site t v = (Inr (JoinedDns vals), x)"
    using v(2) by (auto simp: join_under_lock_def bnd_gets andThen_def fst_bnd_Inr ret_def raise_or_def throw_def split: if_splits sum.splits)
  from join_dns_published [OF this assms(2-4)] have *: "\<exists>p q. vals = [p, q] \<and> p \<noteq> q \<and> primary_ipv4 v site = Some p \<and>
      joinable_ipv4 (t_host t) = Some q \<and> joined_dns_values x site = Some vals" by blast
  have "target_by_pk v = target_by_pk s" using beside_fields(3) [OF v(1)] by (intro ext) (simp add: target_by_pk_def)
  then have "primary_ipv4 v site = primary_ipv4 s site" by (simp add: primary_ipv4_def)
  moreover have "joined_dns_values u site = joined_dns_values x site" using beside_fields(1) [OF v(3)] by (simp add: joined_dns_values_def)
  ultimately show ?thesis using * by auto
qed


definition shop_site :: site where
  "shop_site = sample_site\<lparr>s_domain := ''shop.test'', s_exposure := Public\<rparr>"

definition rented :: target where
  "rented = sample_target\<lparr>t_pk := 4, t_kind := AwsEc2, t_lifecycle := Ephemeral, t_host := ''8.8.8.8'', t_provider_ref := Some ''i-1''\<rparr>"

definition copy_row :: site_instance where
  "copy_row = \<lparr>i_pk = 1, i_site = 7, i_target = 4, i_desired_image_tag = [], i_desired_state = WantRunning, i_observed_state = ObsRunning,
     i_observed_at = None, i_last_reconciled_at = None, i_consecutive_failures = 0, i_internal_port = 20000\<rparr>"

definition shop_hub :: hub where
  "shop_hub = empty_hub\<lparr>sites := [shop_site], targets := [sample_target, rented], instances := [copy_row], stream_wired := True,
     dns_records := [\<lparr>r_site = 7, r_zone = None, r_name = ''shop.test'', r_rtype = ''A'', r_value = ''203.0.113.7,8.8.8.8'',
       r_observed_value = [], r_last_verified = None\<rparr>],
     findings := [\<lparr>f_pk = 1, f_workspace = 1, f_source_engine = SOURCE, f_severity = P2, f_entity = [], f_title = [], f_body = [],
       f_fix_action = [], f_state = Accepted, f_first_seen = 0, f_last_seen = 0, f_fingerprint = ''scale-out-proposal:7'', f_accepted_reason = ''load''\<rparr>]\<rparr>"

lemma quiet_reads: "provider_reads quiet_ports"
  by (simp add: provider_reads_def quiet_ports_def frame.ev_ret)


lemma calm_dns:
  assumes "vals \<noteq> []"
  shows "\<exists>x t. ensure_dns calm_world (dns_desired site vals) u = (Inr x, t)"
proof -
  have wc: "w_dns calm_world cs = Inr []" for cs by (simp add: calm_world_def)
  have "\<exists>t. upsert_dns_row k n r x v = (Inr (), t)" for k n r x v by (simp add: upsert_dns_row_def modify_def)
  then have p: "\<exists>t. persist_dns_rows (dns_desired site vals) (desired_dns_records calm_world (dns_desired site vals)) v = (Inr (), t)" for v
    by (auto simp: persist_dns_rows_def wanted_record [OF assms] wanted_fields bnd_def andThen_def ret_def split: option.split prod.split sum.split)
      (metis Inr_not_Inl prod.inject)+
  show ?thesis
  proof (cases "mesh_only (dns_desired site vals)")
    case False
    let ?z = "zone_of (dns_desired site vals)"
    let ?v = "u\<lparr>dns_calls := dns_calls u @ [DnsList ?z]\<rparr>"
    let ?y = "?v\<lparr>dns_calls := dns_calls ?v @ [DnsUpsert ?z (s_domain site) ''A'' vals (s_proxied site)]\<rparr>"
    obtain t where "persist_dns_rows (dns_desired site vals) (desired_dns_records calm_world (dns_desired site vals)) ?y = (Inr (), t)" using p by blast
    then show ?thesis using False
      by (simp add: ensure_dns_def wanted_record [OF assms] wanted_fields bnd_def andThen_def ret_def dns_list_records_def dns_upsert_record_def wc
          dns_current_def dns_same_def Let_def)
  qed (simp add: ensure_dns_def ret_def)
qed

lemma shop_fields [simp]:
  "locks shop_hub = []" "targets shop_hub = [sample_target, rented]" "instances shop_hub = [copy_row]" "cloud_calls shop_hub = []"
  "partner_sites shop_hub = []" "dns_calls shop_hub = []"
  by (simp_all add: shop_hub_def)

lemma shop_parts [simp]:
  "s_pk shop_site = 7" "s_workspace shop_site = 1" "s_dns_zone shop_site = None" "s_exposure shop_site = Public" "s_domain shop_site = ''shop.test''"
  "s_primary_target shop_site = Some 3" "t_pk sample_target = 3" "t_kind sample_target = Ssh" "t_collect_payload sample_target = JNull"
  "t_host sample_target = ''203.0.113.7''" "t_pk rented = 4" "t_kind rented = AwsEc2" "t_lifecycle rented = Ephemeral" "t_status rented = TgReady"
  "t_host rented = ''8.8.8.8''" "t_provider_ref rented = Some ''i-1''"
  by (simp_all add: shop_site_def sample_site_def rented_def sample_target_def)

lemma shop_addresses:
  "joinable_ipv4 ''203.0.113.7'' = Some ''203.0.113.7''" "joinable_ipv4 ''8.8.8.8'' = Some ''8.8.8.8''" "strip ''8.8.8.8'' = ''8.8.8.8''"
  "scale_fp KIND shop_site = ''scale-out-proposal:7''"
  by code_simp+

lemma shop_strip: "strip ''203.0.113.7'' = ''203.0.113.7''"
  by code_simp

lemma shop_home: "targets u = targets shop_hub \<Longrightarrow> tunnel_home u shop_site = Inr False" "targets u = targets shop_hub \<Longrightarrow> primary_ipv4 u shop_site = Some ''203.0.113.7''"
  by (simp_all add: tunnel_home_def primary_ipv4_def target_by_pk_def shop_addresses jget_def)

lemma shop_joined: "\<exists>vals u. join_overflow_traffic calm_world quiet_ports True None shop_site rented shop_hub = (Inr (JoinedDns vals), u)"
proof -
  obtain l u where u: "acquire calm_world ScopeSite (str_nat (s_pk shop_site)) KindDeploy (''overflow-join:'' @ str_nat (s_pk shop_site)) shop_hub = (Inr (Some l), u)"
    "targets u = targets shop_hub" by (simp add: acquire_free held_def Let_def)
  obtain x t where "ensure_dns calm_world (dns_desired shop_site [''203.0.113.7'', ''8.8.8.8'']) u = (Inr x, t)" using calm_dns [of _ shop_site u] by blast
  then have "join_under_lock calm_world quiet_ports True None shop_site rented u = (Inr (JoinedDns [''203.0.113.7'', ''8.8.8.8'']), t)"
    unfolding join_under_lock_def join_dns_def bnd_gets shop_home(1) [OF u(2)] raise_or_def
    by (simp add: shop_home(2) [OF u(2)] shop_addresses dns_for_def andThen_def bnd_def ret_def)
  moreover have "proposal_accepted shop_hub shop_site" "refuse_if_attack shop_hub shop_site = None" "overflow_target shop_site rented"
    "copy_running shop_hub shop_site rented"
    by (simp_all add: proposal_accepted_def shop_addresses finding_at_def finding_key_def shop_hub_def refuse_if_attack_def engaged_finding_def
        refuse_if_partner_overflow_def overflow_target_def copy_running_def copy_row_def)
  ultimately show ?thesis
    using u(1) unfolding join_overflow_traffic_def overflow_gate_cases
    by (simp add: target_gate bnd_gets) (simp add: under_lock_def bnd_def try_finally_def release_def ret_def Let_def)
qed

lemma snd_andThen: "evolves (same f) n \<Longrightarrow> f (snd (andThen m n s)) = f (snd (m s))"
  by (cases "m s", cases "fst (m s)") (auto simp: andThen_def bnd_def dest: frame_snd)

lemma terminate_calls:
  assumes "t_kind t = AwsEc2" "t_status t \<noteq> TgDecommissioned"
  shows "cloud_calls (snd (terminate_aws_target w t s)) = cloud_calls s @ [TerminateInstance (t_provider_ref t)]"
proof -
  have save: "evolves (same cloud_calls) (save_target k f)" for k f
    unfolding save_target_def by (intro modify_frame) simp
  have fail: "evolves (same cloud_calls) (andThen (file_terminate_failed w t) (andThen (save_target (t_pk t) (\<lambda>r. r\<lparr>t_status := TgError\<rparr>))
      (throw (TerminateError ''terminate_instance failed'')) :: unit act))"
    unfolding file_terminate_failed_def
    by (intro frame.ev_rules save engine_field [OF _ raise_alert_engine]) (simp add: beside_engine_def)
  show ?thesis
    using assms frame_snd [OF fail]
    by (auto simp: terminate_aws_target_def snd_andThen [OF save] terminate_instance_def try_except_def Let_def split: option.split)
qed

lemma rethrow_snd: "snd (try_except m (\<lambda>e. case e of TerminateError _ \<Rightarrow> throw a | _ \<Rightarrow> throw e) u) = snd (m u)"
  by (auto simp: try_except_def throw_def split: prod.split sum.split exn.split)

lemma settle_calls: "evolves (same cloud_calls) (andThen (settle_instance site t) (andThen (settle_proposal w site) (ret how)))"
  unfolding settle_instance_def settle_proposal_def
  by (intro frame.ev_rules modify_frame engine_field [OF _ resolve_engine(1)]) (simp_all add: beside_engine_def split: option.split)

lemma scale_in_calls:
  assumes "unjoin w P given replica site t s = (Inr how, u)" "t_kind t = AwsEc2" "t_status t \<noteq> TgDecommissioned"
  shows "cloud_calls (snd (scale_in_work w P given replica site t s)) = cloud_calls u @ [TerminateInstance (t_provider_ref t)]"
  unfolding scale_in_work_def bnd_def [of "unjoin w P given replica site t"] assms(1) prod.case sum.case
  by (simp add: snd_andThen [OF settle_calls] when_do_def assms(3) rethrow_snd terminate_calls [OF assms(2,3)])

lemma under_lock_runs:
  assumes "held s (scope, oid, KindDeploy) = None"
  shows "\<exists>u. beside_locks u = beside_locks s \<and> held u = (held s)((scope, oid, KindDeploy) := Some holder) \<and>
    beside_locks (snd (under_lock w scope oid holder work s)) = beside_locks (snd (work u))"
proof -
  obtain l u where u: "acquire w scope oid KindDeploy holder s = (Inr (Some l), u)" using assms by (simp add: acquire_free Let_def)
  have "beside_locks u = beside_locks s" using acquire_beside [of w scope oid KindDeploy holder s] by (simp add: u)
  moreover have "held u = (held s)((scope, oid, KindDeploy) := Some holder)"
    using held_acquire [of w scope oid KindDeploy holder s] assms by (auto simp: u)
  moreover have "beside_locks (snd (under_lock w scope oid holder work s)) = beside_locks (snd (work u))"
    by (simp add: under_lock_def bnd_def u try_finally_def release_def ret_def beside_locks_def Let_def split: prod.split)
  ultimately show ?thesis by blast
qed

lemma shop_unjoined:
  assumes "targets v = targets shop_hub" "dns_records v = dns_records shop_hub"
  shows "\<exists>how x. unjoin calm_world quiet_ports True None shop_site rented v = (Inr how, x) \<and> cloud_calls x = cloud_calls v"
proof -
  have parts: "address_parts v shop_site = [''203.0.113.7'', ''8.8.8.8'']"
    using shop_addresses(3) strip_str_ipv4 by (simp add: address_parts_def address_row_def assms(2) shop_hub_def shop_strip)
  have vals: "unjoin_values v shop_site ''8.8.8.8'' = Some [''203.0.113.7'']"
    by (simp add: unjoin_values_def parts map_filter_def shop_addresses)
  obtain x t where x: "ensure_dns calm_world (dns_desired shop_site [''203.0.113.7'']) v = (Inr x, t)" using calm_dns [of _ shop_site v] by blast
  then have "unjoin calm_world quiet_ports True None shop_site rented v = (Inr UnjoinedDns, t)"
    unfolding unjoin_def bnd_gets shop_home(1) [OF assms(1)] raise_or_def
    by (simp add: shop_addresses parts unjoin_dns_def vals dns_for_def andThen_def bnd_def ret_def try_except_def gets_def Let_def)
  then show ?thesis using frameD [OF ensure_dns_targets x] by auto
qed

lemma shop_terminated: "cloud_calls (snd (scale_in_overflow calm_world quiet_ports True None shop_site rented shop_hub)) = [TerminateInstance (Some ''i-1'')]"
proof -
  let ?holder = "''overflow-scale-in:'' @ str_nat (s_pk shop_site)" and ?work = "scale_in_work calm_world quiet_ports True None shop_site rented"
  let ?inner = "under_lock calm_world ScopeTarget (str_nat (t_pk rented)) ?holder ?work"
  have free: "held shop_hub k = None" for k by (simp add: held_def)
  obtain u where u: "beside_locks u = beside_locks shop_hub" "held u = (held shop_hub)((ScopeSite, str_nat (s_pk shop_site), KindDeploy) := Some ?holder)"
    "beside_locks (snd (under_lock calm_world ScopeSite (str_nat (s_pk shop_site)) ?holder ?inner shop_hub)) = beside_locks (snd (?inner u))"
    using under_lock_runs [OF free] by blast
  then have "held u (ScopeTarget, str_nat (t_pk rented), KindDeploy) = None" by (simp add: free)
  then obtain v where v: "beside_locks v = beside_locks u" "beside_locks (snd (?inner u)) = beside_locks (snd (?work v))"
    using under_lock_runs by blast
  have same: "targets v = targets shop_hub" "cloud_calls v = []" "dns_records v = dns_records shop_hub"
    using beside_fields(1-3) [of v shop_hub] u(1) v(1) by simp_all
  have "cloud_calls (snd (scale_in_overflow calm_world quiet_ports True None shop_site rented shop_hub)) = cloud_calls (snd (?work v))"
    using beside_fields(2) [OF trans [OF u(3) v(2)]] by (simp add: scale_in_overflow_def refuse_gate refuse_if_partner_overflow_def Let_def)
  moreover have "\<exists>how x. unjoin calm_world quiet_ports True None shop_site rented v = (Inr how, x) \<and> cloud_calls x = []"
    using shop_unjoined [OF same(1,3)] same(2) by auto
  ultimately show ?thesis using scale_in_calls by fastforce
qed

theorem overflow_needs_acceptance_witness:
  "\<exists>e. deploy_overflow_copy calm_world quiet_ports True shop_site rented empty_hub = (Inl (OverflowDeployError e), empty_hub)"
proof -
  have "\<not> proposal_accepted empty_hub shop_site" by (simp add: proposal_accepted_def finding_at_def)
  then show ?thesis using overflow_needs_acceptance [of empty_hub shop_site calm_world quiet_ports True rented True None] by blast
qed

theorem overflow_gives_back_locks_witness:
  "held (snd (scale_in_overflow calm_world quiet_ports True None shop_site rented shop_hub)) = held shop_hub"
proof -
  have "lock_wf shop_hub" by (simp add: lock_wf_def)
  with overflow_gives_back_locks [OF this quiet_ports_keep, of None] show ?thesis by (simp add: replica_keeps_def)
qed

theorem scale_in_withdraws_first_witness:
  "\<exists>r u. scale_in_overflow calm_world quiet_ports True None shop_site rented shop_hub = (r, u) \<and> cloud_calls u = [TerminateInstance (Some ''i-1'')] \<and>
     (''8.8.8.8'' \<in> set (address_parts u shop_site)) = (primary_ipv4 u shop_site = Some ''8.8.8.8'' \<and> ''8.8.8.8'' \<in> set (address_parts u shop_site))"
proof -
  obtain r u where ru: "scale_in_overflow calm_world quiet_ports True None shop_site rented shop_hub = (r, u)" by fastforce
  have "tunnel_home shop_hub shop_site = Inr False" by (rule shop_home) simp
  then have "strip (t_host rented) \<notin> set (address_parts u shop_site) \<or> primary_ipv4 u shop_site = Some (strip (t_host rented))"
    using scale_in_withdraws_first [OF quiet_reads _ _ _ _ ru] shop_terminated by (simp add: ru shop_addresses)
  with shop_terminated ru show ?thesis by (auto simp: shop_addresses)
qed

theorem joined_copy_stays_published_witness:
  "\<exists>vals u. join_overflow_traffic calm_world quiet_ports True None shop_site rented shop_hub = (Inr (JoinedDns vals), u) \<and>
     joined_dns_values u shop_site = Some vals"
proof -
  obtain vals u where j: "join_overflow_traffic calm_world quiet_ports True None shop_site rented shop_hub = (Inr (JoinedDns vals), u)"
    using shop_joined by blast
  have "s_pk shop_site \<noteq> 0" "s_domain shop_site \<noteq> []" by simp_all
  from joined_copy_stays_published [OF j quiet_reads this] j show ?thesis by auto
qed

end
