(* ===== verification/Attack.thy ===== *)
theory Attack
  imports Scaling_Facts Cycle_Facts
begin

text \<open>
  \<open>monitor/attack_detector.py\<close> and \<open>monitor/attack_playbook.py\<close>: the z-score of the latest minute of a site against the hour
  before it, and the playbook that puts the zone under attack mode, bans the loudest addresses, files the finding that closes the
  zone to scaling, and relaxes again. The scores are compared exactly, over rationals: with the variance \<open>v\<close> and the
  distance \<open>d\<close> from the mean, \<open>z \<ge> k\<close> is \<open>d \<ge> 0\<close> and \<open>d\<^sup>2 \<ge> k\<^sup>2 v\<close>; the code compares the floating-point quotient.
  The client of the edge protection is a parameter: what it remembers of a zone is any function of the calls made so far.
\<close>

section \<open>The detector\<close>

definition WINDOW_MINUTES :: int where "WINDOW_MINUTES = 60"
definition MIN_SAMPLES :: nat where "MIN_SAMPLES = 10"
definition Z_TRIP :: rat where "Z_TRIP = 3"
definition Z_RELAX :: rat where "Z_RELAX = 3 / 2"
definition MIN_REQUESTS :: int where "MIN_REQUESTS = 30"

definition mean :: "int list \<Rightarrow> rat" where
  "mean xs = of_int (sum_list xs) / of_nat (length xs)"

definition pvariance :: "int list \<Rightarrow> rat" where
  "pvariance xs = sum_list (map (\<lambda>x. (of_int x - mean xs)\<^sup>2) xs) / of_nat (length xs)"

text \<open>Whether the score of \<open>latest\<close> against the baseline is at least \<open>k\<close>, for \<open>k > 0\<close>.\<close>

definition z_at_least :: "rat \<Rightarrow> int list \<Rightarrow> int \<Rightarrow> bool" where
  "z_at_least k baseline latest = (let d = of_int latest - mean baseline; v = (if length baseline > 1 then pvariance baseline else 0) in
     if v = 0 then d > 0 else d \<ge> 0 \<and> d\<^sup>2 \<ge> k\<^sup>2 * v)"

record attack_signal =
  sg_baseline :: "int list"
  sg_requests :: int
  sg_ips :: "string list"

definition sg_z_at_least :: "rat \<Rightarrow> attack_signal \<Rightarrow> bool" where
  "sg_z_at_least k g = z_at_least k (sg_baseline g) (sg_requests g)"

definition ip_of :: "json \<Rightarrow> string option" where
  "ip_of item = (let ip = (case item of JArr (x # _) \<Rightarrow> strip (py_str x) | JStr x \<Rightarrow> strip x | _ \<Rightarrow> []) in if ip = [] then None else Some ip)"

definition ips_of :: "hub \<Rightarrow> site \<Rightarrow> exn + string list" where
  "ips_of s site = (case Option.bind (s_primary_target site) (target_by_pk s) of
     None \<Rightarrow> Inr []
   | Some t \<Rightarrow> (case or_else (t_collect_payload t) (JObj []) of
       JObj payload \<Rightarrow>
         (let chunk = obj_fields (jget payload ''log_chunk'') in
          (case or_else (or_else (jget chunk ''summary'') (jget payload ''summary'')) (JObj []) of
             JObj summary \<Rightarrow> (case py_list (or_else (jget summary ''top_ips'') (JArr [])) of
                 Inl e \<Rightarrow> Inl e | Inr items \<Rightarrow> Inr (List.map_filter ip_of items))
           | _ \<Rightarrow> Inr []))
     | _ \<Rightarrow> Inr []))"

definition minute_rows :: "hub \<Rightarrow> nat \<Rightarrow> time \<Rightarrow> traffic_stat list" where
  "minute_rows s site now = sort_key tr_bucket_start (filter (\<lambda>r. tr_site r = site \<and> tr_granularity r = ByMinute \<and>
     now - minutes WINDOW_MINUTES \<le> tr_bucket_start r \<and> tr_bucket_start r \<le> now) (traffic_stats s))"

definition the_now :: "world \<Rightarrow> time option \<Rightarrow> time act" where
  "the_now w now = (case now of Some t \<Rightarrow> ret t | None \<Rightarrow> timezone_now w)"

definition score_site :: "world \<Rightarrow> site \<Rightarrow> time option \<Rightarrow> attack_signal option act" where
  "score_site w site now = bnd (the_now w now) (\<lambda>clock.
     bnd (gets (\<lambda>s. map tr_requests (minute_rows s (s_pk site) (minute_of clock)))) (\<lambda>rows.
     if length rows < MIN_SAMPLES + 1 then ret None
     else bnd (gets (\<lambda>s. ips_of s site)) (\<lambda>found. case found of
       Inl e \<Rightarrow> throw e
     | Inr ips \<Rightarrow> ret (Some \<lparr>sg_baseline = butlast rows, sg_requests = last rows, sg_ips = ips\<rparr>))))"

definition detect :: "world \<Rightarrow> site \<Rightarrow> time option \<Rightarrow> attack_signal option act" where
  "detect w site now = bnd (score_site w site now) (\<lambda>score. ret (case score of
     None \<Rightarrow> None
   | Some g \<Rightarrow> if sg_requests g < MIN_REQUESTS then None else if sg_z_at_least Z_TRIP g then Some g else None))"

definition should_relax :: "world \<Rightarrow> site \<Rightarrow> time option \<Rightarrow> bool act" where
  "should_relax w site now = bnd (score_site w site now) (\<lambda>score. ret (case score of None \<Rightarrow> False | Some g \<Rightarrow> \<not> sg_z_at_least Z_RELAX g))"

fun relax_loop :: "world \<Rightarrow> time option \<Rightarrow> site list \<Rightarrow> bool \<Rightarrow> bool act" where
  "relax_loop w now [] scored = ret scored"
| "relax_loop w now (site # rest) scored = bnd (detect w site now) (\<lambda>hit.
     if hit \<noteq> None then ret False
     else bnd (score_site w site now) (\<lambda>score. case score of
       None \<Rightarrow> relax_loop w now rest scored
     | Some g \<Rightarrow> if sg_z_at_least Z_RELAX g then ret False else relax_loop w now rest True))"

definition zone_sites :: "hub \<Rightarrow> dns_zone \<Rightarrow> site list" where
  "zone_sites s z = filter (\<lambda>r. map_option dz_pk (s_dns_zone r) = Some (dz_pk z)) (sites s)"

definition should_relax_zone :: "world \<Rightarrow> dns_zone \<Rightarrow> time option \<Rightarrow> bool act" where
  "should_relax_zone w z now = bnd (gets (\<lambda>s. zone_sites s z)) (\<lambda>rows. relax_loop w now rows False)"


section \<open>The playbook\<close>

definition UNDER_ATTACK :: string where "UNDER_ATTACK = ''under_attack''"
definition RELAX_LEVEL :: string where "RELAX_LEVEL = ''medium''"

record edge_client =
  ec_level :: "nat \<Rightarrow> edge_call list \<Rightarrow> string option"
  ec_banned :: "nat \<Rightarrow> edge_call list \<Rightarrow> string list"

definition edge_do :: "world \<Rightarrow> edge_call \<Rightarrow> unit act" where
  "edge_do w c = (\<lambda>s. let cs = edge_calls s @ [c] in
     (case w_edge w cs of None \<Rightarrow> Inr () | Some e \<Rightarrow> Inl e, s\<lparr>edge_calls := cs\<rparr>))"

definition set_under_attack :: "world \<Rightarrow> edge_client \<Rightarrow> dns_zone \<Rightarrow> unit act" where
  "set_under_attack w e z = bnd (gets (\<lambda>s. ec_level e (dz_pk z) (edge_calls s))) (\<lambda>current.
     when_do (current \<noteq> Some UNDER_ATTACK) (edge_do w (SetSecurityLevel (dz_pk z) UNDER_ATTACK)))"

fun ban_each :: "world \<Rightarrow> nat \<Rightarrow> string list \<Rightarrow> string list \<Rightarrow> unit act" where
  "ban_each w z banned [] = ret ()"
| "ban_each w z banned (ip # ips) = (if ip \<noteq> [] \<and> ip \<notin> set banned
     then andThen (edge_do w (BanIp z ip)) (ban_each w z (ip # banned) ips) else ban_each w z banned ips)"

definition ban_new :: "world \<Rightarrow> edge_client \<Rightarrow> dns_zone \<Rightarrow> string list \<Rightarrow> unit act" where
  "ban_new w e z ips = bnd (gets (\<lambda>s. ec_banned e (dz_pk z) (edge_calls s))) (\<lambda>banned. ban_each w (dz_pk z) banned ips)"

definition engaged_body :: "dns_zone \<Rightarrow> string list \<Rightarrow> bool \<Rightarrow> string" where
  "engaged_body z ips edge = (if edge
     then ''Under-Attack mode flipped on '' @ dz_name z @ ''; banned '' @ (if join '', '' ips = [] then ''no IPs yet'' else join '', '' ips) @
       ''. Attack-shaped load must not scale.''
     else ''notify-only: DnsAccount has no edge_token_ref for '' @ dz_name z @
       '', so Under-Attack mode was not set and no IP was banned. The site is still under attack-shaped load.'')"

definition engaged_fix :: "bool \<Rightarrow> string" where
  "engaged_fix edge = (if edge then ''Leave Under-Attack mode until traffic returns to baseline; do not scale this zone.''
     else ''Connect an edge_token_ref on the DnsAccount so the playbook can set Under-Attack and ban IPs.'')"

definition engaged_facts :: "dns_zone \<Rightarrow> string list \<Rightarrow> bool \<Rightarrow> alert_facts" where
  "engaged_facts z ips edge = \<lparr>af_fingerprint = Some (attack_fingerprint z), af_source_engine = Some ''attack_playbook'',
     af_workspace = Some (a_workspace (dz_account z)), af_obj = None, af_title = ''Attack playbook engaged'',
     af_body = engaged_body z ips edge, af_fix_action = engaged_fix edge, af_details = no_details\<rparr>"

definition engage :: "world \<Rightarrow> dns_zone \<Rightarrow> edge_client option \<Rightarrow> string list \<Rightarrow> finding_row act" where
  "engage w z edge ips =
     andThen (case edge of None \<Rightarrow> ret () | Some e \<Rightarrow> andThen (set_under_attack w e z) (ban_new w e z ips))
     (bnd (gets (\<lambda>s. engaged_finding s (Some z))) (\<lambda>existing. case existing of
        Some row \<Rightarrow> ret row
      | None \<Rightarrow> bnd (raise_alert w ''attack-playbook-engaged'' (''dns_zone:'' @ dz_name z) (engaged_facts z ips (edge \<noteq> None)))
          (\<lambda>p. ret (pd_row p))))"

definition relax :: "world \<Rightarrow> dns_zone \<Rightarrow> edge_client option \<Rightarrow> finding_row option act" where
  "relax w z edge = bnd (gets (\<lambda>s. engaged_finding s (Some z))) (\<lambda>row.
     andThen (case edge of None \<Rightarrow> ret () | Some _ \<Rightarrow> edge_do w (SetSecurityLevel (dz_pk z) RELAX_LEVEL))
     (case row of None \<Rightarrow> ret None | Some r \<Rightarrow> bnd (resolve w r None SrcSystem) (\<lambda>r'. ret (Some r'))))"

definition run_playbook :: "world \<Rightarrow> site \<Rightarrow> edge_client option \<Rightarrow> time option \<Rightarrow> string list option \<Rightarrow> finding_row option act" where
  "run_playbook w site edge now ips = (case s_dns_zone site of
     None \<Rightarrow> ret None
   | Some z \<Rightarrow> bnd (detect w site now) (\<lambda>signal. case signal of
       Some g \<Rightarrow> bnd (engage w z edge (case ips of Some xs \<Rightarrow> xs | None \<Rightarrow> sg_ips g)) (\<lambda>row. ret (Some row))
     | None \<Rightarrow> bnd (gets (\<lambda>s. engaged_finding s (Some z))) (\<lambda>current. case current of
         None \<Rightarrow> ret None
       | Some row \<Rightarrow> bnd (should_relax_zone w z now) (\<lambda>calm. if calm then relax w z edge else ret (Some row)))))"

text \<open>\<open>edge_protection_for\<close> is a parameter; its clients are kept per zone for one run over the sites of a target.\<close>

fun run_sites :: "world \<Rightarrow> (dns_zone \<Rightarrow> edge_client option act) \<Rightarrow> (nat \<times> edge_client option) list \<Rightarrow> site list \<Rightarrow> unit act" where
  "run_sites w edge_for cache [] = ret ()"
| "run_sites w edge_for cache (site # rest) = (case s_dns_zone site of
     None \<Rightarrow> bnd (run_playbook w site None None None) (\<lambda>_. run_sites w edge_for cache rest)
   | Some z \<Rightarrow> bnd (case map_of cache (dz_pk z) of
         Some e \<Rightarrow> ret e
       | None \<Rightarrow> try_except (edge_for z) (\<lambda>e. if e = OtherError ''ScopeError'' then ret None else throw e)) (\<lambda>edge.
       bnd (run_playbook w site edge None None) (\<lambda>_. run_sites w edge_for ((dz_pk z, edge) # cache) rest)))"

definition run_for_target :: "world \<Rightarrow> (dns_zone \<Rightarrow> edge_client option act) \<Rightarrow> target \<Rightarrow> unit act" where
  "run_for_target w edge_for t = bnd (gets (\<lambda>s. filter (\<lambda>r. s_primary_target r = Some (t_pk t)) (sites s))) (\<lambda>rows.
     run_sites w edge_for [] rows)"

end
