(* ===== verification/Attack_Facts.thy ===== *)
theory Attack_Facts
  imports Attack
begin

text \<open>
  What the detector and the playbook do: the exact comparison of scores is the comparison of z-scores, no address is banned
  twice, a tripped zone stays engaged through everything the alert engine does while it announces the finding (the locale
  \<open>watched_finding\<close>: a finding that is neither the storm's nor a flapping one survives a nested raise), and the zone
  is relaxed only when all its sites are calm.
\<close>

section \<open>Scores\<close>

lemma z_at_least_real:
  assumes "k > 0" "length baseline > 1" "pvariance baseline \<noteq> 0"
  shows "z_at_least k baseline latest \<longleftrightarrow>
    real_of_rat k \<le> (real_of_int latest - real_of_rat (mean baseline)) / sqrt (real_of_rat (pvariance baseline))"
proof -
  let ?d = "of_int latest - mean baseline" and ?v = "pvariance baseline"
  have v0: "?v \<ge> 0" unfolding pvariance_def by (intro divide_nonneg_nonneg sum_list_nonneg) auto
  then have v: "real_of_rat ?v > 0" using assms(3) by simp
  then have s: "sqrt (real_of_rat ?v) > 0" by simp
  have k: "real_of_rat k > 0" using assms(1) by simp
  have d: "real_of_int latest - real_of_rat (mean baseline) = real_of_rat ?d" by (simp add: of_rat_diff)
  have "(?d \<ge> 0 \<and> ?d\<^sup>2 \<ge> k\<^sup>2 * ?v) \<longleftrightarrow> (real_of_rat ?d \<ge> 0 \<and> (real_of_rat ?d)\<^sup>2 \<ge> (real_of_rat k * sqrt (real_of_rat ?v))\<^sup>2)"
    using v0 by (simp add: power_mult_distrib of_rat_power [symmetric] of_rat_mult [symmetric] of_rat_less_eq)
  also have "\<dots> \<longleftrightarrow> real_of_rat k * sqrt (real_of_rat ?v) \<le> real_of_rat ?d"
  proof -
    have "(b \<ge> 0 \<and> b\<^sup>2 \<ge> a\<^sup>2) = (a \<le> b)" if "a > 0" for a b :: real
      using that power2_le_imp_le [of a b] power_mono [of a b 2] by auto
    from this [of "real_of_rat k * sqrt (real_of_rat ?v)" "real_of_rat ?d"] k s show ?thesis by simp
  qed
  also have "\<dots> \<longleftrightarrow> real_of_rat k \<le> real_of_rat ?d / sqrt (real_of_rat ?v)" using s by (simp add: pos_le_divide_eq)
  finally show ?thesis using assms(2,3) by (simp only: z_at_least_def Let_def if_True if_False d)
qed

lemma tripped_not_calm: "sg_z_at_least Z_TRIP g \<Longrightarrow> sg_z_at_least Z_RELAX g"
proof -
  assume trip: "sg_z_at_least Z_TRIP g"
  have "pvariance (sg_baseline g) \<ge> 0" unfolding pvariance_def by (intro divide_nonneg_nonneg sum_list_nonneg) auto
  then have "Z_RELAX\<^sup>2 * pvariance (sg_baseline g) \<le> Z_TRIP\<^sup>2 * pvariance (sg_baseline g)"
    by (intro mult_right_mono) (simp_all add: Z_RELAX_def Z_TRIP_def power2_eq_square)
  with trip show ?thesis unfolding sg_z_at_least_def z_at_least_def Let_def by (auto split: if_splits)
qed

section \<open>Bans\<close>

lemma edge_do_calls: "edge_calls (snd (edge_do w c s)) = edge_calls s @ [c]"
  by (simp add: edge_do_def Let_def)

lemma ban_each_calls:
  "\<exists>bs. edge_calls (snd (ban_each w z banned ips s)) = edge_calls s @ map (BanIp z) bs \<and> distinct bs \<and> set bs \<subseteq> set ips - set banned - {[]}"
proof (induction ips arbitrary: banned s)
  case (Cons ip ips)
  show ?case
  proof (cases "ip \<noteq> [] \<and> ip \<notin> set banned")
    case True
    obtain r u where u: "edge_do w (BanIp z ip) s = (r, u)" by fastforce
    have cu: "edge_calls u = edge_calls s @ [BanIp z ip]" using edge_do_calls [of w "BanIp z ip" s] by (simp add: u)
    show ?thesis
    proof (cases r)
      case (Inl e)
      with True u cu show ?thesis by (intro exI [of _ "[ip]"]) (auto simp: andThen_def bnd_def)
    next
      case (Inr x)
      obtain bs where "edge_calls (snd (ban_each w z (ip # banned) ips u)) = edge_calls u @ map (BanIp z) bs" "distinct bs"
        "set bs \<subseteq> set ips - set (ip # banned) - {[]}" using Cons.IH by blast
      with True u cu Inr show ?thesis by (intro exI [of _ "ip # bs"]) (auto simp: andThen_def bnd_def)
    qed
  next
    case False
    then have "ban_each w z banned (ip # ips) s = ban_each w z banned ips s" by auto
    with Cons.IH [of banned s] show ?thesis by fastforce
  qed
qed (auto simp: ret_def)


section \<open>Findings that the alert engine leaves open\<close>

text \<open>
  Filing an alert may resolve findings of the engine's own: the alert storm and the flapping notices. Every other finding that
  is not resolved stays so, whatever the engine files and delivers on the way.
\<close>

definition keeps_live :: "nat \<Rightarrow> string \<Rightarrow> hub \<Rightarrow> hub \<Rightarrow> bool" where
  "keeps_live ws fp s t = (stream_wired s \<and> findings_wf s \<longrightarrow> stream_wired t \<and> findings_wf t \<and>
     (live_finding s ws fp \<noteq> None \<longrightarrow> live_finding t ws fp \<noteq> None))"

interpretation live: evolution "keeps_live ws fp" for ws fp
  by unfold_locales (auto simp: keeps_live_def)

definition queue_view :: "hub \<Rightarrow> finding_row list \<times> bool" where
  "queue_view s = (findings s, stream_wired s)"

lemma queue_view_live: "evolves (same queue_view) m \<Longrightarrow> evolves (keeps_live ws fp) m"
  by (auto simp: evolves_def same_def queue_view_def keeps_live_def findings_wf_def live_finding_def finding_at_def)

named_theorems queue_frames

lemma basic_queue [queue_frames]:
  "evolves (same queue_view) (audit w c)" "evolves (same queue_view) (timezone_now w)"
  using audit_journal [of w c] timezone_now_journal [of w]
  by (auto simp: evolves_def same_def queue_view_def dest: beside_journal_fields)

lemma state_queue [queue_frames]:
  "evolves (same queue_view) (get_or_create_state ws fp)" "evolves (same queue_view) (save_state ws fp f)"
  by (auto simp: get_or_create_state_def save_state_def queue_view_def evolves_def same_def modify_def split: option.splits)

lemma channel_queue [queue_frames]:
  "evolves (same queue_view) (publish_page w p)" "evolves (same queue_view) (send_mail w m)"
  "evolves (same queue_view) (log_delivery w row ch sev ok detail)"
  by (auto simp: publish_page_def send_mail_def log_delivery_def queue_view_def evolves_def same_def bnd_now modify_def)

lemma stamp_queue [queue_frames]:
  "evolves (same queue_view) (record_push row now title c)" "evolves (same queue_view) (touch_last_push row now)"
  "evolves (same queue_view) (release_failed_push_clock row)" "evolves (same queue_view) (annotate_delivery row now)"
  "evolves (same queue_view) (push_notice row now)"
  unfolding record_push_def touch_last_push_def release_failed_push_clock_def annotate_delivery_def push_notice_def
  by (intro frame.ev_rules queue_frames)+

lemma filed_live: "f_state (filed_row s e ws fp flds now) \<noteq> Resolved"
  by (simp add: filed_row_def fresh_row_def refreshed_def split: option.split)

lemma finding_live: "evolves (keeps_live ws fp) (finding w e fp' (Some ws') flds)"
proof -
  have "keeps_live ws fp s (snd (finding w e fp' (Some ws') flds s))" for s
  proof (cases "stream_wired s \<and> findings_wf s")
    case True
    show ?thesis
    proof (cases "copy_given flds")
      case True
      let ?now = "w_clock w (ticks s)"
      let ?s = "s\<lparr>findings := filed s e ws' fp' flds ?now\<rparr>"
      obtain t where t: "finding w e fp' (Some ws') flds s = (Inr (filed_row s e ws' fp' flds ?now), t)" "announced (announcements s ws' fp') ?s t"
        using finding_ok [of s flds w e fp' ws'] True \<open>stream_wired s \<and> findings_wf s\<close> by blast
      have eq: "findings t = findings ?s" "stream_wired t = stream_wired s" using announced_fields [OF t(2)] by simp_all
      have "findings_wf ?s" using filed_wf \<open>stream_wired s \<and> findings_wf s\<close> by blast
      then have "findings_wf t" using eq by (simp add: findings_wf_def)
      moreover have "finding_at t ws fp = (if (ws, fp) = (ws', fp') then Some (filed_row s e ws' fp' flds ?now) else finding_at s ws fp)"
        using finding_at_filed [of s e ws' fp' flds ?now ws fp] \<open>stream_wired s \<and> findings_wf s\<close> eq(1) by (simp add: finding_at_def)
      ultimately show ?thesis using eq filed_live by (auto simp: keeps_live_def t(1) live_finding_def)
    next
      case False
      then obtain m where "finding w e fp' (Some ws') flds s = (Inl (ValueError m), s\<lparr>ticks := Suc (ticks s)\<rparr>)" using finding_refused by blast
      then show ?thesis by (simp add: keeps_live_def findings_wf_def live_finding_def finding_at_def)
    qed
  qed (auto simp: keeps_live_def)
  then show ?thesis by (simp add: evolves_def)
qed

lemma file_alert_live: "evolves (keeps_live ws fp) (file_alert w kind entity af)"
proof -
  have "x \<noteq> None \<Longrightarrow> evolves (keeps_live ws fp) (finding w e fp' x flds)" for x e fp' flds
    by (cases x) (simp_all add: finding_live)
  then show ?thesis unfolding file_alert_def by (intro live.ev_rules)
qed

lemma resolve_live:
  assumes "(ws', fp') \<noteq> (ws, fp)" "live_finding s ws' fp' = Some row" "stream_wired s" "findings_wf s"
  shows "keeps_live ws fp s (snd (resolve_refresh w row s))"
proof -
  have at: "finding_at s ws' fp' = Some row" and st: "f_state row \<noteq> Resolved"
    using assms(2) by (auto simp: live_finding_def split: option.splits if_splits)
  let ?row = "row\<lparr>f_state := Resolved\<rparr>"
  let ?s = "s\<lparr>findings := upd_rows (\<lambda>r. f_pk r = f_pk row) (\<lambda>_. ?row) (findings s)\<rparr>"
  have "Resolved \<in> set (allowed (f_state row))" using st by (cases "f_state row") auto
  then obtain t where t: "resolve_refresh w row s = (Inr ?row, t)" "announced 1 ?s t"
    unfolding resolve_refresh_def resolve_def using transition_ok [OF assms(3)] by blast
  have eq: "findings t = findings ?s" "stream_wired t = stream_wired s" using announced_fields [OF t(2)] by simp_all
  have key: "finding_key ?row = finding_key row" by (simp add: finding_key_def)
  have "findings_wf ?s" using saved_wf [OF assms(4), of row ?row] finding_at_key [OF at] key by (auto simp: known_row_def)
  then have "findings_wf t" using eq by (simp add: findings_wf_def)
  moreover have "finding_at t ws fp = finding_at s ws fp"
    using finding_at_saved [OF assms(4) at key, of ws fp] assms(1) eq(1) by (auto simp: finding_at_def)
  ultimately show ?thesis using eq(2) by (simp add: keeps_live_def t(1) live_finding_def)
qed

lemma resolve_then_live:
  assumes "(ws', fp') \<noteq> (ws, fp)" "live_finding s ws' fp' = Some row" "\<And>r. evolves (keeps_live ws fp) (k r)"
  shows "keeps_live ws fp s (snd (bnd (resolve_refresh w row) k s))"
proof (cases "stream_wired s \<and> findings_wf s")
  case True
  obtain x t where x: "resolve_refresh w row s = (x, t)" by fastforce
  with resolve_live [OF assms(1,2)] True have t: "keeps_live ws fp s t" by (metis snd_conv)
  show ?thesis
  proof (cases x)
    case (Inr r)
    have "keeps_live ws fp t (snd (k r t))" using assms(3) by (simp add: evolves_def)
    with t show ?thesis unfolding bnd_def x Inr prod.case sum.case by (rule live.R_trans)
  qed (simp add: bnd_def x t)
qed (auto simp: keeps_live_def)

locale watched_finding =
  fixes ws :: nat and fp :: string
  assumes not_storm: "(default_ws, STORM_FINDING_FP) \<noteq> (ws, fp)" and not_flap: "\<not> is_flap_fp fp"
begin

lemma storm_live:
  assumes "\<And>kind entity af. evolves (keeps_live ws fp) (R kind entity af)"
  shows "evolves (keeps_live ws fp) (storm_breaker_with R w now)"
proof -
  have close: "evolves (keeps_live ws fp) (bnd (gets (\<lambda>s. live_finding s default_ws STORM_FINDING_FP)) (\<lambda>found. case found of
          None \<Rightarrow> ret ()
        | Some row \<Rightarrow> bnd (resolve_refresh w row) (\<lambda>row'. bnd (push_notice row' now) (\<lambda>_. ret ()))))"
    unfolding evolves_def bnd_gets
  proof
    fix s
    have k: "evolves (keeps_live ws fp) (bnd (push_notice r now) (\<lambda>_. ret ()))" for r
      by (intro live.ev_rules queue_view_live [OF stamp_queue(5)])
    show "keeps_live ws fp s (snd ((case live_finding s default_ws STORM_FINDING_FP of None \<Rightarrow> ret ()
        | Some row \<Rightarrow> bnd (resolve_refresh w row) (\<lambda>row'. bnd (push_notice row' now) (\<lambda>_. ret ()))) s))"
      using resolve_then_live [OF not_storm _ k] by (cases "live_finding s default_ws STORM_FINDING_FP") (auto simp: ret_def live.R_refl)
  qed
  show ?thesis
    unfolding storm_breaker_with_def
    by (intro live.ev_bnd live.ev_gets queue_view_live [OF state_queue(1)] live.ev_if live.ev_andThen queue_view_live [OF state_queue(2)] close live.ev_ret assms)
qed

lemma recovery_live:
  assumes "\<And>kind entity af. evolves (keeps_live ws fp) (R kind entity af)"
  shows "evolves (keeps_live ws fp) (recovery_notice_with R w row now)"
  unfolding recovery_notice_with_def by (intro live.ev_rules queue_view_live [OF stamp_queue(5)] storm_live assms)

lemma flap_live:
  assumes "\<And>kind entity af. evolves (keeps_live ws fp) (R kind entity af)"
  shows "evolves (keeps_live ws fp) (maybe_resolve_flap_with R w fp' now ws')"
proof -
  let ?base = "if is_flap_fp fp' then drop (length FLAPPING_PREFIX) fp' else fp'" and ?flap = "if is_flap_fp fp' then fp' else flap_fp fp'"
  have ne: "(ws', ?flap) \<noteq> (ws, fp)" using not_flap by (auto simp: is_flap_fp_def flap_fp_def)
  have k: "evolves (keeps_live ws fp) (bnd (recovery_notice_with R w r now) (\<lambda>_. ret ()))" for r
    by (intro live.ev_rules recovery_live assms)
  show ?thesis
    unfolding maybe_resolve_flap_with_def Let_def evolves_def bnd_gets
    using resolve_then_live [OF ne _ k] by (auto simp: when_do_def ret_def live.R_refl split: option.split)
qed

lemma deliver_live:
  "(\<And>row e. evolves (keeps_live ws fp) (report row e)) \<Longrightarrow> evolves (keeps_live ws fp) (maybe_deliver_with report w p)"
  unfolding maybe_deliver_with_def deliver_with_def email_p1_with_def by (intro live.ev_rules queue_frames [THEN queue_view_live])

lemma nested_live: "evolves (keeps_live ws fp) (raise_nested w kind entity af)"
  unfolding raise_nested_def report_nested_def by (intro live.ev_rules file_alert_live queue_frames [THEN queue_view_live] deliver_live)

lemma after_raise_live: "evolves (keeps_live ws fp) (after_raise w row)"
  unfolding after_raise_def after_raise_body_def Let_def
  by (intro live.ev_rules flap_live storm_live nested_live queue_frames [THEN queue_view_live])

lemma raise_alert_rest_live: "evolves (keeps_live ws fp) (bnd (after_raise w row) (\<lambda>p. andThen (maybe_deliver_with (report_failure w) w p) (ret p)))"
  unfolding report_failure_def by (intro live.ev_rules after_raise_live deliver_live file_alert_live)

end


interpretation attack: watched_finding ws "attack_fingerprint z" for ws z
  by unfold_locales (simp_all add: attack_fingerprint_def STORM_FINDING_FP_def is_flap_fp_def FLAPPING_PREFIX_def)

lemma raise_engaged_live:
  assumes run: "raise_alert w kind entity (engaged_facts z ips edge) s = (Inr p, t)" and ok: "stream_wired s" "findings_wf s"
  shows "engaged_finding t (Some z) \<noteq> None"
proof -
  let ?ws = "a_workspace (dz_account z)" and ?fp = "attack_fingerprint z"
  obtain row u where u: "file_alert w kind entity (engaged_facts z ips edge) s = (Inr row, u)"
    and rest: "bnd (after_raise w row) (\<lambda>p. andThen (maybe_deliver_with (report_failure w) w p) (ret p)) u = (Inr p, t)"
    using run by (auto simp: raise_alert_def fst_bnd_Inr)
  have fp: "?fp = CHR ''a'' # tl ?fp" by (simp add: attack_fingerprint_def)
  obtain sev where f: "finding w ''attack_playbook'' ?fp (Some ?ws) \<lparr>ff_severity = sev, ff_entity = entity,
      ff_title = af_title (engaged_facts z ips edge), ff_body = af_body (engaged_facts z ips edge), ff_fix_action = af_fix_action (engaged_facts z ips edge)\<rparr> s = (Inr row, u)"
    using u by (auto simp: file_alert_def bnd_gets engaged_facts_def throw_def attack_fingerprint_def split: sum.splits)
  let ?flds = "\<lparr>ff_severity = sev, ff_entity = entity,
      ff_title = af_title (engaged_facts z ips edge), ff_body = af_body (engaged_facts z ips edge), ff_fix_action = af_fix_action (engaged_facts z ips edge)\<rparr>"
  have "copy_given ?flds" using f finding_refused [of ?flds] by (metis Inr_not_Inl prod.inject)
  with finding_ok [OF ok(1)] f obtain k where "announced k (s\<lparr>findings := filed s ''attack_playbook'' ?ws ?fp ?flds (w_clock w (ticks s))\<rparr>) u"
    by (metis snd_conv)
  from announced_fields [OF this] have "findings u = filed s ''attack_playbook'' ?ws ?fp ?flds (w_clock w (ticks s))" by simp
  then have "finding_at u ?ws ?fp = Some (filed_row s ''attack_playbook'' ?ws ?fp ?flds (w_clock w (ticks s)))"
    using finding_at_filed [OF ok(2), of "''attack_playbook''" ?ws ?fp ?flds "w_clock w (ticks s)" ?ws ?fp] by (simp add: finding_at_def)
  then have live: "live_finding u ?ws ?fp \<noteq> None" using filed_live by (simp add: live_finding_def)
  have "keeps_live ?ws ?fp s u" using file_alert_live u by (rule live.evolvesD)
  then have "stream_wired u" "findings_wf u" using ok by (simp_all add: keeps_live_def)
  moreover have "keeps_live ?ws ?fp u t" using attack.raise_alert_rest_live rest by (rule live.evolvesD)
  ultimately show ?thesis using live by (simp add: keeps_live_def engaged_finding_def)
qed

lemma edge_queue: "evolves (same queue_view) (edge_do w c)"
  by (simp add: evolves_def same_def edge_do_def Let_def queue_view_def)

lemma ban_queue: "evolves (same queue_view) (ban_each w z banned ips)"
  by (induction ips arbitrary: banned) (auto intro!: frame.ev_rules edge_queue)

lemma protect_queue:
  "evolves (same queue_view) (case edge of None \<Rightarrow> ret () | Some e \<Rightarrow> andThen (set_under_attack w e z) (ban_new w e z ips))"
  unfolding set_under_attack_def ban_new_def by (intro frame.ev_rules edge_queue ban_queue)

lemma queue_view_ok: "queue_view t = queue_view s \<Longrightarrow> stream_wired t = stream_wired s \<and> findings_wf t = findings_wf s \<and>
    engaged_finding t zone = engaged_finding s zone"
  by (auto simp: queue_view_def findings_wf_def engaged_finding_def live_finding_def finding_at_def split: option.split)

lemma engage_live:
  assumes "engage w z edge ips s = (Inr row, t)" "stream_wired s" "findings_wf s"
  shows "engaged_finding t (Some z) \<noteq> None"
proof -
  obtain x u where u: "(case edge of None \<Rightarrow> ret () | Some e \<Rightarrow> andThen (set_under_attack w e z) (ban_new w e z ips)) s = (Inr x, u)"
    and rest: "(case engaged_finding u (Some z) of Some row \<Rightarrow> ret row
      | None \<Rightarrow> bnd (raise_alert w ''attack-playbook-engaged'' (''dns_zone:'' @ dz_name z) (engaged_facts z ips (edge \<noteq> None)))
          (\<lambda>p. ret (pd_row p))) u = (Inr row, t)"
    using assms(1) unfolding engage_def andThen_def [of "case_option _ _ _"] fst_bnd_Inr bnd_gets
    by (elim exE conjE) (auto intro: that)
  have "queue_view u = queue_view s" using protect_queue u by (rule frameD)
  then have ok: "stream_wired u" "findings_wf u" using queue_view_ok assms(2,3) by blast+
  show ?thesis
  proof (cases "engaged_finding u (Some z)")
    case (Some r)
    with rest show ?thesis by (simp add: ret_def)
  next
    case None
    with rest obtain p where "raise_alert w ''attack-playbook-engaged'' (''dns_zone:'' @ dz_name z) (engaged_facts z ips (edge \<noteq> None)) u = (Inr p, t)"
      by (auto simp: fst_bnd_Inr ret_def)
    from raise_engaged_live [OF this ok] show ?thesis .
  qed
qed


section \<open>Relaxing\<close>

text \<open>The score as a function of the tables and an instant.\<close>

definition score_at :: "hub \<Rightarrow> site \<Rightarrow> time \<Rightarrow> exn + attack_signal option" where
  "score_at s site clock = (let rows = map tr_requests (minute_rows s (s_pk site) (minute_of clock)) in
     if length rows < MIN_SAMPLES + 1 then Inr None
     else case ips_of s site of Inl e \<Rightarrow> Inl e | Inr ips \<Rightarrow> Inr (Some \<lparr>sg_baseline = butlast rows, sg_requests = last rows, sg_ips = ips\<rparr>))"

definition beside_ticks :: "hub \<Rightarrow> hub" where
  "beside_ticks s = s\<lparr>ticks := 0\<rparr>"

lemma score_at_ticks: "beside_ticks t = beside_ticks s \<Longrightarrow> score_at t site clock = score_at s site clock"
proof -
  assume "beside_ticks t = beside_ticks s"
  then have "traffic_stats (beside_ticks t) = traffic_stats (beside_ticks s)" "targets (beside_ticks t) = targets (beside_ticks s)" by simp_all
  then have eq: "traffic_stats t = traffic_stats s" "targets t = targets s" by (simp_all add: beside_ticks_def)
  then have "target_by_pk t = target_by_pk s" by (intro ext) (simp add: target_by_pk_def)
  then have "ips_of t site = ips_of s site" by (simp add: ips_of_def)
  moreover have "minute_rows t k m = minute_rows s k m" for k m using eq(1) by (simp add: minute_rows_def)
  ultimately show ?thesis by (simp add: score_at_def Let_def)
qed

definition reading :: "world \<Rightarrow> time option \<Rightarrow> time \<Rightarrow> bool" where
  "reading w now clock = (case now of Some t \<Rightarrow> clock = t | None \<Rightarrow> clock \<in> range (w_clock w))"

lemma score_site_reads:
  assumes "score_site w site now s = (x, t)"
  obtains clock where "reading w now clock" "x = score_at s site clock" "beside_ticks t = beside_ticks s"
proof -
  obtain clock u where u: "the_now w now s = (Inr clock, u)" "reading w now clock" "beside_ticks u = beside_ticks s"
    by (cases now) (auto simp: the_now_def ret_def timezone_now_def reading_def beside_ticks_def)
  have "score_site w site now s = (score_at u site clock, u)"
    unfolding score_site_def bnd_def [of "the_now w now"] u(1) prod.case sum.case
    by (simp add: bnd_gets score_at_def Let_def ret_def throw_def split: sum.split)
  with assms u score_at_ticks [OF u(3)] show thesis by (intro that) auto
qed

lemma detect_reads:
  assumes "detect w site now s = (Inr x, t)"
  obtains clock g where "reading w now clock" "score_at s site clock = Inr g" "beside_ticks t = beside_ticks s"
    "x = (case g of None \<Rightarrow> None | Some g \<Rightarrow> if sg_requests g < MIN_REQUESTS then None else if sg_z_at_least Z_TRIP g then Some g else None)"
proof -
  obtain g u where "score_site w site now s = (Inr g, u)" and t: "t = u"
    "x = (case g of None \<Rightarrow> None | Some g \<Rightarrow> if sg_requests g < MIN_REQUESTS then None else if sg_z_at_least Z_TRIP g then Some g else None)"
    using assms by (auto simp: detect_def fst_bnd_Inr ret_def)
  from this(1) obtain clock where "reading w now clock" "score_at s site clock = Inr g" "beside_ticks u = beside_ticks s"
    by (rule score_site_reads) auto
  with t show thesis by (intro that) auto
qed

definition calm_site :: "world \<Rightarrow> time option \<Rightarrow> hub \<Rightarrow> site \<Rightarrow> bool" where
  "calm_site w now s site = (\<exists>clock g. reading w now clock \<and> score_at s site clock = Inr g \<and> (case g of None \<Rightarrow> True | Some g \<Rightarrow> \<not> sg_z_at_least Z_RELAX g))"

definition measured :: "world \<Rightarrow> time option \<Rightarrow> hub \<Rightarrow> site \<Rightarrow> bool" where
  "measured w now s site = (\<exists>clock g. reading w now clock \<and> score_at s site clock = Inr (Some g) \<and> \<not> sg_z_at_least Z_RELAX g)"

lemma calm_site_ticks:
  assumes e: "beside_ticks t = beside_ticks s"
  shows "calm_site w now t site = calm_site w now s site" "measured w now t site = measured w now s site"
proof -
  have "score_at t = score_at s" by (intro ext) (rule score_at_ticks [OF e])
  then show "calm_site w now t site = calm_site w now s site" "measured w now t site = measured w now s site"
    by (simp_all add: calm_site_def measured_def)
qed

lemma relax_loop_calm:
  assumes "relax_loop w now rows scored s = (Inr True, t)"
  shows "list_all (calm_site w now s) rows \<and> (scored \<or> list_ex (measured w now s) rows)"
  using assms
proof (induction rows arbitrary: scored s)
  case (Cons site rows)
  obtain u where u: "detect w site now s = (Inr None, u)"
    and rest: "bnd (score_site w site now) (\<lambda>score. case score of
       None \<Rightarrow> relax_loop w now rows scored
     | Some g \<Rightarrow> if sg_z_at_least Z_RELAX g then ret False else relax_loop w now rows True) u = (Inr True, t)"
    using Cons.prems by (auto simp: fst_bnd_Inr [of _ _ s] ret_def split: if_splits)
  have us: "beside_ticks u = beside_ticks s" using u by (rule detect_reads)
  obtain g v where v: "score_site w site now u = (Inr g, v)"
    and tail: "(case g of None \<Rightarrow> relax_loop w now rows scored
     | Some g \<Rightarrow> if sg_z_at_least Z_RELAX g then ret False else relax_loop w now rows True) v = (Inr True, t)"
    using rest by (auto simp: fst_bnd_Inr)
  obtain clock where c: "reading w now clock" "score_at u site clock = Inr g" and vu: "beside_ticks v = beside_ticks u"
    using v by (rule score_site_reads) auto
  have vs: "beside_ticks v = beside_ticks s" using vu us by simp
  have here: "score_at s site clock = Inr g" using c(2) score_at_ticks [OF us] by simp
  show ?case
  proof (cases g)
    case None
    with tail have "relax_loop w now rows scored v = (Inr True, t)" by simp
    from Cons.IH [OF this] have "list_all (calm_site w now s) rows" "scored \<or> list_ex (measured w now s) rows"
      by (simp_all add: calm_site_ticks [OF vs] list_all_iff list_ex_iff)
    moreover have "calm_site w now s site" using c(1) here None by (auto simp: calm_site_def)
    ultimately show ?thesis by auto
  next
    case (Some g')
    with tail have cool: "\<not> sg_z_at_least Z_RELAX g'" and loop: "relax_loop w now rows True v = (Inr True, t)"
      by (auto simp: ret_def split: if_splits)
    from Cons.IH [OF loop] have "list_all (calm_site w now s) rows" by (simp add: calm_site_ticks [OF vs] list_all_iff)
    moreover have "calm_site w now s site" "measured w now s site"
      using c(1) here Some cool by (auto simp: calm_site_def measured_def)
    ultimately show ?thesis by auto
  qed
qed (simp add: ret_def)


lemma ticks_queue: "beside_ticks t = beside_ticks s \<Longrightarrow> queue_view t = queue_view s"
proof -
  assume "beside_ticks t = beside_ticks s"
  then have "queue_view (beside_ticks t) = queue_view (beside_ticks s)" by simp
  then show ?thesis by (simp add: queue_view_def beside_ticks_def)
qed

lemma ticks_sites: "beside_ticks t = beside_ticks s \<Longrightarrow> zone_sites t z = zone_sites s z"
proof -
  assume "beside_ticks t = beside_ticks s"
  then have "sites (beside_ticks t) = sites (beside_ticks s)" by simp
  then show ?thesis by (simp add: zone_sites_def beside_ticks_def)
qed

lemma score_ticks: "evolves (same beside_ticks) (score_site w site now)" "evolves (same beside_ticks) (detect w site now)"
proof -
  show "evolves (same beside_ticks) (score_site w site now)"
    unfolding evolves_def same_def using score_site_reads by (metis prod.collapse)
  then show "evolves (same beside_ticks) (detect w site now)" unfolding detect_def by (intro frame.ev_rules)
qed

lemma loop_ticks: "evolves (same beside_ticks) (relax_loop w now rows scored)"
  by (induction rows arbitrary: scored) (auto intro!: frame.ev_rules score_ticks)

lemma engage_existing:
  assumes "engaged_finding s (Some z) \<noteq> None"
  shows "queue_view (snd (engage w z edge ips s)) = queue_view s"
proof -
  let ?m = "case edge of None \<Rightarrow> ret () | Some e \<Rightarrow> andThen (set_under_attack w e z) (ban_new w e z ips)"
  obtain x u where u: "?m s = (x, u)" by fastforce
  have qu: "queue_view u = queue_view s" using protect_queue u by (rule frameD)
  then have "engaged_finding u (Some z) \<noteq> None" using queue_view_ok assms by metis
  then show ?thesis using qu
    unfolding engage_def andThen_def [of ?m] bnd_def [of ?m] u by (cases x) (auto simp: bnd_gets ret_def)
qed

lemma lifted_relaxed:
  assumes zone: "s_dns_zone site = Some z" and run: "run_playbook w site edge now ips s = (r, t)"
    and lifted: "engaged_finding s (Some z) \<noteq> None" "engaged_finding t (Some z) = None"
  obtains u v where "beside_ticks u = beside_ticks s" "relax_loop w now (zone_sites u z) False u = (Inr True, v)"
proof -
  obtain x u where u: "detect w site now s = (x, u)" by fastforce
  have us: "beside_ticks u = beside_ticks s" using score_ticks(2) u by (rule frameD)
  have eu: "engaged_finding u (Some z) = engaged_finding s (Some z)" using queue_view_ok [OF ticks_queue [OF us]] by blast
  show thesis
  proof (cases x)
    case (Inl e)
    with run u zone eu lifted show thesis by (simp add: run_playbook_def bnd_def)
  next
    case (Inr hit)
    show thesis
    proof (cases hit)
      case (Some g)
      let ?ips = "case ips of Some xs \<Rightarrow> xs | None \<Rightarrow> sg_ips g"
      have "t = snd (engage w z edge ?ips u)"
        using run zone by (auto simp: run_playbook_def bnd_def u Inr Some ret_def split: prod.splits sum.splits)
      then have "queue_view t = queue_view u" using engage_existing [of u z w edge ?ips] eu lifted(1) by simp
      then show thesis using queue_view_ok eu lifted by metis
    next
      case None
      obtain row where row: "engaged_finding u (Some z) = Some row" using eu lifted(1) by auto
      obtain y v where y: "relax_loop w now (zone_sites u z) False u = (y, v)" by fastforce
      have vu: "beside_ticks v = beside_ticks u" using loop_ticks y by (rule frameD)
      have "engaged_finding v (Some z) = engaged_finding s (Some z)"
        using queue_view_ok [OF ticks_queue [OF vu]] eu by metis
      moreover have "(r, t) = (case y of Inl e \<Rightarrow> (Inl e, v) | Inr lift \<Rightarrow> (if lift then relax w z edge else ret (Some row)) v)"
        using run zone row y by (simp add: run_playbook_def bnd_def u Inr None gets_def should_relax_zone_def split: sum.split)
      ultimately have "y = Inr True" using lifted by (cases y) (auto simp: ret_def split: if_splits)
      with us y show thesis by (intro that) auto
    qed
  qed
qed


section \<open>Properties\<close>

text \<open>
  C27: An attack closes its zone. When the detector trips for a site and the playbook returns, the zone is engaged: the scale-out
  gate refuses every site of the zone, with an edge client or without one, whether the finding is new, reopened or already
  there, and whatever else the alert engine filed, delivered or resolved while it announced the finding.
\<close>

theorem tripped_zone_is_closed:
  assumes "stream_wired s" "findings_wf s" "s_dns_zone site = Some z" "detect w site now s = (Inr (Some g), u)"
    and run: "run_playbook w site edge now ips s = (Inr r, t)" and "s_dns_zone other = Some z"
  shows "engaged_finding t (Some z) \<noteq> None \<and> refuse_if_attack t other \<noteq> None"
proof -
  have us: "beside_ticks u = beside_ticks s" using score_ticks(2) assms(4) by (rule frameD)
  then have ok: "stream_wired u" "findings_wf u" using queue_view_ok [OF ticks_queue [OF us]] assms(1,2) by simp_all
  obtain row where "engage w z edge (case ips of Some xs \<Rightarrow> xs | None \<Rightarrow> sg_ips g) u = (Inr row, t)"
    using run assms(3,4) by (auto simp: run_playbook_def bnd_def [of "detect w site now"] fst_bnd_Inr ret_def)
  from engage_live [OF this ok] show ?thesis using assms(6) by (auto simp: refuse_if_attack_def)
qed

text \<open>
  Relaxed only when the whole zone is calm. The playbook resolves the finding of an engaged zone only if every site of
  the zone, at the instants it was scored, either had too few samples or scored below the relax threshold, and at least one
  site had enough samples: a calm site does not lift the protection while another one of its zone is still hot.
\<close>

theorem lifted_only_when_calm:
  assumes "s_dns_zone site = Some z" "run_playbook w site edge now ips s = (r, t)"
    and "engaged_finding s (Some z) \<noteq> None" "engaged_finding t (Some z) = None"
  shows "list_all (calm_site w now s) (zone_sites s z) \<and> list_ex (measured w now s) (zone_sites s z)"
proof -
  obtain u v where u: "beside_ticks u = beside_ticks s" "relax_loop w now (zone_sites u z) False u = (Inr True, v)"
    using lifted_relaxed [OF assms] .
  from relax_loop_calm [OF u(2)] show ?thesis
    by (simp add: ticks_sites [OF u(1)] calm_site_ticks [OF u(1)] list_all_iff list_ex_iff)
qed

text \<open>
  The comparison without roots. On a baseline that varies, the exact comparison by which the detector decides is the
  comparison of the threshold with the z-score, the distance of the latest minute from the mean of the baseline in units of its
  population standard deviation.
\<close>

theorem z_score_comparison:
  assumes "k > 0" "length baseline > 1" "pvariance baseline \<noteq> 0"
  shows "z_at_least k baseline latest =
    (real_of_rat k \<le> (real_of_int latest - real_of_rat (mean baseline)) / sqrt (real_of_rat (pvariance baseline)))"
  using z_at_least_real [OF assms] by blast


text \<open>A zone with one site whose eleven minutes are level, but for the last one.\<close>

definition hot_zone :: dns_zone where
  "hot_zone = \<lparr>dz_pk = 3, dz_account = \<lparr>a_pk = 1, a_workspace = 2, a_provider = Cloudflare, a_label = [], a_dns_token_ref = [],
     a_edge_token_ref = [], a_origin_ca_key_ref = []\<rparr>, dz_provider = [], dz_name = ''a'', dz_provider_zone_id = [],
     dz_purpose = PurposeProd, dz_proxied_default = False\<rparr>"

definition hot_site :: site where
  "hot_site = (partner_site_of 1 ''a'')\<lparr>s_dns_zone := Some hot_zone\<rparr>"

definition engaged_row :: finding_row where
  "engaged_row = down_row\<lparr>f_workspace := 2, f_state := Open, f_fingerprint := attack_fingerprint hot_zone\<rparr>"

definition hot_hub :: "int \<Rightarrow> hub" where
  "hot_hub latest = empty_hub\<lparr>sites := [hot_site], findings := [engaged_row],
     traffic_stats := map (\<lambda>(n, k). \<lparr>tr_site = 1, tr_bucket_start = minutes n, tr_granularity = ByMinute, tr_requests = k, tr_bytes = 0,
       tr_status_counts = [], tr_sampled = False\<rparr>)
       [(0, 40), (1, 40), (2, 40), (3, 40), (4, 40), (5, 40), (6, 40), (7, 40), (8, 40), (9, 40), (10, latest)]\<rparr>"

lemma hot_fields [simp]:
  "sites (hot_hub k) = [hot_site]" "findings (hot_hub k) = [engaged_row]" "stream_wired (hot_hub k)"
  "s_dns_zone hot_site = Some hot_zone" "s_pk hot_site = 1" "s_primary_target hot_site = None" "dz_pk hot_zone = 3"
  "a_workspace (dz_account hot_zone) = 2"
  "f_pk engaged_row = 1" "f_workspace engaged_row = 2" "f_state engaged_row = Open" "f_fingerprint engaged_row = attack_fingerprint hot_zone"
  by (simp_all add: hot_hub_def hot_site_def partner_site_of_def hot_zone_def engaged_row_def down_row_def)

lemma hot_engaged: "findings t = [engaged_row] \<Longrightarrow> engaged_finding t (Some hot_zone) = Some engaged_row"
  by (simp add: engaged_finding_def live_finding_def finding_at_def finding_key_def)

lemma hot_minutes: "map tr_requests (minute_rows (hot_hub k) 1 (minutes 10)) = replicate 10 40 @ [k]"
  by (simp add: minute_rows_def hot_hub_def WINDOW_MINUTES_def time_defs numeral_eq_Suc)

lemma hot_score:
  "score_site w hot_site (Some (minutes 10)) (hot_hub k) = (Inr (Some \<lparr>sg_baseline = replicate 10 40, sg_requests = k, sg_ips = []\<rparr>), hot_hub k)"
proof -
  have "minute_of (minutes 10) = minutes 10" by (simp add: minute_of_def time_defs)
  moreover have "map tr_requests (minute_rows (hot_hub k) (s_pk hot_site) (minutes 10)) = replicate 10 40 @ [k]"
    by (simp only: hot_fields(5) hot_minutes)
  ultimately show ?thesis
    by (simp add: score_site_def the_now_def bnd_gets ret_def bnd_def gets_def MIN_SAMPLES_def ips_of_def del: replicate.simps hot_fields(5) length_map
        flip: length_map [of tr_requests])
qed

lemma hot_level: "sg_z_at_least c \<lparr>sg_baseline = replicate 10 40, sg_requests = k, sg_ips = []\<rparr> = (k > 40)"
  by (simp add: sg_z_at_least_def z_at_least_def mean_def pvariance_def Let_def sum_list_replicate del: replicate.simps)

lemma hot_detect: "detect w hot_site (Some (minutes 10)) (hot_hub k) =
    (Inr (if k > 40 then Some \<lparr>sg_baseline = replicate 10 40, sg_requests = k, sg_ips = []\<rparr> else None), hot_hub k)"
  by (simp add: detect_def bnd_def hot_score hot_level ret_def MIN_REQUESTS_def)

theorem tripped_zone_is_closed_witness:
  "\<exists>r t. run_playbook calm_world hot_site None (Some (minutes 10)) None (hot_hub 400) = (Inr r, t) \<and> refuse_if_attack t hot_site \<noteq> None"
proof -
  have wf: "findings_wf (hot_hub 400)" by (simp add: findings_wf_def)
  have "run_playbook calm_world hot_site None (Some (minutes 10)) None (hot_hub 400) = (Inr (Some engaged_row), hot_hub 400)"
    by (simp add: run_playbook_def bnd_def [of "detect _ _ _"] hot_detect engage_def hot_engaged bnd_gets andThen_def ret_def bnd_def gets_def)
  with tripped_zone_is_closed [OF _ wf _ _ this, of hot_zone _ _ hot_site] show ?thesis by (auto simp: hot_detect)
qed

lemma hot_relax:
  "\<exists>row t. run_playbook calm_world hot_site None (Some (minutes 10)) None (hot_hub 40) = (Inr (Some row), t) \<and> engaged_finding t (Some hot_zone) = None"
proof -
  let ?row = "engaged_row\<lparr>f_state := Resolved\<rparr>"
  let ?s = "(hot_hub 40)\<lparr>findings := [?row]\<rparr>"
  have "Resolved \<in> set (allowed (f_state engaged_row))" by simp
  from transition_ok [OF _ this, of "hot_hub 40" calm_world] obtain t where
    t: "resolve calm_world engaged_row None SrcSystem (hot_hub 40) = (Inr ?row, t)" "announced 1 ?s t"
    unfolding resolve_def by (fastforce simp: upd_rows_def)
  have zone: "zone_sites (hot_hub 40) hot_zone = [hot_site]" by (simp add: zone_sites_def)
  have "run_playbook calm_world hot_site None (Some (minutes 10)) None (hot_hub 40) = (Inr (Some ?row), t)"
    by (simp add: run_playbook_def bnd_def hot_detect gets_def hot_engaged should_relax_zone_def zone hot_score hot_level ret_def relax_def andThen_def t(1))
  moreover have "findings t = [?row]" using announced_fields [OF t(2)] by simp
  then have "engaged_finding t (Some hot_zone) = None" by (simp add: engaged_finding_def live_finding_def finding_at_def finding_key_def)
  ultimately show ?thesis by blast
qed

theorem lifted_only_when_calm_witness:
  "measured calm_world (Some (minutes 10)) (hot_hub 40) hot_site \<and> calm_site calm_world (Some (minutes 10)) (hot_hub 40) hot_site"
proof -
  obtain row t where "run_playbook calm_world hot_site None (Some (minutes 10)) None (hot_hub 40) = (Inr (Some row), t)"
    "engaged_finding t (Some hot_zone) = None" using hot_relax by blast
  from lifted_only_when_calm [OF _ this(1) _ this(2)] show ?thesis by (simp add: hot_engaged zone_sites_def)
qed

theorem z_score_comparison_witness:
  "z_at_least 3 [1, 3] 5 = (real_of_rat 3 \<le> (real_of_int 5 - real_of_rat (mean [1, 3])) / sqrt (real_of_rat (pvariance [1, 3])))"
proof -
  have "pvariance [1, 3] = 1" by (simp add: pvariance_def mean_def)
  with z_score_comparison [of 3 "[1, 3]" 5] show ?thesis by simp
qed

end
