(* ===== verification/Vault.thy ===== *)
theory Vault
  imports Steps Rbac
begin

text \<open>
  \<open>vault/service.py\<close>, \<open>vault/kek.py\<close>, \<open>vault/models.py\<close>, \<open>vault/backup.py\<close> and the client of \<open>providers/kms.py\<close>: envelope
  encryption of secrets. A secret is encrypted under a fresh data key, the data key is wrapped by one of three key backends, and
  the row remembers which. Bytes are texts. AES-GCM, the random source, the files of the hub, the key service and the settings are
  the fields of \<open>vault_env\<close>; a decryption that fails the authentication is \<open>None\<close>. Dashes of messages are hyphens.
\<close>

record vault_env =
  va_encrypt :: "string \<Rightarrow> string \<Rightarrow> string \<Rightarrow> string \<Rightarrow> string" \<comment> \<open>key, nonce, plaintext, associated data\<close>
  va_decrypt :: "string \<Rightarrow> string \<Rightarrow> string \<Rightarrow> string \<Rightarrow> string option"
  va_urandom :: "nat \<Rightarrow> nat \<Rightarrow> string"
  va_file :: "string \<Rightarrow> (nat \<times> string) option" \<comment> \<open>mode and content\<close>
  va_kms_encrypt :: "string \<Rightarrow> string \<Rightarrow> string option"
  va_kms_decrypt :: "string \<Rightarrow> string \<Rightarrow> string option"
  va_keyfile :: "string option"
  va_require_mode :: bool
  va_allow_fake :: bool
  va_backend :: string
  va_kms_key_id :: string

definition urandom :: "vault_env \<Rightarrow> nat \<Rightarrow> string act" where
  "urandom v n = (\<lambda>s. (Inr (va_urandom v (ticks s) n), s\<lparr>ticks := Suc (ticks s)\<rparr>))"


section \<open>Key backends\<close>

definition KEK_NONCE_BYTES :: nat where "KEK_NONCE_BYTES = 12"

datatype kek = LocalKeyfileKEK string string bool \<comment> \<open>path, kek id, whether the mode is checked\<close>
  | FakeKEK string
  | KmsKEK string string \<comment> \<open>key of the service, kek id\<close>

fun kek_id :: "kek \<Rightarrow> string" where
  "kek_id (LocalKeyfileKEK _ i _) = i"
| "kek_id (FakeKEK i) = i"
| "kek_id (KmsKEK _ i) = i"

fun str_oct :: "nat \<Rightarrow> string" where
  "str_oct n = (if n < 8 then [digit n] else str_oct (n div 8) @ [digit (n mod 8)])"

declare str_oct.simps [simp del]

text \<open>\<open>LocalKeyfileKEK.check\<close> and \<open>_load\<close>: mode 0400 is 256.\<close>

definition keyfile_key :: "vault_env \<Rightarrow> string \<Rightarrow> bool \<Rightarrow> exn + string" where
  "keyfile_key v path require_mode = (case va_file v path of
     None \<Rightarrow> Inl (KEKError (''vault keyfile missing: '' @ path @ ''. Generate one with `python manage.py vault_init_keyfile`.''))
   | Some (mode, raw) \<Rightarrow>
       if require_mode \<and> mode \<noteq> 256 then Inl (KEKError (''vault keyfile '' @ path @ '' has mode '' @ str_oct mode @ '', expected 400''))
       else if length raw \<noteq> 32
       then Inl (KEKError (''vault keyfile '' @ path @ '' is '' @ str_nat (length raw) @ '' bytes, expected exactly 32''))
       else Inr raw)"

definition FAKE_KEY :: string where
  "FAKE_KEY = map char_of [0::nat..<32]"

text \<open>\<open>KmsClient(key_id)\<close>: the constructor strips the id and refuses an empty one.\<close>

definition kms_client :: "string \<Rightarrow> exn + string" where
  "kms_client key = (if strip key = [] then Inl (OtherError ''KmsError'') else Inr (strip key))"

definition WRAP_AAD :: string where "WRAP_AAD = ''kek-wrap''"

definition gcm_wrap :: "vault_env \<Rightarrow> string \<Rightarrow> string \<Rightarrow> string \<Rightarrow> string" where
  "gcm_wrap v key nonce dek = nonce @ va_encrypt v key nonce dek WRAP_AAD"

definition gcm_unwrap :: "vault_env \<Rightarrow> string \<Rightarrow> string \<Rightarrow> string option" where
  "gcm_unwrap v key wrapped = va_decrypt v key (take KEK_NONCE_BYTES wrapped) (drop KEK_NONCE_BYTES wrapped) WRAP_AAD"

fun kek_wrap :: "vault_env \<Rightarrow> kek \<Rightarrow> string \<Rightarrow> string act" where
  "kek_wrap v (LocalKeyfileKEK path _ m) dek = bnd (urandom v KEK_NONCE_BYTES) (\<lambda>nonce.
     bnd (of_sum (keyfile_key v path m)) (\<lambda>key. ret (gcm_wrap v key nonce dek)))"
| "kek_wrap v (FakeKEK _) dek = bnd (urandom v KEK_NONCE_BYTES) (\<lambda>nonce. ret (gcm_wrap v FAKE_KEY nonce dek))"
| "kek_wrap v (KmsKEK key _) dek = (case va_kms_encrypt v key dek of None \<Rightarrow> throw (KEKError ''DEK wrap failed'') | Some c \<Rightarrow> ret c)"

definition UNWRAP_FAILED :: string where "UNWRAP_FAILED = ''DEK unwrap failed - wrong KEK or tampered row''"

definition or_unwrap_error :: "string option \<Rightarrow> exn + string" where
  "or_unwrap_error x = (case x of None \<Rightarrow> Inl (KEKError UNWRAP_FAILED) | Some dek \<Rightarrow> Inr dek)"

text \<open>The keyfile is loaded inside the guarded block, so its errors are reported as a failed unwrap too.\<close>

fun kek_unwrap :: "vault_env \<Rightarrow> kek \<Rightarrow> string \<Rightarrow> exn + string" where
  "kek_unwrap v (LocalKeyfileKEK path _ m) wrapped = or_unwrap_error (case keyfile_key v path m of
     Inl _ \<Rightarrow> None | Inr key \<Rightarrow> gcm_unwrap v key wrapped)"
| "kek_unwrap v (FakeKEK _) wrapped = (case gcm_unwrap v FAKE_KEY wrapped of
     None \<Rightarrow> Inl (KEKError ''DEK unwrap failed'') | Some dek \<Rightarrow> Inr dek)"
| "kek_unwrap v (KmsKEK key _) wrapped = or_unwrap_error (va_kms_decrypt v key wrapped)"

definition fake_kek :: "vault_env \<Rightarrow> string \<Rightarrow> exn + kek" where
  "fake_kek v i = (if va_allow_fake v then Inr (FakeKEK i)
     else Inl (KEKError ''FakeKEK requires VAULT_ALLOW_FAKE_KEK=True (dev/test settings only)''))"

definition local_kek :: "vault_env \<Rightarrow> string \<Rightarrow> exn + kek" where
  "local_kek v i = (case va_keyfile v of
     None \<Rightarrow> Inl (KEKError ''VAULT_KEYFILE is not set'')
   | Some path \<Rightarrow> if path = [] then Inl (KEKError ''VAULT_KEYFILE is not set'') else Inr (LocalKeyfileKEK path i (va_require_mode v)))"

definition get_backend :: "vault_env \<Rightarrow> exn + kek" where
  "get_backend v = (if va_backend v = ''fake'' then fake_kek v ''fake-1''
     else if va_backend v = ''local'' then local_kek v ''local-1''
     else if va_backend v = ''kms'' then
       (let key = strip (va_kms_key_id v) in
        if key = [] then Inl (KEKError ''VAULT_KEK_BACKEND=kms refuses unless VAULT_KMS_KEY_ID is set'')
        else case kms_client key of Inl e \<Rightarrow> Inl e | Inr k \<Rightarrow> Inr (KmsKEK k (''kms:'' @ strip k)))
     else Inl (KEKError (''unknown VAULT_KEK_BACKEND: '' @ repr_str (va_backend v))))"

text \<open>The backend by the prefix of a stored id.\<close>

definition named_backend :: "vault_env \<Rightarrow> string \<Rightarrow> exn + kek" where
  "named_backend v i = (if prefix ''kms:'' i then (case kms_client (drop 4 i) of Inl e \<Rightarrow> Inl e | Inr k \<Rightarrow> Inr (KmsKEK k i))
     else if prefix ''local'' i then local_kek v i
     else if prefix ''fake'' i then fake_kek v i
     else Inl (KEKError (''no KEK backend for kek_id '' @ repr_str i)))"

definition backend_for_stored_kek_id :: "vault_env \<Rightarrow> string \<Rightarrow> exn + kek" where
  "backend_for_stored_kek_id v i = (case get_backend v of
     Inl e \<Rightarrow> Inl e | Inr current \<Rightarrow> if i = kek_id current then Inr current else named_backend v i)"


section \<open>The service\<close>

definition DEK_BYTES :: nat where "DEK_BYTES = 32"
definition NONCE_BYTES :: nat where "NONCE_BYTES = 12"

fun secret_kind_text :: "secret_kind \<Rightarrow> string" where
  "secret_kind_text EnvBundle = ''env_bundle''"
| "secret_kind_text SshPrivateKey = ''ssh_private_key''"
| "secret_kind_text TlsPrivateKey = ''tls_private_key''"
| "secret_kind_text CloudCredential = ''cloud_credential''"
| "secret_kind_text ApiToken = ''api_token''"
| "secret_kind_text DatabaseUrl = ''database_url''"
| "secret_kind_text BackupKey = ''backup_key''"
| "secret_kind_text WebhookSecret = ''webhook_secret''"

definition build_aad :: "secret_kind \<Rightarrow> string \<Rightarrow> string \<Rightarrow> string" where
  "build_aad kind owner_type owner_id = secret_kind_text kind @ ''|'' @ owner_type @ ''|'' @ owner_id"

definition aad :: "secret \<Rightarrow> string" where
  "aad r = build_aad (se_kind r) (se_owner_type r) (se_owner_id r)"

definition cache_key :: "secret \<Rightarrow> nat \<times> string \<times> string" where
  "cache_key r = (se_pk r, se_kek_id r, se_wrapped_dek r)"

definition reset_dek_cache :: "unit act" where
  "reset_dek_cache = modify (\<lambda>s. s\<lparr>dek_cache := []\<rparr>)"

text \<open>\<open>get_backend()\<close>, and the stored one when the row was wrapped by another.\<close>

definition backend_of :: "vault_env \<Rightarrow> secret \<Rightarrow> exn + kek" where
  "backend_of v r = (case get_backend v of Inl e \<Rightarrow> Inl e
     | Inr b \<Rightarrow> if se_kek_id r \<noteq> kek_id b then backend_for_stored_kek_id v (se_kek_id r) else Inr b)"

definition unwrap_dek :: "vault_env \<Rightarrow> secret \<Rightarrow> string act" where
  "unwrap_dek v r = bnd (gets (\<lambda>s. map_of (dek_cache s) (cache_key r))) (\<lambda>hit. case hit of
     Some dek \<Rightarrow> ret dek
   | None \<Rightarrow> bnd (of_sum (backend_of v r)) (\<lambda>b. bnd (of_sum (kek_unwrap v b (se_wrapped_dek r))) (\<lambda>dek.
       andThen (modify (\<lambda>s. s\<lparr>dek_cache := (cache_key r, dek) # dek_cache s\<rparr>)) (ret dek))))"

definition secret_fingerprint :: "world \<Rightarrow> string \<Rightarrow> string" where
  "secret_fingerprint w plaintext = take 16 (w_sha256 w plaintext)"

definition workspace_from_owner :: "hub \<Rightarrow> string \<Rightarrow> string \<Rightarrow> exn + nat option" where
  "workspace_from_owner s owner_type owner_id = (let raw = fst (partition_char (CHR '':'') owner_id) in
     if \<not> isdigit raw then Inr None
     else if \<not> list_all is_digit raw then Inl (ValueError ''invalid literal for int()'')
     else let pk = nat_of_digits raw in
       if owner_type = ''site'' then Inr (map_option s_workspace (site_by_pk s pk))
       else if owner_type = ''project'' then Inr (map_option pj_workspace (find (\<lambda>p. pj_pk p = pk) (projects s)))
       else if owner_type = ''target'' then Inr (map_option (\<lambda>t. z_workspace (t_zone t)) (target_by_pk s pk))
       else if owner_type = ''partner'' then Inr (map_option p_workspace (find (\<lambda>p. p_pk p = pk) (partners s)))
       else Inr None)"

text \<open>\<open>_audit\<close>. A row without owner type owns no workspace, so \<open>audit\<close> refuses it.\<close>

definition secret_detail :: "secret \<Rightarrow> (string \<times> json) list" where
  "secret_detail r = [(''kind'', JStr (secret_kind_text (se_kind r))), (''owner_type'', JStr (se_owner_type r)),
     (''owner_id'', JStr (se_owner_id r)), (''fingerprint'', JStr (se_fingerprint r))]"

definition secret_owner :: "hub \<Rightarrow> secret \<Rightarrow> exn + nat option" where
  "secret_owner s r = (if se_owner_type r = [] then Inl (TypeError ''audit() requires workspace or an object that owns one'')
     else if se_owner_id r = [] then Inr None else workspace_from_owner s (se_owner_type r) (se_owner_id r))"

definition vault_audit :: "world \<Rightarrow> string \<Rightarrow> secret \<Rightarrow> nat option \<Rightarrow> audit_severity \<Rightarrow> (string \<times> json) list \<Rightarrow> unit act" where
  "vault_audit w action r actor severity detail = bnd (gets (\<lambda>s. secret_owner s r)) (\<lambda>owner. bnd (of_sum owner) (\<lambda>ws.
     bnd (audit w ((audit_args action (Some (OOwned ''Secret'' (se_pk r) ws)))\<lparr>ac_actor := actor, ac_source := SrcSystem,
       ac_severity := severity, ac_detail := secret_detail r @ detail\<rparr>)) (\<lambda>_. ret ())))"

definition create_secret :: "world \<Rightarrow> (nat \<Rightarrow> time \<Rightarrow> secret) \<Rightarrow> secret act" where
  "create_secret w row = bnd (timezone_now w) (\<lambda>now. (\<lambda>s.
     let r = row (next_pk (map se_pk (secrets s))) now in (Inr r, s\<lparr>secrets := secrets s @ [r]\<rparr>)))"

definition vault_put :: "world \<Rightarrow> vault_env \<Rightarrow> secret_kind \<Rightarrow> string \<Rightarrow> string \<Rightarrow> string \<Rightarrow> nat option \<Rightarrow> secret act" where
  "vault_put w v kind owner_type owner_id plaintext actor =
     bnd (of_sum (get_backend v)) (\<lambda>backend.
     bnd (urandom v DEK_BYTES) (\<lambda>dek.
     bnd (urandom v NONCE_BYTES) (\<lambda>nonce.
     let ciphertext = va_encrypt v dek nonce plaintext (build_aad kind owner_type owner_id) in
     bnd (kek_wrap v backend dek) (\<lambda>wrapped.
     bnd (create_secret w (\<lambda>pk now. \<lparr>se_pk = pk, se_kind = kind, se_owner_type = owner_type, se_owner_id = owner_id,
       se_ciphertext = ciphertext, se_wrapped_dek = wrapped, se_nonce = nonce, se_kek_id = kek_id backend,
       se_fingerprint = secret_fingerprint w plaintext, se_created_at = now, se_created_by = actor, se_last_used_at = None\<rparr>)) (\<lambda>r.
     andThen (vault_audit w ''vault-secret-created'' r actor SevInfo []) (ret r))))))"

definition decrypt_error :: "secret \<Rightarrow> exn \<Rightarrow> exn" where
  "decrypt_error r e = VaultDecryptError (case e of
     KEKError _ \<Rightarrow> ''could not unwrap DEK for secret '' @ str_nat (se_pk r)
   | _ \<Rightarrow> ''authentication failed decrypting secret '' @ str_nat (se_pk r) @ '' - the row may have been tampered with'')"

definition open_secret :: "vault_env \<Rightarrow> secret \<Rightarrow> string act" where
  "open_secret v r = bnd (unwrap_dek v r) (\<lambda>dek. case va_decrypt v dek (se_nonce r) (se_ciphertext r) (aad r) of
     None \<Rightarrow> throw (OtherError ''InvalidTag'') | Some plaintext \<Rightarrow> ret plaintext)"

definition vault_get :: "world \<Rightarrow> vault_env \<Rightarrow> secret \<Rightarrow> nat option \<Rightarrow> string \<Rightarrow> string act" where
  "vault_get w v r actor reason =
     bnd (try_except (open_secret v r) (\<lambda>e. andThen (vault_audit w ''vault-secret-decrypt-failed'' r actor SevSecurity [])
       (throw (decrypt_error r e)))) (\<lambda>plaintext.
     bnd (timezone_now w) (\<lambda>now.
     andThen (modify (\<lambda>s. s\<lparr>secrets := upd_rows (\<lambda>x. se_pk x = se_pk r) (\<lambda>x. x\<lparr>se_last_used_at := Some now\<rparr>) (secrets s)\<rparr>))
     (andThen (vault_audit w ''vault-secret-used'' r actor SevInfo [(''reason'', JStr reason)])
     (ret plaintext))))"

definition recache :: "secret \<Rightarrow> string \<Rightarrow> unit act" where
  "recache r dek = modify (\<lambda>s. s\<lparr>dek_cache := (cache_key r, dek) # filter (\<lambda>e. fst (fst e) \<noteq> se_pk r) (dek_cache s)\<rparr>)"

definition rewrap :: "world \<Rightarrow> vault_env \<Rightarrow> secret \<Rightarrow> nat option \<Rightarrow> secret act" where
  "rewrap w v r actor =
     bnd (of_sum (get_backend v)) (\<lambda>backend.
     bnd (try_except (unwrap_dek v r) (\<lambda>e. case e of
       KEKError _ \<Rightarrow> throw (VaultDecryptError (''cannot rewrap secret '' @ str_nat (se_pk r))) | _ \<Rightarrow> throw e)) (\<lambda>dek.
     bnd (kek_wrap v backend dek) (\<lambda>wrapped.
     let r' = r\<lparr>se_wrapped_dek := wrapped, se_kek_id := kek_id backend\<rparr> in
     andThen (modify (\<lambda>s. s\<lparr>secrets := upd_rows (\<lambda>x. se_pk x = se_pk r)
       (\<lambda>x. x\<lparr>se_wrapped_dek := wrapped, se_kek_id := kek_id backend\<rparr>) (secrets s)\<rparr>))
     (andThen (recache r' dek)
     (andThen (vault_audit w ''vault-secret-rewrapped'' r' actor SevInfo
        [(''from_kek'', JStr (se_kek_id r)), (''to_kek'', JStr (kek_id backend))])
     (ret r'))))))"

text \<open>The newest secret of an owner, \<open>order_by("-created_at", "-pk").first()\<close>.\<close>

definition newest_secret :: "hub \<Rightarrow> secret_kind \<Rightarrow> string \<Rightarrow> string \<Rightarrow> secret option" where
  "newest_secret s kind owner_type owner_id = (case filter (\<lambda>r. se_kind r = kind \<and> se_owner_type r = owner_type \<and>
       se_owner_id r = owner_id) (secrets s) of
     [] \<Rightarrow> None
   | rows \<Rightarrow> Some (last (sort_key se_created_at (sort_key se_pk rows))))"


section \<open>Backups (\<open>vault/backup.py\<close>)\<close>

definition PREFIX :: string where "PREFIX = ''age-stub:''"
definition BACKUP_KEY_BYTES :: nat where "BACKUP_KEY_BYTES = 32"

definition backup_seal :: "vault_env \<Rightarrow> string \<Rightarrow> string \<Rightarrow> string \<Rightarrow> string act" where
  "backup_seal v plaintext key a = (if length key \<noteq> BACKUP_KEY_BYTES then throw (ValueError ''backup key must be 32 bytes'')
     else bnd (urandom v NONCE_BYTES) (\<lambda>nonce. ret (PREFIX @ nonce @ va_encrypt v key nonce plaintext a)))"

definition backup_unseal :: "vault_env \<Rightarrow> string \<Rightarrow> string \<Rightarrow> string \<Rightarrow> exn + string" where
  "backup_unseal v sealed key a = (if length key \<noteq> BACKUP_KEY_BYTES then Inl (ValueError ''backup key must be 32 bytes'')
     else if \<not> prefix PREFIX sealed then Inl (ValueError ''not a sealed dump'')
     else let rest = drop (length PREFIX) sealed in
       case va_decrypt v key (take NONCE_BYTES rest) (drop NONCE_BYTES rest) a of
         None \<Rightarrow> Inl (OtherError ''InvalidTag'') | Some p \<Rightarrow> Inr p)"

end
