(* ===== verification/Vault_Facts.thy ===== *)
theory Vault_Facts
  imports Vault
begin

text \<open>
  What the vault promises. The laws of the ciphers are the named hypotheses \<open>sound_crypto\<close> (decryption inverts encryption,
  nonces have the requested length) and \<open>binds\<close> (a ciphertext authenticates under one associated data only). A secret is described by
  \<open>plain\<close>, the text its row stands for without any cache; reads return it, moving to another key backend keeps it, and a row
  moved to another owner has none.
\<close>

section \<open>Backends\<close>

definition sound_crypto :: "vault_env \<Rightarrow> bool" where
  "sound_crypto v = ((\<forall>k n p a. va_decrypt v k n (va_encrypt v k n p a) a = Some p) \<and> (\<forall>t n. length (va_urandom v t n) = n) \<and>
     (\<forall>k p c. va_kms_encrypt v k p = Some c \<longrightarrow> va_kms_decrypt v k c = Some p))"

definition binds :: "vault_env \<Rightarrow> bool" where
  "binds v = (\<forall>k n c a a' p p'. va_decrypt v k n c a = Some p \<longrightarrow> va_decrypt v k n c a' = Some p' \<longrightarrow> a' = a)"

text \<open>Two configurations of one hub: they differ in the configured backend only, not in the keys within reach.\<close>

definition same_keys :: "vault_env \<Rightarrow> vault_env \<Rightarrow> bool" where
  "same_keys v u = (v\<lparr>va_backend := [], va_kms_key_id := []\<rparr> = u\<lparr>va_backend := [], va_kms_key_id := []\<rparr>)"

lemma same_keys_fields:
  assumes "same_keys v u"
  shows "va_encrypt v = va_encrypt u" "va_decrypt v = va_decrypt u" "va_file v = va_file u" "va_keyfile v = va_keyfile u"
    "va_require_mode v = va_require_mode u" "va_allow_fake v = va_allow_fake u" "va_kms_encrypt v = va_kms_encrypt u"
    "va_kms_decrypt v = va_kms_decrypt u" "va_urandom v = va_urandom u"
  using assms by (cases v, cases u, simp add: same_keys_def)+

lemma same_keys_unwrap:
  assumes "same_keys v u"
  shows "named_backend v = named_backend u" "kek_unwrap v = kek_unwrap u"
proof -
  note f = same_keys_fields [OF assms]
  show "named_backend v = named_backend u"
    unfolding named_backend_def [abs_def] local_kek_def fake_kek_def f ..
  show "kek_unwrap v = kek_unwrap u"
  proof (intro ext)
    fix k x
    show "kek_unwrap v k x = kek_unwrap u k x"
    proof (cases k)
      case (LocalKeyfileKEK path i m)
      show ?thesis unfolding LocalKeyfileKEK kek_unwrap.simps gcm_unwrap_def keyfile_key_def f ..
    qed (simp_all add: gcm_unwrap_def f)
  qed
qed

text \<open>The configured backend is the one its own id names.\<close>

lemma backend_named: "get_backend v = Inr b \<Longrightarrow> named_backend v (kek_id b) = Inr b"
  by (auto simp: get_backend_def named_backend_def fake_kek_def local_kek_def kms_client_def Let_def strip_idem
      split: if_splits option.splits sum.splits)

lemma stored_named: "get_backend v = Inr b \<Longrightarrow> backend_for_stored_kek_id v i = named_backend v i"
  using backend_named by (auto simp: backend_for_stored_kek_id_def)

lemma backend_of_named: "get_backend v = Inr b \<Longrightarrow> backend_of v r = named_backend v (se_kek_id r)"
  using backend_named by (auto simp: backend_of_def stored_named)

text \<open>What was wrapped can be unwrapped.\<close>

lemma wrap_unwrap:
  assumes "sound_crypto v" "kek_wrap v b dek s = (Inr wrapped, t)"
  shows "kek_unwrap v b wrapped = Inr dek"
proof -
  have gcm: "gcm_unwrap v key (gcm_wrap v key (va_urandom v n KEK_NONCE_BYTES) dek) = Some dek" for key n
    using assms(1) by (simp add: gcm_wrap_def gcm_unwrap_def sound_crypto_def)
  show ?thesis
  proof (cases b)
    case (LocalKeyfileKEK path i m)
    with assms(2) gcm show ?thesis
      by (auto simp: bnd_def urandom_def of_sum_def throw_def ret_def or_unwrap_error_def split: sum.splits)
  next
    case (FakeKEK i)
    with assms(2) gcm show ?thesis by (auto simp: bnd_def urandom_def ret_def or_unwrap_error_def)
  next
    case (KmsKEK key i)
    with assms show ?thesis
      by (auto simp: throw_def ret_def sound_crypto_def or_unwrap_error_def split: option.splits)
  qed
qed


section \<open>The text a row stands for\<close>

definition stored_dek :: "vault_env \<Rightarrow> string \<Rightarrow> string \<Rightarrow> exn + string" where
  "stored_dek v i wrapped = (case named_backend v i of Inl e \<Rightarrow> Inl e | Inr b \<Rightarrow> kek_unwrap v b wrapped)"

definition plain :: "vault_env \<Rightarrow> secret \<Rightarrow> string option" where
  "plain v r = (case stored_dek v (se_kek_id r) (se_wrapped_dek r) of
     Inl _ \<Rightarrow> None | Inr dek \<Rightarrow> va_decrypt v dek (se_nonce r) (se_ciphertext r) (aad r))"

lemma same_keys_plain:
  assumes "same_keys v u"
  shows "stored_dek v = stored_dek u" "plain v = plain u"
proof -
  show "stored_dek v = stored_dek u" unfolding stored_dek_def [abs_def] same_keys_unwrap [OF assms] ..
  then show "plain v = plain u" unfolding plain_def [abs_def] same_keys_fields(2) [OF assms] by simp
qed

definition cache_true :: "vault_env \<Rightarrow> hub \<Rightarrow> bool" where
  "cache_true v s = list_all (\<lambda>((pk, i, wrapped), dek). stored_dek v i wrapped = Inr dek) (dek_cache s)"

text \<open>What a program of the vault may change: the table of secrets, the cache and the journals.\<close>

definition beside_vault :: "hub \<Rightarrow> hub" where
  "beside_vault s = (beside_journal s)\<lparr>secrets := [], dek_cache := []\<rparr>"

lemma unwrap_dek_spec:
  assumes "cache_true v s" "get_backend v = Inr b" "unwrap_dek v r s = (x, t)"
  shows "x = stored_dek v (se_kek_id r) (se_wrapped_dek r)" "cache_true v t" "t\<lparr>dek_cache := []\<rparr> = s\<lparr>dek_cache := []\<rparr>"
proof -
  have eff: "(x, t) = (case map_of (dek_cache s) (cache_key r) of
      Some dek \<Rightarrow> (Inr dek, s)
    | None \<Rightarrow> (case stored_dek v (se_kek_id r) (se_wrapped_dek r) of
        Inl e \<Rightarrow> (Inl e, s)
      | Inr dek \<Rightarrow> (Inr dek, s\<lparr>dek_cache := (cache_key r, dek) # dek_cache s\<rparr>)))"
  proof (cases "map_of (dek_cache s) (cache_key r)")
    case None
    have "unwrap_dek v r s = (case stored_dek v (se_kek_id r) (se_wrapped_dek r) of
        Inl e \<Rightarrow> (Inl e, s) | Inr dek \<Rightarrow> (Inr dek, s\<lparr>dek_cache := (cache_key r, dek) # dek_cache s\<rparr>))"
    proof (cases "named_backend v (se_kek_id r)")
      case (Inr c)
      with None show ?thesis by (cases "kek_unwrap v c (se_wrapped_dek r)") (simp_all add: unwrap_dek_def backend_of_named [OF assms(2)]
          stored_dek_def bnd_def gets_def of_sum_def ret_def throw_def andThen_def modify_def)
    qed (use None in \<open>simp add: unwrap_dek_def backend_of_named [OF assms(2)] stored_dek_def bnd_def gets_def of_sum_def throw_def\<close>)
    with None assms(3) show ?thesis by simp
  next
    case (Some dek)
    then show ?thesis using assms(3) by (simp add: unwrap_dek_def bnd_gets ret_def)
  qed
  have hit: "stored_dek v (se_kek_id r) (se_wrapped_dek r) = Inr dek" if "map_of (dek_cache s) (cache_key r) = Some dek" for dek
    using assms(1) map_of_SomeD [OF that] by (auto simp: cache_true_def list_all_iff cache_key_def)
  show "x = stored_dek v (se_kek_id r) (se_wrapped_dek r)" "cache_true v t" "t\<lparr>dek_cache := []\<rparr> = s\<lparr>dek_cache := []\<rparr>"
    using eff hit assms(1) by (auto simp: cache_true_def cache_key_def split: option.splits sum.splits)
qed

lemma unwrap_dek_keeps:
  assumes "cache_true v s" "unwrap_dek v r s = (x, t)"
  shows "cache_true v t" "t\<lparr>dek_cache := []\<rparr> = s\<lparr>dek_cache := []\<rparr>" "x = Inr dek \<Longrightarrow> stored_dek v (se_kek_id r) (se_wrapped_dek r) = Inr dek"
proof -
  have "cache_true v t \<and> t\<lparr>dek_cache := []\<rparr> = s\<lparr>dek_cache := []\<rparr> \<and> (x = Inr dek \<longrightarrow> stored_dek v (se_kek_id r) (se_wrapped_dek r) = Inr dek)"
  proof (cases "get_backend v")
    case (Inl e)
    have "stored_dek v (se_kek_id r) (se_wrapped_dek r) = Inr d" if "map_of (dek_cache s) (cache_key r) = Some d" for d
      using assms(1) map_of_SomeD [OF that] by (auto simp: cache_true_def list_all_iff cache_key_def)
    with Inl assms show ?thesis
      by (cases "map_of (dek_cache s) (cache_key r)") (auto simp: unwrap_dek_def gets_def ret_def backend_of_def of_sum_def throw_def bnd_def)
  next
    case (Inr b)
    with unwrap_dek_spec [OF assms(1) this assms(2)] show ?thesis by simp
  qed
  then show "cache_true v t" "t\<lparr>dek_cache := []\<rparr> = s\<lparr>dek_cache := []\<rparr>" "x = Inr dek \<Longrightarrow> stored_dek v (se_kek_id r) (se_wrapped_dek r) = Inr dek"
    by blast+
qed

lemma open_secret_eq:
  "unwrap_dek v r s = (y, t) \<Longrightarrow> open_secret v r s = (case y of Inl e \<Rightarrow> Inl e
     | Inr dek \<Rightarrow> (case va_decrypt v dek (se_nonce r) (se_ciphertext r) (aad r) of None \<Rightarrow> Inl (OtherError ''InvalidTag'') | Some p \<Rightarrow> Inr p), t)"
  by (simp add: open_secret_def bnd_def throw_def ret_def split: sum.split option.split)

lemma open_secret_spec:
  assumes "cache_true v s" "get_backend v = Inr b"
  obtains x t where "open_secret v r s = (x, t)" "(case x of Inl _ \<Rightarrow> None | Inr p \<Rightarrow> Some p) = plain v r" "cache_true v t"
    "t\<lparr>dek_cache := []\<rparr> = s\<lparr>dek_cache := []\<rparr>"
proof -
  obtain y t where y: "unwrap_dek v r s = (y, t)" by fastforce
  note sp = unwrap_dek_spec [OF assms y]
  let ?x = "case y of Inl e \<Rightarrow> Inl e | Inr dek \<Rightarrow> (case va_decrypt v dek (se_nonce r) (se_ciphertext r) (aad r) of
    None \<Rightarrow> Inl (OtherError ''InvalidTag'') | Some p \<Rightarrow> Inr p)"
  have "open_secret v r s = (?x, t)" using y by (rule open_secret_eq)
  moreover have "(case ?x of Inl _ \<Rightarrow> None | Inr p \<Rightarrow> Some p) = plain v r"
    using sp(1) by (simp add: plain_def split: sum.split option.split)
  ultimately show thesis using sp(2,3) that by blast
qed


section \<open>Audit\<close>

lemma vault_audit_journal: "evolves (same beside_journal) (vault_audit w action r actor sev detail)"
  unfolding vault_audit_def of_sum_def by (intro frame.ev_rules audit_journal)

text \<open>Whether the audit call refuses depends on the owner columns of the row only.\<close>

definition auditable :: "secret \<Rightarrow> bool" where
  "auditable r = (se_owner_type r \<noteq> [] \<and> (let raw = fst (partition_char (CHR '':'') (se_owner_id r)) in isdigit raw \<longrightarrow> list_all is_digit raw))"

lemma secret_owner_ok: "auditable r \<longleftrightarrow> (\<exists>ws. secret_owner s r = Inr ws)"
  by (auto simp: auditable_def secret_owner_def workspace_from_owner_def Let_def isdigit_def partition_char_def)

lemma vault_audit_ok:
  assumes "auditable r"
  obtains e t where "vault_audit w action r actor sev detail s = (Inr (), t)" "audits t = audits s @ [e]"
    "ae_action e = action" "ae_object_type e = ''Secret''" "ae_object_id e = str_nat (se_pk r)" "ae_severity e = sev" "ae_actor e = actor"
    "beside_journal t = beside_journal s"
proof -
  from assms obtain ws where ws: "secret_owner s r = Inr ws" using secret_owner_ok by blast
  define c where "c = (audit_args action (Some (OOwned ''Secret'' (se_pk r) ws)))\<lparr>ac_actor := actor, ac_source := SrcSystem,
       ac_severity := sev, ac_detail := secret_detail r @ detail\<rparr>"
  have c: "ac_action c = action" "ac_obj c = Some (OOwned ''Secret'' (se_pk r) ws)" "ac_severity c = sev" "ac_actor c = actor"
    by (simp_all add: c_def audit_args_def)
  have "\<exists>k. audit w c s = write_event w c k s"
    by (auto simp: audit_def bnd_def gets_def resolve_workspace_def owned_def c split: option.split)
  then obtain k where k: "audit w c s = write_event w c k s" ..
  obtain h u where h: "chain_head k s = (Inr h, u)" "audits u = audits s" using chain_head_eff [of k s] by blast
  obtain e t where t: "audit w c s = (Inr e, t)" "audits t = audits s @ [e]" "ae_action e = action" "ae_object_type e = ''Secret''"
    "ae_object_id e = str_nat (se_pk r)" "ae_severity e = sev" "ae_actor e = actor"
    using h by (simp add: k write_event_def bnd_def gets_def timezone_now_def andThen_def modify_def ret_def Let_def c)
  have "vault_audit w action r actor sev detail s = (Inr (), t)"
    using t(1) by (simp add: vault_audit_def bnd_def gets_def ws of_sum_def ret_def c_def)
  with t frameD [OF audit_journal t(1)] that show thesis by blast
qed

lemma vault_audit_refused: "\<not> auditable r \<Longrightarrow> \<exists>e. vault_audit w action r actor sev detail s = (Inl e, s)"
  using secret_owner_ok [of r s] by (auto simp: vault_audit_def bnd_def gets_def of_sum_def throw_def split: sum.split)

lemma vault_audit_Inr: "vault_audit w action r actor sev detail s = (Inr x, t) \<Longrightarrow> auditable r"
  using vault_audit_refused [of r w action actor sev detail s] by (cases "auditable r") auto

lemma decrypt_error_is: "\<exists>m. decrypt_error r e = VaultDecryptError m"
  by (simp add: decrypt_error_def)

lemma beside_journal_vault:
  assumes "beside_journal t = beside_journal s"
  shows "secrets t = secrets s" "dek_cache t = dek_cache s" "beside_vault t = beside_vault s"
  using arg_cong [OF assms, of secrets] arg_cong [OF assms, of dek_cache] assms by (simp_all add: beside_journal_def beside_vault_def)


section \<open>Operations\<close>

lemma urandom_vault: "evolves (same (\<lambda>s. s\<lparr>ticks := 0\<rparr>)) (urandom v n)"
  by (simp add: evolves_def same_def urandom_def)

lemma kek_wrap_ticks: "evolves (same (\<lambda>s. s\<lparr>ticks := 0\<rparr>)) (kek_wrap v b dek)"
  by (cases b) (simp_all add: of_sum_def, (intro frame.ev_rules urandom_vault)+)

lemma ticks_fields: "t\<lparr>ticks := 0\<rparr> = s\<lparr>ticks := 0\<rparr> \<Longrightarrow> secrets t = secrets s \<and> dek_cache t = dek_cache s \<and> beside_vault t = beside_vault s"
  by (cases t, cases s) (simp add: beside_vault_def beside_journal_def)

text \<open>A stored secret stands for its plaintext.\<close>

lemma vault_put_spec:
  assumes "sound_crypto v" "vault_put w v kind ot oid p actor s = (Inr r, t)"
  shows "secrets t = secrets s @ [r]" "plain v r = Some p" "dek_cache t = dek_cache s" "beside_vault t = beside_vault s"
    "se_pk r \<notin> se_pk ` set (secrets s)" "auditable r" "get_backend v = Inr x \<Longrightarrow> se_kek_id r = kek_id x"
    "se_kind r = kind" "se_owner_type r = ot" "se_owner_id r = oid"
proof -
  obtain b where b: "get_backend v = Inr b"
    using assms(2) by (auto simp: vault_put_def fst_bnd_Inr of_sum_def throw_def split: sum.splits)
  let ?dek = "va_urandom v (ticks s) DEK_BYTES" and ?nonce = "va_urandom v (Suc (ticks s)) NONCE_BYTES"
  let ?s = "s\<lparr>ticks := Suc (Suc (ticks s))\<rparr>"
  obtain wrapped u where u: "kek_wrap v b ?dek ?s = (Inr wrapped, u)"
    and r: "r = \<lparr>se_pk = next_pk (map se_pk (secrets u)), se_kind = kind, se_owner_type = ot, se_owner_id = oid,
      se_ciphertext = va_encrypt v ?dek ?nonce p (build_aad kind ot oid), se_wrapped_dek = wrapped, se_nonce = ?nonce,
      se_kek_id = kek_id b, se_fingerprint = secret_fingerprint w p, se_created_at = w_clock w (ticks u), se_created_by = actor,
      se_last_used_at = None\<rparr>"
    and a: "vault_audit w ''vault-secret-created'' r actor SevInfo [] (u\<lparr>ticks := Suc (ticks u), secrets := secrets u @ [r]\<rparr>) = (Inr (), t)"
    using assms(2) by (auto simp: vault_put_def b of_sum_def Let_def andThen_def fst_bnd_Inr urandom_def ret_def create_secret_def timezone_now_def)
  have us: "secrets u = secrets s" "dek_cache u = dek_cache s" "beside_vault u = beside_vault s"
    using frameD [OF kek_wrap_ticks u] ticks_fields [of u "?s"] by (simp_all add: beside_vault_def beside_journal_def)
  note j = beside_journal_vault [OF frameD [OF vault_audit_journal a]]
  show "secrets t = secrets s @ [r]" "dek_cache t = dek_cache s" using j us by simp_all
  show "beside_vault t = beside_vault s" using j(3) us(3) by (simp add: beside_vault_def beside_journal_def)
  show "se_pk r \<notin> se_pk ` set (secrets s)" using next_pk_fresh [of "map se_pk (secrets s)"] by (simp add: r us)
  show "auditable r" using a by (rule vault_audit_Inr)
  show "se_kek_id r = kek_id x" if "get_backend v = Inr x" using that b by (simp add: r)
  show "se_kind r = kind" "se_owner_type r = ot" "se_owner_id r = oid" by (simp_all add: r)
  have "va_decrypt v ?dek ?nonce (va_encrypt v ?dek ?nonce p (build_aad kind ot oid)) (build_aad kind ot oid) = Some p"
    using assms(1) by (simp add: sound_crypto_def)
  then show "plain v r = Some p"
    by (simp add: plain_def stored_dek_def backend_named [OF b] wrap_unwrap [OF assms(1) u] r aad_def)
qed

text \<open>A read returns the text or refuses, and is recorded either way.\<close>

lemma vault_get_spec:
  assumes "cache_true v s" "get_backend v = Inr b" "auditable r"
  obtains x e t where "vault_get w v r actor reason s = (x, t)" "case plain v r of Some p \<Rightarrow> x = Inr p | None \<Rightarrow> \<exists>m. x = Inl (VaultDecryptError m)"
    "audits t = audits s @ [e]" "ae_object_id e = str_nat (se_pk r)" "ae_object_type e = ''Secret''" "ae_actor e = actor"
    "(ae_action e, ae_severity e) = (case plain v r of Some p \<Rightarrow> (''vault-secret-used'', SevInfo) | None \<Rightarrow> (''vault-secret-decrypt-failed'', SevSecurity))"
    "cache_true v t" "beside_vault t = beside_vault s" "map (\<lambda>x. x\<lparr>se_last_used_at := None\<rparr>) (secrets t) = map (\<lambda>x. x\<lparr>se_last_used_at := None\<rparr>) (secrets s)"
proof -
  obtain y u where y: "open_secret v r s = (y, u)" "(case y of Inl _ \<Rightarrow> None | Inr p \<Rightarrow> Some p) = plain v r" "cache_true v u"
    "u\<lparr>dek_cache := []\<rparr> = s\<lparr>dek_cache := []\<rparr>" by (rule open_secret_spec [OF assms(1,2)])
  have us: "audits u = audits s" "secrets u = secrets s" "beside_vault u = beside_vault s"
    using arg_cong [OF y(4), of audits] arg_cong [OF y(4), of secrets] arg_cong [OF y(4), of beside_vault]
    by (simp_all add: beside_vault_def beside_journal_def)
  show thesis
  proof (cases y)
    case (Inl err)
    obtain e t where t: "vault_audit w ''vault-secret-decrypt-failed'' r actor SevSecurity [] u = (Inr (), t)" "audits t = audits u @ [e]"
      "ae_action e = ''vault-secret-decrypt-failed''" "ae_object_type e = ''Secret''" "ae_object_id e = str_nat (se_pk r)" "ae_severity e = SevSecurity"
      "ae_actor e = actor" "beside_journal t = beside_journal u" by (rule vault_audit_ok [OF assms(3)])
    note j = beside_journal_vault [OF t(8)]
    obtain m where m: "decrypt_error r err = VaultDecryptError m" using decrypt_error_is by blast
    have "vault_get w v r actor reason s = (Inl (VaultDecryptError m), t)"
      by (simp add: m vault_get_def try_except_def y(1) Inl bnd_def andThen_def t(1) throw_def)
    moreover have "plain v r = None" using y(2) Inl by simp
    ultimately show thesis using t j us y(3) by (intro that [of "Inl (VaultDecryptError m)" t e]) (simp_all add: cache_true_def)
  next
    case (Inr p)
    let ?u = "u\<lparr>ticks := Suc (ticks u), secrets := upd_rows (\<lambda>x. se_pk x = se_pk r) (\<lambda>x. x\<lparr>se_last_used_at := Some (w_clock w (ticks u))\<rparr>) (secrets u)\<rparr>"
    obtain e t where t: "vault_audit w ''vault-secret-used'' r actor SevInfo [(''reason'', JStr reason)] ?u = (Inr (), t)" "audits t = audits ?u @ [e]"
      "ae_action e = ''vault-secret-used''" "ae_object_type e = ''Secret''" "ae_object_id e = str_nat (se_pk r)" "ae_severity e = SevInfo"
      "ae_actor e = actor" "beside_journal t = beside_journal ?u" by (rule vault_audit_ok [OF assms(3)])
    note j = beside_journal_vault [OF t(8)]
    have "vault_get w v r actor reason s = (Inr p, t)"
      by (simp add: vault_get_def try_except_def y(1) Inr bnd_def andThen_def timezone_now_def modify_def t(1) ret_def)
    moreover have "plain v r = Some p" using y(2) Inr by simp
    moreover have "beside_vault ?u = beside_vault u" by (simp add: beside_vault_def beside_journal_def)
    ultimately show thesis using t j us y(3)
      by (intro that [of _ t e]) (simp_all add: cache_true_def upd_rows_def)
  qed
qed


section \<open>Sequences of operations\<close>

text \<open>A put that raises leaves no row or a fresh one.\<close>

lemma vault_put_rows:
  assumes "vault_put w v kind ot oid p actor s = (x, t)"
  shows "(secrets t = secrets s \<or> (\<exists>r. secrets t = secrets s @ [r] \<and> se_pk r \<notin> se_pk ` set (secrets s))) \<and> dek_cache t = dek_cache s"
proof (cases "get_backend v")
  case (Inl e)
  with assms show ?thesis by (auto simp: vault_put_def bnd_def of_sum_def throw_def)
next
  case (Inr b)
  let ?dek = "va_urandom v (ticks s) DEK_BYTES" and ?s = "s\<lparr>ticks := Suc (Suc (ticks s))\<rparr>"
  obtain y u where u: "kek_wrap v b ?dek ?s = (y, u)" by fastforce
  have us: "secrets u = secrets s" "dek_cache u = dek_cache s"
    using frameD [OF kek_wrap_ticks u] ticks_fields [of u "?s"] by simp_all
  show ?thesis
  proof (cases y)
    case (Inl e)
    with assms u us Inr show ?thesis by (auto simp: vault_put_def bnd_def of_sum_def ret_def urandom_def Let_def)
  next
    case (Inr wrapped)
    define row where "row = (\<lambda>pk now. \<lparr>se_pk = pk, se_kind = kind, se_owner_type = ot, se_owner_id = oid,
      se_ciphertext = va_encrypt v ?dek (va_urandom v (Suc (ticks s)) NONCE_BYTES) p (build_aad kind ot oid), se_wrapped_dek = wrapped,
      se_nonce = va_urandom v (Suc (ticks s)) NONCE_BYTES, se_kek_id = kek_id b, se_fingerprint = secret_fingerprint w p,
      se_created_at = now, se_created_by = actor, se_last_used_at = None\<rparr>)"
    let ?r = "row (next_pk (map se_pk (secrets u))) (w_clock w (ticks u))"
    let ?u = "u\<lparr>ticks := Suc (ticks u), secrets := secrets u @ [?r]\<rparr>"
    have "vault_put w v kind ot oid p actor s = andThen (vault_audit w ''vault-secret-created'' ?r actor SevInfo []) (ret ?r) ?u"
      using u Inr \<open>get_backend v = Inr b\<close>
      by (simp add: vault_put_def of_sum_def bnd_def ret_def urandom_def Let_def create_secret_def timezone_now_def row_def)
    then have "t = snd (vault_audit w ''vault-secret-created'' ?r actor SevInfo [] ?u)"
      using assms by (auto simp: andThen_def bnd_def ret_def split: prod.splits sum.splits)
    then have "beside_journal t = beside_journal ?u" using frame_snd [OF vault_audit_journal] by metis
    moreover have "se_pk ?r \<notin> se_pk ` set (secrets s)" using next_pk_fresh [of "map se_pk (secrets s)"] by (simp add: row_def us)
    ultimately show ?thesis using beside_journal_vault(1,2) [of t ?u] us by auto
  qed
qed

lemma vault_get_rows:
  assumes "cache_true v s" "vault_get w v r actor reason s = (x, t)"
  shows "cache_true v t \<and> (\<exists>now. secrets t = secrets s \<or>
    secrets t = upd_rows (\<lambda>x. se_pk x = se_pk r) (\<lambda>x. x\<lparr>se_last_used_at := Some now\<rparr>) (secrets s))"
proof -
  obtain y u where y: "unwrap_dek v r s = (y, u)" by fastforce
  note k = unwrap_dek_keeps(1,2) [OF assms(1) y]
  have us: "secrets u = secrets s" using arg_cong [OF k(2), of secrets] by simp
  obtain z where z: "open_secret v r s = (z, u)" using open_secret_eq [OF y] by blast
  show ?thesis
  proof (cases z)
    case (Inl e)
    then have "t = snd (vault_audit w ''vault-secret-decrypt-failed'' r actor SevSecurity [] u)"
      using assms(2) by (auto simp: vault_get_def try_except_def z bnd_def andThen_def throw_def split: prod.splits sum.splits)
    then have "beside_journal t = beside_journal u" using frame_snd [OF vault_audit_journal] by metis
    from beside_journal_vault [OF this] k us show ?thesis by (simp add: cache_true_def)
  next
    case (Inr p)
    let ?u = "u\<lparr>ticks := Suc (ticks u), secrets := upd_rows (\<lambda>x. se_pk x = se_pk r) (\<lambda>x. x\<lparr>se_last_used_at := Some (w_clock w (ticks u))\<rparr>) (secrets u)\<rparr>"
    have "t = snd (vault_audit w ''vault-secret-used'' r actor SevInfo [(''reason'', JStr reason)] ?u)"
      using assms(2) Inr by (auto simp: vault_get_def try_except_def z bnd_def andThen_def modify_def ret_def timezone_now_def
          split: prod.splits sum.splits)
    then have "beside_journal t = beside_journal ?u" using frame_snd [OF vault_audit_journal] by metis
    from beside_journal_vault [OF this] k us show ?thesis by (auto simp: cache_true_def)
  qed
qed

text \<open>A rewrap leaves the row alone or gives its data key to the configured backend.\<close>

lemma rewrap_rows:
  assumes "sound_crypto v" "cache_true v s" "rewrap w v r actor s = (x, t)"
  shows "cache_true v t \<and> (secrets t = secrets s \<or> (\<exists>b wrapped dek. get_backend v = Inr b \<and>
    stored_dek v (se_kek_id r) (se_wrapped_dek r) = Inr dek \<and> stored_dek v (kek_id b) wrapped = Inr dek \<and>
    secrets t = upd_rows (\<lambda>x. se_pk x = se_pk r) (\<lambda>x. x\<lparr>se_wrapped_dek := wrapped, se_kek_id := kek_id b\<rparr>) (secrets s)))"
proof (cases "get_backend v")
  case (Inl e)
  with assms show ?thesis by (auto simp: rewrap_def bnd_def of_sum_def throw_def)
next
  case (Inr b)
  obtain y u where y: "unwrap_dek v r s = (y, u)" by fastforce
  note k = unwrap_dek_keeps [OF assms(2) y]
  have us: "secrets u = secrets s" using arg_cong [OF k(2), of secrets] by simp
  show ?thesis
  proof (cases y)
    case (Inl e)
    then have "t = u" using assms(3) Inr y by (cases e) (auto simp: rewrap_def bnd_def of_sum_def ret_def try_except_def throw_def)
    with k us show ?thesis by simp
  next
    case (Inr dek)
    obtain z v' where z: "kek_wrap v b dek u = (z, v')" by fastforce
    have vs: "secrets v' = secrets s" "dek_cache v' = dek_cache u" using frameD [OF kek_wrap_ticks z] ticks_fields us by metis+
    show ?thesis
    proof (cases z)
      case (Inl e)
      then have "t = v'" using assms(3) Inr y \<open>get_backend v = Inr b\<close> z by (auto simp: rewrap_def bnd_def of_sum_def ret_def try_except_def)
      with k vs show ?thesis by (simp add: cache_true_def)
    next
      case (Inr wrapped)
      let ?r = "r\<lparr>se_wrapped_dek := wrapped, se_kek_id := kek_id b\<rparr>"
      let ?v = "v'\<lparr>secrets := upd_rows (\<lambda>x. se_pk x = se_pk r) (\<lambda>x. x\<lparr>se_wrapped_dek := wrapped, se_kek_id := kek_id b\<rparr>) (secrets v'),
        dek_cache := (cache_key ?r, dek) # filter (\<lambda>e. fst (fst e) \<noteq> se_pk r) (dek_cache v')\<rparr>"
      have "t = snd (vault_audit w ''vault-secret-rewrapped'' ?r actor SevInfo
        [(''from_kek'', JStr (se_kek_id r)), (''to_kek'', JStr (kek_id b))] ?v)"
        using assms(3) Inr \<open>y = Inr dek\<close> y \<open>get_backend v = Inr b\<close> z
        by (auto simp: rewrap_def bnd_def of_sum_def ret_def try_except_def Let_def andThen_def modify_def recache_def
            split: prod.splits sum.splits)
      then have "beside_journal t = beside_journal ?v" using frame_snd [OF vault_audit_journal] by metis
      note j = beside_journal_vault [OF this]
      have new: "stored_dek v (kek_id b) wrapped = Inr dek"
        using wrap_unwrap [OF assms(1)] z Inr by (simp add: stored_dek_def backend_named [OF \<open>get_backend v = Inr b\<close>])
      then have "cache_true v t" using j k(1) vs by (simp add: cache_true_def cache_key_def list_all_iff)
      then show ?thesis using j vs k(3) [OF \<open>y = Inr dek\<close>] new \<open>get_backend v = Inr b\<close> by auto
    qed
  qed
qed


datatype vault_call = VaultPut secret_kind string string string "nat option" | VaultGet nat "nat option" string | VaultRewrap nat "nat option"

text \<open>An operation under the configuration of its time, on the row of the table; what it raises is its caller's matter.\<close>

fun vault_step :: "world \<Rightarrow> vault_env \<times> vault_call \<Rightarrow> hub \<Rightarrow> hub" where
  "vault_step w (v, VaultPut kind ot oid p actor) s = snd (vault_put w v kind ot oid p actor s)"
| "vault_step w (v, VaultGet pk actor reason) s = (case find (\<lambda>r. se_pk r = pk) (secrets s) of
     None \<Rightarrow> s | Some r \<Rightarrow> snd (vault_get w v r actor reason s))"
| "vault_step w (v, VaultRewrap pk actor) s = (case find (\<lambda>r. se_pk r = pk) (secrets s) of
     None \<Rightarrow> s | Some r \<Rightarrow> snd (rewrap w v r actor s))"

definition vault_run :: "world \<Rightarrow> (vault_env \<times> vault_call) list \<Rightarrow> hub \<Rightarrow> hub" where
  "vault_run w ops s = fold (vault_step w) ops s"

definition keeps_secret :: "vault_env \<Rightarrow> nat \<Rightarrow> string \<Rightarrow> hub \<Rightarrow> bool" where
  "keeps_secret v pk p s = (cache_true v s \<and> (\<exists>r. find (\<lambda>r. se_pk r = pk) (secrets s) = Some r \<and> plain v r = Some p \<and> auditable r))"

lemma same_keys_sound: "same_keys u v \<Longrightarrow> sound_crypto v \<Longrightarrow> sound_crypto u"
  by (simp add: sound_crypto_def same_keys_fields [of u v])

lemma same_keys_cache: "same_keys u v \<Longrightarrow> cache_true u s = cache_true v s"
  by (simp add: cache_true_def same_keys_plain [of u v])

lemma plain_moved:
  "stored_dek v (se_kek_id r) (se_wrapped_dek r) = Inr dek \<Longrightarrow> stored_dek v i wrapped = Inr dek \<Longrightarrow>
   plain v (r\<lparr>se_wrapped_dek := wrapped, se_kek_id := i\<rparr>) = plain v r"
  by (simp add: plain_def aad_def)

lemma vault_step_keeps:
  assumes sound: "sound_crypto v" and keys: "same_keys (fst op) v" and ok: "keeps_secret v pk p s"
  shows "keeps_secret v pk p (vault_step w op s)"
proof -
  obtain u c where op: "op = (u, c)" by fastforce
  have su: "sound_crypto u" "cache_true u s" "\<And>t. cache_true u t = cache_true v t" "plain u = plain v" "stored_dek u = stored_dek v"
    using same_keys_sound [of u v] same_keys_cache [of u v] same_keys_plain [of u v] keys sound ok by (simp_all add: op keeps_secret_def)
  obtain r where r: "find (\<lambda>r. se_pk r = pk) (secrets s) = Some r" "plain v r = Some p" "auditable r" and cs: "cache_true v s"
    using ok by (auto simp: keeps_secret_def)
  show ?thesis
  proof (cases c)
    case (VaultPut kind ot oid x actor)
    obtain y t where t: "vault_put w u kind ot oid x actor s = (y, t)" by fastforce
    from vault_put_rows [OF t] r cs show ?thesis by (auto simp: op VaultPut t keeps_secret_def cache_true_def find_append)
  next
    case (VaultGet k actor reason)
    show ?thesis
    proof (cases "find (\<lambda>r. se_pk r = k) (secrets s)")
      case None with VaultGet ok show ?thesis by (simp add: op)
    next
      case (Some q)
      obtain y t where t: "vault_get w u q actor reason s = (y, t)" by fastforce
      obtain now where now: "cache_true u t" "secrets t = secrets s \<or>
        secrets t = upd_rows (\<lambda>x. se_pk x = se_pk q) (\<lambda>x. x\<lparr>se_last_used_at := Some now\<rparr>) (secrets s)"
        using vault_get_rows [OF su(2) t] by blast
      have "plain v (r\<lparr>se_last_used_at := Some now\<rparr>) = plain v r" "auditable (r\<lparr>se_last_used_at := Some now\<rparr>) = auditable r"
        by (simp_all add: plain_def aad_def auditable_def split: sum.split)
      then show ?thesis using now r su(3) by (auto simp: op VaultGet Some t keeps_secret_def find_upd_rows_key)
    qed
  next
    case (VaultRewrap k actor)
    show ?thesis
    proof (cases "find (\<lambda>r. se_pk r = k) (secrets s)")
      case None with VaultRewrap ok show ?thesis by (simp add: op)
    next
      case (Some q)
      have qk: "se_pk q = k" using find_Some_mem [OF Some] by simp
      obtain y t where t: "rewrap w u q actor s = (y, t)" by fastforce
      have "cache_true v t" "secrets t = secrets s \<or> (\<exists>i wrapped dek. stored_dek v (se_kek_id q) (se_wrapped_dek q) = Inr dek \<and>
        stored_dek v i wrapped = Inr dek \<and> secrets t = upd_rows (\<lambda>x. se_pk x = k) (\<lambda>x. x\<lparr>se_wrapped_dek := wrapped, se_kek_id := i\<rparr>) (secrets s))"
        using rewrap_rows [OF su(1,2) t] su by (auto simp: qk)
      moreover have "auditable (r\<lparr>se_wrapped_dek := wrapped, se_kek_id := i\<rparr>)" for wrapped i using r(3) by (simp add: auditable_def)
      ultimately show ?thesis using r Some plain_moved [of v q]
        by (auto simp: op VaultRewrap t keeps_secret_def find_upd_rows_key)
    qed
  qed
qed

lemma vault_run_keeps:
  assumes "sound_crypto v" "list_all (\<lambda>op. same_keys (fst op) v) ops" "keeps_secret v pk p s"
  shows "keeps_secret v pk p (vault_run w ops s)"
  using assms(2,3) by (induction ops arbitrary: s) (simp_all add: vault_run_def vault_step_keeps [OF assms(1)])

lemma put_kept:
  assumes "sound_crypto v" "cache_true v s" "vault_put w v kind ot oid p actor s = (Inr r, t)"
  shows "keeps_secret v (se_pk r) p t"
proof -
  note sp = vault_put_spec [OF assms(1,3)]
  have "find (\<lambda>x. se_pk x = se_pk r) (secrets s) = None" using sp(5) unfolding find_None_iff by (metis imageI)
  then show ?thesis using sp assms(2) by (simp add: keeps_secret_def find_append cache_true_def)
qed


section \<open>Associated data\<close>

lemma kind_text_no_bar: "CHR ''|'' \<notin> set (secret_kind_text k)"
  by (cases k) simp_all

lemma kind_text_eq: "secret_kind_text k = secret_kind_text k' \<longleftrightarrow> k = k'"
  by (cases k; cases k') simp_all

lemma bar_unique:
  assumes "CHR ''|'' \<notin> set a" "CHR ''|'' \<notin> set b" "a @ CHR ''|'' # x = b @ CHR ''|'' # y"
  shows "a = b \<and> x = y"
  using assms by (induction a arbitrary: b) (auto simp: Cons_eq_append_conv append_eq_Cons_conv)

text \<open>The bars of the associated data are enough as long as the owner type has none.\<close>

lemma aad_identity:
  assumes "CHR ''|'' \<notin> set ot" "CHR ''|'' \<notin> set ot'" "build_aad k ot i = build_aad k' ot' i'"
  shows "k = k' \<and> ot = ot' \<and> i = i'"
proof -
  have "secret_kind_text k = secret_kind_text k' \<and> ot @ CHR ''|'' # i = ot' @ CHR ''|'' # i'"
    using assms(3) by (intro bar_unique) (simp_all add: build_aad_def kind_text_no_bar)
  with bar_unique [OF assms(1,2)] show ?thesis by (auto simp: kind_text_eq)
qed


section \<open>Properties\<close>

text \<open>
  C13: A stored secret stays readable. Once a secret has been stored, it is read back as it was put in, after any sequence of
  further puts, reads and rewraps of this and other secrets, whichever key backend (keyfile, key service, test key) was
  configured at the time of each and whichever is configured for the read, as long as the keys themselves stay within reach.
\<close>

theorem secret_survives_rotation:
  assumes "sound_crypto v" "cache_true v s" "vault_put w v kind owner_type owner_id plaintext actor s = (Inr r, t)"
    and "list_all (\<lambda>op. same_keys (fst op) v) ops" "same_keys u v" "get_backend u = Inr b"
  shows "\<exists>r'. find (\<lambda>x. se_pk x = se_pk r) (secrets (vault_run w ops t)) = Some r' \<and>
    fst (vault_get w u r' reader reason (vault_run w ops t)) = Inr plaintext"
proof -
  have "keeps_secret v (se_pk r) plaintext (vault_run w ops t)"
    using vault_run_keeps [OF assms(1,4)] put_kept [OF assms(1-3)] by blast
  then obtain r' where r': "find (\<lambda>x. se_pk x = se_pk r) (secrets (vault_run w ops t)) = Some r'" "plain u r' = Some plaintext" "auditable r'"
    and c: "cache_true u (vault_run w ops t)"
    using same_keys_plain [OF assms(5)] same_keys_cache [OF assms(5)] by (auto simp: keeps_secret_def)
  obtain x e y where "vault_get w u r' reader reason (vault_run w ops t) = (x, y)"
    "case plain u r' of Some p \<Rightarrow> x = Inr p | None \<Rightarrow> \<exists>m. x = Inl (VaultDecryptError m)"
    by (rule vault_get_spec [OF c assms(6) r'(3)])
  with r' show ?thesis by auto
qed

text \<open>
  C15: A ciphertext belongs to its owner. If a row can be read and its ciphertext, nonce and wrapped key are copied onto a row
  of another kind, owner type or owner, then reading that row is refused, and unless its owner columns are unusable for the
  trail, the refusal is the decryption error and leaves a security event about that row.
\<close>

theorem moved_ciphertext_refused:
  assumes "binds v" "cache_true v s" "get_backend v = Inr b" "plain v r \<noteq> None"
    and "se_ciphertext r' = se_ciphertext r" "se_nonce r' = se_nonce r" "se_wrapped_dek r' = se_wrapped_dek r" "se_kek_id r' = se_kek_id r"
    and "(se_kind r', se_owner_type r', se_owner_id r') \<noteq> (se_kind r, se_owner_type r, se_owner_id r)"
    and "CHR ''|'' \<notin> set (se_owner_type r)" "CHR ''|'' \<notin> set (se_owner_type r')" "auditable r'"
  shows "\<exists>m e t. vault_get w v r' actor reason s = (Inl (VaultDecryptError m), t) \<and> audits t = audits s @ [e] \<and>
    ae_action e = ''vault-secret-decrypt-failed'' \<and> ae_severity e = SevSecurity \<and> ae_object_id e = str_nat (se_pk r')"
proof -
  have "aad r' \<noteq> aad r" using aad_identity [OF assms(11,10)] assms(9) by (auto simp: aad_def)
  moreover obtain dek p where "stored_dek v (se_kek_id r) (se_wrapped_dek r) = Inr dek" "va_decrypt v dek (se_nonce r) (se_ciphertext r) (aad r) = Some p"
    using assms(4) by (auto simp: plain_def split: sum.splits)
  ultimately have none: "plain v r' = None"
    using assms(1) unfolding binds_def plain_def assms(5-8) by (cases "va_decrypt v dek (se_nonce r) (se_ciphertext r) (aad r')") auto
  obtain x e t where "vault_get w v r' actor reason s = (x, t)"
    "case plain v r' of Some p \<Rightarrow> x = Inr p | None \<Rightarrow> \<exists>m. x = Inl (VaultDecryptError m)"
    "audits t = audits s @ [e]" "ae_object_id e = str_nat (se_pk r')"
    "(ae_action e, ae_severity e) = (case plain v r' of Some p \<Rightarrow> (''vault-secret-used'', SevInfo) | None \<Rightarrow> (''vault-secret-decrypt-failed'', SevSecurity))"
    by (rule vault_get_spec [OF assms(2,3,12)])
  with none show ?thesis by auto
qed

text \<open>The dump that was sealed is unsealed.\<close>

lemma backup_round_trip:
  assumes "sound_crypto v" "backup_seal v p key a s = (Inr sealed, t)"
  shows "backup_unseal v sealed key a = Inr p"
  using assms by (auto simp: backup_seal_def backup_unseal_def fst_bnd_Inr urandom_def ret_def throw_def sound_crypto_def Let_def split: if_splits)


section \<open>A hub with a keyfile\<close>

text \<open>
  A cipher that satisfies the laws: the associated data in front, with its length. The configured backend is the keyfile; the
  second configuration is the one after the move to the key service.
\<close>

definition front :: "string \<Rightarrow> string" where
  "front a = str_nat (length a) @ ''|'' @ a"

definition keyfile_vault :: vault_env where
  "keyfile_vault = \<lparr>va_encrypt = (\<lambda>k n p a. front a @ p), va_decrypt = (\<lambda>k n c a. if prefix (front a) c then Some (drop (length (front a)) c) else None),
     va_urandom = (\<lambda>t n. replicate n (CHR ''r'')), va_file = (\<lambda>path. if path = ''/key'' then Some (256, replicate 32 (CHR ''k'')) else None),
     va_kms_encrypt = (\<lambda>k p. Some p), va_kms_decrypt = (\<lambda>k c. Some c), va_keyfile = Some ''/key'', va_require_mode = True,
     va_allow_fake = False, va_backend = ''local'', va_kms_key_id = ''k1''\<rparr>"

definition kms_vault :: vault_env where
  "kms_vault = keyfile_vault\<lparr>va_backend := ''kms''\<rparr>"

lemma keyfile_sound: "sound_crypto keyfile_vault"
  by (simp add: sound_crypto_def keyfile_vault_def)

lemma front_unique: "prefix (front a) c \<Longrightarrow> prefix (front b) c \<Longrightarrow> a = b"
proof -
  have bar: "CHR ''|'' \<notin> set (str_nat n)" for n
  proof
    assume "CHR ''|'' \<in> set (str_nat n)"
    then have "is_digit (CHR ''|'')" by (rule digits_str_nat)
    then show False by (simp add: is_digit_def)
  qed
  assume "prefix (front a) c" "prefix (front b) c"
  then obtain x y where "str_nat (length a) @ CHR ''|'' # a @ x = str_nat (length b) @ CHR ''|'' # b @ y"
    by (auto simp: front_def prefix_def)
  from bar_unique [OF bar bar this] show "a = b" by (auto simp: append_eq_append_conv)
qed

lemma keyfile_binds: "binds keyfile_vault"
  using front_unique by (auto simp: binds_def keyfile_vault_def)

lemma keyfile_backend: "get_backend keyfile_vault = Inr (LocalKeyfileKEK ''/key'' ''local-1'' True)"
  by (simp add: get_backend_def local_kek_def keyfile_vault_def)

lemma kms_backend: "\<exists>b. get_backend kms_vault = Inr b"
proof -
  have "strip ''k1'' = ''k1''" by code_simp
  then show ?thesis by (simp add: get_backend_def kms_client_def kms_vault_def keyfile_vault_def Let_def)
qed

lemma keyfile_key: "keyfile_key keyfile_vault ''/key'' True = Inr (replicate 32 (CHR ''k''))"
  by (simp add: keyfile_key_def keyfile_vault_def)

lemma keyfile_put_ok:
  assumes "\<And>r. se_owner_type r = ot \<Longrightarrow> se_owner_id r = oid \<Longrightarrow> auditable r"
  shows "\<exists>r t. vault_put w keyfile_vault kind ot oid p None s = (Inr r, t)"
proof -
  obtain r u where "vault_put w keyfile_vault kind ot oid p None s = andThen (vault_audit w ''vault-secret-created'' r None SevInfo []) (ret r) u"
      "se_owner_type r = ot" "se_owner_id r = oid"
    by (simp add: vault_put_def keyfile_backend of_sum_def bnd_def ret_def urandom_def Let_def create_secret_def timezone_now_def keyfile_key)
  with vault_audit_ok [OF assms, of r w "''vault-secret-created''" None SevInfo "[]" u] show ?thesis
    by (fastforce simp: andThen_def bnd_def ret_def)
qed

lemma keyfile_put: "\<exists>r t. vault_put calm_world keyfile_vault ApiToken ''site'' ''7'' ''pw'' None empty_hub = (Inr r, t) \<and>
    se_kind r = ApiToken \<and> se_owner_type r = ''site'' \<and> se_owner_id r = ''7'' \<and> se_kek_id r = ''local-1''"
proof -
  have "auditable r" if "se_owner_type r = ''site''" "se_owner_id r = ''7''" for r
    using that by (simp add: auditable_def partition_char_def Let_def is_digit_def)
  then obtain r t where put: "vault_put calm_world keyfile_vault ApiToken ''site'' ''7'' ''pw'' None empty_hub = (Inr r, t)"
    using keyfile_put_ok by blast
  with vault_put_spec(7-10) [OF keyfile_sound put] keyfile_backend show ?thesis by auto
qed

theorem secret_survives_rotation_witness:
  "\<exists>r t r'. vault_put calm_world keyfile_vault ApiToken ''site'' ''7'' ''pw'' None empty_hub = (Inr r, t) \<and>
     find (\<lambda>x. se_pk x = se_pk r) (secrets (vault_run calm_world [(kms_vault, VaultRewrap (se_pk r) None)] t)) = Some r' \<and>
     fst (vault_get calm_world kms_vault r' None [] (vault_run calm_world [(kms_vault, VaultRewrap (se_pk r) None)] t)) = Inr ''pw''"
proof -
  obtain r t where put: "vault_put calm_world keyfile_vault ApiToken ''site'' ''7'' ''pw'' None empty_hub = (Inr r, t)" using keyfile_put by blast
  obtain b where "get_backend kms_vault = Inr b" using kms_backend by blast
  from secret_survives_rotation [OF keyfile_sound _ put _ _ this, of "[(kms_vault, VaultRewrap (se_pk r) None)]" None "[]"] put show ?thesis
    by (auto simp: cache_true_def same_keys_def kms_vault_def)
qed

theorem moved_ciphertext_refused_witness:
  "\<exists>r t m e u. vault_put calm_world keyfile_vault ApiToken ''site'' ''7'' ''pw'' None empty_hub = (Inr r, t) \<and>
     vault_get calm_world keyfile_vault (r\<lparr>se_owner_id := ''8''\<rparr>) None [] t = (Inl (VaultDecryptError m), u) \<and>
     audits u = audits t @ [e] \<and> ae_severity e = SevSecurity"
proof -
  obtain r t where put: "vault_put calm_world keyfile_vault ApiToken ''site'' ''7'' ''pw'' None empty_hub = (Inr r, t)"
    and r: "se_owner_type r = ''site''" "se_owner_id r = ''7''" using keyfile_put by blast
  note sp = vault_put_spec [OF keyfile_sound put]
  have "cache_true keyfile_vault t" using sp(3) by (simp add: cache_true_def)
  moreover have "auditable (r\<lparr>se_owner_id := ''8''\<rparr>)" by (simp add: auditable_def r partition_char_def Let_def is_digit_def)
  ultimately show ?thesis using moved_ciphertext_refused [OF keyfile_binds _ keyfile_backend, of t r "r\<lparr>se_owner_id := ''8''\<rparr>" calm_world None "[]"]
      put sp(2) r by auto
qed

end
