(* ===== verification/Certificates.thy ===== *)
theory Certificates
  imports Vault
begin

text \<open>
  \<open>deploys/certs.py\<close>, \<open>deploys/dns01.py\<close> and \<open>monitor/cert_watch.py\<close>: the certificate of a site. The private key is generated on
  the hub and stored in the vault, an issuer signs its request, the pair is written to the target and the edge reloaded, and a row
  remembers the expiry. X.509 is a parameter: \<open>ct_keypair\<close> generates a key and a request, \<open>ct_match\<close> compares the public keys
  of a key and a certificate, an issuer answers with a certificate and perhaps its expiry. Bytes are texts.

  A \<open>cert_request\<close> holds what the functions read of the \<open>desired\<close> dictionary. \<open>cq_transport\<close> says that it has a transport, \<open>cq_dns\<close> that
  it has a DNS provider. The keys that only tests set (\<open>hostnames\<close>, \<open>validity_days\<close>, \<open>caddy_reload\<close>) are absent.
\<close>

type_synonym issued = "string \<times> time option"
type_synonym issuer = "dns_zone option \<Rightarrow> string list \<Rightarrow> int \<Rightarrow> string \<Rightarrow> issued act"

record cert_tools =
  ct_vault :: vault_env
  ct_keypair :: "nat \<Rightarrow> string list \<Rightarrow> string \<times> string"
  ct_match :: "string \<Rightarrow> string \<Rightarrow> exn + bool"
  ct_issuer_for :: "dns_zone \<Rightarrow> issuer act"

record cert_request =
  cq_site :: "site option"
  cq_slug :: string
  cq_domain :: string
  cq_proxied :: "bool option"
  cq_body :: "(string \<times> json) list"
  cq_dns_zone :: "dns_zone option"
  cq_issuer :: "issuer option"
  cq_dns :: bool
  cq_dns01 :: "(string list \<Rightarrow> string \<Rightarrow> issued act) option"
  cq_transport :: bool
  cq_heartbeat :: "nat option"

datatype cert_result = SkippedReason string | SkippedId nat | Issued nat string \<comment> \<open>row and key reference\<close>

definition DEFAULT_VALIDITY_DAYS :: int where "DEFAULT_VALIDITY_DAYS = 5475"
definition RENEW_BEFORE_DAYS :: int where "RENEW_BEFORE_DAYS = 30"

definition days :: "int \<Rightarrow> time" where
  "days n = hours (24 * n)"


section \<open>What the request says\<close>

definition cert_slug :: "cert_request \<Rightarrow> site \<Rightarrow> string" where
  "cert_slug q site = (if cq_slug q \<noteq> [] then cq_slug q else s_name site)"

definition cert_proxied :: "cert_request \<Rightarrow> bool" where
  "cert_proxied q = (case cq_proxied q of Some b \<Rightarrow> b | None \<Rightarrow> (case cq_site q of Some site \<Rightarrow> s_proxied site | None \<Rightarrow> True))"

definition cert_exposure :: "cert_request \<Rightarrow> json" where
  "cert_exposure q = (let of_body = jget (cq_body q) ''exposure'' in
     if (case cq_site q of Some site \<Rightarrow> s_exposure site = MeshOnly | None \<Rightarrow> False) \<or> of_body = JStr ''mesh_only'' then JStr ''mesh_only''
     else case cq_site q of Some site \<Rightarrow> JStr (exposure_text (s_exposure site))
       | None \<Rightarrow> if truthy of_body then of_body else JStr ''public'')"

definition cert_hostnames :: "cert_request \<Rightarrow> site \<Rightarrow> string \<Rightarrow> string list" where
  "cert_hostnames q site slug = [if cq_domain q \<noteq> [] then cq_domain q
     else if s_domain site \<noteq> [] then s_domain site else slug @ ''.local'']"

definition cert_zone :: "cert_request \<Rightarrow> site \<Rightarrow> dns_zone option" where
  "cert_zone q site = (case cq_dns_zone q of Some z \<Rightarrow> Some z | None \<Rightarrow> s_dns_zone site)"

definition cert_issuer_of :: "cert_tools \<Rightarrow> cert_request \<Rightarrow> site \<Rightarrow> issuer act" where
  "cert_issuer_of E q site = (case cq_issuer q of Some i \<Rightarrow> ret i
     | None \<Rightarrow> (case cert_zone q site of Some z \<Rightarrow> ct_issuer_for E z
       | None \<Rightarrow> throw (RuntimeError ''no cert_issuer and no dns_zone - refuse rather than mint a local leaf'')))"

definition still_fresh :: "tls_certificate \<Rightarrow> time \<Rightarrow> bool" where
  "still_fresh r now = (case tc_not_after r of None \<Rightarrow> False | Some t \<Rightarrow> t - now > days RENEW_BEFORE_DAYS)"

text \<open>\<open>order_by("-pushed_at", "-pk")\<close>; the database puts rows without a push first.\<close>

definition newest_first :: "tls_certificate list \<Rightarrow> tls_certificate list" where
  "newest_first rows = rev (sort_key (\<lambda>r. tc_pushed_at r = None) 
     (sort_key (\<lambda>r. case tc_pushed_at r of None \<Rightarrow> 0 | Some t \<Rightarrow> t) (sort_key tc_pk rows)))"

definition existing_certificate :: "hub \<Rightarrow> site \<Rightarrow> tls_certificate option" where
  "existing_certificate s site = (case newest_first (filter (\<lambda>r. tc_site r = s_pk site) (tls_certificates s)) of
     [] \<Rightarrow> None | r # _ \<Rightarrow> Some r)"

definition cert_key_ref :: "tls_certificate option \<Rightarrow> site \<Rightarrow> string" where
  "cert_key_ref existing site = (case existing of
     Some r \<Rightarrow> if tc_key_ref r \<noteq> [] then tc_key_ref r else ''site-'' @ str_nat (s_pk site) @ ''-tls''
   | None \<Rightarrow> ''site-'' @ str_nat (s_pk site) @ ''-tls'')"


section \<open>Files on the target\<close>

definition cert_run :: "world \<Rightarrow> nat option \<Rightarrow> string list \<Rightarrow> cmd_result act" where
  "cert_run w hb argv = andThen (beat w hb) (transport_run w argv)"

definition relock_tls_dir :: "world \<Rightarrow> nat option \<Rightarrow> string \<Rightarrow> unit act" where
  "relock_tls_dir w hb dir = andThen (cert_run w hb [''sudo'', ''chown'', ''root:root'', dir])
     (andThen (cert_run w hb [''sudo'', ''chmod'', ''0700'', dir]) (ret ()))"

definition ensure_tls_dir :: "world \<Rightarrow> nat option \<Rightarrow> string \<Rightarrow> unit act" where
  "ensure_tls_dir w hb dir = andThen (cert_run w hb [''sudo'', ''mkdir'', ''-p'', dir]) (relock_tls_dir w hb dir)"

definition remote_exists :: "world \<Rightarrow> string \<Rightarrow> bool act" where
  "remote_exists w path = bnd (transport_probe w [''sudo'', ''test'', ''-f'', path]) (\<lambda>r. ret (result_ok r))"

definition cert_mv :: "world \<Rightarrow> nat option \<Rightarrow> string \<Rightarrow> string \<Rightarrow> unit act" where
  "cert_mv w hb src dst = andThen (cert_run w hb [''sudo'', ''mv'', src, dst]) (ret ())"

definition cert_rm :: "world \<Rightarrow> nat option \<Rightarrow> string \<Rightarrow> unit act" where
  "cert_rm w hb path = andThen (cert_run w hb [''sudo'', ''rm'', ''-f'', path]) (ret ())"

definition restore_prev :: "world \<Rightarrow> nat option \<Rightarrow> string \<Rightarrow> unit act" where
  "restore_prev w hb dir = andThen (cert_mv w hb (dir @ ''/cert.pem.prev'') (dir @ ''/cert.pem''))
     (cert_mv w hb (dir @ ''/key.pem.prev'') (dir @ ''/key.pem''))"

definition KEY_MODE :: nat where "KEY_MODE = 256" \<comment> \<open>0o400\<close>

text \<open>\<open>_atomic_write\<close>: the directory is opened for the deploy user only while the file is put.\<close>

definition atomic_write :: "world \<Rightarrow> nat option \<Rightarrow> string \<Rightarrow> string \<Rightarrow> string \<Rightarrow> unit act" where
  "atomic_write w hb content dir name = (let final_path = dir @ ''/'' @ name; tmp = final_path @ ''.tmp'' in try_finally
     (andThen (cert_run w hb [''sudo'', ''chown'', ''root:deploy'', dir])
     (andThen (cert_run w hb [''sudo'', ''chmod'', ''0770'', dir])
     (andThen (transport_put w content tmp KEY_MODE)
     (bnd (transport_get w tmp) (\<lambda>written.
      if written \<noteq> [] \<and> w_sha256 w written \<noteq> w_sha256 w content
      then throw (RuntimeError (''checksum mismatch after write of '' @ final_path))
      else andThen (cert_run w hb [''sudo'', ''chown'', ''root:root'', tmp])
        (andThen (cert_run w hb [''sudo'', ''chmod'', ''0400'', tmp])
        (andThen (cert_run w hb [''sudo'', ''mv'', tmp, final_path]) (ret ()))))))))
     (relock_tls_dir w hb dir))"

definition reload_caddy :: "world \<Rightarrow> nat option \<Rightarrow> unit act" where
  "reload_caddy w hb = bnd (cert_run w hb [''sudo'', ''systemctl'', ''reload'', ''caddy'']) (\<lambda>r.
     if result_ok r then ret () else throw (RuntimeError (''caddy reload failed: '' @ stderr r)))"

definition create_certificate :: "world \<Rightarrow> (nat \<Rightarrow> time \<Rightarrow> tls_certificate) \<Rightarrow> nat act" where
  "create_certificate w row = bnd (timezone_now w) (\<lambda>now. (\<lambda>s. let pk = next_pk (map tc_pk (tls_certificates s)) in
     (Inr pk, s\<lparr>tls_certificates := tls_certificates s @ [row pk now]\<rparr>)))"

definition write_pair :: "world \<Rightarrow> nat option \<Rightarrow> string \<Rightarrow> string \<Rightarrow> string \<Rightarrow> unit act" where
  "write_pair w hb dir cert_pem key_pem = andThen (atomic_write w hb cert_pem dir ''cert.pem'')
     (andThen (atomic_write w hb key_pem dir ''key.pem'') (reload_caddy w hb))"

text \<open>The files part of \<open>push_tls_material\<close>.\<close>

definition push_files :: "world \<Rightarrow> nat option \<Rightarrow> string \<Rightarrow> string \<Rightarrow> string \<Rightarrow> unit act" where
  "push_files w hb dir cert_pem key_pem =
     andThen (ensure_tls_dir w hb dir)
     (bnd (remote_exists w (dir @ ''/cert.pem'')) (\<lambda>had_previous.
      andThen (when_do had_previous (andThen (cert_mv w hb (dir @ ''/cert.pem'') (dir @ ''/cert.pem.prev''))
        (cert_mv w hb (dir @ ''/key.pem'') (dir @ ''/key.pem.prev''))))
      (andThen (try_except (write_pair w hb dir cert_pem key_pem)
        (\<lambda>e. andThen (when_do had_previous (restore_prev w hb dir)) (throw e)))
      (when_do had_previous (andThen (cert_rm w hb (dir @ ''/cert.pem.prev'')) (cert_rm w hb (dir @ ''/key.pem.prev'')))))))"

definition push_tls_material :: "world \<Rightarrow> cert_request \<Rightarrow> site \<Rightarrow> string \<Rightarrow> string \<Rightarrow> time \<Rightarrow> tls_mode \<Rightarrow> string \<Rightarrow>
    cert_result act" where
  "push_tls_material w q site cert_pem key_pem expires_at mode key_ref =
     (if \<not> cq_transport q then throw (KeyError ''transport'')
      else andThen (push_files w (cq_heartbeat q) (tls_dir (cert_slug q site)) cert_pem key_pem)
        (bnd (create_certificate w (\<lambda>pk now. \<lparr>tc_pk = pk, tc_site = s_pk site, tc_mode = mode, tc_not_after = Some expires_at,
           tc_fingerprint = w_sha256 w cert_pem, tc_key_ref = key_ref, tc_pushed_at = Some now\<rparr>)) (\<lambda>pk.
         ret (Issued pk key_ref))))"


section \<open>Issuing\<close>

definition refuse_unproxied :: "world \<Rightarrow> site \<Rightarrow> unit act" where
  "refuse_unproxied w site = bnd (finding w ''tls'' (''unproxied-cert:'' @ str_nat (s_pk site)) (Some (s_workspace site))
     \<lparr>ff_severity = P2, ff_entity = ''site:'' @ s_name site,
      ff_title = ''Unproxied public site cannot get a Hub-issued certificate'',
      ff_body = (if s_domain site \<noteq> [] then s_domain site else s_name site) @ '' is a public site with proxied=false. '' @
        ''Hub-central DNS-01 is refuse-closed without an injected seam; '' @
        ''the pipeline refuses rather than shipping a DNS token to the target.'',
      ff_fix_action = ''Enable Cloudflare proxy (proxied=true) for an Origin certificate, '' @
        ''or wait for phase 4 Hub-central DNS-01.''\<rparr>) (\<lambda>_. ret ())"

definition keypair_and_csr :: "cert_tools \<Rightarrow> string list \<Rightarrow> (string \<times> string) act" where
  "keypair_and_csr E hostnames = (\<lambda>s. (Inr (ct_keypair E (ticks s) hostnames), s\<lparr>ticks := Suc (ticks s)\<rparr>))"

text \<open>The key is a vault row before it is used.\<close>

definition vault_key :: "world \<Rightarrow> cert_tools \<Rightarrow> string \<Rightarrow> string \<Rightarrow> unit act" where
  "vault_key w E key_ref key_pem = bnd (vault_put w (ct_vault E) TlsPrivateKey ''site'' key_ref key_pem None) (\<lambda>_. ret ())"

text \<open>The certificate must belong to the vaulted key; an issuer that names no expiry gets the default.\<close>

definition accept_issued :: "world \<Rightarrow> cert_tools \<Rightarrow> string \<Rightarrow> issued \<Rightarrow> (string \<times> time) act" where
  "accept_issued w E key_pem issued = bnd (of_sum (ct_match E key_pem (fst issued))) (\<lambda>ok.
     if \<not> ok then throw (CertKeyMismatch ''certificate public key does not match the vaulted private key'')
     else case snd issued of Some t \<Rightarrow> ret (fst issued, t)
       | None \<Rightarrow> bnd (timezone_now w) (\<lambda>now. ret (fst issued, now + days DEFAULT_VALIDITY_DAYS)))"

definition open_unproxied_finding :: "hub \<Rightarrow> site \<Rightarrow> finding_row option" where
  "open_unproxied_finding s site = find (\<lambda>r. f_workspace r = s_workspace site \<and>
     f_fingerprint r = ''unproxied-cert:'' @ str_nat (s_pk site) \<and> f_state r \<in> {Open, Acked}) (findings s)"

definition issue_unproxied :: "world \<Rightarrow> cert_tools \<Rightarrow> cert_request \<Rightarrow> site \<Rightarrow> cert_result act" where
  "issue_unproxied w E q site = (case cq_dns01 q of
     None \<Rightarrow> andThen (refuse_unproxied w site) (throw (Dns01Error ''dns01 refused''))
   | Some dns01 \<Rightarrow> if \<not> cq_dns q then andThen (refuse_unproxied w site) (throw (Dns01Error ''dns01 refused''))
     else let hostnames = cert_hostnames q site (cert_slug q site) in
       bnd (keypair_and_csr E hostnames) (\<lambda>(key_pem, csr_pem).
       bnd (gets (\<lambda>s. existing_certificate s site)) (\<lambda>existing.
       let key_ref = cert_key_ref existing site in
       andThen (vault_key w E key_ref key_pem)
       (bnd (dns01 hostnames csr_pem) (\<lambda>issued.
       bnd (accept_issued w E key_pem issued) (\<lambda>(cert_pem, expires_at).
       bnd (push_tls_material w q site cert_pem key_pem expires_at HubDns01 key_ref) (\<lambda>result.
       bnd (gets (\<lambda>s. open_unproxied_finding s site)) (\<lambda>row.
       andThen (case row of None \<Rightarrow> ret () | Some r \<Rightarrow> bnd (resolve w r None SrcSystem) (\<lambda>_. ret ()))
       (ret result)))))))))"

definition issue_origin :: "world \<Rightarrow> cert_tools \<Rightarrow> cert_request \<Rightarrow> site \<Rightarrow> tls_certificate option \<Rightarrow> cert_result act" where
  "issue_origin w E q site existing =
     (let hostnames = cert_hostnames q site (cert_slug q site); key_ref = cert_key_ref existing site in
       bnd (keypair_and_csr E hostnames) (\<lambda>(key_pem, csr_pem).
       andThen (vault_key w E key_ref key_pem)
       (bnd (cert_issuer_of E q site) (\<lambda>issuer.
       bnd (issuer (cert_zone q site) hostnames DEFAULT_VALIDITY_DAYS csr_pem) (\<lambda>issued.
       bnd (accept_issued w E key_pem issued) (\<lambda>(cert_pem, expires_at).
       push_tls_material w q site cert_pem key_pem expires_at OriginCert key_ref))))))"

definition tls_files_of :: "cert_request \<Rightarrow> site \<Rightarrow> string \<times> string" where
  "tls_files_of q site = (tls_dir (cert_slug q site) @ ''/cert.pem'', tls_dir (cert_slug q site) @ ''/key.pem'')"

text \<open>\<open>ensure_site_certificate\<close>: the result and the \<open>tls_files\<close> it sets.\<close>

definition ensure_site_certificate :: "world \<Rightarrow> cert_tools \<Rightarrow> cert_request \<Rightarrow> (cert_result \<times> (string \<times> string) option) act" where
  "ensure_site_certificate w E q = (case cq_site q of
     None \<Rightarrow> ret (SkippedReason ''no_site'', None)
   | Some site \<Rightarrow>
     if cert_exposure q = JStr ''mesh_only'' then ret (SkippedReason ''mesh_only'', None)
     else bnd (gets (\<lambda>s. existing_certificate s site)) (\<lambda>existing.
       if \<not> cert_proxied q then
         bnd (case existing of None \<Rightarrow> ret None
              | Some r \<Rightarrow> bnd (timezone_now w) (\<lambda>now. ret (if still_fresh r now then Some r else None))) (\<lambda>kept.
         case kept of Some r \<Rightarrow> ret (SkippedId (tc_pk r), None)
         | None \<Rightarrow> bnd (issue_unproxied w E q site) (\<lambda>x. ret (x, Some (tls_files_of q site))))
       else case existing of
         None \<Rightarrow> bnd (issue_origin w E q site existing) (\<lambda>x. ret (x, Some (tls_files_of q site)))
       | Some r \<Rightarrow>
         if tc_mode r = Uploaded then ret (SkippedReason ''uploaded'', Some (tls_files_of q site))
         else bnd (timezone_now w) (\<lambda>now.
           if still_fresh r now then ret (SkippedId (tc_pk r), Some (tls_files_of q site))
           else bnd (issue_origin w E q site existing) (\<lambda>x. ret (x, Some (tls_files_of q site))))))"

text \<open>The request of a deployment: the keys the pipeline and its steps set; the issuer is the one resolved for the deployment.\<close>

definition cert_deploy_request :: "issuer option \<Rightarrow> desired \<Rightarrow> cert_request" where
  "cert_deploy_request issuer d = \<lparr>cq_site = ds_site d, cq_slug = ds_site_slug d, cq_domain = ds_domain d, cq_proxied = None,
     cq_body = ds_body d, cq_dns_zone = ds_dns_zone d, cq_issuer = issuer, cq_dns = True, cq_dns01 = None, cq_transport = True,
     cq_heartbeat = ds_heartbeat d\<rparr>"

definition cert_port :: "world \<Rightarrow> cert_tools \<Rightarrow> issuer option \<Rightarrow> desired \<Rightarrow> (string \<times> string) option act" where
  "cert_port w E issuer d = bnd (ensure_site_certificate w E (cert_deploy_request issuer d)) (\<lambda>x. ret (snd x))"


section \<open>Renewal\<close>

text \<open>The newest row of each site, in the order of the query.\<close>

primrec first_per_site :: "nat list \<Rightarrow> tls_certificate list \<Rightarrow> tls_certificate list" where
  "first_per_site seen [] = []"
| "first_per_site seen (r # rs) = (if tc_site r \<in> set seen then first_per_site seen rs
     else r # first_per_site (tc_site r # seen) rs)"

definition latest_hub_dns01_due :: "hub \<Rightarrow> time \<Rightarrow> tls_certificate list" where
  "latest_hub_dns01_due s now = sort_key tc_pk (filter (\<lambda>r. \<not> still_fresh r now)
     (first_per_site [] (newest_first (filter (\<lambda>r. tc_mode r = HubDns01) (tls_certificates s)))))"

text \<open>\<open>_ensure_row\<close>: a request with neither transport, issuer nor DNS provider.\<close>

definition row_request :: "site \<Rightarrow> cert_request" where
  "row_request site = \<lparr>cq_site = Some site, cq_slug = s_name site, cq_domain = s_domain site, cq_proxied = Some (s_proxied site),
     cq_body = [(''exposure'', JStr (exposure_text (s_exposure site)))], cq_dns_zone = s_dns_zone site, cq_issuer = None,
     cq_dns = False, cq_dns01 = None, cq_transport = False, cq_heartbeat = None\<rparr>"

definition ensure_row :: "world \<Rightarrow> cert_tools \<Rightarrow> tls_certificate \<Rightarrow> unit act" where
  "ensure_row w E r = bnd (gets (\<lambda>s. site_by_pk s (tc_site r))) (\<lambda>site. case site of
     None \<Rightarrow> throw DoesNotExist
   | Some st \<Rightarrow> bnd (ensure_site_certificate w E (row_request st)) (\<lambda>_. ret ()))"

primrec renew_rows :: "(tls_certificate \<Rightarrow> unit act) \<Rightarrow> tls_certificate list \<Rightarrow> nat list \<Rightarrow> nat list \<Rightarrow> (nat list \<times> nat list) act" where
  "renew_rows issue [] renewed errors = ret (renewed, errors)"
| "renew_rows issue (r # rs) renewed errors = bnd (try_except (andThen (issue r) (ret True))
       (\<lambda>e. case e of Dns01Error _ \<Rightarrow> ret False | _ \<Rightarrow> throw e)) (\<lambda>ok.
     if ok then renew_rows issue rs (renewed @ [tc_pk r]) errors else renew_rows issue rs renewed (errors @ [tc_pk r]))"

definition create_check_run :: "string \<Rightarrow> check_status \<Rightarrow> json \<Rightarrow> time option \<Rightarrow> time option \<Rightarrow> check_run act" where
  "create_check_run kind status results started finished = (\<lambda>s.
     let r = \<lparr>cr_pk = next_pk (map cr_pk (check_runs s)), cr_kind = kind, cr_status = status, cr_started = started,
       cr_finished = finished, cr_results = results\<rparr> in (Inr r, s\<lparr>check_runs := check_runs s @ [r]\<rparr>))"

definition jpks :: "nat list \<Rightarrow> json" where
  "jpks ks = JArr (map (\<lambda>k. JInt (int k)) ks)"

definition renew_due :: "world \<Rightarrow> cert_tools \<Rightarrow> time option \<Rightarrow> (tls_certificate \<Rightarrow> unit act) option \<Rightarrow> check_run act" where
  "renew_due w E now issue =
     bnd (case now of Some t \<Rightarrow> ret t | None \<Rightarrow> timezone_now w) (\<lambda>clock.
     bnd (gets (\<lambda>s. latest_hub_dns01_due s clock)) (\<lambda>rows.
     bnd (renew_rows (case issue of Some f \<Rightarrow> f | None \<Rightarrow> ensure_row w E) rows [] []) (\<lambda>(renewed, errors).
     bnd (timezone_now w) (\<lambda>finished.
     create_check_run ''hub_dns01'' (if errors \<noteq> [] then ChkFailed else ChkSucceeded)
       (JObj [(''schema_version'', JInt 1), (''renewed'', jpks renewed), (''errors'', jpks errors)]) (Some clock) (Some finished)))))"


section \<open>Expiry watch (\<open>monitor/cert_watch.py\<close>)\<close>

definition UPLOADED_THRESHOLDS :: "(int \<times> severity) list" where
  "UPLOADED_THRESHOLDS = [(45, P3), (21, P2), (7, P1)]"
definition AUTO_THRESHOLDS :: "(int \<times> severity) list" where
  "AUTO_THRESHOLDS = [(7, P2), (1, P1)]"
definition AUTO_MODES :: "tls_mode list" where
  "AUTO_MODES = [OriginCert, AutoCert, HubDns01]"

fun tls_mode_text :: "tls_mode \<Rightarrow> string" where
  "tls_mode_text OriginCert = ''origin_cert''"
| "tls_mode_text Uploaded = ''uploaded''"
| "tls_mode_text AutoCert = ''auto''"
| "tls_mode_text HubDns01 = ''hub_dns01''"

definition classify_expiry :: "tls_certificate \<Rightarrow> time \<Rightarrow> severity option" where
  "classify_expiry r now = (case tc_not_after r of
     None \<Rightarrow> None
   | Some t \<Rightarrow> if t \<le> now then Some P1
     else map_option snd (find (\<lambda>(n, _). t - now \<le> days n)
       (rev (if tc_mode r \<in> set AUTO_MODES then AUTO_THRESHOLDS else UPLOADED_THRESHOLDS))))"

definition date_text :: "time \<Rightarrow> string" where
  "date_text t = take 10 (isoformat t)"

definition cert_fix_action :: "tls_certificate \<Rightarrow> string" where
  "cert_fix_action r = (if tc_mode r = Uploaded then ''Upload a replacement certificate before it expires.''
     else ''Investigate why auto-renewal did not reissue this certificate; '' @
       ''re-run ensure_site_certificate or wait for the next deploy.'')"

definition days_left :: "time \<Rightarrow> time \<Rightarrow> int" where
  "days_left t now = max 0 ((t - now) div days 1)"

definition cert_finding :: "tls_certificate \<Rightarrow> site \<Rightarrow> time \<Rightarrow> severity \<Rightarrow> time \<Rightarrow> finding_fields" where
  "cert_finding r site t sev now = (let name = (if s_domain site \<noteq> [] then s_domain site else s_name site) in
     \<lparr>ff_severity = sev, ff_entity = ''site:'' @ s_name site,
      ff_title = ''Certificate for '' @ name @ '' expires '' @ date_text t,
      ff_body = tls_mode_text (tc_mode r) @ '' certificate on '' @ name @ '' has '' @ str_int (days_left t now) @
        '' day(s) remaining ('' @ finding_severity_text sev @ '').'',
      ff_fix_action = cert_fix_action r\<rparr>)"

text \<open>One iteration of \<open>scan_cert_expiry\<close>; only a row with an expiry has a severity.\<close>

definition scan_one :: "world \<Rightarrow> time \<Rightarrow> tls_certificate \<Rightarrow> json act" where
  "scan_one w clock r = bnd (gets (\<lambda>s. site_by_pk s (tc_site r))) (\<lambda>st. case st of
     None \<Rightarrow> throw DoesNotExist
   | Some site \<Rightarrow>
     andThen (case (classify_expiry r clock, tc_not_after r) of
       (Some sev, Some t) \<Rightarrow> bnd (finding w ''cert_watch'' (''cert-expiry:'' @ str_nat (s_pk site)) (Some (s_workspace site))
          (cert_finding r site t sev clock)) (\<lambda>_. ret ())
     | _ \<Rightarrow> ret ())
     (ret (JObj [(''site'', JStr (s_name site)), (''mode'', JStr (tls_mode_text (tc_mode r))),
       (''severity'', case classify_expiry r clock of None \<Rightarrow> JNull | Some sev \<Rightarrow> JStr (finding_severity_text sev))])))"

primrec scan_rows :: "world \<Rightarrow> time \<Rightarrow> tls_certificate list \<Rightarrow> json list act" where
  "scan_rows w clock [] = ret []"
| "scan_rows w clock (r # rs) = bnd (scan_one w clock r) (\<lambda>x. bnd (scan_rows w clock rs) (\<lambda>xs. ret (x # xs)))"

text \<open>\<open>record_run\<close> of a finished check.\<close>

definition record_run :: "world \<Rightarrow> string \<Rightarrow> check_status \<Rightarrow> json option \<Rightarrow> check_run act" where
  "record_run w kind status results = bnd (timezone_now w) (\<lambda>now. create_check_run kind status
     (case results of Some r \<Rightarrow> r | None \<Rightarrow> JObj [(''schema_version'', JInt 1)])
     (if status = ChkScheduled then None else Some now)
     (if status \<in> {ChkSucceeded, ChkFailed, ChkSkipped} then Some now else None))"

definition scan_cert_expiry :: "world \<Rightarrow> time option \<Rightarrow> check_run act" where
  "scan_cert_expiry w now =
     bnd (case now of Some t \<Rightarrow> ret t | None \<Rightarrow> timezone_now w) (\<lambda>clock.
     bnd (gets (\<lambda>s. sort_key tc_pk (tls_certificates s))) (\<lambda>rows.
     bnd (scan_rows w clock rows) (\<lambda>certs.
     record_run w ''cert_expiry'' ChkSucceeded (Some (JObj [(''schema_version'', JInt 1), (''certs'', JArr certs)])))))"

end
