(* ===== verification/Cert_Facts.thy ===== *)
theory Cert_Facts
  imports Certificates Vault_Facts Pipeline_Facts Cycle_Facts
begin

text \<open>
  What the certificate service promises. Its files are judged against a target that keeps a file system: \<open>fs_after\<close> computes the
  contents after a sequence of calls, and \<open>file_server\<close> is the hypothesis that the target answers accordingly and obeys moves and
  removals, while the reload of the edge may fail in any way.
\<close>

section \<open>Calls sent\<close>

text \<open>From the log \<open>P\<close> the program ends with \<open>r\<close>, has sent the calls \<open>cs\<close>, and has recorded no certificate.\<close>

definition sends :: "'a act \<Rightarrow> call list \<Rightarrow> exn + 'a \<Rightarrow> call list \<Rightarrow> bool" where
  "sends m P r cs = (\<forall>s. calls s = P \<longrightarrow> (\<exists>t. m s = (r, t) \<and> calls t = P @ cs \<and> tls_certificates t = tls_certificates s))"

lemma sendsD: "sends m (calls s) r cs \<Longrightarrow> \<exists>t. m s = (r, t) \<and> calls t = calls s @ cs \<and> tls_certificates t = tls_certificates s"
  by (simp add: sends_def)

lemma sends_ret: "sends (ret x) P (Inr x) []"
  by (simp add: sends_def ret_def)

lemma sends_throw: "sends (throw e) P (Inl e) []"
  by (simp add: sends_def throw_def)

lemma sends_bnd: "sends m P (Inr x) cs \<Longrightarrow> sends (k x) (P @ cs) r ds \<Longrightarrow> sends (bnd m k) P r (cs @ ds)"
  unfolding sends_def bnd_def by (metis (no_types, lifting) append.assoc case_prod_conv sum.case(2))

lemma sends_map: "sends m P (Inr x) cs \<Longrightarrow> sends (bnd m (\<lambda>y. ret (f y))) P (Inr (f x)) cs"
  using sends_bnd [of m P x cs "\<lambda>y. ret (f y)" "Inr (f x)" "[]"] sends_ret [of "f x" "P @ cs"] by simp

lemma sends_bnd_Inl: "sends m P (Inl e) cs \<Longrightarrow> sends (bnd m k) P (Inl e) cs"
  unfolding sends_def bnd_def by fastforce

lemma sends_andThen: "sends m P (Inr x) cs \<Longrightarrow> sends n (P @ cs) r ds \<Longrightarrow> sends (andThen m n) P r (cs @ ds)"
  unfolding andThen_def by (rule sends_bnd)

lemma sends_andThen_Inl: "sends m P (Inl e) cs \<Longrightarrow> sends (andThen m n) P (Inl e) cs"
  unfolding andThen_def by (rule sends_bnd_Inl)

lemma sends_when: "(b \<Longrightarrow> sends m P (Inr ()) cs) \<Longrightarrow> sends (when_do b m) P (Inr ()) (if b then cs else [])"
  by (simp add: when_do_def sends_ret)

lemma sends_try_finally: "sends m P r cs \<Longrightarrow> sends f (P @ cs) (Inr ()) ds \<Longrightarrow> sends (try_finally m f) P r (cs @ ds)"
  unfolding sends_def try_finally_def by (metis (no_types, lifting) append.assoc case_prod_conv sum.case(2))

lemma sends_try_ok: "sends m P (Inr x) cs \<Longrightarrow> sends (try_except m h) P (Inr x) cs"
  unfolding sends_def try_except_def by fastforce

lemma sends_try_err: "sends m P (Inl e) cs \<Longrightarrow> sends (h e) (P @ cs) r ds \<Longrightarrow> sends (try_except m h) P r (cs @ ds)"
  unfolding sends_def try_except_def by (metis (no_types, lifting) append.assoc case_prod_conv sum.case(1))

lemma beat_eff: "\<exists>t. beat w hb s = (Inr (), t) \<and> calls t = calls s \<and> tls_certificates t = tls_certificates s \<and> unstamped t = unstamped s"
proof (cases hb)
  case (Some d)
  let ?t = "snd (touch_heartbeat w d s)"
  have "unstamped ?t = unstamped s" using touch_heartbeat_unstamped by (simp add: evolves_def same_def)
  moreover from arg_cong [OF this, of calls] arg_cong [OF this, of tls_certificates]
  have "calls ?t = calls s" "tls_certificates ?t = tls_certificates s" by (simp_all add: unstamped_def)
  ultimately show ?thesis using touch_heartbeat_total [of w d s] Some by (simp add: beat_def) blast
qed (simp add: beat_def ret_def)

lemma sends_call: "w_shell w (P @ [c]) = r \<Longrightarrow> sends (shell_call w c) P r [c]"
  by (auto simp: sends_def shell_call_def Let_def)

lemma sends_run: "w_shell w (P @ [Run argv]) = r \<Longrightarrow> sends (cert_run w hb argv) P r [Run argv]"
  unfolding cert_run_def sends_def
proof (intro allI impI)
  fix s :: hub assume r: "w_shell w (P @ [Run argv]) = r" and P: "calls s = P"
  obtain t where "beat w hb s = (Inr (), t)" "calls t = calls s" "tls_certificates t = tls_certificates s" using beat_eff by blast
  with r P show "\<exists>t. andThen (beat w hb) (transport_run w argv) s = (r, t) \<and> calls t = P @ [Run argv] \<and> tls_certificates t = tls_certificates s"
    by (simp add: andThen_def bnd_def transport_run_def shell_call_def Let_def)
qed


section \<open>A target with a file system\<close>

type_synonym fs = "string \<Rightarrow> string option"

fun fs_step :: "call \<Rightarrow> fs \<Rightarrow> fs" where
  "fs_step (Put content path _) F = F(path := Some content)"
| "fs_step (Run argv) F = (case argv of
     [a, b, x, y] \<Rightarrow> if [a, b] = [''sudo'', ''mv''] then (case F x of None \<Rightarrow> F | Some c \<Rightarrow> F(x := None, y := Some c))
       else if [a, b, x] = [''sudo'', ''rm'', ''-f''] then F(y := None) else F
   | _ \<Rightarrow> F)"
| "fs_step _ F = F"

definition fs_after :: "fs \<Rightarrow> call list \<Rightarrow> fs" where
  "fs_after F cs = fold fs_step cs F"

lemma fs_after_append [simp]: "fs_after F (cs @ ds) = fold fs_step ds (fs_after F cs)"
  by (simp add: fs_after_def)

definition RELOAD :: "string list" where
  "RELOAD = [''sudo'', ''systemctl'', ''reload'', ''caddy'']"

text \<open>What the target answers after the calls \<open>cs\<close>: nothing but the reload raises.\<close>

definition answers :: "fs \<Rightarrow> call \<Rightarrow> exn + cmd_result \<Rightarrow> bool" where
  "answers F c r = (case c of
     Get path \<Rightarrow> \<exists>x. r = Inr x \<and> stdout x = (case F path of None \<Rightarrow> [] | Some content \<Rightarrow> content)
   | Probe argv \<Rightarrow> \<exists>x. r = Inr x \<and> (\<forall>path. argv = [''sudo'', ''test'', ''-f'', path] \<longrightarrow> result_ok x = (F path \<noteq> None))
   | Put _ _ _ \<Rightarrow> \<exists>x. r = Inr x
   | Run argv \<Rightarrow> argv = RELOAD \<or> (\<exists>x. r = Inr x))"

definition file_server :: "world \<Rightarrow> fs \<Rightarrow> bool" where
  "file_server w F = (\<forall>cs c. answers (fs_after F cs) c (w_shell w (cs @ [c])))"

lemma server_answers: "file_server w F \<Longrightarrow> answers (fs_after F P) c (w_shell w (P @ [c]))"
  by (simp add: file_server_def)

lemma server_run: "file_server w F \<Longrightarrow> argv \<noteq> RELOAD \<Longrightarrow> \<exists>x. sends (cert_run w hb argv) P (Inr x) [Run argv]"
  using server_answers [of w F P "Run argv"] sends_run [of w P argv _ hb] by (auto simp: answers_def)

lemma server_put: "file_server w F \<Longrightarrow> sends (transport_put w content path m) P (Inr ()) [Put content path m]"
  unfolding transport_put_def
proof -
  assume "file_server w F"
  then obtain x where "w_shell w (P @ [Put content path m]) = Inr x"
    using server_answers [of w F P "Put content path m"] by (auto simp: answers_def)
  from sends_map [OF sends_call [OF this]] show "sends (bnd (shell_call w (Put content path m)) (\<lambda>_. ret ())) P (Inr ()) [Put content path m]" .
qed

lemma server_get:
  assumes "file_server w F" "fs_after F P path = Some content"
  shows "sends (transport_get w path) P (Inr content) [Get path]"
proof -
  have "answers (fs_after F P) (Get path) (w_shell w (P @ [Get path]))" using assms(1) by (simp add: file_server_def)
  then obtain x where "w_shell w (P @ [Get path]) = Inr x" "stdout x = content" using assms(2) by (auto simp: answers_def)
  from sends_map [OF sends_call [OF this(1)], of stdout] this(2) show ?thesis by (simp add: transport_get_def)
qed

lemma server_exists:
  assumes "file_server w F"
  shows "sends (remote_exists w path) P (Inr (fs_after F P path \<noteq> None)) [Probe [''sudo'', ''test'', ''-f'', path]]"
proof -
  have "answers (fs_after F P) (Probe [''sudo'', ''test'', ''-f'', path]) (w_shell w (P @ [Probe [''sudo'', ''test'', ''-f'', path]]))"
    using assms by (simp add: file_server_def)
  then obtain x where x: "w_shell w (P @ [Probe [''sudo'', ''test'', ''-f'', path]]) = Inr x" "result_ok x = (fs_after F P path \<noteq> None)"
    by (auto simp: answers_def)
  from sends_map [OF sends_call [OF x(1)], of result_ok] x(2) show ?thesis by (simp add: remote_exists_def transport_probe_def)
qed

text \<open>Commands whose answer is not read.\<close>

lemma server_skip: 
  assumes "file_server w F" "argv \<noteq> RELOAD" "sends n (P @ [Run argv]) r ds"
  shows "sends (andThen (cert_run w hb argv) n) P r (Run argv # ds)"
proof -
  obtain x where "sends (cert_run w hb argv) P (Inr x) [Run argv]" using server_run [OF assms(1,2)] by blast
  from sends_andThen [OF this assms(3)] show ?thesis by simp
qed

lemma server_skip_unit: "file_server w F \<Longrightarrow> argv \<noteq> RELOAD \<Longrightarrow> sends (andThen (cert_run w hb argv) (ret ())) P (Inr ()) [Run argv]"
  by (rule server_skip [OF _ _ sends_ret])

lemma server_mv: "file_server w F \<Longrightarrow> sends (cert_mv w hb a b) P (Inr ()) [Run [''sudo'', ''mv'', a, b]]"
  unfolding cert_mv_def by (rule server_skip_unit) (simp_all add: RELOAD_def)

lemma server_rm: "file_server w F \<Longrightarrow> sends (cert_rm w hb a) P (Inr ()) [Run [''sudo'', ''rm'', ''-f'', a]]"
  unfolding cert_rm_def by (rule server_skip_unit) (simp_all add: RELOAD_def)

definition relock_calls :: "string \<Rightarrow> call list" where
  "relock_calls dir = [Run [''sudo'', ''chown'', ''root:root'', dir], Run [''sudo'', ''chmod'', ''0700'', dir]]"

lemma server_relock: "file_server w F \<Longrightarrow> sends (relock_tls_dir w hb dir) P (Inr ()) (relock_calls dir)"
  unfolding relock_tls_dir_def relock_calls_def by (intro server_skip server_skip_unit) (simp_all add: RELOAD_def)

definition write_calls :: "string \<Rightarrow> string \<Rightarrow> string \<Rightarrow> call list" where
  "write_calls content dir name = [Run [''sudo'', ''chown'', ''root:deploy'', dir], Run [''sudo'', ''chmod'', ''0770'', dir],
     Put content (dir @ ''/'' @ name @ ''.tmp'') KEY_MODE, Get (dir @ ''/'' @ name @ ''.tmp''),
     Run [''sudo'', ''chown'', ''root:root'', dir @ ''/'' @ name @ ''.tmp''],
     Run [''sudo'', ''chmod'', ''0400'', dir @ ''/'' @ name @ ''.tmp''],
     Run [''sudo'', ''mv'', dir @ ''/'' @ name @ ''.tmp'', dir @ ''/'' @ name]] @ relock_calls dir"

lemma server_write:
  assumes "file_server w F"
  shows "sends (atomic_write w hb content dir name) P (Inr ()) (write_calls content dir name)"
proof -
  let ?tmp = "dir @ ''/'' @ name @ ''.tmp''"
  let ?open = "[Run [''sudo'', ''chown'', ''root:deploy'', dir], Run [''sudo'', ''chmod'', ''0770'', dir]]"
  let ?post = "[Run [''sudo'', ''chown'', ''root:root'', ?tmp], Run [''sudo'', ''chmod'', ''0400'', ?tmp], Run [''sudo'', ''mv'', ?tmp, dir @ ''/'' @ name]]"
  define k where "k = (\<lambda>written. if written \<noteq> [] \<and> w_sha256 w written \<noteq> w_sha256 w content
      then throw (RuntimeError (''checksum mismatch after write of '' @ dir @ ''/'' @ name))
      else andThen (cert_run w hb [''sudo'', ''chown'', ''root:root'', ?tmp]) (andThen (cert_run w hb [''sudo'', ''chmod'', ''0400'', ?tmp])
        (andThen (cert_run w hb [''sudo'', ''mv'', ?tmp, dir @ ''/'' @ name]) (ret ()))))"
  have post: "sends (k content) Q (Inr ()) ?post" for Q
    unfolding k_def by (simp, intro server_skip [OF assms] sends_ret) (simp_all add: RELOAD_def)
  have "fs_after F ((P @ ?open) @ [Put content ?tmp KEY_MODE]) ?tmp = Some content" by simp
  from sends_bnd [of _ _ _ _ k, OF server_get [OF assms this] post]
  have "sends (andThen (transport_put w content ?tmp KEY_MODE) (bnd (transport_get w ?tmp) k)) (P @ ?open) (Inr ()) (Put content ?tmp KEY_MODE # Get ?tmp # ?post)"
    using sends_andThen [OF server_put [OF assms]] by (metis append_Cons append_Nil)
  then have "sends (andThen (cert_run w hb [''sudo'', ''chown'', ''root:deploy'', dir]) (andThen (cert_run w hb [''sudo'', ''chmod'', ''0770'', dir])
      (andThen (transport_put w content ?tmp KEY_MODE) (bnd (transport_get w ?tmp) k)))) P (Inr ()) (?open @ Put content ?tmp KEY_MODE # Get ?tmp # ?post)"
    by (simp, intro server_skip [OF assms]) (simp_all add: RELOAD_def)
  from sends_try_finally [OF this server_relock [OF assms, of hb dir]] show ?thesis
    by (simp only: atomic_write_def Let_def write_calls_def k_def append.assoc append_Cons append_Nil)
qed

text \<open>What the reload answers decides the outcome of the pair.\<close>

definition reload_result :: "exn + cmd_result \<Rightarrow> exn + unit" where
  "reload_result r = (case r of Inl e \<Rightarrow> Inl e | Inr x \<Rightarrow> if result_ok x then Inr () else Inl (RuntimeError (''caddy reload failed: '' @ stderr x)))"

lemma sends_reload: "sends (reload_caddy w hb) P (reload_result (w_shell w (P @ [Run RELOAD]))) [Run RELOAD]"
proof (cases "w_shell w (P @ [Run RELOAD])")
  case (Inl e)
  from sends_bnd_Inl [OF sends_run [OF this]] show ?thesis by (simp add: reload_caddy_def reload_result_def RELOAD_def Inl [unfolded RELOAD_def])
next
  case (Inr x)
  have "sends (if result_ok x then ret () else throw (RuntimeError (''caddy reload failed: '' @ stderr x))) (P @ [Run RELOAD])
    (reload_result (Inr x)) []" by (simp add: reload_result_def sends_ret sends_throw)
  from sends_bnd [of _ _ _ _ "\<lambda>r. if result_ok r then ret () else throw (RuntimeError (''caddy reload failed: '' @ stderr r))", OF sends_run [OF Inr] this]
  show ?thesis by (simp add: reload_caddy_def RELOAD_def Inr [unfolded RELOAD_def])
qed

definition pair_calls :: "string \<Rightarrow> string \<Rightarrow> string \<Rightarrow> call list" where
  "pair_calls dir cert_pem key_pem = write_calls cert_pem dir ''cert.pem'' @ write_calls key_pem dir ''key.pem'' @ [Run RELOAD]"

lemma server_pair:
  assumes "file_server w F"
  shows "\<exists>r. sends (write_pair w hb dir cert_pem key_pem) P r (pair_calls dir cert_pem key_pem)"
  unfolding write_pair_def pair_calls_def
  using sends_andThen [OF server_write [OF assms] sends_andThen [OF server_write [OF assms] sends_reload]] by blast

definition dir_calls :: "string \<Rightarrow> call list" where
  "dir_calls dir = Run [''sudo'', ''mkdir'', ''-p'', dir] # relock_calls dir @ [Probe [''sudo'', ''test'', ''-f'', dir @ ''/cert.pem'']]"

definition away_calls :: "string \<Rightarrow> call list" where
  "away_calls dir = [Run [''sudo'', ''mv'', dir @ ''/cert.pem'', dir @ ''/cert.pem.prev''], Run [''sudo'', ''mv'', dir @ ''/key.pem'', dir @ ''/key.pem.prev'']]"

definition back_calls :: "string \<Rightarrow> call list" where
  "back_calls dir = [Run [''sudo'', ''mv'', dir @ ''/cert.pem.prev'', dir @ ''/cert.pem''], Run [''sudo'', ''mv'', dir @ ''/key.pem.prev'', dir @ ''/key.pem'']]"

definition drop_calls :: "string \<Rightarrow> call list" where
  "drop_calls dir = [Run [''sudo'', ''rm'', ''-f'', dir @ ''/cert.pem.prev''], Run [''sudo'', ''rm'', ''-f'', dir @ ''/key.pem.prev'']]"

lemma server_dir:
  assumes "file_server w F"
  shows "sends (ensure_tls_dir w hb dir) P (Inr ()) (Run [''sudo'', ''mkdir'', ''-p'', dir] # relock_calls dir)"
  unfolding ensure_tls_dir_def by (rule server_skip [OF assms _ server_relock [OF assms]]) (simp add: RELOAD_def)

lemma relock_keeps_fs [simp]: "fold fs_step (relock_calls dir) G = G"
  by (simp add: relock_calls_def)

lemma server_push:
  assumes "file_server w F"
  defines "G \<equiv> \<lambda>P. fs_after F P"
  shows "\<exists>r. sends (push_files w hb dir cert_pem key_pem) P r
    (dir_calls dir @ (if G P (dir @ ''/cert.pem'') \<noteq> None then away_calls dir else []) @ pair_calls dir cert_pem key_pem @
     (if G P (dir @ ''/cert.pem'') \<noteq> None then if isl r then back_calls dir else drop_calls dir else []))"
proof -
  let ?d = "Run [''sudo'', ''mkdir'', ''-p'', dir] # relock_calls dir" and ?had = "G P (dir @ ''/cert.pem'') \<noteq> None"
  have had: "(fs_after F (P @ ?d) (dir @ ''/cert.pem'') \<noteq> None) = ?had" by (simp add: G_def)
  note ex = server_exists [OF assms(1), of "dir @ ''/cert.pem''" "P @ ?d", unfolded had]
  have away: "sends (when_do ?had (andThen (cert_mv w hb (dir @ ''/cert.pem'') (dir @ ''/cert.pem.prev''))
        (cert_mv w hb (dir @ ''/key.pem'') (dir @ ''/key.pem.prev'')))) Q (Inr ()) (if ?had then away_calls dir else [])" for Q
    using sends_andThen [OF server_mv [OF assms(1)] server_mv [OF assms(1)]] by (intro sends_when) (simp add: away_calls_def)
  have r0: "sends (restore_prev w hb dir) Q (Inr ()) (back_calls dir)" for Q
    using sends_andThen [OF server_mv [OF assms(1)] server_mv [OF assms(1)]] by (simp add: restore_prev_def back_calls_def)
  have undo: "sends (andThen (when_do ?had (restore_prev w hb dir)) (throw e)) Q (Inl e) (if ?had then back_calls dir else [])" for e Q
    using sends_andThen [OF sends_when [OF r0] sends_throw [of e], of ?had] by (simp only: append_Nil2)
  have drops: "sends (when_do ?had (andThen (cert_rm w hb (dir @ ''/cert.pem.prev'')) (cert_rm w hb (dir @ ''/key.pem.prev'')))) Q (Inr ())
      (if ?had then drop_calls dir else [])" for Q
    using sends_andThen [OF server_rm [OF assms(1)] server_rm [OF assms(1)]] by (intro sends_when) (simp add: drop_calls_def)
  define rest where "rest = (\<lambda>had. andThen (when_do had (andThen (cert_mv w hb (dir @ ''/cert.pem'') (dir @ ''/cert.pem.prev''))
        (cert_mv w hb (dir @ ''/key.pem'') (dir @ ''/key.pem.prev''))))
      (andThen (try_except (write_pair w hb dir cert_pem key_pem) (\<lambda>e. andThen (when_do had (restore_prev w hb dir)) (throw e)))
      (when_do had (andThen (cert_rm w hb (dir @ ''/cert.pem.prev'')) (cert_rm w hb (dir @ ''/key.pem.prev''))))))"
  have "\<exists>r. sends (rest ?had) Q r ((if ?had then away_calls dir else []) @ pair_calls dir cert_pem key_pem @
     (if ?had then if isl r then back_calls dir else drop_calls dir else []))" for Q
  proof -
    let ?Q = "Q @ (if ?had then away_calls dir else [])"
    obtain r where r: "sends (write_pair w hb dir cert_pem key_pem) ?Q r (pair_calls dir cert_pem key_pem)" using server_pair [OF assms(1)] by blast
    show ?thesis
    proof (cases r)
      case (Inl e)
      from sends_andThen [OF away sends_andThen_Inl [OF sends_try_err [where h = "\<lambda>e. andThen (when_do ?had (restore_prev w hb dir)) (throw e)",
          OF r [unfolded Inl] undo]]] show ?thesis
        unfolding rest_def by (intro exI [of _ "Inl e"]) (simp only: sum.disc if_True)
    next
      case (Inr x)
      from sends_andThen [OF away sends_andThen [OF sends_try_ok [OF r [unfolded Inr]] drops]] show ?thesis
        unfolding rest_def by (intro exI [of _ "Inr ()"]) (simp only: sum.disc if_False append.assoc)
    qed
  qed
  then obtain r where "sends (rest ?had) ((P @ ?d) @ [Probe [''sudo'', ''test'', ''-f'', dir @ ''/cert.pem'']]) r
     ((if ?had then away_calls dir else []) @ pair_calls dir cert_pem key_pem @ (if ?had then if isl r then back_calls dir else drop_calls dir else []))" by blast
  from sends_andThen [OF server_dir [OF assms(1)] sends_bnd [of _ _ _ _ rest, OF ex this]] show ?thesis
    unfolding push_files_def rest_def [symmetric] dir_calls_def by (intro exI [of _ r]) (simp split del: if_split)
qed

lemma write_fs: "fold fs_step (write_calls content dir name) G = G(dir @ ''/'' @ name @ ''.tmp'' := None, dir @ ''/'' @ name := Some content)"
  by (simp add: write_calls_def)

lemma pair_fs:
  "fold fs_step (pair_calls dir cert_pem key_pem) G = G(dir @ ''/cert.pem.tmp'' := None, dir @ ''/cert.pem'' := Some cert_pem,
     dir @ ''/key.pem.tmp'' := None, dir @ ''/key.pem'' := Some key_pem)"
  by (simp add: pair_calls_def write_fs RELOAD_def)


section \<open>What the service leaves alone\<close>

lemma bnd_cases:
  assumes "bnd m k s = (r, t)"
  obtains (raised) e where "m s = (Inl e, t)" "r = Inl e" | (returned) x u where "m s = (Inr x, u)" "k x u = (r, t)"
  using assms by (auto simp: bnd_def split: prod.splits sum.splits)

lemma frame_through: "evolves (same g) m \<Longrightarrow> (\<And>s. f (g s) = f s) \<Longrightarrow> evolves (same f) m"
  unfolding evolves_def same_def by metis

text \<open>What follows may depend on what the program returned.\<close>

lemma frame_bnd_result:
  "evolves (same f) m \<Longrightarrow> (\<And>s x t. m s = (Inr x, t) \<Longrightarrow> evolves (same f) (k x)) \<Longrightarrow> evolves (same f) (bnd m k)"
  unfolding evolves_def same_def bnd_def by (auto split: prod.splits sum.splits) (metis snd_conv)+

definition beside_put :: "hub \<Rightarrow> hub" where
  "beside_put s = (beside_journal s)\<lparr>secrets := []\<rparr>"

lemma vault_put_beside: "evolves (same beside_put) (vault_put w v kind ot oid p actor)"
proof -
  have "evolves (same beside_put) (urandom v n)" "evolves (same beside_put) (kek_wrap v b dek)" for n b dek
    by (rule frame_through [OF urandom_vault] frame_through [OF kek_wrap_ticks], simp add: beside_put_def beside_journal_def)+
  moreover have "evolves (same beside_put) (create_secret w row)" for row
    by (simp add: evolves_def same_def create_secret_def bnd_def timezone_now_def Let_def beside_put_def beside_journal_def)
  moreover have "evolves (same beside_put) (vault_audit w action r actor sev detail)" for action r sev detail
    by (rule frame_through [OF vault_audit_journal]) (simp add: beside_put_def beside_journal_def)
  ultimately show ?thesis unfolding vault_put_def Let_def by (intro frame.ev_rules sum_cores)
qed

text \<open>An issuer may call its own service; it writes nothing that \<open>f\<close> shows.\<close>

definition issuer_keeps :: "(hub \<Rightarrow> 'b) \<Rightarrow> issuer \<Rightarrow> bool" where
  "issuer_keeps f i = (\<forall>z hs n csr. evolves (same f) (i z hs n csr))"

definition issuers_keep :: "(hub \<Rightarrow> 'b) \<Rightarrow> cert_tools \<Rightarrow> cert_request \<Rightarrow> bool" where
  "issuers_keep f E q = ((\<forall>i. cq_issuer q = Some i \<longrightarrow> issuer_keeps f i) \<and>
     (\<forall>z. evolves (same f) (ct_issuer_for E z) \<and> (\<forall>s i t. ct_issuer_for E z s = (Inr i, t) \<longrightarrow> issuer_keeps f i)) \<and>
     (\<forall>d hs csr. cq_dns01 q = Some d \<longrightarrow> evolves (same f) (d hs csr)))"

lemma issuer_of_keeps:
  assumes "issuers_keep f E q"
  shows "evolves (same f) (cert_issuer_of E q site)" "cert_issuer_of E q site s = (Inr i, t) \<Longrightarrow> issuer_keeps f i"
proof -
  show "evolves (same f) (cert_issuer_of E q site)"
    using assms unfolding cert_issuer_of_def issuers_keep_def by (intro frame.ev_rules) auto
  show "issuer_keeps f i" if "cert_issuer_of E q site s = (Inr i, t)"
    using that assms by (auto simp: cert_issuer_of_def issuers_keep_def ret_def throw_def split: option.splits)
qed

text \<open>Commands, puts and certificate rows are invisible in \<open>core_state\<close>.\<close>

named_theorems cert_frames

lemma basic_cert_core [cert_frames]:
  "evolves (same core_state) (shell_call w c)" "evolves (same core_state) (beat w hb)" "evolves (same core_state) (create_certificate w row)"
  "evolves (same core_state) (keypair_and_csr E hs)" "evolves (same core_state) (timezone_now w)"
  "evolves (same core_state) (vault_put w v kind ot oid p actor)" "evolves (same core_state) (finding w e fp ws flds)"
proof -
  show "evolves (same core_state) (shell_call w c)" by (rule shell_call_frame) (simp add: core_state_def unstamped_def)
  show "evolves (same core_state) (beat w hb)" unfolding beat_def
    by (intro frame.ev_rules frame_through [OF touch_heartbeat_unstamped]) (simp add: core_state_def unstamped_def comp_def)
  show "evolves (same core_state) (create_certificate w row)" "evolves (same core_state) (keypair_and_csr E hs)"
    by (simp_all add: evolves_def same_def create_certificate_def keypair_and_csr_def bnd_def timezone_now_def Let_def core_state_def unstamped_def)
  show "evolves (same core_state) (vault_put w v kind ot oid p actor)"
    by (rule frame_through [OF vault_put_beside]) (simp add: core_state_def unstamped_def beside_put_def beside_journal_def)
qed (rule clock_core finding_core)+

lemma resolve_core [cert_frames]: "evolves (same core_state) (resolve w row actor src)"
  unfolding resolve_def transition_def Let_def by (intro frame.ev_rules save_finding_core audit_core publish_core)

lemmas cert_file_defs = write_pair_def push_files_def reload_caddy_def atomic_write_def ensure_tls_dir_def relock_tls_dir_def
  remote_exists_def cert_mv_def cert_rm_def restore_prev_def cert_run_def transport_run_def transport_probe_def transport_put_def
  transport_get_def Let_def

lemma push_core [cert_frames]: "evolves (same core_state) (push_tls_material w q site cert_pem key_pem t mode ref)"
  unfolding push_tls_material_def cert_file_defs by (intro frame.ev_rules cert_frames)

lemma accept_core [cert_frames]: "evolves (same core_state) (accept_issued w E k issued)"
  unfolding accept_issued_def by (intro frame.ev_rules cert_frames sum_cores)

lemma ensure_certificate_core:
  assumes "issuers_keep core_state E q"
  shows "evolves (same core_state) (ensure_site_certificate w E q)"
proof -
  have origin: "evolves (same core_state) (issue_origin w E q site existing)" for site existing
    unfolding issue_origin_def vault_key_def Let_def
    by (intro frame.ev_rules cert_frames frame_bnd_result [OF issuer_of_keeps(1)] assms)
      (use issuer_of_keeps(2) [OF assms] in \<open>auto simp: issuer_keeps_def\<close>)
  have unproxied: "evolves (same core_state) (issue_unproxied w E q site)" for site
    unfolding issue_unproxied_def refuse_unproxied_def vault_key_def Let_def
    by (intro frame.ev_rules cert_frames) (use assms in \<open>auto simp: issuers_keep_def\<close>)
  show ?thesis unfolding ensure_site_certificate_def by (intro frame.ev_rules cert_frames origin unproxied)
qed

text \<open>So the certificate service can be plugged into the pipeline: its port keeps what the steps rely on.\<close>

lemma cert_port_keeps:
  assumes "ports_keep P" "\<And>d. issuers_keep core_state E (cert_deploy_request issuer d)"
  shows "ports_keep (P\<lparr>pt_cert := cert_port w E issuer\<rparr>)"
  using assms ensure_certificate_core [OF assms(2)]
  by (simp add: ports_keep_def cert_port_def frame.ev_bnd frame.ev_ret)


section \<open>Properties\<close>

lemma push_files_fs:
  assumes "file_server w F" "fs_after F (calls s) (dir @ ''/cert.pem'') = Some c0" "fs_after F (calls s) (dir @ ''/key.pem'') = Some k0"
  shows "\<exists>r t. push_files w hb dir cert_pem key_pem s = (r, t) \<and> tls_certificates t = tls_certificates s \<and>
    fs_after F (calls t) = (fs_after F (calls s))(dir @ ''/cert.pem.tmp'' := None, dir @ ''/key.pem.tmp'' := None,
      dir @ ''/cert.pem.prev'' := None, dir @ ''/key.pem.prev'' := None,
      dir @ ''/cert.pem'' := Some (if isl r then c0 else cert_pem), dir @ ''/key.pem'' := Some (if isl r then k0 else key_pem))"
proof -
  obtain r where r: "sends (push_files w hb dir cert_pem key_pem) (calls s) r (dir_calls dir @ away_calls dir @ pair_calls dir cert_pem key_pem @
     (if isl r then back_calls dir else drop_calls dir))" using server_push [OF assms(1), of hb dir cert_pem key_pem "calls s"] assms(2) by auto
  let ?G = "fs_after F (calls s)"
  have "fold fs_step (dir_calls dir @ away_calls dir @ pair_calls dir cert_pem key_pem @ (if isl r then back_calls dir else drop_calls dir)) ?G =
    ?G(dir @ ''/cert.pem.tmp'' := None, dir @ ''/key.pem.tmp'' := None, dir @ ''/cert.pem.prev'' := None, dir @ ''/key.pem.prev'' := None,
      dir @ ''/cert.pem'' := Some (if isl r then c0 else cert_pem), dir @ ''/key.pem'' := Some (if isl r then k0 else key_pem))"
    using assms(2,3) by (cases "isl r") (simp_all add: dir_calls_def away_calls_def back_calls_def drop_calls_def pair_fs fun_eq_iff)
  with sendsD [OF r] show ?thesis by (metis fs_after_append)
qed


definition file_shell :: "fs \<Rightarrow> cmd_result \<Rightarrow> call list \<Rightarrow> exn + cmd_result" where
  "file_shell F reload cs = (let G = fs_after F (butlast cs); ok = (\<lambda>b out. \<lparr>exit_code = (if b then 0 else 1), stdout = out, stderr = []\<rparr>) in
     Inr (case last cs of
       Get path \<Rightarrow> ok True (case G path of None \<Rightarrow> [] | Some c \<Rightarrow> c)
     | Probe argv \<Rightarrow> (case argv of [_, _, _, path] \<Rightarrow> ok (G path \<noteq> None) [] | _ \<Rightarrow> ok True [])
     | Run argv \<Rightarrow> if argv = RELOAD then reload else ok True []
     | Put _ _ _ \<Rightarrow> ok True []))"

lemma file_shell_serves: "file_server (calm_world\<lparr>w_shell := file_shell F reload\<rparr>) F"
  by (auto simp: file_server_def answers_def file_shell_def Let_def result_ok_def split: call.split option.split list.split)

definition tls_site :: site where
  "tls_site = \<lparr>s_pk = 3, s_workspace = 1, s_project = 1, s_name = ''shop'', s_domain = ''shop.example.test'', s_exposure = Public,
     s_environment = Production, s_deploy_strategy = BlueGreen, s_deploy_policy = PolicyAuto, s_deploy_window_cron = [],
     s_maintenance_until = None, s_reconcile_enabled = True, s_liveness_path = ''/livez'', s_readiness_path = ''/healthz'',
     s_warmup_timeout_s = 60, s_config_stale = False, s_scale_ready = False, s_primary_target = None, s_dns_zone = None, s_proxied = True,
     s_edge_owner = HostCaddy, s_preview_of = None, s_preview_ref = []\<rparr>"



text \<open>The only files put are the two temporary ones, readable by their owner only.\<close>

definition tls_put :: "string \<Rightarrow> string \<Rightarrow> string \<Rightarrow> call \<Rightarrow> bool" where
  "tls_put dir cert_pem key_pem c = (case c of Put content path mode \<Rightarrow> mode = KEY_MODE \<and>
     (path = dir @ ''/cert.pem.tmp'' \<and> content = cert_pem \<or> path = dir @ ''/key.pem.tmp'' \<and> content = key_pem) | _ \<Rightarrow> True)"

lemma call_adds: "P c \<Longrightarrow> evolves (adds P) (shell_call w c)"
  by (auto simp: evolves_def adds_def shell_call_def Let_def)

lemma same_calls_adds: "evolves (same calls) m \<Longrightarrow> evolves (adds P) m"
  by (auto simp: evolves_def same_def adds_def)

lemma beat_calls: "evolves (same calls) (beat w hb)"
  unfolding beat_def by (intro frame.ev_rules frame_through [OF touch_heartbeat_unstamped]) (simp add: unstamped_def)

lemma push_puts: "evolves (adds (tls_put dir cert_pem key_pem)) (push_files w hb dir cert_pem key_pem)"
  unfolding cert_file_defs by (intro issue.ev_rules call_adds same_calls_adds [OF beat_calls]) (simp_all add: tls_put_def)

lemma push_material_puts:
  "evolves (adds (tls_put (tls_dir (cert_slug q site)) cert_pem key_pem)) (push_tls_material w q site cert_pem key_pem t mode ref)"
proof -
  have "evolves (adds P) (create_certificate w row)" for row P
    by (simp add: evolves_def adds_def create_certificate_def bnd_def timezone_now_def Let_def)
  then show ?thesis unfolding push_tls_material_def by (intro issue.ev_rules push_puts)
qed

lemma push_secrets: "evolves (same secrets) (push_tls_material w q site cert_pem key_pem t mode ref)"
proof -
  have "evolves (same secrets) (beat w hb)" for hb unfolding beat_def
    by (intro frame.ev_rules frame_through [OF touch_heartbeat_unstamped]) (simp add: unstamped_def)
  moreover have "evolves (same secrets) (shell_call w c)" for c by (rule shell_call_frame) simp
  moreover have "evolves (same secrets) (create_certificate w row)" for row
    by (simp add: evolves_def same_def create_certificate_def bnd_def timezone_now_def Let_def)
  ultimately show ?thesis unfolding push_tls_material_def cert_file_defs by (intro frame.ev_rules)
qed

text \<open>What the service has left when it ends: either nothing was sent, or the key was vaulted and only the pair was put.\<close>

definition wrapped_key_row :: "cert_tools \<Rightarrow> string \<Rightarrow> string \<Rightarrow> hub \<Rightarrow> hub \<Rightarrow> bool" where
  "wrapped_key_row E ref key_pem s t = (\<exists>row. row \<in> set (secrets t) \<and> se_pk row \<notin> se_pk ` set (secrets s) \<and> se_kind row = TlsPrivateKey \<and>
     se_owner_type row = ''site'' \<and> se_owner_id row = ref \<and> plain (ct_vault E) row = Some key_pem)"

definition vaulted_push :: "cert_tools \<Rightarrow> cert_request \<Rightarrow> site \<Rightarrow> string \<Rightarrow> hub \<Rightarrow> hub \<Rightarrow> bool" where
  "vaulted_push E q site ref s t = (calls t = calls s \<or>
     (\<exists>cert_pem key_pem. wrapped_key_row E ref key_pem s t \<and> adds (tls_put (tls_dir (cert_slug q site)) cert_pem key_pem) s t))"

definition wire :: "hub \<Rightarrow> call list \<times> secret list" where
  "wire s = (calls s, secrets s)"

lemma vault_key_wire:
  assumes "sound_crypto (ct_vault E)" "vault_key w E ref key_pem s = (r, t)"
  shows "calls t = calls s \<and> (r = Inr () \<longrightarrow> wrapped_key_row E ref key_pem s t)"
proof -
  have f: "evolves (same calls) (vault_put w (ct_vault E) TlsPrivateKey ''site'' ref key_pem None)"
    by (rule frame_through [OF vault_put_beside]) (simp add: beside_put_def beside_journal_def)
  from assms(2) show ?thesis unfolding vault_key_def
  proof (cases rule: bnd_cases)
    case (raised e)
    with frameD [OF f] show ?thesis by simp
  next
    case (returned x u)
    with frameD [OF f] vault_put_spec(1,2,5,8-10) [OF assms(1) returned(1)] show ?thesis
      by (auto simp: ret_def wrapped_key_row_def)
  qed
qed

lemma accept_wire: "evolves (same wire) (accept_issued w E k issued)"
  unfolding accept_issued_def by (intro frame.ev_rules sum_cores timezone_now_frame) (simp add: wire_def)

text \<open>The tail shared by both ways to issue.\<close>

lemma push_vaulted:
  assumes "wire u = wire v" "wrapped_key_row E ref key_pem s v" "calls v = calls s"
    "push_tls_material w q site cert_pem key_pem x mode ref u = (r, t)"
  shows "vaulted_push E q site ref s t"
proof -
  have "secrets t = secrets v" using frameD [OF push_secrets assms(4)] assms(1) by (simp add: wire_def)
  moreover have "adds (tls_put (tls_dir (cert_slug q site)) cert_pem key_pem) s t"
    using issue.evolvesD [OF push_material_puts assms(4)] assms(1,3) by (simp add: adds_def wire_def)
  ultimately show ?thesis using assms(2) by (auto simp: vaulted_push_def wrapped_key_row_def)
qed

text \<open>A stage that sends nothing either ends the run or passes on.\<close>

lemma silent_stage:
  assumes "evolves (same wire) m" "bnd m k u = (r, t)" "wire u = wire v" "calls v = calls s"
    "\<And>x u'. m u = (Inr x, u') \<Longrightarrow> wire u' = wire v \<Longrightarrow> k x u' = (r, t) \<Longrightarrow> vaulted_push E q site ref s t"
  shows "vaulted_push E q site ref s t"
  using assms(2)
proof (cases rule: bnd_cases)
  case (raised e)
  with frameD [OF assms(1) raised(1)] assms(3,4) show ?thesis by (simp add: vaulted_push_def wire_def)
next
  case (returned x u')
  with frameD [OF assms(1) returned(1)] assms(3,5) show ?thesis by simp
qed

lemma keypair_wire: "evolves (same wire) (keypair_and_csr E hs)"
  by (simp add: evolves_def same_def keypair_and_csr_def wire_def)

lemma vaulted_stage:
  assumes "sound_crypto (ct_vault E)" "wire u = wire s" "andThen (vault_key w E ref key_pem) k u = (r, t)"
    "\<And>v. calls v = calls s \<Longrightarrow> wrapped_key_row E ref key_pem s v \<Longrightarrow> k v = (r, t) \<Longrightarrow> vaulted_push E q site ref s t"
  shows "vaulted_push E q site ref s t"
  using assms(3) unfolding andThen_def
proof (cases rule: bnd_cases)
  case (raised e)
  with vault_key_wire [OF assms(1) raised(1)] assms(2) show ?thesis by (simp add: vaulted_push_def wire_def)
next
  case (returned x v)
  moreover have "secrets u = secrets s" "calls u = calls s" using assms(2) by (simp_all add: wire_def)
  ultimately show ?thesis using vault_key_wire [OF assms(1) returned(1)] by (intro assms(4) [of v]) (simp_all add: wrapped_key_row_def)
qed

lemma accepted_stage:
  assumes "evolves (same wire) m" "bnd m (\<lambda>issued. bnd (accept_issued w E key_pem issued) n) u = (r, t)" "wire u = wire v" "calls v = calls s"
    "\<And>x u'. wire u' = wire v \<Longrightarrow> n x u' = (r, t) \<Longrightarrow> vaulted_push E q site ref s t"
  shows "vaulted_push E q site ref s t"
proof (rule silent_stage [OF assms(1-4)])
  fix issued u' assume "wire u' = wire v" "bnd (accept_issued w E key_pem issued) n u' = (r, t)"
  from silent_stage [OF accept_wire this(2,1) assms(4)] assms(5) show "vaulted_push E q site ref s t" by blast
qed

lemma issue_origin_vaulted:
  assumes "sound_crypto (ct_vault E)" "issuers_keep wire E q" "issue_origin w E q site existing s = (r, t)"
  shows "vaulted_push E q site (cert_key_ref existing site) s t"
proof (rule silent_stage [OF keypair_wire assms(3) [unfolded issue_origin_def Let_def] refl refl])
  let ?ref = "cert_key_ref existing site"
  fix kp u1 assume u1: "wire u1 = wire s" and "(case kp of (key_pem, csr_pem) \<Rightarrow> andThen (vault_key w E ?ref key_pem)
    (bnd (cert_issuer_of E q site) (\<lambda>issuer. bnd (issuer (cert_zone q site) (cert_hostnames q site (cert_slug q site)) DEFAULT_VALIDITY_DAYS csr_pem)
      (\<lambda>issued. bnd (accept_issued w E key_pem issued) (\<lambda>(cert_pem, expires_at). push_tls_material w q site cert_pem key_pem expires_at OriginCert ?ref))))) u1 = (r, t)"
  then show "vaulted_push E q site ?ref s t" unfolding case_prod_beta
  proof (elim vaulted_stage [OF assms(1) u1])
    fix v assume v: "calls v = calls s" "wrapped_key_row E ?ref (fst kp) s v"
      and "bnd (cert_issuer_of E q site) (\<lambda>issuer. bnd (issuer (cert_zone q site) (cert_hostnames q site (cert_slug q site)) DEFAULT_VALIDITY_DAYS (snd kp))
      (\<lambda>issued. bnd (accept_issued w E (fst kp) issued) (\<lambda>x. push_tls_material w q site (fst x) (fst kp) (snd x) OriginCert ?ref))) v = (r, t)"
    then show ?thesis
    proof (elim silent_stage [OF issuer_of_keeps(1) [OF assms(2)] _ refl v(1)])
      fix i u2 assume i: "cert_issuer_of E q site v = (Inr i, u2)" and u2: "wire u2 = wire v"
        and run: "bnd (i (cert_zone q site) (cert_hostnames q site (cert_slug q site)) DEFAULT_VALIDITY_DAYS (snd kp))
          (\<lambda>issued. bnd (accept_issued w E (fst kp) issued) (\<lambda>x. push_tls_material w q site (fst x) (fst kp) (snd x) OriginCert ?ref)) u2 = (r, t)"
      have ik: "evolves (same wire) (i z hs n csr)" for z hs n csr
        using issuer_of_keeps(2) [OF assms(2) i] by (simp add: issuer_keeps_def)
      show ?thesis by (rule accepted_stage [OF ik run u2 v(1)]) (rule push_vaulted [OF _ v(2,1)])
    qed
  qed
qed

lemma finding_wire:
  "evolves (same wire) (finding w e fp ws flds)" "evolves (same wire) (resolve w row actor src)"
  by (rule frame_through [OF finding_engine] frame_through [OF resolve_engine(1)], simp add: wire_def beside_engine_def)+

lemma vaulted_push_wire: "vaulted_push E q site ref s u \<Longrightarrow> wire t = wire u \<Longrightarrow> vaulted_push E q site ref s t"
  by (simp add: vaulted_push_def wire_def wrapped_key_row_def adds_def)

lemma issue_unproxied_vaulted:
  assumes "sound_crypto (ct_vault E)" "issuers_keep wire E q" "issue_unproxied w E q site s = (r, t)"
  shows "vaulted_push E q site (cert_key_ref (existing_certificate s site) site) s t"
proof (cases "cq_dns01 q = None \<or> \<not> cq_dns q")
  case True
  have "evolves (same wire) (andThen (refuse_unproxied w site) (throw (Dns01Error ''dns01 refused'')))" (is "evolves _ ?m")
    unfolding refuse_unproxied_def by (intro frame.ev_rules finding_wire)
  moreover have "?m s = (r, t)" using True assms(3) by (auto simp: issue_unproxied_def split: option.splits)
  ultimately show ?thesis using frameD by (fastforce simp: vaulted_push_def wire_def)
next
  case False
  then obtain d where d: "cq_dns01 q = Some d" "cq_dns q" by auto
  let ?hs = "cert_hostnames q site (cert_slug q site)" and ?ref = "cert_key_ref (existing_certificate s site) site"
  have dk: "evolves (same wire) (d hs csr)" for hs csr using assms(2) d(1) by (simp add: issuers_keep_def)
  define tail where "tail = (\<lambda>key_pem (cert_pem, expires). bnd (push_tls_material w q site cert_pem key_pem expires HubDns01 ?ref) (\<lambda>result.
       bnd (gets (\<lambda>s. open_unproxied_finding s site)) (\<lambda>row.
       andThen (case row of None \<Rightarrow> ret () | Some r \<Rightarrow> bnd (resolve w r None SrcSystem) (\<lambda>_. ret ())) (ret result))))"
  obtain key_pem csr_pem u where kp: "keypair_and_csr E ?hs s = (Inr (key_pem, csr_pem), u)" "wire u = wire s" "tls_certificates u = tls_certificates s"
    by (cases "ct_keypair E (ticks s) ?hs") (auto simp: keypair_and_csr_def wire_def)
  have run: "andThen (vault_key w E ?ref key_pem) (bnd (d ?hs csr_pem) (\<lambda>issued. bnd (accept_issued w E key_pem issued) (tail key_pem))) u = (r, t)"
    using assms(3) kp(3) by (simp add: issue_unproxied_def d Let_def bnd_def [of "keypair_and_csr E ?hs"] kp(1) existing_certificate_def tail_def)
  show ?thesis
  proof (rule vaulted_stage [OF assms(1) kp(2) run])
    fix v assume v: "calls v = calls s" "wrapped_key_row E ?ref key_pem s v"
      and "bnd (d ?hs csr_pem) (\<lambda>issued. bnd (accept_issued w E key_pem issued) (tail key_pem)) v = (r, t)"
    then show ?thesis
    proof (elim accepted_stage [OF dk _ refl v(1)])
      fix x u' assume u': "wire u' = wire v" and x: "tail key_pem x u' = (r, t)"
      obtain cert_pem expires where "x = (cert_pem, expires)" by fastforce
      from x [unfolded this tail_def case_prod_conv] show ?thesis
      proof (cases rule: bnd_cases)
        case (raised e)
        then show ?thesis by (intro push_vaulted [OF u' v(2,1)])
      next
        case (returned y u'')
        have "evolves (same wire) (bnd (gets (\<lambda>s. open_unproxied_finding s site)) (\<lambda>row.
          andThen (case row of None \<Rightarrow> ret () | Some r \<Rightarrow> bnd (resolve w r None SrcSystem) (\<lambda>_. ret ())) (ret y)))"
          by (intro frame.ev_rules finding_wire)
        from vaulted_push_wire [OF push_vaulted [OF u' v(2,1) returned(1)] frameD [OF this returned(2)]] show ?thesis .
      qed
    qed
  qed
qed

text \<open>Unless it skips, the service is one of the two ways to issue, perhaps after a look at the clock.\<close>

lemma ensure_runs:
  assumes "ensure_site_certificate w E q s = (r, t)" "cq_site q = Some site"
  shows "calls t = calls s \<or> (\<exists>n y. issue_origin w E q site (existing_certificate s site) (s\<lparr>ticks := n\<rparr>) = (y, t)) \<or>
    (\<exists>n y. issue_unproxied w E q site (s\<lparr>ticks := n\<rparr>) = (y, t))"
proof -
  let ?t = "s\<lparr>ticks := Suc (ticks s)\<rparr>"
  have pick: "(\<exists>y. m u = (y, t))" if "bnd m (\<lambda>x. ret (x, z)) u = (r, t)" for m :: "cert_result act" and z u
    using that by (auto simp: bnd_def ret_def split: prod.splits sum.splits)
  have s: "s\<lparr>ticks := ticks s\<rparr> = s" by simp
  have "(ensure_site_certificate w E q s = (r, t) \<longrightarrow> calls t = calls s) \<or>
      ensure_site_certificate w E q s = bnd (issue_unproxied w E q site) (\<lambda>x. ret (x, Some (tls_files_of q site))) s \<or>
      ensure_site_certificate w E q s = bnd (issue_unproxied w E q site) (\<lambda>x. ret (x, Some (tls_files_of q site))) ?t \<or>
      ensure_site_certificate w E q s = bnd (issue_origin w E q site (existing_certificate s site)) (\<lambda>x. ret (x, Some (tls_files_of q site))) s \<or>
      ensure_site_certificate w E q s = bnd (issue_origin w E q site (existing_certificate s site)) (\<lambda>x. ret (x, Some (tls_files_of q site))) ?t"
  proof (cases "existing_certificate s site")
    case None
    then show ?thesis using assms(2) by (simp add: ensure_site_certificate_def ret_def [of "(SkippedReason _, _)"])
  next
    case (Some c)
    then show ?thesis using assms(2) by (auto simp: ensure_site_certificate_def bnd_now bnd_assoc ret_def [of "(SkippedReason _, _)"] ret_def [of "(SkippedId _, _)"])
  qed
  then have "calls t = calls s \<or> (\<exists>y. issue_unproxied w E q site s = (y, t)) \<or> (\<exists>y. issue_unproxied w E q site ?t = (y, t)) \<or>
      (\<exists>y. issue_origin w E q site (existing_certificate s site) s = (y, t)) \<or> (\<exists>y. issue_origin w E q site (existing_certificate s site) ?t = (y, t))"
    using assms(1) pick by (elim disjE) auto
  then show ?thesis using s by metis
qed

text \<open>
  C16: A private key is in the vault before any byte reaches the target. Whatever \<open>ensure_site_certificate\<close> does, returning or raising, if
  it put a file at all then the site's key is a new row of the vault, owned by the key reference of the site and standing for
  exactly the key that was generated; the files put are the two temporary files of the pair in the site's own directory, with
  mode 0400, and what is written to the key file is the vaulted key.
\<close>

theorem key_vaulted_before_put:
  assumes "sound_crypto (ct_vault E)" "issuers_keep wire E q" "ensure_site_certificate w E q s = (r, t)" "calls t = calls s @ cs"
    "Put content path mode \<in> set cs"
  shows "\<exists>site row key_pem. cq_site q = Some site \<and> row \<in> set (secrets t) \<and> se_pk row \<notin> se_pk ` set (secrets s) \<and> se_kind row = TlsPrivateKey \<and>
    se_owner_type row = ''site'' \<and> se_owner_id row = cert_key_ref (existing_certificate s site) site \<and> plain (ct_vault E) row = Some key_pem \<and>
    mode = 256 \<and> (path = tls_dir (cert_slug q site) @ ''/cert.pem.tmp'' \<or> path = tls_dir (cert_slug q site) @ ''/key.pem.tmp'' \<and> content = key_pem)"
proof -
  have moved: "calls t \<noteq> calls s" using assms(4,5) by auto
  then obtain site where site: "cq_site q = Some site"
    using assms(3) by (cases "cq_site q") (auto simp: ensure_site_certificate_def ret_def)
  have clock: "existing_certificate (s\<lparr>ticks := n\<rparr>) site = existing_certificate s site" for n by (simp add: existing_certificate_def)
  have step: "vaulted_push E q site ref (s\<lparr>ticks := n\<rparr>) t = vaulted_push E q site ref s t" for n ref
    by (simp add: vaulted_push_def wrapped_key_row_def adds_def)
  have "vaulted_push E q site (cert_key_ref (existing_certificate s site) site) s t"
    using ensure_runs [OF assms(3) site] moved
  proof (elim disjE exE)
    fix n y assume "issue_origin w E q site (existing_certificate s site) (s\<lparr>ticks := n\<rparr>) = (y, t)"
    from issue_origin_vaulted [OF assms(1,2) this] show ?thesis by (simp only: step)
  next
    fix n y assume "issue_unproxied w E q site (s\<lparr>ticks := n\<rparr>) = (y, t)"
    from issue_unproxied_vaulted [OF assms(1,2) this] show ?thesis by (simp only: step clock)
  qed simp
  then obtain cert_pem key_pem ds where "wrapped_key_row E (cert_key_ref (existing_certificate s site) site) key_pem s t"
    "calls t = calls s @ ds" "list_all (tls_put (tls_dir (cert_slug q site)) cert_pem key_pem) ds"
    using moved by (auto simp: vaulted_push_def adds_def)
  moreover from this(2,3) have "tls_put (tls_dir (cert_slug q site)) cert_pem key_pem (Put content path mode)"
    using assms(4,5) by (simp add: list_all_iff)
  ultimately show ?thesis using site by (auto simp: wrapped_key_row_def tls_put_def KEY_MODE_def)
qed

definition tls_tools :: cert_tools where
  "tls_tools = \<lparr>ct_vault = keyfile_vault, ct_keypair = (\<lambda>_ _. (''key'', ''csr'')), ct_match = (\<lambda>_ _. Inr True),
     ct_issuer_for = (\<lambda>_. throw (RuntimeError ''no token''))\<rparr>"

definition tls_issuer :: issuer where
  "tls_issuer = (\<lambda>_ _ _ _. ret (''cert'', Some (days 400)))"

definition tls_request :: cert_request where
  "tls_request = cert_deploy_request (Some tls_issuer) (sample_desired\<lparr>ds_site := Some tls_site\<rparr>)"

lemma tls_issuers_keep: "issuers_keep f tls_tools tls_request"
  by (simp add: issuers_keep_def tls_request_def cert_deploy_request_def issuer_keeps_def tls_issuer_def tls_tools_def frame.ev_ret frame.ev_throw)
    (simp add: throw_def)

abbreviation tls_world :: world where
  "tls_world \<equiv> calm_world\<lparr>w_shell := file_shell Map.empty quiet_result\<rparr>"

lemma tls_key_vaulted: "\<exists>t. vault_key tls_world tls_tools ''site-3-tls'' ''key'' s = (Inr (), t)"
proof -
  have "auditable r" if "se_owner_type r = ''site''" "se_owner_id r = ''site-3-tls''" for r
    using that by (simp add: auditable_def partition_char_def Let_def isdigit_def is_digit_def)
  then obtain r t where "vault_put tls_world keyfile_vault TlsPrivateKey ''site'' ''site-3-tls'' ''key'' None s = (Inr r, t)"
    using keyfile_put_ok [of "''site''" "''site-3-tls''"] by blast
  then show ?thesis by (simp add: vault_key_def tls_tools_def bnd_def ret_def)
qed

theorem key_vaulted_before_put_witness:
  "\<exists>r t row. ensure_site_certificate tls_world tls_tools tls_request empty_hub = (r, t) \<and>
     Put ''key'' ''/srv/sites/shop/tls/key.pem.tmp'' 256 \<in> set (calls t) \<and> row \<in> set (secrets t) \<and> plain keyfile_vault row = Some ''key''"
proof -
  let ?q = tls_request
  have three: "digit 3 = CHR ''3''" by code_simp
  have q: "cq_site ?q = Some tls_site" "cert_slug ?q tls_site = ''shop''" "cq_transport ?q" "cq_issuer ?q = Some tls_issuer"
    "cert_exposure ?q \<noteq> JStr ''mesh_only''" "cert_proxied ?q" "cert_key_ref None tls_site = ''site-3-tls''" "existing_certificate empty_hub tls_site = None"
    by (simp_all add: tls_request_def cert_deploy_request_def sample_desired_def cert_slug_def cert_exposure_def tls_site_def jget_def exposure_text_def
        cert_proxied_def cert_key_ref_def str_nat.simps three existing_certificate_def newest_first_def)
  have tools: "ct_keypair tls_tools = (\<lambda>_ _. (''key'', ''csr''))" "ct_match tls_tools = (\<lambda>_ _. Inr True)" by (simp_all add: tls_tools_def)
  let ?u = "empty_hub\<lparr>ticks := Suc (ticks empty_hub)\<rparr>"
  obtain v where v: "vault_key tls_world tls_tools ''site-3-tls'' ''key'' ?u = (Inr (), v)" using tls_key_vaulted by blast
  have calls: "calls v = []" using vault_key_wire [OF _ v] keyfile_sound by (simp add: tls_tools_def)
  obtain r' t' where push: "push_tls_material tls_world ?q tls_site ''cert'' ''key'' (days 400) OriginCert ''site-3-tls'' v = (r', t')" by fastforce
  have "issue_origin tls_world tls_tools ?q tls_site None empty_hub = (r', t')"
    by (simp add: issue_origin_def Let_def bnd_def keypair_and_csr_def tools andThen_def q v [simplified] cert_issuer_of_def ret_def
        tls_issuer_def accept_issued_def of_sum_def push)
  then obtain r where run: "ensure_site_certificate tls_world tls_tools ?q empty_hub = (r, t')"
    by (cases r') (simp_all add: ensure_site_certificate_def q bnd_def [of "issue_origin tls_world tls_tools ?q tls_site None"] ret_def)
  obtain x where "sends (push_files tls_world (cq_heartbeat ?q) ''/srv/sites/shop/tls'' ''cert'' ''key'') (calls v) x
      (dir_calls ''/srv/sites/shop/tls'' @ pair_calls ''/srv/sites/shop/tls'' ''cert'' ''key'')"
    using server_push [OF file_shell_serves, of Map.empty quiet_result "cq_heartbeat ?q" "''/srv/sites/shop/tls''" "''cert''" "''key''" "calls v"]
    calls by (auto simp: fs_after_def)
  from sendsD [OF this] calls obtain t where files: "push_files tls_world (cq_heartbeat ?q) ''/srv/sites/shop/tls'' ''cert'' ''key'' v = (x, t)"
    "calls t = dir_calls ''/srv/sites/shop/tls'' @ pair_calls ''/srv/sites/shop/tls'' ''cert'' ''key''" by auto
  have "calls t' = calls t" using push files(1)
    by (cases x) (auto simp: push_tls_material_def q tls_dir_def andThen_def bnd_def create_certificate_def timezone_now_def Let_def ret_def)
  then have put: "Put ''key'' ''/srv/sites/shop/tls/key.pem.tmp'' 256 \<in> set (calls t')"
    by (simp add: files(2) pair_calls_def write_calls_def KEY_MODE_def)
  have "sound_crypto (ct_vault tls_tools)" using keyfile_sound by (simp add: tls_tools_def)
  from key_vaulted_before_put [OF this tls_issuers_keep run _ put] obtain row where "row \<in> set (secrets t')" "plain keyfile_vault row = Some ''key''"
    by (auto simp: q tls_dir_def tls_tools_def)
  with run put show ?thesis by blast
qed


section \<open>Renewal\<close>

text \<open>What the rows of a list end as, when each is either issued or refused.\<close>

lemma renew_rows_all_refused:
  assumes "\<And>r s. r \<in> set rs \<Longrightarrow> I s \<Longrightarrow> \<exists>m t. issue r s = (Inl (Dns01Error m), t) \<and> I t" "I s"
  shows "\<exists>t. renew_rows issue rs done_pks errs s = (Inr (done_pks, errs @ map tc_pk rs), t) \<and> I t"
  using assms
proof (induction rs arbitrary: errs s)
  case Nil
  then show ?case by (simp add: ret_def)
next
  case (Cons r rs)
  obtain m t where t: "issue r s = (Inl (Dns01Error m), t)" "I t" using Cons.prems(1) [of r s] Cons.prems(2) by auto
  from Cons.IH [OF Cons.prems(1) t(2), of "errs @ [tc_pk r]"] obtain u
    where "renew_rows issue rs done_pks (errs @ [tc_pk r]) t = (Inr (done_pks, errs @ map tc_pk (r # rs)), u)" "I u" by auto
  with t(1) show ?case by (simp add: bnd_def try_except_def andThen_def ret_def)
qed


text \<open>The request of a renewal has no transport, so nothing can be pushed for it.\<close>

lemma row_request_push: "push_tls_material w (row_request site) st cert_pem key_pem t mode ref = throw (KeyError ''transport'')"
  by (simp add: push_tls_material_def row_request_def)

definition public_rows :: "hub \<Rightarrow> tls_certificate list \<times> call list \<times> check_run list" where
  "public_rows s = (tls_certificates s, calls s, check_runs s)"

lemma public_rows_frames:
  "evolves (same public_rows) (timezone_now w)" "evolves (same public_rows) (keypair_and_csr E hs)" "evolves (same public_rows) (accept_issued w E k issued)"
  "evolves (same public_rows) (vault_put w v kind ot oid p actor)" "evolves (same public_rows) (finding w e fp ws flds)"
  "evolves (same public_rows) (throw e')"
proof -
  show now: "evolves (same public_rows) (timezone_now w)" by (rule timezone_now_frame) (simp add: public_rows_def)
  show "evolves (same public_rows) (keypair_and_csr E hs)" by (simp add: evolves_def same_def keypair_and_csr_def public_rows_def)
  show "evolves (same public_rows) (accept_issued w E k issued)" unfolding accept_issued_def by (intro frame.ev_rules sum_cores now)
  show "evolves (same public_rows) (vault_put w v kind ot oid p actor)"
    by (rule frame_through [OF vault_put_beside]) (simp add: public_rows_def beside_put_def beside_journal_def)
  show "evolves (same public_rows) (finding w e fp ws flds)"
    by (rule frame_through [OF finding_engine]) (simp add: public_rows_def beside_engine_def)
  show "evolves (same public_rows) (throw e')" by (rule frame.ev_throw)
qed

lemma ensure_row_public:
  assumes "issuers_keep public_rows E (row_request tls_site)"
  shows "evolves (same public_rows) (ensure_row w E r)"
proof -
  have k: "issuers_keep public_rows E (row_request st)" for st using assms by (simp add: issuers_keep_def row_request_def)
  have "evolves (same public_rows) (issue_origin w E (row_request st) site existing)" for st site existing
    unfolding issue_origin_def vault_key_def Let_def row_request_push
    by (intro frame.ev_rules public_rows_frames frame_bnd_result [OF issuer_of_keeps(1)] k)
      (use issuer_of_keeps(2) [OF k] in \<open>auto simp: issuer_keeps_def\<close>)
  moreover have "evolves (same public_rows) (issue_unproxied w E (row_request st) site)" for st site
  proof -
    have "issue_unproxied w E (row_request st) site = andThen (refuse_unproxied w site) (throw (Dns01Error ''dns01 refused''))"
      by (simp add: issue_unproxied_def row_request_def)
    moreover have "evolves (same public_rows) (andThen (refuse_unproxied w site) (throw (Dns01Error ''dns01 refused'')))"
      unfolding refuse_unproxied_def by (intro frame.ev_rules public_rows_frames)
    ultimately show ?thesis by simp
  qed
  ultimately show ?thesis unfolding ensure_row_def ensure_site_certificate_def by (intro frame.ev_rules public_rows_frames)
qed

lemma renew_rows_public: "(\<And>r. evolves (same public_rows) (issue r)) \<Longrightarrow> evolves (same public_rows) (renew_rows issue rs a b)"
proof (induction rs arbitrary: a b)
  case Nil
  show ?case by (simp add: frame.ev_ret)
next
  case (Cons r rs)
  have "evolves (same public_rows) (case e of Dns01Error m \<Rightarrow> ret False | _ \<Rightarrow> throw e)" for e
    by (cases e) (simp_all add: frame.ev_ret frame.ev_throw)
  with Cons show ?case by (simp del: evolves_def) (intro frame.ev_rules; simp)
qed

text \<open>
  The scheduled renewal neither reaches a target nor records a certificate. Its requests carry no transport and no DNS
  seam, so whatever rows are due, no command is sent and no certificate row appears; when it returns, exactly its own run is
  recorded, as failed if and only if some row was refused, and when it raises not even the run is.
\<close>

theorem renewal_sends_nothing:
  assumes "issuers_keep public_rows E (row_request tls_site)" "renew_due w E now None s = (r, t)"
  shows "tls_certificates t = tls_certificates s \<and> calls t = calls s \<and>
    (case r of Inl e \<Rightarrow> check_runs t = check_runs s
     | Inr run \<Rightarrow> check_runs t = check_runs s @ [run] \<and> cr_kind run = ''hub_dns01'' \<and>
         (\<exists>renewed errors. check_run.cr_results run = JObj [(''schema_version'', JInt 1), (''renewed'', jpks renewed), (''errors'', jpks errors)] \<and>
            cr_status run = (if errors = [] then ChkSucceeded else ChkFailed)))"
proof -
  have rows: "evolves (same public_rows) (renew_rows (ensure_row w E) rs [] [])" for rs
    by (rule renew_rows_public [OF ensure_row_public [OF assms(1)]])
  have now: "evolves (same public_rows) (case now of Some t \<Rightarrow> ret t | None \<Rightarrow> timezone_now w)"
    by (intro frame.ev_rules public_rows_frames)
  from assms(2) show ?thesis unfolding renew_due_def
  proof (cases rule: bnd_cases)
    case (raised e)
    with frameD [OF now raised(1)] show ?thesis by (simp add: public_rows_def)
  next
    case (returned clock u)
    have u: "public_rows u = public_rows s" using frameD [OF now returned(1)] .
    from returned(2) [simplified] show ?thesis
    proof (cases rule: bnd_cases)
      case (raised e)
      with frameD [OF rows raised(1)] u show ?thesis by (simp add: public_rows_def)
    next
      case (returned x v)
      moreover have "public_rows v = public_rows s" using frameD [OF rows returned(1)] u by simp
      ultimately show ?thesis
        by (cases x) (auto simp: bnd_def timezone_now_def create_check_run_def Let_def public_rows_def, blast+)
    qed
  qed
qed

definition tls_zone :: dns_zone where
  "tls_zone = \<lparr>dz_pk = 1, dz_account = \<lparr>a_pk = 1, a_workspace = 1, a_provider = Cloudflare, a_label = ''cf'', a_dns_token_ref = ''d'',
     a_edge_token_ref = ''e'', a_origin_ca_key_ref = ''o''\<rparr>, dz_provider = ''cloudflare'', dz_name = ''example.test'', dz_provider_zone_id = ''z'',
     dz_purpose = PurposeProd, dz_proxied_default = True\<rparr>"

text \<open>A certificate of the DNS challenge that has expired, on a site that was put behind the proxy since.\<close>

definition lapsed :: tls_certificate where
  "lapsed = \<lparr>tc_pk = 1, tc_site = 3, tc_mode = HubDns01, tc_not_after = Some 0, tc_fingerprint = [], tc_key_ref = ''site-3-tls'', tc_pushed_at = Some 0\<rparr>"

definition lapsed_hub :: hub where
  "lapsed_hub = empty_hub\<lparr>sites := [tls_site\<lparr>s_dns_zone := Some tls_zone\<rparr>], tls_certificates := [lapsed]\<rparr>"

definition issuing_tools :: cert_tools where
  "issuing_tools = tls_tools\<lparr>ct_issuer_for := (\<lambda>_. ret tls_issuer)\<rparr>"

lemma lapsed_due: "latest_hub_dns01_due lapsed_hub 5 = [lapsed]"
  by (simp add: latest_hub_dns01_due_def newest_first_def lapsed_hub_def lapsed_def still_fresh_def days_def hours_def minutes_def seconds_def RENEW_BEFORE_DAYS_def)

lemma issuing_keeps: "issuers_keep f issuing_tools (row_request tls_site)"
proof -
  have "issuer_keeps f tls_issuer" by (simp add: issuer_keeps_def tls_issuer_def frame.ev_ret)
  then show ?thesis by (simp add: issuers_keep_def row_request_def issuing_tools_def frame.ev_ret) (simp add: ret_def)
qed

theorem renewal_sends_nothing_witness:
  "calls (snd (renew_due calm_world issuing_tools (Some 5) None lapsed_hub)) = [] \<and>
   tls_certificates (snd (renew_due calm_world issuing_tools (Some 5) None lapsed_hub)) = [lapsed]"
proof -
  obtain r t where rt: "renew_due calm_world issuing_tools (Some 5) None lapsed_hub = (r, t)" by fastforce
  from renewal_sends_nothing [OF issuing_keeps rt] rt show ?thesis by (simp add: lapsed_hub_def)
qed

text \<open>
  The renewal does not survive a site that was put behind the proxy. Its request is issued as an origin certificate: the key
  is vaulted and the issuer answers, and then the missing transport raises a \<open>KeyError\<close>, which the loop does not catch. The other
  due rows are not tried and no run is recorded.
\<close>

theorem renewal_stops_at_proxied_site:
  "\<exists>t. renew_due tls_world issuing_tools (Some 5) None lapsed_hub = (Inl (KeyError ''transport''), t) \<and> check_runs t = [] \<and> secrets t \<noteq> []"
proof -
  let ?st = "tls_site\<lparr>s_dns_zone := Some tls_zone\<rparr>"
  let ?q = "row_request ?st"
  let ?u = "lapsed_hub\<lparr>ticks := Suc (Suc (ticks lapsed_hub))\<rparr>"
  have site: "site_by_pk lapsed_hub 3 = Some ?st" by (simp add: site_by_pk_def lapsed_hub_def tls_site_def)
  have ex: "existing_certificate lapsed_hub ?st = Some lapsed"
    by (simp add: existing_certificate_def newest_first_def lapsed_hub_def lapsed_def tls_site_def)
  have q: "cq_site ?q = Some ?st" "cert_exposure ?q \<noteq> JStr ''mesh_only''" "cert_proxied ?q" "cq_issuer ?q = None" "cert_zone ?q ?st = Some tls_zone"
    "cert_key_ref (Some lapsed) ?st = ''site-3-tls''" "tc_mode lapsed = HubDns01" "tc_site lapsed = 3"
    by (simp_all add: row_request_def cert_exposure_def tls_site_def jget_def exposure_text_def cert_proxied_def cert_zone_def cert_key_ref_def lapsed_def)
  have stale: "\<not> still_fresh lapsed (w_clock tls_world n)" for n
    by (simp add: still_fresh_def lapsed_def calm_world_def days_def hours_def minutes_def seconds_def RENEW_BEFORE_DAYS_def)
  have tools: "ct_keypair issuing_tools = (\<lambda>_ _. (''key'', ''csr''))" "ct_match issuing_tools = (\<lambda>_ _. Inr True)"
    "ct_issuer_for issuing_tools = (\<lambda>_. ret tls_issuer)" "vault_key tls_world issuing_tools = vault_key tls_world tls_tools"
    by (simp_all add: issuing_tools_def tls_tools_def vault_key_def fun_eq_iff)
  obtain v where v: "vault_key tls_world tls_tools ''site-3-tls'' ''key'' ?u = (Inr (), v)" using tls_key_vaulted by blast
  have "issue_origin tls_world issuing_tools ?q ?st (Some lapsed) (lapsed_hub\<lparr>ticks := Suc (ticks lapsed_hub)\<rparr>) = (Inl (KeyError ''transport''), v)"
    by (simp add: issue_origin_def Let_def bnd_def keypair_and_csr_def tools andThen_def q v [simplified] cert_issuer_of_def ret_def
        tls_issuer_def accept_issued_def of_sum_def row_request_push throw_def)
  then have "ensure_site_certificate tls_world issuing_tools ?q lapsed_hub = (Inl (KeyError ''transport''), v)"
    using stale by (simp add: ensure_site_certificate_def q ex bnd_now
        bnd_def [of "issue_origin tls_world issuing_tools ?q ?st (Some lapsed)"])
  then have row: "ensure_row tls_world issuing_tools lapsed lapsed_hub = (Inl (KeyError ''transport''), v)"
    by (simp add: ensure_row_def q site bnd_def [of "ensure_site_certificate tls_world issuing_tools ?q"])
  then have "renew_rows (ensure_row tls_world issuing_tools) [lapsed] [] [] lapsed_hub = (Inl (KeyError ''transport''), v)"
    by (simp add: bnd_def try_except_def andThen_def throw_def)
  then have "renew_due tls_world issuing_tools (Some 5) None lapsed_hub = (Inl (KeyError ''transport''), v)"
    by (simp add: renew_due_def lapsed_due bnd_def [of "renew_rows _ _ _ _"] del: renew_rows.simps)
  moreover have "check_runs v = []"
    using frameD [OF ensure_row_public [OF issuing_keeps] row] by (simp add: public_rows_def lapsed_hub_def)
  moreover have "secrets v \<noteq> []" using vault_key_wire [OF _ v] keyfile_sound by (auto simp: tls_tools_def wrapped_key_row_def)
  ultimately show ?thesis by blast
qed


section \<open>The expiry watch\<close>

text \<open>The severities that the rows of one site give, in the order of the scan.\<close>

definition site_alarms :: "time \<Rightarrow> nat \<Rightarrow> tls_certificate list \<Rightarrow> severity list" where
  "site_alarms now k rs = List.map_filter (\<lambda>r. if tc_site r = k then classify_expiry r now else None) rs"

lemma site_alarms_simps [simp]:
  "site_alarms now k [] = []"
  "site_alarms now k (r # rs) = (case classify_expiry r now of Some sev \<Rightarrow> if tc_site r = k then [sev] else [] | None \<Rightarrow> []) @ site_alarms now k rs"
  by (simp_all add: site_alarms_def List.map_filter_simps split: option.split)

lemma not_blank_Cons: "\<not> is_space c \<Longrightarrow> \<not> blank (c # cs)"
  by (auto simp: blank_def strip_eq_Nil_iff)

lemma cert_copy: "copy_given (cert_finding r site t sev now)"
proof -
  have "\<not> is_space (CHR ''C'')" "\<not> is_space (CHR ''o'')" "\<not> is_space (CHR ''u'')" "\<not> is_space (CHR ''a'')" "\<not> is_space (CHR ''h'')"
    "\<not> is_space (CHR ''U'')" "\<not> is_space (CHR ''I'')" by (simp_all add: is_space_def)
  then show ?thesis
    by (cases "tc_mode r") (simp_all add: copy_given_def cert_finding_def cert_fix_action_def Let_def not_blank_Cons)
qed

definition expiry_fp :: "nat \<Rightarrow> string" where
  "expiry_fp k = ''cert-expiry:'' @ str_nat k"

lemma expiry_fp_inj [simp]: "expiry_fp j = expiry_fp k \<longleftrightarrow> j = k"
  by (simp add: expiry_fp_def)

definition beside_findings :: "hub \<Rightarrow> hub" where
  "beside_findings s = (beside_journal s)\<lparr>findings := []\<rparr>"

lemma beside_findings_fields:
  assumes "beside_findings t = beside_findings s"
  shows "sites t = sites s" "tls_certificates t = tls_certificates s" "check_runs t = check_runs s" "stream_wired t = stream_wired s"
  using arg_cong [OF assms, of sites] arg_cong [OF assms, of tls_certificates] arg_cong [OF assms, of check_runs] arg_cong [OF assms, of stream_wired]
  by (simp_all add: beside_findings_def beside_journal_def)

text \<open>One row: its site's finding is filed, or nothing changes.\<close>

lemma scan_one_ok:
  assumes "findings_wf s" "stream_wired s" "site_by_pk s (tc_site r) = Some site" "s_pk site = tc_site r"
  shows "\<exists>x t. scan_one w now r s = (Inr x, t) \<and> findings_wf t \<and> beside_findings t = beside_findings s \<and>
    (\<forall>ws fp. case classify_expiry r now of
       Some sev \<Rightarrow> if (ws, fp) = (s_workspace site, expiry_fp (tc_site r))
         then \<exists>row. finding_at t ws fp = Some row \<and> f_severity row = sev \<and> f_state row \<noteq> Resolved else finding_at t ws fp = finding_at s ws fp
     | None \<Rightarrow> finding_at t ws fp = finding_at s ws fp)"
proof (cases "classify_expiry r now")
  case None
  then show ?thesis using assms by (simp add: scan_one_def andThen_def) (simp add: ret_def)
next
  case (Some sev)
  then obtain x where x: "tc_not_after r = Some x" by (auto simp: classify_expiry_def split: option.splits)
  let ?f = "cert_finding r site x sev now" and ?fp = "expiry_fp (tc_site r)"
  obtain t where t: "finding w ''cert_watch'' ?fp (Some (s_workspace site)) ?f s =
      (Inr (filed_row s ''cert_watch'' (s_workspace site) ?fp ?f (w_clock w (ticks s))), t)"
    "announced (announcements s (s_workspace site) ?fp) (s\<lparr>findings := filed s ''cert_watch'' (s_workspace site) ?fp ?f (w_clock w (ticks s))\<rparr>) t"
    using finding_ok [OF assms(2) cert_copy] by blast
  let ?row = "filed_row s ''cert_watch'' (s_workspace site) ?fp ?f (w_clock w (ticks s))"
  have fs: "findings t = filed s ''cert_watch'' (s_workspace site) ?fp ?f (w_clock w (ticks s))" using announced_fields [OF t(2)] by simp
  have "findings_wf t" using filed_wf [OF assms(1)] fs by (simp add: findings_wf_def)
  moreover have "beside_findings t = beside_findings s"
    using t(2) arg_cong [of "beside_journal t" _ "\<lambda>h. h\<lparr>findings := []\<rparr>"] by (fastforce simp: announced_def beside_findings_def beside_journal_def)
  moreover have "finding_at t ws fp = (if (ws, fp) = (s_workspace site, ?fp) then Some ?row else finding_at s ws fp)" for ws fp
    using finding_at_filed [OF assms(1), of "''cert_watch''" "s_workspace site" ?fp ?f "w_clock w (ticks s)" ws fp] fs by (simp add: finding_at_def)
  moreover have "f_severity ?row = sev" "f_state ?row \<noteq> Resolved"
    by (auto simp: filed_row_def fresh_row_def refreshed_def cert_finding_def Let_def split: option.split)
  moreover have "scan_one w now r s = (Inr (JObj [(''site'', JStr (s_name site)), (''mode'', JStr (tls_mode_text (tc_mode r))),
       (''severity'', JStr (finding_severity_text sev))]), t)"
    using t(1) Some x assms(3,4) by (simp add: scan_one_def andThen_def bnd_assoc expiry_fp_def) (simp add: bnd_def ret_def)
  ultimately show ?thesis using Some by auto
qed

lemma scan_rows_ok:
  assumes "findings_wf s" "stream_wired s" "\<forall>r \<in> set rs. \<exists>site. site_by_pk s (tc_site r) = Some site \<and> s_pk site = tc_site r"
  shows "\<exists>xs t. scan_rows w now rs s = (Inr xs, t) \<and> findings_wf t \<and> beside_findings t = beside_findings s \<and>
    (\<forall>k site. site_by_pk s k = Some site \<longrightarrow>
      (if site_alarms now k rs = [] then finding_at t (s_workspace site) (expiry_fp k) = finding_at s (s_workspace site) (expiry_fp k)
       else \<exists>row. finding_at t (s_workspace site) (expiry_fp k) = Some row \<and> f_severity row = last (site_alarms now k rs) \<and> f_state row \<noteq> Resolved))"
  using assms
proof (induction rs arbitrary: s)
  case Nil
  then show ?case by (simp add: ret_def)
next
  case (Cons r rs)
  obtain st where st: "site_by_pk s (tc_site r) = Some st" "s_pk st = tc_site r" using Cons.prems(3) by auto
  obtain x u where u: "scan_one w now r s = (Inr x, u)" "findings_wf u" "beside_findings u = beside_findings s"
    and f: "\<And>ws fp. case classify_expiry r now of
       Some sev \<Rightarrow> if (ws, fp) = (s_workspace st, expiry_fp (tc_site r))
         then \<exists>row. finding_at u ws fp = Some row \<and> f_severity row = sev \<and> f_state row \<noteq> Resolved else finding_at u ws fp = finding_at s ws fp
     | None \<Rightarrow> finding_at u ws fp = finding_at s ws fp"
    using scan_one_ok [OF Cons.prems(1,2) st] by blast
  note bf = beside_findings_fields [OF u(3)]
  have sb: "site_by_pk u = site_by_pk s" by (simp add: site_by_pk_def fun_eq_iff bf)
  obtain xs t where t: "scan_rows w now rs u = (Inr xs, t)" "findings_wf t" "beside_findings t = beside_findings u"
    and g: "\<And>k site. site_by_pk u k = Some site \<Longrightarrow>
      (if site_alarms now k rs = [] then finding_at t (s_workspace site) (expiry_fp k) = finding_at u (s_workspace site) (expiry_fp k)
       else \<exists>row. finding_at t (s_workspace site) (expiry_fp k) = Some row \<and> f_severity row = last (site_alarms now k rs) \<and> f_state row \<noteq> Resolved)"
    using Cons.IH [OF u(2)] Cons.prems(2,3) sb bf by auto
  have "scan_rows w now (r # rs) s = (Inr (x # xs), t)" using u(1) t(1) by (simp add: bnd_def ret_def)
  moreover have "if site_alarms now k (r # rs) = [] then finding_at t (s_workspace site) (expiry_fp k) = finding_at s (s_workspace site) (expiry_fp k)
       else \<exists>row. finding_at t (s_workspace site) (expiry_fp k) = Some row \<and> f_severity row = last (site_alarms now k (r # rs)) \<and> f_state row \<noteq> Resolved"
    if "site_by_pk s k = Some site" for k site
    using g [of k site] f [of "s_workspace site" "expiry_fp k"] that st(1)
    by (cases "site_alarms now k rs = []"; cases "tc_site r = k"; cases "classify_expiry r now") (auto simp: sb)
  ultimately show ?case using t(2,3) u(3) by metis
qed

text \<open>
  The expiry watch reports every certificate that is in a window, and nothing else. The scan always succeeds and records
  one run; afterwards the expiry finding of a site is open with the severity of the last of its rows that has one, and is
  untouched when none has. The rows are all that were ever pushed, so a superseded row keeps its site's finding alive.
\<close>

theorem expiry_scan_outcome:
  assumes "findings_wf s" "stream_wired s" "\<forall>r \<in> set (tls_certificates s). \<exists>site. site_by_pk s (tc_site r) = Some site \<and> s_pk site = tc_site r"
  shows "\<exists>run t. scan_cert_expiry w (Some now) s = (Inr run, t) \<and> cr_status run = ChkSucceeded \<and> check_runs t = check_runs s @ [run] \<and>
    (\<forall>k site. site_by_pk s k = Some site \<longrightarrow> (let alarms = site_alarms now k (sort_key tc_pk (tls_certificates s)) in
      if alarms = [] then finding_at t (s_workspace site) (expiry_fp k) = finding_at s (s_workspace site) (expiry_fp k)
      else \<exists>row. finding_at t (s_workspace site) (expiry_fp k) = Some row \<and> f_severity row = last alarms \<and> f_state row \<noteq> Resolved))"
proof -
  have "\<forall>r \<in> set (sort_key tc_pk (tls_certificates s)). \<exists>site. site_by_pk s (tc_site r) = Some site \<and> s_pk site = tc_site r" using assms(3) by simp
  from scan_rows_ok [OF assms(1,2) this, of w now] obtain xs u where u: "scan_rows w now (sort_key tc_pk (tls_certificates s)) s = (Inr xs, u)"
    "beside_findings u = beside_findings s" and f: "\<And>k site. site_by_pk s k = Some site \<Longrightarrow>
      (if site_alarms now k (sort_key tc_pk (tls_certificates s)) = [] then finding_at u (s_workspace site) (expiry_fp k) = finding_at s (s_workspace site) (expiry_fp k)
       else \<exists>row. finding_at u (s_workspace site) (expiry_fp k) = Some row \<and> f_severity row = last (site_alarms now k (sort_key tc_pk (tls_certificates s))) \<and> f_state row \<noteq> Resolved)"
    by blast
  obtain run t where "scan_cert_expiry w (Some now) s = (Inr run, t)" "cr_status run = ChkSucceeded" "check_runs t = check_runs s @ [run]" "findings t = findings u"
    using u(1) beside_findings_fields(3) [OF u(2)]
    by (simp add: scan_cert_expiry_def bnd_def [of "scan_rows _ _ _"] record_run_def bnd_now create_check_run_def Let_def)
  moreover from this(4) have "finding_at t = finding_at u" by (simp add: finding_at_def fun_eq_iff)
  ultimately show ?thesis unfolding Let_def using f by metis
qed

text \<open>The site whose expired certificate was replaced years before the replacement expires.\<close>

definition replaced_hub :: hub where
  "replaced_hub = lapsed_hub\<lparr>tls_certificates := [lapsed, lapsed\<lparr>tc_pk := 2, tc_not_after := Some (days 900), tc_pushed_at := Some 1\<rparr>]\<rparr>"

lemma replaced_alarms: "site_alarms (days 1) 3 (sort_key tc_pk (tls_certificates replaced_hub)) = [P1]"
  by (simp add: replaced_hub_def lapsed_def classify_expiry_def AUTO_MODES_def AUTO_THRESHOLDS_def days_def hours_def minutes_def seconds_def)

lemma replaced_site: "site_by_pk replaced_hub 3 = Some (tls_site\<lparr>s_dns_zone := Some tls_zone\<rparr>)"
  by (simp add: site_by_pk_def replaced_hub_def lapsed_hub_def tls_site_def)

theorem expiry_scan_outcome_witness:
  "\<exists>run t row. scan_cert_expiry calm_world (Some (days 1)) replaced_hub = (Inr run, t) \<and> finding_at t 1 (expiry_fp 3) = Some row \<and> f_severity row = P1"
proof -
  have "\<forall>r \<in> set (tls_certificates replaced_hub). \<exists>site. site_by_pk replaced_hub (tc_site r) = Some site \<and> s_pk site = tc_site r"
    using replaced_site by (simp add: replaced_hub_def lapsed_def tls_site_def)
  moreover have "findings_wf replaced_hub" "stream_wired replaced_hub" by (simp_all add: findings_wf_def replaced_hub_def lapsed_hub_def)
  ultimately show ?thesis using expiry_scan_outcome [of replaced_hub calm_world "days 1"] replaced_alarms replaced_site
    by (fastforce simp: Let_def tls_site_def)
qed

text \<open>
  The watch keeps alarming after a renewal: the first row of \<open>replaced_hub\<close> has expired, the second replaces it and is good
  for years, so the service skips the site; the scan still files a finding of the highest severity for it.
\<close>

theorem replaced_certificate_still_alarms:
  "existing_certificate replaced_hub (tls_site\<lparr>s_dns_zone := Some tls_zone\<rparr>) = Some (lapsed\<lparr>tc_pk := 2, tc_not_after := Some (days 900), tc_pushed_at := Some 1\<rparr>)"
  "still_fresh (lapsed\<lparr>tc_pk := 2, tc_not_after := Some (days 900), tc_pushed_at := Some 1\<rparr>) (days 1)"
  "\<exists>row. finding_at (snd (scan_cert_expiry calm_world (Some (days 1)) replaced_hub)) 1 (expiry_fp 3) = Some row \<and> f_severity row = P1 \<and> f_state row \<noteq> Resolved"
proof -
  show "existing_certificate replaced_hub (tls_site\<lparr>s_dns_zone := Some tls_zone\<rparr>) = Some (lapsed\<lparr>tc_pk := 2, tc_not_after := Some (days 900), tc_pushed_at := Some 1\<rparr>)"
    by (simp add: existing_certificate_def newest_first_def replaced_hub_def lapsed_hub_def lapsed_def tls_site_def)
  show "still_fresh (lapsed\<lparr>tc_pk := 2, tc_not_after := Some (days 900), tc_pushed_at := Some 1\<rparr>) (days 1)"
    by (simp add: still_fresh_def lapsed_def days_def hours_def minutes_def seconds_def RENEW_BEFORE_DAYS_def)
  let ?rs = "sort_key tc_pk (tls_certificates replaced_hub)"
  have "\<forall>r \<in> set ?rs. \<exists>site. site_by_pk replaced_hub (tc_site r) = Some site \<and> s_pk site = tc_site r"
    using replaced_site by (simp add: replaced_hub_def lapsed_def tls_site_def)
  moreover have "findings_wf replaced_hub" "stream_wired replaced_hub" by (simp_all add: findings_wf_def replaced_hub_def lapsed_hub_def)
  ultimately obtain xs t row where "scan_rows calm_world (days 1) ?rs replaced_hub = (Inr xs, t)" "finding_at t 1 (expiry_fp 3) = Some row"
    "f_severity row = P1" "f_state row \<noteq> Resolved"
    using scan_rows_ok [of replaced_hub ?rs calm_world "days 1"] replaced_alarms replaced_site by (fastforce simp: tls_site_def)
  then show "\<exists>row. finding_at (snd (scan_cert_expiry calm_world (Some (days 1)) replaced_hub)) 1 (expiry_fp 3) = Some row \<and> f_severity row = P1 \<and> f_state row \<noteq> Resolved"
    by (simp add: scan_cert_expiry_def bnd_def [of "scan_rows _ _ _"] record_run_def bnd_now create_check_run_def Let_def finding_at_def)
qed

text \<open>
  A move that fails goes unnoticed: the service reads none of the answers to its file commands, so on a target that refuses every
  move it reports the pair as issued and records the row, although neither file is in place.
\<close>

definition stuck_shell :: "call list \<Rightarrow> exn + cmd_result" where
  "stuck_shell cs = Inr (case last cs of
     Run argv \<Rightarrow> if take 2 argv = [''sudo'', ''mv''] then quiet_result\<lparr>exit_code := 1\<rparr> else quiet_result
   | Probe _ \<Rightarrow> quiet_result\<lparr>exit_code := 1\<rparr> | _ \<Rightarrow> quiet_result)"

theorem failed_moves_unnoticed:
  "\<exists>t row. push_tls_material (calm_world\<lparr>w_shell := stuck_shell\<rparr>) tls_request tls_site ''cert'' ''key'' 9 OriginCert ''ref'' empty_hub =
     (Inr (Issued 1 ''ref''), t) \<and> tls_certificates t = [row] \<and>
   stuck_shell [Run [''sudo'', ''mv'', ''/srv/sites/shop/tls/key.pem.tmp'', ''/srv/sites/shop/tls/key.pem'']] = Inr (quiet_result\<lparr>exit_code := 1\<rparr>)"
proof -
  have q: "cert_slug tls_request tls_site = ''shop''" "cq_transport tls_request" "cq_heartbeat tls_request = None"
    by (simp_all add: tls_request_def cert_deploy_request_def sample_desired_def cert_slug_def)
  have shell: "w_shell (calm_world\<lparr>w_shell := stuck_shell\<rparr>) = stuck_shell" by simp
  show ?thesis
    by (simp add: push_tls_material_def q cert_file_defs beat_def shell_call_def bnd_def andThen_def try_except_def try_finally_def ret_def when_do_def
        stuck_shell_def result_ok_def quiet_result_def tls_dir_def create_certificate_def timezone_now_def next_pk_def)
qed

end
