(* ===== verification/Traffic.thy ===== *)
theory Traffic
  imports Attack Steps "HOL-Library.AList"
begin

text \<open>
  The collection cycle: \<open>_log_chunk\<close> and \<open>_summarize\<close> of \<open>monitor/collect_once.py\<close>, which run on a target, \<open>monitor/collector.py\<close>,
  \<open>monitor/traffic.py\<close> and \<open>collect_all\<close> of \<open>monitor/tasks.py\<close>. A log is its content and inode at the moment it is read; bytes are
  texts, and decoding keeps them. Dictionaries are association lists in insertion order. Sleeping is not modelled. The sample of
  \<open>monitor/host_metrics.py\<close>, the script text and the edge registry are fields of \<open>collect_env\<close>.
\<close>

section \<open>Python helpers\<close>

definition NEWLINE :: char where "NEWLINE = char_of (10 :: nat)"

definition bump :: "string \<Rightarrow> int \<Rightarrow> (string \<times> int) list \<Rightarrow> (string \<times> int) list" where
  "bump k n d = AList.update k ((case map_of d k of None \<Rightarrow> 0 | Some m \<Rightarrow> m) + n) d"

text \<open>\<open>int(raw or 0)\<close>, and 0 when that raises.\<close>

definition int_or_0 :: "json \<Rightarrow> int" where
  "int_or_0 raw = (case py_int (or_else raw (JInt 0)) of Inl _ \<Rightarrow> 0 | Inr i \<Rightarrow> i)"

text \<open>\<open>s.rsplit(c, 1)[0]\<close>.\<close>

definition before_last :: "char \<Rightarrow> string \<Rightarrow> string" where
  "before_last c s = (if c \<in> set s then rev (tl (dropWhile (\<lambda>x. x \<noteq> c) (rev s))) else s)"

text \<open>\<open>s.splitlines()\<close>: a carriage return and a line feed after it end one line.\<close>

definition line_break :: "char \<Rightarrow> bool" where
  "line_break c = (let n = of_char c :: nat in (10 \<le> n \<and> n \<le> 13) \<or> (28 \<le> n \<and> n \<le> 30) \<or> n = 133)"

function splitlines :: "string \<Rightarrow> string list" where
  "splitlines s = (if s = [] then [] else
     (let l = takeWhile (\<lambda>c. \<not> line_break c) s; r = dropWhile (\<lambda>c. \<not> line_break c) s in
      l # splitlines (case r of a # b # u \<Rightarrow> if of_char a = (13 :: nat) \<and> of_char b = (10 :: nat) then u else b # u | _ \<Rightarrow> [])))"
  by auto
termination
proof (relation "measure length")
  fix s l r :: string
  assume "s \<noteq> []" "l = takeWhile (\<lambda>c. \<not> line_break c) s" "r = dropWhile (\<lambda>c. \<not> line_break c) s"
  moreover have "length (dropWhile (\<lambda>c. \<not> line_break c) s) \<le> length s" by (simp add: length_dropWhile_le)
  ultimately show "((case r of a # b # u \<Rightarrow> if of_char a = (13 :: nat) \<and> of_char b = (10 :: nat) then u else b # u | _ \<Rightarrow> []), s) \<in> measure length"
    by (auto split: list.split)
qed simp

declare splitlines.simps [simp del]

definition record_request :: "(string \<times> json) list \<Rightarrow> (string \<times> json) list" where
  "record_request rec = obj_fields (jget rec ''request'')"

definition host_of :: "(string \<times> json) list \<Rightarrow> string" where
  "host_of rec = lower (before_last (CHR '':'') (py_str (or_else (jget (record_request rec) ''host'') (JStr []))))"

text \<open>What a line of the log says: a request, or something malformed.\<close>

definition log_record :: "world \<Rightarrow> string \<Rightarrow> (string \<times> json) list option" where
  "log_record w line = (case w_loads w line of Some (JObj d) \<Rightarrow> if has_key d ''status'' then Some d else None | _ \<Rightarrow> None)"


section \<open>On the target (\<open>monitor/collect_once.py\<close>)\<close>

definition CHUNK :: nat where "CHUNK = 65536"
definition SUMMARY_SCAN_CAP :: nat where "SUMMARY_SCAN_CAP = 8388608"
definition MAX_LINE :: nat where "MAX_LINE = 1048576"
definition TOP_IPS :: nat where "TOP_IPS = 10"
definition MAX_TRACKED_IPS :: nat where "MAX_TRACKED_IPS = 4096"
definition MAX_TRACKED_HOSTS :: nat where "MAX_TRACKED_HOSTS = 64"

record bucket =
  bk_requests :: int
  bk_bytes :: int
  bk_status :: "(string \<times> int) list"

record summary =
  sm_requests :: int
  sm_bytes :: int
  sm_malformed :: int
  sm_statuses :: "(string \<times> int) list"
  sm_ips :: "(string \<times> int) list"
  sm_dropped_ips :: int
  sm_hosts :: "(string \<times> bucket) list"

definition empty_bucket :: bucket where
  "empty_bucket = \<lparr>bk_requests = 0, bk_bytes = 0, bk_status = []\<rparr>"

definition empty_summary :: summary where
  "empty_summary = \<lparr>sm_requests = 0, sm_bytes = 0, sm_malformed = 0, sm_statuses = [], sm_ips = [], sm_dropped_ips = 0, sm_hosts = []\<rparr>"

text \<open>\<open>fh.readline(n)\<close>: the line read, of at most \<open>n\<close> bytes; what is left is the rest of the text.\<close>

definition readline :: "nat \<Rightarrow> string \<Rightarrow> string" where
  "readline n text = take n (takeWhile (\<lambda>c. c \<noteq> NEWLINE) text @ (if NEWLINE \<in> set text then [NEWLINE] else []))"

definition ends_line :: "string \<Rightarrow> bool" where
  "ends_line line = (line \<noteq> [] \<and> last line = NEWLINE)"

lemma readline_Nil [simp]: "readline n [] = []"
  by (simp add: readline_def)

lemma readline_progress: "readline n buf \<noteq> [] \<Longrightarrow> length buf - (length (readline n buf) + k) < length buf"
proof -
  assume "readline n buf \<noteq> []"
  then have "buf \<noteq> []" "0 < length (readline n buf)" by auto
  then show ?thesis by (simp add: diff_less)
qed

text \<open>The rest of a line that is too long, in bounded reads: how many bytes it has.\<close>

function swallow :: "string \<Rightarrow> nat" where
  "swallow text = (let extra = readline MAX_LINE text in
     if extra = [] \<or> ends_line extra then length extra else length extra + swallow (drop (length extra) text))"
  by auto
termination
  by (relation "measure length") (auto simp: readline_progress [of _ _ 0, simplified])

declare swallow.simps [simp del]

definition tally :: "string \<Rightarrow> int \<Rightarrow> bucket \<Rightarrow> bucket" where
  "tally status sz b = \<lparr>bk_requests = bk_requests b + 1, bk_bytes = bk_bytes b + sz, bk_status = bump status 1 (bk_status b)\<rparr>"

definition tally_host :: "string \<Rightarrow> string \<Rightarrow> int \<Rightarrow> (string \<times> bucket) list \<Rightarrow> (string \<times> bucket) list" where
  "tally_host host status sz hosts = (if host = [] then hosts
     else let h = (if host \<notin> fst ` set hosts \<and> length hosts \<ge> MAX_TRACKED_HOSTS then ''~other'' else host) in
       AList.update h (tally status sz (case map_of hosts h of None \<Rightarrow> empty_bucket | Some b \<Rightarrow> b)) hosts)"

definition tally_ip :: "string \<Rightarrow> summary \<Rightarrow> summary" where
  "tally_ip ip a = (if ip = [] then a
     else if ip \<in> fst ` set (sm_ips a) \<or> length (sm_ips a) < MAX_TRACKED_IPS then a\<lparr>sm_ips := bump ip 1 (sm_ips a)\<rparr>
     else a\<lparr>sm_dropped_ips := sm_dropped_ips a + 1\<rparr>)"

text \<open>One complete line.\<close>

definition summarize_line :: "world \<Rightarrow> string \<Rightarrow> summary \<Rightarrow> summary" where
  "summarize_line w line a = (if strip line = [] then a else
     case log_record w line of
       None \<Rightarrow> a\<lparr>sm_malformed := sm_malformed a + 1\<rparr>
     | Some rec \<Rightarrow>
       (let sz = int_or_0 (jget rec ''size''); status = py_str (jget rec ''status'');
            a1 = a\<lparr>sm_requests := sm_requests a + 1, sm_bytes := sm_bytes a + sz, sm_statuses := bump status 1 (sm_statuses a)\<rparr>;
            a2 = tally_ip (py_str (or_else (jget (record_request rec) ''remote_ip'') (JStr []))) a1
        in a2\<lparr>sm_hosts := tally_host (host_of rec) status sz (sm_hosts a2)\<rparr>))"

function summarize_from :: "world \<Rightarrow> string \<Rightarrow> nat \<Rightarrow> summary \<Rightarrow> summary \<times> nat" where
  "summarize_from w text scanned a = (if scanned \<ge> SUMMARY_SCAN_CAP then (a, scanned) else
     (let line = readline MAX_LINE text in
      if line = [] then (a, scanned)
      else if \<not> ends_line line then
        (if length line < MAX_LINE then (a, scanned)
         else let n = length line + swallow (drop (length line) text) in
           summarize_from w (drop n text) (scanned + n) (a\<lparr>sm_malformed := sm_malformed a + 1\<rparr>))
      else summarize_from w (drop (length line) text) (scanned + length line) (summarize_line w line a)))"
  by auto
termination
  by (relation "measure (\<lambda>(w, text, scanned, a). length text)") (auto simp: readline_progress readline_progress [of _ _ 0, simplified])

declare summarize_from.simps [simp del]

definition jcounts :: "(string \<times> int) list \<Rightarrow> json" where
  "jcounts d = JObj (map (\<lambda>(k, n). (k, JInt n)) d)"

definition jbucket :: "bucket \<Rightarrow> json" where
  "jbucket b = JObj [(''requests'', JInt (bk_requests b)), (''bytes'', JInt (bk_bytes b)), (''status_counts'', jcounts (bk_status b))]"

definition top_ips :: "(string \<times> int) list \<Rightarrow> (string \<times> int) list" where
  "top_ips ips = take TOP_IPS (sort_key (\<lambda>kv. - snd kv) (sort_key fst ips))"

definition jsummary :: "summary \<Rightarrow> nat \<Rightarrow> json" where
  "jsummary a scanned = JObj [(''requests'', JInt (sm_requests a)), (''bytes'', JInt (sm_bytes a)), (''malformed'', JInt (sm_malformed a)),
     (''status_counts'', jcounts (sm_statuses a)), (''top_ips'', JArr (map (\<lambda>(ip, n). JArr [JStr ip, JInt n]) (top_ips (sm_ips a)))),
     (''dropped_ips'', JInt (sm_dropped_ips a)), (''hosts'', JObj (map (\<lambda>(h, b). (h, jbucket b)) (sm_hosts a))),
     (''scanned_bytes'', JInt (int scanned)), (''truncated'', JBool (scanned \<ge> SUMMARY_SCAN_CAP))]"

text \<open>\<open>_log_chunk\<close>; a log that cannot be opened echoes the cursor of the caller.\<close>

definition log_chunk :: "world \<Rightarrow> string \<Rightarrow> (nat \<times> string) option \<Rightarrow> nat \<Rightarrow> nat \<Rightarrow> (string \<times> json) list" where
  "log_chunk w path log_file offset expected_inode = (case log_file of
     None \<Rightarrow> [(''file'', JStr path), (''inode'', JInt (int expected_inode)), (''offset'', JInt (int offset)), (''bytes'', JStr [])]
   | Some (inode, content) \<Rightarrow>
     (let rotated = (expected_inode \<noteq> 0 \<and> inode \<noteq> expected_inode);
          start0 = (if rotated then 0 else offset);
          start = (if start0 > length content then 0 else start0);
          chunk = (if length content - start \<le> CHUNK
            then (let data = take CHUNK (drop start content) in
              [(''file'', JStr path), (''inode'', JInt (int inode)), (''offset'', JInt (int (start + length data))), (''bytes'', JStr data)])
            else (let (a, scanned) = summarize_from w (drop start content) 0 empty_summary in
              [(''file'', JStr path), (''inode'', JInt (int inode)), (''offset'', JInt (int (start + scanned))), (''bytes'', JStr []),
               (''sampled'', JBool True), (''summary'', jsummary a scanned)]))
      in chunk @ (if rotated then [(''rotated'', JBool True)] else [])))"


section \<open>Ingestion (\<open>monitor/traffic.py\<close>)\<close>

definition CURSOR_KEY :: string where "CURSOR_KEY = ''traffic_cursor''"

record minute_data =
  md_requests :: int
  md_bytes :: int
  md_status :: "(string \<times> int) list"
  md_sampled :: bool

type_synonym minutes_of = "((nat \<times> time) \<times> minute_data) list"

record ingest_report =
  ig_rows :: nat
  ig_malformed :: int
  ig_unmatched :: int
  ig_rotated :: bool
  ig_deduped :: bool

definition whole_minute :: "time \<Rightarrow> time" where
  "whole_minute t = t - t mod minutes 1"

text \<open>The day number of a civil date, counted from 1970-01-01; the months of a year have these lengths.\<close>

definition day_number :: "int \<Rightarrow> int \<Rightarrow> int \<Rightarrow> int" where
  "day_number y m d = (let y' = (if m \<le> 2 then y - 1 else y); era = y' div 400; yoe = y' - era * 400;
     doy = (153 * (if m > 2 then m - 3 else m + 9) + 2) div 5 + d - 1; doe = yoe * 365 + yoe div 4 - yoe div 100 + doy
   in era * 146097 + doe - 719468)"

definition month_days :: "int \<Rightarrow> int \<Rightarrow> int" where
  "month_days y m = (if m = 2 then (if y mod 4 = 0 \<and> (y mod 100 \<noteq> 0 \<or> y mod 400 = 0) then 29 else 28)
     else if m \<in> {4, 6, 9, 11} then 30 else 31)"

definition two_digits :: "string \<Rightarrow> int option" where
  "two_digits s = (if (length s = 1 \<or> length s = 2) \<and> list_all is_digit s then Some (int (nat_of_digits s)) else None)"

definition day_digits :: "string \<Rightarrow> int option" where
  "day_digits s = (case s of [a, b] \<Rightarrow> if a = CHR '' '' then two_digits [b] else two_digits s | _ \<Rightarrow> two_digits s)"

definition four_digits :: "string \<Rightarrow> int option" where
  "four_digits s = (if length s = 4 \<and> list_all is_digit s then Some (int (nat_of_digits s)) else None)"

text \<open>\<open>datetime.strptime(s, "%Y-%m-%dT%H:%M:%SZ")\<close> in UTC; \<open>None\<close> for a \<open>ValueError\<close>. The letters match in either case.\<close>

definition strptime_utc :: "string \<Rightarrow> time option" where
  "strptime_utc s = (case split_char (CHR ''-'') s of
     [ys, ms, rest] \<Rightarrow> (case split_char (CHR ''t'') (lower rest) of
       [ds, clock] \<Rightarrow> (case split_char (CHR '':'') clock of
         [hs, mins, secs] \<Rightarrow>
           if secs = [] \<or> last secs \<noteq> CHR ''z'' then None
           else (case (four_digits ys, two_digits ms, day_digits ds, two_digits hs, two_digits mins, two_digits (butlast secs)) of
             (Some y, Some m, Some d, Some h, Some mi, Some sec) \<Rightarrow>
               if 1 \<le> y \<and> 1 \<le> m \<and> m \<le> 12 \<and> 1 \<le> d \<and> d \<le> month_days y m \<and> h < 24 \<and> mi < 60 \<and> sec < 60
               then Some (seconds (day_number y m d * 86400 + h * 3600 + mi * 60 + sec)) else None
           | _ \<Rightarrow> None)
       | _ \<Rightarrow> None)
     | _ \<Rightarrow> None)
   | _ \<Rightarrow> None)"

definition payload_minute :: "world \<Rightarrow> (string \<times> json) list \<Rightarrow> time act" where
  "payload_minute w payload = (case strptime_utc (py_str (or_else (jget payload ''ts'') (JStr []))) of
     Some t \<Rightarrow> ret (whole_minute t)
   | None \<Rightarrow> bnd (timezone_now w) (\<lambda>now. ret (whole_minute now)))"

definition sites_by_domain :: "hub \<Rightarrow> (string \<times> site) list" where
  "sites_by_domain s = rev (map (\<lambda>r. (lower (s_domain r), r)) (filter (\<lambda>r. s_domain r \<noteq> []) (sites s)))"

text \<open>\<open>datetime.fromtimestamp\<close> knows the years 1 to 9999.\<close>

definition FIRST_SECOND :: int where "FIRST_SECOND = -62135596800"
definition LAST_SECOND :: int where "LAST_SECOND = 253402300799"

definition line_minute :: "(string \<times> json) list \<Rightarrow> time \<Rightarrow> exn + time" where
  "line_minute rec fallback = (case unbool (jget rec ''ts'') of
     JInt t \<Rightarrow> if FIRST_SECOND \<le> t \<and> t \<le> LAST_SECOND then Inr (whole_minute (seconds t)) else Inl (ValueError ''year is out of range'')
   | _ \<Rightarrow> Inr fallback)"

definition empty_minute :: minute_data where
  "empty_minute = \<lparr>md_requests = 0, md_bytes = 0, md_status = [], md_sampled = False\<rparr>"

definition count_line :: "(string \<times> json) list \<Rightarrow> minute_data \<Rightarrow> minute_data" where
  "count_line rec b = b\<lparr>md_requests := md_requests b + 1, md_bytes := md_bytes b + int_or_0 (jget rec ''size''),
     md_status := bump (py_str (jget rec ''status'')) 1 (md_status b)\<rparr>"

fun from_lines :: "world \<Rightarrow> (string \<times> site) list \<Rightarrow> time \<Rightarrow> string list \<Rightarrow> minutes_of \<Rightarrow> int \<Rightarrow> int \<Rightarrow> exn + (minutes_of \<times> int \<times> int)" where
  "from_lines w by_domain fallback [] agg malformed unmatched = Inr (agg, malformed, unmatched)"
| "from_lines w by_domain fallback (line # ls) agg malformed unmatched =
     (if strip line = [] then from_lines w by_domain fallback ls agg malformed unmatched
      else case log_record w line of
        None \<Rightarrow> from_lines w by_domain fallback ls agg (malformed + 1) unmatched
      | Some rec \<Rightarrow> (case map_of by_domain (host_of rec) of
          None \<Rightarrow> from_lines w by_domain fallback ls agg malformed (unmatched + 1)
        | Some site \<Rightarrow> (case line_minute rec fallback of
            Inl e \<Rightarrow> Inl e
          | Inr minute \<Rightarrow>
              (let k = (s_pk site, minute) in
               from_lines w by_domain fallback ls (AList.update k (count_line rec (case map_of agg k of None \<Rightarrow> empty_minute | Some b \<Rightarrow> b)) agg)
                 malformed unmatched))))"

definition summary_minute :: "(string \<times> json) list \<Rightarrow> minute_data" where
  "summary_minute data = \<lparr>md_requests = int_or_0 (jget data ''requests''), md_bytes = int_or_0 (jget data ''bytes''),
     md_status = map (\<lambda>(k, v). (k, int_or_0 v)) (obj_fields (jget data ''status_counts'')), md_sampled = True\<rparr>"

fun from_hosts :: "(string \<times> site) list \<Rightarrow> time \<Rightarrow> (string \<times> json) list \<Rightarrow> minutes_of \<Rightarrow> int \<Rightarrow> minutes_of \<times> int" where
  "from_hosts by_domain minute [] agg unmatched = (agg, unmatched)"
| "from_hosts by_domain minute ((host, v) # rest) agg unmatched = (case v of
     JObj data \<Rightarrow> (case map_of by_domain (lower host) of
         None \<Rightarrow> from_hosts by_domain minute rest agg (unmatched + int_or_0 (jget data ''requests''))
       | Some site \<Rightarrow> from_hosts by_domain minute rest (AList.update (s_pk site, minute) (summary_minute data) agg) unmatched)
   | _ \<Rightarrow> from_hosts by_domain minute rest agg unmatched)"

text \<open>\<open>(summary.get("hosts") or {}).items()\<close> raises for a value that is neither falsy nor a dictionary.\<close>

definition from_summary :: "(string \<times> site) list \<Rightarrow> (string \<times> json) list \<Rightarrow> time \<Rightarrow> exn + (minutes_of \<times> int \<times> int)" where
  "from_summary by_domain chunk minute = (let summary = obj_fields (jget chunk ''summary'') in
     case or_else (jget summary ''hosts'') (JObj []) of
       JObj hosts \<Rightarrow> (let (agg, unmatched) = from_hosts by_domain minute hosts [] 0 in Inr (agg, int_or_0 (jget summary ''malformed''), unmatched))
     | _ \<Rightarrow> Inl (OtherError ''AttributeError''))"

definition from_chunk :: "world \<Rightarrow> (string \<times> site) list \<Rightarrow> (string \<times> json) list \<Rightarrow> time \<Rightarrow> exn + (minutes_of \<times> int \<times> int)" where
  "from_chunk w by_domain chunk fallback = (if truthy (jget chunk ''sampled'') then from_summary by_domain chunk fallback
     else case or_else (jget chunk ''bytes'') (JStr []) of
       JStr text \<Rightarrow> from_lines w by_domain fallback (splitlines text) [] 0 0
     | _ \<Rightarrow> Inl (OtherError ''AttributeError''))"

definition minute_text :: "time \<Rightarrow> string" where
  "minute_text t = take 19 (isoformat t) @ ''+00:00''"

definition merge_counts :: "(string \<times> int) list \<Rightarrow> (string \<times> int) list \<Rightarrow> (string \<times> int) list" where
  "merge_counts old new = fold (\<lambda>(k, n). bump k n) new old"

definition add_minute :: "minute_data \<Rightarrow> traffic_stat \<Rightarrow> traffic_stat" where
  "add_minute d r = r\<lparr>tr_requests := tr_requests r + md_requests d, tr_bytes := tr_bytes r + md_bytes d,
     tr_status_counts := merge_counts (tr_status_counts r) (md_status d), tr_sampled := (tr_sampled r \<or> md_sampled d)\<rparr>"

definition minute_row :: "nat \<Rightarrow> time \<Rightarrow> traffic_stat \<Rightarrow> bool" where
  "minute_row site minute r = (tr_site r = site \<and> tr_bucket_start r = minute \<and> tr_granularity r = ByMinute)"

definition traffic_event :: "traffic_stat \<Rightarrow> json" where
  "traffic_event r = JObj [(''bucket_start'', JStr (minute_text (tr_bucket_start r))), (''granularity'', JStr ''minute''),
     (''requests'', JInt (tr_requests r)), (''bytes'', JInt (tr_bytes r)), (''status_counts'', jcounts (tr_status_counts r)),
     (''sampled'', JBool (tr_sampled r))]"

text \<open>One entry of \<open>_land\<close>: \<open>get_or_create\<close> refuses when the bucket has several rows.\<close>

definition upsert_minute :: "nat \<Rightarrow> time \<Rightarrow> minute_data \<Rightarrow> traffic_stat act" where
  "upsert_minute site minute d = (\<lambda>s. case filter (minute_row site minute) (traffic_stats s) of
     [] \<Rightarrow> (let r = \<lparr>tr_site = site, tr_bucket_start = minute, tr_granularity = ByMinute, tr_requests = md_requests d, tr_bytes = md_bytes d,
              tr_status_counts = md_status d, tr_sampled = md_sampled d\<rparr> in (Inr r, s\<lparr>traffic_stats := traffic_stats s @ [r]\<rparr>))
   | [r] \<Rightarrow> (Inr (add_minute d r), s\<lparr>traffic_stats := upd_rows (minute_row site minute) (add_minute d) (traffic_stats s)\<rparr>)
   | _ \<Rightarrow> (Inl (OtherError ''MultipleObjectsReturned''), s))"

primrec land :: "minutes_of \<Rightarrow> nat \<Rightarrow> nat act" where
  "land [] rows = ret rows"
| "land (x # xs) rows = bnd (upsert_minute (fst (fst x)) (snd (fst x)) (snd x)) (\<lambda>r.
     andThen (publish (''site.'' @ str_nat (fst (fst x)) @ ''.traffic'') (traffic_event r)) (land xs (rows + 1)))"

definition publish_metrics :: "target \<Rightarrow> (string \<times> json) list \<Rightarrow> unit act" where
  "publish_metrics t payload = (case jget payload ''metrics'' of
     JObj (m # ms) \<Rightarrow> publish (''host.'' @ str_nat (t_pk t) @ ''.metrics'')
       (JObj (fold (\<lambda>(k, v) d. jset d k v) (m # ms) [(''ts'', jget payload ''ts'')]))
   | _ \<Rightarrow> ret ())"

definition save_row_of_target :: "nat \<Rightarrow> (target \<Rightarrow> target) \<Rightarrow> unit act" where
  "save_row_of_target k f = modify (\<lambda>s. s\<lparr>targets := upd_rows (\<lambda>t. t_pk t = k) f (targets s)\<rparr>)"

definition remember_cursor :: "target \<Rightarrow> json \<Rightarrow> target act" where
  "remember_cursor t cursor = (let stored = JObj (jset (obj_fields (t_collect_payload t)) CURSOR_KEY cursor) in
     andThen (save_row_of_target (t_pk t) (\<lambda>r. r\<lparr>t_collect_payload := stored\<rparr>)) (ret (t\<lparr>t_collect_payload := stored\<rparr>)))"

definition chunk_of :: "(string \<times> json) list \<Rightarrow> exn + (string \<times> json) list" where
  "chunk_of payload = (case or_else (jget payload ''log_chunk'') (JObj []) of JObj d \<Rightarrow> Inr d | _ \<Rightarrow> Inl (OtherError ''AttributeError''))"

definition cursor_of :: "(string \<times> json) list \<Rightarrow> json" where
  "cursor_of chunk = JArr [JInt (int_or_0 (jget chunk ''inode'')), JInt (int_or_0 (jget chunk ''offset''))]"

definition already_ingested :: "target \<Rightarrow> json \<Rightarrow> bool" where
  "already_ingested t cursor = (is_obj (t_collect_payload t) \<and> py_eq (jget (obj_fields (t_collect_payload t)) CURSOR_KEY) cursor)"

definition ingest :: "world \<Rightarrow> target \<Rightarrow> (string \<times> json) list \<Rightarrow> (ingest_report \<times> target) act" where
  "ingest w t payload = bnd (of_sum (chunk_of payload)) (\<lambda>chunk.
     let cursor = cursor_of chunk in
     if already_ingested t cursor
     then ret (\<lparr>ig_rows = 0, ig_malformed = 0, ig_unmatched = 0, ig_rotated = False, ig_deduped = True\<rparr>, t)
     else bnd (payload_minute w payload) (\<lambda>fallback.
       bnd (gets sites_by_domain) (\<lambda>by_domain.
       bnd (of_sum (from_chunk w by_domain chunk fallback)) (\<lambda>(agg, malformed, unmatched).
       let rotated = truthy (jget chunk ''rotated'');
           marked = (if rotated then map (\<lambda>(k, d). (k, d\<lparr>md_sampled := True\<rparr>)) agg else agg) in
       bnd (land marked 0) (\<lambda>rows.
       andThen (publish_metrics t payload)
       (bnd (remember_cursor t cursor) (\<lambda>t'.
       ret (\<lparr>ig_rows = rows, ig_malformed = malformed, ig_unmatched = unmatched, ig_rotated = rotated, ig_deduped = False\<rparr>, t'))))))))"


section \<open>The collector (\<open>monitor/collector.py\<close>) and its cycle\<close>

record collect_env =
  ce_script :: string
  ce_persist_sample :: "target \<Rightarrow> (string \<times> json) list \<Rightarrow> time option \<Rightarrow> unit act"
  ce_edge_for :: "dns_zone \<Rightarrow> edge_client option act"

definition hex_value :: "char \<Rightarrow> nat" where
  "hex_value c = (let n = of_char c in if n \<ge> 97 then n - 87 else n - 48)"

definition jitter_s :: "world \<Rightarrow> nat \<Rightarrow> nat" where
  "jitter_s w tid = foldl (\<lambda>n c. 16 * n + hex_value c) 0 (take 16 (w_sha256 w (str_nat tid))) mod 60"

definition stored_inode :: "target \<Rightarrow> int" where
  "stored_inode t = (case t_collect_log_inode t of None \<Rightarrow> 0 | Some i \<Rightarrow> i)"

definition persist_collect :: "world \<Rightarrow> collect_env \<Rightarrow> target \<Rightarrow> (string \<times> json) list \<Rightarrow> time option \<Rightarrow> target act" where
  "persist_collect w E t payload now = bnd (of_sum (chunk_of payload)) (\<lambda>chunk.
     bnd (timezone_now w) (\<lambda>stamp.
     let upd = (\<lambda>r. r\<lparr>t_collect_log_inode := Some (int_or_0 (jget chunk ''inode'')), t_collect_log_offset := int_or_0 (jget chunk ''offset''),
           t_collect_payload := JObj (jset payload ''log_chunk'' (JObj (jdel chunk ''bytes''))), t_collect_at := Some stamp\<rparr>) in
     andThen (save_row_of_target (t_pk t) upd)
     (andThen (try_except (ce_persist_sample E (upd t) payload now)
        (\<lambda>e. bnd (audit w ((audit_args ''host-metric-persist-failed'' (Some (OTarget t)))\<lparr>ac_source := SrcSystem, ac_severity := SevWarning,
           ac_detail := [(''error'', JStr (exc_name e))]\<rparr>)) (\<lambda>_. ret ())))
     (ret (upd t)))))"

definition collect_target :: "world \<Rightarrow> collect_env \<Rightarrow> time option \<Rightarrow> target \<Rightarrow> ((string \<times> json) list \<times> target) act" where
  "collect_target w E now t = bnd (monotonic_now w) (\<lambda>_.
     let remote = hub_join [''collect-once''] (t_ssh_user t) in
     andThen (ensure_hub_dir w (t_ssh_user t) None)
     (andThen (transport_put w (ce_script E) remote 448)
     (bnd (transport_probe w [remote, str_nat (t_pk t), str_int (t_collect_log_offset t), ''-'', str_int (stored_inode t)]) (\<lambda>r.
      if \<not> result_ok r then throw (RuntimeError (if stderr r \<noteq> [] then stderr r else ''collector script failed''))
      else case w_loads w (stdout r) of
        None \<Rightarrow> throw (OtherError ''JSONDecodeError'')
      | Some (JObj p) \<Rightarrow>
        (let p1 = jset (jset p ''target_id'' (JInt (int (t_pk t)))) ''schema_version'' (JInt 1);
             p2 = (case now of None \<Rightarrow> p1 | Some stamp \<Rightarrow> jset p1 ''ts'' (JStr (isoformat stamp))) in
         bnd (persist_collect w E t p2 now) (\<lambda>t'. ret (p2, t')))
      | Some _ \<Rightarrow> throw (TypeError ''object does not support item assignment'')))))"

definition collect_body :: "world \<Rightarrow> collect_env \<Rightarrow> time option \<Rightarrow> target \<Rightarrow> unit act" where
  "collect_body w E now t = bnd (collect_target w E now t) (\<lambda>(payload, t').
     bnd (ingest w t' payload) (\<lambda>(_, t''). run_for_target w (ce_edge_for E) t''))"

definition collect_one :: "world \<Rightarrow> collect_env \<Rightarrow> time option \<Rightarrow> target \<Rightarrow> nat act" where
  "collect_one w E now t = bnd (acquire w ScopeTarget (str_nat (t_pk t)) KindCollect ''collect-all'') (\<lambda>lock.
     case lock of None \<Rightarrow> ret 0
     | Some _ \<Rightarrow> try_finally
         (try_except (andThen (collect_body w E now t) (ret 1))
           (\<lambda>e. bnd (audit w ((audit_args ''collector-failed'' (Some (OTarget t)))\<lparr>ac_source := SrcCelery,
              ac_detail := [(''error'', JStr (exc_name e))]\<rparr>)) (\<lambda>_. ret 0)))
         (bnd (release ScopeTarget (str_nat (t_pk t)) KindCollect (Some ''collect-all'')) (\<lambda>_. ret ())))"

primrec collect_each :: "world \<Rightarrow> collect_env \<Rightarrow> time option \<Rightarrow> target list \<Rightarrow> nat \<Rightarrow> nat act" where
  "collect_each w E now [] n = ret n"
| "collect_each w E now (t # ts) n = bnd (collect_one w E now t) (\<lambda>k. collect_each w E now ts (n + k))"

definition collect_all :: "world \<Rightarrow> collect_env \<Rightarrow> time option \<Rightarrow> nat act" where
  "collect_all w E now = bnd (monotonic_now w) (\<lambda>_.
     bnd (gets (\<lambda>s. filter (\<lambda>t. t_status t = TgReady) (targets s))) (\<lambda>ts. collect_each w E now ts 0))"

end
