(* ===== verification/Traffic_Facts.thy ===== *)
theory Traffic_Facts
  imports Traffic Attack_Facts Cycle_Facts Step_Facts
begin

text \<open>
  What the collection cycle promises: every line of a chunk is counted exactly once, where it belongs; a window that was taken in is
  not taken in again; what a target ships is bounded; and one broken target neither stops the cycle nor keeps its lock.
\<close>

section \<open>Counting lines\<close>

text \<open>The reference: what one line stands for.\<close>

datatype line_class = BlankLine | Malformed | Unmatched | Counted nat time "(string \<times> json) list" | OutOfRange

definition classify_line :: "world \<Rightarrow> (string \<times> site) list \<Rightarrow> time \<Rightarrow> string \<Rightarrow> line_class" where
  "classify_line w by_domain fallback line = (if strip line = [] then BlankLine else
     case log_record w line of None \<Rightarrow> Malformed
     | Some rec \<Rightarrow> (case map_of by_domain (host_of rec) of None \<Rightarrow> Unmatched
       | Some site \<Rightarrow> (case line_minute rec fallback of Inl _ \<Rightarrow> OutOfRange | Inr m \<Rightarrow> Counted (s_pk site) m rec)))"

definition in_bucket :: "nat \<times> time \<Rightarrow> line_class \<Rightarrow> bool" where
  "in_bucket k c = (case c of Counted site m _ \<Rightarrow> (site, m) = k | _ \<Rightarrow> False)"

lemma in_bucket_simps [simp]:
  "in_bucket k (Counted site m rec) \<longleftrightarrow> k = (site, m)" "\<not> in_bucket k BlankLine" "\<not> in_bucket k Malformed" "\<not> in_bucket k Unmatched"
  "\<not> in_bucket k OutOfRange"
  by (auto simp: in_bucket_def)

definition bytes_of_class :: "line_class \<Rightarrow> int" where
  "bytes_of_class c = (case c of Counted _ _ rec \<Rightarrow> int_or_0 (jget rec ''size'') | _ \<Rightarrow> 0)"

definition data_at :: "minutes_of \<Rightarrow> nat \<times> time \<Rightarrow> minute_data" where
  "data_at agg k = (case map_of agg k of None \<Rightarrow> empty_minute | Some d \<Rightarrow> d)"

lemma data_at_update [simp]: "data_at (AList.update k d agg) k' = (if k' = k then d else data_at agg k')"
  by (simp add: data_at_def update_conv')

lemma from_lines_counts:
  assumes "from_lines w bd fb ls agg mal unm = Inr (agg', mal', unm')"
  defines "cs \<equiv> map (classify_line w bd fb) ls"
  shows "mal' = mal + int (length (filter (\<lambda>c. c = Malformed) cs))" "unm' = unm + int (length (filter (\<lambda>c. c = Unmatched) cs))"
    "md_requests (data_at agg' k) = md_requests (data_at agg k) + int (length (filter (in_bucket k) cs))"
    "md_bytes (data_at agg' k) = md_bytes (data_at agg k) + sum_list (map bytes_of_class (filter (in_bucket k) cs))"
    "OutOfRange \<notin> set cs" "distinct (map fst agg) \<Longrightarrow> distinct (map fst agg')"
proof -
  have "mal' = mal + int (length (filter (\<lambda>c. c = Malformed) (map (classify_line w bd fb) ls))) \<and>
    unm' = unm + int (length (filter (\<lambda>c. c = Unmatched) (map (classify_line w bd fb) ls))) \<and>
    (\<forall>k. md_requests (data_at agg' k) = md_requests (data_at agg k) + int (length (filter (in_bucket k) (map (classify_line w bd fb) ls))) \<and>
      md_bytes (data_at agg' k) = md_bytes (data_at agg k) + sum_list (map bytes_of_class (filter (in_bucket k) (map (classify_line w bd fb) ls)))) \<and>
    OutOfRange \<notin> set (map (classify_line w bd fb) ls) \<and> (distinct (map fst agg) \<longrightarrow> distinct (map fst agg'))"
    using assms(1)
  proof (induction ls arbitrary: agg mal unm)
    case (Cons l ls)
    show ?case
    proof (cases "classify_line w bd fb l")
      case (Counted site m rec)
      then have "from_lines w bd fb ls (AList.update (site, m) (count_line rec (data_at agg (site, m))) agg) mal unm = Inr (agg', mal', unm')"
        using Cons.prems by (auto simp: classify_line_def data_at_def Let_def split: if_splits option.splits sum.splits)
      from Cons.IH [OF this] Counted show ?thesis
        by (simp add: bytes_of_class_def count_line_def distinct_update)
    next
      case BlankLine
      with Cons.prems have "from_lines w bd fb ls agg mal unm = Inr (agg', mal', unm')"
        by (auto simp: classify_line_def split: if_splits option.splits sum.splits)
      from Cons.IH [OF this] BlankLine show ?thesis by simp
    next
      case Malformed
      with Cons.prems have "from_lines w bd fb ls agg (mal + 1) unm = Inr (agg', mal', unm')"
        by (auto simp: classify_line_def split: if_splits option.splits sum.splits)
      from Cons.IH [OF this] Malformed show ?thesis by simp
    next
      case Unmatched
      with Cons.prems have "from_lines w bd fb ls agg mal (unm + 1) = Inr (agg', mal', unm')"
        by (auto simp: classify_line_def split: if_splits option.splits sum.splits)
      from Cons.IH [OF this] Unmatched show ?thesis by simp
    next
      case OutOfRange
      with Cons.prems show ?thesis by (auto simp: classify_line_def split: if_splits option.splits sum.splits)
    qed
  qed simp
  then show "mal' = mal + int (length (filter (\<lambda>c. c = Malformed) cs))" "unm' = unm + int (length (filter (\<lambda>c. c = Unmatched) cs))"
    "md_requests (data_at agg' k) = md_requests (data_at agg k) + int (length (filter (in_bucket k) cs))"
    "md_bytes (data_at agg' k) = md_bytes (data_at agg k) + sum_list (map bytes_of_class (filter (in_bucket k) cs))"
    "OutOfRange \<notin> set cs" "distinct (map fst agg) \<Longrightarrow> distinct (map fst agg')"
    unfolding cs_def by blast+
qed


section \<open>Landing\<close>

definition requests_at :: "hub \<Rightarrow> nat \<times> time \<Rightarrow> int" where
  "requests_at s k = sum_list (map tr_requests (filter (minute_row (fst k) (snd k)) (traffic_stats s)))"

definition bytes_at :: "hub \<Rightarrow> nat \<times> time \<Rightarrow> int" where
  "bytes_at s k = sum_list (map tr_bytes (filter (minute_row (fst k) (snd k)) (traffic_stats s)))"

lemma minute_row_add [simp]: "minute_row site m (add_minute d r) = minute_row site m r"
  by (simp add: minute_row_def add_minute_def)

lemma minute_rows_disjoint: "minute_row site m r \<Longrightarrow> minute_row site' m' r \<longleftrightarrow> site' = site \<and> m' = m"
  by (auto simp: minute_row_def)

lemma filter_upd_rows_same: "(\<And>r. p r \<Longrightarrow> p (f r)) \<Longrightarrow> filter p (upd_rows p f rows) = map f (filter p rows)"
  by (induction rows) (auto simp: upd_rows_def)

lemma filter_upd_rows_other: "(\<And>r. p r \<Longrightarrow> \<not> q r) \<Longrightarrow> (\<And>r. p r \<Longrightarrow> \<not> q (f r)) \<Longrightarrow> filter q (upd_rows p f rows) = filter q rows"
  by (induction rows) (auto simp: upd_rows_def)

lemma upsert_minute_counts:
  assumes "upsert_minute site m d s = (Inr r, t)"
  shows "requests_at t k = requests_at s k + (if k = (site, m) then md_requests d else 0)"
    "bytes_at t k = bytes_at s k + (if k = (site, m) then md_bytes d else 0)"
proof -
  consider (new) "filter (minute_row site m) (traffic_stats s) = []" | (one) x where "filter (minute_row site m) (traffic_stats s) = [x]"
    using assms by (auto simp: upsert_minute_def split: list.splits)
  then have "requests_at t k = requests_at s k + (if k = (site, m) then md_requests d else 0) \<and>
    bytes_at t k = bytes_at s k + (if k = (site, m) then md_bytes d else 0)"
  proof cases
    case new
    with assms show ?thesis
      by (cases k) (auto simp: upsert_minute_def requests_at_def bytes_at_def minute_row_def Let_def)
  next
    case (one x)
    have t: "traffic_stats t = upd_rows (minute_row site m) (add_minute d) (traffic_stats s)"
      using assms one by (auto simp: upsert_minute_def)
    show ?thesis
    proof (cases "k = (site, m)")
      case True
      have "filter (minute_row site m) (traffic_stats t) = [add_minute d x]" using one by (simp add: t filter_upd_rows_same)
      with True one show ?thesis by (simp add: requests_at_def bytes_at_def) (simp add: add_minute_def)
    next
      case False
      then have "filter (minute_row (fst k) (snd k)) (traffic_stats t) = filter (minute_row (fst k) (snd k)) (traffic_stats s)"
        unfolding t by (intro filter_upd_rows_other) (auto simp: minute_row_def add_minute_def)
      with False show ?thesis by (simp add: requests_at_def bytes_at_def)
    qed
  qed
  then show "requests_at t k = requests_at s k + (if k = (site, m) then md_requests d else 0)"
    "bytes_at t k = bytes_at s k + (if k = (site, m) then md_bytes d else 0)" by blast+
qed

lemma publish_stats: "evolves (same traffic_stats) (publish topic ev)"
  by (simp add: evolves_def same_def publish_def)

lemma land_counts:
  assumes "land agg n s = (Inr rows, t)" "distinct (map fst agg)"
  shows "requests_at t k = requests_at s k + md_requests (data_at agg k)" "bytes_at t k = bytes_at s k + md_bytes (data_at agg k)"
    "rows = n + length agg"
proof -
  have "requests_at t k = requests_at s k + md_requests (data_at agg k) \<and> bytes_at t k = bytes_at s k + md_bytes (data_at agg k) \<and> rows = n + length agg"
    using assms
  proof (induction agg arbitrary: n s)
    case (Cons x agg)
    obtain site m d where x: "x = ((site, m), d)" by (metis prod.exhaust_sel)
    obtain r u v where u: "upsert_minute site m d s = (Inr r, u)" and v: "publish (''site.'' @ str_nat site @ ''.traffic'') (traffic_event r) u = (Inr (), v)"
      and l: "land agg (n + 1) v = (Inr rows, t)"
      using Cons.prems(1) by (auto simp: x andThen_def fst_bnd_Inr)
    have "requests_at v k = requests_at u k" "bytes_at v k = bytes_at u k"
      using frameD [OF publish_stats v] by (simp_all add: requests_at_def bytes_at_def)
    moreover have "data_at agg (site, m) = empty_minute"
      using Cons.prems(2) by (auto simp: x data_at_def split: option.split dest!: map_of_SomeD) (metis fst_conv image_eqI)
    ultimately show ?case
      using Cons.IH [OF l] Cons.prems(2) upsert_minute_counts [OF u, of k] by (auto simp: x data_at_def empty_minute_def)
  qed (simp add: ret_def data_at_def empty_minute_def)
  then show "requests_at t k = requests_at s k + md_requests (data_at agg k)" "bytes_at t k = bytes_at s k + md_bytes (data_at agg k)"
    "rows = n + length agg" by blast+
qed



section \<open>Ingestion\<close>

definition fallback_minute :: "world \<Rightarrow> (string \<times> json) list \<Rightarrow> hub \<Rightarrow> time" where
  "fallback_minute w payload s = whole_minute (case strptime_utc (py_str (or_else (jget payload ''ts'') (JStr []))) of
     Some t \<Rightarrow> t | None \<Rightarrow> w_clock w (ticks s))"

lemma payload_minute_eff: "\<exists>n. payload_minute w payload s = (Inr (fallback_minute w payload s), s\<lparr>ticks := n\<rparr>)"
proof (cases "strptime_utc (py_str (or_else (jget payload ''ts'') (JStr [])))")
  case None
  then show ?thesis by (auto simp: payload_minute_def fallback_minute_def bnd_now ret_def)
next
  case (Some x)
  then show ?thesis by (intro exI [of _ "ticks s"]) (simp add: payload_minute_def fallback_minute_def ret_def)
qed

definition mark_sampled :: "bool \<Rightarrow> minutes_of \<Rightarrow> minutes_of" where
  "mark_sampled rotated agg = (if rotated then map (\<lambda>(k, d). (k, d\<lparr>md_sampled := True\<rparr>)) agg else agg)"

lemma mark_sampled_keys: "map fst (mark_sampled b agg) = map fst agg"
  by (simp add: mark_sampled_def case_prod_beta comp_def)

lemma mark_sampled_data: "md_requests (data_at (mark_sampled b agg) k) = md_requests (data_at agg k)"
  "md_bytes (data_at (mark_sampled b agg) k) = md_bytes (data_at agg k)"
  by (simp_all add: mark_sampled_def data_at_def map_of_map split: option.split)

lemma ingest_again:
  "chunk_of payload = Inr chunk \<Longrightarrow> already_ingested t (cursor_of chunk) \<Longrightarrow>
   ingest w t payload s = (Inr (\<lparr>ig_rows = 0, ig_malformed = 0, ig_unmatched = 0, ig_rotated = False, ig_deduped = True\<rparr>, t), s)"
  by (simp add: ingest_def of_sum_def Let_def) (simp add: ret_def)

text \<open>An ingestion that is not a repetition, stage by stage.\<close>

lemma ingest_runs:
  assumes "ingest w t payload s = (Inr (rep, t'), u)" "chunk_of payload = Inr chunk"
  obtains (again) "already_ingested t (cursor_of chunk)" "u = s" "t' = t" "ig_deduped rep"
  | (fresh) agg n rows v where "\<not> already_ingested t (cursor_of chunk)"
    "from_chunk w (sites_by_domain s) chunk (fallback_minute w payload s) = Inr (agg, ig_malformed rep, ig_unmatched rep)"
    "land (mark_sampled (truthy (jget chunk ''rotated'')) agg) 0 (s\<lparr>ticks := n\<rparr>) = (Inr rows, v)" "traffic_stats u = traffic_stats v"
    "\<not> ig_deduped rep" "t' = t\<lparr>t_collect_payload := JObj (jset (obj_fields (t_collect_payload t)) CURSOR_KEY (cursor_of chunk))\<rparr>"
proof (cases "already_ingested t (cursor_of chunk)")
  case True
  from ingest_again [OF assms(2) True, of w s] assms(1) have "u = s" "t' = t" "ig_deduped rep" by auto
  with True show thesis by (rule again)
next
  case False
  obtain n where n: "payload_minute w payload s = (Inr (fallback_minute w payload s), s\<lparr>ticks := n\<rparr>)" using payload_minute_eff by blast
  have sd: "sites_by_domain (s\<lparr>ticks := n\<rparr>) = sites_by_domain s" by (simp add: sites_by_domain_def)
  define rot where "rot = truthy (jget chunk ''rotated'')"
  obtain agg mal unm rows v v' v'' where
    c: "from_chunk w (sites_by_domain s) chunk (fallback_minute w payload s) = Inr (agg, mal, unm)"
    and l: "land (mark_sampled rot agg) 0 (s\<lparr>ticks := n\<rparr>) = (Inr rows, v)" and m: "publish_metrics t payload v = (Inr (), v')"
    and r: "remember_cursor t (cursor_of chunk) v' = (Inr t', u)" and rep: "rep = \<lparr>ig_rows = rows, ig_malformed = mal, ig_unmatched = unm, ig_rotated = rot, ig_deduped = False\<rparr>"
    using assms(1) False by (auto simp: ingest_def assms(2) of_sum_def Let_def fst_bnd_Inr n gets_def sd throw_def mark_sampled_def rot_def andThen_def ret_def
        split: sum.splits)
  have "traffic_stats v' = traffic_stats v"
    using m publish_stats by (auto simp: publish_metrics_def ret_def evolves_def same_def split: json.splits list.splits) (metis snd_conv)+
  moreover have "traffic_stats u = traffic_stats v'" "t' = t\<lparr>t_collect_payload := JObj (jset (obj_fields (t_collect_payload t)) CURSOR_KEY (cursor_of chunk))\<rparr>"
    using r by (auto simp: remember_cursor_def Let_def andThen_def bnd_def save_row_of_target_def modify_def ret_def)
  ultimately show thesis using fresh [of agg n rows v] False c l rep by (simp add: rot_def)
qed


text \<open>
  Taking a window in twice is taking it in once. After an ingestion has returned, ingesting the same payload for the target as it
  then is changes nothing at all (no row, no event, no clock) and reports itself as a repetition.
\<close>

theorem reingest_changes_nothing:
  assumes "ingest w t payload s = (Inr (rep, t'), u)"
  shows "ingest w' t' payload v = (Inr (\<lparr>ig_rows = 0, ig_malformed = 0, ig_unmatched = 0, ig_rotated = False, ig_deduped = True\<rparr>, t'), v)"
proof -
  obtain chunk where chunk: "chunk_of payload = Inr chunk"
    using assms by (cases "chunk_of payload") (auto simp: ingest_def of_sum_def throw_def bnd_def)
  have "already_ingested t' (cursor_of chunk)"
    using assms chunk
  proof (cases rule: ingest_runs)
    case (fresh agg n rows v)
    then show ?thesis by (simp add: already_ingested_def cursor_of_def py_eq_def)
  qed simp
  with chunk show ?thesis by (rule ingest_again)
qed


section \<open>One broken target\<close>

text \<open>The collaborators of the cycle take and give back no lock.\<close>

definition env_keeps_locks :: "collect_env \<Rightarrow> bool" where
  "env_keeps_locks E = ((\<forall>t p now. evolves (same locks) (ce_persist_sample E t p now)) \<and> (\<forall>z. evolves (same locks) (ce_edge_for E z)))"

lemma engine_keeps_locks: "evolves (same beside_engine) m \<Longrightarrow> evolves (same locks) m"
proof -
  have "locks (beside_engine s) = locks s" for s by (simp add: beside_engine_def)
  then show "evolves (same beside_engine) m \<Longrightarrow> evolves (same locks) m" unfolding evolves_def same_def by metis
qed

named_theorems lock_frames

lemma basic_locks [lock_frames]:
  "evolves (same locks) (timezone_now w)" "evolves (same locks) (monotonic_now w)" "evolves (same locks) (shell_call w c)"
  "evolves (same locks) (publish topic ev)" "evolves (same locks) (edge_do w ec)" "evolves (same locks) (audit w a)"
  "evolves (same locks) (save_row_of_target k f)" "evolves (same locks) (of_sum r)"
  by (auto simp: evolves_def same_def timezone_now_def monotonic_now_def shell_call_def publish_def edge_do_def save_row_of_target_def modify_def Let_def of_sum_def
      ret_def throw_def split: sum.split intro: engine_keeps_locks [OF basic_engine(1), unfolded evolves_def same_def, rule_format])

lemma score_locks [lock_frames]: "evolves (same locks) (score_site w site now)" "evolves (same locks) (detect w site now)"
  unfolding detect_def score_site_def the_now_def by (intro frame.ev_rules lock_frames)+

lemma relax_loop_locks [lock_frames]: "evolves (same locks) (relax_loop w now xs scored)"
  by (induction xs arbitrary: scored) (auto intro!: frame.ev_rules lock_frames)

lemma ban_locks [lock_frames]: "evolves (same locks) (ban_each w z banned ips)"
  by (induction ips arbitrary: banned) (auto intro!: frame.ev_rules lock_frames)

lemma run_playbook_locks [lock_frames]: "evolves (same locks) (run_playbook w site edge now ips)"
  unfolding run_playbook_def engage_def relax_def should_relax_zone_def set_under_attack_def ban_new_def
  by (intro frame.ev_rules lock_frames engine_keeps_locks [OF raise_alert_engine] engine_keeps_locks [OF resolve_engine(1)])

lemma run_sites_locks: "(\<And>z. evolves (same locks) (edge_for z)) \<Longrightarrow> evolves (same locks) (run_sites w edge_for cache xs)"
proof (induction xs arbitrary: cache)
  case (Cons x xs)
  show ?case unfolding run_sites.simps by (intro frame.ev_rules lock_frames Cons)
qed (simp add: frame.ev_ret)

lemma upsert_locks [lock_frames]: "evolves (same locks) (upsert_minute site m d)"
  by (auto simp: evolves_def same_def upsert_minute_def Let_def split: list.split)

lemma land_locks [lock_frames]: "evolves (same locks) (land agg n)"
  by (induction agg arbitrary: n) (auto intro!: frame.ev_rules lock_frames)

lemma ingest_locks [lock_frames]: "evolves (same locks) (ingest w t payload)"
proof -
  have "evolves (same locks) (publish_metrics t payload)"
    unfolding publish_metrics_def by (auto intro!: frame.ev_rules lock_frames split: json.split list.split)
  moreover have "evolves (same locks) (payload_minute w payload)" unfolding payload_minute_def by (intro frame.ev_rules lock_frames)
  moreover have "evolves (same locks) (remember_cursor t c)" for c unfolding remember_cursor_def Let_def by (intro frame.ev_rules lock_frames)
  ultimately show ?thesis unfolding ingest_def Let_def by (intro frame.ev_rules lock_frames)
qed

lemma collect_body_locks:
  assumes "env_keeps_locks E"
  shows "evolves (same locks) (collect_body w E now t)"
proof -
  have k: "evolves (same locks) (ce_persist_sample E t p now)" "\<And>z. evolves (same locks) (ce_edge_for E z)" for t p now
    using assms by (simp_all add: env_keeps_locks_def)
  have pc: "evolves (same locks) (persist_collect w E t p now)" for p
    unfolding persist_collect_def Let_def by (intro frame.ev_rules lock_frames k)
  have hd: "evolves (same locks) (ensure_hub_dir w user None)" for user
    unfolding ensure_hub_dir_def beat_def transport_run_def by (intro frame.ev_rules lock_frames; simp add: frame.ev_ret)
  have jc: "evolves (same locks) (case j of JObj p \<Rightarrow> f p | _ \<Rightarrow> throw e)" if "\<And>p. evolves (same locks) (f p)"
    for j e and f :: "(string \<times> json) list \<Rightarrow> ((string \<times> json) list \<times> target) act"
    using that by (cases j) (simp_all add: frame.ev_throw)
  show ?thesis unfolding collect_body_def collect_target_def run_for_target_def transport_put_def transport_probe_def Let_def
    by (intro frame.ev_rules lock_frames run_sites_locks k pc hd jc)
qed

lemma audit_target_ok:
  assumes "ac_obj c = Some (OTarget x)"
  shows "\<exists>e t. audit w c s = (Inr e, t)"
proof -
  have "\<exists>k. audit w c s = write_event w c k s"
    using assms by (auto simp: audit_def bnd_def gets_def resolve_workspace_def split: option.split)
  then show ?thesis using write_event_effect [of w c _ s] by metis
qed

text \<open>One target: whatever happens to it, the loop goes on and its lock is gone.\<close>

lemma collect_one_isolated:
  assumes "env_keeps_locks E"
  shows "\<exists>k u. collect_one w E now t s = (Inr k, u) \<and> k \<le> 1 \<and> locks u = locks s"
proof (cases "held s (ScopeTarget, str_nat (t_pk t), KindCollect)")
  case (Some h)
  then show ?thesis by (simp add: collect_one_def bnd_def acquire_held ret_def)
next
  case None
  then obtain row v where v: "acquire w ScopeTarget (str_nat (t_pk t)) KindCollect ''collect-all'' s = (Inr (Some row), v)"
    "locks v = locks s @ [row]" "lock_match (ScopeTarget, str_nat (t_pk t), KindCollect) (Some ''collect-all'') row"
    by (simp add: acquire_free Let_def lock_match_def lock_key_def)
  let ?c = "\<lambda>e. (audit_args ''collector-failed'' (Some (OTarget t)))\<lparr>ac_source := SrcCelery, ac_detail := [(''error'', JStr (exc_name e))]\<rparr>"
  let ?m = "try_except (andThen (collect_body w E now t) (ret 1)) (\<lambda>e. bnd (audit w (?c e)) (\<lambda>_. ret 0))"
  have ev: "evolves (same locks) ?m" by (intro frame.ev_rules lock_frames collect_body_locks assms)
  obtain k x where x: "?m v = (Inr k, x)" "k \<le> (1 :: nat)"
  proof -
    obtain r y where y: "collect_body w E now t v = (r, y)" by fastforce
    show thesis
    proof (cases r)
      case (Inr z)
      with y that [of 1 y] show thesis by (simp add: try_except_def andThen_def bnd_def ret_def)
    next
      case (Inl e)
      obtain a z where "audit w (?c e) y = (Inr a, z)" using audit_target_ok [of "?c e" t w y] by (auto simp: audit_args_def)
      with y Inl that [of 0 z] show thesis by (simp add: try_except_def andThen_def bnd_def ret_def)
    qed
  qed
  have lx: "locks x = locks s @ [row]" using frameD [OF ev x(1)] v(2) by simp
  have none: "\<not> lock_match (ScopeTarget, str_nat (t_pk t), KindCollect) (Some ''collect-all'') l" if "l \<in> set (locks s)" for l
    using None imageI [OF that, of lock_key] by (auto simp: held_None_iff lock_match_def)
  obtain b where rel: "release ScopeTarget (str_nat (t_pk t)) KindCollect (Some ''collect-all'') x = (Inr b, x\<lparr>locks := locks s\<rparr>)"
    using v(3) none by (simp add: release_def lx Let_def)
  have "collect_one w E now t s = try_finally ?m (bnd (release ScopeTarget (str_nat (t_pk t)) KindCollect (Some ''collect-all'')) (\<lambda>_. ret ())) v"
    unfolding collect_one_def bnd_def [of "acquire _ _ _ _ _"] v(1) by (simp only: prod.case sum.case option.case)
  also have "\<dots> = (Inr k, x\<lparr>locks := locks s\<rparr>)" unfolding try_finally_def x(1) by (simp add: bnd_def rel ret_def)
  finally show ?thesis using x(2) by simp
qed

lemma collect_each_isolated:
  assumes "env_keeps_locks E"
  shows "\<exists>k u. collect_each w E now ts n s = (Inr k, u) \<and> n \<le> k \<and> k \<le> n + length ts \<and> locks u = locks s"
proof (induction ts arbitrary: n s)
  case (Cons t ts)
  obtain k u where u: "collect_one w E now t s = (Inr k, u)" "k \<le> 1" "locks u = locks s" using collect_one_isolated [OF assms] by blast
  with Cons.IH [of "n + k" u] show ?case by (auto simp: bnd_def)
qed (simp add: ret_def)

text \<open>
  C18: One broken target neither stops the collection nor keeps its lock. Whatever the targets answer, and whatever is raised while one of
  them is collected, ingested or examined, the cycle runs to its end and returns the number of targets it completed, and
  every lock is as it was before.
\<close>

theorem collection_survives_broken_targets:
  assumes "env_keeps_locks E"
  shows "\<exists>n t. collect_all w E now s = (Inr n, t) \<and> n \<le> length (filter (\<lambda>x. t_status x = TgReady) (targets s)) \<and> locks t = locks s"
proof -
  obtain m v where v: "monotonic_now w s = (Inr m, v)" "targets v = targets s" "locks v = locks s" by (simp add: monotonic_now_def)
  from collect_each_isolated [OF assms, of w now "filter (\<lambda>x. t_status x = TgReady) (targets s)" 0 v] v show ?thesis
    by (auto simp: collect_all_def bnd_def [of "monotonic_now w"])
qed


section \<open>What a target ships\<close>

definition hosts_bounded :: "(string \<times> bucket) list \<Rightarrow> bool" where
  "hosts_bounded d = (length d \<le> MAX_TRACKED_HOSTS \<or> (''~other'' \<in> fst ` set d \<and> length d \<le> MAX_TRACKED_HOSTS + 1))"

definition summary_ok :: "summary \<Rightarrow> bool" where
  "summary_ok a = (length (sm_ips a) \<le> MAX_TRACKED_IPS \<and> hosts_bounded (sm_hosts a) \<and>
     sum_list (map snd (sm_statuses a)) = sm_requests a \<and> sum_list (map snd (sm_ips a)) + sm_dropped_ips a \<le> sm_requests a \<and>
     sum_list (map (bk_requests \<circ> snd) (sm_hosts a)) \<le> sm_requests a)"

lemma length_AList_update: "length (AList.update k v d) = (if k \<in> fst ` set d then length d else Suc (length d))"
  by (induction d) auto

lemma sum_bump: "sum_list (map snd (bump k n d)) = sum_list (map snd d) + n"
proof -
  have "sum_list (map snd (AList.update k ((case map_of d k of None \<Rightarrow> 0 | Some m \<Rightarrow> m) + n) d)) = sum_list (map snd d) + n"
    by (induction d) auto
  then show ?thesis by (simp add: bump_def)
qed

lemma length_bump: "length (bump k n d) = (if k \<in> fst ` set d then length d else Suc (length d))"
  by (simp add: bump_def length_AList_update)

lemma sum_hosts_update:
  "sum_list (map (bk_requests \<circ> snd) (AList.update h b d)) =
   sum_list (map (bk_requests \<circ> snd) d) + bk_requests b - (case map_of d h of None \<Rightarrow> 0 | Some x \<Rightarrow> bk_requests x)"
  by (induction d) auto

lemma tally_host_sum: "sum_list (map (bk_requests \<circ> snd) (tally_host host status sz d)) = sum_list (map (bk_requests \<circ> snd) d) + (if host = [] then 0 else 1)"
  by (simp add: tally_host_def Let_def sum_hosts_update tally_def empty_bucket_def split: option.split)

lemma tally_host_bounded: "hosts_bounded d \<Longrightarrow> hosts_bounded (tally_host host status sz d)"
  by (auto simp: hosts_bounded_def tally_host_def Let_def length_AList_update update_conv' dom_update)

lemma tally_ip_ok:
  assumes "summary_ok a"
  shows "summary_ok (tally_ip ip (a\<lparr>sm_requests := sm_requests a + 1, sm_bytes := b, sm_statuses := bump st 1 (sm_statuses a)\<rparr>))"
    "sm_hosts (tally_ip ip (a\<lparr>sm_requests := sm_requests a + 1, sm_bytes := b, sm_statuses := bump st 1 (sm_statuses a)\<rparr>)) = sm_hosts a"
    "sm_requests (tally_ip ip (a\<lparr>sm_requests := sm_requests a + 1, sm_bytes := b, sm_statuses := bump st 1 (sm_statuses a)\<rparr>)) = sm_requests a + 1"
  using assms by (auto simp: tally_ip_def summary_ok_def sum_bump length_bump)

lemma summarize_line_ok: "summary_ok a \<Longrightarrow> summary_ok (summarize_line w line a)"
proof -
  assume a: "summary_ok a"
  show ?thesis
  proof (cases "strip line = [] \<or> log_record w line = None")
    case True
    with a show ?thesis by (auto simp: summarize_line_def summary_ok_def)
  next
    case False
    then obtain rec where rec: "strip line \<noteq> []" "log_record w line = Some rec" by auto
    define st where "st = py_str (jget rec ''status'')"
    define x where "x = tally_ip (py_str (or_else (jget (record_request rec) ''remote_ip'') (JStr [])))
      (a\<lparr>sm_requests := sm_requests a + 1, sm_bytes := sm_bytes a + int_or_0 (jget rec ''size''), sm_statuses := bump st 1 (sm_statuses a)\<rparr>)"
    have x: "summary_ok x" "sm_hosts x = sm_hosts a" "sm_requests x = sm_requests a + 1" unfolding x_def using tally_ip_ok [OF a] by blast+
    have "summarize_line w line a = x\<lparr>sm_hosts := tally_host (host_of rec) st (int_or_0 (jget rec ''size'')) (sm_hosts x)\<rparr>"
      using rec by (simp add: summarize_line_def x_def st_def Let_def)
    moreover have "sum_list (map (bk_requests \<circ> snd) (sm_hosts a)) \<le> sm_requests a" using a by (simp add: summary_ok_def)
    ultimately show ?thesis using x by (simp add: summary_ok_def tally_host_bounded tally_host_sum)
  qed
qed

lemma readline_le: "length (readline n buf) \<le> length buf"
proof -
  have "length (takeWhile (\<lambda>c. c \<noteq> NEWLINE) buf @ (if NEWLINE \<in> set buf then [NEWLINE] else [])) \<le> length buf"
  proof (cases "NEWLINE \<in> set buf")
    case True
    then have "dropWhile (\<lambda>c. c \<noteq> NEWLINE) buf \<noteq> []" by (auto simp: dropWhile_eq_Nil_conv)
    moreover have "length buf = length (takeWhile (\<lambda>c. c \<noteq> NEWLINE) buf) + length (dropWhile (\<lambda>c. c \<noteq> NEWLINE) buf)"
      by (metis length_append takeWhile_dropWhile_id)
    ultimately show ?thesis using True by (cases "dropWhile (\<lambda>c. c \<noteq> NEWLINE) buf") auto
  qed (simp add: length_takeWhile_le)
  then show ?thesis by (simp add: readline_def)
qed

lemma swallow_le: "swallow buf \<le> length buf"
proof (induction buf rule: swallow.induct)
  case (1 buf)
  show ?case
  proof (cases "readline MAX_LINE buf = [] \<or> ends_line (readline MAX_LINE buf)")
    case True
    then show ?thesis using readline_le [of MAX_LINE buf] by (simp add: swallow.simps [of buf] Let_def)
  next
    case False
    with 1 [OF refl False] readline_le [of MAX_LINE buf] show ?thesis by (simp add: swallow.simps [of buf] Let_def)
  qed
qed

lemma summarize_from_ok:
  "summarize_from w buf n a = (a', n') \<Longrightarrow> summary_ok a \<Longrightarrow> summary_ok a' \<and> n \<le> n' \<and> n' \<le> n + length buf"
proof (induction w buf n a rule: summarize_from.induct)
  case (1 w buf n a)
  let ?l = "readline MAX_LINE buf"
  consider (stop) "summarize_from w buf n a = (a, n)"
    | (long) "\<not> SUMMARY_SCAN_CAP \<le> n" "?l \<noteq> []" "\<not> ends_line ?l" "\<not> length ?l < MAX_LINE"
    | (line) "\<not> SUMMARY_SCAN_CAP \<le> n" "?l \<noteq> []" "ends_line ?l"
  proof -
    have "summarize_from w buf n a = (a, n)" if "SUMMARY_SCAN_CAP \<le> n \<or> ?l = [] \<or> (\<not> ends_line ?l \<and> length ?l < MAX_LINE)"
      using that by (auto simp: summarize_from.simps [of w buf n a] Let_def)
    then show thesis using that by blast
  qed
  then show ?case
  proof cases
    case stop
    with "1.prems" show ?thesis by simp
  next
    case long
    let ?k = "length ?l + swallow (drop (length ?l) buf)"
    have "?k \<le> length buf" using swallow_le [of "drop (length ?l) buf"] readline_le [of MAX_LINE buf] by simp
    moreover have "summarize_from w (drop ?k buf) (n + ?k) (a\<lparr>sm_malformed := sm_malformed a + 1\<rparr>) = (a', n')"
      using "1.prems"(1) long by (simp add: summarize_from.simps [of w buf n a] Let_def)
    moreover have "summary_ok (a\<lparr>sm_malformed := sm_malformed a + 1\<rparr>)" using "1.prems"(2) by (simp add: summary_ok_def)
    ultimately show ?thesis using "1.IH"(1) [OF long(1) refl long(2-4) refl] by simp
  next
    case line
    have "summarize_from w (drop (length ?l) buf) (n + length ?l) (summarize_line w ?l a) = (a', n')"
      using "1.prems"(1) line by (simp add: summarize_from.simps [of w buf n a] Let_def)
    with "1.IH"(2) [OF line(1) refl line(2)] line(3) summarize_line_ok [OF "1.prems"(2)] readline_le [of MAX_LINE buf] show ?thesis by simp
  qed
qed

text \<open>
  C39: What a target ships is bounded, whatever its log holds. The raw text of a chunk never exceeds the byte cap; a log with more to say
  ships a summary instead, of at most 65 hosts, 4096 tracked and 10 named addresses, whose counts agree with each other: the
  status counts add up to the requests, and neither the addresses nor the hosts claim more. The new cursor never points past
  the end of the log.
\<close>

theorem chunk_bounded:
  "let chunk = log_chunk w path (Some (inode, content)) offset expected in
    \<exists>data n. jget chunk ''bytes'' = JStr data \<and> length data \<le> 65536 \<and> jget chunk ''offset'' = JInt (int n) \<and> n \<le> length content \<and>
    (jget chunk ''sampled'' = JNull \<or> (data = [] \<and> (\<exists>a m. jget chunk ''summary'' = jsummary a m \<and> m \<le> length content \<and>
       length (sm_hosts a) \<le> 65 \<and> length (sm_ips a) \<le> 4096 \<and> length (top_ips (sm_ips a)) \<le> 10 \<and>
       sum_list (map snd (sm_statuses a)) = sm_requests a \<and> sum_list (map snd (sm_ips a)) + sm_dropped_ips a \<le> sm_requests a \<and>
       sum_list (map (bk_requests \<circ> snd) (sm_hosts a)) \<le> sm_requests a)))"
proof -
  define chunk where "chunk = log_chunk w path (Some (inode, content)) offset expected"
  define rotated where "rotated = (expected \<noteq> 0 \<and> inode \<noteq> expected)"
  define start where "start = (if (if rotated then 0 else offset) > length content then 0 else if rotated then 0 else offset)"
  have start: "start \<le> length content" by (simp add: start_def)
  have eq: "chunk = (if length content - start \<le> CHUNK
      then [(''file'', JStr path), (''inode'', JInt (int inode)), (''offset'', JInt (int (start + length (take CHUNK (drop start content))))), (''bytes'', JStr (take CHUNK (drop start content)))]
      else case summarize_from w (drop start content) 0 empty_summary of (a, scanned) \<Rightarrow>
        [(''file'', JStr path), (''inode'', JInt (int inode)), (''offset'', JInt (int (start + scanned))), (''bytes'', JStr []), (''sampled'', JBool True), (''summary'', jsummary a scanned)])
      @ (if rotated then [(''rotated'', JBool True)] else [])"
    by (simp only: chunk_def log_chunk_def Let_def option.case prod.case start_def rotated_def)
  obtain a m where am: "summarize_from w (drop start content) 0 empty_summary = (a, m)" by fastforce
  have "summary_ok empty_summary" by (simp add: summary_ok_def empty_summary_def hosts_bounded_def)
  from summarize_from_ok [OF am this] have ok: "summary_ok a" "m \<le> length content - start" by simp_all
  then have bounds: "length (sm_hosts a) \<le> 65" "length (sm_ips a) \<le> 4096" "length (top_ips (sm_ips a)) \<le> 10" "start + m \<le> length content" "m \<le> length content"
    using start by (auto simp: summary_ok_def hosts_bounded_def MAX_TRACKED_HOSTS_def MAX_TRACKED_IPS_def top_ips_def TOP_IPS_def)
  show ?thesis
  proof (cases "length content - start \<le> CHUNK")
    case True
    then have "chunk = [(''file'', JStr path), (''inode'', JInt (int inode)), (''offset'', JInt (int (start + length (take CHUNK (drop start content))))),
        (''bytes'', JStr (take CHUNK (drop start content)))] @ (if rotated then [(''rotated'', JBool True)] else [])"
      unfolding eq by (simp only: if_True)
    with start show ?thesis unfolding Let_def chunk_def [symmetric]
      by (intro exI [of _ "take CHUNK (drop start content)"] exI [of _ "start + length (take CHUNK (drop start content))"]) (simp add: jget_def CHUNK_def)
  next
    case False
    then have "chunk = [(''file'', JStr path), (''inode'', JInt (int inode)), (''offset'', JInt (int (start + m))), (''bytes'', JStr []),
        (''sampled'', JBool True), (''summary'', jsummary a m)] @ (if rotated then [(''rotated'', JBool True)] else [])"
      unfolding eq am by (simp only: if_False prod.case)
    with bounds ok(1) show ?thesis unfolding Let_def chunk_def [symmetric]
      by (intro exI [of _ "[]"] exI [of _ "start + m"]) (auto simp: jget_def summary_ok_def intro!: exI [of _ a] exI [of _ m])
  qed
qed

text \<open>
  A request whose line is being written while the log is read is lost. The raw path moves its cursor to the end of what it read, in
  the middle of the line; each half is malformed on its own, and the request is counted nowhere.
\<close>

theorem split_line_lost:
  assumes "log_record w line = Some rec" "line = a @ b" "strip a \<noteq> []" "strip b \<noteq> []" "log_record w a = None" "log_record w b = None"
    "length line \<le> CHUNK"
  shows "jget (log_chunk w path (Some (inode, a)) 0 inode) ''offset'' = JInt (int (length a))"
    "jget (log_chunk w path (Some (inode, line)) (length a) inode) ''bytes'' = JStr b"
    "from_lines w bd fb [a] [] 0 0 = Inr ([], 1, 0)" "from_lines w bd fb [b] [] 0 0 = Inr ([], 1, 0)"
  using assms by (simp_all add: log_chunk_def Let_def jget_def)

text \<open>
  A log line can make an ingestion raise: a time stamp outside the years of the calendar is refused, although nothing in the
  content of a log is meant to. The cursor was stored before, so the rest of the window is not read again.
\<close>

theorem far_timestamp_raises:
  assumes "chunk_of payload = Inr chunk" "\<not> already_ingested t (cursor_of chunk)" "\<not> truthy (jget chunk ''sampled'')" "jget chunk ''bytes'' = JStr line"
    "splitlines line = [line]" "strip line \<noteq> []" "log_record w line = Some rec" "map_of (sites_by_domain s) (host_of rec) = Some site"
    "jget rec ''ts'' = JInt n" "n > LAST_SECOND"
  shows "\<exists>u. ingest w t payload s = (Inl (ValueError ''year is out of range''), u) \<and> traffic_stats u = traffic_stats s"
proof -
  obtain k where k: "payload_minute w payload s = (Inr (fallback_minute w payload s), s\<lparr>ticks := k\<rparr>)" using payload_minute_eff by blast
  have "or_else (jget chunk ''bytes'') (JStr []) = JStr line" by (simp add: assms(4) or_else_def)
  then have "from_chunk w (sites_by_domain s) chunk (fallback_minute w payload s) = Inl (ValueError ''year is out of range'')"
    using assms(3,5-10) by (simp add: from_chunk_def line_minute_def)
  moreover have "sites_by_domain (s\<lparr>ticks := k\<rparr>) = sites_by_domain s" by (simp add: sites_by_domain_def)
  ultimately show ?thesis using assms(1,2)
    by (simp add: ingest_def of_sum_def Let_def bnd_def [of "payload_minute _ _"] k) (simp add: bnd_def gets_def throw_def)
qed


section \<open>A target with one log line\<close>

definition log_world :: world where
  "log_world = calm_world\<lparr>w_loads := (\<lambda>l. if l = ''{}'' then Some (JObj [(''status'', JInt 200), (''size'', JInt 5), (''ts'', JInt 60),
     (''request'', JObj [(''host'', JStr ''shop:443'')])]) else None)\<rparr>"

definition log_site :: site where
  "log_site = (partner_site_of 1 ''a'')\<lparr>s_domain := ''Shop''\<rparr>"

definition log_target :: target where
  "log_target = \<lparr>t_pk = 3, t_zone = \<lparr>z_pk = 1, z_workspace = 1, z_name = ''home'', z_slug = ''home'', z_purpose = PurposeProd\<rparr>, t_kind = Ssh,
     t_host = ''203.0.113.7'', t_provider_ref = None, t_ssh_user = ''deploy'', t_ssh_key_ref = [], t_host_key_fingerprint = [],
     t_lifecycle = Permanent, t_status = TgReady, t_collect_payload = JNull, t_collect_at = None, t_collect_log_inode = None, t_collect_log_offset = 0\<rparr>"

definition log_hub :: hub where
  "log_hub = empty_hub\<lparr>sites := [log_site], targets := [log_target]\<rparr>"

definition log_payload :: "(string \<times> json) list" where
  "log_payload = [(''log_chunk'', JObj [(''inode'', JInt 1), (''offset'', JInt 2), (''bytes'', JStr ''{}'')])]"

lemma log_ingested: "case fst (ingest log_world log_target log_payload log_hub) of Inr (rep, _) \<Rightarrow> \<not> ig_deduped rep | Inl _ \<Rightarrow> False"
  by code_simp

lemma log_bucket:
  "length (filter (in_bucket (1, minutes 1)) (map (classify_line log_world (sites_by_domain log_hub) (fallback_minute log_world log_payload log_hub)) (splitlines ''{}''))) = 1"
  by code_simp

lemma log_run:
  obtains rep t u where "ingest log_world log_target log_payload log_hub = (Inr (rep, t), u)" "\<not> ig_deduped rep"
  using log_ingested by (cases "ingest log_world log_target log_payload log_hub") (auto split: sum.splits)


theorem reingest_changes_nothing_witness:
  "\<exists>rep t u. ingest log_world log_target log_payload log_hub = (Inr (rep, t), u) \<and> snd (ingest log_world t log_payload u) = u"
proof -
  obtain rep t u where run: "ingest log_world log_target log_payload log_hub = (Inr (rep, t), u)" by (rule log_run)
  from reingest_changes_nothing [OF run, of log_world u] run show ?thesis by auto
qed

definition quiet_collect :: collect_env where
  "quiet_collect = \<lparr>ce_script = ''#!'', ce_persist_sample = (\<lambda>_ _ _. ret ()), ce_edge_for = (\<lambda>_. ret None)\<rparr>"

theorem collection_survives_broken_targets_witness:
  "\<exists>n t. collect_all log_world quiet_collect None log_hub = (Inr n, t) \<and> locks t = []"
  using collection_survives_broken_targets [of quiet_collect log_world None log_hub]
  by (auto simp: env_keeps_locks_def quiet_collect_def frame.ev_ret log_hub_def)

end
