(* ===== verification/Validators.thy ===== *)
theory Validators
  imports Addresses Task_Envelope
begin

text \<open>
  \<open>core/validators.py\<close>: the checks of git URLs, webhook URLs and domains, which are the hub's guard against being sent to an address
  inside its own network. What they use of the standard library of Python 3.12 is modelled: \<open>ipaddress\<close> (IPv6 addresses as 128-bit
  words beside the IPv4 addresses of \<open>Addresses\<close>) and \<open>urllib.parse.urlsplit\<close>. The resolver \<open>socket.getaddrinfo\<close> and the \<open>idna\<close>
  codec are arguments. Text is a list of Latin-1 characters, for which the check of a normalised host by \<open>urlsplit\<close> never fires. Of an
  error only the code is kept.
\<close>


section \<open>IPv6 addresses (\<open>ipaddress\<close>)\<close>

type_synonym ipv6 = "128 word"

datatype ip_addr = V4 ipv4 | V6 ipv6

definition hextet_digit :: "char \<Rightarrow> int option" where
  "hextet_digit c = (let n = of_char c :: int in
     if 48 \<le> n \<and> n \<le> 57 then Some (n - 48) else if 97 \<le> n \<and> n \<le> 102 then Some (n - 87)
     else if 65 \<le> n \<and> n \<le> 70 then Some (n - 55) else None)"

definition parse_hextet :: "string \<Rightarrow> int option" where
  "parse_hextet x = (if x \<noteq> [] \<and> length x \<le> 4 then map_option (foldl (\<lambda>n d. 16 * n + d) 0) (all_some (map hextet_digit x)) else None)"

text \<open>A part between two colons: \<open>None\<close> when it is blank, \<open>Some None\<close> when it is no hexadecimal number.\<close>

definition ip6_part :: "string \<Rightarrow> int option option" where
  "ip6_part x = (if x = [] then None else Some (parse_hextet x))"

definition ip6_parts :: "string \<Rightarrow> int option option list option" where
  "ip6_parts x = (let ps = split_char (CHR '':'') x in
     if length ps < 3 then None
     else if CHR ''.'' \<in> set (last ps)
     then map_option (\<lambda>a. map ip6_part (butlast ps) @ [Some (Some (uint a div 65536)), Some (Some (uint a mod 65536))]) (IPv4Address (last ps))
     else Some (map ip6_part ps))"

text \<open>The eight numbers of an address; a single blank part in the middle stands for the zeros left out.\<close>

definition ip6_hextets :: "int option option list \<Rightarrow> int list option" where
  "ip6_hextets ps = (if length ps > 9 then None else
     case filter (\<lambda>i. ps ! i = None) [1..<length ps - 1] of
       [] \<Rightarrow> if length ps \<noteq> 8 then None else all_some (map (\<lambda>p. case p of None \<Rightarrow> None | Some v \<Rightarrow> v) ps)
     | [i] \<Rightarrow> (let hi = (if hd ps = None then tl (take i ps) else take i ps);
                  lo = (if last ps = None then butlast (drop (Suc i) ps) else drop (Suc i) ps) in
         if hd ps = None \<and> hi \<noteq> [] \<or> last ps = None \<and> lo \<noteq> [] \<or> length hi + length lo > 7 then None
         else all_some (map (\<lambda>p. case p of None \<Rightarrow> None | Some v \<Rightarrow> v)
                (hi @ replicate (8 - (length hi + length lo)) (Some (Some 0)) @ lo)))
     | _ \<Rightarrow> None)"

definition ip6_value :: "string \<Rightarrow> ipv6 option" where
  "ip6_value x = (case ip6_parts x of None \<Rightarrow> None
     | Some ps \<Rightarrow> map_option (\<lambda>hs. of_int (foldl (\<lambda>n h. 65536 * n + h) 0 hs)) (ip6_hextets ps))"

text \<open>A scope after \<open>%\<close> is split off; it may be neither blank nor hold a second sign.\<close>

definition IPv6Address :: "string \<Rightarrow> ipv6 option" where
  "IPv6Address x = (if CHR ''/'' \<in> set x then None
     else if CHR ''%'' \<in> set x
     then (let (addr, scope) = partition_char (CHR ''%'') x in
       if scope = [] \<or> CHR ''%'' \<in> set scope then None else ip6_value addr)
     else ip6_value x)"

definition ip_address :: "string \<Rightarrow> ip_addr option" where
  "ip_address x = (case IPv4Address x of Some a \<Rightarrow> Some (V4 a) | None \<Rightarrow> map_option V6 (IPv6Address x))"

definition in_net6 :: "ipv6 \<Rightarrow> ipv6 \<Rightarrow> nat \<Rightarrow> bool" where
  "in_net6 a net p = (drop_bit (128 - p) a = drop_bit (128 - p) net)"

definition PRIVATE4 :: "(ipv4 \<times> nat) list" where
  "PRIVATE4 = [(ip 0 0 0 0, 8), (ip 10 0 0 0, 8), (ip 127 0 0 0, 8), (ip 169 254 0 0, 16), (ip 172 16 0 0, 12), (ip 192 0 0 0, 24),
     (ip 192 0 0 170, 31), (ip 192 0 2 0, 24), (ip 192 168 0 0, 16), (ip 198 18 0 0, 15), (ip 198 51 100 0, 24), (ip 203 0 113 0, 24),
     (ip 240 0 0 0, 4), (ip 255 255 255 255, 32)]"

definition PRIVATE4_EXCEPT :: "(ipv4 \<times> nat) list" where
  "PRIVATE4_EXCEPT = [(ip 192 0 0 9, 32), (ip 192 0 0 10, 32)]"

definition is_private4 :: "ipv4 \<Rightarrow> bool" where
  "is_private4 a = (list_ex (\<lambda>(net, p). in_net a net p) PRIVATE4 \<and> \<not> list_ex (\<lambda>(net, p). in_net a net p) PRIVATE4_EXCEPT)"

definition is_reserved4 :: "ipv4 \<Rightarrow> bool" where
  "is_reserved4 a = in_net a (ip 240 0 0 0) 4"

text \<open>A network written by its leading 16-bit groups.\<close>

definition net6 :: "int list \<Rightarrow> ipv6" where
  "net6 hs = of_int (foldl (\<lambda>n h. 65536 * n + h) 0 (hs @ replicate (8 - length hs) 0))"

definition PRIVATE6 :: "(ipv6 \<times> nat) list" where
  "PRIVATE6 = [(1, 128), (0, 128), (net6 [0, 0, 0, 0, 0, 0xffff], 96), (net6 [0x64, 0xff9b, 1], 48), (net6 [0x100], 64),
     (net6 [0x2001], 23), (net6 [0x2001, 0xdb8], 32), (net6 [0x2002], 16), (net6 [0x3fff], 20), (net6 [0xfc00], 7), (net6 [0xfe80], 10)]"

definition PRIVATE6_EXCEPT :: "(ipv6 \<times> nat) list" where
  "PRIVATE6_EXCEPT = [(net6 [0x2001, 1, 0, 0, 0, 0, 0, 1], 128), (net6 [0x2001, 1, 0, 0, 0, 0, 0, 2], 128), (net6 [0x2001, 3], 32),
     (net6 [0x2001, 4, 0x112], 48), (net6 [0x2001, 0x20], 28), (net6 [0x2001, 0x30], 28)]"

definition RESERVED6 :: "(ipv6 \<times> nat) list" where
  "RESERVED6 = [(net6 [0], 8), (net6 [0x100], 8), (net6 [0x200], 7), (net6 [0x400], 6), (net6 [0x800], 5), (net6 [0x1000], 4),
     (net6 [0x4000], 3), (net6 [0x6000], 3), (net6 [0x8000], 3), (net6 [0xa000], 3), (net6 [0xc000], 3), (net6 [0xe000], 4),
     (net6 [0xf000], 5), (net6 [0xf800], 6), (net6 [0xfe00], 9)]"

definition is_loopback6 :: "ipv6 \<Rightarrow> bool" where "is_loopback6 a = (a = 1)"
definition is_link_local6 :: "ipv6 \<Rightarrow> bool" where "is_link_local6 a = in_net6 a (net6 [0xfe80]) 10"
definition is_multicast6 :: "ipv6 \<Rightarrow> bool" where "is_multicast6 a = in_net6 a (net6 [0xff00]) 8"
definition is_unspecified6 :: "ipv6 \<Rightarrow> bool" where "is_unspecified6 a = (a = 0)"

definition is_private6 :: "ipv6 \<Rightarrow> bool" where
  "is_private6 a = (list_ex (\<lambda>(net, p). in_net6 a net p) PRIVATE6 \<and> \<not> list_ex (\<lambda>(net, p). in_net6 a net p) PRIVATE6_EXCEPT)"

definition is_reserved6 :: "ipv6 \<Rightarrow> bool" where
  "is_reserved6 a = list_ex (\<lambda>(net, p). in_net6 a net p) RESERVED6"

definition ipv4_mapped :: "ipv6 \<Rightarrow> ipv4 option" where
  "ipv4_mapped a = (if drop_bit 32 a = 0xffff then Some (ucast a) else None)"


section \<open>Addresses that must not be reached\<close>

definition blocked_v4 :: "ipv4 \<Rightarrow> string option" where
  "blocked_v4 a = (if is_loopback a then Some ''loopback address''
     else if is_link_local a then Some ''link-local address (cloud metadata range)''
     else if is_private4 a then Some ''private address''
     else if is_reserved4 a \<or> is_multicast a \<or> is_unspecified a then Some ''reserved, multicast or unspecified address''
     else if in_net a (fst CGNAT) (snd CGNAT) then Some ''carrier-grade NAT address'' else None)"

fun is_blocked_ip :: "ip_addr \<Rightarrow> string option" where
  "is_blocked_ip (V4 a) = blocked_v4 a"
| "is_blocked_ip (V6 a) = (case ipv4_mapped a of
     Some b \<Rightarrow> blocked_v4 b
   | None \<Rightarrow> if is_loopback6 a then Some ''loopback address''
     else if is_link_local6 a then Some ''link-local address (cloud metadata range)''
     else if is_private6 a then Some ''private address''
     else if is_reserved6 a \<or> is_multicast6 a \<or> is_unspecified6 a then Some ''reserved, multicast or unspecified address''
     else None)"

text \<open>
  A refusal is a \<open>ValidationError\<close> with its code; \<open>Escaped\<close> is an exception of the standard library that the validator does not catch.
  A lookup of a host gives its addresses, fails with \<open>gaierror\<close>, or raises something else.
\<close>

datatype url_refusal = ValidationError string | Escaped
datatype host_lookup = HostAddresses "string list" | HostUnknown | HostRaises

primrec check_addresses :: "string list \<Rightarrow> url_refusal + unit" where
  "check_addresses [] = Inr ()"
| "check_addresses (raw # rs) = (case ip_address raw of
     None \<Rightarrow> Inl Escaped
   | Some a \<Rightarrow> if is_blocked_ip a \<noteq> None then Inl (ValidationError ''blocked_address'') else check_addresses rs)"

definition resolve_and_check_host :: "(string \<Rightarrow> host_lookup) \<Rightarrow> string \<Rightarrow> url_refusal + unit" where
  "resolve_and_check_host getaddrinfo host = (case getaddrinfo host of
     HostUnknown \<Rightarrow> Inl (ValidationError ''unresolvable'')
   | HostRaises \<Rightarrow> Inl Escaped
   | HostAddresses rs \<Rightarrow> check_addresses rs)"

definition check_host_address :: "(string \<Rightarrow> host_lookup) \<Rightarrow> bool \<Rightarrow> string \<Rightarrow> url_refusal + unit" where
  "check_host_address getaddrinfo resolving host = (case ip_address host of
     Some a \<Rightarrow> if is_blocked_ip a \<noteq> None then Inl (ValidationError ''blocked_address'') else Inr ()
   | None \<Rightarrow> if resolving then resolve_and_check_host getaddrinfo host else Inr ())"


section \<open>Splitting a URL (\<open>urllib.parse\<close>)\<close>

record split_url =
  us_scheme :: string
  us_netloc :: string
  us_path :: string

definition ascii_letter :: "char \<Rightarrow> bool" where
  "ascii_letter c = (let n = of_char c :: nat in (65 \<le> n \<and> n \<le> 90) \<or> (97 \<le> n \<and> n \<le> 122))"

definition scheme_char :: "char \<Rightarrow> bool" where
  "scheme_char c = (ascii_letter c \<or> is_digit c \<or> c \<in> {CHR ''+'', CHR ''-'', CHR ''.''})"

text \<open>\<open>s.rpartition(c)\<close>: the text before the last \<open>c\<close>, if there is one, and the text after it.\<close>

definition rpartition_char :: "char \<Rightarrow> string \<Rightarrow> string option \<times> string" where
  "rpartition_char c s = (let back_part = takeWhile (\<lambda>x. x \<noteq> c) (rev s) in
     (if c \<in> set s then Some (take (length s - length back_part - 1) s) else None, rev back_part))"

definition hostinfo :: "string \<Rightarrow> string \<times> string" where
  "hostinfo netloc = (let info = snd (rpartition_char (CHR ''@'') netloc) in
     if CHR ''['' \<in> set info
     then (let (host, rest) = partition_char (CHR '']'') (snd (partition_char (CHR ''['') info)) in (host, snd (partition_char (CHR '':'') rest)))
     else partition_char (CHR '':'') info)"

text \<open>A host in brackets must be an IPv6 address or of the form \<open>v<hex>.<rest>\<close>, with nothing before it and only a port after it.\<close>

definition ipvfuture :: "string \<Rightarrow> bool" where
  "ipvfuture host = (let body = tl host; hex = takeWhile (\<lambda>c. hextet_digit c \<noteq> None) body; rest = drop (length hex) body in
     hex \<noteq> [] \<and> take 1 rest = ''.'' \<and> length rest > 1)"

definition bracketed_host_ok :: "string \<Rightarrow> bool" where
  "bracketed_host_ok host = (if take 1 host = ''v'' then ipvfuture host else case ip_address host of Some (V6 _) \<Rightarrow> True | _ \<Rightarrow> False)"

definition bracketed_netloc_ok :: "string \<Rightarrow> bool" where
  "bracketed_netloc_ok netloc = (let info = snd (rpartition_char (CHR ''@'') netloc) in
     if CHR ''['' \<in> set info
     then (let (front_part, bracketed) = partition_char (CHR ''['') info; (host, port) = partition_char (CHR '']'') bracketed in
       front_part = [] \<and> (port = [] \<or> hd port = CHR '':'') \<and> bracketed_host_ok host)
     else bracketed_host_ok (fst (partition_char (CHR '':'') info)))"

definition netloc_ok :: "string \<Rightarrow> bool" where
  "netloc_ok netloc = (if CHR ''['' \<in> set netloc \<longleftrightarrow> CHR '']'' \<in> set netloc
     then CHR ''['' \<in> set netloc \<longrightarrow> bracketed_netloc_ok netloc else False)"

definition url_scheme :: "string \<Rightarrow> string \<times> string" where
  "url_scheme url = (let (head, rest) = partition_char (CHR '':'') url in
     if CHR '':'' \<in> set url \<and> head \<noteq> [] \<and> ascii_letter (hd head) \<and> list_all scheme_char head then (lower head, rest) else ([], url))"

text \<open>\<open>urlsplit\<close>; \<open>None\<close> for a \<open>ValueError\<close>.\<close>

definition urlsplit :: "string \<Rightarrow> split_url option" where
  "urlsplit value =
     (let url = filter (\<lambda>c. (of_char c :: nat) \<notin> {9, 10, 13}) (dropWhile (\<lambda>c. (of_char c :: nat) \<le> 32) value);
          (scheme, rest) = url_scheme url;
          in_netloc = (\<lambda>c. c \<notin> {CHR ''/'', CHR ''?'', CHR ''#''});
          (netloc, tail_part) = (if take 2 rest = ''//'' then (takeWhile in_netloc (drop 2 rest), dropWhile in_netloc (drop 2 rest)) else ([], rest)) in
      if \<not> netloc_ok netloc then None
      else Some \<lparr>us_scheme = scheme, us_netloc = netloc,
        us_path = takeWhile (\<lambda>c. c \<noteq> CHR ''?'') (takeWhile (\<lambda>c. c \<noteq> CHR ''#'') tail_part)\<rparr>)"

definition us_username :: "split_url \<Rightarrow> string option" where
  "us_username u = map_option (\<lambda>info. fst (partition_char (CHR '':'') info)) (fst (rpartition_char (CHR ''@'') (us_netloc u)))"

definition us_password :: "split_url \<Rightarrow> string option" where
  "us_password u = (case fst (rpartition_char (CHR ''@'') (us_netloc u)) of
     None \<Rightarrow> None
   | Some info \<Rightarrow> if CHR '':'' \<in> set info then Some (snd (partition_char (CHR '':'') info)) else None)"

text \<open>The host in lower case, its zone as it is.\<close>

definition us_hostname :: "split_url \<Rightarrow> string option" where
  "us_hostname u = (let host = fst (hostinfo (us_netloc u)) in
     if host = [] then None else Some (lower (takeWhile (\<lambda>c. c \<noteq> CHR ''%'') host) @ dropWhile (\<lambda>c. c \<noteq> CHR ''%'') host))"

definition us_port :: "split_url \<Rightarrow> url_refusal + nat option" where
  "us_port u = (let port = snd (hostinfo (us_netloc u)) in
     if port = [] then Inr None
     else if list_all is_digit port \<and> nat_of_digits port \<le> 65535 then Inr (Some (nat_of_digits port))
     else Inl (ValidationError ''bad_port''))"


section \<open>The validators\<close>

definition MAX_URL_LENGTH :: nat where "MAX_URL_LENGTH = 2048"
definition ALLOWED_SCHEMES :: "string list" where "ALLOWED_SCHEMES = [''https'', ''ssh'']"
definition ALLOWED_PORTS :: "nat option list" where "ALLOWED_PORTS = [None, Some 22, Some 443]"
definition WEBHOOK_SCHEMES :: "string list" where "WEBHOOK_SCHEMES = [''https'']"
definition WEBHOOK_PORTS :: "nat option list" where "WEBHOOK_PORTS = [None, Some 443]"
definition BLOCKED_SUFFIXES :: "string list" where "BLOCKED_SUFFIXES = [''.local'', ''.internal'', ''.localdomain'', ''.home.arpa'']"

definition is_control :: "char \<Rightarrow> bool" where
  "is_control c = (let n = of_char c :: nat in n < 32 \<or> n = 127)"

definition ends_with :: "string \<Rightarrow> string \<Rightarrow> bool" where
  "ends_with x y = (length y \<le> length x \<and> drop (length x - length y) x = y)"

fun occurs_in :: "string \<Rightarrow> string \<Rightarrow> bool" where
  "occurs_in y [] = (y = [])"
| "occurs_in y (c # x) = (take (length y) (c # x) = y \<or> occurs_in y x)"

definition blocked_name :: "string \<Rightarrow> bool" where
  "blocked_name host = (lower host = ''localhost'' \<or> list_ex (ends_with (lower host)) BLOCKED_SUFFIXES)"

text \<open>\<open>re.match(r"^[^/]+@[^/:]+:", value)\<close>.\<close>

definition scp_style :: "string \<Rightarrow> bool" where
  "scp_style x = list_ex (\<lambda>i. x ! i = CHR ''@'' \<and> CHR ''/'' \<notin> set (take i x) \<and>
     (let rest = drop (Suc i) x; host = takeWhile (\<lambda>c. c \<notin> {CHR ''/'', CHR '':''}) rest in
      host \<noteq> [] \<and> take 1 (drop (length host) rest) = '':'')) [1..<length x]"

definition given :: "string option \<Rightarrow> bool" where
  "given x = (case x of None \<Rightarrow> False | Some y \<Rightarrow> y \<noteq> [])"

text \<open>The checks that precede the splitting, the same in both validators.\<close>

definition check_url_text :: "string \<Rightarrow> string option" where
  "check_url_text value = (if length value > MAX_URL_LENGTH then Some ''too_long''
     else if list_ex is_control value then Some ''control_chars'' else None)"

definition check_host :: "nat option list \<Rightarrow> split_url \<Rightarrow> url_refusal + string" where
  "check_host ports u = (case us_hostname u of
     None \<Rightarrow> Inl (ValidationError ''no_host'')
   | Some host \<Rightarrow> if blocked_name host then Inl (ValidationError ''blocked_host'')
     else case us_port u of Inl e \<Rightarrow> Inl e
       | Inr port \<Rightarrow> if port \<notin> set ports then Inl (ValidationError ''bad_port'') else Inr host)"

definition validate_git_url :: "(string \<Rightarrow> host_lookup) \<Rightarrow> string \<Rightarrow> bool \<Rightarrow> url_refusal + string" where
  "validate_git_url getaddrinfo raw resolving = (let value = strip raw in
     if value = [] then Inl (ValidationError ''required'')
     else case check_url_text value of Some code \<Rightarrow> Inl (ValidationError code)
     | None \<Rightarrow>
       if \<not> occurs_in ''://'' value then Inl (ValidationError (if scp_style value then ''scp_syntax'' else ''no_scheme''))
       else case urlsplit value of None \<Rightarrow> Inl Escaped
       | Some u \<Rightarrow>
         let scheme = (if us_scheme u = ''git+ssh'' then ''ssh'' else us_scheme u) in
         if scheme \<notin> set ALLOWED_SCHEMES then Inl (ValidationError ''bad_scheme'')
         else if given (us_password u) then Inl (ValidationError ''embedded_credentials'')
         else if scheme = ''https'' \<and> given (us_username u) then Inl (ValidationError ''embedded_credentials'')
         else case check_host ALLOWED_PORTS u of Inl e \<Rightarrow> Inl e
         | Inr host \<Rightarrow> if us_path u = [] \<or> us_path u = ''/'' then Inl (ValidationError ''no_path'')
           else case check_host_address getaddrinfo resolving host of Inl e \<Rightarrow> Inl e | Inr _ \<Rightarrow> Inr value)"

definition validate_webhook_url :: "(string \<Rightarrow> host_lookup) \<Rightarrow> string \<Rightarrow> bool \<Rightarrow> url_refusal + string" where
  "validate_webhook_url getaddrinfo raw resolving = (let value = strip raw in
     if value = [] then Inl (ValidationError ''required'')
     else case check_url_text value of Some code \<Rightarrow> Inl (ValidationError code)
     | None \<Rightarrow>
       if \<not> occurs_in ''://'' value then Inl (ValidationError ''no_scheme'')
       else case urlsplit value of None \<Rightarrow> Inl Escaped
       | Some u \<Rightarrow>
         if us_scheme u \<notin> set WEBHOOK_SCHEMES then Inl (ValidationError ''bad_scheme'')
         else if given (us_password u) \<or> given (us_username u) then Inl (ValidationError ''embedded_credentials'')
         else case check_host WEBHOOK_PORTS u of Inl e \<Rightarrow> Inl e
         | Inr host \<Rightarrow> (case check_host_address getaddrinfo resolving host of Inl e \<Rightarrow> Inl e | Inr _ \<Rightarrow> Inr value))"

text \<open>\<open>_LABEL_RE\<close>: the dollar sign also matches before a final newline.\<close>

definition label_char :: "char \<Rightarrow> bool" where
  "label_char c = (let n = of_char c :: nat in (97 \<le> n \<and> n \<le> 122) \<or> (48 \<le> n \<and> n \<le> 57) \<or> n = 45)"

definition plain_label :: "string \<Rightarrow> bool" where
  "plain_label x = (x \<noteq> [] \<and> length x \<le> 63 \<and> list_all label_char x \<and> hd x \<noteq> CHR ''-'' \<and> last x \<noteq> CHR ''-'')"

definition label_ok :: "string \<Rightarrow> bool" where
  "label_ok x = (plain_label x \<or> (x \<noteq> [] \<and> last x = char_of (10 :: nat) \<and> plain_label (butlast x)))"

definition rstrip_dots :: "string \<Rightarrow> string" where
  "rstrip_dots x = rev (dropWhile (\<lambda>c. c = CHR ''.'') (rev x))"

definition validate_domain :: "(string \<Rightarrow> string option) \<Rightarrow> string \<Rightarrow> url_refusal + string" where
  "validate_domain idna raw = (if strip raw = [] then Inl (ValidationError ''required'')
     else let value = lower (rstrip_dots (strip raw)) in
     if list_ex is_control value \<or> list_ex is_space value then Inl (ValidationError ''invalid'')
     else if list_ex (\<lambda>marker. occurs_in marker value) [''://'', ''/'', '':'', ''@'', ''*''] then Inl (ValidationError ''invalid'')
     else if ip_address value \<noteq> None then Inl (ValidationError ''ip_literal'')
     else case (if is_ascii value then Some value else idna value) of
       None \<Rightarrow> Inl (ValidationError ''invalid_idna'')
     | Some name \<Rightarrow>
       if length name > 253 then Inl (ValidationError ''too_long'')
       else let labels = split_char (CHR ''.'') name in
       if length labels < 2 then Inl (ValidationError ''no_tld'')
       else if \<not> list_all label_ok labels then Inl (ValidationError ''bad_label'')
       else if last labels \<noteq> [] \<and> list_all is_digit (last labels) then Inl (ValidationError ''bad_label'')
       else Inr name)"


section \<open>What the validators promise\<close>

text \<open>Networks that are not the public Internet, named independently of the tables above; a mapped address is as public as the one it embeds.\<close>

definition INSIDE4 :: "(ipv4 \<times> nat) list" where
  "INSIDE4 = [(ip 0 0 0 0, 8), (ip 10 0 0 0, 8), (ip 100 64 0 0, 10), (ip 127 0 0 0, 8), (ip 169 254 0 0, 16), (ip 172 16 0 0, 12),
     (ip 192 168 0 0, 16), (ip 224 0 0 0, 4), (ip 240 0 0 0, 4)]"

definition INSIDE6 :: "(ipv6 \<times> nat) list" where
  "INSIDE6 = [(0, 128), (1, 128), (net6 [0xfc00], 7), (net6 [0xfe80], 10), (net6 [0xff00], 8)]"

definition public4 :: "ipv4 \<Rightarrow> bool" where
  "public4 a = list_all (\<lambda>(net, p). \<not> in_net a net p) INSIDE4"

fun public_addr :: "ip_addr \<Rightarrow> bool" where
  "public_addr (V4 a) = public4 a"
| "public_addr (V6 a) = (list_all (\<lambda>(net, p). \<not> in_net6 a net p) INSIDE6 \<and> (case ipv4_mapped a of None \<Rightarrow> True | Some b \<Rightarrow> public4 b))"

lemma in_net_host: "in_net a n 32 \<longleftrightarrow> a = n"
  by (simp add: in_net_def)

lemma in_net6_host: "in_net6 a n 128 \<longleftrightarrow> a = n"
  by (simp add: in_net6_def)

lemma in_net6_wider: "in_net6 a n p \<Longrightarrow> q \<le> p \<Longrightarrow> p \<le> 128 \<Longrightarrow> in_net6 a n q"
proof -
  assume net: "in_net6 a n p" and le: "q \<le> p" "p \<le> 128"
  have "drop_bit (128 - q) x = drop_bit (p - q) (drop_bit (128 - p) x)" for x :: ipv6
    using le by (simp add: drop_bit_drop_bit)
  from this [of a] this [of n] net show ?thesis by (simp only: in_net6_def)
qed

text \<open>Two networks with an address in common agree in the shorter prefix.\<close>

lemma in_net6_common:
  assumes "in_net6 a m p" "in_net6 a n q" "q \<le> p" "p \<le> 128"
  shows "in_net6 m n q"
  using in_net6_wider [OF assms(1,3,4)] assms(2) by (simp add: in_net6_def)

lemma blocked_v4_public: "blocked_v4 a = None \<Longrightarrow> public4 a"
proof -
  assume free: "blocked_v4 a = None"
  then have out: "\<not> in_net a (ip 127 0 0 0) 8" "\<not> in_net a (ip 169 254 0 0) 16" "\<not> in_net a (ip 224 0 0 0) 4" "\<not> in_net a (ip 240 0 0 0) 4"
      "\<not> in_net a (ip 100 64 0 0) 10" "\<not> is_private4 a"
    by (simp_all add: blocked_v4_def is_loopback_def is_link_local_def is_multicast_def is_reserved4_def CGNAT_def split: if_splits)
  show ?thesis
  proof (cases "list_ex (\<lambda>(net, p). in_net a net p) PRIVATE4_EXCEPT")
    case True
    then have "a = ip 192 0 0 9 \<or> a = ip 192 0 0 10" by (simp add: PRIVATE4_EXCEPT_def in_net_host)
    moreover have "public4 (ip 192 0 0 9)" "public4 (ip 192 0 0 10)" by code_simp+
    ultimately show ?thesis by auto
  next
    case False
    with out show ?thesis by (simp add: is_private4_def PRIVATE4_def public4_def INSIDE4_def)
  qed
qed

lemma mapped_net: "ipv4_mapped a = Some b \<Longrightarrow> in_net6 a (net6 [0, 0, 0, 0, 0, 0xffff]) 96"
proof -
  assume "ipv4_mapped a = Some b"
  then have "drop_bit 32 a = 0xffff" by (simp add: ipv4_mapped_def split: if_splits)
  moreover have "drop_bit 32 (net6 [0, 0, 0, 0, 0, 0xffff]) = 0xffff" by code_simp
  ultimately show ?thesis by (simp add: in_net6_def)
qed

lemma mapped_outside: "in_net6 a (net6 [0, 0, 0, 0, 0, 0xffff]) 96 \<Longrightarrow> list_all (\<lambda>(net, p). \<not> in_net6 a net p) INSIDE6"
proof -
  assume m: "in_net6 a (net6 [0, 0, 0, 0, 0, 0xffff]) 96"
  have "\<not> in_net6 0 (net6 [0, 0, 0, 0, 0, 0xffff]) 96" "\<not> in_net6 1 (net6 [0, 0, 0, 0, 0, 0xffff]) 96"
    "\<not> in_net6 (net6 [0, 0, 0, 0, 0, 0xffff]) (net6 [0xfc00]) 7" "\<not> in_net6 (net6 [0, 0, 0, 0, 0, 0xffff]) (net6 [0xfe80]) 10"
    "\<not> in_net6 (net6 [0, 0, 0, 0, 0, 0xffff]) (net6 [0xff00]) 8" by code_simp+
  with m in_net6_common [OF m] show ?thesis by (auto simp: INSIDE6_def in_net6_host)
qed

lemma exceptions_not_local:
  assumes "list_ex (\<lambda>(net, p). in_net6 a net p) PRIVATE6_EXCEPT"
  shows "\<not> in_net6 a (net6 [0xfc00]) 7"
proof
  assume inside: "in_net6 a (net6 [0xfc00]) 7"
  obtain net p where "(net, p) \<in> set PRIVATE6_EXCEPT" "in_net6 a net p" using assms by (auto simp: list_ex_iff)
  moreover have "list_all (\<lambda>(net, p). 7 \<le> p \<and> p \<le> 128 \<and> \<not> in_net6 net (net6 [0xfc00]) 7) PRIVATE6_EXCEPT" by code_simp
  ultimately show False using in_net6_common [OF _ inside] by (fastforce simp: list_all_iff)
qed

lemma free_is_public: "is_blocked_ip a = None \<Longrightarrow> public_addr a"
proof (cases a)
  case (V6 b)
  assume free: "is_blocked_ip a = None"
  show ?thesis
  proof (cases "ipv4_mapped b")
    case None
    with free V6 have out: "b \<noteq> 1" "\<not> in_net6 b (net6 [0xfe80]) 10" "\<not> in_net6 b (net6 [0xff00]) 8" "b \<noteq> 0" "\<not> is_private6 b"
      by (simp_all add: is_loopback6_def is_link_local6_def is_multicast6_def is_unspecified6_def split: if_splits)
    then have "\<not> in_net6 b (net6 [0xfc00]) 7" using exceptions_not_local [of b] by (auto simp: is_private6_def PRIVATE6_def)
    with out None V6 show ?thesis by (simp add: INSIDE6_def in_net6_host)
  next
    case (Some c)
    with free V6 show ?thesis using mapped_outside [OF mapped_net [OF Some]] by (simp add: blocked_v4_public)
  qed
qed (simp add: blocked_v4_public)

lemma check_addresses_ok:
  "check_addresses rs = Inr () \<longleftrightarrow> (\<forall>r \<in> set rs. \<exists>a. ip_address r = Some a \<and> is_blocked_ip a = None)"
  by (induction rs) (auto split: option.splits)

text \<open>The addresses a connection to a host can reach: the host itself when it is an address, else what the resolver answers.\<close>

definition reached :: "(string \<Rightarrow> host_lookup) \<Rightarrow> string \<Rightarrow> string list" where
  "reached getaddrinfo host = (if ip_address host \<noteq> None then [host] else case getaddrinfo host of HostAddresses rs \<Rightarrow> rs | _ \<Rightarrow> [])"

lemma checked_host_public:
  "check_host_address getaddrinfo True host = Inr () \<Longrightarrow> r \<in> set (reached getaddrinfo host) \<Longrightarrow> \<exists>a. ip_address r = Some a \<and> public_addr a"
  by (fastforce simp: check_host_address_def resolve_and_check_host_def reached_def check_addresses_ok dest: free_is_public
      split: option.splits if_splits host_lookup.splits)

lemma check_host_ok:
  "check_host ports u = Inr host \<Longrightarrow> us_hostname u = Some host \<and> \<not> blocked_name host \<and> (\<exists>p \<in> set ports. us_port u = Inr p)"
  by (auto simp: check_host_def split: option.splits sum.splits if_splits)

lemma webhook_accepted:
  assumes "validate_webhook_url getaddrinfo raw True = Inr url"
  shows "url = strip raw \<and> (\<exists>u host. urlsplit url = Some u \<and> us_scheme u = ''https'' \<and> \<not> given (us_username u) \<and> \<not> given (us_password u) \<and>
    us_hostname u = Some host \<and> \<not> blocked_name host \<and> us_port u \<in> {Inr None, Inr (Some 443)} \<and>
    list_all (\<lambda>r. \<exists>a. ip_address r = Some a \<and> public_addr a) (reached getaddrinfo host))"
proof -
  obtain u host where u: "url = strip raw" "urlsplit url = Some u" "us_scheme u = ''https''" "\<not> given (us_password u)" "\<not> given (us_username u)"
    and h: "check_host WEBHOOK_PORTS u = Inr host" "check_host_address getaddrinfo True host = Inr ()"
    using assms by (auto simp: validate_webhook_url_def Let_def WEBHOOK_SCHEMES_def split: if_splits option.splits sum.splits)
  have "list_all (\<lambda>r. \<exists>a. ip_address r = Some a \<and> public_addr a) (reached getaddrinfo host)"
    using checked_host_public [OF h(2)] by (auto simp: list_all_iff)
  with u check_host_ok [OF h(1)] show ?thesis by (auto simp: WEBHOOK_PORTS_def)
qed

text \<open>
  C19: A webhook URL that was accepted cannot lead into the hub's own network. With resolution, acceptance means that the URL is https
  without credentials, on port 443 or none, that its host is neither localhost nor a private suffix, and that every address the
  host stands for is a readable address outside the loopback, link-local, private, shared, multicast and reserved networks of IPv4
  and outside the loopback, local and multicast networks of IPv6, where an IPv4-mapped address counts as the one it embeds.
\<close>

theorem webhook_egress_is_public:
  assumes "validate_webhook_url getaddrinfo raw True = Inr url"
  shows "url = strip raw \<and> (\<exists>u host. urlsplit url = Some u \<and> us_scheme u = ''https'' \<and> \<not> given (us_username u) \<and> \<not> given (us_password u) \<and>
    us_hostname u = Some host \<and> \<not> blocked_name host \<and> us_port u \<in> {Inr None, Inr (Some 443)} \<and>
    list_all (\<lambda>r. \<exists>a. ip_address r = Some a \<and> public_addr a) (reached getaddrinfo host))"
  by (rule webhook_accepted [OF assms])

theorem webhook_egress_is_public_witness:
  "\<exists>u. urlsplit ''https://hooks.example.com/in'' = Some u \<and> us_scheme u = ''https'' \<and>
     validate_webhook_url (\<lambda>_. HostAddresses [''93.184.216.34'', ''2606:4700::1111'']) ''https://hooks.example.com/in'' True = Inr ''https://hooks.example.com/in'' \<and>
     validate_webhook_url (\<lambda>_. HostAddresses [''93.184.216.34'', ''::ffff:169.254.169.254'']) ''https://hooks.example.com/in'' True =
       Inl (ValidationError ''blocked_address'')"
proof -
  have "validate_webhook_url (\<lambda>_. HostAddresses [''93.184.216.34'', ''2606:4700::1111'']) ''https://hooks.example.com/in'' True = Inr ''https://hooks.example.com/in''"
    "validate_webhook_url (\<lambda>_. HostAddresses [''93.184.216.34'', ''::ffff:169.254.169.254'']) ''https://hooks.example.com/in'' True =
       Inl (ValidationError ''blocked_address'')" by code_simp+
  with webhook_egress_is_public [of "\<lambda>_. HostAddresses [''93.184.216.34'', ''2606:4700::1111'']" "''https://hooks.example.com/in''"]
  show ?thesis by blast
qed

text \<open>Git URLs get the same guard: with resolution, an accepted one reaches public addresses only, over https or ssh.\<close>

lemma git_source_is_public:
  assumes "validate_git_url getaddrinfo raw True = Inr url"
  shows "url = strip raw \<and> (\<exists>u host. urlsplit url = Some u \<and> us_scheme u \<in> {''https'', ''ssh'', ''git+ssh''} \<and> \<not> given (us_password u) \<and>
    us_hostname u = Some host \<and> \<not> blocked_name host \<and> list_all (\<lambda>r. \<exists>a. ip_address r = Some a \<and> public_addr a) (reached getaddrinfo host))"
proof -
  obtain u host where u: "url = strip raw" "urlsplit url = Some u" "us_scheme u \<in> {''https'', ''ssh'', ''git+ssh''}" "\<not> given (us_password u)"
    and h: "check_host ALLOWED_PORTS u = Inr host" "check_host_address getaddrinfo True host = Inr ()"
    using assms by (auto simp: validate_git_url_def Let_def ALLOWED_SCHEMES_def split: if_splits option.splits sum.splits)
  have "list_all (\<lambda>r. \<exists>a. ip_address r = Some a \<and> public_addr a) (reached getaddrinfo host)"
    using checked_host_public [OF h(2)] by (auto simp: list_all_iff)
  with u check_host_ok [OF h(1)] show ?thesis by auto
qed

text \<open>A webhook URL with a path is also a git URL; the converse fails for ssh and port 22.\<close>

lemma webhook_is_git_source:
  assumes "validate_webhook_url getaddrinfo raw resolving = Inr url" "urlsplit url = Some u" "us_path u \<notin> {[], ''/''}"
  shows "validate_git_url getaddrinfo raw resolving = Inr url"
proof -
  have "check_host WEBHOOK_PORTS u = Inr host \<Longrightarrow> check_host ALLOWED_PORTS u = Inr host" for host
    by (auto simp: check_host_def WEBHOOK_PORTS_def ALLOWED_PORTS_def split: option.splits sum.splits if_splits)
  then show ?thesis using assms
    by (auto simp: validate_webhook_url_def validate_git_url_def Let_def WEBHOOK_SCHEMES_def ALLOWED_SCHEMES_def split: if_splits option.splits sum.splits)
qed

text \<open>A URL with an unbalanced bracket is no \<open>ValidationError\<close>: the \<open>ValueError\<close> of \<open>urlsplit\<close> leaves both validators.\<close>

lemma unbalanced_bracket_escapes:
  "validate_git_url getaddrinfo ''https://[::1/repo.git'' resolving = Inl Escaped \<and>
   validate_webhook_url getaddrinfo ''https://[::1/hook'' resolving = Inl Escaped"
proof -
  have "strip ''https://[::1/repo.git'' = ''https://[::1/repo.git''" "check_url_text ''https://[::1/repo.git'' = None"
    "occurs_in ''://'' ''https://[::1/repo.git''" "urlsplit ''https://[::1/repo.git'' = None"
    "strip ''https://[::1/hook'' = ''https://[::1/hook''" "check_url_text ''https://[::1/hook'' = None"
    "occurs_in ''://'' ''https://[::1/hook''" "urlsplit ''https://[::1/hook'' = None" by code_simp+
  then show ?thesis by (simp add: validate_git_url_def validate_webhook_url_def Let_def)
qed


subsection \<open>Domains\<close>

text \<open>The codec gives no newline; \<open>xn--\<close> labels are letters, digits and hyphens.\<close>

definition idna_plain :: "(string \<Rightarrow> string option) \<Rightarrow> bool" where
  "idna_plain idna = (\<forall>x y. idna x = Some y \<longrightarrow> char_of (10 :: nat) \<notin> set y)"

lemma set_split_char: "\<Union> (set ` set (split_char c x)) = set x - {c}"
proof (induction x)
  case (Cons a x)
  then show ?case by (cases "split_char c x") auto
qed simp

lemma label_char_facts: "label_char c \<Longrightarrow> lower_char c = c \<and> \<not> is_space c \<and> \<not> is_control c \<and> (of_char c :: nat) < 128 \<and>
    c \<notin> {CHR ''/'', CHR '':'', CHR ''@'', CHR ''*'', CHR ''.''}"
  by (auto simp: label_char_def lower_char_def is_space_def is_control_def Let_def)

lemma occurs_in_chars: "occurs_in y x \<Longrightarrow> set y \<subseteq> set x"
proof (induction y x rule: occurs_in.induct)
  case (2 y c x)
  then show ?case by (auto dest!: in_set_takeD [of _ "length y" "c # x"] simp del: take_Suc_Cons) (metis in_set_takeD set_ConsD)+
qed simp

text \<open>A name in normal form: at least two labels of lower-case letters, digits and inner hyphens, the last one not a number.\<close>

definition normal_domain :: "string \<Rightarrow> bool" where
  "normal_domain x = (length x \<le> 253 \<and> 2 \<le> length (split_char (CHR ''.'') x) \<and> list_all plain_label (split_char (CHR ''.'') x) \<and>
     \<not> list_all is_digit (last (split_char (CHR ''.'') x)))"

lemma normal_chars:
  assumes "normal_domain x" "c \<in> set x"
  shows "label_char c \<or> c = CHR ''.''"
proof (cases "c = CHR ''.''")
  case False
  with assms(2) obtain l where "l \<in> set (split_char (CHR ''.'') x)" "c \<in> set l" using set_split_char [of "CHR ''.''" x] by blast
  with assms(1) show ?thesis by (auto simp: normal_domain_def list_all_iff plain_label_def)
qed simp

lemma split_char_nonempty: "split_char c x \<noteq> []"
  by (induction x) (auto split: list.splits)

lemma last_split_char: "split_char c (x @ [c]) = split_char c x @ [[]]"
proof (induction x)
  case (Cons a x)
  then show ?case using split_char_nonempty [of c x] by (cases "split_char c x") auto
qed simp

lemma normal_no_final_dot: "normal_domain x \<Longrightarrow> rstrip_dots x = x"
proof -
  assume n: "normal_domain x"
  have "x \<noteq> []" using n by (auto simp: normal_domain_def)
  moreover have "last x \<noteq> CHR ''.''"
  proof
    assume "last x = CHR ''.''"
    with \<open>x \<noteq> []\<close> have "split_char (CHR ''.'') x = split_char (CHR ''.'') (butlast x) @ [[]]" by (metis append_butlast_last_id last_split_char)
    with n show False by (simp add: normal_domain_def plain_label_def)
  qed
  ultimately show ?thesis by (cases x rule: rev_cases) (simp_all add: rstrip_dots_def)
qed

lemma normal_no_address: "normal_domain x \<Longrightarrow> ip_address x = None"
proof -
  assume n: "normal_domain x"
  have "IPv4Address x = None"
  proof (rule ccontr)
    assume "IPv4Address x \<noteq> None"
    then obtain a b c d where "map parse_octet (split_char (CHR ''.'') x) = [Some a, Some b, Some c, Some d]"
      by (auto simp: IPv4Address_def split: list.splits option.splits)
    then have "split_char (CHR ''.'') x \<noteq> []" "parse_octet (last (split_char (CHR ''.'') x)) = Some d"
      by (auto simp: last_map [symmetric])
    with n show False by (auto simp: normal_domain_def parse_octet_def split: if_splits)
  qed
  moreover have "CHR '':'' \<notin> set x" "CHR ''%'' \<notin> set x" "CHR ''/'' \<notin> set x" using normal_chars [OF n, of "CHR '':''"] normal_chars [OF n, of "CHR ''%''"] normal_chars [OF n, of "CHR ''/''"]
    by (auto simp: label_char_def)
  then have "IPv6Address x = None" by (simp add: IPv6Address_def ip6_value_def ip6_parts_def split_char_plain)
  ultimately show ?thesis by (simp add: ip_address_def)
qed

text \<open>
  C26: What the domain check returns is the normal form of a domain and is accepted again as it is. The result has at least two labels of
  lower-case letters, digits and inner hyphens, of 1 to 63 characters, at most 253 in all, with a last label that is no number, so
  nothing in it can be a separator of a route or a DNS record, and checking the result once more returns it unchanged.
\<close>

theorem domain_normal_form:
  assumes "idna_plain idna" "validate_domain idna raw = Inr x"
  shows "normal_domain x \<and> list_all (\<lambda>c. label_char c \<or> c = CHR ''.'') x \<and> validate_domain other x = Inr x"
proof -
  let ?v = "lower (rstrip_dots (strip raw))"
  have v: "\<not> list_ex is_control ?v" "(if is_ascii ?v then Some ?v else idna ?v) = Some x" and len: "length x \<le> 253"
    and labels: "2 \<le> length (split_char (CHR ''.'') x)" "list_all label_ok (split_char (CHR ''.'') x)"
    and tld: "last (split_char (CHR ''.'') x) = [] \<or> \<not> list_all is_digit (last (split_char (CHR ''.'') x))"
    using assms(2) by (auto simp: validate_domain_def Let_def not_less split: if_splits option.splits)
  have "is_control (char_of (10 :: nat))" by code_simp
  with v(1) have "char_of (10 :: nat) \<notin> set ?v" by (auto simp: list_ex_iff)
  then have nl: "char_of (10 :: nat) \<notin> set x" using v(2) assms(1) by (auto simp: idna_plain_def split: if_splits)
  have plain: "plain_label l" if "l \<in> set (split_char (CHR ''.'') x)" for l
  proof -
    have "set l \<subseteq> set x" using that set_split_char [of "CHR ''.''" x] by blast
    then show ?thesis using that labels(2) nl last_in_set [of l] by (fastforce simp: list_all_iff label_ok_def)
  qed
  have "split_char (CHR ''.'') x \<noteq> []" using labels(1) by auto
  then have "last (split_char (CHR ''.'') x) \<noteq> []" using plain [of "last (split_char (CHR ''.'') x)"] by (auto simp: plain_label_def)
  with tld len labels(1) plain have n: "normal_domain x" by (simp add: normal_domain_def list_all_iff)
  have ch: "lower_char c = c \<and> \<not> is_space c \<and> \<not> is_control c \<and> (of_char c :: nat) < 128 \<and> c \<notin> {CHR ''/'', CHR '':'', CHR ''@'', CHR ''*''}"
    if "c \<in> set x" for c
  proof -
    have dot: "lower_char (CHR ''.'') = CHR ''.'' \<and> \<not> is_space (CHR ''.'') \<and> \<not> is_control (CHR ''.'')" by code_simp
    show ?thesis using normal_chars [OF n that] label_char_facts [of c] dot by auto
  qed
  have "strip x = x" using ch by (intro strip_no_space) (auto simp: list_ex_iff)
  moreover have "lower x = x" using ch by (simp add: lower_def map_idI)
  moreover have "x \<noteq> []" using n by (auto simp: normal_domain_def)
  moreover have "\<not> list_ex is_control x" "\<not> list_ex is_space x" "is_ascii x" using ch by (auto simp: list_ex_iff is_ascii_def list_all_iff)
  moreover have "\<not> occurs_in m x" if "m \<in> {''://'', ''/'', '':'', ''@'', ''*''}" for m
    using occurs_in_chars [of m x] ch that by fastforce
  then have "\<not> list_ex (\<lambda>m. occurs_in m x) [''://'', ''/'', '':'', ''@'', ''*'']" by simp
  ultimately have "validate_domain other x = Inr x"
    using len labels tld by (auto simp: validate_domain_def Let_def normal_no_final_dot [OF n] normal_no_address [OF n])
  with n show ?thesis using normal_chars [OF n] by (simp add: list_all_iff)
qed

theorem domain_normal_form_witness:
  "validate_domain (\<lambda>_. None) '' App.Example.COM. '' = Inr ''app.example.com'' \<and> validate_domain (\<lambda>_. None) ''app.example.com'' = Inr ''app.example.com'' \<and>
   validate_domain (\<lambda>_. None) ''10.0.0.1'' = Inl (ValidationError ''ip_literal'')"
proof -
  have "validate_domain (\<lambda>_. None) '' App.Example.COM. '' = Inr ''app.example.com''"
    "validate_domain (\<lambda>_. None) ''10.0.0.1'' = Inl (ValidationError ''ip_literal'')" by code_simp+
  moreover have "idna_plain (\<lambda>_. None)" by (simp add: idna_plain_def)
  ultimately show ?thesis using domain_normal_form [of "\<lambda>_. None" "'' App.Example.COM. ''" "''app.example.com''" "\<lambda>_. None"] by blast
qed

end
