(* ===== verification/Retention.thy ===== *)
theory Retention
  imports Attack Partner_Verify "HOL-Library.AList"
begin

text \<open>
  \<open>monitor/retention.py\<close>: the nightly janitor. Old host metrics, uptime events and traffic rows are deleted in batches, the logs of old
  deployment steps move into compressed files. A table is a list, and the primary keys of a batch are positions in it; the query has
  no order, so which rows go first is not specified, and the model takes the oldest. \<open>log_archive\<close> maps a path to what its file
  decompresses to. Writing a file may fail part way: \<open>re_write\<close> gives the exception and what the file then holds.
\<close>

record retention_env =
  re_log_dir :: "string option"
  re_base_dir :: string
  re_write :: "(string \<times> string) list \<Rightarrow> string \<Rightarrow> string \<Rightarrow> (exn \<times> string) option"

record sweep_count =
  sw_deleted :: nat
  sw_batches :: nat

record sweep_report =
  sr_host_metric :: sweep_count
  sr_uptime :: sweep_count
  sr_traffic :: sweep_count
  sr_logs :: sweep_count

definition RAW_METRICS :: time where "RAW_METRICS = hours (24 * 14)"
definition RAW_UPTIME :: time where "RAW_UPTIME = hours (24 * 90)"
definition TRAFFIC_HORIZONS :: "(granularity \<times> time option) list" where
  "TRAFFIC_HORIZONS = [(ByMinute, Some (hours 48)), (ByHour, Some (hours (24 * 90))), (ByDay, None)]"
definition DEPLOY_LOGS :: time where "DEPLOY_LOGS = hours (24 * 30)"
definition NEVER_DELETE :: "string list" where "NEVER_DELETE = [''AuditEvent'']"
definition UPTIME_DAILY_KIND :: string where "UPTIME_DAILY_KIND = ''daily''"
definition BATCH_SIZE :: nat where "BATCH_SIZE = 500"

text \<open>Deleting the rows whose keys are the first \<open>n\<close> of a query.\<close>

fun remove_first :: "('a \<Rightarrow> bool) \<Rightarrow> nat \<Rightarrow> 'a list \<Rightarrow> 'a list" where
  "remove_first q n [] = []"
| "remove_first q n (x # xs) = (if q x then if n = 0 then x # xs else remove_first q (n - 1) xs else x # remove_first q n xs)"

lemma length_remove_first: "length (remove_first q n xs) \<le> length xs"
  by (induction q n xs rule: remove_first.induct) auto

lemma remove_first_shorter: "take n (filter q xs) \<noteq> [] \<Longrightarrow> length (remove_first q n xs) < length xs"
proof (induction q n xs rule: remove_first.induct)
  case (2 q n x xs)
  then show ?case using length_remove_first [of q "n - 1" xs] by (auto simp: less_Suc_eq_le)
qed simp

function delete_loop :: "('a \<Rightarrow> bool) \<Rightarrow> nat \<Rightarrow> 'a list \<Rightarrow> sweep_count \<Rightarrow> 'a list \<times> sweep_count" where
  "delete_loop q batch_size rows r = (let ids = take batch_size (filter q rows) in
     if ids = [] then (rows, r)
     else delete_loop q batch_size (remove_first q batch_size rows) \<lparr>sw_deleted = sw_deleted r + length ids, sw_batches = sw_batches r + 1\<rparr>)"
  by pat_completeness auto

termination
  by (relation "measure (\<lambda>(q, batch_size, rows, r). length rows)") (auto intro: remove_first_shorter)

declare delete_loop.simps [simp del]

definition delete_batched :: "string \<Rightarrow> ('a \<Rightarrow> bool) \<Rightarrow> nat \<Rightarrow> 'a list \<Rightarrow> exn + ('a list \<times> sweep_count)" where
  "delete_batched model q batch_size rows = (if model \<in> set NEVER_DELETE then Inl (RuntimeError (model @ '' is never deleted''))
     else Inr (delete_loop q batch_size rows \<lparr>sw_deleted = 0, sw_batches = 0\<rparr>))"

definition sweep_host_metric :: "time \<Rightarrow> nat \<Rightarrow> sweep_count act" where
  "sweep_host_metric now batch_size = bnd (gets host_metrics) (\<lambda>rows.
     bnd (of_sum (delete_batched ''HostMetric'' (\<lambda>m. m_ts m < now - RAW_METRICS) batch_size rows)) (\<lambda>(rows', n).
     andThen (modify (\<lambda>s. s\<lparr>host_metrics := rows'\<rparr>)) (ret n)))"

definition sweep_uptime :: "time \<Rightarrow> nat \<Rightarrow> sweep_count act" where
  "sweep_uptime now batch_size = bnd (gets uptime_events) (\<lambda>rows.
     bnd (of_sum (delete_batched ''UptimeEvent'' (\<lambda>e. ue_at e < now - RAW_UPTIME \<and> ue_kind e \<noteq> UPTIME_DAILY_KIND) batch_size rows)) (\<lambda>(rows', n).
     andThen (modify (\<lambda>s. s\<lparr>uptime_events := rows'\<rparr>)) (ret n)))"

fun sweep_grains :: "time \<Rightarrow> nat \<Rightarrow> (granularity \<times> time option) list \<Rightarrow> sweep_count \<Rightarrow> sweep_count act" where
  "sweep_grains now batch_size [] acc = ret acc"
| "sweep_grains now batch_size ((grain, None) # gs) acc = sweep_grains now batch_size gs acc"
| "sweep_grains now batch_size ((grain, Some horizon) # gs) acc = bnd (gets traffic_stats) (\<lambda>rows.
     bnd (of_sum (delete_batched ''TrafficStat'' (\<lambda>r. tr_granularity r = grain \<and> tr_bucket_start r < now - horizon) batch_size rows)) (\<lambda>(rows', n).
     andThen (modify (\<lambda>s. s\<lparr>traffic_stats := rows'\<rparr>))
     (sweep_grains now batch_size gs \<lparr>sw_deleted = sw_deleted acc + sw_deleted n, sw_batches = sw_batches acc + sw_batches n\<rparr>)))"

definition sweep_traffic :: "time \<Rightarrow> nat \<Rightarrow> sweep_count act" where
  "sweep_traffic now batch_size = sweep_grains now batch_size TRAFFIC_HORIZONS \<lparr>sw_deleted = 0, sw_batches = 0\<rparr>"


section \<open>Deployment logs\<close>

definition log_dir :: "retention_env \<Rightarrow> string option \<Rightarrow> string" where
  "log_dir E dir = (case dir of Some d \<Rightarrow> d
     | None \<Rightarrow> (case re_log_dir E of Some d \<Rightarrow> if d \<noteq> [] then d else re_base_dir E @ ''/var/deploy-logs''
         | None \<Rightarrow> re_base_dir E @ ''/var/deploy-logs''))"

definition log_is_old :: "time \<Rightarrow> deployment_step \<Rightarrow> bool" where
  "log_is_old now r = ((case st_finished r of None \<Rightarrow> False | Some f \<Rightarrow> f < now - DEPLOY_LOGS) \<and> st_log_text r \<noteq> [])"

definition log_path :: "string \<Rightarrow> deployment_step \<Rightarrow> string" where
  "log_path dir r = dir @ ''/deploy-'' @ str_nat (st_deployment r) @ ''-step-'' @ str_nat (st_seq r) @ ''.log.gz''"

definition same_step :: "deployment_step \<Rightarrow> deployment_step \<Rightarrow> bool" where
  "same_step r x = (st_deployment x = st_deployment r \<and> st_seq x = st_seq r)"

definition archive_step :: "retention_env \<Rightarrow> string \<Rightarrow> deployment_step \<Rightarrow> unit act" where
  "archive_step E dir r = (let path = log_path dir r; content = utf8 (st_log_text r) in
     (\<lambda>s. case re_write E (log_archive s) path content of
       Some (e, partial) \<Rightarrow> (Inl e, s\<lparr>log_archive := AList.update path partial (log_archive s)\<rparr>)
     | None \<Rightarrow> (Inr (), s\<lparr>log_archive := AList.update path content (log_archive s),
         dsteps := upd_rows (same_step r) (\<lambda>x. x\<lparr>st_log_text := [], st_artifacts := jset (st_artifacts r) ''log_gzip'' (JStr path)\<rparr>) (dsteps s)\<rparr>)))"

lemma archive_step_count:
  "archive_step E dir r s = (Inr (), t) \<Longrightarrow> length (filter (log_is_old now) (dsteps t)) \<le> length (filter (log_is_old now) (dsteps s)) \<and>
    (r \<in> set (dsteps s) \<longrightarrow> log_is_old now r \<longrightarrow> length (filter (log_is_old now) (dsteps t)) < length (filter (log_is_old now) (dsteps s)))"
proof -
  assume "archive_step E dir r s = (Inr (), t)"
  then have t: "dsteps t = upd_rows (same_step r) (\<lambda>x. x\<lparr>st_log_text := [], st_artifacts := jset (st_artifacts r) ''log_gzip'' (JStr (log_path dir r))\<rparr>) (dsteps s)"
    by (auto simp: archive_step_def Let_def split: option.splits)
  have less: "length (filter (log_is_old now) (upd_rows p (\<lambda>x. x\<lparr>st_log_text := [], st_artifacts := a\<rparr>) xs)) \<le> length (filter (log_is_old now) xs) \<and>
      (r \<in> set xs \<longrightarrow> p r \<longrightarrow> log_is_old now r \<longrightarrow>
        length (filter (log_is_old now) (upd_rows p (\<lambda>x. x\<lparr>st_log_text := [], st_artifacts := a\<rparr>) xs)) < length (filter (log_is_old now) xs))" for p a xs
    by (induction xs) (auto simp: upd_rows_def log_is_old_def)
  show ?thesis unfolding t using less [of "same_step r"] by (simp add: same_step_def)
qed

lemma archive_batch_count:
  "for_each rs (archive_step E dir) s = (Inr (), t) \<Longrightarrow> length (filter (log_is_old now) (dsteps t)) \<le> length (filter (log_is_old now) (dsteps s))"
proof (induction rs arbitrary: s)
  case (Cons r rs)
  then obtain u where "archive_step E dir r s = (Inr (), u)" "for_each rs (archive_step E dir) u = (Inr (), t)"
    by (auto simp: andThen_def fst_bnd_Inr)
  then show ?case using Cons.IH archive_step_count [of E dir r s u now] by fastforce
qed (simp add: ret_def)

function gzip_loop :: "retention_env \<Rightarrow> string \<Rightarrow> time \<Rightarrow> nat \<Rightarrow> sweep_count \<Rightarrow> sweep_count act" where
  "gzip_loop E dir now batch_size r s = (let batch = take batch_size (filter (log_is_old now) (dsteps s)) in
     if batch = [] then (Inr r, s)
     else case for_each batch (archive_step E dir) s of
       (Inl e, t) \<Rightarrow> (Inl e, t)
     | (Inr _, t) \<Rightarrow> gzip_loop E dir now batch_size \<lparr>sw_deleted = sw_deleted r + length batch, sw_batches = sw_batches r + 1\<rparr> t)"
  by pat_completeness auto

termination
proof (relation "measure (\<lambda>(E, dir, now, batch_size, r, s). length (filter (log_is_old now) (dsteps s)))", simp, clarsimp)
  fix E dir now batch_size and s t :: hub
  assume run: "(Inr (), t) = for_each (take batch_size (filter (log_is_old now) (dsteps s))) (archive_step E dir) s" "0 < batch_size"
    and some: "filter (log_is_old now) (dsteps s) \<noteq> []"
  obtain b bs where b: "filter (log_is_old now) (dsteps s) = b # bs" using some by (cases "filter (log_is_old now) (dsteps s)") auto
  then have "b \<in> set (filter (log_is_old now) (dsteps s))" by simp
  then have old: "b \<in> set (dsteps s)" "log_is_old now b" by simp_all
  obtain rs where "take batch_size (filter (log_is_old now) (dsteps s)) = b # rs" using b run(2) by (cases batch_size) auto
  with run(1) obtain u where "archive_step E dir b s = (Inr (), u)" "for_each rs (archive_step E dir) u = (Inr (), t)"
    by (auto simp: andThen_def fst_bnd_Inr dest!: sym [of "(Inr (), t)"])
  then show "length (filter (log_is_old now) (dsteps t)) < length (filter (log_is_old now) (dsteps s))"
    using archive_step_count [of E dir b s u now] archive_batch_count [of rs E dir u t now] old by fastforce
qed

declare gzip_loop.simps [simp del]

definition gzip_deploy_logs :: "retention_env \<Rightarrow> time \<Rightarrow> nat \<Rightarrow> string \<Rightarrow> sweep_count act" where
  "gzip_deploy_logs E now batch_size dir = gzip_loop E dir now batch_size \<lparr>sw_deleted = 0, sw_batches = 0\<rparr>"

definition retention_sweep :: "world \<Rightarrow> retention_env \<Rightarrow> time option \<Rightarrow> nat option \<Rightarrow> string option \<Rightarrow> sweep_report act" where
  "retention_sweep w E now batch_size dir = bnd (the_now w now) (\<lambda>clock.
     let n_batch = (case batch_size of None \<Rightarrow> BATCH_SIZE | Some n \<Rightarrow> n); archive = log_dir E dir in
     bnd (sweep_host_metric clock n_batch) (\<lambda>m.
     bnd (sweep_uptime clock n_batch) (\<lambda>u.
     bnd (sweep_traffic clock n_batch) (\<lambda>t.
     bnd (gzip_deploy_logs E clock n_batch archive) (\<lambda>l.
     ret \<lparr>sr_host_metric = m, sr_uptime = u, sr_traffic = t, sr_logs = l\<rparr>)))))"

end
