(* ===== verification/Retention_Facts.thy ===== *)
theory Retention_Facts
  imports Retention Scaling_Facts Attack_Facts Pipeline_Facts
begin

text \<open>
  The janitor against its description: each table loses exactly its old rows, whatever the size of a batch; no log is cleared that is not in
  the archive; and nothing the scale-out evaluator or the attack detector looks at is deleted.
\<close>


section \<open>Batched deletion\<close>

lemma filter_remove_first: "filter (\<lambda>x. \<not> q x) (remove_first q n xs) = filter (\<lambda>x. \<not> q x) xs"
  by (induction q n xs rule: remove_first.induct) auto

lemma filtered_remove_first: "filter q (remove_first q n xs) = drop n (filter q xs)"
proof (induction q n xs rule: remove_first.induct)
  case (2 q n x xs)
  then show ?case by (cases n) auto
qed simp

text \<open>The number of batches that take \<open>k\<close> rows, \<open>n\<close> at a time.\<close>

definition batches_for :: "nat \<Rightarrow> nat \<Rightarrow> nat" where
  "batches_for n k = (k + n - 1) div n"

lemma batches_for_step: "0 < n \<Longrightarrow> 0 < k \<Longrightarrow> batches_for n k = Suc (batches_for n (k - n))"
proof (cases "k \<le> n")
  case True
  assume "0 < n" "0 < k"
  then have "(k + n - 1) div n = 1" "(n - 1) div n = 0" using True by (simp_all add: div_nat_eqI)
  then show ?thesis using True by (simp add: batches_for_def)
next
  case False
  assume "0 < n" "0 < k"
  moreover have "k + n - 1 = (k - n + n - 1) + n" using False \<open>0 < n\<close> by simp
  ultimately show ?thesis by (simp only: batches_for_def div_add_self2)
qed

lemma delete_loop_is_filter:
  "0 < n \<Longrightarrow> delete_loop q n rows r = (filter (\<lambda>x. \<not> q x) rows,
     \<lparr>sw_deleted = sw_deleted r + length (filter q rows), sw_batches = sw_batches r + batches_for n (length (filter q rows))\<rparr>)"
proof (induction q n rows r rule: delete_loop.induct)
  case (1 q n rows r)
  show ?case
  proof (cases "filter q rows = []")
    case True
    then have "filter (\<lambda>x. \<not> q x) rows = rows" by (auto simp: filter_empty_conv intro!: filter_True)
    with True \<open>0 < n\<close> show ?thesis by (subst delete_loop.simps) (simp add: batches_for_def)
  next
    case False
    with \<open>0 < n\<close> have some: "take n (filter q rows) \<noteq> []" "0 < length (filter q rows)" by auto
    note step = "1.IH" [OF refl some(1) \<open>0 < n\<close>]
    have "length (take n (filter q rows)) + (length (filter q rows) - n) = length (filter q rows)" by (simp add: min_def)
    with some batches_for_step [OF \<open>0 < n\<close> some(2)] step show ?thesis
      by (subst delete_loop.simps) (simp add: Let_def filter_remove_first filtered_remove_first)
  qed
qed

lemma delete_loop_nothing: "delete_loop q 0 rows r = (rows, r)"
  by (subst delete_loop.simps) simp


definition swept_of :: "nat \<Rightarrow> nat \<Rightarrow> sweep_count" where
  "swept_of n k = \<lparr>sw_deleted = k, sw_batches = batches_for n k\<rparr>"

lemma batched_is_filter:
  "0 < n \<Longrightarrow> model \<notin> set NEVER_DELETE \<Longrightarrow> delete_batched model q n rows = Inr (filter (\<lambda>x. \<not> q x) rows, swept_of n (length (filter q rows)))"
  by (simp add: delete_batched_def delete_loop_is_filter swept_of_def)

lemma deletable: "''HostMetric'' \<notin> set NEVER_DELETE" "''UptimeEvent'' \<notin> set NEVER_DELETE" "''TrafficStat'' \<notin> set NEVER_DELETE"
  by (simp_all add: NEVER_DELETE_def)

text \<open>Rows that are due.\<close>

definition old_metric :: "time \<Rightarrow> host_metric \<Rightarrow> bool" where
  "old_metric now m = (m_ts m < now - hours 336)"

definition old_event :: "time \<Rightarrow> uptime_event \<Rightarrow> bool" where
  "old_event now e = (ue_at e < now - hours 2160 \<and> ue_kind e \<noteq> ''daily'')"

definition old_traffic :: "granularity \<Rightarrow> time \<Rightarrow> traffic_stat \<Rightarrow> bool" where
  "old_traffic g now r = (tr_granularity r = g \<and> tr_bucket_start r < now - (if g = ByMinute then hours 48 else hours 2160))"

definition kept_traffic :: "time \<Rightarrow> traffic_stat \<Rightarrow> bool" where
  "kept_traffic now r = (\<not> old_traffic ByMinute now r \<and> \<not> old_traffic ByHour now r)"

lemma sweep_host_metric_run:
  "0 < n \<Longrightarrow> sweep_host_metric now n s =
    (Inr (swept_of n (length (filter (old_metric now) (host_metrics s)))), s\<lparr>host_metrics := filter (\<lambda>m. \<not> old_metric now m) (host_metrics s)\<rparr>)"
  by (simp add: sweep_host_metric_def batched_is_filter deletable of_sum_def old_metric_def [abs_def] RAW_METRICS_def prog_defs)

lemma sweep_uptime_run:
  "0 < n \<Longrightarrow> sweep_uptime now n s =
    (Inr (swept_of n (length (filter (old_event now) (uptime_events s)))), s\<lparr>uptime_events := filter (\<lambda>e. \<not> old_event now e) (uptime_events s)\<rparr>)"
  by (simp add: sweep_uptime_def batched_is_filter deletable of_sum_def old_event_def [abs_def] RAW_UPTIME_def UPTIME_DAILY_KIND_def prog_defs)

definition traffic_swept :: "nat \<Rightarrow> time \<Rightarrow> traffic_stat list \<Rightarrow> sweep_count" where
  "traffic_swept n now rows = (let k = length (filter (old_traffic ByMinute now) rows); l = length (filter (old_traffic ByHour now) rows) in
     \<lparr>sw_deleted = k + l, sw_batches = batches_for n k + batches_for n l\<rparr>)"

lemma sweep_traffic_run:
  assumes "0 < n"
  shows "sweep_traffic now n s = (Inr (traffic_swept n now (traffic_stats s)), s\<lparr>traffic_stats := filter (kept_traffic now) (traffic_stats s)\<rparr>)"
proof -
  have grain: "sweep_grains now n ((g, Some h) # gs) acc u = sweep_grains now n gs
      \<lparr>sw_deleted = sw_deleted acc + length (filter (\<lambda>r. tr_granularity r = g \<and> tr_bucket_start r < now - h) (traffic_stats u)),
       sw_batches = sw_batches acc + batches_for n (length (filter (\<lambda>r. tr_granularity r = g \<and> tr_bucket_start r < now - h) (traffic_stats u)))\<rparr>
      (u\<lparr>traffic_stats := filter (\<lambda>r. \<not> (tr_granularity r = g \<and> tr_bucket_start r < now - h)) (traffic_stats u)\<rparr>)" for g h gs acc u
    using assms by (simp add: batched_is_filter deletable of_sum_def swept_of_def bnd_def gets_def ret_def andThen_def modify_def)
  have "filter (\<lambda>r. \<not> (tr_granularity r = ByHour \<and> tr_bucket_start r < now - hours 2160) \<and>
      \<not> (tr_granularity r = ByMinute \<and> tr_bucket_start r < now - hours 48)) rows = filter (kept_traffic now) rows" for rows
    by (intro filter_cong) (auto simp: kept_traffic_def old_traffic_def)
  moreover have "hours (24 * 90) = hours 2160" by simp
  ultimately show ?thesis
    unfolding sweep_traffic_def TRAFFIC_HORIZONS_def grain
    by (simp add: ret_def traffic_swept_def old_traffic_def [abs_def] Let_def conj_commute cong: conj_cong, intro arg_cong [where f = length] filter_cong) auto
qed


section \<open>Logs\<close>

definition step_key :: "deployment_step \<Rightarrow> nat \<times> nat" where
  "step_key r = (st_deployment r, st_seq r)"

definition archived :: "string \<Rightarrow> deployment_step \<Rightarrow> deployment_step" where
  "archived dir r = r\<lparr>st_log_text := [], st_artifacts := jset (st_artifacts r) ''log_gzip'' (JStr (log_path dir r))\<rparr>"

text \<open>What may have become of a step: nothing, or its old log is in the archive under the path that the row names.\<close>

definition log_kept :: "string \<Rightarrow> time \<Rightarrow> hub \<Rightarrow> deployment_step \<Rightarrow> deployment_step \<Rightarrow> bool" where
  "log_kept dir now t r x = (x = r \<or> log_is_old now r \<and> x = archived dir r \<and> map_of (log_archive t) (log_path dir r) = Some (utf8 (st_log_text r)))"

definition logs_kept :: "string \<Rightarrow> time \<Rightarrow> hub \<Rightarrow> hub \<Rightarrow> bool" where
  "logs_kept dir now s t = list_all2 (log_kept dir now t) (dsteps s) (dsteps t)"

lemma digits_then: "\<not> is_digit c \<Longrightarrow> takeWhile is_digit (str_nat n @ c # x) = str_nat n"
  using digits_str_nat [of _ n] by (subst takeWhile_append2) auto

lemma log_path_inj: "log_path dir r = log_path dir x \<Longrightarrow> step_key r = step_key x"
proof -
  assume eq: "log_path dir r = log_path dir x"
  have nd: "\<not> is_digit (CHR ''-'')" "\<not> is_digit (CHR ''.'')" by code_simp+
  from eq have tail: "str_nat (st_deployment r) @ CHR ''-'' # ''step-'' @ str_nat (st_seq r) @ ''.log.gz'' =
      str_nat (st_deployment x) @ CHR ''-'' # ''step-'' @ str_nat (st_seq x) @ ''.log.gz''" by (simp add: log_path_def)
  from arg_cong [where f = "takeWhile is_digit", OF this] have "st_deployment r = st_deployment x" by (simp only: digits_then [OF nd(1)] str_nat_eq_iff)
  moreover with tail have "str_nat (st_seq r) = str_nat (st_seq x)" by simp
  ultimately show ?thesis by (simp add: step_key_def)
qed

lemma archived_key [simp]: "step_key (archived dir r) = step_key r"
  by (simp add: archived_def step_key_def)

lemma archived_not_old [simp]: "\<not> log_is_old now (archived dir r)"
  by (simp add: archived_def log_is_old_def)

lemma logs_kept_refl: "logs_kept dir now s s"
  by (simp add: logs_kept_def list.rel_refl log_kept_def)

lemma logs_kept_nth:
  "logs_kept dir now s t \<longleftrightarrow> length (dsteps t) = length (dsteps s) \<and> (\<forall>i < length (dsteps s). log_kept dir now t (dsteps s ! i) (dsteps t ! i))"
  by (auto simp: logs_kept_def list_all2_conv_all_nth)

lemma logs_kept_keys: "logs_kept dir now s t \<Longrightarrow> map step_key (dsteps t) = map step_key (dsteps s)"
  by (rule nth_equalityI) (auto simp: logs_kept_nth log_kept_def)

lemma log_kept_carries:
  assumes "log_kept dir now u r y" "log_path dir r \<noteq> path \<or> y = r" "log_archive t = AList.update path content (log_archive u)"
  shows "log_kept dir now t r y"
  using assms by (auto simp: log_kept_def update_conv')

lemma archive_step_cases:
  assumes "archive_step E dir b u = (x, t)"
  obtains (failed) e content where "log_archive t = AList.update (log_path dir b) content (log_archive u)" "dsteps t = dsteps u" "x = Inl e"
  | (written) "log_archive t = AList.update (log_path dir b) (utf8 (st_log_text b)) (log_archive u)" "x = Inr ()"
      "dsteps t = upd_rows (same_step b) (\<lambda>y. y\<lparr>st_log_text := [], st_artifacts := jset (st_artifacts b) ''log_gzip'' (JStr (log_path dir b))\<rparr>) (dsteps u)"
  using assms by (cases "re_write E (log_archive u) (log_path dir b) (utf8 (st_log_text b))") (auto simp: archive_step_def Let_def intro: that)

lemma archive_step_keeps:
  assumes kept: "logs_kept dir now s u" and keys: "distinct (map step_key (dsteps s))" and b: "b \<in> set (dsteps u)" "log_is_old now b"
    and run: "archive_step E dir b u = (x, t)"
  shows "logs_kept dir now s t"
proof -
  obtain j where j: "j < length (dsteps s)" "dsteps u ! j = b" using b(1) kept by (auto simp: in_set_conv_nth logs_kept_nth)
  have orig: "dsteps s ! j = b" using kept j b(2) archived_not_old by (auto simp: logs_kept_nth log_kept_def)
  have key_u: "step_key (dsteps u ! i) = step_key (dsteps s ! i)" if "i < length (dsteps s)" for i
    using kept that by (auto simp: logs_kept_nth log_kept_def)
  have other: "step_key (dsteps s ! i) \<noteq> step_key b" if "i < length (dsteps s)" "i \<noteq> j" for i
    using keys that j(1) orig by (auto simp: distinct_conv_nth)
  have was: "log_kept dir now u (dsteps s ! i) (dsteps u ! i)" if "i < length (dsteps s)" for i using kept that by (simp add: logs_kept_nth)
  have row: "log_kept dir now t (dsteps s ! i) (dsteps t ! i)" if i: "i < length (dsteps s)" for i
    using run
  proof (cases rule: archive_step_cases)
    case (failed e content)
    have "log_path dir (dsteps s ! i) \<noteq> log_path dir b \<or> dsteps u ! i = dsteps s ! i"
    proof (cases "i = j")
      case True
      with j(2) orig show ?thesis by simp
    next
      case False
      with other [OF i] show ?thesis using log_path_inj by blast
    qed
    from log_kept_carries [OF was [OF i] this failed(1)] failed(2) show ?thesis by simp
  next
    case written
    have len: "length (dsteps u) = length (dsteps s)" using kept by (simp add: logs_kept_nth)
    show ?thesis
    proof (cases "i = j")
      case True
      then show ?thesis using written j orig b(2) len by (simp add: upd_rows_def log_kept_def archived_def same_step_def update_conv')
    next
      case False
      then have "\<not> same_step b (dsteps u ! i)" using other [OF i] key_u [OF i] by (auto simp: same_step_def step_key_def)
      then have "dsteps t ! i = dsteps u ! i" using written i len by (simp add: upd_rows_def)
      moreover have "log_path dir (dsteps s ! i) \<noteq> log_path dir b" using log_path_inj other [OF i False] by blast
      ultimately show ?thesis using log_kept_carries [OF was [OF i] _ written(1)] by simp
    qed
  qed
  moreover have "length (dsteps t) = length (dsteps s)" using run kept by (cases rule: archive_step_cases) (simp_all add: logs_kept_nth)
  ultimately show ?thesis by (simp add: logs_kept_nth)
qed

lemma archive_step_spares:
  "archive_step E dir b u = (x, t) \<Longrightarrow> c \<in> set (dsteps u) \<Longrightarrow> step_key c \<noteq> step_key b \<Longrightarrow> c \<in> set (dsteps t)"
  by (cases rule: archive_step_cases) (auto simp: set_upd_rows same_step_def step_key_def image_iff)

lemma archive_batch_keeps:
  assumes "logs_kept dir now s u" "distinct (map step_key (dsteps s))" "distinct (map step_key bs)"
    and "set bs \<subseteq> set (dsteps u)" "list_all (log_is_old now) bs" "for_each bs (archive_step E dir) u = (x, t)"
  shows "logs_kept dir now s t"
  using assms(1,3-6)
proof (induction bs arbitrary: u)
  case (Cons b bs)
  obtain y v where v: "archive_step E dir b u = (y, v)" by fastforce
  have kept: "logs_kept dir now s v" using Cons.prems v by (intro archive_step_keeps [OF Cons.prems(1) assms(2) _ _ v]) auto
  show ?case
  proof (cases y)
    case (Inl e)
    with v Cons.prems(5) kept show ?thesis by (simp add: andThen_def bnd_def)
  next
    case (Inr a)
    with v Cons.prems(5) have "for_each bs (archive_step E dir) v = (x, t)" by (simp add: andThen_def bnd_def)
    moreover have "set bs \<subseteq> set (dsteps v)"
    proof
      fix c
      assume c: "c \<in> set bs"
      then have "step_key c \<noteq> step_key b" "c \<in> set (dsteps u)" using Cons.prems(2,3) by (auto simp: image_iff)
      then show "c \<in> set (dsteps v)" by (intro archive_step_spares [OF v])
    qed
    ultimately show ?thesis using Cons.IH [OF kept] Cons.prems by simp
  qed
qed (simp add: ret_def)

lemma gzip_loop_keeps:
  assumes "distinct (map step_key (dsteps s))" "logs_kept dir now s u" "gzip_loop E dir now n r u = (x, t)"
  shows "logs_kept dir now s t \<and> (0 < n \<longrightarrow> isl x \<or> \<not> list_ex (log_is_old now) (dsteps t))"
  using assms(2,3)
proof (induction E dir now n r u rule: gzip_loop.induct)
  case (1 E dir now n r u)
  let ?b = "take n (filter (log_is_old now) (dsteps u))"
  show ?case
  proof (cases "?b = []")
    case True
    with 1 show ?thesis by (auto simp: gzip_loop.simps [of E dir now n r u] list_ex_iff filter_empty_conv)
  next
    case False
    obtain y v where v: "for_each ?b (archive_step E dir) u = (y, v)" by fastforce
    have "distinct (map step_key (dsteps u))" using logs_kept_keys [OF "1.prems"(1)] assms(1) by simp
    then have "distinct (map step_key ?b)" by (simp add: distinct_map_filter take_map [symmetric] distinct_take)
    moreover have "set ?b \<subseteq> set (dsteps u)" "list_all (log_is_old now) ?b" by (auto simp: list_all_iff dest: in_set_takeD)
    ultimately have kept: "logs_kept dir now s v" by (intro archive_batch_keeps [OF "1.prems"(1) assms(1) _ _ _ v])
    show ?thesis
    proof (cases y)
      case (Inl e)
      with "1.prems"(2) v False kept show ?thesis by (auto simp: gzip_loop.simps [of E dir now n r u] Let_def)
    next
      case (Inr a)
      with "1.prems"(2) v False have "gzip_loop E dir now n \<lparr>sw_deleted = sw_deleted r + length ?b, sw_batches = sw_batches r + 1\<rparr> v = (x, t)"
        by (simp add: gzip_loop.simps [of E dir now n r u] Let_def)
      then show ?thesis using "1.IH" [OF refl False v [symmetric] Inr kept] by simp
    qed
  qed
qed


section \<open>A whole sweep\<close>

definition beside_logs :: "hub \<Rightarrow> hub" where
  "beside_logs s = s\<lparr>dsteps := [], log_archive := []\<rparr>"

lemma beside_logs_tables [simp]:
  "host_metrics (beside_logs s) = host_metrics s" "uptime_events (beside_logs s) = uptime_events s" "traffic_stats (beside_logs s) = traffic_stats s"
  "targets (beside_logs s) = targets s" "audits (beside_logs s) = audits s"
  by (simp_all add: beside_logs_def)

lemma beside_logsD:
  assumes "beside_logs t = beside_logs u"
  shows "host_metrics t = host_metrics u" "uptime_events t = uptime_events u" "traffic_stats t = traffic_stats u" "targets t = targets u"
  using arg_cong [OF assms, of host_metrics] arg_cong [OF assms, of uptime_events] arg_cong [OF assms, of traffic_stats] arg_cong [OF assms, of targets]
  by (simp_all only: beside_logs_tables)

lemma archive_step_beside: "evolves (same beside_logs) (archive_step E dir r)"
  by (auto simp: evolves_def same_def archive_step_def beside_logs_def Let_def split: option.splits)

lemma gzip_loop_beside: "gzip_loop E dir now n r s = (x, t) \<Longrightarrow> beside_logs t = beside_logs s"
proof (induction E dir now n r s rule: gzip_loop.induct)
  case (1 E dir now n r s)
  let ?b = "take n (filter (log_is_old now) (dsteps s))"
  obtain y v where v: "for_each ?b (archive_step E dir) s = (y, v)" by fastforce
  have b: "beside_logs v = beside_logs s" using v by (intro frameD [OF frame.ev_for_each [OF archive_step_beside]])
  show ?case
  proof (cases "?b = [] \<or> isl y")
    case True
    with "1.prems" v b show ?thesis by (cases y) (auto simp: gzip_loop.simps [of E dir now n r s] Let_def split: if_splits)
  next
    case False
    then obtain a where y: "y = Inr a" and some: "?b \<noteq> []" by (cases y) auto
    with "1.prems" v have "gzip_loop E dir now n \<lparr>sw_deleted = sw_deleted r + length ?b, sw_batches = sw_batches r + 1\<rparr> v = (x, t)"
      by (simp add: gzip_loop.simps [of E dir now n r s] Let_def)
    then show ?thesis using "1.IH" [OF refl some v [symmetric] y] b by simp
  qed
qed

definition batch_of :: "nat option \<Rightarrow> nat" where
  "batch_of b = (case b of None \<Rightarrow> BATCH_SIZE | Some n \<Rightarrow> n)"

definition tables_swept :: "time \<Rightarrow> hub \<Rightarrow> hub" where
  "tables_swept now s = s\<lparr>host_metrics := filter (\<lambda>m. \<not> old_metric now m) (host_metrics s),
     uptime_events := filter (\<lambda>e. \<not> old_event now e) (uptime_events s), traffic_stats := filter (kept_traffic now) (traffic_stats s)\<rparr>"

definition nothing_swept :: sweep_count where
  "nothing_swept = \<lparr>sw_deleted = 0, sw_batches = 0\<rparr>"

definition report_of :: "nat \<Rightarrow> time \<Rightarrow> hub \<Rightarrow> sweep_count \<Rightarrow> sweep_report" where
  "report_of n now s l = \<lparr>sr_host_metric = swept_of n (length (filter (old_metric now) (host_metrics s))),
     sr_uptime = swept_of n (length (filter (old_event now) (uptime_events s))), sr_traffic = traffic_swept n now (traffic_stats s), sr_logs = l\<rparr>"

lemma sweep_runs:
  assumes "0 < batch_of b" "retention_sweep w E (Some now) b dir s = (x, t)"
  obtains y where "gzip_loop E (log_dir E dir) now (batch_of b) nothing_swept (tables_swept now s) = (y, t)"
    "x = map_sum id (report_of (batch_of b) now s) y"
proof -
  obtain y v where v: "gzip_loop E (log_dir E dir) now (batch_of b) nothing_swept (tables_swept now s) = (y, v)" by fastforce
  have "retention_sweep w E (Some now) b dir s = (map_sum id (report_of (batch_of b) now s) y, v)"
    using assms(1) v unfolding batch_of_def
    by (cases y) (simp_all add: retention_sweep_def the_now_def Let_def bnd_def sweep_host_metric_run sweep_uptime_run sweep_traffic_run gzip_deploy_logs_def
        tables_swept_def nothing_swept_def report_of_def ret_def)
  with v assms(2) that show ?thesis by simp
qed

lemma swept_none: "0 < n \<Longrightarrow> swept_of n 0 = nothing_swept"
  by (simp add: swept_of_def nothing_swept_def batches_for_def)

lemma old_and_not [simp]: "filter p (filter (\<lambda>x. \<not> p x) xs) = []"
  by (simp add: filter_empty_conv)

lemma kept_not_old: "filter (\<lambda>r. kept_traffic now r \<and> old_traffic ByMinute now r) rows = []" "filter (\<lambda>r. kept_traffic now r \<and> old_traffic ByHour now r) rows = []"
  by (auto simp: filter_empty_conv kept_traffic_def)

text \<open>
  C24: A sweep deletes the rows that are too old, and no others, whatever the batch size. When a sweep returns, raw host metrics older than 14
  days, uptime events older than 90 days except the daily ones, minute rows older than 48 hours and hour rows older than 90 days are gone,
  in order and with the exact counts of rows and batches; all other rows of these tables, and every other table except the
  deployment steps and the archive of logs, are as before, the audit trail among them. Sweeping again at the same instant deletes nothing.
\<close>

theorem retention_is_filter:
  assumes "retention_sweep w E (Some now) b dir s = (Inr rep, t)" "0 < batch_of b" "distinct (map step_key (dsteps s))"
  shows "beside_logs t = beside_logs (tables_swept now s) \<and> rep = report_of (batch_of b) now s (sr_logs rep) \<and>
    (0 < batch_of b' \<longrightarrow> retention_sweep w' E' (Some now) b' dir' t =
      (Inr \<lparr>sr_host_metric = nothing_swept, sr_uptime = nothing_swept, sr_traffic = nothing_swept, sr_logs = nothing_swept\<rparr>, t))"
proof -
  from sweep_runs [OF assms(2,1)] obtain y where y: "gzip_loop E (log_dir E dir) now (batch_of b) nothing_swept (tables_swept now s) = (y, t)"
    "Inr rep = map_sum id (report_of (batch_of b) now s) y" .
  then obtain l where l: "y = Inr l" "rep = report_of (batch_of b) now s l" by (cases y) auto
  have beside: "beside_logs t = beside_logs (tables_swept now s)" using gzip_loop_beside [OF y(1)] .
  note tables = beside_logsD [OF beside]
  have "distinct (map step_key (dsteps (tables_swept now s)))" using assms(3) by (simp add: tables_swept_def)
  from gzip_loop_keeps [OF this logs_kept_refl y(1)] have "filter (log_is_old now) (dsteps t) = []"
    using l(1) assms(2) by (auto simp: list_ex_iff filter_empty_conv)
  then have done_logs: "gzip_loop E' dir'' now n nothing_swept t = (Inr nothing_swept, t)" for n dir'' by (simp add: gzip_loop.simps [of E' dir'' now n])
  have same: "tables_swept now t = t" by (simp add: tables_swept_def tables)
  have zero: "report_of n now t nothing_swept = \<lparr>sr_host_metric = nothing_swept, sr_uptime = nothing_swept, sr_traffic = nothing_swept, sr_logs = nothing_swept\<rparr>" if "0 < n" for n
    using that swept_none [OF that] by (simp add: report_of_def tables tables_swept_def traffic_swept_def kept_not_old batches_for_def nothing_swept_def)
  obtain z u where again: "retention_sweep w' E' (Some now) b' dir' t = (z, u)" by fastforce
  have "z = Inr \<lparr>sr_host_metric = nothing_swept, sr_uptime = nothing_swept, sr_traffic = nothing_swept, sr_logs = nothing_swept\<rparr> \<and> u = t" if pos: "0 < batch_of b'"
  proof -
    from sweep_runs [OF pos again] obtain y' where "gzip_loop E' (log_dir E' dir') now (batch_of b') nothing_swept (tables_swept now t) = (y', u)"
      "z = map_sum id (report_of (batch_of b') now t) y'" .
    then show ?thesis using done_logs same zero [OF pos] by auto
  qed
  with again beside l show ?thesis by (simp add: report_of_def)
qed


text \<open>
  C23: No log is lost. Whatever a sweep does, returning or raising, with writes that fail part way, every deployment step is as it was, or its log
  was old and is now in the archive, complete, under the path that the row names, the row being otherwise unchanged. When the
  sweep returns, no old log is left in a row.
\<close>

theorem logs_archived_before_cleared:
  assumes "retention_sweep w E (Some now) b dir s = (x, t)" "0 < batch_of b" "distinct (map step_key (dsteps s))"
  shows "list_all2 (\<lambda>r r'. r' = r \<or> (log_is_old now r \<and> r' = archived (log_dir E dir) r \<and>
      map_of (log_archive t) (log_path (log_dir E dir) r) = Some (utf8 (st_log_text r)))) (dsteps s) (dsteps t) \<and>
    (isl x \<or> list_all (\<lambda>r. \<not> log_is_old now r) (dsteps t))"
proof -
  from sweep_runs [OF assms(2,1)] obtain y where y: "gzip_loop E (log_dir E dir) now (batch_of b) nothing_swept (tables_swept now s) = (y, t)"
    "x = map_sum id (report_of (batch_of b) now s) y" .
  have d: "dsteps (tables_swept now s) = dsteps s" by (simp add: tables_swept_def)
  then have "distinct (map step_key (dsteps (tables_swept now s)))" using assms(3) by simp
  from gzip_loop_keeps [OF this logs_kept_refl y(1)] have
    "logs_kept (log_dir E dir) now (tables_swept now s) t" "isl y \<or> \<not> list_ex (log_is_old now) (dsteps t)" using assms(2) by simp_all
  then show ?thesis using y(2) by (cases y) (auto simp: logs_kept_def log_kept_def [abs_def] d list_ex_iff list_all_iff)
qed

text \<open>The detector and the evaluator look back for an hour at most, the janitor keeps two days.\<close>

lemma minute_rows_swept: "now - minutes 1 \<le> later \<Longrightarrow> minute_rows (tables_swept now s) site later = minute_rows s site later"
  unfolding minute_rows_def tables_swept_def
  by (simp, intro arg_cong [where f = "sort_key tr_bucket_start"] filter_cong)
    (auto simp: kept_traffic_def old_traffic_def WINDOW_MINUTES_def time_defs)

lemma minute_of_close: "later - minutes 1 < minute_of later"
  using pos_mod_bound [of "minutes 1" later] by (simp add: minute_of_def time_defs minus_mod_eq_mult_div)

lemma samples_of_swept: "now \<le> later \<Longrightarrow> samples_of (tables_swept now s) site later = samples_of s site later"
  unfolding samples_of_def tables_swept_def
  by (simp, intro filter_cong) (auto simp: old_metric_def in_window_def WINDOW_S_def time_defs)

lemma latest_in_window_swept: "now \<le> later \<Longrightarrow> latest_in_window (tables_swept now s) tg later = latest_in_window s tg later"
  unfolding latest_in_window_def tables_swept_def
  by (simp, intro arg_cong [where f = "foldl _ _"] filter_cong) (auto simp: old_metric_def MAX_SAMPLE_GAP_S_def time_defs)

text \<open>
  C25: Cleaning up never changes a decision. From the instant of a sweep on, and however the sweep ends, the attack detector gives every site the same
  score, and the scale-out evaluator sees the same samples of a site and the same newest sample of every candidate machine, as without it.
\<close>

theorem sweep_spares_live_data:
  assumes "retention_sweep w E (Some now) b dir s = (x, t)" "0 < batch_of b" "now \<le> later"
  shows "score_at t site later = score_at s site later \<and> samples_of t site later = samples_of s site later \<and>
    overflow_axis (samples_of t site later) later = overflow_axis (samples_of s site later) later \<and> latest_in_window t tg later = latest_in_window s tg later"
proof -
  from sweep_runs [OF assms(2,1)] obtain y where y: "gzip_loop E (log_dir E dir) now (batch_of b) nothing_swept (tables_swept now s) = (y, t)" .
  note tables = beside_logsD [OF gzip_loop_beside [OF this]]
  have "target_by_pk t = target_by_pk s" using tables(4) by (intro ext) (simp add: target_by_pk_def tables_swept_def)
  then have "ips_of t site = ips_of s site" by (simp add: ips_of_def)
  moreover have "minute_rows t k (minute_of later) = minute_rows s k (minute_of later)" for k
    using minute_rows_swept [of now "minute_of later" s k] assms(3) minute_of_close [of later] tables(3) by (simp add: minute_rows_def)
  moreover have "samples_of t site later = samples_of s site later" using samples_of_swept [OF assms(3), of s site] tables(1) by (simp add: samples_of_def)
  moreover have "latest_in_window t tg later = latest_in_window s tg later"
    using latest_in_window_swept [OF assms(3), of s tg] tables(1) by (simp add: latest_in_window_def)
  ultimately show ?thesis by (simp add: score_at_def Let_def)
qed


subsection \<open>Examples\<close>

definition dusty_hub :: hub where
  "dusty_hub = empty_hub\<lparr>
     host_metrics := map (\<lambda>n. \<lparr>m_target = 1, m_ts = hours n, m_cpu = None, m_ram = Some 50, m_disk = None, m_load = None, m_cores = None\<rparr>) [1, 2, 999],
     dsteps := [\<lparr>st_deployment = 4, st_seq = 1, st_name = Build, st_status = StSucceeded, st_started = None, st_finished = Some (hours 1),
       st_log_text = ''built'', st_artifacts = []\<rparr>]\<rparr>"

definition plain_disk :: retention_env where
  "plain_disk = \<lparr>re_log_dir = None, re_base_dir = ''/hub'', re_write = (\<lambda>_ _ _. None)\<rparr>"

definition full_disk :: retention_env where
  "full_disk = \<lparr>re_log_dir = None, re_base_dir = ''/hub'', re_write = (\<lambda>_ _ _. Some (OtherError ''OSError'', []))\<rparr>"


lemma dusty_sweep:
  "fst (retention_sweep calm_world plain_disk (Some (hours 1000)) (Some 1) None dusty_hub) = Inr \<lparr>sr_host_metric = \<lparr>sw_deleted = 2, sw_batches = 2\<rparr>,
     sr_uptime = nothing_swept, sr_traffic = nothing_swept, sr_logs = \<lparr>sw_deleted = 1, sw_batches = 1\<rparr>\<rparr>"
  "map m_ts (host_metrics (snd (retention_sweep calm_world plain_disk (Some (hours 1000)) (Some 1) None dusty_hub))) = [hours 999]"
  "log_archive (snd (retention_sweep calm_world plain_disk (Some (hours 1000)) (Some 1) None dusty_hub)) = [(''/hub/var/deploy-logs/deploy-4-step-1.log.gz'', ''built'')]"
  by code_simp+

lemma dusty_keys: "distinct (map step_key (dsteps dusty_hub))"
  by code_simp


theorem retention_is_filter_witness:
  "\<exists>t. retention_sweep calm_world plain_disk (Some (hours 1000)) (Some 1) None dusty_hub = (Inr \<lparr>sr_host_metric = \<lparr>sw_deleted = 2, sw_batches = 2\<rparr>,
       sr_uptime = nothing_swept, sr_traffic = nothing_swept, sr_logs = \<lparr>sw_deleted = 1, sw_batches = 1\<rparr>\<rparr>, t) \<and>
     map m_ts (host_metrics t) = [hours 999] \<and> audits t = [] \<and>
     retention_sweep calm_world plain_disk (Some (hours 1000)) None None t =
       (Inr \<lparr>sr_host_metric = nothing_swept, sr_uptime = nothing_swept, sr_traffic = nothing_swept, sr_logs = nothing_swept\<rparr>, t)"
proof -
  define t where "t = snd (retention_sweep calm_world plain_disk (Some (hours 1000)) (Some 1) None dusty_hub)"
  have run: "retention_sweep calm_world plain_disk (Some (hours 1000)) (Some 1) None dusty_hub = (Inr \<lparr>sr_host_metric = \<lparr>sw_deleted = 2, sw_batches = 2\<rparr>,
       sr_uptime = nothing_swept, sr_traffic = nothing_swept, sr_logs = \<lparr>sw_deleted = 1, sw_batches = 1\<rparr>\<rparr>, t)"
    using dusty_sweep(1) by (metis t_def prod.collapse)
  have "0 < batch_of (Some 1)" "0 < batch_of None" by (simp_all add: batch_of_def BATCH_SIZE_def)
  from retention_is_filter [OF run this(1) dusty_keys, of None calm_world plain_disk None] this(2)
  have again: "retention_sweep calm_world plain_disk (Some (hours 1000)) None None t =
       (Inr \<lparr>sr_host_metric = nothing_swept, sr_uptime = nothing_swept, sr_traffic = nothing_swept, sr_logs = nothing_swept\<rparr>, t)"
    and beside: "beside_logs t = beside_logs (tables_swept (hours 1000) dusty_hub)" by blast+
  have quiet: "audits t = []" using arg_cong [OF beside, of audits] by (simp add: tables_swept_def dusty_hub_def)
  have left: "map m_ts (host_metrics t) = [hours 999]" unfolding t_def by (rule dusty_sweep(2))
  show ?thesis by (intro exI [of _ t] conjI run again quiet left)
qed

theorem logs_archived_before_cleared_witness:
  "\<exists>t u. snd (retention_sweep calm_world plain_disk (Some (hours 1000)) (Some 1) None dusty_hub) = t \<and>
     map st_log_text (dsteps t) = [[]] \<and> map_of (log_archive t) ''/hub/var/deploy-logs/deploy-4-step-1.log.gz'' = Some ''built'' \<and>
     snd (retention_sweep calm_world full_disk (Some (hours 1000)) (Some 1) None dusty_hub) = u \<and> map st_log_text (dsteps u) = [''built'']"
proof -
  let ?step = "hd (dsteps dusty_hub)"
  obtain x t where run: "retention_sweep calm_world plain_disk (Some (hours 1000)) (Some 1) None dusty_hub = (x, t)" by fastforce
  have steps: "dsteps dusty_hub = [?step]" "\<not> isl x" using dusty_sweep(1) run by (simp_all add: dusty_hub_def)
  have "0 < batch_of (Some 1)" by (simp add: batch_of_def)
  from logs_archived_before_cleared [OF run this dusty_keys] steps(2)
  have all: "list_all2 (\<lambda>r r'. r' = r \<or> log_is_old (hours 1000) r \<and> r' = archived (log_dir plain_disk None) r \<and>
      map_of (log_archive t) (log_path (log_dir plain_disk None) r) = Some (utf8 (st_log_text r))) (dsteps dusty_hub) (dsteps t)"
    and none_old: "list_all (\<lambda>r. \<not> log_is_old (hours 1000) r) (dsteps t)" by auto
  have old: "log_is_old (hours 1000) ?step" by code_simp
  from all none_old old have "dsteps t = [archived (log_dir plain_disk None) ?step]"
    by (subst (asm) steps(1)) (auto simp: list_all2_Cons1)
  moreover have "st_log_text (archived (log_dir plain_disk None) ?step) = []" by (simp add: archived_def)
  moreover have "map_of (log_archive t) ''/hub/var/deploy-logs/deploy-4-step-1.log.gz'' = Some ''built''" using dusty_sweep(3) run by simp
  moreover have "map st_log_text (dsteps (snd (retention_sweep calm_world full_disk (Some (hours 1000)) (Some 1) None dusty_hub))) = [''built'']" by code_simp
  ultimately show ?thesis using run by auto
qed

theorem sweep_spares_live_data_witness:
  "latest_in_window (snd (retention_sweep calm_world plain_disk (Some (hours 999)) (Some 1) None dusty_hub)) (sample_target\<lparr>t_pk := 1\<rparr>) (hours 999) =
     latest_in_window dusty_hub (sample_target\<lparr>t_pk := 1\<rparr>) (hours 999) \<and> latest_in_window dusty_hub (sample_target\<lparr>t_pk := 1\<rparr>) (hours 999) \<noteq> None"
proof -
  have "latest_in_window dusty_hub (sample_target\<lparr>t_pk := 1\<rparr>) (hours 999) \<noteq> None" by code_simp
  moreover obtain x t where run: "retention_sweep calm_world plain_disk (Some (hours 999)) (Some 1) None dusty_hub = (x, t)" by fastforce
  moreover have "0 < batch_of (Some 1)" by (simp add: batch_of_def)
  ultimately show ?thesis using sweep_spares_live_data [OF run _ order_refl] by simp
qed

end
