(* ===== verification/Egress.thy ===== *)
theory Egress
  imports Vault Validators Attack Uptime Partner_Verify
begin

text \<open>
  What the hub sends out over HTTP on its own account: signed webhooks to partners (\<open>core/partner_webhooks.py\<close>) and the dead-man ping with the
  canary rule (\<open>monitor/deadman.py\<close>). The record \<open>egress_env\<close> holds what is outside: the vault's environment, the resolver (asked again on
  every send), the answers of the network and the reference of the receiver. The maps \<open>_delivered\<close> and \<open>_failures\<close> of the process are tables of the
  hub, and every POST is logged in \<open>http_posts\<close>. The id of an event is read as text; ids that differ in type only are not told apart.
\<close>


section \<open>Bytes\<close>

text \<open>\<open>bytes.decode()\<close> for text within Latin-1.\<close>

fun utf8_decode :: "string \<Rightarrow> string option" where
  "utf8_decode [] = Some []"
| "utf8_decode [c] = (if (of_char c :: nat) < 128 then Some [c] else None)"
| "utf8_decode (c # d # cs) = (let n = of_char c :: nat; k = of_char d :: nat in
     if n < 128 then map_option (Cons c) (utf8_decode (d # cs))
     else if n \<in> {194, 195} \<and> 128 \<le> k \<and> k < 192 then map_option (Cons (char_of ((n - 192) * 64 + (k - 128)))) (utf8_decode cs)
     else None)"

text \<open>\<open>base64.b64decode(x)\<close> without validation: other characters are skipped, and padding that completes a group ends the text.\<close>

fun a2b_base64 :: "string \<Rightarrow> nat list \<Rightarrow> nat \<Rightarrow> nat list option" where
  "a2b_base64 [] vs pads = (if length vs mod 4 = 0 then Some vs else None)"
| "a2b_base64 (c # cs) vs pads =
     (if c = CHR ''=''
      then if length vs mod 4 < 2 then a2b_base64 cs vs pads
        else if length vs mod 4 + Suc pads \<ge> 4 then Some vs else a2b_base64 cs vs (Suc pads)
      else case b64_value c of None \<Rightarrow> a2b_base64 cs vs pads | Some v \<Rightarrow> a2b_base64 cs (vs @ [v]) 0)"

definition b64_digit :: "nat \<Rightarrow> char" where
  "b64_digit v = char_of (if v < 26 then v + 65 else if v < 52 then v + 71 else if v < 62 then v - 4 else if v = 62 then 43 else 47)"

fun b64encode :: "nat list \<Rightarrow> string" where
  "b64encode (a # b # c # rest) = map b64_digit [a div 4, a mod 4 * 16 + b div 16, b mod 16 * 4 + c div 64, c mod 64] @ b64encode rest"
| "b64encode [a, b] = map b64_digit [a div 4, a mod 4 * 16 + b div 16, b mod 16 * 4] @ ''=''"
| "b64encode [a] = map b64_digit [a div 4, a mod 4 * 16] @ ''==''"
| "b64encode [] = []"

text \<open>\<open>digest()\<close>: the bytes that the hexadecimal digest spells.\<close>

fun unhex :: "string \<Rightarrow> nat list" where
  "unhex (a # b # rest) = (case (hextet_digit a, hextet_digit b) of (Some x, Some y) \<Rightarrow> nat (16 * x + y) # unhex rest | _ \<Rightarrow> [])"
| "unhex _ = []"


section \<open>Webhooks\<close>

datatype sink_answer = SinkOk | SinkRedirect nat | SinkHttpError nat | SinkRaises exn

record egress_env =
  eg_vault :: vault_env
  eg_lookup :: "nat \<Rightarrow> string \<Rightarrow> host_lookup"
  eg_post :: "http_post list \<Rightarrow> sink_answer"
  eg_ping :: "http_post list \<Rightarrow> http_answer"
  eg_deadman_ref :: string

datatype webhook_event = EventText string | EventDict "(string \<times> json) list"
datatype delivery = Delivered | Skipped | Disabled

type_synonym webhook_sink = "string \<Rightarrow> (string \<times> string) list \<Rightarrow> string \<Rightarrow> unit act"

definition MAX_ATTEMPTS :: nat where "MAX_ATTEMPTS = 5"
definition RETRY_WINDOW :: time where "RETRY_WINDOW = hours 24"

definition reset_delivery_state :: "unit act" where
  "reset_delivery_state = modify (\<lambda>s. s\<lparr>webhooks_delivered := [], webhook_failures := (\<lambda>_. [])\<rparr>)"

text \<open>\<open>FakeWebhookSink.post\<close> opens no socket; \<open>HttpWebhookSink.post\<close> follows no redirect and lets errors of the connection through.\<close>

definition fake_sink :: "bool \<Rightarrow> webhook_sink" where
  "fake_sink fails url headers body = (if fails then throw (WebhookDeliveryError ''fake sink failed'') else ret ())"

definition http_sink :: "egress_env \<Rightarrow> webhook_sink" where
  "http_sink E url headers body = (\<lambda>s. let ps = http_posts s @ [\<lparr>hp_url = url,
       hp_headers = (''Content-Type'', ''application/json'') # headers, hp_body = body\<rparr>] in
     (case eg_post E ps of
        SinkOk \<Rightarrow> Inr ()
      | SinkRedirect n \<Rightarrow> Inl (WebhookDeliveryError (''webhook redirect refused ('' @ str_nat n @ '')''))
      | SinkHttpError n \<Rightarrow> Inl (WebhookDeliveryError (''webhook POST failed: HTTP '' @ str_nat n))
      | SinkRaises e \<Rightarrow> Inl e, s\<lparr>http_posts := ps\<rparr>))"

definition webhook_sink_for :: "webhook_sink option \<Rightarrow> webhook_sink" where
  "webhook_sink_for sink = (case sink of Some k \<Rightarrow> k | None \<Rightarrow> fake_sink False)"

definition webhook_key :: "string \<Rightarrow> exn + string" where
  "webhook_key secret = (if \<not> is_ascii secret then Inl (ValueError ''string argument should contain only ASCII characters'')
     else let raw = (if take 6 secret = ''whsec_'' then drop 6 secret else secret) in
       case a2b_base64 (raw @ ''=='') [] 0 of
         None \<Rightarrow> Inl (ValueError ''Invalid base64-encoded string'')
       | Some vs \<Rightarrow> Inr (map char_of (b64_bytes vs)))"

definition webhook_signature :: "world \<Rightarrow> string \<Rightarrow> string \<Rightarrow> string \<Rightarrow> string \<Rightarrow> string" where
  "webhook_signature w key msg_id ts body = ''v1,'' @ b64encode (unhex (w_hmac w key (utf8 (msg_id @ ''.'' @ ts @ ''.'' @ body))))"

definition sign_standard_webhook :: "world \<Rightarrow> string \<Rightarrow> string \<Rightarrow> time \<Rightarrow> string \<Rightarrow> exn + (string \<times> string) list" where
  "sign_standard_webhook w secret msg_id timestamp body = (case webhook_key secret of
     Inl e \<Rightarrow> Inl e
   | Inr key \<Rightarrow> (let ts = str_int (timestamp div 1000000) in
       Inr [(''webhook-id'', msg_id), (''webhook-timestamp'', ts), (''webhook-signature'', webhook_signature w key msg_id ts body)]))"

definition degraded_fp :: "partner \<Rightarrow> string" where
  "degraded_fp p = ''hub-egress-degraded:partner:'' @ str_nat (p_pk p)"

definition webhook_disabled :: "hub \<Rightarrow> partner \<Rightarrow> bool" where
  "webhook_disabled s p = list_ex (\<lambda>r. f_workspace r = p_workspace p \<and> f_fingerprint r = degraded_fp p \<and> f_state r \<in> {Open, Acked}) (findings s)"

definition prune_failures :: "nat \<Rightarrow> time \<Rightarrow> time list act" where
  "prune_failures pk now = bnd (gets (\<lambda>s. filter (\<lambda>t. t \<ge> now - RETRY_WINDOW) (webhook_failures s pk))) (\<lambda>rows.
     andThen (modify (\<lambda>s. s\<lparr>webhook_failures := (webhook_failures s)(pk := rows)\<rparr>)) (ret rows))"

definition degraded_facts :: "partner \<Rightarrow> alert_facts" where
  "degraded_facts p = \<lparr>af_fingerprint = Some (degraded_fp p), af_source_engine = Some ''partner_webhooks'', af_workspace = Some (p_workspace p),
     af_obj = None, af_title = ''Partner webhook delivery disabled'',
     af_body = ''Hub egress to the partner webhook URL failed 5 times in 24 hours'',
     af_fix_action = ''Repair the partner webhook endpoint, then retry delivery'', af_details = no_details\<rparr>"

definition file_egress_degraded :: "world \<Rightarrow> partner \<Rightarrow> unit act" where
  "file_egress_degraded w p = bnd (raise_alert w ''hub-egress-degraded'' (''partner:'' @ str_nat (p_pk p)) (degraded_facts p)) (\<lambda>_. ret ())"

definition record_webhook_failure :: "world \<Rightarrow> partner \<Rightarrow> time \<Rightarrow> unit act" where
  "record_webhook_failure w p now = bnd (prune_failures (p_pk p) now) (\<lambda>rows.
     andThen (modify (\<lambda>s. s\<lparr>webhook_failures := (webhook_failures s)(p_pk p := rows @ [now])\<rparr>))
     (when_do (MAX_ATTEMPTS \<le> length (rows @ [now])) (file_egress_degraded w p)))"

definition load_webhook_secret :: "world \<Rightarrow> egress_env \<Rightarrow> partner \<Rightarrow> string act" where
  "load_webhook_secret w E p = bnd (gets (\<lambda>s. newest_secret s WebhookSecret ''partner'' (str_nat (p_pk p)))) (\<lambda>row. case row of
     None \<Rightarrow> throw (WebhookDeliveryError ''no webhook secret in the vault'')
   | Some r \<Rightarrow> vault_get w (eg_vault E) r None ''partner webhook sign'')"

fun payload_and_id :: "webhook_event \<Rightarrow> exn + (string \<times> string)" where
  "payload_and_id (EventText x) = Inr (x, [])"
| "payload_and_id (EventDict d) = (let i = jget d ''id''; body = dumps_canonical (JObj d) in
     if \<not> truthy i then Inr (body, [])
     else if is_arr i \<or> is_obj i then Inl (TypeError ''unhashable type'') else Inr (body, py_str i))"

definition check_webhook_url :: "egress_env \<Rightarrow> string \<Rightarrow> unit act" where
  "check_webhook_url E url = (\<lambda>s. (case validate_webhook_url (eg_lookup E (ticks s)) url True of
     Inl (ValidationError code) \<Rightarrow> Inl (OtherError ''ValidationError'')
   | Inl Escaped \<Rightarrow> Inl (ValueError ''urlsplit'')
   | Inr _ \<Rightarrow> Inr (), s))"

definition message_id :: "nat \<Rightarrow> string \<Rightarrow> time \<Rightarrow> string" where
  "message_id pk i now = (if i \<noteq> [] then i else ''msg_'' @ str_nat pk @ ''_'' @ str_int (now div 1000000))"

definition post_webhook :: "world \<Rightarrow> egress_env \<Rightarrow> webhook_sink \<Rightarrow> partner \<Rightarrow> string \<Rightarrow> string \<Rightarrow> string \<Rightarrow> time \<Rightarrow> delivery act" where
  "post_webhook w E sink p url msg_id body now =
     andThen (check_webhook_url E url)
     (bnd (load_webhook_secret w E p) (\<lambda>secret.
      bnd (of_sum (sign_standard_webhook w secret msg_id now body)) (\<lambda>headers.
      andThen (try_except (sink url headers (utf8 body)) (\<lambda>e. case e of
          WebhookDeliveryError _ \<Rightarrow> andThen (record_webhook_failure w p now) (throw e) | _ \<Rightarrow> throw e))
      (andThen (modify (\<lambda>s. s\<lparr>webhooks_delivered := (p_pk p, msg_id) # webhooks_delivered s\<rparr>)) (ret Delivered)))))"

definition deliver_partner_webhook :: "world \<Rightarrow> egress_env \<Rightarrow> partner \<Rightarrow> webhook_event \<Rightarrow> webhook_sink option \<Rightarrow> time option \<Rightarrow> delivery act" where
  "deliver_partner_webhook w E p event sink now = bnd (the_now w now) (\<lambda>clock.
     bnd (gets (\<lambda>s. find (\<lambda>r. p_pk r = p_pk p) (partners s))) (\<lambda>row. case row of
       None \<Rightarrow> throw DoesNotExist
     | Some p \<Rightarrow> bnd (gets (\<lambda>s. webhook_disabled s p)) (\<lambda>off. if off then ret Disabled
       else bnd (of_sum (payload_and_id event)) (\<lambda>(body, i).
         let msg_id = message_id (p_pk p) i clock; url = strip (p_webhook_url p) in
         bnd (gets (\<lambda>s. (p_pk p, msg_id) \<in> set (webhooks_delivered s))) (\<lambda>seen.
         if seen \<or> url = [] then ret Skipped
         else post_webhook w E (webhook_sink_for sink) p url msg_id body clock)))))"


section \<open>The dead-man ping\<close>

record ping_outcome =
  po_pinged :: bool
  po_ok :: bool
  po_reason :: string
  po_n :: nat

definition DEADMAN_FINDING_FINGERPRINT :: string where "DEADMAN_FINDING_FINGERPRINT = ''deadman:post-failed''"

definition https_receiver :: "string \<Rightarrow> bool" where
  "https_receiver url = (take 8 url = ''https://'')"

text \<open>\<open>http_post_default\<close>; its own check of the scheme cannot fail here, because the caller makes the same check first.\<close>

definition deadman_post :: "egress_env \<Rightarrow> string \<Rightarrow> http_answer act" where
  "deadman_post E url = (\<lambda>s. let ps = http_posts s @ [\<lparr>hp_url = url, hp_headers = [], hp_body = []\<rparr>] in
     (Inr (if https_receiver url then eg_ping E ps else Unreachable ''URLError''), s\<lparr>http_posts := (if https_receiver url then ps else http_posts s)\<rparr>))"

definition resolve_receiver_url :: "world \<Rightarrow> egress_env \<Rightarrow> string option act" where
  "resolve_receiver_url w E = bnd (gets (\<lambda>s. newest_secret s ApiToken ''deadman'' (eg_deadman_ref E))) (\<lambda>row. case row of
     None \<Rightarrow> ret None
   | Some r \<Rightarrow> bnd (vault_get w (eg_vault E) r None ''dead-man ping'') (\<lambda>data. case utf8_decode data of
       None \<Rightarrow> throw (ValueError ''UnicodeDecodeError'')
     | Some x \<Rightarrow> ret (Some (strip x))))"

definition deadman_fields :: "egress_env \<Rightarrow> string \<Rightarrow> finding_fields" where
  "deadman_fields E reason = \<lparr>ff_severity = P2, ff_entity = ''hub:deadman'',
     ff_title = ''Dead-man POST failed - the watcher cannot hear the Hub'',
     ff_body = ''The after-cycle dead-man POST did not reach its receiver ('' @ reason @ ''). Until it does, the external missed-ping alarm is '' @
       ''the only thing standing behind a dead Hub - and a misconfigured receiver URL would otherwise be permanent '' @
       ''silence (alert-protocol 5).'',
     ff_fix_action = ''Check the vault secret under ref '' @ repr_str (eg_deadman_ref E) @ '' (owner_type=deadman) and the '' @
       ''receiver's registration artifact in the phase-3 demo record.''\<rparr>"

definition file_deadman_finding :: "world \<Rightarrow> egress_env \<Rightarrow> string \<Rightarrow> unit act" where
  "file_deadman_finding w E reason = bnd (finding w ''monitor.deadman'' DEADMAN_FINDING_FINGERPRINT (Some default_ws) (deadman_fields E reason)) (\<lambda>_. ret ())"

definition silent :: "string \<Rightarrow> ping_outcome" where
  "silent reason = \<lparr>po_pinged = False, po_ok = False, po_reason = reason, po_n = 0\<rparr>"

fun ping_ok :: "http_answer \<Rightarrow> bool" where
  "ping_ok (Status n) = (200 \<le> n \<and> n < 300)"
| "ping_ok _ = False"

fun ping_reason :: "http_answer \<Rightarrow> string" where
  "ping_reason (Status n) = ''HTTP '' @ str_int n"
| "ping_reason NoStatus = ''HTTP None''"
| "ping_reason (Unreachable name) = ''unreachable ('' @ name @ '')''"
| "ping_reason (ProbeFailed name) = name"

definition ping :: "world \<Rightarrow> egress_env \<Rightarrow> ping_outcome act" where
  "ping w E = bnd (resolve_receiver_url w E) (\<lambda>found. case found of
     None \<Rightarrow> andThen (file_deadman_finding w E ''no vault secret under the configured ref'') (ret (silent ''unconfigured''))
   | Some url \<Rightarrow>
       if \<not> https_receiver url then andThen (file_deadman_finding w E ''receiver URL is not https'') (ret (silent ''not-https''))
       else bnd (deadman_post E url) (\<lambda>answer. case answer of
         ProbeFailed name \<Rightarrow> throw (OtherError name)
       | _ \<Rightarrow>
         if ping_ok answer
         then bnd (audit w (audit_args ''deadman-ping'' None)) (\<lambda>_. ret \<lparr>po_pinged = True, po_ok = True, po_reason = [], po_n = 0\<rparr>)
         else andThen (file_deadman_finding w E (ping_reason answer))
           (bnd (audit w ((audit_args ''deadman-ping-failed'' None)\<lparr>ac_severity := SevWarning,
               ac_detail := [(''status'', JInt (case answer of Status n \<Rightarrow> n | _ \<Rightarrow> 0))]\<rparr>))
             (\<lambda>_. ret \<lparr>po_pinged = True, po_ok = False, po_reason = [], po_n = 0\<rparr>))))"

definition ping_after_cycle :: "world \<Rightarrow> egress_env \<Rightarrow> cycle_report \<Rightarrow> ping_outcome act" where
  "ping_after_cycle w E c = (if \<not> cr_completed c then ret (silent ''cycle-incomplete'')
     else if cr_results c = []
     then bnd (audit w ((audit_args ''deadman-ping-skipped'' None)\<lparr>ac_severity := SevWarning, ac_detail := [(''reason'', JStr ''empty-fleet'')]\<rparr>))
       (\<lambda>_. ret (silent ''empty-fleet''))
     else bnd (ping w E) (\<lambda>out. ret (out\<lparr>po_n := length (cr_results c)\<rparr>)))"

text \<open>The task \<open>probe_uptime\<close>.\<close>

definition probe_uptime :: "world \<Rightarrow> egress_env \<Rightarrow> http_get \<Rightarrow> (cycle_report \<times> ping_outcome) act" where
  "probe_uptime w E get = bnd (probe_cycle w get None) (\<lambda>c. bnd (ping_after_cycle w E c) (\<lambda>out. ret (c, out)))"


section \<open>The canary rule\<close>

record outage_alert =
  oa_kind :: string
  oa_severity :: severity
  oa_entity :: string
  oa_title :: string
  oa_suppressed :: "string list"

definition canary_ok :: "http_answer \<Rightarrow> exn + bool" where
  "canary_ok answer = (case answer of Status n \<Rightarrow> Inr (200 \<le> n \<and> n < 500) | ProbeFailed name \<Rightarrow> Inl (OtherError name) | _ \<Rightarrow> Inr False)"

definition declare_mass_outage :: "http_answer \<Rightarrow> string list \<Rightarrow> exn + outage_alert list" where
  "declare_mass_outage answer candidates = map_sum id (\<lambda>ok.
     if \<not> ok then [\<lparr>oa_kind = ''hub-egress-degraded'', oa_severity = P2, oa_entity = ''hub'',
       oa_title = ''Hub egress degraded - canary unreachable ('' @ str_nat (length candidates) @ '' site alerts suppressed)'', oa_suppressed = candidates\<rparr>]
     else map (\<lambda>e. \<lparr>oa_kind = ''site-down'', oa_severity = P1, oa_entity = e, oa_title = e @ '' down'', oa_suppressed = []\<rparr>) candidates) (canary_ok answer)"

end
