(* ===== verification/Egress_Facts.thy ===== *)
theory Egress_Facts
  imports Egress Attack_Facts Vault_Facts Cycle_Facts
begin

text \<open>
  A webhook leaves the hub only signed, once, to a checked address and never for a disabled partner; five failures in a day disable one. The
  dead-man ping leaves only after a complete cycle, and a ping that fails is filed. Four places where the code does not do what its
  comments say.
\<close>


section \<open>What is outbound\<close>

definition outbound :: "hub \<Rightarrow> http_post list \<times> (nat \<times> string) list \<times> (nat \<Rightarrow> time list)" where
  "outbound s = (http_posts s, webhooks_delivered s, webhook_failures s)"

named_theorems outbound_frames

lemma engine_outbound: "evolves (same beside_engine) m \<Longrightarrow> evolves (same outbound) m"
  by (rule engine_field [where f = outbound]) (simp_all add: outbound_def beside_engine_def)

lemmas engine_outbound_frames [outbound_frames] = engine_frames [THEN engine_outbound]

lemma modify_outbound: "(\<And>s. outbound (f s) = outbound s) \<Longrightarrow> evolves (same outbound) (modify f)"
  by (rule modify_frame)

lemma of_sum_outbound [outbound_frames]: "evolves (same outbound) (of_sum x)"
  unfolding of_sum_def by (intro frame.ev_rules)

lemma vault_outbound [outbound_frames]:
  "evolves (same outbound) (vault_audit w action r actor sev detail)" "evolves (same outbound) (vault_get w v r actor reason)"
proof -
  show a: "evolves (same outbound) (vault_audit w action r actor sev detail)" for action r actor sev detail
    by (rule engine_outbound [OF journal_engine [OF vault_audit_journal]])
  show "evolves (same outbound) (vault_get w v r actor reason)"
    unfolding vault_get_def open_secret_def unwrap_dek_def
    by (intro frame.ev_rules outbound_frames a modify_outbound) (simp_all add: outbound_def)
qed

lemma check_url_outbound [outbound_frames]: "evolves (same outbound) (check_webhook_url E url)"
  by (simp add: evolves_def same_def check_webhook_url_def)

lemma load_secret_outbound [outbound_frames]: "evolves (same outbound) (load_webhook_secret w E p)"
  unfolding load_webhook_secret_def by (intro frame.ev_rules outbound_frames)

text \<open>Recording a failure touches neither the log of posts nor the events delivered.\<close>

definition sent :: "hub \<Rightarrow> http_post list \<times> (nat \<times> string) list" where
  "sent s = (http_posts s, webhooks_delivered s)"

lemma outbound_sent: "evolves (same outbound) m \<Longrightarrow> evolves (same sent) m"
  by (auto simp: evolves_def same_def outbound_def sent_def)

lemma record_failure_sent: "evolves (same sent) (record_webhook_failure w p now)"
proof -
  have "evolves (same sent) (raise_alert w kind entity af)" for kind entity af by (intro outbound_sent outbound_frames)
  then show ?thesis
    unfolding record_webhook_failure_def prune_failures_def file_egress_degraded_def
    by (intro frame.ev_rules modify_frame) (simp_all add: sent_def)
qed

lemma the_now_reads: "the_now w now s = (Inr c, t) \<Longrightarrow> t = s \<or> t = s\<lparr>ticks := Suc (ticks s)\<rparr>"
  by (auto simp: the_now_def ret_def timezone_now_def split: option.splits)


section \<open>Webhooks\<close>

text \<open>The course of a delivery up to the point where it posts.\<close>

lemma deliver_cases:
  assumes "deliver_partner_webhook w E p event sink now s = (x, t)"
  obtains (quiet) "outbound t = outbound s" "x \<in> {Inl DoesNotExist, Inr Disabled, Inr Skipped} \<or> (\<exists>e. payload_and_id event = Inl e \<and> x = Inl e)"
  | (posting) clock u q body i where "the_now w now s = (Inr clock, u)" "u = s \<or> u = s\<lparr>ticks := Suc (ticks s)\<rparr>"
      "find (\<lambda>r. p_pk r = p_pk p) (partners s) = Some q" "\<not> webhook_disabled s q" "payload_and_id event = Inr (body, i)"
      "(p_pk q, message_id (p_pk q) i clock) \<notin> set (webhooks_delivered s)" "strip (p_webhook_url q) \<noteq> []"
      "post_webhook w E (webhook_sink_for sink) q (strip (p_webhook_url q)) (message_id (p_pk q) i clock) body clock u = (x, t)"
proof -
  obtain clock u where u: "the_now w now s = (Inr clock, u)" by (cases now) (auto simp: the_now_def ret_def timezone_now_def)
  note eq = the_now_reads [OF u]
  have out: "outbound u = outbound s" "partners u = partners s" "webhooks_delivered u = webhooks_delivered s" "webhook_disabled u q = webhook_disabled s q" for q
    using eq by (auto simp: outbound_def webhook_disabled_def)
  note run = assms [unfolded deliver_partner_webhook_def bnd_def [of "the_now w now"] u prod.case sum.case bnd_gets out]
  show thesis
  proof (cases "find (\<lambda>r. p_pk r = p_pk p) (partners s)")
    case None
    with run out quiet show thesis by (auto simp: throw_def)
  next
    case (Some q)
    show thesis
    proof (cases "webhook_disabled s q")
      case True
      with run Some out quiet show thesis by (auto simp: ret_def bnd_gets)
    next
      case False
      show thesis
      proof (cases "payload_and_id event")
        case (Inl e)
        with run Some False out quiet show thesis by (auto simp: of_sum_def bnd_def throw_def gets_def)
      next
        case (Inr bi)
        obtain body i where bi: "payload_and_id event = Inr (body, i)" using Inr by (cases bi) auto
        let ?id = "message_id (p_pk q) i clock"
        have step: "(if (p_pk q, ?id) \<in> set (webhooks_delivered s) \<or> strip (p_webhook_url q) = [] then ret Skipped
            else post_webhook w E (webhook_sink_for sink) q (strip (p_webhook_url q)) ?id body clock) u = (x, t)"
          using run Some False bi by (simp add: of_sum_def bnd_gets Let_def out)
        show thesis
        proof (cases "(p_pk q, ?id) \<in> set (webhooks_delivered s) \<or> strip (p_webhook_url q) = []")
          case True
          with step out quiet show thesis by (auto simp: ret_def)
        next
          case fresh: False
          with step have "post_webhook w E (webhook_sink_for sink) q (strip (p_webhook_url q)) ?id body clock u = (x, t)" by simp
          with posting u eq Some False bi fresh show thesis by blast
        qed
      qed
    qed
  qed
qed

text \<open>The course of posting: refused on the way, refused by the sink, or delivered.\<close>

lemma post_cases:
  assumes "post_webhook w E sink q url msg_id body clock u = (x, t)"
  obtains (refused) e where "outbound t = outbound u" "x = Inl e"
  | (posted) row secret headers v y v' where "validate_webhook_url (eg_lookup E (ticks u)) url True = Inr (strip url)"
      "newest_secret u WebhookSecret ''partner'' (str_nat (p_pk q)) = Some row" "vault_get w (eg_vault E) row None ''partner webhook sign'' u = (Inr secret, v)"
      "sign_standard_webhook w secret msg_id clock body = Inr headers" "outbound v = outbound u" "sink url headers (utf8 body) v = (y, v')"
      "case y of Inr _ \<Rightarrow> x = Inr Delivered \<and> t = v'\<lparr>webhooks_delivered := (p_pk q, msg_id) # webhooks_delivered v'\<rparr>
       | Inl (WebhookDeliveryError m) \<Rightarrow> (\<exists>z. record_webhook_failure w q clock v' = (z, t) \<and> x = (case z of Inl e \<Rightarrow> Inl e | Inr _ \<Rightarrow> Inl (WebhookDeliveryError m)))
       | Inl e \<Rightarrow> x = Inl e \<and> t = v'"
proof (cases "validate_webhook_url (eg_lookup E (ticks u)) url True")
  case (Inl e)
  with assms refused show thesis by (cases e) (auto simp: post_webhook_def andThen_def bnd_def check_webhook_url_def)
next
  case (Inr url')
  then have ok: "check_webhook_url E url u = (Inr (), u)" "url' = strip url"
    by (auto simp: check_webhook_url_def validate_webhook_url_def Let_def split: if_splits option.splits sum.splits)
  obtain l v where l: "load_webhook_secret w E q u = (l, v)" by fastforce
  have v: "outbound v = outbound u" using load_secret_outbound l by (rule frameD)
  note run = assms [unfolded post_webhook_def andThen_def [of "check_webhook_url E url"] bnd_def [of "check_webhook_url E url"] ok(1) prod.case sum.case
      bnd_def [of "load_webhook_secret w E q"] l]
  show thesis
  proof (cases l)
    case (Inl e)
    with run v refused show thesis by auto
  next
    case secret: (Inr secret)
    obtain row where row: "newest_secret u WebhookSecret ''partner'' (str_nat (p_pk q)) = Some row"
        "vault_get w (eg_vault E) row None ''partner webhook sign'' u = (Inr secret, v)"
      using l secret by (auto simp: load_webhook_secret_def bnd_gets throw_def split: option.splits)
    show thesis
    proof (cases "sign_standard_webhook w secret msg_id clock body")
      case (Inl e)
      with run secret v refused show thesis by (auto simp: of_sum_def bnd_def throw_def)
    next
      case headers: (Inr headers)
      obtain y v' where y: "sink url headers (utf8 body) v = (y, v')" by fastforce
      let ?h = "(\<lambda>e. case e of WebhookDeliveryError _ \<Rightarrow> andThen (record_webhook_failure w q clock) (throw e) | _ \<Rightarrow> throw e) :: exn \<Rightarrow> unit act"
      have rest: "andThen (try_except (sink url headers (utf8 body)) ?h)
          (andThen (modify (\<lambda>s. s\<lparr>webhooks_delivered := (p_pk q, msg_id) # webhooks_delivered s\<rparr>)) (ret Delivered)) v = (x, t)"
        using run secret headers by (simp add: of_sum_def)
      have "case y of Inr _ \<Rightarrow> x = Inr Delivered \<and> t = v'\<lparr>webhooks_delivered := (p_pk q, msg_id) # webhooks_delivered v'\<rparr>
       | Inl (WebhookDeliveryError m) \<Rightarrow> (\<exists>z. record_webhook_failure w q clock v' = (z, t) \<and> x = (case z of Inl e \<Rightarrow> Inl e | Inr _ \<Rightarrow> Inl (WebhookDeliveryError m)))
       | Inl e \<Rightarrow> x = Inl e \<and> t = v'"
      proof (cases y)
        case (Inr a)
        with rest y show ?thesis by (simp add: andThen_def try_except_def bnd_def modify_def ret_def)
      next
        case (Inl e)
        obtain r u' where r: "record_webhook_failure w q clock v' = (r, u')" by fastforce
        define z where "z = (case e of WebhookDeliveryError m \<Rightarrow> (case r of Inl e' \<Rightarrow> e' | Inr _ \<Rightarrow> e) | _ \<Rightarrow> e)"
        define t' where "t' = (case e of WebhookDeliveryError m \<Rightarrow> u' | _ \<Rightarrow> v')"
        have "?h e v' = (Inl z, t')" using r by (cases e; cases r) (simp_all add: z_def t'_def andThen_def bnd_def throw_def)
        with rest y Inl have "x = Inl z" "t = t'" by (simp_all add: andThen_def try_except_def bnd_def)
        then show ?thesis using Inl r by (cases e; cases r) (simp_all add: z_def t'_def)
      qed
      with posted Inr ok(2) row headers v y show thesis by blast
    qed
  qed
qed


lemma http_sink_posts:
  "http_sink E url headers body s = (x, t) \<Longrightarrow>
    t = s\<lparr>http_posts := http_posts s @ [\<lparr>hp_url = url, hp_headers = (''Content-Type'', ''application/json'') # headers, hp_body = body\<rparr>]\<rparr>"
  by (auto simp: http_sink_def Let_def)

lemma post_adds_one:
  assumes "post_webhook w E (http_sink E) q url msg_id body clock u = (x, t)"
  obtains (nothing) "http_posts t = http_posts u"
  | (one) headers where "http_posts t = http_posts u @ [\<lparr>hp_url = url, hp_headers = (''Content-Type'', ''application/json'') # headers, hp_body = utf8 body\<rparr>]"
      "validate_webhook_url (eg_lookup E (ticks u)) url True = Inr (strip url)"
      "\<exists>row secret v. newest_secret u WebhookSecret ''partner'' (str_nat (p_pk q)) = Some row \<and> vault_get w (eg_vault E) row None ''partner webhook sign'' u = (Inr secret, v) \<and>
        sign_standard_webhook w secret msg_id clock body = Inr headers"
  using assms
proof (cases rule: post_cases)
  case (refused e)
  then have "http_posts t = http_posts u" by (simp add: outbound_def)
  then show thesis by (rule nothing)
next
  case (posted row secret headers v y v')
  have "http_posts v = http_posts u" using posted(5) by (simp add: outbound_def)
  with http_sink_posts [OF posted(6)] have v': "http_posts v' = http_posts u @ [\<lparr>hp_url = url, hp_headers = (''Content-Type'', ''application/json'') # headers, hp_body = utf8 body\<rparr>]" by simp
  have "http_posts t = http_posts v'"
  proof (cases y)
    case (Inr a)
    with posted(7) show ?thesis by simp
  next
    case (Inl e)
    show ?thesis using posted(7) Inl frameD [OF record_failure_sent] by (cases e) (auto simp: sent_def)
  qed
  with v' posted one show thesis by auto
qed

text \<open>
  C21: A webhook leaves the hub only when everything is in order. If delivering an event over HTTP made any request, then the partner as stored is not
  disabled and the event was not delivered before; exactly one POST was added, to the stored URL, which the check with a fresh lookup
  has accepted, so that every address of its host is public; and its headers carry the id, the time and the keyed digest over id,
  time and body under the newest secret that the vault holds for this partner.
\<close>

theorem webhook_post_guarded:
  assumes "deliver_partner_webhook w E p event (Some (http_sink E)) now s = (x, t)" "http_posts t \<noteq> http_posts s"
  shows "\<exists>q body i clock row secret v key n host. find (\<lambda>r. p_pk r = p_pk p) (partners s) = Some q \<and> \<not> webhook_disabled s q \<and>
    payload_and_id event = Inr (body, i) \<and> (p_pk q, message_id (p_pk q) i clock) \<notin> set (webhooks_delivered s) \<and>
    (let url = strip (p_webhook_url q); msg_id = message_id (p_pk q) i clock; ts = str_int (clock div 1000000) in
     map_option us_hostname (urlsplit url) = Some (Some host) \<and> list_all (\<lambda>r. \<exists>a. ip_address r = Some a \<and> public_addr a) (reached (eg_lookup E n) host) \<and>
     newest_secret s WebhookSecret ''partner'' (str_nat (p_pk q)) = Some row \<and> fst (vault_get w (eg_vault E) row None ''partner webhook sign'' v) = Inr secret \<and>
     webhook_key secret = Inr key \<and>
     http_posts t = http_posts s @ [\<lparr>hp_url = url, hp_headers = [(''Content-Type'', ''application/json''), (''webhook-id'', msg_id),
       (''webhook-timestamp'', ts), (''webhook-signature'', webhook_signature w key msg_id ts body)], hp_body = utf8 body\<rparr>])"
  using assms(1)
proof (cases rule: deliver_cases)
  case quiet
  with assms(2) show ?thesis by (simp add: outbound_def)
next
  case (posting clock u q body i)
  have same: "http_posts u = http_posts s" "newest_secret u = newest_secret s"
    using posting(2) by (auto simp: newest_secret_def fun_eq_iff)
  from posting(8) show ?thesis unfolding webhook_sink_for_def option.case
  proof (cases rule: post_adds_one)
    case nothing
    with assms(2) same show ?thesis by simp
  next
    case (one headers)
    from one(3) obtain row secret v where r: "newest_secret u WebhookSecret ''partner'' (str_nat (p_pk q)) = Some row"
      "vault_get w (eg_vault E) row None ''partner webhook sign'' u = (Inr secret, v)"
      "sign_standard_webhook w secret (message_id (p_pk q) i clock) clock body = Inr headers" by blast
    obtain key where key: "webhook_key secret = Inr key" "headers = [(''webhook-id'', message_id (p_pk q) i clock), (''webhook-timestamp'', str_int (clock div 1000000)),
        (''webhook-signature'', webhook_signature w key (message_id (p_pk q) i clock) (str_int (clock div 1000000)) body)]"
      using r(3) by (auto simp: sign_standard_webhook_def Let_def split: sum.splits)
    from webhook_accepted [OF one(2)] obtain host where host: "map_option us_hostname (urlsplit (strip (p_webhook_url q))) = Some (Some host)"
      "list_all (\<lambda>r. \<exists>a. ip_address r = Some a \<and> public_addr a) (reached (eg_lookup E (ticks u)) host)" by (auto simp: strip_idem)
    have read: "fst (vault_get w (eg_vault E) row None ''partner webhook sign'' u) = Inr secret" using r(2) by simp
    have stored: "newest_secret s WebhookSecret ''partner'' (str_nat (p_pk q)) = Some row" using r(1) same(2) by simp
    note log_now = one(1) [unfolded key(2) same(1)]
    show ?thesis unfolding Let_def
      by (rule exI [of _ q], rule exI [of _ body], rule exI [of _ i], rule exI [of _ clock], rule exI [of _ row], rule exI [of _ secret], rule exI [of _ u],
          rule exI [of _ key], rule exI [of _ "ticks u"], rule exI [of _ host], intro conjI posting(3-6) host stored read key(1) log_now)
  qed
qed


lemma found_key: "find (\<lambda>r. p_pk r = p_pk p) ps = Some q \<Longrightarrow> p_pk q = p_pk p"
  using find_Some_mem by fastforce

lemma delivered_key:
  assumes "deliver_partner_webhook w E p event sink now s = (Inr Delivered, t)" "payload_and_id event = Inr (body, i)"
  obtains clock u where "the_now w now s = (Inr clock, u)" "(p_pk p, message_id (p_pk p) i clock) \<in> set (webhooks_delivered t)"
    "\<exists>q. find (\<lambda>r. p_pk r = p_pk p) (partners s) = Some q"
  using assms(1)
proof (cases rule: deliver_cases)
  case (posting clock u q body' i')
  from posting(8) show thesis
  proof (cases rule: post_cases)
    case (posted row secret headers v y v')
    have "\<exists>a. y = Inr a"
    proof (cases y)
      case (Inl e)
      have "(case z of Inl e \<Rightarrow> Inl e | Inr _ \<Rightarrow> Inl (WebhookDeliveryError m)) \<noteq> Inr Delivered" for z :: "exn + unit" and m by (cases z) simp_all
      then show ?thesis using posted(7) Inl by (cases e) (auto dest: sym)
    qed simp
    then have "(p_pk q, message_id (p_pk q) i' clock) \<in> set (webhooks_delivered t)" using posted(7) by auto
    with posting(1,3,5) assms(2) found_key [OF posting(3)] that show thesis by auto
  qed simp
qed (use assms(2) in auto)

lemma known_event_quiet:
  assumes "deliver_partner_webhook w E p event sink now v = (x, u)" "payload_and_id event = Inr (body, i)"
    and "\<And>clock z. the_now w now v = (Inr clock, z) \<Longrightarrow> (p_pk p, message_id (p_pk p) i clock) \<in> set (webhooks_delivered v)"
  shows "x \<in> {Inl DoesNotExist, Inr Disabled, Inr Skipped} \<and> outbound u = outbound v"
  using assms(1)
proof (cases rule: deliver_cases)
  case quiet
  with assms(2) show ?thesis by auto
next
  case (posting clock z q body' i')
  with assms(2) found_key [OF posting(3)] assms(3) [OF posting(1)] show ?thesis by simp
qed

text \<open>
  An event is delivered to a partner once. After a delivery has reported success, delivering an event with the same id to that partner again, in any
  later state, at any time and through any sink, makes no request and changes neither the record of deliveries nor that of failures.
\<close>

theorem webhook_sent_once:
  assumes "deliver_partner_webhook w E p event sink now s = (Inr Delivered, t)" "payload_and_id event = Inr (body, i)" "i \<noteq> []"
    and "set (webhooks_delivered t) \<subseteq> set (webhooks_delivered v)" "payload_and_id event' = Inr (body', i)"
    and "deliver_partner_webhook w' E' p event' sink' now' v = (x, u)"
  shows "x \<in> {Inl DoesNotExist, Inr Disabled, Inr Skipped} \<and> outbound u = outbound v"
proof -
  from assms(1,2) obtain clock z where "(p_pk p, message_id (p_pk p) i clock) \<in> set (webhooks_delivered t)" by (rule delivered_key)
  then have "(p_pk p, message_id (p_pk p) i clock') \<in> set (webhooks_delivered v)" for clock' using assms(3,4) by (auto simp: message_id_def)
  with known_event_quiet [OF assms(6,5)] show ?thesis by blast
qed

text \<open>
  An event without an id is named after the second in which it is sent. A second such event of the same second is reported as skipped and is never sent,
  whatever it says.
\<close>

theorem second_event_of_second_lost:
  assumes "deliver_partner_webhook w E p (EventText a) sink (Some now) s = (Inr Delivered, t)" "now' div 1000000 = now div 1000000"
    and "deliver_partner_webhook w E p (EventText b) sink' (Some now') t = (x, u)"
  shows "x \<in> {Inl DoesNotExist, Inr Disabled, Inr Skipped} \<and> outbound u = outbound t"
proof -
  obtain clock z where k: "the_now w (Some now) s = (Inr clock, z)" "(p_pk p, message_id (p_pk p) [] clock) \<in> set (webhooks_delivered t)"
    using assms(1) by (rule delivered_key [where body = a and i = "[]"]) simp_all
  then have "(p_pk p, message_id (p_pk p) [] now') \<in> set (webhooks_delivered t)" using assms(2) by (simp add: the_now_def ret_def message_id_def)
  then show ?thesis using known_event_quiet [OF assms(3), of b "[]"] by (simp add: the_now_def ret_def)
qed

text \<open>A connection that cannot be made is an \<open>OSError\<close> and no \<open>WebhookDeliveryError\<close>: it is never counted, so it never disables the partner.\<close>

theorem unreachable_webhook_uncounted:
  assumes "deliver_partner_webhook w E p event (Some (http_sink E)) now s = (x, t)" "\<And>ps. eg_post E ps = SinkRaises (OtherError ''URLError'')"
  shows "webhook_failures t = webhook_failures s"
  using assms(1)
proof (cases rule: deliver_cases)
  case (posting clock u q body i)
  have u: "webhook_failures u = webhook_failures s" using posting(2) by auto
  from posting(8) show ?thesis unfolding webhook_sink_for_def option.case
  proof (cases rule: post_cases)
    case (posted row secret headers v y v')
    have "y = Inl (OtherError ''URLError'')" using posted(6) by (simp add: http_sink_def Let_def assms(2))
    moreover have "webhook_failures v' = webhook_failures u" using http_sink_posts [OF posted(6)] posted(5) by (simp add: outbound_def)
    ultimately show ?thesis using posted(7) u by simp
  qed (simp add: outbound_def u)
qed (simp add: outbound_def)



section \<open>Failures disable\<close>

lemma filing_leaves_live:
  assumes "finding w engine fp (Some ws) flds s = (Inr row, u)" "stream_wired s" "findings_wf s"
  shows "live_finding u ws fp \<noteq> None"
proof -
  have "copy_given flds" using assms(1) finding_refused [of flds] by (metis Inr_not_Inl prod.inject)
  with finding_ok [OF assms(2)] assms(1) obtain k where "announced k (s\<lparr>findings := filed s engine ws fp flds (w_clock w (ticks s))\<rparr>) u" by (metis snd_conv)
  from announced_fields [OF this] have "findings u = filed s engine ws fp flds (w_clock w (ticks s))" by simp
  then have "finding_at u ws fp = Some (filed_row s engine ws fp flds (w_clock w (ticks s)))"
    using finding_at_filed [OF assms(3), of engine ws fp flds "w_clock w (ticks s)" ws fp] by (simp add: finding_at_def)
  then show ?thesis using filed_live by (simp add: live_finding_def)
qed

text \<open>Raising an alert about a watched finding leaves it unresolved.\<close>

context watched_finding
begin

lemma raised_stays_live:
  assumes run: "raise_alert w kind entity af s = (Inr p, t)" and ok: "stream_wired s" "findings_wf s"
    and af: "af_fingerprint af = Some fp" "fp \<noteq> []" "af_workspace af = Some ws"
  shows "live_finding t ws fp \<noteq> None"
proof -
  obtain row u where u: "file_alert w kind entity af s = (Inr row, u)"
    and rest: "bnd (after_raise w row) (\<lambda>p. andThen (maybe_deliver_with (report_failure w) w p) (ret p)) u = (Inr p, t)"
    using run by (auto simp: raise_alert_def fst_bnd_Inr)
  obtain engine flds where f: "finding w engine fp (Some ws) flds s = (Inr row, u)"
    using u af by (auto simp: file_alert_def bnd_gets throw_def split: sum.splits list.splits)
  note live = filing_leaves_live [OF f ok]
  have "keeps_live ws fp s u" using file_alert_live u by (rule live.evolvesD)
  then have "stream_wired u" "findings_wf u" using ok by (simp_all add: keeps_live_def)
  moreover have "keeps_live ws fp u t" using raise_alert_rest_live rest by (rule live.evolvesD)
  ultimately show ?thesis using live by (simp add: keeps_live_def)
qed

end

interpretation egress: watched_finding ws "degraded_fp p" for ws p
  by unfold_locales (simp_all add: degraded_fp_def STORM_FINDING_FP_def is_flap_fp_def FLAPPING_PREFIX_def)

lemma degraded_live:
  assumes "record_webhook_failure w q now s = (Inr (), t)" "stream_wired s" "findings_wf s"
    and "4 \<le> length (filter (\<lambda>x. now - hours 24 \<le> x) (webhook_failures s (p_pk q)))"
  shows "live_finding t (p_workspace q) (degraded_fp q) \<noteq> None"
proof -
  let ?rows = "filter (\<lambda>x. now - RETRY_WINDOW \<le> x) (webhook_failures s (p_pk q))"
  let ?s = "s\<lparr>webhook_failures := (webhook_failures s)(p_pk q := ?rows @ [now])\<rparr>"
  have many: "MAX_ATTEMPTS \<le> length (?rows @ [now])" using assms(4) by (simp add: MAX_ATTEMPTS_def RETRY_WINDOW_def)
  have "file_egress_degraded w q ?s = (Inr (), t)"
    using assms(1) many by (simp add: record_webhook_failure_def prune_failures_def bnd_def gets_def andThen_def modify_def ret_def when_do_def)
  then obtain p where run: "raise_alert w ''hub-egress-degraded'' (''partner:'' @ str_nat (p_pk q)) (degraded_facts q) ?s = (Inr p, t)"
    by (auto simp: file_egress_degraded_def fst_bnd_Inr ret_def)
  have "stream_wired ?s" "findings_wf ?s" using assms(2,3) by (simp_all add: findings_wf_def)
  from egress.raised_stays_live [OF run this] show ?thesis by (simp add: degraded_facts_def degraded_fp_def)
qed

text \<open>
  C22: Five refusals in a day stop the deliveries to a partner. When a refused delivery is recorded and four others were within the last 24 hours, the
  finding about this partner is unresolved afterwards, and unless the operator has accepted the risk the partner is disabled: the next
  delivery, of any event through any sink, reports that and sends nothing.
\<close>

theorem failed_webhooks_disable:
  assumes "record_webhook_failure w q now s = (Inr (), t)" "stream_wired s" "findings_wf s"
    and "4 \<le> length (filter (\<lambda>x. now - hours 24 \<le> x) (webhook_failures s (p_pk q)))" "find (\<lambda>r. p_pk r = p_pk q) (partners s) = Some q"
  shows "\<exists>row. finding_at t (p_workspace q) (degraded_fp q) = Some row \<and> f_state row \<noteq> Resolved \<and>
    (f_state row = Accepted \<or> (\<exists>u. deliver_partner_webhook w' E q event sink later t = (Inr Disabled, u) \<and> outbound u = outbound t))"
proof -
  obtain row where row: "finding_at t (p_workspace q) (degraded_fp q) = Some row" "f_state row \<noteq> Resolved"
    using degraded_live [OF assms(1-4)] by (auto simp: live_finding_def split: option.splits if_splits)
  have "evolves (same partners) (record_webhook_failure w q now)"
  proof -
    have "evolves (same partners) (raise_alert w kind entity af)" for kind entity af
      by (rule engine_field [OF _ raise_alert_engine]) (simp add: beside_engine_def)
    then show ?thesis unfolding record_webhook_failure_def prune_failures_def file_egress_degraded_def by (intro frame.ev_rules modify_frame) simp_all
  qed
  from frameD [OF this assms(1)] assms(5) have partners: "find (\<lambda>r. p_pk r = p_pk q) (partners t) = Some q" by simp
  show ?thesis
  proof (cases "f_state row = Accepted")
    case False
    then have "f_state row \<in> {Open, Acked}" using row(2) by (cases "f_state row") simp_all
    then have off: "webhook_disabled t q" using finding_at_key [OF row(1)] by (auto simp: webhook_disabled_def list_ex_iff)
    obtain clock u where u: "the_now w' later t = (Inr clock, u)" by (cases later) (auto simp: the_now_def ret_def timezone_now_def)
    then have eq: "u = t \<or> u = t\<lparr>ticks := Suc (ticks t)\<rparr>" by (rule the_now_reads)
    then have "find (\<lambda>r. p_pk r = p_pk q) (partners u) = Some q" "webhook_disabled u q" "outbound u = outbound t"
      using partners off by (auto simp: webhook_disabled_def outbound_def)
    then have "deliver_partner_webhook w' E q event sink later t = (Inr Disabled, u) \<and> outbound u = outbound t"
      by (simp add: deliver_partner_webhook_def bnd_def [of "the_now w' later"] u bnd_gets ret_def)
    with row show ?thesis by blast
  qed (use row in blast)
qed



section \<open>The dead-man ping\<close>

lemma utf8_decode_utf8: "utf8_decode (utf8 x) = Some x"
proof (induction x)
  case (Cons c x)
  have small: "(of_char c :: nat) < 256" by (rule nat_of_char_less_256)
  show ?case
  proof (cases "(of_char c :: nat) < 128")
    case True
    then have "utf8 (c # x) = c # utf8 x" by (simp add: utf8_def Let_def)
    moreover have "utf8_decode (c # y) = map_option (Cons c) (utf8_decode y)" for y using True by (cases y) simp_all
    ultimately show ?thesis using Cons.IH by simp
  next
    case False
    let ?n = "of_char c :: nat"
    have "utf8 (c # x) = char_of (192 + ?n div 64) # char_of (128 + ?n mod 64) # utf8 x" using False by (simp add: utf8_def Let_def)
    moreover have "128 \<le> ?n \<and> ?n < 192 \<and> ?n div 64 = 2 \<or> ?n div 64 = 3"
      using False small by (cases "?n < 192") (simp_all add: div_nat_eqI)
    moreover have "char_of ((?n div 64) * 64 + ?n mod 64) = c" by (simp only: div_mult_mod_eq char_of_char)
    ultimately show ?thesis using Cons.IH by (elim disjE) (simp_all add: Let_def)
  qed
qed (simp add: utf8_def)

definition probe_view :: "hub \<Rightarrow> http_post list \<times> site list \<times> target list" where
  "probe_view s = (http_posts s, sites s, targets s)"

lemma probe_sites_view: "probe_view t = probe_view s \<Longrightarrow> probe_sites t = probe_sites s"
  by (simp add: probe_view_def probe_sites_def target_by_pk_def [abs_def])

named_theorems probe_frames

lemma engine_probe: "evolves (same beside_engine) m \<Longrightarrow> evolves (same probe_view) m"
  by (rule engine_field [where f = probe_view]) (simp_all add: probe_view_def beside_engine_def)

lemmas engine_probe_frames [probe_frames] = engine_frames [THEN engine_probe]

lemma lock_probe [probe_frames]:
  "evolves (same probe_view) (acquire w scope k kind holder)" "evolves (same probe_view) (release scope k kind h)"
  "evolves (same probe_view) (drop_stale_guard k cutoff)"
  by (auto simp: evolves_def same_def probe_view_def acquire_def create_lock_def release_def drop_stale_guard_def prog_defs try_except_def atomically_def Let_def
      timezone_now_def split: sum.splits prod.splits if_splits)

lemma record_transition_probe [probe_frames]: "evolves (same probe_view) (record_transition w entity kind st moment)"
  unfolding record_transition_def by (intro frame.ev_rules probe_frames modify_frame) (simp add: probe_view_def)

lemma probe_one_probe [probe_frames]: "evolves (same probe_view) (probe_one w now site t answer)"
proof -
  have "evolves (same probe_view) (finish_probe w now site t answer)"
    unfolding finish_probe_def Let_def by (intro frame.ev_rules probe_frames)
  moreover have "evolves (same probe_view) (bnd (audit w c) (\<lambda>_. ret x))" for c and x :: probe_row by (intro frame.ev_rules probe_frames)
  ultimately show ?thesis unfolding probe_one_def by (cases answer) simp_all
qed

lemma probe_all_probe [probe_frames]: "evolves (same probe_view) (probe_all w get now n rows)"
  by (induction rows arbitrary: n) (auto intro!: frame.ev_rules probe_frames split: prod.splits)

lemma cycle_probe [probe_frames]: "evolves (same probe_view) (run_cycle w get now)" "evolves (same probe_view) (probe_cycle w get now)"
proof -
  show run: "evolves (same probe_view) (run_cycle w get now)" unfolding run_cycle_def Let_def by (intro frame.ev_rules probe_frames)
  show "evolves (same probe_view) (probe_cycle w get now)"
    unfolding probe_cycle_def acquire_probe_lock_def acquire_guard_def skip_cycle_def release_guard_def by (intro frame.ev_rules probe_frames run)
qed

lemma probe_all_length: "probe_all w get now n rows s = (Inr rs, t) \<Longrightarrow> length rs = length rows"
  by (induction rows arbitrary: n s rs t) (auto simp: ret_def fst_bnd_Inr Let_def split: prod.splits)

lemma completed_cycle:
  assumes "probe_cycle w get now s = (Inr c, u)" "cr_completed c"
  shows "list_all (\<lambda>r. \<not> is_error_row r) (cr_results c) \<and> length (cr_results c) = length (probe_sites s)"
proof -
  obtain got v where v: "acquire_probe_lock w s = (Inr got, v)" and rest: "(case got of None \<Rightarrow> skip_cycle w
      | Some _ \<Rightarrow> try_finally (run_cycle w get now) (release_guard PROBE_LOCK_ID PROBE_HOLDER)) v = (Inr c, u)"
    using assms(1) by (auto simp: probe_cycle_def fst_bnd_Inr)
  have sites: "probe_sites v = probe_sites s"
    using v unfolding acquire_probe_lock_def acquire_guard_def by (intro probe_sites_view frameD [where m = "acquire_guard _ _ _ _"])
      (auto simp: acquire_guard_def intro!: frame.ev_rules probe_frames)
  show ?thesis
  proof (cases got)
    case None
    with rest assms(2) show ?thesis by (auto simp: skip_cycle_def fst_bnd_Inr ret_def)
  next
    case (Some l)
    then obtain v' where "run_cycle w get now v = (Inr c, v')"
      using rest by (auto simp: try_finally_def split: prod.splits sum.splits)
    then obtain rs where rs: "probe_all w get now 0 (probe_sites v) v = (Inr rs, v')" "cr_results c = rs" "cr_completed c = (filter is_error_row rs = [])"
      by (auto simp: run_cycle_def bnd_gets fst_bnd_Inr Let_def ret_def)
    then show ?thesis using probe_all_length [OF rs(1)] assms(2) sites by (auto simp: list_all_iff filter_empty_conv)
  qed
qed


text \<open>Resolving the receiver, filing and auditing post nothing; the ping posts at most once.\<close>

lemma deadman_outbound [outbound_frames]:
  "evolves (same outbound) (resolve_receiver_url w E)" "evolves (same outbound) (file_deadman_finding w E reason)"
  unfolding resolve_receiver_url_def file_deadman_finding_def by (intro frame.ev_rules outbound_frames)+

definition after_ping :: "world \<Rightarrow> egress_env \<Rightarrow> http_answer \<Rightarrow> ping_outcome act" where
  "after_ping w E answer = (case answer of
     ProbeFailed name \<Rightarrow> throw (OtherError name)
   | _ \<Rightarrow> if ping_ok answer
       then bnd (audit w (audit_args ''deadman-ping'' None)) (\<lambda>_. ret \<lparr>po_pinged = True, po_ok = True, po_reason = [], po_n = 0\<rparr>)
       else andThen (file_deadman_finding w E (ping_reason answer))
         (bnd (audit w ((audit_args ''deadman-ping-failed'' None)\<lparr>ac_severity := SevWarning,
             ac_detail := [(''status'', JInt (case answer of Status n \<Rightarrow> n | _ \<Rightarrow> 0))]\<rparr>))
           (\<lambda>_. ret \<lparr>po_pinged = True, po_ok = False, po_reason = [], po_n = 0\<rparr>)))"

lemma after_ping_outbound: "evolves (same outbound) (after_ping w E answer)"
  unfolding after_ping_def by (cases answer) (auto intro!: frame.ev_rules outbound_frames)

lemma ping_cases:
  assumes "ping w E s = (x, t)"
  obtains (unread) e where "resolve_receiver_url w E s = (Inl e, t)" "x = Inl e"
  | (unsent) found u y why why' where "resolve_receiver_url w E s = (Inr found, u)" "file_deadman_finding w E why u = (y, t)" "x = map_sum id (\<lambda>_. silent why') y"
      "case found of None \<Rightarrow> True | Some url \<Rightarrow> \<not> https_receiver url"
  | (posted) url u v answer where "resolve_receiver_url w E s = (Inr (Some url), u)" "https_receiver url" "answer = eg_ping E (http_posts v)"
      "v = u\<lparr>http_posts := http_posts u @ [\<lparr>hp_url = url, hp_headers = [], hp_body = []\<rparr>]\<rparr>" "after_ping w E answer v = (x, t)"
proof (cases "resolve_receiver_url w E s")
  case (Pair r u)
  have quiet: "andThen (file_deadman_finding w E why) (ret z) u = (x, t) \<Longrightarrow> file_deadman_finding w E why u = (map_sum id (\<lambda>_. ()) x, t) \<and> x = map_sum id (\<lambda>_. z) (map_sum id (\<lambda>_. ()) x)"
    for why and z :: ping_outcome by (auto simp: andThen_def bnd_def ret_def split: prod.splits sum.splits)
  show thesis
  proof (cases r)
    case (Inl e)
    with Pair assms unread show thesis by (simp add: ping_def bnd_def)
  next
    case (Inr found)
    note run = assms [unfolded ping_def bnd_def [of "resolve_receiver_url w E"] Pair Inr prod.case sum.case]
    show thesis
    proof (cases "case found of None \<Rightarrow> True | Some url \<Rightarrow> \<not> https_receiver url")
      case True
      with run quiet Pair Inr unsent show thesis by (cases found) fastforce+
    next
      case False
      then obtain url where url: "found = Some url" "https_receiver url" by (cases found) auto
      let ?v = "u\<lparr>http_posts := http_posts u @ [\<lparr>hp_url = url, hp_headers = [], hp_body = []\<rparr>]\<rparr>"
      have "deadman_post E url u = (Inr (eg_ping E (http_posts ?v)), ?v)" using url(2) by (simp add: deadman_post_def Let_def)
      then have "after_ping w E (eg_ping E (http_posts ?v)) ?v = (x, t)" using run url by (simp add: bnd_def [of "deadman_post E url"] after_ping_def)
      with posted Pair Inr url show thesis by blast
    qed
  qed
qed

lemma ping_posts:
  assumes "ping w E s = (x, t)" "http_posts t \<noteq> http_posts s"
  obtains url u where "resolve_receiver_url w E s = (Inr (Some url), u)" "https_receiver url"
    "http_posts t = http_posts s @ [\<lparr>hp_url = url, hp_headers = [], hp_body = []\<rparr>]"
  using assms(1)
proof (cases rule: ping_cases)
  case (unread e)
  with assms(2) frameD [OF deadman_outbound(1) unread(1)] show thesis by (simp add: outbound_def)
next
  case (unsent found u y why why')
  with assms(2) frameD [OF deadman_outbound(1) unsent(1)] frameD [OF deadman_outbound(2) unsent(2)] show thesis by (simp add: outbound_def)
next
  case (posted url u v answer)
  have "outbound t = outbound v" "outbound u = outbound s" by (rule frameD [OF after_ping_outbound posted(5)], rule frameD [OF deadman_outbound(1) posted(1)])
  then have "http_posts t = http_posts s @ [\<lparr>hp_url = url, hp_headers = [], hp_body = []\<rparr>]" using posted(4) by (simp add: outbound_def)
  with posted that show thesis by blast
qed



text \<open>
  A ping that fails is filed. When the ping returns, it was heard by the receiver and no finding changes, or the finding about the receiver is
  unresolved: without a configured receiver, with one that is not https, one that cannot be reached and one that answers outside 200 to 299.
\<close>

lemma journal_queue: "evolves (same beside_journal) m \<Longrightarrow> evolves (same queue_view) m"
  by (auto simp: evolves_def same_def queue_view_def dest: beside_journal_fields)

lemma vault_get_queue: "evolves (same queue_view) (vault_get w v r actor reason)"
  unfolding vault_get_def open_secret_def unwrap_dek_def of_sum_def
  by (intro frame.ev_rules queue_frames journal_queue [OF vault_audit_journal] modify_frame) (simp_all add: queue_view_def)

lemma resolve_queue: "evolves (same queue_view) (resolve_receiver_url w E)"
  unfolding resolve_receiver_url_def by (intro frame.ev_rules vault_get_queue)

lemma deadman_filed:
  assumes "file_deadman_finding w E why s = (Inr (), t)" "stream_wired s" "findings_wf s"
  shows "live_finding t default_ws DEADMAN_FINDING_FINGERPRINT \<noteq> None"
proof -
  obtain row where "finding w ''monitor.deadman'' DEADMAN_FINDING_FINGERPRINT (Some default_ws) (deadman_fields E why) s = (Inr row, t)"
    using assms(1) by (auto simp: file_deadman_finding_def fst_bnd_Inr ret_def)
  then show ?thesis using assms(2,3) by (rule filing_leaves_live)
qed

lemma after_ping_filed:
  assumes "after_ping w E answer s = (Inr out, t)" "stream_wired s" "findings_wf s"
  shows "if po_ok out then findings t = findings s else live_finding t default_ws DEADMAN_FINDING_FINGERPRINT \<noteq> None"
proof (cases "ping_ok answer")
  case True
  then obtain n where "answer = Status n" by (cases answer) simp_all
  with True assms(1) obtain e where "audit w (audit_args ''deadman-ping'' None) s = (Inr e, t)" "po_ok out"
    by (auto simp: after_ping_def fst_bnd_Inr ret_def)
  then show ?thesis using frameD [OF basic_queue(1)] by (fastforce simp: queue_view_def)
next
  case False
  with assms(1) obtain u c e where u: "file_deadman_finding w E (ping_reason answer) s = (Inr (), u)" "audit w c u = (Inr e, t)" "\<not> po_ok out"
    by (cases answer) (auto simp: after_ping_def andThen_def fst_bnd_Inr ret_def throw_def split: if_splits)
  have "findings t = findings u" using frameD [OF basic_queue(1) u(2)] by (simp add: queue_view_def)
  with deadman_filed [OF u(1) assms(2,3)] u(3) show ?thesis by (simp add: live_finding_def finding_at_def)
qed

lemma failed_ping_is_filed:
  assumes "ping w E s = (Inr out, t)" "stream_wired s" "findings_wf s"
  shows "if po_ok out then findings t = findings s else live_finding t default_ws DEADMAN_FINDING_FINGERPRINT \<noteq> None"
  using assms(1)
proof (cases rule: ping_cases)
  case (unsent found u y why why')
  have "queue_view u = queue_view s" by (rule frameD [OF resolve_queue unsent(1)])
  then have "stream_wired u" "findings_wf u" using assms(2,3) by (simp_all add: queue_view_def findings_wf_def)
  moreover have "y = Inr ()" "\<not> po_ok out" using unsent(3) by (cases y; simp add: silent_def)+
  ultimately show ?thesis using deadman_filed unsent(2) by simp
next
  case (posted url u v answer)
  have "queue_view v = queue_view s" using frameD [OF resolve_queue posted(1)] posted(4) by (simp add: queue_view_def)
  then have "stream_wired v" "findings_wf v" "findings v = findings s" using assms(2,3) by (simp_all add: queue_view_def findings_wf_def)
  with after_ping_filed [OF posted(5)] show ?thesis by simp
qed simp

text \<open>
  The docstring of \<open>ping\<close> says that every failure files the finding. A receiver secret that the vault cannot open raises past all filings: the task
  ends in an exception, nothing is posted and the queue of findings is as before.
\<close>

theorem undecryptable_receiver_unfiled:
  assumes "newest_secret s ApiToken ''deadman'' (eg_deadman_ref E) = Some r" "vault_get w (eg_vault E) r None ''dead-man ping'' s = (Inl e, t)"
  shows "ping w E s = (Inl e, t) \<and> findings t = findings s \<and> http_posts t = http_posts s"
proof -
  have "ping w E s = (Inl e, t)" using assms by (simp add: ping_def resolve_receiver_url_def bnd_def gets_def)
  then show ?thesis using frameD [OF vault_get_queue assms(2)] frameD [OF vault_outbound(2) assms(2)] by (simp add: queue_view_def outbound_def)
qed


section \<open>The canary rule\<close>

text \<open>Whatever the canary answers, every candidate is named once: in its own page, or in the one notice that stands for all of them.\<close>

lemma mass_outage_names_all:
  assumes "declare_mass_outage answer candidates = Inr alerts"
  shows "concat (map (\<lambda>a. if oa_severity a = P1 then [oa_entity a] else oa_suppressed a) alerts) = candidates \<and>
    (list_all (\<lambda>a. oa_severity a = P1) alerts \<or> length alerts = 1)"
  using assms by (cases answer) (auto simp: declare_mass_outage_def canary_ok_def comp_def list_all_iff split: if_splits)

text \<open>
  The docstring of \<open>canary_ok\<close> says that any response counts, since the question is egress. A response from 500 on does not count: an outage of the
  canary's own server suppresses the pages of all sites.
\<close>

theorem canary_error_suppresses_pages:
  assumes "500 \<le> n"
  shows "\<exists>a. declare_mass_outage (Status n) candidates = Inr [a] \<and> oa_kind a = ''hub-egress-degraded'' \<and> oa_suppressed a = candidates"
  using assms by (simp add: declare_mass_outage_def canary_ok_def)


section \<open>Instances\<close>

text \<open>One site, one partner, and two secrets in the vault: the partner's webhook secret and the receiver of the ping.\<close>

definition terse_world :: world where
  "terse_world = calm_world\<lparr>w_sha256 := (\<lambda>_. ''0''), w_hmac := (\<lambda>_ _. ''00'')\<rparr>"

definition open_net :: egress_env where
  "open_net = \<lparr>eg_vault = keyfile_vault, eg_lookup = (\<lambda>_ _. HostAddresses [''93.184.216.34'']), eg_post = (\<lambda>_. SinkOk), eg_ping = (\<lambda>_. Status 200),
     eg_deadman_ref = ''hub''\<rparr>"

definition vaulted :: "nat \<Rightarrow> secret_kind \<Rightarrow> string \<Rightarrow> string \<Rightarrow> string \<Rightarrow> secret" where
  "vaulted k kind ot oid p = \<lparr>se_pk = k, se_kind = kind, se_owner_type = ot, se_owner_id = oid, se_ciphertext = front (build_aad kind ot oid) @ p,
     se_wrapped_dek = gcm_wrap keyfile_vault [] (replicate 12 (CHR ''n'')) (replicate 32 (CHR ''d'')), se_nonce = replicate 12 (CHR ''n''),
     se_kek_id = ''local-1'', se_fingerprint = [], se_created_at = 0, se_created_by = None, se_last_used_at = None\<rparr>"

definition hooked_partner :: partner where
  "hooked_partner = demo_partner\<lparr>p_webhook_url := ''https://hooks.example.com/in''\<rparr>"

definition sending_hub :: hub where
  "sending_hub = empty_hub\<lparr>sites := [sample_site], targets := [sample_target], partners := [hooked_partner],
    secrets := [vaulted 1 WebhookSecret ''partner'' ''1'' ''whsec_c2VjcmV0'', vaulted 2 ApiToken ''deadman'' ''hub'' ''https://alive.example.net/1'']\<rparr>"

theorem webhook_post_guarded_witness:
  "\<exists>x t q. deliver_partner_webhook terse_world open_net hooked_partner (EventText ''{}'') (Some (http_sink open_net)) (Some 5000000) sending_hub = (x, t) \<and>
     http_posts t \<noteq> http_posts sending_hub \<and> find (\<lambda>r. p_pk r = p_pk hooked_partner) (partners sending_hub) = Some q \<and> \<not> webhook_disabled sending_hub q"
proof -
  let ?run = "deliver_partner_webhook terse_world open_net hooked_partner (EventText ''{}'') (Some (http_sink open_net)) (Some 5000000) sending_hub"
  have "length (http_posts (snd ?run)) = 1" by code_simp
  then have posts: "http_posts (snd ?run) \<noteq> http_posts sending_hub" by (auto simp: sending_hub_def empty_hub_def)
  obtain x t where run: "?run = (x, t)" by (cases ?run)
  with posts have "http_posts t \<noteq> http_posts sending_hub" by simp
  with webhook_post_guarded [OF run this] run show ?thesis by blast
qed

theorem failed_webhooks_disable_witness:
  "\<exists>t row. record_webhook_failure terse_world hooked_partner 5 (sending_hub\<lparr>webhook_failures := (\<lambda>_. [1, 2, 3, 4])\<rparr>) = (Inr (), t) \<and>
     finding_at t (p_workspace hooked_partner) (degraded_fp hooked_partner) = Some row \<and> f_state row \<noteq> Resolved"
proof -
  let ?s = "sending_hub\<lparr>webhook_failures := (\<lambda>_. [1, 2, 3, 4])\<rparr>"
  let ?run = "record_webhook_failure terse_world hooked_partner 5 ?s"
  have "isl (fst ?run) = False" by code_simp
  moreover obtain y t where "?run = (y, t)" by (cases ?run)
  ultimately have run: "?run = (Inr (), t)" by (cases y) simp_all
  have "stream_wired ?s" "findings_wf ?s" "find (\<lambda>r. p_pk r = p_pk hooked_partner) (partners ?s) = Some hooked_partner"
    by (simp_all add: sending_hub_def empty_hub_def findings_wf_def)
  moreover have "4 \<le> length (filter (\<lambda>x. 5 - hours 24 \<le> x) (webhook_failures ?s (p_pk hooked_partner)))" by code_simp
  ultimately show ?thesis
    using failed_webhooks_disable [OF run, where w' = terse_world and E = open_net and event = "EventText []" and sink = None and later = None] run by blast
qed


end
