(* ===== verification/Spec2Isabelle.thy ===== *)
theory Spec2Isabelle
  imports Liveness Reconcile_Facts Rbac Cycle_Facts Intake_Facts Overflow_Facts Attack_Facts
    Vault_Facts Cert_Facts Traffic_Facts Validators Retention_Facts Egress_Facts
begin

text \<open>
  Deploy Hub: a Django control plane that builds, ships and runs web sites on a fleet of machines. This
  library models its core and proves what makes it correct.

  \<^bold>\<open>The program.\<close> A deployment of a site runs nine named steps on the site's target machine
  (\<open>deploys/pipeline.py\<close> drives \<open>deploys/steps.py\<close>) while it holds operation locks on the site and on the
  target (\<open>core/locks.py\<close>). A worker that dies leaves a stale heartbeat, and a sweep (\<open>deploys/heartbeat.py\<close>)
  settles or re-enqueues the deployment. Between deployments a reconciler (\<open>reconcile/loop.py\<close>) compares
  desired with observed containers and repairs differences under brakes and a budget. Everything that
  happens is written to a hash-chained audit trail (\<open>core/audit.py\<close>), and what an operator must look at is
  filed in the queue of findings (\<open>core/findings.py\<close>). Engines file there through the alert engine, which turns
  probe results into alerts and alerts into pages and mails with hysteresis, flap, storm and grouping rules
  (\<open>monitor/alerts.py\<close>, \<open>monitor/antinoise.py\<close>, \<open>monitor/pager.py\<close>); one such engine proposes, and only proposes,
  to scale a site out when its host has been under pressure (\<open>scaling/\<close>). An accepted proposal leads to a copy on a rented
  machine, whose address is published beside the primary's and withdrawn before the machine is terminated
  (\<open>deploys/overflow.py\<close>). A zone with attack-shaped traffic is put under protection and closed to scaling until all its
  sites are calm (\<open>monitor/attack_playbook.py\<close>, \<open>monitor/attack_detector.py\<close>); the traffic rows it judges come from access logs that
  a collector pulls from every target once a minute (\<open>monitor/collector.py\<close>, \<open>monitor/traffic.py\<close>), and a nightly sweep deletes old rows and archives old
  logs (\<open>monitor/retention.py\<close>). Secrets, among them the keys of
  the certificates that the hub issues, pushes and watches (\<open>deploys/certs.py\<close>, \<open>deploys/dns01.py\<close>, \<open>monitor/cert_watch.py\<close>), are encrypted rows
  of a vault (\<open>vault/service.py\<close>, \<open>vault/kek.py\<close>). Operators act through HTTP views guarded by
  workspace roles (\<open>core/rbac.py\<close>, \<open>core/permissions.py\<close>). Workers accept a task only with a signed envelope
  (\<open>core/task_envelope.py\<close>). On its own account the hub sends signed webhooks to partners (\<open>core/partner_webhooks.py\<close>) and, after every complete probe
  cycle, a ping to an outside watcher (\<open>monitor/deadman.py\<close>). Two outside sources start deployments: moved heads of Git branches (\<open>deploys/poller.py\<close>),
  and partners, whose signed requests an intake process queues in an outbox that the hub polls, verifies again and turns into
  sites of their own (\<open>monitor/intake_poll.py\<close>, \<open>core/partner_verify.py\<close>, \<open>core/partner_jobs.py\<close>).

  \<^bold>\<open>How it is modelled.\<close> \<open>Models\<close> has one record per table and one datatype per choice field of
  \<open>core/models/fleet.py\<close> and \<open>deploys/models.py\<close>; the record \<open>hub\<close> is all tables plus the log of calls made to
  targets and DNS providers. A handler is a program over that state which returns a value or raises,
  and keeps the rows it wrote when it raises (\<open>Prelude\<close>: \<open>bnd\<close>, \<open>throw\<close>, \<open>try_except\<close>, \<open>try_finally\<close>, \<open>atomically\<close>).
  The record \<open>world\<close> holds what the code calls and does not contain: the remote shell and the DNS provider
  as arbitrary functions of the history of calls, the clocks, the digest, the JSON reader. The record
  \<open>ports\<close> of \<open>Steps\<close> holds the collaborators left as parameters: certificate service, parameter store,
  runbook writer, environment snapshot, provider registry. Hypotheses about them are named: \<open>ports_keep\<close>
  (they write no deployment, step, lock, target or manifest row), \<open>ports_append\<close> (they only add calls),
  \<open>provider_reads\<close> (looking up the DNS provider of a zone changes nothing), all of which hold for \<open>quiet_ports\<close>;
  \<open>replica_keeps\<close> (starting a tunnel replica writes no lock), \<open>client_errors\<close> (the intake client raises its own errors
  only) and \<open>reads_json\<close> (the JSON reader refuses a blank text). The vault takes its cipher, random source, key file and key service from the record
  \<open>vault_env\<close>; \<open>sound_crypto\<close> says that decryption inverts encryption, \<open>binds\<close> that associated data is authenticated, \<open>same_keys\<close> that two
  configurations reach the same keys. \<open>file_server\<close> says that a target's answers come from a file system, \<open>issuers_keep\<close> that the
  certificate issuers neither reach the target nor the vault, \<open>env_keeps_locks\<close> that the host sample is stored without touching a lock, \<open>idna_plain\<close> that the IDNA encoder returns no line
  feed; each has an instance. Programs that satisfy a frame or a relation are treated through the locale
  \<open>evolution\<close> of \<open>Prelude\<close>, interpreted for the tables left alone, the calls issued, the clock and the locks;
  the locale \<open>lock_service\<close> of \<open>Locks\<close> is the contract of mutual exclusion, interpreted on \<open>acquire\<close> and \<open>release\<close>;
  the locale \<open>filing_layer\<close> of \<open>Alert_Facts\<close> is what the storm breaker and its relatives need of the function
  that files an alert, interpreted for the one inside the hook and the one outside;
  the locale \<open>cycle\<close> of \<open>Cycle_Lock\<close> is a guarded run whose work leaves the locks alone, interpreted for the
  probe cycle and the evaluation cycle; the locale \<open>watched_finding\<close> of \<open>Attack_Facts\<close> is a finding that neither the
  storm breaker nor the flap logic resolves, interpreted for the finding of an engaged zone and that of a partner whose webhooks fail. The records \<open>collect_env\<close>, \<open>retention_env\<close> and
  \<open>egress_env\<close> hold the network and the files that the collector, the sweep and the outgoing requests reach.

  \<^bold>\<open>The theories.\<close>
    \<^item> \<open>Prelude\<close>, \<open>Models\<close>, \<open>Json\<close>: Python text, JSON values and their printing, programs, tables.
    \<^item> \<open>Locks\<close>: \<open>core/locks.py\<close>. A lock stays with its holder; exact outcomes of acquire and release.
    \<^item> \<open>Audit_Log\<close>: \<open>core/audit.py\<close>. Every chain verifies after any sequence of events; two accepted chains with
      the same tip are the same; the whole-table check raises a false alarm with two workspaces.
    \<^item> \<open>Findings\<close>: \<open>core/findings.py\<close>, \<open>core/events.py\<close>. Invariant of the queue over all filings and transitions.
    \<^item> \<open>Deploy_Base\<close>, \<open>Desired\<close>, \<open>Steps\<close>, \<open>Step_Facts\<close>: \<open>deploys/steps.py\<close>, \<open>core/hubfs.py\<close>. Idempotence, secrecy
      of environment values, DNS differences, readiness before cutover, certificates of siblings kept,
      single writer under the recreate strategy, end of the health poll.
    \<^item> \<open>Addresses\<close>: IPv4 addresses as 32-bit words, the filter of publishable addresses and the round trip of
      the joined value of a DNS row.
    \<^item> \<open>Pipeline\<close>, \<open>Pipeline_Facts\<close>: \<open>deploys/pipeline.py\<close>, \<open>deploys/seams.py\<close>, \<open>deploys/artifacts.py\<close>. Start,
      run, resume, failure and rollback of a deployment and its locks.
    \<^item> \<open>Liveness\<close>: \<open>deploys/heartbeat.py\<close>, and two findings about starts and rollbacks.
    \<^item> \<open>Reconcile\<close>, \<open>Reconcile_Facts\<close>: \<open>reconcile/loop.py\<close>, \<open>reconcile/tasks.py\<close>. Brakes, lock balance, budget,
      re-arming.
    \<^item> \<open>Rbac\<close>: \<open>core/rbac.py\<close>, \<open>core/permissions.py\<close>. A changing request needs a right in its own workspace.
    \<^item> \<open>Alert_Rules\<close>, \<open>Alerts\<close>, \<open>Antinoise\<close>, \<open>Alert_Facts\<close>: \<open>monitor/alert_rules.py\<close>, \<open>monitor/alerts.py\<close>,
      \<open>monitor/antinoise.py\<close>, \<open>monitor/pager.py\<close>. \<open>observe\<close> refines a machine with two counters and a flag; an
      open alert has an outage in its history; the recovery notice of a P1 alert is never sent; outages of
      other workspaces are not seen by suppression and aggregation.
    \<^item> \<open>Scaling\<close>, \<open>Scaling_Facts\<close>: \<open>scaling/pressure.py\<close>, \<open>scaling/destination.py\<close>, \<open>scaling/attack_gate.py\<close>,
      \<open>scaling/evaluator.py\<close>. The streak decision equals a description without buckets; a site under attack or
      owned by a partner is never proposed.
    \<^item> \<open>Cycle_Lock\<close>, \<open>Uptime\<close>, \<open>Cycle_Facts\<close>: \<open>monitor/uptime.py\<close> and the guard against overlapping cycles that it
      shares with the evaluator. The alert engine writes only its own tables and the journals, a cycle gives
      back exactly the lock it took, and a cycle that overruns frees the lock of its successor.
    \<^item> \<open>Task_Envelope\<close>: \<open>core/task_envelope.py\<close>, \<open>deploys/tasks.py\<close>. An honest envelope runs its task, an unsigned one
      changes nothing, an accepted one is refused afterwards; an odd signature escapes the report, and an envelope can
      be used twice in its last second.
    \<^item> \<open>Partner_Verify\<close>, \<open>Partner_Jobs\<close>: \<open>core/partner_verify.py\<close>, \<open>core/partner_jobs.py\<close>, \<open>core/partner_templates.py\<close>,
      \<open>deploys/partner_ledger.py\<close>. Replays, signatures, quotas, isolation of partner sites, one deployment per job.
    \<^item> \<open>Git_Poll\<close>: \<open>deploys/poller.py\<close>. A pushed item only wakes the poller.
    \<^item> \<open>Intake_Poll\<close>, \<open>Intake_Facts\<close>: \<open>monitor/intake_poll.py\<close>. A poll keeps the constraints of the tables, records its
      outcome, and creates rows from signed items only.
    \<^item> \<open>Overflow\<close>, \<open>Overflow_Facts\<close>: \<open>deploys/overflow.py\<close>, the termination of \<open>provision/aws_enroll.py\<close>,
      \<open>monitor/overflow_reaper.py\<close>. No copy without acceptance, locks given back, addresses withdrawn before the machine
      goes, joined addresses published again.
    \<^item> \<open>Attack\<close>, \<open>Attack_Facts\<close>: \<open>monitor/attack_detector.py\<close>, \<open>monitor/attack_playbook.py\<close>. The exact comparison of
      scores, a tripped zone is closed, a zone is relaxed only when all its sites are calm.
    \<^item> \<open>Vault\<close>, \<open>Vault_Facts\<close>: \<open>vault/service.py\<close>, \<open>vault/kek.py\<close>, \<open>vault/backup.py\<close>. A secret survives every rotation of the key
      backend, a ciphertext moved to another owner is refused, a sealed backup opens again.
    \<^item> \<open>Certificates\<close>, \<open>Cert_Facts\<close>: \<open>deploys/certs.py\<close>, \<open>deploys/dns01.py\<close>, \<open>monitor/cert_watch.py\<close>. A pair is replaced or restored as a
      whole, its key is in the vault before any byte leaves, the expiry scan's findings; the certificate service satisfies \<open>ports_keep\<close>, so the
      facts about deployments hold with it in place of the parameter. Three findings.
    \<^item> \<open>Validators\<close>: \<open>core/validators.py\<close> over the address and URL readers of Python's library. An accepted webhook URL reaches public addresses
      only, an accepted domain is a normal form; one finding.
    \<^item> \<open>Egress\<close>, \<open>Egress_Facts\<close>: \<open>core/partner_webhooks.py\<close>, \<open>monitor/deadman.py\<close>, the task \<open>probe_uptime\<close>. A webhook is posted once, signed, to a checked address;
      refusals disable a partner; a ping vouches for a whole probe cycle, and a failed one is filed. Four findings.
    \<^item> \<open>Retention\<close>, \<open>Retention_Facts\<close>: \<open>monitor/retention.py\<close>. Deleting in batches is a filter, no log is lost, and nothing that the attack detector or
      the evaluator reads is deleted.
    \<^item> \<open>Traffic\<close>, \<open>Traffic_Facts\<close>: \<open>monitor/collect_once.py\<close> (log part), \<open>monitor/traffic.py\<close>, \<open>monitor/collector.py\<close> and the collection cycle. Every
      line is counted once where it belongs, a window is taken in once, chunks are bounded, no target stops the cycle. Two findings.

  \<^bold>\<open>Bounds.\<close> The only loop without a structural bound is the health poll. It takes the field \<open>w_poll_fuel\<close>;
  \<open>health_check_ends\<close> shows that, for a clock that passes every bound, every large enough fuel is never
  exhausted. Reading lines and swallowing an oversized line in the log summary are recursions on the rest of the file with a termination proof, the two loops of the retention sweep recursions on the old rows that are left. The alert engine calls itself; a module counter stops it after one level, and the model has one
  definition per level (suffix \<open>_with\<close> for the parts both levels share) instead of fuel. Primary keys are natural numbers, times integers of microseconds, percentages rationals.

  \<^bold>\<open>Not modelled.\<close> The crash hook of the kill matrix, the registry branch of the ship step (no caller sets
  the registry), the retry of database errors, and the parts the program only reaches through
  parameters: providers, runbook text, the push and mail back ends and the
  scrubber of outgoing texts. The signal handlers that republish the fleet map after a save are left out: they
  write no table. Scores of the attack detector are compared exactly and not as floating-point quotients. The jitter
  and the injected test client of the intake poll, \<open>git ls-remote\<close> and the resolver (in the poller the whole check of a Git URL is a function of the world) and
  the construction of provider clients are left out. Ciphers, key generation and certificate issuers are parameters; sleeping for the
  collector's jitter and the host metrics part of its script are left out. The intake process and the HTTP front of the partner interface, enrolment and provisioning, the scanner and the wizard are further components.
\<close>

end
